(* ===== verification/Hub_Prelude.thy ===== *)
theory Hub_Prelude
  imports Main "HOL-Library.List_Lexorder" "HOL-Library.Char_ord"
    "HOL-Library.Monad_Syntax" "HOL-Library.Multiset"
begin

text \<open>
  What the component theories share: Go's 64-bit integer arithmetic, decimal texts, lookup
  and update of rows by a key, and the shape of an operation that reads and changes the
  world and may return an error (a state monad over a sum), with the rule that lifts a
  relation between states from the primitive operations to a composed one.
\<close>

named_theorems keeps_rules \<open>introduction rules for \<open>keeps\<close>\<close>
named_theorems op_defs \<open>definitions of operations, to be unfolded by a proof about them\<close>

section \<open>Machine integers\<close>

text \<open>
  Go's \<open>int\<close> and \<open>int64\<close> are 64 bits wide on the platforms the program is built for. They
  are modelled by \<open>int\<close>, with the wrap-around written out wherever the code adds,
  subtracts or multiplies.
\<close>

definition wrap64 :: "int \<Rightarrow> int" where
  "wrap64 k = signed_take_bit 63 k"

definition int64 :: "int \<Rightarrow> bool" where
  "int64 k \<longleftrightarrow> - (2 ^ 63) \<le> k \<and> k < 2 ^ 63"

lemma wrap64_id: "int64 k \<Longrightarrow> wrap64 k = k"
  by (simp add: int64_def wrap64_def signed_take_bit_int_eq_self_iff)

lemma int64_wrap64 [simp]: "int64 (wrap64 k)"
  using signed_take_bit_int_greater_eq_minus_exp [of 63 k] signed_take_bit_int_less_exp [of 63 k]
  by (simp only: int64_def wrap64_def simp_thms)

text \<open>Go's integer division truncates towards zero.\<close>

definition go_div :: "int \<Rightarrow> int \<Rightarrow> int" where
  "go_div a b = sgn a * sgn b * (\<bar>a\<bar> div \<bar>b\<bar>)"

lemma go_div_nonneg: "0 \<le> a \<Longrightarrow> 0 < b \<Longrightarrow> go_div a b = a div b"
  by (cases "a = 0") (simp_all add: go_div_def)

section \<open>Decimal texts\<close>

definition digit :: "nat \<Rightarrow> char" where
  "digit n = ''0123456789'' ! (n mod 10)"

fun show_nat :: "nat \<Rightarrow> string" where
  "show_nat n = (if n < 10 then [digit n] else show_nat (n div 10) @ [digit (n mod 10)])"

declare show_nat.simps [simp del]

definition show_int :: "int \<Rightarrow> string" where
  \<comment> \<open>the verb \<open>%d\<close> of fmt, and strconv.Itoa\<close>
  "show_int k = (if k < 0 then CHR ''-'' # show_nat (nat (- k)) else show_nat (nat k))"

section \<open>Rows by key\<close>

definition find_key :: "('a \<Rightarrow> 'k) \<Rightarrow> 'k \<Rightarrow> 'a list \<Rightarrow> 'a option" where
  "find_key key k rows = find (\<lambda>r. key r = k) rows"

definition update_where :: "('a \<Rightarrow> bool) \<Rightarrow> ('a \<Rightarrow> 'a) \<Rightarrow> 'a list \<Rightarrow> 'a list" where
  "update_where p f rows = map (\<lambda>r. if p r then f r else r) rows"

lemma find_key_Some: "find_key key k rows = Some r \<Longrightarrow> r \<in> set rows \<and> key r = k"
  by (auto simp: find_key_def find_Some_iff)

lemma find_key_None_iff: "find_key key k rows = None \<longleftrightarrow> k \<notin> key ` set rows"
  by (auto simp: find_key_def find_None_iff)

lemma find_key_Nil [simp]: "find_key key k [] = None"
  by (simp add: find_key_def)

lemma find_key_Cons [simp]:
  "find_key key k (r # rows) = (if key r = k then Some r else find_key key k rows)"
  by (simp add: find_key_def)

lemma find_key_append:
  "find_key key k (rows @ rows') =
     (case find_key key k rows of Some r \<Rightarrow> Some r | None \<Rightarrow> find_key key k rows')"
  by (induction rows) simp_all

lemma find_key_distinct:
  "distinct (map key rows) \<Longrightarrow> r \<in> set rows \<Longrightarrow> find_key key (key r) rows = Some r"
  by (induction rows) force+

lemma map_update_where:
  "(\<And>r. p r \<Longrightarrow> key (f r) = key r) \<Longrightarrow> map key (update_where p f rows) = map key rows"
  by (auto simp: update_where_def)

lemma length_update_where [simp]: "length (update_where p f rows) = length rows"
  by (simp add: update_where_def)

lemma find_key_update_where:
  assumes "\<And>r. p r \<Longrightarrow> key (f r) = key r"
  shows "find_key key k (update_where p f rows) =
     map_option (\<lambda>r. if p r then f r else r) (find_key key k rows)"
  using assms by (induction rows) (auto simp: update_where_def)

lemma set_update_where:
  "set (update_where p f rows) = (\<lambda>r. if p r then f r else r) ` set rows"
  by (simp add: update_where_def)

section \<open>Tables that grow\<close>

text \<open>
  A later state of a table: the old rows are still there, in their places, each related to what
  it was, and new rows stand behind them.
\<close>

definition extends :: "('a \<Rightarrow> 'a \<Rightarrow> bool) \<Rightarrow> 'a list \<Rightarrow> 'a list \<Rightarrow> bool" where
  "extends R xs ys \<longleftrightarrow> (\<exists>zs new. ys = zs @ new \<and> list_all2 R xs zs)"

lemma extends_refl: "reflp R \<Longrightarrow> extends R xs xs"
  by (auto simp: extends_def reflp_def intro!: list_all2_refl)

lemma extends_trans:
  assumes "transp R" and "extends R xs ys" and "extends R ys zs"
  shows "extends R xs zs"
proof -
  obtain ys1 new where ys: "ys = ys1 @ new" "list_all2 R xs ys1" using assms(2) by (auto simp: extends_def)
  obtain zs1 new' where zs: "zs = zs1 @ new'" "list_all2 R (ys1 @ new) zs1"
    using assms(3) ys by (auto simp: extends_def)
  then obtain zs2 zs3 where z: "zs1 = zs2 @ zs3" "list_all2 R ys1 zs2"
    by (auto simp: list_all2_append1)
  have "list_all2 R xs zs2"
    using ys(2) z(2) assms(1) by (auto intro: list_all2_trans [of R R R] dest: transpD)
  with zs z show ?thesis by (auto simp: extends_def)
qed

lemma extends_append: "reflp R \<Longrightarrow> extends R xs (xs @ new)"
  by (auto simp: extends_def reflp_def intro!: list_all2_refl)

lemma extends_update_where:
  "reflp R \<Longrightarrow> (\<And>x. x \<in> set xs \<Longrightarrow> p x \<Longrightarrow> R x (f x)) \<Longrightarrow> extends R xs (update_where p f xs)"
  by (rule extends_def [THEN iffD2], rule exI [of _ "update_where p f xs"], rule exI [of _ "[]"])
     (auto simp: update_where_def list_all2_map2 list.rel_map reflp_def intro!: list.rel_refl_strong)

lemma extends_eq_iff: "extends (=) xs ys \<longleftrightarrow> (\<exists>new. ys = xs @ new)"
  by (auto simp: extends_def list.rel_eq)

lemma extends_member: "extends R xs ys \<Longrightarrow> x \<in> set xs \<Longrightarrow> \<exists>y \<in> set ys. R x y"
  by (fastforce simp: extends_def list_all2_conv_all_nth in_set_conv_nth nth_append)

section \<open>Stable sorting, ascending and descending\<close>

definition sort_desc :: "('a \<Rightarrow> 'k::linorder) \<Rightarrow> 'a list \<Rightarrow> 'a list" where
  "sort_desc key xs = rev (sort_key key (rev xs))"

lemma set_sort_desc [simp]: "set (sort_desc key xs) = set xs"
  by (simp add: sort_desc_def)

lemma length_sort_desc [simp]: "length (sort_desc key xs) = length xs"
  by (simp add: sort_desc_def)

lemma mset_sort_desc [simp]: "mset (sort_desc key xs) = mset xs"
  by (simp add: sort_desc_def)

lemma sorted_sort_desc: "sorted (rev (map key (sort_desc key xs)))"
  by (simp add: sort_desc_def rev_map)

section \<open>Operations with state and errors\<close>

text \<open>
  A Go function that reads and writes the world \<open>'w\<close> and returns \<open>(value, error)\<close> is a
  function from the world to the outcome and the new world. \<open>bindM\<close> is the sequence
  \<open>x, err := m; if err != nil { return err }; k x\<close>; the state changes of the part that
  failed are kept, as they are in Go.
\<close>

type_synonym ('e, 'w, 'a) op = "'w \<Rightarrow> ('e + 'a) \<times> 'w"

definition retM :: "'a \<Rightarrow> ('e, 'w, 'a) op" where
  "retM a w = (Inr a, w)"

definition failM :: "'e \<Rightarrow> ('e, 'w, 'a) op" where
  "failM e w = (Inl e, w)"

definition bindM :: "('e, 'w, 'a) op \<Rightarrow> ('a \<Rightarrow> ('e, 'w, 'b) op) \<Rightarrow> ('e, 'w, 'b) op" where
  "bindM m k w = (case m w of (Inl e, w') \<Rightarrow> (Inl e, w') | (Inr a, w') \<Rightarrow> k a w')"

definition mapErr :: "('e \<Rightarrow> 'e) \<Rightarrow> ('e, 'w, 'a) op \<Rightarrow> ('e, 'w, 'a) op" where
  \<comment> \<open>\<open>if err != nil { return fmt.Errorf(...) }\<close>\<close>
  "mapErr f m w = (case m w of (Inl e, w') \<Rightarrow> (Inl (f e), w') | (Inr a, w') \<Rightarrow> (Inr a, w'))"

definition liftE :: "('e + 'a) \<Rightarrow> ('e, 'w, 'a) op" where
  "liftE r w = (r, w)"

definition getM :: "('w \<Rightarrow> 'a) \<Rightarrow> ('e, 'w, 'a) op" where
  "getM f w = (Inr (f w), w)"

definition modM :: "('w \<Rightarrow> 'w) \<Rightarrow> ('e, 'w, unit) op" where
  \<comment> \<open>an assignment to the state\<close>
  "modM f w = (Inr (), f w)"

definition tryM :: "('e, 'w, 'a) op \<Rightarrow> ('f, 'w, 'e + 'a) op" where
  \<comment> \<open>the error is a value that the code goes on to look at\<close>
  "tryM m w = (case m w of (r, w') \<Rightarrow> (Inr r, w'))"

definition check :: "'e option \<Rightarrow> ('e, 'w, unit) op" where
  \<comment> \<open>\<open>if err := ...; err != nil { return err }\<close>\<close>
  "check r = (case r of None \<Rightarrow> retM () | Some e \<Rightarrow> failM e)"

definition fetch :: "('w \<Rightarrow> 'b option) \<Rightarrow> 'e \<Rightarrow> ('e, 'w, 'b) op" where
  \<comment> \<open>\<open>x, ok := m[k]; if !ok { return e }\<close>\<close>
  "fetch sel e w = (case sel w of None \<Rightarrow> (Inl e, w) | Some x \<Rightarrow> (Inr x, w))"

lemmas op_simps = retM_def failM_def bindM_def mapErr_def liftE_def getM_def tryM_def

lemma bindM_Inr:
  "bindM m k w = (Inr b, w') \<longleftrightarrow> (\<exists>a w1. m w = (Inr a, w1) \<and> k a w1 = (Inr b, w'))"
  by (auto simp: bindM_def split: prod.splits sum.splits)

lemma bindM_Inl:
  "bindM m k w = (Inl e, w') \<longleftrightarrow>
     m w = (Inl e, w') \<or> (\<exists>a w1. m w = (Inr a, w1) \<and> k a w1 = (Inl e, w'))"
  by (auto simp: bindM_def split: prod.splits sum.splits)

lemma mapErr_Inr: "mapErr f m w = (Inr a, w') \<longleftrightarrow> m w = (Inr a, w')"
  by (auto simp: mapErr_def split: prod.splits sum.splits)

lemma mapErr_Inl: "mapErr f m w = (Inl e, w') \<longleftrightarrow> (\<exists>e'. m w = (Inl e', w') \<and> e = f e')"
  by (auto simp: mapErr_def split: prod.splits sum.splits)

lemma mapErr_id [simp]: "mapErr (\<lambda>e. e) m = m"
  by (auto simp: mapErr_def fun_eq_iff split: prod.splits sum.splits)

lemma retM_Inr: "retM a w = (r, w') \<longleftrightarrow> r = Inr a \<and> w' = w"
  by (auto simp: retM_def)

lemma failM_Inl: "failM e w = (r, w') \<longleftrightarrow> r = Inl e \<and> w' = w"
  by (auto simp: failM_def)

lemma liftE_eq: "liftE x w = (r, w') \<longleftrightarrow> r = x \<and> w' = w"
  by (auto simp: liftE_def)

lemma getM_eq: "getM f w = (r, w') \<longleftrightarrow> r = Inr (f w) \<and> w' = w"
  by (auto simp: getM_def)

lemma modM_eq: "modM f w = (r, w') \<longleftrightarrow> r = Inr () \<and> w' = f w"
  by (auto simp: modM_def)

lemma check_eq: "check r w = (x, w') \<longleftrightarrow> w' = w \<and> x = (case r of None \<Rightarrow> Inr () | Some e \<Rightarrow> Inl e)"
  by (auto simp: check_def retM_def failM_def split: option.splits)

lemma fetch_eq: "fetch sel e w = (x, w') \<longleftrightarrow> w' = w \<and> x = (case sel w of None \<Rightarrow> Inl e | Some b \<Rightarrow> Inr b)"
  by (auto simp: fetch_def split: option.splits)

lemma tryM_eq: "tryM m w = (r, w') \<longleftrightarrow> (\<exists>x. r = Inr x \<and> m w = (x, w'))"
  by (auto simp: tryM_def split: prod.splits)

text \<open>The outcomes of a composed operation, read backwards from its result.\<close>

lemmas op_results = bindM_Inr bindM_Inl mapErr_Inr mapErr_Inl retM_Inr failM_Inl liftE_eq getM_eq tryM_eq

section \<open>Relations kept by operations\<close>

definition keeps :: "('w \<Rightarrow> 'w \<Rightarrow> bool) \<Rightarrow> ('e, 'w, 'a) op \<Rightarrow> bool" where
  "keeps R m \<longleftrightarrow> (\<forall>w. R w (snd (m w)))"

lemma keepsD: "keeps R m \<Longrightarrow> m w = (r, w') \<Longrightarrow> R w w'"
  by (auto simp: keeps_def dest!: spec [of _ w])

lemma keepsI: "(\<And>w r w'. m w = (r, w') \<Longrightarrow> R w w') \<Longrightarrow> keeps R m"
  by (metis keeps_def prod.collapse)

text \<open>
  The interface: a relation between the state before and after that is reflexive and
  transitive is kept by a composed operation as soon as every part keeps it.
\<close>

locale step_preorder =
  fixes R :: "'w \<Rightarrow> 'w \<Rightarrow> bool"
  assumes step_refl: "R w w"
    and step_trans: "R w1 w2 \<Longrightarrow> R w2 w3 \<Longrightarrow> R w1 w3"
begin

lemma keeps_ret: "keeps R (retM a)"
  by (simp add: keeps_def retM_def step_refl)

lemma keeps_fail: "keeps R (failM e)"
  by (simp add: keeps_def failM_def step_refl)

lemma keeps_lift: "keeps R (liftE r)"
  by (simp add: keeps_def liftE_def step_refl)

lemma keeps_get: "keeps R (getM f)"
  by (simp add: keeps_def getM_def step_refl)

lemma keeps_map: "keeps R m \<Longrightarrow> keeps R (mapErr f m)"
  by (auto simp: keeps_def mapErr_def split: prod.splits sum.splits) (metis snd_conv)+

lemma keeps_bind: "keeps R m \<Longrightarrow> (\<And>a. keeps R (k a)) \<Longrightarrow> keeps R (bindM m k)"
proof (rule keepsI)
  fix w r w'
  assume m: "keeps R m" and k: "\<And>a. keeps R (k a)" and run: "bindM m k w = (r, w')"
  show "R w w'"
  proof (cases "m w")
    case (Pair x w1)
    with m have "R w w1" by (rule keepsD)
    moreover have "R w1 w'"
    proof (cases x)
      case (Inl e)
      with Pair run show ?thesis by (simp add: bindM_def step_refl)
    next
      case (Inr a)
      with Pair run have "k a w1 = (r, w')" by (simp add: bindM_def)
      with k [of a] show ?thesis by (rule keepsD)
    qed
    ultimately show ?thesis by (rule step_trans)
  qed
qed

lemma keeps_if: "keeps R m \<Longrightarrow> keeps R m' \<Longrightarrow> keeps R (if b then m else m')"
  by simp

lemma keeps_try: "keeps R m \<Longrightarrow> keeps R (tryM m)"
  by (auto simp: keeps_def tryM_def split: prod.splits) (metis snd_conv)

lemma keeps_sum: "(\<And>e. keeps R (f e)) \<Longrightarrow> (\<And>a. keeps R (g a)) \<Longrightarrow> keeps R (case_sum f g r)"
  by (cases r) simp_all

lemma keeps_option: "keeps R m \<Longrightarrow> (\<And>a. keeps R (g a)) \<Longrightarrow> keeps R (case_option m g r)"
  by (cases r) simp_all

lemmas keeps_all = keeps_ret keeps_fail keeps_lift keeps_get keeps_map keeps_bind keeps_if keeps_try
  keeps_sum keeps_option

end

section \<open>Simulations\<close>

text \<open>
  The interface of a refinement: every step of the detailed machine is steps of the abstract one,
  or none, on what the abstraction shows of its states.
\<close>

locale simulation =
  fixes abstraction :: "'c \<Rightarrow> 'a"
    and detailed :: "'c \<Rightarrow> 'c \<Rightarrow> bool"
    and abstract :: "'a \<Rightarrow> 'a \<Rightarrow> bool"
  assumes simulated: "detailed c c' \<Longrightarrow> abstract\<^sup>*\<^sup>* (abstraction c) (abstraction c')"
begin

lemma runs_simulated: "detailed\<^sup>*\<^sup>* c c' \<Longrightarrow> abstract\<^sup>*\<^sup>* (abstraction c) (abstraction c')"
  by (induction rule: rtranclp_induct) (auto intro: rtranclp_trans simulated)

lemma invariant_transfers:
  assumes "detailed\<^sup>*\<^sup>* c c'" and "P (abstraction c)" and "\<And>a a'. P a \<Longrightarrow> abstract a a' \<Longrightarrow> P a'"
  shows "P (abstraction c')"
  using runs_simulated [OF assms(1)] by (induction rule: rtranclp_induct) (auto intro: assms(2,3))

end

section \<open>Status machines\<close>

text \<open>
  The interface of a status field: which step is allowed, which statuses are terminal, and
  which values are known to the program. A terminal status allows no step; every other known
  status can be ended in one step.
\<close>

locale status_machine =
  fixes allowed :: "'s \<Rightarrow> 's \<Rightarrow> bool"
    and terminal :: "'s \<Rightarrow> bool"
    and known :: "'s \<Rightarrow> bool"
  assumes terminal_stuck: "terminal s \<Longrightarrow> \<not> allowed s t"
    and can_end: "known s \<Longrightarrow> \<not> terminal s \<Longrightarrow> \<exists>t. allowed s t \<and> terminal t"
    and known_step: "allowed s t \<Longrightarrow> known s \<and> known t"
begin

lemma path_from_terminal: "allowed\<^sup>*\<^sup>* s t \<Longrightarrow> terminal s \<Longrightarrow> t = s"
  by (induction rule: rtranclp_induct) (auto dest: terminal_stuck)

lemma dead_end_iff_terminal: "known s \<Longrightarrow> (\<forall>t. \<not> allowed s t) \<longleftrightarrow> terminal s"
  using can_end terminal_stuck by blast

lemma path_known: "allowed\<^sup>*\<^sup>* s t \<Longrightarrow> known s \<Longrightarrow> known t"
  by (induction rule: rtranclp_induct) (auto dest: known_step)

lemma path_can_end: "allowed\<^sup>*\<^sup>* s t \<Longrightarrow> known s \<Longrightarrow> \<exists>u. allowed\<^sup>*\<^sup>* t u \<and> terminal u"
  using can_end path_known by (metis r_into_rtranclp rtranclp.rtrancl_refl)

end

section \<open>Results without state\<close>

definition bindE :: "'e + 'a \<Rightarrow> ('a \<Rightarrow> 'e + 'b) \<Rightarrow> 'e + 'b" where
  "bindE r k = (case r of Inl e \<Rightarrow> Inl e | Inr a \<Rightarrow> k a)"

lemma bindE_simps [simp]: "bindE (Inr a) k = k a" "bindE (Inl e) k = Inl e"
  by (simp_all add: bindE_def)

lemma bindE_Inr_iff: "bindE r k = Inr b \<longleftrightarrow> (\<exists>a. r = Inr a \<and> k a = Inr b)"
  by (cases r) simp_all

fun mapE :: "('a \<Rightarrow> 'e + 'b) \<Rightarrow> 'a list \<Rightarrow> 'e + 'b list" where
  \<comment> \<open>apply to each element in order, stop at the first error\<close>
  "mapE f [] = Inr []"
| "mapE f (x # xs) = bindE (f x) (\<lambda>y. bindE (mapE f xs) (\<lambda>ys. Inr (y # ys)))"

lemma mapE_Inr_iff: "mapE f xs = Inr ys \<longleftrightarrow> list_all2 (\<lambda>x y. f x = Inr y) xs ys"
  by (induction xs arbitrary: ys) (auto simp: bindE_Inr_iff list_all2_Cons1)

lemma mapE_all: "(\<And>x. x \<in> set xs \<Longrightarrow> f x = Inr (g x)) \<Longrightarrow> mapE f xs = Inr (map g xs)"
  by (induction xs) auto

end
