(* ===== verification/Go_Time.thy ===== *)
theory Go_Time
  imports Hub_Prelude
begin

text \<open>
  The part of Go's package time that the program uses: instants, their RFC 3339 text with
  nanoseconds (\<open>time.RFC3339Nano\<close>) as the index stores it, and reading that text back.
  An instant is the number of nanoseconds since the zero \<open>time.Time\<close>, January 1 of year 1,
  00:00:00 UTC; locations are not modelled, every text is in UTC (\<open>Z\<close>). The year, month
  and day are computed as package time does, over cycles of 400, 100, 4 and 1 years.
\<close>

type_synonym time = int
type_synonym duration = int

definition IsZero :: "time \<Rightarrow> bool" where
  "IsZero t \<longleftrightarrow> t = 0"

abbreviation (input) zero_time :: time where
  "zero_time \<equiv> 0"

definition Before :: "time \<Rightarrow> time \<Rightarrow> bool" where
  "Before t u \<longleftrightarrow> t < u"

definition After :: "time \<Rightarrow> time \<Rightarrow> bool" where
  "After t u \<longleftrightarrow> t > u"

definition Add :: "time \<Rightarrow> duration \<Rightarrow> time" where
  "Add t d = t + d"

definition Sub :: "time \<Rightarrow> time \<Rightarrow> duration" where
  \<comment> \<open>\<open>t.Sub(u)\<close> saturates at the ends of Duration\<close>
  "Sub t u = max (- (2 ^ 63)) (min (2 ^ 63 - 1) (t - u))"

definition nsSecond :: duration where "nsSecond = 1000000000"
definition nsMinute :: duration where "nsMinute = 60 * nsSecond"
definition nsHour :: duration where "nsHour = 60 * nsMinute"

lemmas duration_defs = nsHour_def nsMinute_def nsSecond_def
lemmas time_defs = IsZero_def Before_def After_def Add_def

section \<open>Calendar\<close>

definition leap :: "nat \<Rightarrow> bool" where
  "leap y \<longleftrightarrow> 4 dvd y \<and> (\<not> 100 dvd y \<or> 400 dvd y)"

definition month_lens :: "nat \<Rightarrow> nat list" where
  "month_lens y = [31, if leap y then 29 else 28, 31, 30, 31, 30, 31, 31, 30, 31, 30, 31]"

definition year_split :: "nat \<Rightarrow> nat \<times> nat" where
  \<comment> \<open>days since January 1 of year 1, to the year and the day in the year from 0\<close>
  "year_split d =
     (let n400 = d div 146097; d1 = d mod 146097;
          n100 = min 3 (d1 div 36524); d2 = d1 - 36524 * n100;
          n4 = d2 div 1461; d3 = d2 mod 1461;
          n1 = min 3 (d3 div 365); d4 = d3 - 365 * n1
      in (400 * n400 + 100 * n100 + 4 * n4 + n1 + 1, d4))"

definition days_before_year :: "nat \<Rightarrow> nat" where
  "days_before_year y = (let p = y - 1 in 365 * p + p div 4 - p div 100 + p div 400)"

fun split_month :: "nat list \<Rightarrow> nat \<Rightarrow> nat \<times> nat" where
  "split_month [] d = (1, Suc d)"
| "split_month (l # ls) d =
     (if d < l then (1, Suc d) else (case split_month ls (d - l) of (m, dd) \<Rightarrow> (Suc m, dd)))"

definition days_before_month :: "nat list \<Rightarrow> nat \<Rightarrow> nat" where
  "days_before_month ls m = sum_list (take (m - 1) ls)"

section \<open>Fixed-width digits\<close>

fun pad :: "nat \<Rightarrow> nat \<Rightarrow> string" where
  "pad 0 n = []"
| "pad (Suc w) n = pad w (n div 10) @ [digit (n mod 10)]"

definition is_digit :: "char \<Rightarrow> bool" where
  "is_digit c \<longleftrightarrow> 48 \<le> (of_char c :: nat) \<and> (of_char c :: nat) \<le> 57"

definition digit_val :: "char \<Rightarrow> nat" where
  "digit_val c = of_char c - 48"

definition digits_val :: "string \<Rightarrow> nat" where
  "digits_val s = foldl (\<lambda>v c. 10 * v + digit_val c) 0 s"

fun strip_zeros :: "string \<Rightarrow> string" where
  \<comment> \<open>drop leading zeros; used on the reversed text\<close>
  "strip_zeros [] = []"
| "strip_zeros (c # cs) = (if c = CHR ''0'' then strip_zeros cs else c # cs)"

definition frac_text :: "nat \<Rightarrow> string" where
  \<comment> \<open>the layout's \<open>.999999999\<close>: nanoseconds without trailing zeros, nothing when zero\<close>
  "frac_text ns = (if ns = 0 then [] else CHR ''.'' # rev (strip_zeros (rev (pad 9 ns))))"

section \<open>Formatting and parsing RFC 3339\<close>

definition year_text :: "nat \<Rightarrow> string" where
  "year_text y = (if y < 10000 then pad 4 y else show_nat y)"

definition civil :: "nat \<Rightarrow> nat \<times> nat \<times> nat" where
  \<comment> \<open>days since January 1 of year 1, to year, month and day of the month\<close>
  "civil days = (case year_split days of (y, yd) \<Rightarrow> (y, split_month (month_lens y) yd))"

fun date_text :: "nat \<times> nat \<times> nat \<Rightarrow> string" where
  "date_text (y, m, d) = year_text y @ ''-'' @ pad 2 m @ ''-'' @ pad 2 d"

definition clock_text :: "nat \<Rightarrow> string" where
  \<comment> \<open>a second of the day\<close>
  "clock_text s = pad 2 (s div 3600) @ '':'' @ pad 2 (s mod 3600 div 60) @ '':'' @ pad 2 (s mod 60)"

definition rfc3339nano :: "time \<Rightarrow> string" where
  "rfc3339nano t = date_text (civil (nat t div 1000000000 div 86400)) @ ''T''
     @ clock_text (nat t div 1000000000 mod 86400) @ frac_text (nat t mod 1000000000) @ ''Z''"

definition take_num :: "nat \<Rightarrow> string \<Rightarrow> (nat \<times> string) option" where
  \<comment> \<open>a number of exactly \<open>w\<close> digits at the start of the text\<close>
  "take_num w s = (let ds = take w s in
     if length ds = w \<and> list_all is_digit ds then Some (digits_val ds, drop w s) else None)"

definition take_char :: "char \<Rightarrow> string \<Rightarrow> string option" where
  "take_char c s = (case s of [] \<Rightarrow> None | x # xs \<Rightarrow> if x = c then Some xs else None)"

definition take_frac :: "string \<Rightarrow> (nat \<times> string) option" where
  \<comment> \<open>an optional fraction; digits after the ninth do not count\<close>
  "take_frac s = (case s of
      c # r \<Rightarrow> if c = CHR ''.'' then
          (let ds = takeWhile is_digit r in
           if ds = [] then None
           else Some (digits_val (take 9 (ds @ replicate 9 (CHR ''0''))), dropWhile is_digit r))
        else Some (0, s)
    | [] \<Rightarrow> Some (0, s))"

definition take_zone :: "string \<Rightarrow> int option" where
  \<comment> \<open>\<open>Z\<close>, or a numeric offset in seconds, up to the end of the text\<close>
  "take_zone s = (case s of
      [] \<Rightarrow> None
    | c # r \<Rightarrow> if c = CHR ''Z'' then (if r = [] then Some 0 else None)
        else if c = CHR ''+'' \<or> c = CHR ''-'' then
          do { (h, r1) \<leftarrow> take_num 2 r; r2 \<leftarrow> take_char (CHR '':'') r1; (mi, r3) \<leftarrow> take_num 2 r2;
               if r3 = [] \<and> h < 24 \<and> mi < 60 then
                 Some ((if c = CHR ''+'' then 1 else -1) * int (60 * (60 * h + mi))) else None }
        else None)"

definition valid_date :: "nat \<Rightarrow> nat \<Rightarrow> nat \<Rightarrow> bool" where
  "valid_date y m d \<longleftrightarrow> 1 \<le> m \<and> m \<le> 12 \<and> 1 \<le> d \<and> d \<le> month_lens y ! (m - 1)"

definition unix_of :: "nat \<Rightarrow> nat \<Rightarrow> nat \<Rightarrow> nat \<Rightarrow> nat \<Rightarrow> nat \<Rightarrow> nat \<Rightarrow> time" where
  "unix_of y m d h mi s ns =
     ((int (days_before_year y) + int (days_before_month (month_lens y) m) + int d - 1
        - (if y = 0 then 366 else 0)) * 86400
      + int h * 3600 + int mi * 60 + int s) * 1000000000 + int ns"

definition parse_rfc3339 :: "string \<Rightarrow> time option" where
  "parse_rfc3339 s0 =
     do { (y, s1) \<leftarrow> take_num 4 s0; s2 \<leftarrow> take_char (CHR ''-'') s1;
          (m, s3) \<leftarrow> take_num 2 s2; s4 \<leftarrow> take_char (CHR ''-'') s3;
          (d, s5) \<leftarrow> take_num 2 s4; s6 \<leftarrow> take_char (CHR ''T'') s5;
          (h, s7) \<leftarrow> take_num 2 s6; s8 \<leftarrow> take_char (CHR '':'') s7;
          (mi, s9) \<leftarrow> take_num 2 s8; s10 \<leftarrow> take_char (CHR '':'') s9;
          (se, s11) \<leftarrow> take_num 2 s10;
          (ns, s12) \<leftarrow> take_frac s11;
          off \<leftarrow> take_zone s12;
          if valid_date y m d \<and> h < 24 \<and> mi < 60 \<and> se < 60
          then Some (unix_of y m d h mi se ns - off * 1000000000) else None }"

text \<open>The instants whose text has a four-digit year, the range of RFC 3339.\<close>

definition time_ok :: "time \<Rightarrow> bool" where
  "time_ok t \<longleftrightarrow> 0 \<le> t \<and> t < 315537897600000000000"

section \<open>Evaluation\<close>

lemma pad_numeral: "pad (numeral k) n = pad (pred_numeral k) (n div 10) @ [digit (n mod 10)]"
  by (subst numeral_eq_Suc) (simp only: pad.simps)

lemma pad_numerals:
  "pad 2 n = [digit (n div 10 mod 10), digit (n mod 10)]"
  "pad 4 n = [digit (n div 1000 mod 10), digit (n div 100 mod 10), digit (n div 10 mod 10), digit (n mod 10)]"
  "pad 9 n = [digit (n div 100000000 mod 10), digit (n div 10000000 mod 10), digit (n div 1000000 mod 10),
     digit (n div 100000 mod 10), digit (n div 10000 mod 10), digit (n div 1000 mod 10),
     digit (n div 100 mod 10), digit (n div 10 mod 10), digit (n mod 10)]"
  by (simp_all add: pad_numeral flip: div_mult2_eq)

lemma digit_numerals:
  "digit 0 = CHR ''0''" "digit 1 = CHR ''1''" "digit 2 = CHR ''2''" "digit 3 = CHR ''3''"
  "digit 4 = CHR ''4''" "digit 5 = CHR ''5''" "digit 6 = CHR ''6''" "digit 7 = CHR ''7''"
  "digit 8 = CHR ''8''" "digit 9 = CHR ''9''" "digit (Suc 0) = CHR ''1''"
  by (simp_all add: digit_def)

lemmas time_eval = rfc3339nano_def civil_def clock_text_def year_split_def month_lens_def leap_def year_text_def
  frac_text_def pad_numerals digit_numerals

section \<open>Reading a formatted time back\<close>

text \<open>The years of a 400-year cycle, by their number within the century, the four years and the rest.\<close>

lemma cycle_divisions:
  assumes y: "y = 400 * a + 100 * b + 4 * c + e + 1" and "b \<le> 3" "c \<le> 24" "e \<le> (3::nat)"
  shows "(y - 1) div 4 = 100 * a + 25 * b + c" and "(y - 1) div 100 = 4 * a + b" and "(y - 1) div 400 = a"
proof -
  have "y - 1 = 100 * (4 * a + b) + (4 * c + e)" "4 * c + e < 100" using assms by simp_all
  then show "(y - 1) div 100 = 4 * a + b" by simp
  have "y - 1 = 400 * a + (100 * b + 4 * c + e)" "100 * b + 4 * c + e < 400" using assms by simp_all
  then show "(y - 1) div 400 = a" by simp
qed (use assms in simp)

lemma cycle_leap:
  assumes y: "y = 400 * a + 100 * b + 4 * c + e + 1" and "b \<le> 3" "c \<le> 24" "e \<le> (3::nat)"
  shows "leap y \<longleftrightarrow> e = 3 \<and> (c = 24 \<longrightarrow> b = 3)"
proof -
  have "4 dvd y \<longleftrightarrow> 4 dvd (e + 1)"
    using dvd_add_right_iff [of 4 "4 * (100 * a + 25 * b + c)" "e + 1"] y by (simp add: algebra_simps)
  also have "\<dots> \<longleftrightarrow> e = 3" using assms(4) by presburger
  finally have "4 dvd y \<longleftrightarrow> e = 3" .
  moreover have "100 dvd y \<longleftrightarrow> 100 dvd (4 * c + e + 1)"
    using dvd_add_right_iff [of 100 "100 * (4 * a + b)" "4 * c + e + 1"] y by (simp add: algebra_simps)
  moreover have "100 dvd (4 * c + e + 1) \<longleftrightarrow> 4 * c + e + 1 = 100" using assms(3,4) by (auto dest: dvd_imp_le)
  moreover have "400 dvd y \<longleftrightarrow> 400 dvd (100 * b + 4 * c + e + 1)"
    using dvd_add_right_iff [of 400 "400 * a" "100 * b + 4 * c + e + 1"] y by (simp add: algebra_simps)
  moreover have "400 dvd (100 * b + 4 * c + e + 1) \<longleftrightarrow> 100 * b + 4 * c + e + 1 = 400"
    using assms(2-4) dvd_imp_le [of 400 "100 * b + 4 * c + e + 1"] by auto
  ultimately show ?thesis using assms(2-4) by (auto simp: leap_def)
qed

lemma year_split_correct:
  assumes "year_split d = (y, yd)"
  shows "days_before_year y + yd = d" and "yd < (if leap y then 366 else 365)" and "1 \<le> y"
proof -
  define a where "a = d div 146097"
  define d1 where "d1 = d mod 146097"
  define b where "b = min 3 (d1 div 36524)"
  define d2 where "d2 = d1 - 36524 * b"
  define c where "c = d2 div 1461"
  define d3 where "d3 = d2 mod 1461"
  define e where "e = min 3 (d3 div 365)"
  have y: "y = 400 * a + 100 * b + 4 * c + e + 1" and yd: "yd = d3 - 365 * e"
    using assms unfolding year_split_def Let_def
    unfolding a_def [symmetric] d1_def [symmetric] unfolding b_def [symmetric]
    unfolding d2_def [symmetric] unfolding c_def [symmetric] d3_def [symmetric]
    unfolding e_def [symmetric] by simp_all
  have d: "d = 146097 * a + d1" "d1 < 146097" by (simp_all add: a_def d1_def)
  have b: "b \<le> 3" "36524 * b \<le> d1" by (auto simp: b_def min_def)
  have d2: "d2 < (if b = 3 then 36525 else 36524)" "d1 = 36524 * b + d2"
    using d b by (auto simp: d2_def b_def min_def split: if_splits)
  have c: "d2 = 1461 * c + d3" "d3 < 1461" by (simp_all add: c_def d3_def)
  have c24: "c \<le> 24" using c d2 by (auto split: if_splits)
  have e: "e \<le> 3" "365 * e \<le> d3" by (auto simp: e_def min_def)
  have d3: "d3 - 365 * e < (if e = 3 then 366 else 365)"
    using c(2) e by (auto simp: e_def min_def split: if_splits)
  have last: "c = 24 \<Longrightarrow> b < 3 \<Longrightarrow> e = 3 \<Longrightarrow> d3 - 365 * e < 365"
    using c d2 e by auto
  note cycle = y b(1) c24 e(1)
  show "1 \<le> y" using y by simp
  show "days_before_year y + yd = d"
    unfolding days_before_year_def Let_def cycle_divisions [OF cycle] using y yd d d2 c e by simp
  show "yd < (if leap y then 366 else 365)"
    using d3 last cycle_leap [OF cycle] yd b by (auto split: if_splits)
qed

lemma split_month_correct:
  "split_month ls d = (m, dd) \<Longrightarrow> d < sum_list ls \<Longrightarrow>
     days_before_month ls m + dd = Suc d \<and> 1 \<le> m \<and> m \<le> length ls \<and> 1 \<le> dd \<and> dd \<le> ls ! (m - 1)"
proof (induction ls arbitrary: d m dd)
  case (Cons l ls)
  show ?case
  proof (cases "d < l")
    case True
    with Cons.prems show ?thesis by (auto simp: days_before_month_def)
  next
    case False
    obtain m' where m': "split_month ls (d - l) = (m', dd)" "m = Suc m'"
      using Cons.prems False by (auto split: prod.splits)
    from Cons.IH [OF m'(1)] Cons.prems False
    have "days_before_month ls m' + dd = Suc (d - l)" "1 \<le> m'" "m' \<le> length ls" "1 \<le> dd"
      "dd \<le> ls ! (m' - 1)" by auto
    with False m' show ?thesis by (cases m') (auto simp: days_before_month_def)
  qed
qed simp

lemma month_lens_total: "sum_list (month_lens y) = (if leap y then 366 else 365)"
  by (simp add: month_lens_def)


lemma mod10_cases: "n mod 10 \<in> {0, 1, 2, 3, 4, 5, 6, 7, 8, 9 :: nat}"
  by (simp only: insert_iff empty_iff) presburger

lemma is_digit_digit [simp]: "is_digit (digit n)"
  using mod10_cases [of n] by (auto simp: digit_def is_digit_def)

lemma digit_val_digit [simp]: "digit_val (digit n) = n mod 10"
  using mod10_cases [of n] by (auto simp: digit_def digit_val_def)

lemma length_pad [simp]: "length (pad w n) = w"
  by (induction w arbitrary: n) simp_all

lemma pad_digits: "list_all is_digit (pad w n)"
  by (induction w arbitrary: n) simp_all

lemma digits_val_snoc [simp]: "digits_val (s @ [c]) = 10 * digits_val s + digit_val c"
  by (simp add: digits_val_def)

lemma digits_val_pad: "n < 10 ^ w \<Longrightarrow> digits_val (pad w n) = n"
proof (induction w arbitrary: n)
  case 0
  then show ?case by (simp add: digits_val_def)
next
  case (Suc w)
  then have "n div 10 < 10 ^ w" by (simp add: less_mult_imp_div_less mult.commute)
  with Suc.IH show ?case by simp
qed

lemma take_num_pad: "n < 10 ^ w \<Longrightarrow> take_num w (pad w n @ r) = Some (n, r)"
  by (simp add: take_num_def pad_digits digits_val_pad)

lemma take_char_Cons [simp]: "take_char c (c # r) = Some r"
  by (simp add: take_char_def)

lemma strip_zeros_append: "\<exists>k. s = replicate k (CHR ''0'') @ strip_zeros s"
  by (induction s) (auto intro: exI [of _ "Suc _"] exI [of _ 0])

lemma strip_zeros_set: "set (strip_zeros s) \<subseteq> set s"
  by (induction s) auto

lemma digits_val_zeros: "digits_val (replicate k (CHR ''0'')) = 0"
proof (induction k)
  case (Suc k)
  have "replicate (Suc k) (CHR ''0'') = replicate k (CHR ''0'') @ ''0''"
    by (simp add: replicate_append_same)
  with Suc show ?case by (simp only: digits_val_snoc) (simp add: digit_val_def)
qed (simp add: digits_val_def)

lemma take_frac_text:
  assumes "ns < 1000000000"
  shows "take_frac (frac_text ns @ ''Z'') = Some (ns, ''Z'')"
proof (cases "ns = 0")
  case True
  then show ?thesis by (simp add: frac_text_def take_frac_def)
next
  case False
  define ds where "ds = rev (strip_zeros (rev (pad 9 ns)))"
  obtain k where "rev (pad 9 ns) = replicate k (CHR ''0'') @ strip_zeros (rev (pad 9 ns))"
    using strip_zeros_append by blast
  then have pad: "pad 9 ns = ds @ replicate k (CHR ''0'')"
    by (metis ds_def rev_append rev_replicate rev_rev_ident)
  have val: "digits_val (pad 9 ns) = ns"
    using digits_val_pad [of ns 9] assms by simp
  have ne: "ds \<noteq> []"
  proof
    assume "ds = []"
    with pad have "digits_val (pad 9 ns) = 0" by (simp add: digits_val_zeros)
    with val False show False by simp
  qed
  have dig: "\<forall>c\<in>set ds. is_digit c"
    using pad_digits [of 9 ns] pad by (auto simp: list_all_iff)
  have len: "length ds + k = 9"
    using pad length_pad [of 9 ns] by (metis length_append length_replicate)
  have "take 9 (ds @ replicate 9 (CHR ''0'')) = ds @ replicate k (CHR ''0'')"
    using len by (simp add: take_replicate min_def)
  then have t: "digits_val (take 9 (ds @ replicate 9 (CHR ''0''))) = ns"
    using pad val by simp
  have "\<not> is_digit (CHR ''Z'')" by (simp add: is_digit_def)
  with dig have tw: "takeWhile is_digit (ds @ ''Z'') = ds" "dropWhile is_digit (ds @ ''Z'') = ''Z''"
    by (simp_all add: takeWhile_append dropWhile_append)
  show ?thesis
    using False ne t tw by (simp add: frac_text_def take_frac_def ds_def [symmetric] del: dropWhile_append)
qed


lemma take_num_year: "y < 10000 \<Longrightarrow> take_num 4 (year_text y @ r) = Some (y, r)"
  by (simp add: year_text_def take_num_pad)

lemma take_num_2: "n < 100 \<Longrightarrow> take_num 2 (pad 2 n @ r) = Some (n, r)"
  by (simp add: take_num_pad)

lemma month_len_le: "m < 12 \<Longrightarrow> month_lens y ! m \<le> 31"
  by (auto simp: month_lens_def less_Suc_eq numeral_eq_Suc)

lemma civil_correct:
  assumes "civil days = (y, m, d)"
  shows "days_before_year y + days_before_month (month_lens y) m + d = Suc days"
    and "valid_date y m d" and "1 \<le> y" and "m \<le> 12" and "d \<le> 31"
proof -
  obtain yd where ys: "year_split days = (y, yd)" and sm: "split_month (month_lens y) yd = (m, d)"
    using assms by (cases "year_split days") (auto simp: civil_def)
  note yc = year_split_correct [OF ys]
  have "yd < sum_list (month_lens y)" using yc(2) by (simp add: month_lens_total)
  from split_month_correct [OF sm this]
  have mc: "days_before_month (month_lens y) m + d = Suc yd" "1 \<le> m" "m \<le> 12" "1 \<le> d"
    "d \<le> month_lens y ! (m - 1)" by (auto simp: month_lens_def)
  show "days_before_year y + days_before_month (month_lens y) m + d = Suc days"
    using mc(1) yc(1) by simp
  show "valid_date y m d" using mc by (simp add: valid_date_def)
  show "1 \<le> y" "m \<le> 12" using yc mc by auto
  show "d \<le> 31" using mc month_len_le [of "m - 1" y] by linarith
qed

lemma civil_year_le:
  assumes "civil days = (y, m, d)" and "days < 3652059"
  shows "y < 10000"
proof (rule ccontr)
  assume "\<not> y < 10000"
  then have "9999 \<le> y - 1" by simp
  then have "days_before_year 10000 \<le> days_before_year y"
    unfolding days_before_year_def Let_def by (auto intro!: add_mono)
  moreover have "days_before_year 10000 = 3652059" by (simp add: days_before_year_def)
  ultimately show False
    using civil_correct(1,2) [OF assms(1)] assms(2) by (simp add: valid_date_def)
qed

lemma clock_sum: "s div 3600 * 3600 + s mod 3600 div 60 * 60 + s mod 60 = (s::nat)"
proof -
  have "s mod 3600 mod 60 = s mod 60" by (simp add: mod_mod_cancel)
  then show ?thesis using div_mult_mod_eq [of s 3600] div_mult_mod_eq [of "s mod 3600" 60] by linarith
qed

theorem parse_format:
  assumes "time_ok t"
  shows "parse_rfc3339 (rfc3339nano t) = Some t"
proof -
  define n where "n = nat t"
  define secs where "secs = n div 1000000000"
  define ns where "ns = n mod 1000000000"
  define days where "days = secs div 86400"
  define sod where "sod = secs mod 86400"
  obtain y m d where c: "civil days = (y, m, d)" by (metis prod.collapse)
  note cc = civil_correct [OF c]
  have t: "t = int n" "n < 315537897600000000000" using assms by (auto simp: n_def time_ok_def)
  then have "days < 3652059" by (simp add: days_def secs_def div_less_iff_less_mult)
  then have y: "y < 10000" by (rule civil_year_le [OF c])
  have ns: "ns < 1000000000" and sod: "sod < 86400" by (simp_all add: ns_def sod_def)
  have hms: "sod div 3600 < 24" "sod mod 3600 div 60 < 60" "sod mod 60 < 60"
    using sod by (auto simp: div_less_iff_less_mult)
  have fmt: "rfc3339nano t = year_text y @ ''-'' @ pad 2 m @ ''-'' @ pad 2 d @ ''T''
     @ pad 2 (sod div 3600) @ '':'' @ pad 2 (sod mod 3600 div 60) @ '':'' @ pad 2 (sod mod 60)
     @ frac_text ns @ ''Z''"
    using c by (simp add: rfc3339nano_def clock_text_def n_def secs_def ns_def days_def sod_def)
  have p: "parse_rfc3339 (rfc3339nano t) =
     Some (unix_of y m d (sod div 3600) (sod mod 3600 div 60) (sod mod 60) ns)"
    using cc hms y ns unfolding fmt
    by (simp add: parse_rfc3339_def take_num_year take_num_2 take_frac_text take_zone_def)
  have s: "int (sod div 3600) * 3600 + int (sod mod 3600 div 60) * 60 + int (sod mod 60) = int sod"
    using clock_sum [of sod] by linarith
  have dd: "int (days_before_year y) + int (days_before_month (month_lens y) m) + int d - 1 = int days"
    using cc(1) by linarith
  have "unix_of y m d (sod div 3600) (sod mod 3600 div 60) (sod mod 60) ns
      = (int days * 86400 + int sod) * 1000000000 + int ns"
    using cc(3) unfolding unix_of_def dd by (simp only: s [symmetric]) simp
  also have "\<dots> = int n"
  proof -
    have "(days * 86400 + sod) * 1000000000 + ns = n"
      by (simp add: days_def sod_def secs_def ns_def)
    from arg_cong [OF this, of int] show ?thesis by simp
  qed
  finally show ?thesis using p t(1) by simp
qed

end
