(* ===== verification/Domain.thy ===== *)
theory Domain
  imports Go_Time
begin

text \<open>
  The package internal/domain: the errors and how they wrap one another, the compliance
  case with its status machine, the dispatch rule, and the other records that the store
  keeps. Every struct is a record with the source's fields. The records are polymorphic in
  the type of their times: \<open>time\<close> in the running program, \<open>string\<close> in a row of the index.
\<close>

section \<open>Errors\<close>

text \<open>
  The sentinels of the packages domain and worker, \<open>sql.ErrNoRows\<close>, the sentinels of the other
  packages by their text, errors of code outside
  the repository by their text (the file system, the database driver, a cancelled context),
  and the three ways in which \<open>fmt.Errorf\<close> wraps: \<open>"text: %w"\<close>, \<open>"%w: text"\<close> and
  \<open>"%w: %w"\<close>.
\<close>

datatype err =
    ErrNotFound | ErrDuplicate | ErrInvalidTransition | ErrNoMatchingRule
  | ErrMaxEscalationReached | ErrValidation | ErrAlreadyCompleted | ErrAlreadyCancelled
  | ErrShardCorrupted | ErrConcurrentConflict
  | ErrRuleReeval
  | ErrNoRows
  | ErrNamed string
  | ErrExternal string
  | ValidationError string string
  | Wrap string err
  | Detail err string
  | Join err err

fun errText :: "err \<Rightarrow> string" where
  "errText ErrNotFound = ''entity not found''"
| "errText ErrDuplicate = ''duplicate entity''"
| "errText ErrInvalidTransition = ''invalid status transition''"
| "errText ErrNoMatchingRule = ''no matching dispatch rule''"
| "errText ErrMaxEscalationReached = ''maximum escalation level reached''"
| "errText ErrValidation = ''validation error''"
| "errText ErrAlreadyCompleted = ''item already completed''"
| "errText ErrAlreadyCancelled = ''item already cancelled''"
| "errText ErrShardCorrupted = ''shard file corrupted''"
| "errText ErrConcurrentConflict = ''concurrent modification conflict''"
| "errText ErrRuleReeval = ''rule re-evaluation failure''"
| "errText ErrNoRows = ''sql: no rows in result set''"
| "errText (ErrNamed s) = s"
| "errText (ErrExternal s) = s"
| "errText (ValidationError f m) = f @ '': '' @ m"
| "errText (Wrap s e) = s @ '': '' @ errText e"
| "errText (Detail e s) = errText e @ '': '' @ s"
| "errText (Join a b) = errText a @ '': '' @ errText b"

text \<open>\<open>errors.Is\<close>, for a target that is a sentinel.\<close>

fun errIs :: "err \<Rightarrow> err \<Rightarrow> bool" where
  "errIs (Wrap s e) t = (Wrap s e = t \<or> errIs e t)"
| "errIs (Detail e s) t = (Detail e s = t \<or> errIs e t)"
| "errIs (Join a b) t = (Join a b = t \<or> errIs a t \<or> errIs b t)"
| "errIs (ValidationError f m) t = (ValidationError f m = t \<or> t = ErrValidation)"
| "errIs e t = (e = t)"

section \<open>Status of a compliance case\<close>

datatype ItemStatus =
    StatusRegistered | StatusAdjudicated | StatusInProgress | StatusReturned
  | StatusEscalated | StatusCompleted | StatusCancelled
  | StatusOther string \<comment> \<open>any other value of the Go string type; \<open>StatusOther []\<close> is \<open>""\<close>\<close>

fun status_name :: "ItemStatus \<Rightarrow> string" where
  "status_name StatusRegistered = ''registered''"
| "status_name StatusAdjudicated = ''adjudicated''"
| "status_name StatusInProgress = ''in_progress''"
| "status_name StatusReturned = ''returned''"
| "status_name StatusEscalated = ''escalated''"
| "status_name StatusCompleted = ''completed''"
| "status_name StatusCancelled = ''cancelled''"
| "status_name (StatusOther s) = s"

definition status_of :: "string \<Rightarrow> ItemStatus" where
  \<comment> \<open>the conversion \<open>ItemStatus(s)\<close>\<close>
  "status_of s =
     (case find (\<lambda>st. status_name st = s) [StatusRegistered, StatusAdjudicated, StatusInProgress, StatusReturned,
        StatusEscalated, StatusCompleted, StatusCancelled] of Some st \<Rightarrow> st | None \<Rightarrow> StatusOther s)"

definition IsTerminal :: "ItemStatus \<Rightarrow> bool" where
  "IsTerminal s \<longleftrightarrow> s = StatusCompleted \<or> s = StatusCancelled"

fun transitionTable :: "ItemStatus \<Rightarrow> ItemStatus list option" where
  "transitionTable StatusRegistered = Some [StatusAdjudicated, StatusCancelled, StatusReturned]"
| "transitionTable StatusAdjudicated =
     Some [StatusInProgress, StatusCancelled, StatusReturned, StatusEscalated]"
| "transitionTable StatusInProgress = Some [StatusCompleted, StatusCancelled, StatusEscalated]"
| "transitionTable StatusReturned = Some [StatusRegistered, StatusCancelled]"
| "transitionTable StatusEscalated = Some [StatusInProgress, StatusCompleted, StatusCancelled]"
| "transitionTable StatusCompleted = Some []"
| "transitionTable StatusCancelled = Some []"
| "transitionTable (StatusOther s) = None"

definition CanTransition :: "ItemStatus \<Rightarrow> ItemStatus \<Rightarrow> bool" where
  "CanTransition from to = (case transitionTable from of
      None \<Rightarrow> False
    | Some allowed \<Rightarrow> list_ex (\<lambda>s. s = to) allowed)"

definition ValidateTransition :: "ItemStatus \<Rightarrow> ItemStatus \<Rightarrow> err option" where
  "ValidateTransition from to =
     (if from = to then None
      else if \<not> CanTransition from to then
        Some (Detail ErrInvalidTransition
          (''cannot transition from '' @ status_name from @ '' to '' @ status_name to))
      else None)"

section \<open>Compliance cases\<close>

record 't ComplianceCase =
  case_ID :: string
  case_ExternalRef :: string
  case_Title :: string
  case_Description :: string
  case_OperatorName :: string
  case_OperatorContact :: string
  case_Materials :: "string list"
  case_Category :: string
  case_Keywords :: "string list"
  case_Status :: ItemStatus
  case_LeadDepartment :: string
  case_CoDepartments :: "string list"
  case_RuleVersion :: int
  case_RegisteredAt :: 't
  case_RegisteredBy :: string
  case_Deadline :: 't
  case_EscalationLevel :: int
  case_StoreID :: string
  case_CompletedAt :: "'t option"
  case_CancelledAt :: "'t option"
  case_CancelReason :: string
  case_ShardPath :: string
  case_ShardOffset :: int
  case_DataVersion :: int
  case_CreatedAt :: 't
  case_UpdatedAt :: 't

type_synonym item = "time ComplianceCase"

definition DataVersion :: int where
  "DataVersion = 2"

definition TransitionTo :: "item \<Rightarrow> ItemStatus \<Rightarrow> err + item" where
  "TransitionTo i to = (case ValidateTransition (case_Status i) to of
      Some e \<Rightarrow> Inl e
    | None \<Rightarrow> Inr (i\<lparr>case_Status := to\<rparr>))"

definition IsOverdue :: "item \<Rightarrow> time \<Rightarrow> bool" where
  "IsOverdue i now = (if IsTerminal (case_Status i) then False else After now (case_Deadline i))"

definition ValidateCase :: "item \<Rightarrow> err option" where
  "ValidateCase i =
     (if case_ExternalRef i = '''' then Some (ValidationError ''external_ref'' ''must not be empty'')
      else if case_Title i = '''' then Some (ValidationError ''title'' ''must not be empty'')
      else if case_RegisteredBy i = '''' then Some (ValidationError ''reported_by'' ''must not be empty'')
      else if IsZero (case_Deadline i) then Some (ValidationError ''deadline'' ''must not be zero'')
      else None)"

record ItemFilter =
  if_Status :: ItemStatus
  if_LeadDepartment :: string
  if_StoreID :: string
  if_RegisteredBy :: string
  if_From :: time
  if_To :: time
  if_OverdueOnly :: bool
  if_PageSize :: int
  if_PageOffset :: int

section \<open>Dispatch rules\<close>

datatype RuleStatus = RuleStatusDraft | RuleStatusActive | RuleStatusSuperseded | RuleStatusOther string

record ('t, 'n) Rule =
  rule_Version :: int
  rule_Name :: string
  rule_Description :: string
  rule_MatchKeywords :: "string list"
  rule_MatchCategory :: string
  rule_LeadDepartment :: string
  rule_CoDepartments :: "string list"
  rule_Priority :: int
  rule_IsDefault :: bool
  rule_EffectiveFrom :: 't
  rule_EffectiveTo :: 'n
  rule_Status :: RuleStatus
  rule_CreatedAt :: 't
  rule_CreatedBy :: string
  rule_ShardPath :: string
  rule_DataVersion :: int

type_synonym rule = "(time, time) Rule"

definition IsActiveAt :: "rule \<Rightarrow> time \<Rightarrow> bool" where
  "IsActiveAt r t =
     (if rule_Status r \<noteq> RuleStatusActive then False
      else if Before t (rule_EffectiveFrom r) then False
      else if \<not> IsZero (rule_EffectiveTo r) \<and> \<not> Before t (rule_EffectiveTo r) then False
      else True)"

definition Matches :: "rule \<Rightarrow> item \<Rightarrow> bool" where
  "Matches r i =
     (if rule_IsDefault r then True
      else if rule_MatchCategory r \<noteq> '''' \<and> case_Category i \<noteq> rule_MatchCategory r then False
      else let matched = (rule_MatchCategory r \<noteq> '''')
      in if rule_MatchKeywords r \<noteq> [] then
           (let itemKW = set (case_Keywords i);
                kwMatched = list_ex (\<lambda>k. k \<in> itemKW) (rule_MatchKeywords r)
            in if \<not> kwMatched then False else True)
         else matched)"

definition ValidateRule :: "rule \<Rightarrow> err option" where
  "ValidateRule r =
     (if rule_Name r = '''' then Some (ValidationError ''name'' ''must not be empty'')
      else if rule_LeadDepartment r = '''' then
        Some (ValidationError ''lead_department'' ''must not be empty'')
      else if IsZero (rule_EffectiveFrom r) then
        Some (ValidationError ''effective_from'' ''must not be zero'')
      else if \<not> IsZero (rule_EffectiveTo r) \<and> \<not> After (rule_EffectiveTo r) (rule_EffectiveFrom r) then
        Some (ValidationError ''effective_to'' ''must be after effective_from'')
      else None)"

section \<open>Referrals, escalations, audit entries, failures, batches\<close>

record 't Referral =
  ref_ID :: string
  ref_ItemID :: string
  ref_LeadDepartment :: string
  ref_CoDepartments :: "string list"
  ref_RuleVersion :: int
  ref_AdjudicatedAt :: 't
  ref_AdjudicatedBy :: string
  ref_IsCurrent :: bool
  ref_ShardPath :: string
  ref_DataVersion :: int

record 't Escalation =
  esc_ID :: string
  esc_ItemID :: string
  esc_FromLevel :: int
  esc_ToLevel :: int
  esc_OldLeadDept :: string
  esc_NewLeadDept :: string
  esc_EscalatedAt :: 't
  esc_Reason :: string
  esc_NewDeadline :: 't
  esc_ShardPath :: string
  esc_DataVersion :: int

definition EscalationDepartmentName :: "string \<Rightarrow> int \<Rightarrow> string" where
  "EscalationDepartmentName baseDept level =
     (if level \<le> 0 then baseDept else baseDept @ ''-supervisor-l'' @ show_int level)"

record 't AuditEntry =
  aud_ID :: string
  aud_EntityID :: string
  aud_EntityType :: string
  aud_Action :: string
  aud_Actor :: string
  aud_Timestamp :: 't
  aud_Details :: string
  aud_ShardPath :: string
  aud_DataVersion :: int

record AuditFilter =
  af_EntityID :: string
  af_EntityType :: string
  af_Actor :: string
  af_From :: time
  af_To :: time
  af_PageSize :: int
  af_PageOffset :: int

datatype FailureStatus =
  FailureStatusActive | FailureStatusRetried | FailureStatusResolved | FailureStatusOther string

record 't PermanentFailure =
  fail_ID :: string
  fail_EntityType :: string
  fail_EntityID :: string
  fail_TaskType :: string
  fail_LastError :: string
  fail_Attempts :: int
  fail_FirstFailedAt :: 't
  fail_LastFailedAt :: 't
  fail_Status :: FailureStatus
  fail_ResolvedAt :: "'t option"
  fail_NextRetryAt :: "'t option"
  fail_BackoffState :: string
  fail_DataVersion :: int

record 't ImportBatch =
  batch_ID :: string
  batch_StoreID :: string
  batch_BatchDate :: 't
  batch_TotalRows :: int
  batch_SuccessCount :: int
  batch_FailureCount :: int
  batch_ImportedAt :: 't
  batch_ShardPath :: string
  batch_DataVersion :: int

record BatchRowResult =
  br_RowIndex :: int
  br_ExternalRef :: string
  br_Success :: bool
  br_ItemID :: string
  br_Error :: string

record BatchImportResult =
  bi_BatchID :: string
  bi_TotalRows :: int
  bi_SuccessCount :: int
  bi_FailureCount :: int
  bi_Results :: "BatchRowResult list"

record BatchFilter =
  bf_StoreID :: string
  bf_From :: time
  bf_To :: time
  bf_PageSize :: int
  bf_PageOffset :: int

section \<open>The status machine of a case\<close>

definition known_status :: "ItemStatus \<Rightarrow> bool" where
  "known_status s \<longleftrightarrow> transitionTable s \<noteq> None"

lemma CanTransition_iff:
  "CanTransition s t \<longleftrightarrow> (\<exists>allowed. transitionTable s = Some allowed \<and> t \<in> set allowed)"
  by (auto simp: CanTransition_def list_ex_iff split: option.splits)

lemma known_status_iff: "known_status s \<longleftrightarrow> (\<forall>x. s \<noteq> StatusOther x)"
  by (cases s) (auto simp: known_status_def)

interpretation case_machine: status_machine CanTransition IsTerminal known_status
proof unfold_locales
  fix s t
  show "IsTerminal s \<Longrightarrow> \<not> CanTransition s t"
    by (auto simp: IsTerminal_def CanTransition_iff)
  show "known_status s \<Longrightarrow> \<not> IsTerminal s \<Longrightarrow> \<exists>t. CanTransition s t \<and> IsTerminal t"
    by (cases s) (auto simp: IsTerminal_def CanTransition_iff known_status_def)
  show "CanTransition s t \<Longrightarrow> known_status s \<and> known_status t"
    by (cases s) (auto simp: CanTransition_iff known_status_def)
qed

lemma ValidateTransition_None_iff:
  "ValidateTransition s t = None \<longleftrightarrow> s = t \<or> CanTransition s t"
  by (auto simp: ValidateTransition_def)

lemma TransitionTo_Inr_iff:
  "TransitionTo i to = Inr i' \<longleftrightarrow>
     (case_Status i = to \<or> CanTransition (case_Status i) to) \<and> i' = i\<lparr>case_Status := to\<rparr>"
  by (auto simp: TransitionTo_def ValidateTransition_def split: option.splits if_splits)

lemma TransitionTo_Inl:
  "TransitionTo i to = Inl e \<Longrightarrow>
     (\<exists>s. e = Detail ErrInvalidTransition s) \<and> case_Status i \<noteq> to \<and> \<not> CanTransition (case_Status i) to"
  by (auto simp: TransitionTo_def ValidateTransition_def split: option.splits if_splits)

text \<open>
  A completed or cancelled case never leaves its status: whatever sequence of allowed
  transitions is tried from a terminal status, it stays there, and no other status of the
  machine is a dead end, since each can still be completed or cancelled.
\<close>

theorem terminal_status_final:
  assumes "CanTransition\<^sup>*\<^sup>* s t" and "known_status s"
  shows "(IsTerminal s \<longrightarrow> t = s) \<and> ((\<forall>u. \<not> CanTransition t u) \<longleftrightarrow> IsTerminal t)
     \<and> (\<exists>u. CanTransition\<^sup>*\<^sup>* t u \<and> IsTerminal u)"
proof (intro conjI impI)
  show "IsTerminal s \<Longrightarrow> t = s"
    using assms(1) by (rule case_machine.path_from_terminal)
  have "known_status t" using assms by (rule case_machine.path_known)
  then show "(\<forall>u. \<not> CanTransition t u) \<longleftrightarrow> IsTerminal t"
    by (rule case_machine.dead_end_iff_terminal)
  show "\<exists>u. CanTransition\<^sup>*\<^sup>* t u \<and> IsTerminal u"
    using assms by (rule case_machine.path_can_end)
qed

theorem terminal_status_final_witness:
  "CanTransition\<^sup>*\<^sup>* StatusRegistered StatusInProgress
     \<and> (\<exists>u. CanTransition\<^sup>*\<^sup>* StatusInProgress u \<and> IsTerminal u)"
proof -
  have "CanTransition StatusRegistered StatusAdjudicated" "CanTransition StatusAdjudicated StatusInProgress"
    by (simp_all add: CanTransition_iff)
  then have p: "CanTransition\<^sup>*\<^sup>* StatusRegistered StatusInProgress" by auto
  have k: "known_status StatusRegistered" by (simp add: known_status_def)
  from terminal_status_final [OF p k] p show ?thesis by blast
qed

section \<open>Rules\<close>

lemma IsActiveAt_iff:
  "IsActiveAt r t \<longleftrightarrow> rule_Status r = RuleStatusActive \<and> rule_EffectiveFrom r \<le> t
     \<and> (rule_EffectiveTo r = 0 \<or> t < rule_EffectiveTo r)"
  by (auto simp: IsActiveAt_def time_defs)

text \<open>
  What a rule matches: a default rule matches every case; any other rule must name a
  category or keywords, and the case must have the category it names and at least one of the
  keywords it lists. In particular a rule that is not a default and names neither matches
  nothing.
\<close>

theorem Matches_iff:
  "Matches r i =
     (if rule_IsDefault r then True
      else if rule_MatchCategory r = '''' \<and> rule_MatchKeywords r = [] then False
      else rule_MatchCategory r \<in> {'''', case_Category i}
        \<and> (if rule_MatchKeywords r = [] then True
            else set (rule_MatchKeywords r) \<inter> set (case_Keywords i) \<noteq> {}))"
  by (auto simp: Matches_def Let_def list_ex_iff)

end
