(* ===== verification/Go_Runtime.thy ===== *)
theory Go_Runtime
  imports Domain
begin

text \<open>
  What an operation meets at run time, as fields of the state it runs on: the clock
  (\<open>domain.Clock\<close>, an external package in production), the supply of identifiers
  (\<open>uuid.NewString\<close>, an external package), and what goes wrong outside the program. The
  clock and the identifiers are arbitrary functions of the number of the reading; nothing is
  assumed of them in a definition. \<open>rt_faults\<close> lists, for each call that leaves the program
  (a database statement, a shard append, a look at \<open>ctx.Err()\<close>), the error that it returns, if
  any; after the end of the list every call succeeds. A theorem over all states is a theorem
  over all clocks, identifiers and failures.
\<close>

record runtime =
  rt_clock :: "nat \<Rightarrow> time"
  rt_wall :: "nat \<Rightarrow> time"
  rt_ticks :: nat
  rt_uuid :: "nat \<Rightarrow> string"
  rt_ids :: nat
  rt_faults :: "err option list"

definition Now :: "(err, 'a runtime_scheme, time) op" where
  "Now w = (Inr (rt_clock w (rt_ticks w)), w\<lparr>rt_ticks := Suc (rt_ticks w)\<rparr>)"

definition WallNow :: "(err, 'a runtime_scheme, time) op" where
  \<comment> \<open>\<open>time.Now()\<close>, which the index calls instead of the injected clock\<close>
  "WallNow w = (Inr (rt_wall w (rt_ticks w)), w\<lparr>rt_ticks := Suc (rt_ticks w)\<rparr>)"

definition NewString :: "(err, 'a runtime_scheme, string) op" where
  "NewString w = (Inr (rt_uuid w (rt_ids w)), w\<lparr>rt_ids := Suc (rt_ids w)\<rparr>)"

definition external :: "(err, 'a runtime_scheme, unit) op" where
  \<comment> \<open>a call that leaves the program and may fail\<close>
  "external w = (case rt_faults w of
      [] \<Rightarrow> (Inr (), w)
    | f # fs \<Rightarrow> ((case f of None \<Rightarrow> Inr () | Some e \<Rightarrow> Inl e), w\<lparr>rt_faults := fs\<rparr>))"

text \<open>No failure lies ahead.\<close>

definition healthy :: "'a runtime_scheme \<Rightarrow> bool" where
  "healthy w \<longleftrightarrow> list_all (\<lambda>f. f = None) (rt_faults w)"

lemma external_healthy:
  "healthy w \<Longrightarrow> \<exists>fs. external w = (Inr (), w\<lparr>rt_faults := fs\<rparr>) \<and> healthy (w\<lparr>rt_faults := fs\<rparr>)"
  by (cases "rt_faults w") (auto simp: external_def healthy_def intro: exI [of _ "[]"])

lemma external_snd: "\<exists>fs. snd (external w) = w\<lparr>rt_faults := fs\<rparr>"
  by (cases "rt_faults w") (auto simp: external_def intro: exI [of _ "[]"])

lemma external_cases:
  assumes "external w = (r, w')"
  obtains fs where "w' = w\<lparr>rt_faults := fs\<rparr>"
  using external_snd [of w] assms by auto

text \<open>Running the parts of a sequence whose effect is known.\<close>

lemma bindM_run [simp]:
  "bindM (getM f) k w = k (f w) w" "bindM (retM a) k w = k a w" "bindM (failM e) k w = (Inl e, w)"
  by (simp_all add: op_simps)

lemma bindM_clock [simp]:
  "bindM Now k w = k (rt_clock w (rt_ticks w)) (w\<lparr>rt_ticks := Suc (rt_ticks w)\<rparr>)"
  "bindM WallNow k w = k (rt_wall w (rt_ticks w)) (w\<lparr>rt_ticks := Suc (rt_ticks w)\<rparr>)"
  "bindM NewString h w = h (rt_uuid w (rt_ids w)) (w\<lparr>rt_ids := Suc (rt_ids w)\<rparr>)"
  by (simp_all add: bindM_def Now_def WallNow_def NewString_def)

lemma bindM_liftE: "bindM (liftE r) k w = (case r of Inl e \<Rightarrow> (Inl e, w) | Inr a \<Rightarrow> k a w)"
  by (simp add: bindM_def liftE_def)

lemma mapErr_run [simp]:
  "mapErr f (retM a) = retM a" "mapErr f (failM e) = failM (f e)"
  by (auto simp: op_simps fun_eq_iff)

lemma bind_external_Inr:
  "bindM external k w = (Inr b, w') \<Longrightarrow> \<exists>fs. k () (w\<lparr>rt_faults := fs\<rparr>) = (Inr b, w')"
  "bindM (mapErr f external) k w = (Inr b, w') \<Longrightarrow> \<exists>fs. k () (w\<lparr>rt_faults := fs\<rparr>) = (Inr b, w')"
  by (cases "external w"; auto simp: bindM_def mapErr_def elim!: external_cases split: sum.splits)+

lemma Now_eq: "Now w = (r, w') \<longleftrightarrow>
    r = Inr (rt_clock w (rt_ticks w)) \<and> w' = w\<lparr>rt_ticks := Suc (rt_ticks w)\<rparr>"
  by (auto simp: Now_def)

lemma WallNow_eq: "WallNow w = (r, w') \<longleftrightarrow>
    r = Inr (rt_wall w (rt_ticks w)) \<and> w' = w\<lparr>rt_ticks := Suc (rt_ticks w)\<rparr>"
  by (auto simp: WallNow_def)

lemma NewString_eq: "NewString w = (r, w') \<longleftrightarrow>
    r = Inr (rt_uuid w (rt_ids w)) \<and> w' = w\<lparr>rt_ids := Suc (rt_ids w)\<rparr>"
  by (auto simp: NewString_def)

lemma healthy_ticks [simp]: "healthy (w\<lparr>rt_ticks := n\<rparr>) = healthy w"
  by (simp add: healthy_def)

lemma healthy_ids [simp]: "healthy (w\<lparr>rt_ids := n\<rparr>) = healthy w"
  by (simp add: healthy_def)

end
