(* ===== verification/Dispatch.thy ===== *)
theory Dispatch
  imports Go_Runtime
begin

text \<open>
  The package internal/dispatch: the adjudicator that chooses, among the rules active when a
  case was registered, the matching one of highest priority and then highest version, and
  makes the referral that names its departments.
\<close>

section \<open>The order in which matching rules are sorted\<close>

datatype rank = Rank int int \<comment> \<open>priority and version of a rule\<close>

fun rank_before :: "rank \<Rightarrow> rank \<Rightarrow> bool" where
  \<comment> \<open>the comparison function given to \<open>sort.Slice\<close>\<close>
  "rank_before (Rank p v) (Rank p' v') = (if p \<noteq> p' then p > p' else v > v')"

text \<open>It is a strict linear order, so that sorting by it is the library's.\<close>

instantiation rank :: linorder
begin

definition less_rank where "x < y = rank_before x y"

definition less_eq_rank where "x \<le> y = (rank_before x y \<or> x = (y :: rank))"

instance
proof
  fix x y z :: rank
  note rank_orders = less_rank_def less_eq_rank_def
  show "(x < y) = (x \<le> y \<and> \<not> y \<le> x)" by (cases x; cases y) (auto simp: rank_orders split: if_splits)
  show "x \<le> x" by (simp add: rank_orders)
  show "x \<le> y \<Longrightarrow> y \<le> z \<Longrightarrow> x \<le> z"
    by (cases x; cases y; cases z) (auto simp: rank_orders split: if_splits)
  show "x \<le> y \<Longrightarrow> y \<le> x \<Longrightarrow> x = y" by (cases x; cases y) (auto simp: rank_orders split: if_splits)
  show "x \<le> y \<or> y \<le> x" by (cases x; cases y) (auto simp: rank_orders split: if_splits)
qed

end

lemma rank_less [simp]: "Rank p v < Rank p' v' \<longleftrightarrow> (if p \<noteq> p' then p > p' else v > v')"
  by (simp add: less_rank_def)

lemma rank_less_eq [simp]: "Rank p v \<le> Rank p' v' \<longleftrightarrow> (if p \<noteq> p' then p > p' else v \<ge> v')"
  by (auto simp: less_eq_rank_def)

definition rank_of :: "('t, 'n) Rule \<Rightarrow> rank" where
  "rank_of r = Rank (rule_Priority r) (rule_Version r)"

section \<open>Adjudication\<close>

fun matching_rules :: "item \<Rightarrow> rule list \<Rightarrow> rule list" where
  "matching_rules i [] = []"
| "matching_rules i (rule # rules) =
     (if \<not> IsActiveAt rule (case_RegisteredAt i) then matching_rules i rules
      else if Matches rule i then rule # matching_rules i rules
      else matching_rules i rules)"

fun first_default :: "item \<Rightarrow> rule list \<Rightarrow> rule list" where
  "first_default i [] = []"
| "first_default i (rule # rules) =
     (if IsActiveAt rule (case_RegisteredAt i) \<and> rule_IsDefault rule then [rule]
      else first_default i rules)"

definition Adjudicate ::
  "item \<Rightarrow> rule list \<Rightarrow> (err, 'a runtime_scheme, time Referral) op" where
  "Adjudicate i rules =
     bindM external (\<lambda>_.
     let matched = matching_rules i rules;
         matched = (if length matched = 0 then first_default i rules else matched)
     in if length matched = 0 then
          failM (Wrap (''no matching dispatch rule for item '' @ case_ID i) ErrNoMatchingRule)
        else let chosen = hd (sort_key rank_of matched)
     in bindM Now (\<lambda>now.
        bindM NewString (\<lambda>id.
        retM \<lparr>ref_ID = id, ref_ItemID = case_ID i, ref_LeadDepartment = rule_LeadDepartment chosen,
          ref_CoDepartments = rule_CoDepartments chosen, ref_RuleVersion = rule_Version chosen,
          ref_AdjudicatedAt = now, ref_AdjudicatedBy = ''system'', ref_IsCurrent = True,
          ref_ShardPath = '''', ref_DataVersion = DataVersion\<rparr>)))"

definition SelectEscalationLead :: "string \<Rightarrow> int \<Rightarrow> string" where
  "SelectEscalationLead currentLead level = EscalationDepartmentName currentLead level"

section \<open>Correctness\<close>

definition eligible :: "item \<Rightarrow> rule \<Rightarrow> bool" where
  "eligible i r \<longleftrightarrow> IsActiveAt r (case_RegisteredAt i) \<and> Matches r i"

lemma matching_rules_filter: "matching_rules i rules = filter (eligible i) rules"
  by (induction rules) (auto simp: eligible_def)

text \<open>The fallback to a default rule never adds one: a default rule already matches.\<close>

lemma first_default_redundant: "matching_rules i rules = [] \<Longrightarrow> first_default i rules = []"
  by (induction rules) (auto simp: Matches_def split: if_splits)

lemma matched_rules:
  "(if length (matching_rules i rules) = 0 then first_default i rules else matching_rules i rules)
     = filter (eligible i) rules"
  by (simp add: first_default_redundant flip: matching_rules_filter)

lemma Adjudicate_alt:
  "Adjudicate i rules =
     bindM external (\<lambda>_.
     if filter (eligible i) rules = [] then
       failM (Wrap (''no matching dispatch rule for item '' @ case_ID i) ErrNoMatchingRule)
     else bindM Now (\<lambda>now. bindM NewString (\<lambda>id.
       let chosen = hd (sort_key rank_of (filter (eligible i) rules)) in
       retM \<lparr>ref_ID = id, ref_ItemID = case_ID i, ref_LeadDepartment = rule_LeadDepartment chosen,
          ref_CoDepartments = rule_CoDepartments chosen, ref_RuleVersion = rule_Version chosen,
          ref_AdjudicatedAt = now, ref_AdjudicatedBy = ''system'', ref_IsCurrent = True,
          ref_ShardPath = '''', ref_DataVersion = DataVersion\<rparr>)))"
  unfolding Adjudicate_def matched_rules Let_def by simp

lemma hd_sort_key_least:
  assumes "xs \<noteq> []"
  shows "hd (sort_key f xs) \<in> set xs" and "x \<in> set xs \<Longrightarrow> f (hd (sort_key f xs)) \<le> f x"
proof -
  let ?ys = "sort_key f xs"
  have ne: "?ys \<noteq> []" using assms by (metis set_empty set_sort)
  then show "hd ?ys \<in> set xs" by (metis hd_in_set set_sort)
  assume "x \<in> set xs"
  then have x: "x \<in> set ?ys" by simp
  have "sorted (map f ?ys)" by simp
  with ne x show "f (hd ?ys) \<le> f x" by (cases ?ys) auto
qed

lemma rank_of_le_iff:
  "rank_of r \<le> rank_of r' \<longleftrightarrow>
     rule_Priority r' < rule_Priority r \<or>
     rule_Priority r' = rule_Priority r \<and> rule_Version r' \<le> rule_Version r"
  by (auto simp: rank_of_def)

lemma adjudicated:
  assumes "Adjudicate i rules w = (Inr ref, w')"
  shows "\<exists>r \<in> set rules. eligible i r \<and>
     (\<forall>r' \<in> set rules. eligible i r' \<longrightarrow>
        rule_Priority r' < rule_Priority r \<or>
        rule_Priority r' = rule_Priority r \<and> rule_Version r' \<le> rule_Version r) \<and>
     ref_ItemID ref = case_ID i \<and> ref_LeadDepartment ref = rule_LeadDepartment r \<and>
     ref_CoDepartments ref = rule_CoDepartments r \<and> ref_RuleVersion ref = rule_Version r \<and>
     ref_IsCurrent ref"
proof -
  let ?m = "filter (eligible i) rules"
  define r where "r = hd (sort_key rank_of ?m)"
  have ne: "?m \<noteq> []" and ref: "ref_ItemID ref = case_ID i" "ref_LeadDepartment ref = rule_LeadDepartment r"
    "ref_CoDepartments ref = rule_CoDepartments r" "ref_RuleVersion ref = rule_Version r" "ref_IsCurrent ref"
    using assms by (auto simp: Adjudicate_alt op_results r_def Let_def split: if_splits)
  have "r \<in> set ?m" using hd_sort_key_least(1) [OF ne] by (simp add: r_def)
  moreover have "\<forall>r' \<in> set ?m. rank_of r \<le> rank_of r'"
    unfolding r_def using hd_sort_key_least(2) [OF ne] by blast
  ultimately show ?thesis using ref by (intro bexI [of _ r]) (auto simp: rank_of_le_iff)
qed

text \<open>
  C28: A case is referred under a rule that was active when the case was registered and
  matches it, and no other such rule has a higher priority, or the same priority and a higher
  version. The referral carries the departments and the version of that rule and is current.
\<close>

theorem Adjudicate_sound:
  assumes "Adjudicate i rules w = (Inr ref, w')"
  shows "\<exists>r \<in> set rules. eligible i r \<and>
     (\<forall>r' \<in> set rules. eligible i r' \<longrightarrow>
        rule_Priority r' < rule_Priority r \<or>
        rule_Priority r' = rule_Priority r \<and> rule_Version r' \<le> rule_Version r) \<and>
     ref_ItemID ref = case_ID i \<and> ref_LeadDepartment ref = rule_LeadDepartment r \<and>
     ref_CoDepartments ref = rule_CoDepartments r \<and> ref_RuleVersion ref = rule_Version r \<and>
     ref_IsCurrent ref"
  using assms by (rule adjudicated)

text \<open>
  Adjudication fails for want of a rule exactly when no rule is both active at the time of
  registration and matching; the error is then \<open>ErrNoMatchingRule\<close> and no identifier or clock
  reading is used up. With no failure outside, every other case gets a referral.
\<close>

theorem Adjudicate_complete:
  assumes "healthy w"
  shows "if \<exists>r \<in> set rules. eligible i r
     then \<exists>ref. fst (Adjudicate i rules w) = Inr ref
     else \<exists>e. fst (Adjudicate i rules w) = Inl e \<and> errIs e ErrNoMatchingRule
        \<and> rt_ids (snd (Adjudicate i rules w)) = rt_ids w \<and> rt_ticks (snd (Adjudicate i rules w)) = rt_ticks w"
proof -
  obtain fs where ext: "external w = (Inr (), w\<lparr>rt_faults := fs\<rparr>)"
    using external_healthy [OF assms] by blast
  show ?thesis
    by (auto simp: Adjudicate_alt bindM_def ext op_simps Now_def NewString_def Let_def filter_empty_conv)
qed

lemma Adjudicate_quiet:
  assumes "rt_faults w = []" and "r \<in> set rules" and "eligible i r"
  shows "\<exists>ref. Adjudicate i rules w = (Inr ref, w\<lparr>rt_ticks := Suc (rt_ticks w), rt_ids := Suc (rt_ids w)\<rparr>)
    \<and> ref_AdjudicatedAt ref = rt_clock w (rt_ticks w) \<and> ref_ID ref = rt_uuid w (rt_ids w)"
proof -
  have "filter (eligible i) rules \<noteq> []" using assms(2,3) by (auto simp: filter_empty_conv)
  with assms(1) show ?thesis
    by (simp add: Adjudicate_alt external_def op_simps Now_def NewString_def Let_def)
qed

lemma sorted_least_unique:
  assumes "mset xs = mset ys" and "inj_on f (set xs)" and "xs \<noteq> []"
  shows "hd (sort_key f xs) = hd (sort_key f ys)"
proof -
  have ys: "set ys = set xs" "ys \<noteq> []"
    using assms(1,3) mset_eq_setD [OF assms(1)] by auto
  let ?x = "hd (sort_key f xs)" and ?y = "hd (sort_key f ys)"
  have x: "?x \<in> set xs" using assms(3) by (rule hd_sort_key_least)
  have y: "?y \<in> set ys" using ys(2) by (rule hd_sort_key_least)
  have "f ?x \<le> f ?y" using hd_sort_key_least(2) [OF assms(3), of ?y f] y ys(1) by simp
  moreover have "f ?y \<le> f ?x" using hd_sort_key_least(2) [OF ys(2), of ?x f] x ys(1) by simp
  ultimately show ?thesis using x y ys(1) assms(2) by (auto dest: inj_onD)
qed

text \<open>
  Which rule is chosen does not depend on the order in which the store lists the rules, nor
  on the order in which the unstable \<open>sort.Slice\<close> leaves equal elements, as long as versions
  are distinct, as the primary key of the table makes them.
\<close>

theorem Adjudicate_order_independent:
  assumes "mset rules = mset rules'" and "inj_on rule_Version (set rules)"
  shows "Adjudicate i rules w = Adjudicate i rules' w"
proof -
  let ?m = "filter (eligible i) rules" and ?m' = "filter (eligible i) rules'"
  have m: "mset ?m = mset ?m'" using assms(1) by (simp add: mset_filter)
  have inj: "inj_on rank_of (set ?m)"
    using assms(2) by (auto simp: inj_on_def rank_of_def)
  show ?thesis
  proof (cases "?m = []")
    case True
    with m have "?m' = []" by simp
    with True show ?thesis by (simp only: Adjudicate_alt)
  next
    case False
    moreover from m False have "?m' \<noteq> []" by (metis mset_zero_iff)
    moreover have "hd (sort_key rank_of ?m) = hd (sort_key rank_of ?m')"
      using m inj False by (rule sorted_least_unique)
    ultimately show ?thesis by (simp only: Adjudicate_alt)
  qed
qed

section \<open>Witnesses\<close>

definition sample_case :: item where
  "sample_case = \<lparr>case_ID = ''i1'', case_ExternalRef = ''R1'', case_Title = ''t'', case_Description = '''',
     case_OperatorName = '''', case_OperatorContact = '''', case_Materials = [], case_Category = ''c'',
     case_Keywords = [''k''], case_Status = StatusRegistered, case_LeadDepartment = '''',
     case_CoDepartments = [], case_RuleVersion = 0, case_RegisteredAt = 10, case_RegisteredBy = ''u'',
     case_Deadline = 20, case_EscalationLevel = 0, case_StoreID = '''', case_CompletedAt = None,
     case_CancelledAt = None, case_CancelReason = '''', case_ShardPath = '''', case_ShardOffset = 0,
     case_DataVersion = 2, case_CreatedAt = 10, case_UpdatedAt = 10\<rparr>"

definition sample_rule :: "int \<Rightarrow> int \<Rightarrow> bool \<Rightarrow> rule" where
  "sample_rule v p d = \<lparr>rule_Version = v, rule_Name = ''n'', rule_Description = '''',
     rule_MatchKeywords = [''k''], rule_MatchCategory = '''', rule_LeadDepartment = ''D'' @ show_int v,
     rule_CoDepartments = [], rule_Priority = p, rule_IsDefault = d, rule_EffectiveFrom = 1,
     rule_EffectiveTo = 0, rule_Status = RuleStatusActive, rule_CreatedAt = 1, rule_CreatedBy = ''u'',
     rule_ShardPath = '''', rule_DataVersion = 2\<rparr>"

definition sample_runtime :: runtime where
  "sample_runtime = \<lparr>rt_clock = (\<lambda>n. 100 + int n), rt_wall = (\<lambda>n. 100 + int n), rt_ticks = 0, rt_uuid = show_nat, rt_ids = 0,
     rt_faults = []\<rparr>"

lemmas sample_defs = sample_case_def sample_rule_def sample_runtime_def

lemma sample_rule_fields:
  "rule_Version (sample_rule v p d) = v" "rule_Priority (sample_rule v p d) = p"
  by (simp_all add: sample_rule_def)

lemma eligible_sample: "eligible sample_case (sample_rule v p d)"
  by (simp add: eligible_def IsActiveAt_def Matches_def sample_defs time_defs)

lemma Adjudicate_sample:
  "\<exists>ref w'. Adjudicate sample_case [sample_rule 1 5 True, sample_rule 2 7 False] sample_runtime = (Inr ref, w')"
proof -
  let ?rules = "[sample_rule 1 5 True, sample_rule 2 7 False]"
  have "rt_faults sample_runtime = []" by (simp add: sample_runtime_def)
  from Adjudicate_quiet [OF this, of "sample_rule 1 5 True" ?rules sample_case] show ?thesis
    by (auto simp: eligible_sample)
qed

theorem Adjudicate_sound_witness:
  "\<exists>ref w'. Adjudicate sample_case [sample_rule 1 5 True, sample_rule 2 7 False] sample_runtime = (Inr ref, w')
     \<and> ref_RuleVersion ref = 2"
proof -
  obtain ref w' where
    a: "Adjudicate sample_case [sample_rule 1 5 True, sample_rule 2 7 False] sample_runtime = (Inr ref, w')"
    using Adjudicate_sample by blast
  from Adjudicate_sound [OF a] have "ref_RuleVersion ref = 2"
    by (auto simp: eligible_sample sample_rule_fields)
  with a show ?thesis by blast
qed

theorem Adjudicate_complete_witness:
  "healthy sample_runtime \<and> (\<exists>e. fst (Adjudicate sample_case [] sample_runtime) = Inl e \<and> errIs e ErrNoMatchingRule)"
proof -
  have h: "healthy sample_runtime" by (simp add: healthy_def sample_runtime_def)
  from Adjudicate_complete [OF h, where rules = "[]" and i = sample_case] h show ?thesis by auto
qed

theorem Adjudicate_order_independent_witness:
  "Adjudicate sample_case [sample_rule 1 5 True, sample_rule 2 7 False] sample_runtime =
   Adjudicate sample_case [sample_rule 2 7 False, sample_rule 1 5 True] sample_runtime"
  by (rule Adjudicate_order_independent) (simp_all add: sample_rule_def add_mset_commute)

end
