(* ===== verification/Index.thy ===== *)
theory Index
  imports Dispatch
begin

text \<open>
  The package internal/index: the tables of the SQLite index and the statements that the
  program executes on them. A table is the list of its rows in the order of insertion; a row
  is the record of the stored struct with its times as text, as the schema in migrations/
  stores them. Columns that hold a JSON list are modelled by the list, columns that hold 0 or
  1 by a boolean. The comparisons that a statement makes on times are comparisons of their
  texts, byte by byte. SQL leaves the order of rows with equal sort keys open; here it is the
  order of insertion.
\<close>

section \<open>Time columns\<close>

definition formatTime :: "time \<Rightarrow> string" where
  "formatTime t = (if IsZero t then '''' else rfc3339nano t)"

definition parseTime :: "string \<Rightarrow> err + time" where
  "parseTime s = (if s = '''' then Inr zero_time
     else case parse_rfc3339 s of
       None \<Rightarrow> Inl (ErrExternal (''parsing time '' @ s))
     | Some t \<Rightarrow> Inr t)"

definition formatNullableTime :: "time option \<Rightarrow> string option" where
  "formatNullableTime t = (case t of None \<Rightarrow> None
     | Some t \<Rightarrow> if IsZero t then None else Some (rfc3339nano t))"

definition scanNullableTime :: "string option \<Rightarrow> err + time option" where
  "scanNullableTime col = (case col of None \<Rightarrow> Inr None
     | Some s \<Rightarrow> if s = '''' then Inr None
         else case parse_rfc3339 s of
           None \<Rightarrow> Inl (Wrap (''parse nullable time '' @ s) (ErrExternal (''parsing time '' @ s)))
         | Some t \<Rightarrow> Inr (Some t))"

definition formatTimeVal :: "time \<Rightarrow> string option" where
  "formatTimeVal t = (if IsZero t then None else Some (rfc3339nano t))"

section \<open>Rows\<close>

type_synonym item_row = "string ComplianceCase"
type_synonym rule_row = "(string, string option) Rule"
type_synonym referral_row = "string Referral"
type_synonym escalation_row = "string Escalation"
type_synonym audit_row = "string AuditEntry"
type_synonym failure_row = "string PermanentFailure"
type_synonym batch_row = "string ImportBatch"

record ManifestEntry =
  man_ShardID :: string
  man_EntityType :: string
  man_ShardPath :: string
  man_Checksum :: string
  man_RecordCount :: int
  man_MinKey :: string
  man_MaxKey :: string
  man_DateKey :: string
  man_Status :: string
  man_CreatedAt :: string
  man_UpdatedAt :: string

record index =
  tab_items :: "item_row list"
  tab_rules :: "rule_row list"
  tab_assignments :: "referral_row list"
  tab_escalations :: "escalation_row list"
  tab_audit_entries :: "audit_row list"
  tab_permanent_failures :: "failure_row list"
  tab_import_batches :: "batch_row list"
  tab_shard_manifest :: "ManifestEntry list"

definition empty_index :: index where
  "empty_index = \<lparr>tab_items = [], tab_rules = [], tab_assignments = [], tab_escalations = [],
     tab_audit_entries = [], tab_permanent_failures = [], tab_import_batches = [],
     tab_shard_manifest = []\<rparr>"

definition row_of_item :: "item \<Rightarrow> item_row" where
  "row_of_item i = \<lparr>case_ID = case_ID i, case_ExternalRef = case_ExternalRef i,
     case_Title = case_Title i, case_Description = case_Description i,
     case_OperatorName = case_OperatorName i, case_OperatorContact = case_OperatorContact i,
     case_Materials = case_Materials i, case_Category = case_Category i,
     case_Keywords = case_Keywords i, case_Status = case_Status i,
     case_LeadDepartment = case_LeadDepartment i, case_CoDepartments = case_CoDepartments i,
     case_RuleVersion = case_RuleVersion i, case_RegisteredAt = formatTime (case_RegisteredAt i),
     case_RegisteredBy = case_RegisteredBy i, case_Deadline = formatTime (case_Deadline i),
     case_EscalationLevel = case_EscalationLevel i, case_StoreID = case_StoreID i,
     case_CompletedAt = formatNullableTime (case_CompletedAt i),
     case_CancelledAt = formatNullableTime (case_CancelledAt i),
     case_CancelReason = case_CancelReason i, case_ShardPath = case_ShardPath i,
     case_ShardOffset = case_ShardOffset i, case_DataVersion = case_DataVersion i,
     case_CreatedAt = formatTime (case_CreatedAt i), case_UpdatedAt = formatTime (case_UpdatedAt i)\<rparr>"

definition scanItem :: "item_row \<Rightarrow> err + item" where
  "scanItem r =
     bindE (parseTime (case_RegisteredAt r)) (\<lambda>regAt.
     bindE (parseTime (case_Deadline r)) (\<lambda>deadline.
     bindE (parseTime (case_CreatedAt r)) (\<lambda>createdAt.
     bindE (parseTime (case_UpdatedAt r)) (\<lambda>updatedAt.
     bindE (scanNullableTime (case_CompletedAt r)) (\<lambda>completedAt.
     bindE (scanNullableTime (case_CancelledAt r)) (\<lambda>cancelledAt.
     Inr \<lparr>case_ID = case_ID r, case_ExternalRef = case_ExternalRef r,
       case_Title = case_Title r, case_Description = case_Description r,
       case_OperatorName = case_OperatorName r, case_OperatorContact = case_OperatorContact r,
       case_Materials = case_Materials r, case_Category = case_Category r,
       case_Keywords = case_Keywords r, case_Status = case_Status r,
       case_LeadDepartment = case_LeadDepartment r, case_CoDepartments = case_CoDepartments r,
       case_RuleVersion = case_RuleVersion r, case_RegisteredAt = regAt,
       case_RegisteredBy = case_RegisteredBy r, case_Deadline = deadline,
       case_EscalationLevel = case_EscalationLevel r, case_StoreID = case_StoreID r,
       case_CompletedAt = completedAt, case_CancelledAt = cancelledAt,
       case_CancelReason = case_CancelReason r, case_ShardPath = case_ShardPath r,
       case_ShardOffset = case_ShardOffset r, case_DataVersion = case_DataVersion r,
       case_CreatedAt = createdAt, case_UpdatedAt = updatedAt\<rparr>))))))"

definition row_of_rule :: "rule \<Rightarrow> rule_row" where
  "row_of_rule r = \<lparr>rule_Version = rule_Version r, rule_Name = rule_Name r,
     rule_Description = rule_Description r, rule_MatchKeywords = rule_MatchKeywords r,
     rule_MatchCategory = rule_MatchCategory r, rule_LeadDepartment = rule_LeadDepartment r,
     rule_CoDepartments = rule_CoDepartments r, rule_Priority = rule_Priority r,
     rule_IsDefault = rule_IsDefault r, rule_EffectiveFrom = formatTime (rule_EffectiveFrom r),
     rule_EffectiveTo = formatTimeVal (rule_EffectiveTo r), rule_Status = rule_Status r,
     rule_CreatedAt = formatTime (rule_CreatedAt r), rule_CreatedBy = rule_CreatedBy r,
     rule_ShardPath = rule_ShardPath r, rule_DataVersion = rule_DataVersion r\<rparr>"

definition scanRule :: "rule_row \<Rightarrow> err + rule" where
  "scanRule r =
     bindE (parseTime (rule_EffectiveFrom r)) (\<lambda>effFrom.
     bindE (case rule_EffectiveTo r of None \<Rightarrow> Inr zero_time | Some s \<Rightarrow> parseTime s) (\<lambda>effTo.
     bindE (parseTime (rule_CreatedAt r)) (\<lambda>createdAt.
     Inr \<lparr>rule_Version = rule_Version r, rule_Name = rule_Name r,
       rule_Description = rule_Description r, rule_MatchKeywords = rule_MatchKeywords r,
       rule_MatchCategory = rule_MatchCategory r, rule_LeadDepartment = rule_LeadDepartment r,
       rule_CoDepartments = rule_CoDepartments r, rule_Priority = rule_Priority r,
       rule_IsDefault = rule_IsDefault r, rule_EffectiveFrom = effFrom, rule_EffectiveTo = effTo,
       rule_Status = rule_Status r, rule_CreatedAt = createdAt, rule_CreatedBy = rule_CreatedBy r,
       rule_ShardPath = rule_ShardPath r, rule_DataVersion = rule_DataVersion r\<rparr>)))"

definition row_of_referral :: "time Referral \<Rightarrow> referral_row" where
  "row_of_referral a = \<lparr>ref_ID = ref_ID a, ref_ItemID = ref_ItemID a,
     ref_LeadDepartment = ref_LeadDepartment a, ref_CoDepartments = ref_CoDepartments a,
     ref_RuleVersion = ref_RuleVersion a, ref_AdjudicatedAt = formatTime (ref_AdjudicatedAt a),
     ref_AdjudicatedBy = ref_AdjudicatedBy a, ref_IsCurrent = ref_IsCurrent a,
     ref_ShardPath = ref_ShardPath a, ref_DataVersion = ref_DataVersion a\<rparr>"

definition scanAssignment :: "referral_row \<Rightarrow> err + time Referral" where
  "scanAssignment r =
     bindE (parseTime (ref_AdjudicatedAt r)) (\<lambda>adjAt.
     Inr \<lparr>ref_ID = ref_ID r, ref_ItemID = ref_ItemID r,
       ref_LeadDepartment = ref_LeadDepartment r, ref_CoDepartments = ref_CoDepartments r,
       ref_RuleVersion = ref_RuleVersion r, ref_AdjudicatedAt = adjAt,
       ref_AdjudicatedBy = ref_AdjudicatedBy r, ref_IsCurrent = ref_IsCurrent r,
       ref_ShardPath = ref_ShardPath r, ref_DataVersion = ref_DataVersion r\<rparr>)"

definition row_of_escalation :: "time Escalation \<Rightarrow> escalation_row" where
  "row_of_escalation e = \<lparr>esc_ID = esc_ID e, esc_ItemID = esc_ItemID e,
     esc_FromLevel = esc_FromLevel e, esc_ToLevel = esc_ToLevel e,
     esc_OldLeadDept = esc_OldLeadDept e, esc_NewLeadDept = esc_NewLeadDept e,
     esc_EscalatedAt = formatTime (esc_EscalatedAt e), esc_Reason = esc_Reason e,
     esc_NewDeadline = formatTime (esc_NewDeadline e), esc_ShardPath = esc_ShardPath e,
     esc_DataVersion = esc_DataVersion e\<rparr>"

definition scanEscalation :: "escalation_row \<Rightarrow> err + time Escalation" where
  "scanEscalation r =
     bindE (parseTime (esc_EscalatedAt r)) (\<lambda>escAt.
     bindE (parseTime (esc_NewDeadline r)) (\<lambda>newDL.
     Inr \<lparr>esc_ID = esc_ID r, esc_ItemID = esc_ItemID r,
       esc_FromLevel = esc_FromLevel r, esc_ToLevel = esc_ToLevel r,
       esc_OldLeadDept = esc_OldLeadDept r, esc_NewLeadDept = esc_NewLeadDept r,
       esc_EscalatedAt = escAt, esc_Reason = esc_Reason r, esc_NewDeadline = newDL,
       esc_ShardPath = esc_ShardPath r, esc_DataVersion = esc_DataVersion r\<rparr>))"

definition row_of_audit :: "time AuditEntry \<Rightarrow> audit_row" where
  "row_of_audit a = \<lparr>aud_ID = aud_ID a, aud_EntityID = aud_EntityID a,
     aud_EntityType = aud_EntityType a, aud_Action = aud_Action a, aud_Actor = aud_Actor a,
     aud_Timestamp = formatTime (aud_Timestamp a), aud_Details = aud_Details a,
     aud_ShardPath = aud_ShardPath a, aud_DataVersion = aud_DataVersion a\<rparr>"

definition scanAudit :: "audit_row \<Rightarrow> err + time AuditEntry" where
  "scanAudit r =
     bindE (parseTime (aud_Timestamp r)) (\<lambda>ts.
     Inr \<lparr>aud_ID = aud_ID r, aud_EntityID = aud_EntityID r,
       aud_EntityType = aud_EntityType r, aud_Action = aud_Action r, aud_Actor = aud_Actor r,
       aud_Timestamp = ts, aud_Details = aud_Details r,
       aud_ShardPath = aud_ShardPath r, aud_DataVersion = aud_DataVersion r\<rparr>)"

definition row_of_failure :: "time PermanentFailure \<Rightarrow> failure_row" where
  "row_of_failure f = \<lparr>fail_ID = fail_ID f, fail_EntityType = fail_EntityType f,
     fail_EntityID = fail_EntityID f, fail_TaskType = fail_TaskType f,
     fail_LastError = fail_LastError f, fail_Attempts = fail_Attempts f,
     fail_FirstFailedAt = formatTime (fail_FirstFailedAt f),
     fail_LastFailedAt = formatTime (fail_LastFailedAt f), fail_Status = fail_Status f,
     fail_ResolvedAt = formatNullableTime (fail_ResolvedAt f),
     fail_NextRetryAt = formatNullableTime (fail_NextRetryAt f),
     fail_BackoffState = fail_BackoffState f, fail_DataVersion = fail_DataVersion f\<rparr>"

definition scanFailure :: "failure_row \<Rightarrow> err + time PermanentFailure" where
  "scanFailure r =
     bindE (parseTime (fail_FirstFailedAt r)) (\<lambda>firstAt.
     bindE (parseTime (fail_LastFailedAt r)) (\<lambda>lastAt.
     bindE (scanNullableTime (fail_ResolvedAt r)) (\<lambda>resolvedAt.
     bindE (scanNullableTime (fail_NextRetryAt r)) (\<lambda>nextRetry.
     Inr \<lparr>fail_ID = fail_ID r, fail_EntityType = fail_EntityType r,
       fail_EntityID = fail_EntityID r, fail_TaskType = fail_TaskType r,
       fail_LastError = fail_LastError r, fail_Attempts = fail_Attempts r,
       fail_FirstFailedAt = firstAt, fail_LastFailedAt = lastAt, fail_Status = fail_Status r,
       fail_ResolvedAt = resolvedAt, fail_NextRetryAt = nextRetry,
       fail_BackoffState = fail_BackoffState r, fail_DataVersion = fail_DataVersion r\<rparr>))))"

definition row_of_batch :: "time ImportBatch \<Rightarrow> batch_row" where
  "row_of_batch b = \<lparr>batch_ID = batch_ID b, batch_StoreID = batch_StoreID b,
     batch_BatchDate = formatTime (batch_BatchDate b), batch_TotalRows = batch_TotalRows b,
     batch_SuccessCount = batch_SuccessCount b, batch_FailureCount = batch_FailureCount b,
     batch_ImportedAt = formatTime (batch_ImportedAt b), batch_ShardPath = batch_ShardPath b,
     batch_DataVersion = batch_DataVersion b\<rparr>"

definition scanBatch :: "batch_row \<Rightarrow> err + time ImportBatch" where
  "scanBatch r =
     bindE (parseTime (batch_BatchDate r)) (\<lambda>bd.
     bindE (parseTime (batch_ImportedAt r)) (\<lambda>impAt.
     Inr \<lparr>batch_ID = batch_ID r, batch_StoreID = batch_StoreID r,
       batch_BatchDate = bd, batch_TotalRows = batch_TotalRows r,
       batch_SuccessCount = batch_SuccessCount r, batch_FailureCount = batch_FailureCount r,
       batch_ImportedAt = impAt, batch_ShardPath = batch_ShardPath r,
       batch_DataVersion = batch_DataVersion r\<rparr>))"

section \<open>Running a statement\<close>

text \<open>
  The state of an operation on the index. A statement reaches the driver, which may fail; then
  it is a function of the tables. A constraint that it violates is an error of the driver. A
  query is read row by row, and a failure can come after the last row (\<open>rows.Err()\<close>).
\<close>

record db = runtime +
  db_index :: index

definition exec :: "(index \<Rightarrow> err + 'b \<times> index) \<Rightarrow> (err, 'a db_scheme, 'b) op" where
  "exec stmt = bindM external (\<lambda>_. \<lambda>w. case stmt (db_index w) of
      Inl e \<Rightarrow> (Inl e, w)
    | Inr (b, ix) \<Rightarrow> (Inr b, w\<lparr>db_index := ix\<rparr>))"

definition query_rows ::
  "(err \<Rightarrow> err) \<Rightarrow> (index \<Rightarrow> 'r list) \<Rightarrow> ('r \<Rightarrow> err + 'b) \<Rightarrow> (err, 'a db_scheme, 'b list) op" where
  \<comment> \<open>the rows that a SELECT returns, each given to a scan function; \<open>wrap\<close> is applied to an
     error of the query itself\<close>
  "query_rows wrap sel scan = bindM (mapErr wrap external) (\<lambda>_. bindM (getM (sel \<circ> db_index)) (\<lambda>rows.
     bindM (liftE (mapE scan rows)) (\<lambda>xs. bindM external (\<lambda>_. retM xs))))"

definition query_row ::
  "(index \<Rightarrow> 'r option) \<Rightarrow> ('r \<Rightarrow> err + 'b) \<Rightarrow> (err, 'a db_scheme, 'b) op" where
  \<comment> \<open>\<open>QueryRowContext(...).Scan(...)\<close>\<close>
  "query_row sel scan = bindM external (\<lambda>_. bindM (getM (sel \<circ> db_index)) (\<lambda>r.
     case r of None \<Rightarrow> failM ErrNoRows | Some row \<Rightarrow> liftE (scan row)))"

definition or_not_found :: "err \<Rightarrow> err" where
  "or_not_found e = (if e = ErrNoRows then ErrNotFound else e)"

definition unique_violation :: "string \<Rightarrow> err" where
  "unique_violation col = ErrExternal (''constraint failed: UNIQUE constraint failed: '' @ col)"

definition insert_row :: "(string \<times> ('r \<Rightarrow> 'k)) \<Rightarrow> 'r \<Rightarrow> 'r list \<Rightarrow> err + 'r list" where
  \<comment> \<open>an INSERT into a table with one unique column\<close>
  "insert_row key r rows =
     (if snd key r \<in> snd key ` set rows then Inl (unique_violation (fst key)) else Inr (rows @ [r]))"

definition affected :: "('r \<Rightarrow> bool) \<Rightarrow> 'r list \<Rightarrow> nat" where
  "affected p rows = length (filter p rows)"

definition require_affected :: "nat \<Rightarrow> (err, 'a db_scheme, unit) op" where
  \<comment> \<open>\<open>n, _ := result.RowsAffected(); if n == 0 { return domain.ErrNotFound }\<close>\<close>
  "require_affected n = (if n = 0 then failM ErrNotFound else retM ())"

section \<open>Statements that write\<close>

definition put_item :: "item_row \<Rightarrow> index \<Rightarrow> err + unit \<times> index" where
  "put_item r ix =
     (if case_ID r \<in> case_ID ` set (tab_items ix) then Inl (unique_violation ''items.id'')
      else if case_ExternalRef r \<in> case_ExternalRef ` set (tab_items ix) then
        Inl (unique_violation ''items.external_ref'')
      else Inr ((), ix\<lparr>tab_items := tab_items ix @ [r]\<rparr>))"

definition InsertItem :: "item \<Rightarrow> (err, 'a db_scheme, unit) op" where
  "InsertItem i = mapErr (Wrap ''insert item'') (exec (put_item (row_of_item i)))"

definition set_item :: "item \<Rightarrow> item_row \<Rightarrow> item_row" where
  \<comment> \<open>the columns that UPDATE items sets\<close>
  "set_item i r = r\<lparr>case_Title := case_Title i, case_Description := case_Description i,
     case_OperatorName := case_OperatorName i, case_OperatorContact := case_OperatorContact i,
     case_Materials := case_Materials i, case_Category := case_Category i,
     case_Keywords := case_Keywords i, case_Status := case_Status i,
     case_LeadDepartment := case_LeadDepartment i, case_CoDepartments := case_CoDepartments i,
     case_RuleVersion := case_RuleVersion i, case_Deadline := formatTime (case_Deadline i),
     case_EscalationLevel := case_EscalationLevel i, case_StoreID := case_StoreID i,
     case_CompletedAt := formatNullableTime (case_CompletedAt i),
     case_CancelledAt := formatNullableTime (case_CancelledAt i),
     case_CancelReason := case_CancelReason i, case_DataVersion := case_DataVersion i,
     case_UpdatedAt := formatTime (case_UpdatedAt i)\<rparr>"

definition update_item :: "item \<Rightarrow> index \<Rightarrow> index" where
  "update_item i ix =
     ix\<lparr>tab_items := update_where (\<lambda>r. case_ID r = case_ID i) (set_item i) (tab_items ix)\<rparr>"

definition UpdateItem :: "item \<Rightarrow> (err, 'a db_scheme, unit) op" where
  "UpdateItem i = bindM
     (mapErr (Wrap ''update item'') (exec (\<lambda>ix. Inr
        (affected (\<lambda>r. case_ID r = case_ID i) (tab_items ix), update_item i ix))))
     require_affected"

definition put_assignment :: "referral_row \<Rightarrow> index \<Rightarrow> err + unit \<times> index" where
  "put_assignment r ix = bindE (insert_row (''assignments.id'', ref_ID) r (tab_assignments ix))
     (\<lambda>rows. Inr ((), ix\<lparr>tab_assignments := rows\<rparr>))"

definition InsertAssignment :: "time Referral \<Rightarrow> (err, 'a db_scheme, unit) op" where
  "InsertAssignment a =
     mapErr (Wrap ''insert referral'') (exec (put_assignment (row_of_referral a)))"

definition supersede_assignments :: "string \<Rightarrow> index \<Rightarrow> index" where
  "supersede_assignments itemID ix = ix\<lparr>tab_assignments :=
     update_where (\<lambda>r. ref_ItemID r = itemID \<and> ref_IsCurrent r)
       (\<lambda>r. r\<lparr>ref_IsCurrent := False\<rparr>) (tab_assignments ix)\<rparr>"

definition MarkAssignmentSuperseded :: "string \<Rightarrow> (err, 'a db_scheme, unit) op" where
  "MarkAssignmentSuperseded itemID = mapErr (Wrap ''mark referral superseded'')
     (exec (\<lambda>ix. Inr ((), supersede_assignments itemID ix)))"

definition put_escalation :: "escalation_row \<Rightarrow> index \<Rightarrow> err + unit \<times> index" where
  "put_escalation r ix = bindE (insert_row (''escalations.id'', esc_ID) r (tab_escalations ix))
     (\<lambda>rows. Inr ((), ix\<lparr>tab_escalations := rows\<rparr>))"

definition InsertEscalation :: "time Escalation \<Rightarrow> (err, 'a db_scheme, unit) op" where
  "InsertEscalation e =
     mapErr (Wrap ''insert escalation'') (exec (put_escalation (row_of_escalation e)))"

definition set_escalated :: "string \<Rightarrow> string \<Rightarrow> int \<Rightarrow> time \<Rightarrow> ItemStatus \<Rightarrow> time \<Rightarrow> index \<Rightarrow> index" where
  "set_escalated itemID newLead newLevel newDeadline newStatus now ix =
     ix\<lparr>tab_items := update_where (\<lambda>r. case_ID r = itemID)
       (\<lambda>r. r\<lparr>case_LeadDepartment := newLead, case_EscalationLevel := newLevel,
          case_Deadline := formatTime newDeadline, case_Status := newStatus,
          case_UpdatedAt := formatTime now\<rparr>) (tab_items ix)\<rparr>"

definition UpdateItemForEscalation ::
  "string \<Rightarrow> string \<Rightarrow> int \<Rightarrow> time \<Rightarrow> ItemStatus \<Rightarrow> (err, 'a db_scheme, unit) op" where
  "UpdateItemForEscalation itemID newLead newLevel newDeadline newStatus =
     bindM WallNow (\<lambda>now.
     bindM (mapErr (Wrap ''update item for escalation'') (exec (\<lambda>ix. Inr
        (affected (\<lambda>r. case_ID r = itemID) (tab_items ix),
         set_escalated itemID newLead newLevel newDeadline newStatus now ix))))
     require_affected)"

definition put_audit :: "audit_row \<Rightarrow> index \<Rightarrow> err + unit \<times> index" where
  "put_audit r ix = bindE (insert_row (''audit_entries.id'', aud_ID) r (tab_audit_entries ix))
     (\<lambda>rows. Inr ((), ix\<lparr>tab_audit_entries := rows\<rparr>))"

definition InsertAudit :: "time AuditEntry \<Rightarrow> (err, 'a db_scheme, unit) op" where
  "InsertAudit a = mapErr (Wrap ''insert audit'') (exec (put_audit (row_of_audit a)))"

definition put_failure :: "failure_row \<Rightarrow> index \<Rightarrow> err + unit \<times> index" where
  "put_failure r ix =
     bindE (insert_row (''permanent_failures.id'', fail_ID) r (tab_permanent_failures ix))
     (\<lambda>rows. Inr ((), ix\<lparr>tab_permanent_failures := rows\<rparr>))"

definition InsertFailure :: "time PermanentFailure \<Rightarrow> (err, 'a db_scheme, unit) op" where
  "InsertFailure f = mapErr (Wrap ''insert failure'') (exec (put_failure (row_of_failure f)))"

definition update_failure :: "time PermanentFailure \<Rightarrow> index \<Rightarrow> index" where
  "update_failure f ix =
     ix\<lparr>tab_permanent_failures := update_where (\<lambda>r. fail_ID r = fail_ID f)
       (\<lambda>r. r\<lparr>fail_LastError := fail_LastError f, fail_Attempts := fail_Attempts f,
          fail_LastFailedAt := formatTime (fail_LastFailedAt f), fail_Status := fail_Status f,
          fail_NextRetryAt := formatNullableTime (fail_NextRetryAt f),
          fail_BackoffState := fail_BackoffState f,
          fail_ResolvedAt := formatNullableTime (fail_ResolvedAt f)\<rparr>)
       (tab_permanent_failures ix)\<rparr>"

definition UpdateFailure :: "time PermanentFailure \<Rightarrow> (err, 'a db_scheme, unit) op" where
  "UpdateFailure f = bindM
     (mapErr (Wrap ''update failure'') (exec (\<lambda>ix. Inr
        (affected (\<lambda>r. fail_ID r = fail_ID f) (tab_permanent_failures ix), update_failure f ix))))
     require_affected"

definition resolve_failure :: "string \<Rightarrow> time \<Rightarrow> index \<Rightarrow> index" where
  "resolve_failure failureID at ix =
     ix\<lparr>tab_permanent_failures := update_where (\<lambda>r. fail_ID r = failureID)
       (\<lambda>r. r\<lparr>fail_Status := FailureStatusResolved, fail_ResolvedAt := Some (formatTime at)\<rparr>)
       (tab_permanent_failures ix)\<rparr>"

definition MarkFailureResolved :: "string \<Rightarrow> time \<Rightarrow> (err, 'a db_scheme, unit) op" where
  "MarkFailureResolved failureID at = bindM
     (mapErr (Wrap ''mark failure resolved'') (exec (\<lambda>ix. Inr
        (affected (\<lambda>r. fail_ID r = failureID) (tab_permanent_failures ix), resolve_failure failureID at ix))))
     require_affected"

definition put_batch :: "batch_row \<Rightarrow> index \<Rightarrow> err + unit \<times> index" where
  "put_batch r ix = bindE (insert_row (''import_batches.id'', batch_ID) r (tab_import_batches ix))
     (\<lambda>rows. Inr ((), ix\<lparr>tab_import_batches := rows\<rparr>))"

definition InsertBatch :: "time ImportBatch \<Rightarrow> (err, 'a db_scheme, unit) op" where
  "InsertBatch b = mapErr (Wrap ''insert batch'') (exec (put_batch (row_of_batch b)))"

definition put_rule :: "rule_row \<Rightarrow> index \<Rightarrow> err + unit \<times> index" where
  "put_rule r ix = bindE (insert_row (''rules.version'', rule_Version) r (tab_rules ix))
     (\<lambda>rows. Inr ((), ix\<lparr>tab_rules := rows\<rparr>))"

definition InsertRule :: "rule \<Rightarrow> (err, 'a db_scheme, unit) op" where
  "InsertRule r = mapErr (Wrap ''insert rule'') (exec (put_rule (row_of_rule r)))"

definition supersede_rule :: "int \<Rightarrow> time \<Rightarrow> index \<Rightarrow> index" where
  "supersede_rule version now ix = ix\<lparr>tab_rules :=
     update_where (\<lambda>r. rule_Version r = version)
       (\<lambda>r. r\<lparr>rule_Status := RuleStatusSuperseded, rule_EffectiveTo := Some (formatTime now)\<rparr>)
       (tab_rules ix)\<rparr>"

definition SupersedeRule :: "int \<Rightarrow> (err, 'a db_scheme, unit) op" where
  "SupersedeRule version = bindM WallNow (\<lambda>now.
     mapErr (Wrap ''supersede rule'') (exec (\<lambda>ix. Inr ((), supersede_rule version now ix))))"

definition delete_from :: "(string \<times> (index \<Rightarrow> index)) list" where
  "delete_from = [(''items'', tab_items_update (\<lambda>_. [])),
     (''assignments'', tab_assignments_update (\<lambda>_. [])),
     (''escalations'', tab_escalations_update (\<lambda>_. [])),
     (''audit_entries'', tab_audit_entries_update (\<lambda>_. [])),
     (''permanent_failures'', tab_permanent_failures_update (\<lambda>_. [])),
     (''import_batches'', tab_import_batches_update (\<lambda>_. [])),
     (''shard_manifest'', tab_shard_manifest_update (\<lambda>_. []))]"

fun delete_tables :: "(string \<times> (index \<Rightarrow> index)) list \<Rightarrow> (err, 'a db_scheme, unit) op" where
  "delete_tables [] = retM ()"
| "delete_tables ((table, clear) # ts) =
     bindM (mapErr (Wrap (''delete from '' @ table)) (exec (\<lambda>ix. Inr ((), clear ix))))
       (\<lambda>_. delete_tables ts)"

definition DeleteAllData :: "(err, 'a db_scheme, unit) op" where
  "DeleteAllData = delete_tables delete_from"

definition put_manifest :: "ManifestEntry \<Rightarrow> index \<Rightarrow> index" where
  "put_manifest entry ix = ix\<lparr>tab_shard_manifest :=
     (if man_ShardID entry \<in> man_ShardID ` set (tab_shard_manifest ix) then
        update_where (\<lambda>m. man_ShardID m = man_ShardID entry)
          (\<lambda>m. m\<lparr>man_Checksum := man_Checksum entry, man_RecordCount := man_RecordCount entry,
             man_MinKey := man_MinKey entry, man_MaxKey := man_MaxKey entry,
             man_Status := man_Status entry, man_UpdatedAt := man_UpdatedAt entry\<rparr>)
          (tab_shard_manifest ix)
      else tab_shard_manifest ix @ [entry])\<rparr>"

definition UpsertManifest :: "ManifestEntry \<Rightarrow> (err, 'a db_scheme, unit) op" where
  "UpsertManifest entry = mapErr (Wrap ''upsert manifest'') (exec (\<lambda>ix. Inr ((), put_manifest entry ix)))"

section \<open>Queries\<close>

definition find_row :: "('r \<Rightarrow> 'k) \<Rightarrow> 'k \<Rightarrow> (index \<Rightarrow> 'r list) \<Rightarrow> index \<Rightarrow> 'r option" where
  "find_row key k tab ix = find_key key k (tab ix)"

definition GetItemByID :: "string \<Rightarrow> (err, 'a db_scheme, item) op" where
  "GetItemByID itemID = mapErr or_not_found (query_row (find_row case_ID itemID tab_items) scanItem)"

definition GetItemByExternalRef :: "string \<Rightarrow> (err, 'a db_scheme, item) op" where
  "GetItemByExternalRef xref =
     mapErr or_not_found (query_row (find_row case_ExternalRef xref tab_items) scanItem)"

definition live_status :: "ItemStatus \<Rightarrow> bool" where
  \<comment> \<open>\<open>status NOT IN ('completed','cancelled')\<close>\<close>
  "live_status s \<longleftrightarrow> status_name s \<notin> {''completed'', ''cancelled''}"

definition item_where :: "ItemFilter \<Rightarrow> time \<Rightarrow> item_row \<Rightarrow> bool" where
  "item_where flt now r \<longleftrightarrow>
     (status_name (if_Status flt) = '''' \<or> status_name (case_Status r) = status_name (if_Status flt))
     \<and> (if_LeadDepartment flt = '''' \<or> case_LeadDepartment r = if_LeadDepartment flt)
     \<and> (if_StoreID flt = '''' \<or> case_StoreID r = if_StoreID flt)
     \<and> (if_RegisteredBy flt = '''' \<or> case_RegisteredBy r = if_RegisteredBy flt)
     \<and> (IsZero (if_From flt) \<or> formatTime (if_From flt) \<le> case_RegisteredAt r)
     \<and> (IsZero (if_To flt) \<or> case_RegisteredAt r \<le> formatTime (if_To flt))
     \<and> (if_OverdueOnly flt \<longrightarrow> live_status (case_Status r) \<and> case_Deadline r < formatTime now)"

definition page :: "int \<Rightarrow> int \<Rightarrow> 'r list \<Rightarrow> 'r list" where
  \<comment> \<open>\<open>LIMIT ? OFFSET ?\<close>\<close>
  "page limit offset rows = take (nat limit) (drop (nat offset) rows)"

definition item_page_size :: "int \<Rightarrow> int" where
  "item_page_size n = (let pageSize = (if n \<le> 0 then 20 else n) in if pageSize > 200 then 200 else pageSize)"

definition default_page_size :: "int \<Rightarrow> int" where
  "default_page_size n = (if n \<le> 0 then 50 else n)"

definition page_offset :: "int \<Rightarrow> int" where
  "page_offset n = (if n < 0 then 0 else n)"

definition count_rows :: "(index \<Rightarrow> 'r list) \<Rightarrow> ('r \<Rightarrow> bool) \<Rightarrow> (err, 'a db_scheme, int) op" where
  "count_rows tab p = bindM external (\<lambda>_. getM (\<lambda>w. int (length (filter p (tab (db_index w))))))"

definition listed_items :: "ItemFilter \<Rightarrow> time \<Rightarrow> index \<Rightarrow> item_row list" where
  "listed_items flt now ix = page (item_page_size (if_PageSize flt)) (page_offset (if_PageOffset flt))
     (sort_desc case_RegisteredAt (filter (item_where flt now) (tab_items ix)))"

definition ListItems :: "ItemFilter \<Rightarrow> (err, 'a db_scheme, item list \<times> int) op" where
  "ListItems flt =
     bindM (if if_OverdueOnly flt then WallNow else retM zero_time) (\<lambda>now.
     bindM (mapErr (Wrap ''count items'') (count_rows tab_items (item_where flt now))) (\<lambda>total.
     bindM (query_rows (Wrap ''query items'') (listed_items flt now) scanItem) (\<lambda>items.
     retM (items, total))))"

definition overdue_items :: "time \<Rightarrow> int \<Rightarrow> index \<Rightarrow> item_row list" where
  "overdue_items now maxLevel ix = sort_key case_Deadline (filter (\<lambda>r. live_status (case_Status r)
     \<and> case_Deadline r < formatTime now \<and> case_EscalationLevel r < maxLevel) (tab_items ix))"

definition FindOverdueItems :: "time \<Rightarrow> int \<Rightarrow> (err, 'a db_scheme, item list) op" where
  "FindOverdueItems now maxLevel = query_rows (\<lambda>e. e) (overdue_items now maxLevel) scanItem"

definition status_counts :: "index \<Rightarrow> (ItemStatus \<times> int) list" where
  "status_counts ix = map (\<lambda>s. (s, int (length (filter (\<lambda>r. case_Status r = s) (tab_items ix)))))
     (remdups (map case_Status (tab_items ix)))"

definition CountByStatus :: "(err, 'a db_scheme, (ItemStatus \<times> int) list) op" where
  \<comment> \<open>the map that is returned, as the list of its entries\<close>
  "CountByStatus = query_rows (\<lambda>e. e) status_counts Inr"

definition GetRuleByVersion :: "int \<Rightarrow> (err, 'a db_scheme, rule) op" where
  "GetRuleByVersion version = query_row (find_row rule_Version version tab_rules) scanRule"

definition rule_active_at :: "string \<Rightarrow> rule_row \<Rightarrow> bool" where
  "rule_active_at atStr r \<longleftrightarrow> rule_Status r = RuleStatusActive \<and> rule_EffectiveFrom r \<le> atStr
     \<and> (case rule_EffectiveTo r of None \<Rightarrow> True | Some s \<Rightarrow> s = '''' \<or> s > atStr)"

definition active_rules :: "string \<Rightarrow> index \<Rightarrow> rule_row list" where
  "active_rules atStr ix = sort_key rank_of (filter (rule_active_at atStr) (tab_rules ix))"

definition GetActiveRules :: "time \<Rightarrow> (err, 'a db_scheme, rule list) op" where
  "GetActiveRules at = (let atStr = formatTime at in query_rows (\<lambda>e. e) (active_rules atStr) scanRule)"

definition latest_version :: "index \<Rightarrow> int" where
  \<comment> \<open>\<open>COALESCE(MAX(version), 0)\<close>\<close>
  "latest_version ix = (case map rule_Version (tab_rules ix) of [] \<Rightarrow> 0 | v # vs \<Rightarrow> fold max vs v)"

definition GetCurrentRuleVersion :: "(err, 'a db_scheme, int) op" where
  "GetCurrentRuleVersion = bindM external (\<lambda>_. getM (\<lambda>w. latest_version (db_index w)))"

definition listed_rules :: "index \<Rightarrow> rule_row list" where
  "listed_rules ix = sort_desc rule_Version (tab_rules ix)"

definition ListRules :: "(err, 'a db_scheme, rule list) op" where
  "ListRules = query_rows (\<lambda>e. e) listed_rules scanRule"

definition listed_referrals :: "string \<Rightarrow> index \<Rightarrow> referral_row list" where
  "listed_referrals itemID ix = sort_key ref_AdjudicatedAt (filter (\<lambda>r. ref_ItemID r = itemID) (tab_assignments ix))"

definition GetAssignmentsByItemID :: "string \<Rightarrow> (err, 'a db_scheme, time Referral list) op" where
  "GetAssignmentsByItemID itemID = query_rows (\<lambda>e. e) (listed_referrals itemID) scanAssignment"

definition current_referral :: "string \<Rightarrow> index \<Rightarrow> referral_row option" where
  "current_referral itemID ix = find (\<lambda>r. ref_ItemID r = itemID \<and> ref_IsCurrent r) (tab_assignments ix)"

definition GetCurrentAssignment :: "string \<Rightarrow> (err, 'a db_scheme, time Referral) op" where
  "GetCurrentAssignment itemID = mapErr or_not_found (query_row (current_referral itemID) scanAssignment)"

definition listed_escalations :: "string \<Rightarrow> index \<Rightarrow> escalation_row list" where
  "listed_escalations itemID ix = sort_key esc_EscalatedAt (filter (\<lambda>r. esc_ItemID r = itemID) (tab_escalations ix))"

definition GetEscalationsByItemID :: "string \<Rightarrow> (err, 'a db_scheme, time Escalation list) op" where
  "GetEscalationsByItemID itemID = query_rows (\<lambda>e. e) (listed_escalations itemID) scanEscalation"

definition audit_where :: "AuditFilter \<Rightarrow> audit_row \<Rightarrow> bool" where
  "audit_where flt r \<longleftrightarrow>
     (af_EntityID flt = '''' \<or> aud_EntityID r = af_EntityID flt)
     \<and> (af_EntityType flt = '''' \<or> aud_EntityType r = af_EntityType flt)
     \<and> (af_Actor flt = '''' \<or> aud_Actor r = af_Actor flt)
     \<and> (IsZero (af_From flt) \<or> formatTime (af_From flt) \<le> aud_Timestamp r)
     \<and> (IsZero (af_To flt) \<or> aud_Timestamp r \<le> formatTime (af_To flt))"

definition listed_audit :: "AuditFilter \<Rightarrow> index \<Rightarrow> audit_row list" where
  "listed_audit flt ix = page (default_page_size (af_PageSize flt)) (page_offset (af_PageOffset flt))
     (sort_desc aud_Timestamp (filter (audit_where flt) (tab_audit_entries ix)))"

definition ListAudit :: "AuditFilter \<Rightarrow> (err, 'a db_scheme, time AuditEntry list \<times> int) op" where
  "ListAudit flt =
     bindM (count_rows tab_audit_entries (audit_where flt)) (\<lambda>total.
     bindM (query_rows (\<lambda>e. e) (listed_audit flt) scanAudit) (\<lambda>es.
     retM (es, total)))"

definition active_failures :: "index \<Rightarrow> failure_row list" where
  "active_failures ix =
     sort_key fail_LastFailedAt (filter (\<lambda>r. fail_Status r = FailureStatusActive) (tab_permanent_failures ix))"

definition ListFailures :: "(err, 'a db_scheme, time PermanentFailure list) op" where
  "ListFailures = query_rows (\<lambda>e. e) active_failures scanFailure"

definition GetFailureByID :: "string \<Rightarrow> (err, 'a db_scheme, time PermanentFailure) op" where
  "GetFailureByID failureID =
     mapErr or_not_found (query_row (find_row fail_ID failureID tab_permanent_failures) scanFailure)"

definition batch_where :: "BatchFilter \<Rightarrow> batch_row \<Rightarrow> bool" where
  "batch_where flt r \<longleftrightarrow>
     (bf_StoreID flt = '''' \<or> batch_StoreID r = bf_StoreID flt)
     \<and> (IsZero (bf_From flt) \<or> formatTime (bf_From flt) \<le> batch_BatchDate r)
     \<and> (IsZero (bf_To flt) \<or> batch_BatchDate r \<le> formatTime (bf_To flt))"

definition listed_batches :: "BatchFilter \<Rightarrow> index \<Rightarrow> batch_row list" where
  "listed_batches flt ix = page (default_page_size (bf_PageSize flt)) (page_offset (bf_PageOffset flt))
     (sort_desc batch_BatchDate (filter (batch_where flt) (tab_import_batches ix)))"

definition ListBatches :: "BatchFilter \<Rightarrow> (err, 'a db_scheme, time ImportBatch list \<times> int) op" where
  "ListBatches flt =
     bindM (count_rows tab_import_batches (batch_where flt)) (\<lambda>total.
     bindM (query_rows (\<lambda>e. e) (listed_batches flt) scanBatch) (\<lambda>bs.
     retM (bs, total)))"

definition listed_manifests :: "index \<Rightarrow> ManifestEntry list" where
  \<comment> \<open>\<open>ORDER BY entity_type, date_key\<close>: a stable sort by the second key, then by the first\<close>
  "listed_manifests ix = sort_key man_EntityType (sort_key man_DateKey (tab_shard_manifest ix))"

definition ListManifest :: "(err, 'a db_scheme, ManifestEntry list) op" where
  "ListManifest = query_rows (\<lambda>e. e) listed_manifests Inr"

lemmas selection_defs = listed_items_def overdue_items_def active_rules_def listed_rules_def listed_referrals_def
  current_referral_def listed_escalations_def listed_audit_def active_failures_def listed_batches_def listed_manifests_def
  status_counts_def

section \<open>Reading back what was written\<close>

text \<open>
  The interface of a row format: a writer, a reader, and the values for which the reader undoes
  the writer.
\<close>

locale row_codec =
  fixes enc :: "'x \<Rightarrow> 'r" and scan :: "'r \<Rightarrow> err + 'x" and ok :: "'x \<Rightarrow> bool"
  assumes scan_enc: "ok x \<Longrightarrow> scan (enc x) = Inr x"
begin

lemma enc_inj: "ok x \<Longrightarrow> ok y \<Longrightarrow> enc x = enc y \<Longrightarrow> x = y"
  by (metis scan_enc sum.inject(2))

lemma scan_all: "list_all ok xs \<Longrightarrow> mapE scan (map enc xs) = Inr xs"
  by (induction xs) (simp_all add: scan_enc)

lemma scan_rows:
  "\<forall>r \<in> set rows. \<exists>x. ok x \<and> r = enc x \<Longrightarrow> \<exists>xs. mapE scan rows = Inr xs \<and> map enc xs = rows"
proof (induction rows)
  case (Cons r rows)
  then obtain x xs where "ok x" "r = enc x" "mapE scan rows = Inr xs" "map enc xs = rows" by auto
  then show ?case by (intro exI [of _ "x # xs"]) (simp add: scan_enc)
qed simp

end

definition opt_time_ok :: "time option \<Rightarrow> bool" where
  \<comment> \<open>a pointer to the zero time is written as NULL and comes back as nil\<close>
  "opt_time_ok t = (case t of None \<Rightarrow> True | Some t \<Rightarrow> time_ok t \<and> \<not> IsZero t)"

definition item_ok :: "item \<Rightarrow> bool" where
  "item_ok i \<longleftrightarrow> list_all time_ok [case_RegisteredAt i, case_Deadline i, case_CreatedAt i, case_UpdatedAt i]
     \<and> opt_time_ok (case_CompletedAt i) \<and> opt_time_ok (case_CancelledAt i)"

definition rule_ok :: "rule \<Rightarrow> bool" where
  "rule_ok r \<longleftrightarrow> list_all time_ok [rule_EffectiveFrom r, rule_EffectiveTo r, rule_CreatedAt r]"

definition referral_ok :: "time Referral \<Rightarrow> bool" where
  "referral_ok a \<longleftrightarrow> time_ok (ref_AdjudicatedAt a)"

definition escalation_ok :: "time Escalation \<Rightarrow> bool" where
  "escalation_ok e \<longleftrightarrow> time_ok (esc_EscalatedAt e) \<and> time_ok (esc_NewDeadline e)"

definition audit_ok :: "time AuditEntry \<Rightarrow> bool" where
  "audit_ok a \<longleftrightarrow> time_ok (aud_Timestamp a)"

definition failure_ok :: "time PermanentFailure \<Rightarrow> bool" where
  "failure_ok f \<longleftrightarrow> time_ok (fail_FirstFailedAt f) \<and> time_ok (fail_LastFailedAt f)
     \<and> opt_time_ok (fail_ResolvedAt f) \<and> opt_time_ok (fail_NextRetryAt f)"

definition batch_ok :: "time ImportBatch \<Rightarrow> bool" where
  "batch_ok b \<longleftrightarrow> time_ok (batch_BatchDate b) \<and> time_ok (batch_ImportedAt b)"

lemma rfc3339nano_not_Nil: "rfc3339nano t \<noteq> []"
  by (simp add: rfc3339nano_def)

lemma parse_formatTime [simp]: "time_ok t \<Longrightarrow> parseTime (formatTime t) = Inr t"
  by (simp add: parseTime_def formatTime_def rfc3339nano_not_Nil parse_format IsZero_def)

lemma scan_formatNullableTime [simp]:
  "opt_time_ok t \<Longrightarrow> scanNullableTime (formatNullableTime t) = Inr t"
  by (auto simp: scanNullableTime_def formatNullableTime_def opt_time_ok_def rfc3339nano_not_Nil
      parse_format split: option.splits)

lemma scan_formatTimeVal [simp]:
  "time_ok t \<Longrightarrow> (case formatTimeVal t of None \<Rightarrow> Inr zero_time | Some s \<Rightarrow> parseTime s) = Inr t"
  by (simp add: formatTimeVal_def parseTime_def rfc3339nano_not_Nil parse_format IsZero_def)

interpretation item_codec: row_codec row_of_item scanItem item_ok
  by unfold_locales (simp add: scanItem_def row_of_item_def item_ok_def)

interpretation rule_codec: row_codec row_of_rule scanRule rule_ok
  by unfold_locales (simp add: scanRule_def row_of_rule_def rule_ok_def)

interpretation referral_codec: row_codec row_of_referral scanAssignment referral_ok
  by unfold_locales (simp add: scanAssignment_def row_of_referral_def referral_ok_def)

interpretation escalation_codec: row_codec row_of_escalation scanEscalation escalation_ok
  by unfold_locales (simp add: scanEscalation_def row_of_escalation_def escalation_ok_def)

interpretation audit_codec: row_codec row_of_audit scanAudit audit_ok
  by unfold_locales (simp add: scanAudit_def row_of_audit_def audit_ok_def)

interpretation failure_codec: row_codec row_of_failure scanFailure failure_ok
  by unfold_locales (simp add: scanFailure_def row_of_failure_def failure_ok_def)

interpretation batch_codec: row_codec row_of_batch scanBatch batch_ok
  by unfold_locales (simp add: scanBatch_def row_of_batch_def batch_ok_def)

section \<open>Tables with a unique column\<close>

text \<open>
  The interface of a table: its rows, a unique column, and the statement that inserts a row.
  An insertion that succeeds appends the row, and its key was not in use.
\<close>

locale unique_table =
  fixes rows :: "index \<Rightarrow> 'r list" and key :: "'r \<Rightarrow> 'k"
    and put :: "'r \<Rightarrow> index \<Rightarrow> err + unit \<times> index"
  assumes put_Inr: "put r ix = Inr (u, ix') \<Longrightarrow> rows ix' = rows ix @ [r] \<and> key r \<notin> key ` set (rows ix)"
begin

definition unique :: "index \<Rightarrow> bool" where
  "unique ix \<longleftrightarrow> distinct (map key (rows ix))"

lemma put_unique: "put r ix = Inr (u, ix') \<Longrightarrow> unique ix \<Longrightarrow> unique ix'"
  by (auto simp: unique_def dest!: put_Inr)

lemma put_then_find: "put r ix = Inr (u, ix') \<Longrightarrow> find_key key (key r) (rows ix') = Some r"
  using find_key_None_iff [of key "key r" "rows ix"] by (auto simp: find_key_append dest!: put_Inr)

lemma put_find_other:
  "put r ix = Inr (u, ix') \<Longrightarrow> k \<noteq> key r \<Longrightarrow> find_key key k (rows ix') = find_key key k (rows ix)"
  by (auto simp: find_key_append dest!: put_Inr split: option.splits)

lemma put_keeps_rows: "put r ix = Inr (u, ix') \<Longrightarrow> set (rows ix) \<subseteq> set (rows ix')"
  by (auto dest!: put_Inr)

lemma find_unique: "unique ix \<Longrightarrow> r \<in> set (rows ix) \<Longrightarrow> find_key key (key r) (rows ix) = Some r"
  by (simp add: unique_def find_key_distinct)

lemma row_unique:
  "unique ix \<Longrightarrow> r \<in> set (rows ix) \<Longrightarrow> s \<in> set (rows ix) \<Longrightarrow> key r = key s \<Longrightarrow> r = s"
  by (metis find_unique option.inject)

lemma duplicate_rejected: "key r \<in> key ` set (rows ix) \<Longrightarrow> \<exists>e. put r ix = Inl e"
  by (cases "put r ix") (auto dest: put_Inr)

end

lemma insert_row_Inr: "insert_row key r rows = Inr rows' \<longleftrightarrow>
    snd key r \<notin> snd key ` set rows \<and> rows' = rows @ [r]"
  by (auto simp: insert_row_def)

lemmas put_defs = put_item_def put_assignment_def put_escalation_def put_audit_def put_failure_def
  put_batch_def put_rule_def

interpretation items_by_id: unique_table tab_items case_ID put_item
  by unfold_locales (auto simp: put_defs split: if_splits)

interpretation items_by_ref: unique_table tab_items case_ExternalRef put_item
  by unfold_locales (auto simp: put_defs split: if_splits)

interpretation assignments: unique_table tab_assignments ref_ID put_assignment
  by unfold_locales (auto simp: put_defs bindE_Inr_iff insert_row_Inr)

interpretation escalations: unique_table tab_escalations esc_ID put_escalation
  by unfold_locales (auto simp: put_defs bindE_Inr_iff insert_row_Inr)

interpretation audits: unique_table tab_audit_entries aud_ID put_audit
  by unfold_locales (auto simp: put_defs bindE_Inr_iff insert_row_Inr)

interpretation failures: unique_table tab_permanent_failures fail_ID put_failure
  by unfold_locales (auto simp: put_defs bindE_Inr_iff insert_row_Inr)

interpretation batches: unique_table tab_import_batches batch_ID put_batch
  by unfold_locales (auto simp: put_defs bindE_Inr_iff insert_row_Inr)

interpretation rules: unique_table tab_rules rule_Version put_rule
  by unfold_locales (auto simp: put_defs bindE_Inr_iff insert_row_Inr)

text \<open>The constraints that the schema declares.\<close>

definition wf_index :: "index \<Rightarrow> bool" where
  "wf_index ix \<longleftrightarrow> distinct (map case_ID (tab_items ix)) \<and> distinct (map case_ExternalRef (tab_items ix))
     \<and> distinct (map rule_Version (tab_rules ix)) \<and> distinct (map ref_ID (tab_assignments ix))
     \<and> distinct (map esc_ID (tab_escalations ix)) \<and> distinct (map aud_ID (tab_audit_entries ix))
     \<and> distinct (map fail_ID (tab_permanent_failures ix)) \<and> distinct (map batch_ID (tab_import_batches ix))
     \<and> distinct (map man_ShardID (tab_shard_manifest ix))"

section \<open>What statements keep\<close>

definition same_index :: "'a db_scheme \<Rightarrow> 'a db_scheme \<Rightarrow> bool" where
  "same_index w w' \<longleftrightarrow> db_index w' = db_index w"

definition index_inv :: "(index \<Rightarrow> bool) \<Rightarrow> 'a db_scheme \<Rightarrow> 'a db_scheme \<Rightarrow> bool" where
  "index_inv P w w' \<longleftrightarrow> (P (db_index w) \<longrightarrow> P (db_index w'))"

interpretation same_index: step_preorder same_index
  by unfold_locales (simp_all add: same_index_def)

interpretation index_inv: step_preorder "index_inv P" for P
  by unfold_locales (auto simp: index_inv_def)

lemma keeps_weaken: "keeps R m \<Longrightarrow> (\<And>w w'. R w w' \<Longrightarrow> S w w') \<Longrightarrow> keeps S m"
  by (auto simp: keeps_def)

lemma same_index_inv: "keeps same_index m \<Longrightarrow> keeps (index_inv P) m"
  by (erule keeps_weaken) (simp add: same_index_def index_inv_def)

lemma same_external [keeps_rules]: "keeps same_index external"
  by (auto simp: keeps_def same_index_def external_def split: list.splits)

lemma same_Now [keeps_rules]: "keeps same_index Now"
  by (simp add: keeps_def same_index_def Now_def)

lemma same_WallNow [keeps_rules]: "keeps same_index WallNow"
  by (simp add: keeps_def same_index_def WallNow_def)

lemma same_NewString [keeps_rules]: "keeps same_index NewString"
  by (simp add: keeps_def same_index_def NewString_def)

lemma same_query_rows [keeps_rules]: "keeps same_index (query_rows f sel scan)"
  unfolding query_rows_def by (intro same_index.keeps_all same_external)

lemma same_query_row [keeps_rules]: "keeps same_index (query_row sel scan)"
  unfolding query_row_def
  by (intro same_index.keeps_bind same_external same_index.keeps_get)
     (auto split: option.splits intro: same_index.keeps_all)

lemma same_count_rows [keeps_rules]: "keeps same_index (count_rows tab p)"
  unfolding count_rows_def by (intro same_index.keeps_all same_external)

lemmas query_defs = GetItemByID_def GetItemByExternalRef_def ListItems_def FindOverdueItems_def
  CountByStatus_def GetRuleByVersion_def GetActiveRules_def GetCurrentRuleVersion_def ListRules_def
  GetAssignmentsByItemID_def GetCurrentAssignment_def GetEscalationsByItemID_def ListAudit_def
  ListFailures_def GetFailureByID_def ListBatches_def ListManifest_def Let_def

lemma queries_read_only [keeps_rules]:
  "keeps same_index (GetItemByID itemID)" "keeps same_index (GetItemByExternalRef xref)"
  "keeps same_index (ListItems f)" "keeps same_index (FindOverdueItems t n)"
  "keeps same_index CountByStatus" "keeps same_index (GetRuleByVersion v)"
  "keeps same_index (GetActiveRules t)" "keeps same_index GetCurrentRuleVersion"
  "keeps same_index ListRules" "keeps same_index (GetAssignmentsByItemID itemID)"
  "keeps same_index (GetCurrentAssignment itemID)" "keeps same_index (GetEscalationsByItemID itemID)"
  "keeps same_index (ListAudit g)" "keeps same_index ListFailures"
  "keeps same_index (GetFailureByID itemID)" "keeps same_index (ListBatches h)"
  "keeps same_index ListManifest"
  unfolding query_defs by (intro same_index.keeps_all keeps_rules)+

lemma exec_index: "exec stmt w = (r, w') \<Longrightarrow>
    (case r of Inl e \<Rightarrow> db_index w' = db_index w | Inr b \<Rightarrow> stmt (db_index w) = Inr (b, db_index w'))"
  by (auto simp: exec_def bindM_def external_def split: list.splits option.splits sum.splits prod.splits)

lemma exec_inv:
  "(\<And>ix b ix'. stmt ix = Inr (b, ix') \<Longrightarrow> P ix \<Longrightarrow> P ix') \<Longrightarrow> keeps (index_inv P) (exec stmt)"
  by (rule keepsI) (auto simp: index_inv_def dest!: exec_index split: sum.splits)

lemma require_affected_same [keeps_rules]: "keeps same_index (require_affected n)"
  by (simp add: require_affected_def same_index.keeps_all)

lemma distinct_put:
  "put_item r ix = Inr (u, ix') \<Longrightarrow> wf_index ix \<Longrightarrow> wf_index ix'"
  "put_assignment ra ix = Inr (u, ix') \<Longrightarrow> wf_index ix \<Longrightarrow> wf_index ix'"
  "put_escalation re ix = Inr (u, ix') \<Longrightarrow> wf_index ix \<Longrightarrow> wf_index ix'"
  "put_audit ru ix = Inr (u, ix') \<Longrightarrow> wf_index ix \<Longrightarrow> wf_index ix'"
  "put_failure rf ix = Inr (u, ix') \<Longrightarrow> wf_index ix \<Longrightarrow> wf_index ix'"
  "put_batch rb ix = Inr (u, ix') \<Longrightarrow> wf_index ix \<Longrightarrow> wf_index ix'"
  "put_rule rr ix = Inr (u, ix') \<Longrightarrow> wf_index ix \<Longrightarrow> wf_index ix'"
  by (auto simp: put_defs bindE_Inr_iff insert_row_Inr wf_index_def split: if_splits)

lemma inserts_wf [keeps_rules]:
  "keeps (index_inv wf_index) (InsertItem i)" "keeps (index_inv wf_index) (InsertAssignment a)"
  "keeps (index_inv wf_index) (InsertEscalation e)" "keeps (index_inv wf_index) (InsertAudit u)"
  "keeps (index_inv wf_index) (InsertFailure f)" "keeps (index_inv wf_index) (InsertBatch b)"
  "keeps (index_inv wf_index) (InsertRule r)"
  unfolding InsertItem_def InsertAssignment_def InsertEscalation_def InsertAudit_def InsertFailure_def
    InsertBatch_def InsertRule_def
  by (rule index_inv.keeps_map, rule exec_inv, erule distinct_put, assumption)+

lemma set_item_keys [simp]:
  "case_ID (set_item i r) = case_ID r" "case_ExternalRef (set_item i r) = case_ExternalRef r"
  by (simp_all add: set_item_def)

lemma inv_require_affected [keeps_rules]: "keeps (index_inv P) (require_affected n)"
  by (rule same_index_inv) (rule keeps_rules)

lemma inv_WallNow [keeps_rules]: "keeps (index_inv P) WallNow"
  by (rule same_index_inv) (rule keeps_rules)

lemma updates_wf [keeps_rules]:
  "keeps (index_inv wf_index) (UpdateItem i)" "keeps (index_inv wf_index) (MarkAssignmentSuperseded k)"
  "keeps (index_inv wf_index) (UpdateItemForEscalation k l n t s)"
  "keeps (index_inv wf_index) (UpdateFailure f)" "keeps (index_inv wf_index) (MarkFailureResolved k t)"
  "keeps (index_inv wf_index) (SupersedeRule v)" "keeps (index_inv wf_index) (UpsertManifest m)"
  unfolding UpdateItem_def MarkAssignmentSuperseded_def UpdateItemForEscalation_def UpdateFailure_def
    MarkFailureResolved_def SupersedeRule_def UpsertManifest_def set_escalated_def resolve_failure_def put_manifest_def
  by (intro index_inv.keeps_bind index_inv.keeps_map exec_inv keeps_rules;
      auto simp: wf_index_def map_update_where update_item_def supersede_assignments_def
        supersede_rule_def update_failure_def)+

lemma delete_tables_wf:
  "(\<And>t ix. t \<in> set ts \<Longrightarrow> wf_index ix \<Longrightarrow> wf_index (snd t ix)) \<Longrightarrow> keeps (index_inv wf_index) (delete_tables ts)"
proof (induction ts)
  case (Cons t ts)
  obtain table clear where t: "t = (table, clear)" by (cases t)
  have "wf_index ix \<Longrightarrow> wf_index (clear ix)" for ix using Cons.prems [of t ix] t by simp
  moreover note Cons.IH [OF Cons.prems]
  ultimately show ?case
    unfolding t delete_tables.simps by (intro index_inv.keeps_bind index_inv.keeps_map exec_inv) auto
qed (simp add: index_inv.keeps_ret)

lemma DeleteAllData_wf [keeps_rules]: "keeps (index_inv wf_index) DeleteAllData"
  unfolding DeleteAllData_def
  by (rule delete_tables_wf) (auto simp: delete_from_def wf_index_def)

section \<open>The effect of a statement that succeeds\<close>

lemma exec_Inr: "exec stmt w = (Inr b, w') \<Longrightarrow> stmt (db_index w) = Inr (b, db_index w')"
  by (drule exec_index) simp

lemma insert_effect:
  "InsertItem i w = (Inr u, w') \<Longrightarrow> put_item (row_of_item i) (db_index w) = Inr ((), db_index w')"
  "InsertAssignment a w = (Inr u, w') \<Longrightarrow> put_assignment (row_of_referral a) (db_index w) = Inr ((), db_index w')"
  "InsertEscalation e w = (Inr u, w') \<Longrightarrow> put_escalation (row_of_escalation e) (db_index w) = Inr ((), db_index w')"
  "InsertAudit d w = (Inr u, w') \<Longrightarrow> put_audit (row_of_audit d) (db_index w) = Inr ((), db_index w')"
  "InsertFailure f w = (Inr u, w') \<Longrightarrow> put_failure (row_of_failure f) (db_index w) = Inr ((), db_index w')"
  "InsertBatch b w = (Inr u, w') \<Longrightarrow> put_batch (row_of_batch b) (db_index w) = Inr ((), db_index w')"
  "InsertRule r w = (Inr u, w') \<Longrightarrow> put_rule (row_of_rule r) (db_index w) = Inr ((), db_index w')"
  unfolding InsertItem_def InsertAssignment_def InsertEscalation_def InsertAudit_def InsertFailure_def
    InsertBatch_def InsertRule_def mapErr_Inr
  by (auto dest!: exec_Inr)

lemma require_affected_Inr: "require_affected n w = (Inr u, w') \<longleftrightarrow> n \<noteq> 0 \<and> w' = w"
  by (auto simp: require_affected_def retM_def failM_def)

lemma affected_pos: "0 < affected (\<lambda>r. key r = k) rows \<longleftrightarrow> k \<in> key ` set rows"
  by (auto simp: affected_def filter_empty_conv)

lemma update_effect:
  "UpdateItem i w = (Inr u, w') \<Longrightarrow>
     case_ID i \<in> case_ID ` set (tab_items (db_index w)) \<and> db_index w' = update_item i (db_index w)"
  "UpdateFailure f w = (Inr u, w') \<Longrightarrow>
     fail_ID f \<in> fail_ID ` set (tab_permanent_failures (db_index w)) \<and> db_index w' = update_failure f (db_index w)"
  "MarkAssignmentSuperseded k w = (Inr u, w') \<Longrightarrow> db_index w' = supersede_assignments k (db_index w)"
  unfolding UpdateItem_def UpdateFailure_def MarkAssignmentSuperseded_def
  by (auto simp: bindM_Inr mapErr_Inr require_affected_Inr dest!: exec_Inr iffD1 [OF affected_pos])

lemma SupersedeRule_effect:
  "SupersedeRule v w = (Inr u, w') \<Longrightarrow> \<exists>now. db_index w' = supersede_rule v now (db_index w)"
  unfolding SupersedeRule_def
  by (auto simp: bindM_Inr mapErr_Inr WallNow_eq dest!: exec_Inr intro!: exI [of _ "rt_wall w (rt_ticks w)"])

lemma put_item_Inr: "put_item r ix = Inr (u, ix') \<longleftrightarrow>
    case_ID r \<notin> case_ID ` set (tab_items ix) \<and> case_ExternalRef r \<notin> case_ExternalRef ` set (tab_items ix)
    \<and> ix' = ix\<lparr>tab_items := tab_items ix @ [r]\<rparr>"
  by (auto simp: put_item_def)

lemma put_Inr:
  "put_assignment ra ix = Inr (u, ix') \<longleftrightarrow> ref_ID ra \<notin> ref_ID ` set (tab_assignments ix)
     \<and> ix' = ix\<lparr>tab_assignments := tab_assignments ix @ [ra]\<rparr>"
  "put_escalation re ix = Inr (u, ix') \<longleftrightarrow> esc_ID re \<notin> esc_ID ` set (tab_escalations ix)
     \<and> ix' = ix\<lparr>tab_escalations := tab_escalations ix @ [re]\<rparr>"
  "put_audit ru ix = Inr (u, ix') \<longleftrightarrow> aud_ID ru \<notin> aud_ID ` set (tab_audit_entries ix)
     \<and> ix' = ix\<lparr>tab_audit_entries := tab_audit_entries ix @ [ru]\<rparr>"
  "put_failure rf ix = Inr (u, ix') \<longleftrightarrow> fail_ID rf \<notin> fail_ID ` set (tab_permanent_failures ix)
     \<and> ix' = ix\<lparr>tab_permanent_failures := tab_permanent_failures ix @ [rf]\<rparr>"
  "put_batch rb ix = Inr (u, ix') \<longleftrightarrow> batch_ID rb \<notin> batch_ID ` set (tab_import_batches ix)
     \<and> ix' = ix\<lparr>tab_import_batches := tab_import_batches ix @ [rb]\<rparr>"
  "put_rule rr ix = Inr (u, ix') \<longleftrightarrow> rule_Version rr \<notin> rule_Version ` set (tab_rules ix)
     \<and> ix' = ix\<lparr>tab_rules := tab_rules ix @ [rr]\<rparr>"
  by (auto simp: put_defs bindE_Inr_iff insert_row_Inr)

end
