(* ===== verification/Shard.thy ===== *)
theory Shard
  imports Index
begin

text \<open>
  The package internal/shard: the append-only files of JSON lines, one per entity type and
  day, that hold the facts from which the index can be rebuilt. A file is the list of its
  lines in order; a line is the value that was marshalled, and \<open>entry_json\<close> is its text, from
  which sizes and offsets are computed. Texts are taken to be valid UTF-8, an empty list to be
  the nil slice, and a write that fails to leave no bytes behind.
\<close>

section \<open>JSON lines\<close>

datatype entry =
    ItemEntry item
  | RuleEntry rule
  | ReferralEntry "time Referral"
  | EscalationEntry "time Escalation"
  | AuditLine "time AuditEntry"
  | FailureEntry "time PermanentFailure"
  | BatchEntry "time ImportBatch"

definition quote_char :: char where "quote_char = CHR 0x22"
definition backslash :: char where "backslash = CHR 0x5C"

definition json_char :: "char \<Rightarrow> string" where
  \<comment> \<open>\<open>encoding/json\<close> with HTML escaping, as Marshal uses it\<close>
  "json_char c =
     (if c = quote_char \<or> c = backslash then [backslash, c]
      else if c = CHR 0x08 then [backslash, CHR ''b'']
      else if c = CHR 0x0C then [backslash, CHR ''f'']
      else if c = CHR 0x0A then [backslash, CHR ''n'']
      else if c = CHR 0x0D then [backslash, CHR ''r'']
      else if c = CHR 0x09 then [backslash, CHR ''t'']
      else if (of_char c :: nat) < 32 \<or> c \<in> {CHR ''<'', CHR ''>'', CHR ''&''} then
        backslash # ''u00'' @ [''0123456789abcdef'' ! (of_char c div 16), ''0123456789abcdef'' ! (of_char c mod 16)]
      else [c])"

fun json_chars :: "string \<Rightarrow> string" where
  \<comment> \<open>the line and paragraph separators U+2028 and U+2029 are escaped, too\<close>
  "json_chars [] = []"
| "json_chars (c # cs) =
     (if c = CHR 0xE2 \<and> take 2 cs = [CHR 0x80, CHR 0xA8] then backslash # ''u2028'' @ json_chars (drop 2 cs)
      else if c = CHR 0xE2 \<and> take 2 cs = [CHR 0x80, CHR 0xA9] then backslash # ''u2029'' @ json_chars (drop 2 cs)
      else json_char c @ json_chars cs)"

definition json_string :: "string \<Rightarrow> string" where
  "json_string s = quote_char # json_chars s @ [quote_char]"

fun json_join :: "string list \<Rightarrow> string" where
  "json_join [] = []"
| "json_join [s] = s"
| "json_join (s # t # ts) = s @ '','' @ json_join (t # ts)"

definition json_strings :: "string list \<Rightarrow> string" where
  "json_strings ss = (if ss = [] then ''null'' else ''['' @ json_join (map json_string ss) @ '']'')"

definition json_time :: "time \<Rightarrow> string" where
  "json_time t = quote_char # rfc3339nano t @ [quote_char]"

definition json_bool :: "bool \<Rightarrow> string" where
  "json_bool b = (if b then ''true'' else ''false'')"

definition json_object :: "(string \<times> string option) list \<Rightarrow> string" where
  \<comment> \<open>fields with \<open>None\<close> are left out (\<open>omitempty\<close>)\<close>
  "json_object fs = ''{'' @ json_join [json_string n @ '':'' @ v. (n, Some v) \<leftarrow> fs] @ ''}''"

definition omit_empty :: "string \<Rightarrow> string option" where
  "omit_empty s = (if s = '''' then None else Some (json_string s))"

definition rule_status_name :: "RuleStatus \<Rightarrow> string" where
  "rule_status_name s = (case s of RuleStatusDraft \<Rightarrow> ''draft'' | RuleStatusActive \<Rightarrow> ''active''
     | RuleStatusSuperseded \<Rightarrow> ''superseded'' | RuleStatusOther t \<Rightarrow> t)"

definition failure_status_name :: "FailureStatus \<Rightarrow> string" where
  "failure_status_name s = (case s of FailureStatusActive \<Rightarrow> ''permanent_failure''
     | FailureStatusRetried \<Rightarrow> ''retried'' | FailureStatusResolved \<Rightarrow> ''resolved''
     | FailureStatusOther t \<Rightarrow> t)"

fun entry_json :: "entry \<Rightarrow> string" where
  "entry_json (ItemEntry i) = json_object
    [(''id'', Some (json_string (case_ID i))), (''external_ref'', Some (json_string (case_ExternalRef i))),
     (''title'', Some (json_string (case_Title i))), (''description'', Some (json_string (case_Description i))),
     (''operator_name'', Some (json_string (case_OperatorName i))),
     (''operator_contact'', Some (json_string (case_OperatorContact i))),
     (''materials'', Some (json_strings (case_Materials i))), (''category'', Some (json_string (case_Category i))),
     (''keywords'', Some (json_strings (case_Keywords i))),
     (''status'', Some (json_string (status_name (case_Status i)))),
     (''lead_department'', Some (json_string (case_LeadDepartment i))),
     (''co_departments'', Some (json_strings (case_CoDepartments i))),
     (''rule_version'', Some (show_int (case_RuleVersion i))),
     (''registered_at'', Some (json_time (case_RegisteredAt i))),
     (''reported_by'', Some (json_string (case_RegisteredBy i))),
     (''deadline'', Some (json_time (case_Deadline i))),
     (''escalation_level'', Some (show_int (case_EscalationLevel i))),
     (''store_id'', Some (json_string (case_StoreID i))),
     (''completed_at'', map_option json_time (case_CompletedAt i)),
     (''cancelled_at'', map_option json_time (case_CancelledAt i)),
     (''cancel_reason'', omit_empty (case_CancelReason i)),
     (''data_version'', Some (show_int (case_DataVersion i))),
     (''created_at'', Some (json_time (case_CreatedAt i))),
     (''updated_at'', Some (json_time (case_UpdatedAt i)))]"
| "entry_json (RuleEntry r) = json_object
    [(''version'', Some (show_int (rule_Version r))), (''name'', Some (json_string (rule_Name r))),
     (''description'', Some (json_string (rule_Description r))),
     (''match_keywords'', Some (json_strings (rule_MatchKeywords r))),
     (''match_category'', Some (json_string (rule_MatchCategory r))),
     (''lead_department'', Some (json_string (rule_LeadDepartment r))),
     (''co_departments'', Some (json_strings (rule_CoDepartments r))),
     (''priority'', Some (show_int (rule_Priority r))), (''is_default'', Some (json_bool (rule_IsDefault r))),
     (''effective_from'', Some (json_time (rule_EffectiveFrom r))),
     (''effective_to'', Some (json_time (rule_EffectiveTo r))),
     (''status'', Some (json_string (rule_status_name (rule_Status r)))),
     (''created_at'', Some (json_time (rule_CreatedAt r))),
     (''created_by'', Some (json_string (rule_CreatedBy r))),
     (''data_version'', Some (show_int (rule_DataVersion r)))]"
| "entry_json (ReferralEntry a) = json_object
    [(''id'', Some (json_string (ref_ID a))), (''item_id'', Some (json_string (ref_ItemID a))),
     (''lead_department'', Some (json_string (ref_LeadDepartment a))),
     (''co_departments'', Some (json_strings (ref_CoDepartments a))),
     (''rule_version'', Some (show_int (ref_RuleVersion a))),
     (''adjudicated_at'', Some (json_time (ref_AdjudicatedAt a))),
     (''adjudicated_by'', Some (json_string (ref_AdjudicatedBy a))),
     (''is_current'', Some (json_bool (ref_IsCurrent a))),
     (''data_version'', Some (show_int (ref_DataVersion a)))]"
| "entry_json (EscalationEntry e) = json_object
    [(''id'', Some (json_string (esc_ID e))), (''item_id'', Some (json_string (esc_ItemID e))),
     (''from_level'', Some (show_int (esc_FromLevel e))), (''to_level'', Some (show_int (esc_ToLevel e))),
     (''old_lead_dept'', Some (json_string (esc_OldLeadDept e))),
     (''new_lead_dept'', Some (json_string (esc_NewLeadDept e))),
     (''escalated_at'', Some (json_time (esc_EscalatedAt e))), (''reason'', Some (json_string (esc_Reason e))),
     (''new_deadline'', Some (json_time (esc_NewDeadline e))),
     (''data_version'', Some (show_int (esc_DataVersion e)))]"
| "entry_json (AuditLine a) = json_object
    [(''id'', Some (json_string (aud_ID a))), (''entity_id'', Some (json_string (aud_EntityID a))),
     (''entity_type'', Some (json_string (aud_EntityType a))), (''action'', Some (json_string (aud_Action a))),
     (''actor'', Some (json_string (aud_Actor a))), (''timestamp'', Some (json_time (aud_Timestamp a))),
     (''details'', omit_empty (aud_Details a)), (''data_version'', Some (show_int (aud_DataVersion a)))]"
| "entry_json (FailureEntry f) = json_object
    [(''id'', Some (json_string (fail_ID f))), (''entity_type'', Some (json_string (fail_EntityType f))),
     (''entity_id'', Some (json_string (fail_EntityID f))), (''task_type'', Some (json_string (fail_TaskType f))),
     (''last_error'', Some (json_string (fail_LastError f))), (''attempts'', Some (show_int (fail_Attempts f))),
     (''first_failed_at'', Some (json_time (fail_FirstFailedAt f))),
     (''last_failed_at'', Some (json_time (fail_LastFailedAt f))),
     (''status'', Some (json_string (failure_status_name (fail_Status f)))),
     (''resolved_at'', map_option json_time (fail_ResolvedAt f)),
     (''next_retry_at'', map_option json_time (fail_NextRetryAt f)),
     (''backoff_state'', omit_empty (fail_BackoffState f)),
     (''data_version'', Some (show_int (fail_DataVersion f)))]"
| "entry_json (BatchEntry b) = json_object
    [(''id'', Some (json_string (batch_ID b))), (''store_id'', Some (json_string (batch_StoreID b))),
     (''batch_date'', Some (json_time (batch_BatchDate b))), (''total_rows'', Some (show_int (batch_TotalRows b))),
     (''success_count'', Some (show_int (batch_SuccessCount b))),
     (''failure_count'', Some (show_int (batch_FailureCount b))),
     (''imported_at'', Some (json_time (batch_ImportedAt b))),
     (''data_version'', Some (show_int (batch_DataVersion b)))]"

declare entry_json.simps [simp del]

fun entry_times :: "entry \<Rightarrow> time list" where
  "entry_times (ItemEntry i) = [case_RegisteredAt i, case_Deadline i, case_CreatedAt i, case_UpdatedAt i]
     @ [t. Some t \<leftarrow> [case_CompletedAt i, case_CancelledAt i]]"
| "entry_times (RuleEntry r) = [rule_EffectiveFrom r, rule_EffectiveTo r, rule_CreatedAt r]"
| "entry_times (ReferralEntry a) = [ref_AdjudicatedAt a]"
| "entry_times (EscalationEntry e) = [esc_EscalatedAt e, esc_NewDeadline e]"
| "entry_times (AuditLine a) = [aud_Timestamp a]"
| "entry_times (FailureEntry f) = [fail_FirstFailedAt f, fail_LastFailedAt f]
     @ [t. Some t \<leftarrow> [fail_ResolvedAt f, fail_NextRetryAt f]]"
| "entry_times (BatchEntry b) = [batch_BatchDate b, batch_ImportedAt b]"

fun stored :: "entry \<Rightarrow> entry" where
  \<comment> \<open>what unmarshalling the line gives: the fields tagged \<open>json:"-"\<close> are not in the text\<close>
  "stored (ItemEntry i) = ItemEntry (i\<lparr>case_ShardPath := '''', case_ShardOffset := 0\<rparr>)"
| "stored (RuleEntry r) = RuleEntry (r\<lparr>rule_ShardPath := ''''\<rparr>)"
| "stored (ReferralEntry a) = ReferralEntry (a\<lparr>ref_ShardPath := ''''\<rparr>)"
| "stored (EscalationEntry e) = EscalationEntry (e\<lparr>esc_ShardPath := ''''\<rparr>)"
| "stored (AuditLine a) = AuditLine (a\<lparr>aud_ShardPath := ''''\<rparr>)"
| "stored (FailureEntry f) = FailureEntry f"
| "stored (BatchEntry b) = BatchEntry (b\<lparr>batch_ShardPath := ''''\<rparr>)"

definition marshal :: "entry \<Rightarrow> err + entry" where
  \<comment> \<open>\<open>json.Marshal\<close> fails only for a time whose year does not have four digits\<close>
  "marshal e = (if list_all time_ok (entry_times e) then Inr (stored e)
     else Inl (ErrExternal ''json: error calling MarshalJSON for type time.Time: Time.MarshalJSON: year outside of range [0,9999]''))"

section \<open>Files\<close>

type_synonym shard_file = "string \<times> entry list"

record world = db +
  sh_rootDir :: string
  sh_maxShardSize :: int
  sh_syncOnWrite :: bool
  sh_files :: "shard_file list"

record Location =
  loc_Path :: string
  loc_Offset :: int
  loc_Size :: int

definition line_size :: "entry \<Rightarrow> int" where
  "line_size e = int (length (entry_json e)) + 1"

definition file_size :: "entry list \<Rightarrow> int" where
  "file_size ls = sum_list (map line_size ls)"

definition stat :: "shard_file list \<Rightarrow> string \<Rightarrow> int option" where
  \<comment> \<open>the size of a file, \<open>None\<close> when it does not exist\<close>
  "stat files path = map_option file_size (map_of files path)"

definition shardPath :: "string \<Rightarrow> string \<Rightarrow> time \<Rightarrow> string" where
  "shardPath rootDir entityType t =
     (case civil (nat t div 1000000000 div 86400) of (y, m, d) \<Rightarrow>
        rootDir @ ''/shards/'' @ entityType @ ''/'' @ year_text y @ ''-'' @ pad 2 m @ ''/''
        @ date_text (y, m, d) @ ''.jsonl'')"

definition shardDir :: "string \<Rightarrow> string \<Rightarrow> time \<Rightarrow> string" where
  \<comment> \<open>\<open>filepath.Dir\<close> of the shard path\<close>
  "shardDir rootDir entityType t =
     (case civil (nat t div 1000000000 div 86400) of (y, m, d) \<Rightarrow>
        rootDir @ ''/shards/'' @ entityType @ ''/'' @ year_text y @ ''-'' @ pad 2 m)"

definition fmt03 :: "nat \<Rightarrow> string" where
  \<comment> \<open>the verb \<open>%03d\<close>\<close>
  "fmt03 n = (if n < 1000 then pad 3 n else show_nat n)"

definition candidate :: "string \<Rightarrow> nat \<Rightarrow> string" where
  "candidate basePath i = basePath @ ''_'' @ fmt03 i"

lemma digits_val_show_nat: "digits_val (show_nat n) = n"
proof (induction n rule: show_nat.induct)
  case (1 n)
  show ?case
  proof (cases "n < 10")
    case True
    then show ?thesis by (subst show_nat.simps) (simp add: digits_val_def)
  next
    case False
    with 1 show ?thesis by (subst show_nat.simps) simp
  qed
qed

lemma digits_val_fmt03: "digits_val (fmt03 n) = n"
  by (simp add: fmt03_def digits_val_show_nat digits_val_pad)

lemma candidate_inj: "candidate p i = candidate p j \<longleftrightarrow> i = j"
  by (metis candidate_def digits_val_fmt03 same_append_eq)

function rotate_from :: "shard_file list \<Rightarrow> int \<Rightarrow> string \<Rightarrow> nat \<Rightarrow> string" where
  \<comment> \<open>the loop \<open>for i := 1; ; i++\<close>\<close>
  "rotate_from files maxSize basePath i = (case stat files (candidate basePath i) of
      None \<Rightarrow> candidate basePath i
    | Some sz \<Rightarrow> if sz < maxSize then candidate basePath i
        else rotate_from files maxSize basePath (Suc i))"
  by pat_completeness auto

definition candidates_from :: "shard_file list \<Rightarrow> string \<Rightarrow> nat \<Rightarrow> string set" where
  "candidates_from files basePath i = {p \<in> fst ` set files. \<exists>j \<ge> i. p = candidate basePath j}"

lemma candidates_from_Suc:
  assumes "stat files (candidate basePath i) = Some sz"
  shows "candidates_from files basePath (Suc i) \<subset> candidates_from files basePath i"
proof
  show "candidates_from files basePath (Suc i) \<subseteq> candidates_from files basePath i"
    by (auto simp: candidates_from_def intro: Suc_leD)
  have "candidate basePath i \<in> candidates_from files basePath i"
    using assms by (auto simp: candidates_from_def stat_def dest!: map_of_SomeD intro: rev_image_eqI)
  moreover have "candidate basePath i \<notin> candidates_from files basePath (Suc i)"
    by (auto simp: candidates_from_def candidate_inj)
  ultimately show "candidates_from files basePath (Suc i) \<noteq> candidates_from files basePath i" by blast
qed

termination rotate_from
proof (relation "measure (\<lambda>(files, m, p, i). card (candidates_from files p i))")
  fix files m p i sz
  assume "stat files (candidate p i) = Some sz"
  then have "card (candidates_from files p (Suc i)) < card (candidates_from files p i)"
    by (intro psubset_card_mono candidates_from_Suc) (simp_all add: candidates_from_def)
  then show "((files, m, p, Suc i), files, m, p, i) \<in> measure (\<lambda>(files, m, p, i). card (candidates_from files p i))"
    by simp
qed simp

declare rotate_from.simps [simp del]

definition rotateIfNeeded :: "shard_file list \<Rightarrow> int \<Rightarrow> string \<Rightarrow> string" where
  "rotateIfNeeded files maxSize basePath = (case stat files basePath of
      None \<Rightarrow> basePath
    | Some sz \<Rightarrow> if sz < maxSize then basePath else rotate_from files maxSize basePath 1)"

fun add_line :: "string \<Rightarrow> entry \<Rightarrow> shard_file list \<Rightarrow> shard_file list" where
  \<comment> \<open>a write at the end of the file\<close>
  "add_line path e [] = []"
| "add_line path e ((p, ls) # files) =
     (if p = path then (p, ls @ [e]) # files else (p, ls) # add_line path e files)"

definition create_file :: "string \<Rightarrow> shard_file list \<Rightarrow> shard_file list" where
  \<comment> \<open>\<open>O_CREATE\<close>\<close>
  "create_file path files = (if map_of files path = None then files @ [(path, [])] else files)"

definition on_files :: "(shard_file list \<Rightarrow> shard_file list) \<Rightarrow> (err, 'a world_scheme, unit) op" where
  "on_files f w = (Inr (), w\<lparr>sh_files := f (sh_files w)\<rparr>)"

definition Append :: "string \<Rightarrow> time \<Rightarrow> entry \<Rightarrow> (err, 'a world_scheme, Location) op" where
  "Append entityType t e =
     bindM external (\<lambda>_.
     bindM (getM (\<lambda>w. shardPath (sh_rootDir w) entityType t)) (\<lambda>basePath.
     bindM (getM (\<lambda>w. shardDir (sh_rootDir w) entityType t)) (\<lambda>dir.
     bindM (mapErr (Wrap (''create shard dir '' @ dir)) external) (\<lambda>_.
     bindM (getM (\<lambda>w. if sh_maxShardSize w > 0 then rotateIfNeeded (sh_files w) (sh_maxShardSize w) basePath
        else basePath)) (\<lambda>targetPath.
     bindM (mapErr (Wrap (''open shard '' @ targetPath)) external) (\<lambda>_.
     bindM (on_files (create_file targetPath)) (\<lambda>_.
     bindM (mapErr (Wrap (''seek shard '' @ targetPath)) external) (\<lambda>_.
     bindM (getM (\<lambda>w. case stat (sh_files w) targetPath of None \<Rightarrow> 0 | Some n \<Rightarrow> n)) (\<lambda>offset.
     bindM (mapErr (Wrap (''write shard '' @ targetPath)) external) (\<lambda>_.
     bindM (on_files (add_line targetPath e)) (\<lambda>_.
     bindM (getM sh_syncOnWrite) (\<lambda>sync.
     bindM (if sync then mapErr (Wrap (''sync shard '' @ targetPath)) external else retM ()) (\<lambda>_.
     retM \<lparr>loc_Path = targetPath, loc_Offset = offset, loc_Size = line_size e\<rparr>)))))))))))))"

section \<open>Reading\<close>

definition max_line :: int where
  \<comment> \<open>the buffer given to \<open>bufio.Scanner\<close>\<close>
  "max_line = 16 * 1024 * 1024"

definition ReadAll :: "string \<Rightarrow> (err, 'a world_scheme, entry list) op" where
  "ReadAll path =
     bindM (mapErr (Wrap (''open shard '' @ path)) external) (\<lambda>_.
     bindM (getM (\<lambda>w. map_of (sh_files w) path)) (\<lambda>f. case f of
       None \<Rightarrow> failM (Wrap (''open shard '' @ path) (ErrExternal (''open '' @ path @ '': no such file or directory'')))
     | Some ls \<Rightarrow> if list_ex (\<lambda>e. line_size e > max_line) ls then
           failM (Wrap (''scan shard '' @ path) (ErrExternal ''bufio.Scanner: token too long''))
         else bindM (mapErr (Wrap (''scan shard '' @ path)) external) (\<lambda>_. retM ls)))"

definition file_bytes :: "entry list \<Rightarrow> string" where
  "file_bytes ls = concat (map (\<lambda>e. entry_json e @ [CHR 0x0A]) ls)"

definition ReadAt :: "string \<Rightarrow> int \<Rightarrow> int \<Rightarrow> (err, 'a world_scheme, string) op" where
  \<comment> \<open>for a size that is not negative; fewer bytes come back at the end of the file\<close>
  "ReadAt path offset n =
     bindM (mapErr (Wrap (''open shard '' @ path)) external) (\<lambda>_.
     bindM (getM (\<lambda>w. map_of (sh_files w) path)) (\<lambda>f. case f of
       None \<Rightarrow> failM (Wrap (''open shard '' @ path) (ErrExternal (''open '' @ path @ '': no such file or directory'')))
     | Some ls \<Rightarrow> if offset < 0 then
           failM (Wrap (''read at offset '' @ show_int offset) (ErrExternal (''readat '' @ path @ '': negative offset'')))
         else bindM (mapErr (Wrap (''read at offset '' @ show_int offset)) external) (\<lambda>_.
           retM (take (nat n) (drop (nat offset) (file_bytes ls))))))"

record ShardFile =
  sf_Path :: string
  sf_EntityType :: string

definition has_suffix :: "string \<Rightarrow> string \<Rightarrow> bool" where
  "has_suffix s t \<longleftrightarrow> length t \<le> length s \<and> drop (length s - length t) s = t"

definition in_dir :: "string \<Rightarrow> string \<Rightarrow> bool" where
  "in_dir dir path \<longleftrightarrow> take (length dir + 1) path = dir @ ''/''"

definition ScanEntityType :: "string \<Rightarrow> (err, 'a world_scheme, ShardFile list) op" where
  \<comment> \<open>\<open>filepath.WalkDir\<close> visits the files in the order of their names; a cancelled context ends
     the walk with its error at whichever file it is noticed\<close>
  "ScanEntityType entityType =
     bindM external (\<lambda>_. getM (\<lambda>w.
       map (\<lambda>p. \<lparr>sf_Path = p, sf_EntityType = entityType\<rparr>)
         (sort (filter (\<lambda>p. in_dir (sh_rootDir w @ ''/shards/'' @ entityType) p \<and> has_suffix p ''.jsonl'')
           (map fst (sh_files w))))))"

definition shard_types :: "string list" where
  "shard_types = [''items'', ''rules'', ''assignments'', ''escalations'', ''audit'', ''batches'', ''failures'']"

fun scan_types :: "string list \<Rightarrow> (err, 'a world_scheme, ShardFile list) op" where
  "scan_types [] = retM []"
| "scan_types (t # ts) =
     bindM (ScanEntityType t) (\<lambda>files. bindM (scan_types ts) (\<lambda>all. retM (files @ all)))"

definition ScanAll :: "(err, 'a world_scheme, ShardFile list) op" where
  "ScanAll = scan_types shard_types"

section \<open>The files are append-only\<close>

text \<open>
  What holds between the files before and after: no file disappears, and what was in a file is
  still there, at the same place, with lines added behind it.
\<close>

definition append_only :: "'a world_scheme \<Rightarrow> 'a world_scheme \<Rightarrow> bool" where
  "append_only w w' \<longleftrightarrow>
     (\<forall>p ls. map_of (sh_files w) p = Some ls \<longrightarrow> (\<exists>more. map_of (sh_files w') p = Some (ls @ more)))"

interpretation append_only: step_preorder append_only
proof
  fix w1 w2 w3 :: "'a world_scheme"
  show "append_only w1 w1" by (auto simp: append_only_def)
  show "append_only w1 w2 \<Longrightarrow> append_only w2 w3 \<Longrightarrow> append_only w1 w3"
    unfolding append_only_def by (metis append_assoc)
qed

definition same_files :: "'a world_scheme \<Rightarrow> 'a world_scheme \<Rightarrow> bool" where
  "same_files w w' \<longleftrightarrow> sh_files w' = sh_files w"

interpretation same_files: step_preorder same_files
  by unfold_locales (simp_all add: same_files_def)

lemma same_files_append_only: "keeps same_files m \<Longrightarrow> keeps append_only m"
  by (erule keeps_weaken) (simp add: same_files_def append_only_def)

lemma map_of_create: "map_of (create_file p files) q =
    (if q = p \<and> map_of files p = None then Some [] else map_of files q)"
  by (auto simp: create_file_def map_add_def split: option.splits)

lemma map_of_add_line: "map_of (add_line p e files) q =
    (if q = p then map_option (\<lambda>ls. ls @ [e]) (map_of files p) else map_of files q)"
  by (induction p e files rule: add_line.induct) auto

lemma files_external: "keeps same_files external"
  by (auto simp: keeps_def same_files_def external_def split: list.splits)

lemma append_only_external: "keeps append_only external"
  by (rule same_files_append_only) (rule files_external)

lemma append_only_on_files:
  "keeps append_only (on_files (create_file p))" "keeps append_only (on_files (add_line p e))"
  by (auto simp: keeps_def append_only_def on_files_def map_of_create map_of_add_line)

lemma Append_append_only: "keeps append_only (Append entityType t e)"
  unfolding Append_def
  by (intro append_only.keeps_all append_only_external append_only_on_files)

section \<open>Where a line goes\<close>

lemma rotate_from_room:
  "stat files (rotate_from files maxSize basePath i) = Some n \<Longrightarrow> n < maxSize"
  by (induction files maxSize basePath i rule: rotate_from.induct)
     (subst (asm) (2) rotate_from.simps, auto split: option.splits if_splits)

lemma rotateIfNeeded_room:
  "stat files (rotateIfNeeded files maxSize basePath) = Some n \<Longrightarrow> n < maxSize"
  by (auto simp: rotateIfNeeded_def rotate_from_room split: option.splits if_splits)

lemma length_file_bytes: "int (length (file_bytes ls)) = file_size ls"
  by (induction ls) (simp_all add: file_bytes_def file_size_def line_size_def)

lemma file_size_nonneg: "0 \<le> file_size ls"
  by (metis length_file_bytes of_nat_0_le_iff)

definition lines_of :: "'a world_scheme \<Rightarrow> string \<Rightarrow> entry list" where
  "lines_of w p = (case map_of (sh_files w) p of None \<Rightarrow> [] | Some ls \<Rightarrow> ls)"

lemma external_frame: "external w = (r, w') \<Longrightarrow>
    sh_files w' = sh_files w \<and> sh_maxShardSize w' = sh_maxShardSize w \<and> db_index w' = db_index w"
  by (auto elim!: external_cases)

lemma bind_on_files [simp]: "bindM (on_files f) k w = k () (w\<lparr>sh_files := f (sh_files w)\<rparr>)"
  by (simp add: on_files_def bindM_def)

lemma Append_effect:
  assumes "Append entityType t e w = (Inr loc, w')"
  shows "map_of (sh_files w') (loc_Path loc) = Some (lines_of w (loc_Path loc) @ [e])"
    and "loc_Offset loc = file_size (lines_of w (loc_Path loc))"
    and "loc_Size loc = line_size e"
    and "0 < sh_maxShardSize w \<Longrightarrow> loc_Offset loc < sh_maxShardSize w"
    and "p \<noteq> loc_Path loc \<Longrightarrow> map_of (sh_files w') p = map_of (sh_files w) p"
proof -
  let ?new = "\<lambda>q. add_line q e (create_file q (sh_files w))"
  have *: "sh_files w' = ?new (loc_Path loc)
     \<and> loc_Offset loc = (case stat (create_file (loc_Path loc) (sh_files w)) (loc_Path loc) of None \<Rightarrow> 0 | Some n \<Rightarrow> n)
     \<and> loc_Size loc = line_size e
     \<and> (0 < sh_maxShardSize w \<longrightarrow> (\<exists>b. loc_Path loc = rotateIfNeeded (sh_files w) (sh_maxShardSize w) b))"
    using assms
    by (auto simp: Append_def retM_def dest!: bind_external_Inr split: if_splits; blast)
  show "map_of (sh_files w') (loc_Path loc) = Some (lines_of w (loc_Path loc) @ [e])"
    using * by (auto simp: map_of_add_line map_of_create lines_of_def split: option.splits)
  show off: "loc_Offset loc = file_size (lines_of w (loc_Path loc))"
    using * by (auto simp: stat_def map_of_create lines_of_def file_size_def split: option.splits)
  show "loc_Size loc = line_size e" using * by blast
  show "p \<noteq> loc_Path loc \<Longrightarrow> map_of (sh_files w') p = map_of (sh_files w) p"
    using * by (simp add: map_of_add_line map_of_create)
  assume m: "0 < sh_maxShardSize w"
  with * obtain b where b: "loc_Path loc = rotateIfNeeded (sh_files w) (sh_maxShardSize w) b" by blast
  show "loc_Offset loc < sh_maxShardSize w"
  proof (cases "map_of (sh_files w) (loc_Path loc)")
    case None
    then show ?thesis using m off by (simp add: lines_of_def file_size_def)
  next
    case (Some ls)
    then have "stat (sh_files w) (loc_Path loc) = Some (loc_Offset loc)"
      by (simp add: stat_def off lines_of_def)
    then show ?thesis unfolding b by (rule rotateIfNeeded_room)
  qed
qed

text \<open>
  C29: A line that was appended can be read back: the location that \<open>Append\<close> returns names the
  bytes of the line in its file, and it still does after any further use of the files, since
  they are append-only. With a size limit, the line starts below the limit.
\<close>

theorem ReadAt_Append:
  assumes "Append entityType t e w = (Inr loc, w1)" and "append_only w1 w2" and "healthy w2"
  shows "fst (ReadAt (loc_Path loc) (loc_Offset loc) (loc_Size loc) w2) = Inr (entry_json e @ [CHR 0x0A])
     \<and> (0 < sh_maxShardSize w \<longrightarrow> loc_Offset loc < sh_maxShardSize w)"
proof
  let ?old = "lines_of w (loc_Path loc)"
  obtain more where f: "map_of (sh_files w2) (loc_Path loc) = Some (?old @ e # more)"
    using Append_effect(1) [OF assms(1)] assms(2) by (fastforce simp: append_only_def)
  have off: "nat (loc_Offset loc) = length (file_bytes ?old)" and nneg: "0 \<le> loc_Offset loc"
    and sz: "nat (loc_Size loc) = length (entry_json e) + 1"
    using Append_effect(2,3) [OF assms(1)] file_size_nonneg [of ?old]
    by (simp_all flip: length_file_bytes add: line_size_def)
  have "file_bytes (?old @ e # more) = file_bytes ?old @ (entry_json e @ [CHR 0x0A]) @ file_bytes more"
    by (simp add: file_bytes_def)
  then have bytes: "take (nat (loc_Size loc)) (drop (nat (loc_Offset loc)) (file_bytes (?old @ e # more)))
      = entry_json e @ [CHR 0x0A]"
    unfolding off sz by simp
  obtain fs1 where e1: "external w2 = (Inr (), w2\<lparr>rt_faults := fs1\<rparr>)" "healthy (w2\<lparr>rt_faults := fs1\<rparr>)"
    using external_healthy [OF assms(3)] by blast
  obtain fs2 where e2: "external (w2\<lparr>rt_faults := fs1\<rparr>) = (Inr (), w2\<lparr>rt_faults := fs1, rt_faults := fs2\<rparr>)"
    using external_healthy [OF e1(2)] by blast
  show "fst (ReadAt (loc_Path loc) (loc_Offset loc) (loc_Size loc) w2) = Inr (entry_json e @ [CHR 0x0A])"
    using f nneg bytes e1(1) e2 by (simp add: ReadAt_def bindM_def mapErr_def getM_def retM_def)
  show "0 < sh_maxShardSize w \<longrightarrow> loc_Offset loc < sh_maxShardSize w"
    using Append_effect(4) [OF assms(1)] by blast
qed

section \<open>Witnesses\<close>

definition sample_world :: world where
  "sample_world = \<lparr>rt_clock = (\<lambda>n. 100 + int n), rt_wall = (\<lambda>n. 100 + int n), rt_ticks = 0,
     rt_uuid = show_nat, rt_ids = 0, rt_faults = [], db_index = empty_index, sh_rootDir = ''data'',
     sh_maxShardSize = 1024, sh_syncOnWrite = True, sh_files = []\<rparr>"

lemma external_no_faults: "rt_faults w = [] \<Longrightarrow> external w = (Inr (), w)"
  by (simp add: external_def)

lemma Append_sample:
  "\<exists>loc w1. Append ''items'' 5 (ItemEntry sample_case) sample_world = (Inr loc, w1) \<and> healthy w1"
  by (simp add: Append_def bindM_def mapErr_def getM_def retM_def on_files_def external_no_faults
      sample_world_def healthy_def)

theorem ReadAt_Append_witness:
  "\<exists>loc w1. Append ''items'' 5 (ItemEntry sample_case) sample_world = (Inr loc, w1)
     \<and> fst (ReadAt (loc_Path loc) (loc_Offset loc) (loc_Size loc) w1)
       = Inr (entry_json (ItemEntry sample_case) @ [CHR 0x0A]) \<and> loc_Offset loc < 1024"
proof -
  obtain loc w1 where a: "Append ''items'' 5 (ItemEntry sample_case) sample_world = (Inr loc, w1)" "healthy w1"
    using Append_sample by blast
  have "append_only w1 w1" by (rule append_only.step_refl)
  from ReadAt_Append [OF a(1) this a(2)] a(1) show ?thesis by (auto simp: sample_world_def)
qed

end
