(* ===== verification/Repo.thy ===== *)
theory Repo
  imports Shard
begin

text \<open>
  The package internal/repo: a store that writes every record twice, as a line of a shard and
  as a row of the index, inside a transaction of the index. Go passes records by pointer and
  the store sets their shard location; here an operation returns the record with the location
  set.
\<close>

section \<open>Transactions\<close>

definition rollback_on_error :: "(err, 'a world_scheme, 'b) op \<Rightarrow> (err, 'a world_scheme, 'b) op" where
  \<comment> \<open>the deferred function of \<open>WithTx\<close>: the shards have no rollback\<close>
  "rollback_on_error m w = (case m w of
      (Inl e, w') \<Rightarrow> (Inl e, w'\<lparr>db_index := db_index w\<rparr>)
    | (Inr a, w') \<Rightarrow> (Inr a, w'))"

definition WithTx :: "(err, 'a world_scheme, 'b) op \<Rightarrow> (err, 'a world_scheme, 'b) op" where
  "WithTx fn =
     bindM (mapErr (\<lambda>e. Wrap ''begin index tx'' (Wrap ''begin tx'' e)) external) (\<lambda>_.
     rollback_on_error (bindM fn (\<lambda>a.
       bindM (mapErr (Wrap ''commit tx'') external) (\<lambda>_. retM a))))"

section \<open>Writes inside a transaction\<close>

definition SaveItem :: "item \<Rightarrow> (err, 'a world_scheme, item) op" where
  "SaveItem i =
     bindM (mapErr (Wrap ''marshal item'') (liftE (marshal (ItemEntry i)))) (\<lambda>data.
     bindM (mapErr (Wrap ''write item shard'') (Append ''items'' (case_RegisteredAt i) data)) (\<lambda>loc.
     let i' = i\<lparr>case_ShardPath := loc_Path loc, case_ShardOffset := loc_Offset loc\<rparr> in
     bindM (InsertItem i') (\<lambda>_. retM i')))"

definition tx_UpdateItem :: "item \<Rightarrow> (err, 'a world_scheme, item) op" where
  "tx_UpdateItem i =
     bindM (mapErr (Wrap ''marshal item'') (liftE (marshal (ItemEntry i)))) (\<lambda>data.
     bindM Now (\<lambda>now.
     bindM (mapErr (Wrap ''write item update shard'') (Append ''items'' now data)) (\<lambda>loc.
     let i' = i\<lparr>case_ShardPath := loc_Path loc, case_ShardOffset := loc_Offset loc\<rparr> in
     bindM (UpdateItem i') (\<lambda>_. retM i'))))"

definition SaveAssignment :: "time Referral \<Rightarrow> (err, 'a world_scheme, time Referral) op" where
  "SaveAssignment a =
     bindM (mapErr (Wrap ''marshal referral'') (liftE (marshal (ReferralEntry a)))) (\<lambda>data.
     bindM (mapErr (Wrap ''write referral shard'') (Append ''assignments'' (ref_AdjudicatedAt a) data)) (\<lambda>loc.
     let a' = a\<lparr>ref_ShardPath := loc_Path loc\<rparr> in
     bindM (InsertAssignment a') (\<lambda>_. retM a')))"

definition SaveEscalation :: "time Escalation \<Rightarrow> (err, 'a world_scheme, time Escalation) op" where
  "SaveEscalation e =
     bindM (mapErr (Wrap ''marshal escalation'') (liftE (marshal (EscalationEntry e)))) (\<lambda>data.
     bindM (mapErr (Wrap ''write escalation shard'') (Append ''escalations'' (esc_EscalatedAt e) data)) (\<lambda>loc.
     let e' = e\<lparr>esc_ShardPath := loc_Path loc\<rparr> in
     bindM (InsertEscalation e') (\<lambda>_. retM e')))"

definition SaveAudit :: "time AuditEntry \<Rightarrow> (err, 'a world_scheme, time AuditEntry) op" where
  "SaveAudit a =
     bindM (mapErr (Wrap ''marshal audit'') (liftE (marshal (AuditLine a)))) (\<lambda>data.
     bindM (mapErr (Wrap ''write audit shard'') (Append ''audit'' (aud_Timestamp a) data)) (\<lambda>loc.
     let a' = a\<lparr>aud_ShardPath := loc_Path loc\<rparr> in
     bindM (InsertAudit a') (\<lambda>_. retM a')))"

definition SaveFailure :: "time PermanentFailure \<Rightarrow> (err, 'a world_scheme, unit) op" where
  "SaveFailure f =
     bindM (mapErr (Wrap ''marshal failure'') (liftE (marshal (FailureEntry f)))) (\<lambda>data.
     bindM (mapErr (Wrap ''write failure shard'') (Append ''failures'' (fail_FirstFailedAt f) data)) (\<lambda>_.
     InsertFailure f))"

definition tx_UpdateFailure :: "time PermanentFailure \<Rightarrow> (err, 'a world_scheme, unit) op" where
  "tx_UpdateFailure f =
     bindM (mapErr (Wrap ''marshal failure'') (liftE (marshal (FailureEntry f)))) (\<lambda>data.
     bindM Now (\<lambda>now.
     bindM (mapErr (Wrap ''write failure update shard'') (Append ''failures'' now data)) (\<lambda>_.
     UpdateFailure f)))"

definition SaveBatch :: "time ImportBatch \<Rightarrow> (err, 'a world_scheme, time ImportBatch) op" where
  "SaveBatch b =
     bindM (mapErr (Wrap ''marshal batch'') (liftE (marshal (BatchEntry b)))) (\<lambda>data.
     bindM (mapErr (Wrap ''write batch shard'') (Append ''batches'' (batch_ImportedAt b) data)) (\<lambda>loc.
     let b' = b\<lparr>batch_ShardPath := loc_Path loc\<rparr> in
     bindM (InsertBatch b') (\<lambda>_. retM b')))"

definition SaveRule :: "rule \<Rightarrow> (err, 'a world_scheme, rule) op" where
  "SaveRule r =
     bindM (mapErr (Wrap ''marshal rule'') (liftE (marshal (RuleEntry r)))) (\<lambda>data.
     bindM (mapErr (Wrap ''write rule shard'') (Append ''rules'' (rule_CreatedAt r) data)) (\<lambda>loc.
     let r' = r\<lparr>rule_ShardPath := loc_Path loc\<rparr> in
     bindM (InsertRule r') (\<lambda>_. retM r')))"

lemmas save_defs = SaveItem_def tx_UpdateItem_def SaveAssignment_def SaveEscalation_def SaveAudit_def
  SaveFailure_def tx_UpdateFailure_def SaveBatch_def SaveRule_def Let_def

section \<open>The effect of a transaction\<close>

lemma Append_index: "keeps same_index (Append entityType t e)"
  unfolding Append_def
  by (intro same_index.keeps_all same_external) (simp_all add: keeps_def same_index_def on_files_def)

lemma rollback_Inl: "rollback_on_error m w = (Inl e, w') \<Longrightarrow> db_index w' = db_index w"
  by (auto simp: rollback_on_error_def split: prod.splits sum.splits)

lemma rollback_Inr: "rollback_on_error m w = (Inr a, w') \<longleftrightarrow> m w = (Inr a, w')"
  by (auto simp: rollback_on_error_def split: prod.splits sum.splits)

lemma external_index: "external w = (r, w') \<Longrightarrow> db_index w' = db_index w"
  by (auto elim!: external_cases)

lemma WithTx_Inl: "WithTx fn w = (Inl e, w') \<Longrightarrow> db_index w' = db_index w"
  by (auto simp: WithTx_def bindM_Inl mapErr_Inl mapErr_Inr dest!: external_index rollback_Inl)

lemma WithTx_Inr:
  assumes "WithTx fn w = (Inr a, w')"
  obtains w0 w1 where "db_index w0 = db_index w" and "sh_files w0 = sh_files w"
    and "fn w0 = (Inr a, w1)" and "db_index w' = db_index w1"
proof -
  obtain fs where "bindM fn (\<lambda>a. bindM (mapErr (Wrap ''commit tx'') external) (\<lambda>_. retM a)) (w\<lparr>rt_faults := fs\<rparr>) = (Inr a, w')"
    using bind_external_Inr(2) [OF assms [unfolded WithTx_def]] by (auto simp: rollback_Inr)
  then obtain w1 fs' where "fn (w\<lparr>rt_faults := fs\<rparr>) = (Inr a, w1)" "w' = w1\<lparr>rt_faults := fs'\<rparr>"
    by (auto simp: bindM_Inr [of fn] retM_def dest!: bind_external_Inr)
  then show thesis by (intro that [of "w\<lparr>rt_faults := fs\<rparr>" w1]) auto
qed

lemma WithTx_InrD: "WithTx fn w = (Inr a, w') \<Longrightarrow>
    \<exists>w0 w1. db_index w0 = db_index w \<and> fn w0 = (Inr a, w1) \<and> db_index w' = db_index w1"
  by (erule WithTx_Inr) blast

lemma WithTx_keeps_index: "keeps (index_inv P) fn \<Longrightarrow> keeps (index_inv P) (WithTx fn)"
proof (rule keepsI)
  fix w r w'
  assume k: "keeps (index_inv P) fn" and run: "WithTx fn w = (r, w')"
  show "index_inv P w w'"
  proof (cases r)
    case (Inl e)
    with run show ?thesis by (simp add: index_inv_def WithTx_Inl)
  next
    case (Inr a)
    with run obtain w0 w1 where "db_index w0 = db_index w" "fn w0 = (Inr a, w1)" "db_index w' = db_index w1"
      by (auto elim: WithTx_Inr)
    with keepsD [OF k, of w0] show ?thesis by (simp add: index_inv_def)
  qed
qed

lemma rollback_append_only: "keeps append_only m \<Longrightarrow> keeps append_only (rollback_on_error m)"
proof (rule keepsI)
  fix w r w'
  assume k: "keeps append_only m" and run: "rollback_on_error m w = (r, w')"
  obtain r1 w1 where m: "m w = (r1, w1)" by (cases "m w")
  then have "append_only w w1" by (rule keepsD [OF k])
  moreover have "sh_files w' = sh_files w1"
    using run m by (auto simp: rollback_on_error_def split: sum.splits)
  ultimately show "append_only w w'" by (simp add: append_only_def)
qed

lemma WithTx_append_only: "keeps append_only fn \<Longrightarrow> keeps append_only (WithTx fn)"
  unfolding WithTx_def
  by (intro append_only.keeps_all append_only_external rollback_append_only)

section \<open>The effect of a write that succeeds\<close>

lemma Append_same: "Append entityType t e w = (r, w') \<Longrightarrow> db_index w' = db_index w"
  using keepsD [OF Append_index] by (simp add: same_index_def)

lemma Now_same: "Now w = (r, w') \<Longrightarrow> db_index w' = db_index w"
  by (simp add: Now_eq)

lemmas same_dests = Append_same Now_same external_index

lemma set_item_location [simp]: "set_item (i\<lparr>case_ShardPath := p, case_ShardOffset := n\<rparr>) = set_item i"
  by (rule ext) (simp add: set_item_def)

lemma row_of_location [simp]:
  "case_ID (row_of_item (i\<lparr>case_ShardPath := p, case_ShardOffset := n\<rparr>)) = case_ID i"
  "update_item (i\<lparr>case_ShardPath := p, case_ShardOffset := n\<rparr>) = update_item i"
  by (simp_all add: row_of_item_def update_item_def fun_eq_iff)

definition relocated :: "item \<Rightarrow> item \<Rightarrow> bool" where
  \<comment> \<open>the same case, up to the shard location that the store sets\<close>
  "relocated i i' \<longleftrightarrow> i' = i\<lparr>case_ShardPath := case_ShardPath i', case_ShardOffset := case_ShardOffset i'\<rparr>"

lemma relocated_location [simp]: "relocated i (i\<lparr>case_ShardPath := p, case_ShardOffset := n\<rparr>)"
  by (simp add: relocated_def)

lemma SaveItem_effect: "SaveItem i w = (Inr i', w') \<Longrightarrow> relocated i i'
    \<and> put_item (row_of_item i') (db_index w) = Inr ((), db_index w')"
  by (auto simp: save_defs op_results dest!: insert_effect same_dests)

lemma tx_UpdateItem_effect: "tx_UpdateItem i w = (Inr i', w') \<Longrightarrow> relocated i i' \<and> case_ID i \<in> case_ID ` set (tab_items (db_index w)) \<and> db_index w' = update_item i (db_index w)"
  by (auto simp: save_defs op_results dest!: update_effect same_dests)

lemma SaveAssignment_effect: "SaveAssignment a w = (Inr a', w') \<Longrightarrow>
    (\<exists>p. a' = a\<lparr>ref_ShardPath := p\<rparr>) \<and> put_assignment (row_of_referral a') (db_index w) = Inr ((), db_index w')"
  by (auto simp: save_defs op_results dest!: insert_effect same_dests)

lemma SaveEscalation_effect: "SaveEscalation e w = (Inr e', w') \<Longrightarrow>
    (\<exists>p. e' = e\<lparr>esc_ShardPath := p\<rparr>) \<and> put_escalation (row_of_escalation e') (db_index w) = Inr ((), db_index w')"
  by (auto simp: save_defs op_results dest!: insert_effect same_dests)

lemma SaveAudit_effect: "SaveAudit a w = (Inr a', w') \<Longrightarrow>
    (\<exists>p. a' = a\<lparr>aud_ShardPath := p\<rparr>) \<and> put_audit (row_of_audit a') (db_index w) = Inr ((), db_index w')"
  by (auto simp: save_defs op_results dest!: insert_effect same_dests)

lemma SaveBatch_effect: "SaveBatch b w = (Inr b', w') \<Longrightarrow>
    (\<exists>p. b' = b\<lparr>batch_ShardPath := p\<rparr>) \<and> put_batch (row_of_batch b') (db_index w) = Inr ((), db_index w')"
  by (auto simp: save_defs op_results dest!: insert_effect same_dests)

lemma SaveRule_effect: "SaveRule r w = (Inr r', w') \<Longrightarrow>
    (\<exists>p. r' = r\<lparr>rule_ShardPath := p\<rparr>) \<and> put_rule (row_of_rule r') (db_index w) = Inr ((), db_index w')"
  by (auto simp: save_defs op_results dest!: insert_effect same_dests)

lemma SaveFailure_effect: "SaveFailure f w = (Inr u, w') \<Longrightarrow>
    put_failure (row_of_failure f) (db_index w) = Inr ((), db_index w')"
  by (auto simp: save_defs op_results dest!: insert_effect same_dests)

lemma tx_UpdateFailure_effect: "tx_UpdateFailure f w = (Inr u, w') \<Longrightarrow>
    fail_ID f \<in> fail_ID ` set (tab_permanent_failures (db_index w)) \<and> db_index w' = update_failure f (db_index w)"
  by (auto simp: save_defs op_results dest!: update_effect same_dests)

section \<open>What the store keeps\<close>

lemma files_exec: "keeps same_files (exec stmt)"
  unfolding exec_def
  by (intro same_files.keeps_bind files_external) (auto simp: keeps_def same_files_def split: sum.splits)

lemma files_clock: "keeps same_files Now" "keeps same_files WallNow" "keeps same_files NewString"
  by (simp_all add: keeps_def same_files_def Now_def WallNow_def NewString_def)

lemma files_require: "keeps same_files (require_affected n)"
  by (simp add: require_affected_def same_files.keeps_all)

lemma files_statements [keeps_rules]:
  "keeps same_files (InsertItem i)" "keeps same_files (UpdateItem i)" "keeps same_files (InsertAssignment a)"
  "keeps same_files (MarkAssignmentSuperseded k)" "keeps same_files (InsertEscalation e)"
  "keeps same_files (InsertAudit u)" "keeps same_files (InsertFailure f)" "keeps same_files (UpdateFailure f)"
  "keeps same_files (InsertBatch b)" "keeps same_files (InsertRule r)" "keeps same_files (SupersedeRule v)"
  unfolding InsertItem_def UpdateItem_def InsertAssignment_def MarkAssignmentSuperseded_def InsertEscalation_def
    InsertAudit_def InsertFailure_def UpdateFailure_def InsertBatch_def InsertRule_def SupersedeRule_def
  by (intro same_files.keeps_all files_exec files_clock files_require)+

lemma query_files:
  "keeps same_files (query_rows wrap sel scan)" "keeps same_files (query_row sel' scan')"
  "keeps same_files (count_rows tab p)"
  unfolding query_rows_def query_row_def count_rows_def
  by (intro same_files.keeps_all files_external)+

lemma queries_files:
  "keeps same_files (GetItemByID itemID)" "keeps same_files (GetItemByExternalRef xref)"
  "keeps same_files (ListItems f)" "keeps same_files (FindOverdueItems t n)"
  "keeps same_files CountByStatus" "keeps same_files (GetActiveRules t)"
  "keeps same_files GetCurrentRuleVersion" "keeps same_files ListRules" "keeps same_files (GetRuleByVersion v)"
  "keeps same_files (ListBatches bf)" "keeps same_files ListFailures" "keeps same_files ListManifest"
  "keeps same_files (GetAssignmentsByItemID itemID)" "keeps same_files (GetEscalationsByItemID itemID)"
  "keeps same_files (ListAudit g)" "keeps same_files (GetFailureByID itemID)"
  unfolding query_defs by (intro same_files.keeps_all query_files files_clock files_external)+

lemmas append_only_rules = append_only.keeps_all Append_append_only append_only_external
  files_statements [THEN same_files_append_only] files_clock [THEN same_files_append_only]
  WithTx_append_only

lemma saves_append_only [keeps_rules]:
  "keeps append_only (SaveItem i)" "keeps append_only (tx_UpdateItem i)" "keeps append_only (SaveAssignment a)"
  "keeps append_only (SaveEscalation e)" "keeps append_only (SaveAudit d)" "keeps append_only (SaveFailure f)"
  "keeps append_only (tx_UpdateFailure f)" "keeps append_only (SaveBatch b)" "keeps append_only (SaveRule r)"
  unfolding save_defs by (intro append_only_rules)+

lemmas append_only_all = append_only_rules saves_append_only queries_files [THEN same_files_append_only]

lemmas wf_rules = index_inv.keeps_all [where P = wf_index] Append_index [THEN same_index_inv]
  same_Now [THEN same_index_inv] same_WallNow [THEN same_index_inv] same_NewString [THEN same_index_inv]
  same_external [THEN same_index_inv] queries_read_only [THEN same_index_inv]
  inserts_wf updates_wf WithTx_keeps_index

lemma saves_wf [keeps_rules]:
  "keeps (index_inv wf_index) (SaveItem i)" "keeps (index_inv wf_index) (tx_UpdateItem i)"
  "keeps (index_inv wf_index) (SaveAssignment a)" "keeps (index_inv wf_index) (SaveEscalation e)"
  "keeps (index_inv wf_index) (SaveAudit d)" "keeps (index_inv wf_index) (SaveFailure f)"
  "keeps (index_inv wf_index) (tx_UpdateFailure f)" "keeps (index_inv wf_index) (SaveBatch b)"
  "keeps (index_inv wf_index) (SaveRule r)"
  unfolding save_defs by (intro wf_rules)+

end
