(* ===== verification/History.thy ===== *)
theory History
  imports Repo
begin

text \<open>
  What the index means over time, as relations and invariants of its tables: how a row may
  change from one state to the next, that each case has one current referral which agrees with
  it, and that its escalation level counts its escalations. The lemmas say what the statements
  on the tables do to these; the services build on them.
\<close>

section \<open>How rows change\<close>

definition row_evolves :: "item_row \<Rightarrow> item_row \<Rightarrow> bool" where
  \<comment> \<open>identity and registration stay, the status moves along the machine, the level never falls\<close>
  "row_evolves r r' \<longleftrightarrow> case_ID r' = case_ID r \<and> case_ExternalRef r' = case_ExternalRef r
     \<and> case_RegisteredAt r' = case_RegisteredAt r \<and> case_RegisteredBy r' = case_RegisteredBy r
     \<and> case_CreatedAt r' = case_CreatedAt r
     \<and> CanTransition\<^sup>*\<^sup>* (case_Status r) (case_Status r')
     \<and> case_EscalationLevel r \<le> case_EscalationLevel r'"

definition referral_evolves :: "referral_row \<Rightarrow> referral_row \<Rightarrow> bool" where
  \<comment> \<open>a referral only ever stops being current\<close>
  "referral_evolves a a' \<longleftrightarrow> a' = a \<or> a' = a\<lparr>ref_IsCurrent := False\<rparr>"

definition rule_evolves :: "rule_row \<Rightarrow> rule_row \<Rightarrow> bool" where
  \<comment> \<open>a rule is only ever superseded\<close>
  "rule_evolves r r' \<longleftrightarrow> r' = r \<or> (\<exists>t. r' = r\<lparr>rule_Status := RuleStatusSuperseded, rule_EffectiveTo := t\<rparr>)"

definition failure_evolves :: "failure_row \<Rightarrow> failure_row \<Rightarrow> bool" where
  "failure_evolves f f' \<longleftrightarrow> fail_ID f' = fail_ID f \<and> fail_EntityType f' = fail_EntityType f
     \<and> fail_EntityID f' = fail_EntityID f \<and> fail_TaskType f' = fail_TaskType f
     \<and> fail_FirstFailedAt f' = fail_FirstFailedAt f"

definition evolves :: "index \<Rightarrow> index \<Rightarrow> bool" where
  "evolves ix ix' \<longleftrightarrow> extends row_evolves (tab_items ix) (tab_items ix')
     \<and> extends referral_evolves (tab_assignments ix) (tab_assignments ix')
     \<and> extends rule_evolves (tab_rules ix) (tab_rules ix')
     \<and> extends failure_evolves (tab_permanent_failures ix) (tab_permanent_failures ix')
     \<and> extends (=) (tab_escalations ix) (tab_escalations ix')
     \<and> extends (=) (tab_audit_entries ix) (tab_audit_entries ix')
     \<and> extends (=) (tab_import_batches ix) (tab_import_batches ix')"

lemma evolves_orders [simp]:
  "reflp row_evolves" "reflp referral_evolves" "reflp rule_evolves" "reflp failure_evolves"
  "transp row_evolves" "transp referral_evolves" "transp rule_evolves" "transp failure_evolves"
  by (auto simp: reflp_def transp_def row_evolves_def referral_evolves_def rule_evolves_def failure_evolves_def)

definition history :: "'a db_scheme \<Rightarrow> 'a db_scheme \<Rightarrow> bool" where
  "history w w' \<longleftrightarrow> evolves (db_index w) (db_index w')"

lemma evolves_refl: "evolves ix ix"
  by (simp add: evolves_def extends_refl extends_eq_iff)

lemma evolves_trans [trans]: "evolves ix ix' \<Longrightarrow> evolves ix' ix'' \<Longrightarrow> evolves ix ix''"
  unfolding evolves_def by (auto intro: extends_trans simp: extends_eq_iff)

interpretation history: step_preorder history
  by unfold_locales (auto simp: history_def intro: evolves_refl evolves_trans)

section \<open>Routing and escalation level\<close>

definition current_of :: "string \<Rightarrow> referral_row list \<Rightarrow> referral_row list" where
  "current_of itemID rows = filter (\<lambda>a. ref_ItemID a = itemID \<and> ref_IsCurrent a) rows"

definition agrees :: "item_row \<Rightarrow> referral_row \<Rightarrow> bool" where
  "agrees r a \<longleftrightarrow> ref_LeadDepartment a = case_LeadDepartment r
     \<and> ref_CoDepartments a = case_CoDepartments r \<and> ref_RuleVersion a = case_RuleVersion r"

definition routed :: "index \<Rightarrow> bool" where
  \<comment> \<open>each case has exactly one current referral, and it names the case's departments and rule\<close>
  "routed ix \<longleftrightarrow>
     (\<forall>r \<in> set (tab_items ix). \<exists>a. current_of (case_ID r) (tab_assignments ix) = [a] \<and> agrees r a)
     \<and> (\<forall>a \<in> set (tab_assignments ix). ref_ItemID a \<in> case_ID ` set (tab_items ix))"

definition escalations_of :: "string \<Rightarrow> index \<Rightarrow> escalation_row list" where
  "escalations_of itemID ix = filter (\<lambda>e. esc_ItemID e = itemID) (tab_escalations ix)"

definition levelled :: "index \<Rightarrow> bool" where
  \<comment> \<open>a case's level is the number of its escalations\<close>
  "levelled ix \<longleftrightarrow>
     (\<forall>r \<in> set (tab_items ix). case_EscalationLevel r = int (length (escalations_of (case_ID r) ix)))
     \<and> (\<forall>e \<in> set (tab_escalations ix). esc_ItemID e \<in> case_ID ` set (tab_items ix))"

definition stored_status :: "ItemStatus \<Rightarrow> bool" where
  "stored_status s \<longleftrightarrow> s \<in> {StatusAdjudicated, StatusInProgress, StatusReturned, StatusEscalated,
     StatusCompleted, StatusCancelled}"

definition sound_index :: "index \<Rightarrow> bool" where
  "sound_index ix \<longleftrightarrow> wf_index ix \<and> routed ix \<and> levelled ix
     \<and> (\<forall>r \<in> set (tab_items ix). stored_status (case_Status r))"

lemma sound_empty: "sound_index empty_index"
  by (simp add: sound_index_def wf_index_def routed_def levelled_def empty_index_def)

section \<open>Steps of the index\<close>

definition good_step :: "index \<Rightarrow> index \<Rightarrow> bool" where
  "good_step ix ix' \<longleftrightarrow> (sound_index ix \<longrightarrow> sound_index ix' \<and> evolves ix ix')"

definition safe :: "'a db_scheme \<Rightarrow> 'a db_scheme \<Rightarrow> bool" where
  "safe w w' \<longleftrightarrow> good_step (db_index w) (db_index w')"

lemma good_refl [simp]: "good_step ix ix"
  by (simp add: good_step_def evolves_refl)

lemma good_trans [trans]: "good_step ix ix' \<Longrightarrow> good_step ix' ix'' \<Longrightarrow> good_step ix ix''"
  by (auto simp: good_step_def intro: evolves_trans)

interpretation safe: step_preorder safe
  by unfold_locales (auto simp: safe_def intro: good_trans)

lemma same_index_safe: "keeps same_index m \<Longrightarrow> keeps safe m"
  by (erule keeps_weaken) (simp add: same_index_def safe_def)

lemma extends_simps [simp]:
  "extends row_evolves rs rs" "extends referral_evolves as as" "extends rule_evolves us us"
  "extends failure_evolves fs fs"
  "extends row_evolves rs (rs @ rs')" "extends referral_evolves as (as @ as')"
  "extends rule_evolves us (us @ us')" "extends failure_evolves fs (fs @ fs')"
  "extends (=) xs xs" "extends (=) xs (xs @ xs')"
  by (auto intro: extends_refl extends_append simp: extends_eq_iff)

lemmas sound_defs = good_step_def sound_index_def wf_index_def routed_def levelled_def
  escalations_of_def evolves_def

lemma good_put:
  "put_audit ru ix = Inr (u, ix') \<Longrightarrow> good_step ix ix'"
  "put_batch rb ix = Inr (u, ix') \<Longrightarrow> good_step ix ix'"
  "put_rule rr ix = Inr (u, ix') \<Longrightarrow> good_step ix ix'"
  "put_failure rf ix = Inr (u, ix') \<Longrightarrow> good_step ix ix'"
  by (auto simp: put_Inr sound_defs)

lemma good_supersede_rule: "good_step ix (supersede_rule v now ix)"
  by (auto simp: supersede_rule_def sound_defs map_update_where rule_evolves_def intro!: extends_update_where)

lemma good_update_failure: "good_step ix (update_failure f ix)"
  by (auto simp: update_failure_def sound_defs map_update_where failure_evolves_def intro!: extends_update_where)

lemma current_of_append: "current_of k (as @ [a]) =
    current_of k as @ (if ref_ItemID a = k \<and> ref_IsCurrent a then [a] else [])"
  by (simp add: current_of_def)

lemma current_of_none: "\<forall>a \<in> set as. ref_ItemID a \<noteq> k \<Longrightarrow> current_of k as = []"
  by (auto simp: current_of_def filter_empty_conv)

lemma good_register:
  assumes "put_item r ix = Inr (u, ix1)" and "put_assignment a ix1 = Inr (u', ix')"
    and "ref_ItemID a = case_ID r" and "ref_IsCurrent a" and "agrees r a"
    and "case_EscalationLevel r = 0" and "stored_status (case_Status r)"
  shows "good_step ix ix'"
proof -
  have ix': "ix' = ix\<lparr>tab_items := tab_items ix @ [r], tab_assignments := tab_assignments ix @ [a]\<rparr>"
    and fresh: "case_ID r \<notin> case_ID ` set (tab_items ix)"
    using assms(1,2) by (auto simp: put_item_Inr put_Inr)
  have wf: "wf_index ix \<Longrightarrow> wf_index ix'"
    using distinct_put(1) [OF assms(1)] distinct_put(2) [OF assms(2)] by blast
  have "routed ix'" if "routed ix"
  proof -
    have "\<forall>b \<in> set (tab_assignments ix). ref_ItemID b \<noteq> case_ID r"
      using that fresh unfolding routed_def by metis
    then show ?thesis
      using that fresh assms(3-5)
      by (auto simp: ix' routed_def current_of_append current_of_none split: if_splits)
  qed
  moreover have "levelled ix'" if "levelled ix"
  proof -
    have "escalations_of (case_ID r) ix = []"
      using that fresh unfolding levelled_def escalations_of_def filter_empty_conv by metis
    then show ?thesis using that assms(6) by (auto simp: ix' levelled_def escalations_of_def)
  qed
  moreover have "evolves ix ix'" by (simp add: ix' evolves_def)
  ultimately show ?thesis using wf assms(7) by (auto simp: good_step_def sound_index_def ix')
qed

lemma wf_row_unique:
  assumes "wf_index ix" and "find_key case_ID k (tab_items ix) = Some row"
    and "r \<in> set (tab_items ix)" and "case_ID r = k"
  shows "r = row"
proof -
  have "items_by_id.unique ix" using assms(1) by (simp add: items_by_id.unique_def wf_index_def)
  with assms(3,4) have "find_key case_ID k (tab_items ix) = Some r" using items_by_id.find_unique by metis
  with assms(2) show ?thesis by simp
qed

lemma set_item_fields [simp]:
  "case_LeadDepartment (set_item i r) = case_LeadDepartment i"
  "case_CoDepartments (set_item i r) = case_CoDepartments i"
  "case_RuleVersion (set_item i r) = case_RuleVersion i"
  "case_Status (set_item i r) = case_Status i"
  "case_EscalationLevel (set_item i r) = case_EscalationLevel i"
  "case_RegisteredAt (set_item i r) = case_RegisteredAt r"
  "case_RegisteredBy (set_item i r) = case_RegisteredBy r"
  "case_CreatedAt (set_item i r) = case_CreatedAt r"
  by (simp_all add: set_item_def)

lemma agrees_set_item [simp]: "agrees (set_item i r) a \<longleftrightarrow> ref_LeadDepartment a = case_LeadDepartment i
    \<and> ref_CoDepartments a = case_CoDepartments i \<and> ref_RuleVersion a = case_RuleVersion i"
  by (simp add: agrees_def)

lemma ids_update_item [simp]:
  "map case_ID (update_where (\<lambda>r. case_ID r = k) (set_item i) rs) = map case_ID rs"
  "map case_ExternalRef (update_where (\<lambda>r. case_ID r = k) (set_item i) rs) = map case_ExternalRef rs"
  by (simp_all add: map_update_where)

lemma id_set_update_item [simp]:
  "case_ID ` set (update_where (\<lambda>r. case_ID r = k) (set_item i) rs) = case_ID ` set rs"
  by (metis ids_update_item(1) list.set_map)

lemma wf_update_item: "wf_index ix \<Longrightarrow> wf_index (update_item i ix)"
  by (simp add: wf_index_def update_item_def)

lemma wf_supersede: "wf_index ix \<Longrightarrow> wf_index (supersede_assignments k ix)"
  by (simp add: wf_index_def supersede_assignments_def map_update_where)

lemma in_update_item:
  assumes "r' \<in> set (tab_items (update_item i ix))"
  obtains r where "r \<in> set (tab_items ix)" and "case_ID r' = case_ID r"
    and "r' = (if case_ID r = case_ID i then set_item i r else r)"
proof -
  from assms obtain r where "r \<in> set (tab_items ix)" "r' = (if case_ID r = case_ID i then set_item i r else r)"
    unfolding update_item_def by (auto simp: set_update_where)
  then show thesis by (intro that [of r]) simp_all
qed

lemma evolves_update_item:
  assumes "wf_index ix" and "find_key case_ID (case_ID i) (tab_items ix) = Some row"
    and "CanTransition\<^sup>*\<^sup>* (case_Status row) (case_Status i)"
    and "case_EscalationLevel row \<le> case_EscalationLevel i"
  shows "evolves ix (update_item i ix)"
  using assms(3,4) wf_row_unique [OF assms(1,2)]
  by (auto simp: evolves_def update_item_def row_evolves_def intro!: extends_update_where)

lemma routed_update_item:
  assumes "wf_index ix" and "find_key case_ID (case_ID i) (tab_items ix) = Some row" and "routed ix"
    and "case_LeadDepartment i = case_LeadDepartment row" and "case_CoDepartments i = case_CoDepartments row"
    and "case_RuleVersion i = case_RuleVersion row"
  shows "routed (update_item i ix)"
  unfolding routed_def
proof (intro conjI ballI)
  have asg: "tab_assignments (update_item i ix) = tab_assignments ix" by (simp add: update_item_def)
  fix r' assume "r' \<in> set (tab_items (update_item i ix))"
  then obtain r where r: "r \<in> set (tab_items ix)" "case_ID r' = case_ID r"
    "r' = (if case_ID r = case_ID i then set_item i r else r)" by (rule in_update_item)
  obtain a where a: "current_of (case_ID r) (tab_assignments ix) = [a]" "agrees r a"
    using assms(3) r(1) by (auto simp: routed_def)
  have "agrees r' a"
  proof (cases "case_ID r = case_ID i")
    case True
    then have "r = row" using wf_row_unique [OF assms(1,2) r(1)] by simp
    with a(2) True assms(4-6) r(3) show ?thesis by (simp add: agrees_def)
  next
    case False
    with a(2) r(3) show ?thesis by simp
  qed
  with a(1) r(2) asg show "\<exists>a. current_of (case_ID r') (tab_assignments (update_item i ix)) = [a] \<and> agrees r' a"
    by auto
next
  fix a assume "a \<in> set (tab_assignments (update_item i ix))"
  then show "ref_ItemID a \<in> case_ID ` set (tab_items (update_item i ix))"
    using assms(3) by (simp add: update_item_def routed_def)
qed

lemma levelled_update_item:
  assumes "levelled ix" and "case_EscalationLevel i = int (length (escalations_of (case_ID i) ix))"
  shows "levelled (update_item i ix)"
proof -
  have "escalations_of k (update_item i ix) = escalations_of k ix" for k
    by (simp add: escalations_of_def update_item_def)
  moreover have "tab_escalations (update_item i ix) = tab_escalations ix"
    "case_ID ` set (tab_items (update_item i ix)) = case_ID ` set (tab_items ix)"
    by (simp_all add: update_item_def)
  ultimately show ?thesis
    using assms unfolding levelled_def by (auto elim!: in_update_item)
qed

lemma statuses_update_item:
  "\<forall>r \<in> set (tab_items ix). stored_status (case_Status r) \<Longrightarrow> stored_status (case_Status i) \<Longrightarrow>
     \<forall>r \<in> set (tab_items (update_item i ix)). stored_status (case_Status r)"
  by (auto elim!: in_update_item)

lemma level_of_row:
  "sound_index ix \<Longrightarrow> find_key case_ID k (tab_items ix) = Some row \<Longrightarrow>
     case_EscalationLevel row = int (length (escalations_of k ix))"
  by (auto simp: sound_index_def levelled_def dest!: find_key_Some)

lemma good_update_item:
  assumes "find_key case_ID (case_ID i) (tab_items ix) = Some row"
    and "case_LeadDepartment i = case_LeadDepartment row" and "case_CoDepartments i = case_CoDepartments row"
    and "case_RuleVersion i = case_RuleVersion row" and "case_EscalationLevel i = case_EscalationLevel row"
    and "CanTransition\<^sup>*\<^sup>* (case_Status row) (case_Status i)" and "stored_status (case_Status i)"
  shows "good_step ix (update_item i ix)"
proof (unfold good_step_def, intro impI conjI)
  assume s: "sound_index ix"
  then have wf: "wf_index ix" by (simp add: sound_index_def)
  have "levelled (update_item i ix)"
    using s level_of_row [OF s assms(1)] assms(5) by (intro levelled_update_item) (simp_all add: sound_index_def)
  moreover have "routed (update_item i ix)"
    using s assms(2-4) by (intro routed_update_item [OF wf assms(1)]) (simp_all add: sound_index_def)
  moreover note wf_update_item [OF wf]
  moreover have "\<forall>r \<in> set (tab_items (update_item i ix)). stored_status (case_Status r)"
    using s assms(7) by (intro statuses_update_item) (simp_all add: sound_index_def)
  ultimately show "sound_index (update_item i ix)" by (simp add: sound_index_def)
  show "evolves ix (update_item i ix)"
    using assms(5,6) by (intro evolves_update_item [OF wf assms(1)]) simp_all
qed

lemma current_of_superseded:
  "current_of k (tab_assignments (supersede_assignments k' ix)) =
     (if k = k' then [] else current_of k (tab_assignments ix))"
proof -
  have "current_of k (update_where (\<lambda>r. ref_ItemID r = k' \<and> ref_IsCurrent r) (\<lambda>r. r\<lparr>ref_IsCurrent := False\<rparr>) as)
      = (if k = k' then [] else current_of k as)" for as
    by (induction as) (auto simp: current_of_def update_where_def)
  then show ?thesis by (simp add: supersede_assignments_def)
qed

lemma item_ids_superseded [simp]:
  "tab_items (supersede_assignments k ix) = tab_items ix"
  "tab_escalations (supersede_assignments k ix) = tab_escalations ix"
  "ref_ItemID ` set (tab_assignments (supersede_assignments k ix)) = ref_ItemID ` set (tab_assignments ix)"
proof -
  show "tab_items (supersede_assignments k ix) = tab_items ix"
    "tab_escalations (supersede_assignments k ix) = tab_escalations ix"
    by (simp_all add: supersede_assignments_def)
  have "map ref_ItemID (tab_assignments (supersede_assignments k ix)) = map ref_ItemID (tab_assignments ix)"
    by (simp add: supersede_assignments_def map_update_where)
  then show "ref_ItemID ` set (tab_assignments (supersede_assignments k ix)) = ref_ItemID ` set (tab_assignments ix)"
    by (metis list.set_map)
qed

lemma evolves_supersede: "evolves ix (supersede_assignments k ix)"
  by (auto simp: evolves_def supersede_assignments_def referral_evolves_def intro!: extends_update_where)

lemma routed_reroute:
  assumes "wf_index ix" and "routed ix" and "case_ID i \<in> case_ID ` set (tab_items ix)"
    and put: "put_assignment a (supersede_assignments (case_ID i) ix) = Inr (u, ix1)"
    and a: "ref_ItemID a = case_ID i" "ref_IsCurrent a" "ref_LeadDepartment a = case_LeadDepartment i"
      "ref_CoDepartments a = case_CoDepartments i" "ref_RuleVersion a = case_RuleVersion i"
  shows "routed (update_item i ix1)"
proof -
  let ?as = "tab_assignments (supersede_assignments (case_ID i) ix)"
  have items: "tab_items ix1 = tab_items ix" and asg: "tab_assignments (update_item i ix1) = ?as @ [a]"
    using put by (auto simp: put_Inr update_item_def)
  show ?thesis
    unfolding routed_def
  proof (intro conjI ballI)
    fix r' assume "r' \<in> set (tab_items (update_item i ix1))"
    then obtain r where r: "r \<in> set (tab_items ix1)" "case_ID r' = case_ID r"
      "r' = (if case_ID r = case_ID i then set_item i r else r)" by (rule in_update_item)
    show "\<exists>b. current_of (case_ID r') (tab_assignments (update_item i ix1)) = [b] \<and> agrees r' b"
    proof (cases "case_ID r = case_ID i")
      case True
      then show ?thesis using a r(2,3) by (auto simp: asg current_of_append current_of_superseded)
    next
      case False
      obtain b where "current_of (case_ID r) (tab_assignments ix) = [b]" "agrees r b"
        using assms(2) r(1) items by (auto simp: routed_def)
      then show ?thesis using False a(1) r(2,3) by (auto simp: asg current_of_append current_of_superseded)
    qed
  next
    fix b assume "b \<in> set (tab_assignments (update_item i ix1))"
    then have "b \<in> set ?as \<or> b = a" unfolding asg set_append Un_iff by auto
    then have "ref_ItemID b \<in> ref_ItemID ` set ?as \<or> b = a" by (metis imageI)
    then have "ref_ItemID b \<in> case_ID ` set (tab_items ix)"
      unfolding item_ids_superseded(3) using assms(2,3) a(1) unfolding routed_def by fastforce
    moreover have "case_ID ` set (tab_items (update_item i ix1)) = case_ID ` set (tab_items ix)"
      using items by (simp add: update_item_def)
    ultimately show "ref_ItemID b \<in> case_ID ` set (tab_items (update_item i ix1))" by simp
  qed
qed

lemma levelled_move:
  assumes "levelled ix" and row: "find_key case_ID (case_ID i) (tab_items ix) = Some row"
    and ix1: "tab_items ix1 = tab_items ix" "tab_escalations ix1 = tab_escalations ix @ esc"
    and esc: "\<forall>e \<in> set esc. esc_ItemID e = case_ID i"
    and level: "case_EscalationLevel i = case_EscalationLevel row + int (length esc)"
  shows "levelled (update_item i ix1)"
  unfolding levelled_def
proof (intro conjI ballI)
  have of: "escalations_of k (update_item i ix1) = escalations_of k ix @ (if k = case_ID i then esc else [])" for k
    using esc by (simp add: escalations_of_def update_item_def ix1 filter_empty_conv)
  have row': "row \<in> set (tab_items ix)" "case_ID row = case_ID i" using find_key_Some [OF row] by auto
  fix r' assume "r' \<in> set (tab_items (update_item i ix1))"
  then obtain r where r: "r \<in> set (tab_items ix1)" "case_ID r' = case_ID r"
    "r' = (if case_ID r = case_ID i then set_item i r else r)" by (rule in_update_item)
  show "case_EscalationLevel r' = int (length (escalations_of (case_ID r') (update_item i ix1)))"
  proof (cases "case_ID r = case_ID i")
    case True
    then show ?thesis using r(2,3) row' assms(1) level by (simp add: of levelled_def)
  next
    case False
    then show ?thesis using r assms(1) by (simp add: of levelled_def ix1)
  qed
next
  fix e assume "e \<in> set (tab_escalations (update_item i ix1))"
  then have "e \<in> set (tab_escalations ix) \<or> e \<in> set esc" by (simp add: update_item_def ix1)
  moreover have "case_ID i \<in> case_ID ` set (tab_items ix)" using find_key_Some [OF row] by (metis image_eqI)
  ultimately have "esc_ItemID e \<in> case_ID ` set (tab_items ix)"
    using assms(1) esc unfolding levelled_def by metis
  then show "esc_ItemID e \<in> case_ID ` set (tab_items (update_item i ix1))" by (simp add: update_item_def ix1)
qed

text \<open>A case is given to other departments: by an escalation, or under a newer rule.\<close>

lemma good_move:
  assumes e: "esc = [] \<and> ix0 = ix \<or>
      (\<exists>e v. esc = [e] \<and> esc_ItemID e = case_ID i \<and> put_escalation e ix = Inr (v, ix0))"
    and row: "find_key case_ID (case_ID i) (tab_items ix) = Some row"
    and put: "put_assignment a (supersede_assignments (case_ID i) ix0) = Inr (u, ix1)"
    and a: "ref_ItemID a = case_ID i" "ref_IsCurrent a" "ref_LeadDepartment a = case_LeadDepartment i"
      "ref_CoDepartments a = case_CoDepartments i" "ref_RuleVersion a = case_RuleVersion i"
    and level: "case_EscalationLevel i = case_EscalationLevel row + int (length esc)"
    and status: "CanTransition\<^sup>*\<^sup>* (case_Status row) (case_Status i)" "stored_status (case_Status i)"
  shows "good_step ix (update_item i ix1)"
proof (unfold good_step_def, intro impI)
  assume s: "sound_index ix"
  then have wf: "wf_index ix" and r: "routed ix" and l: "levelled ix"
    and st: "\<forall>r \<in> set (tab_items ix). stored_status (case_Status r)" by (simp_all add: sound_index_def)
  have tabs: "tab_items ix0 = tab_items ix" "tab_escalations ix0 = tab_escalations ix @ esc"
    "tab_assignments ix0 = tab_assignments ix"
    using e by (auto simp: put_Inr)
  have ix1: "tab_items ix1 = tab_items ix" "tab_escalations ix1 = tab_escalations ix @ esc"
    using put tabs by (auto simp: put_Inr)
  have key: "case_ID i \<in> case_ID ` set (tab_items ix)" using find_key_Some [OF row] by (metis image_eqI)
  have wf0: "wf_index ix0" using e wf distinct_put(3) by auto
  have wf1: "wf_index ix1" using distinct_put(2) [OF put wf_supersede [OF wf0]] .
  have "routed ix0" using r by (simp add: routed_def tabs)
  then have "routed (update_item i ix1)"
    using key tabs a by (intro routed_reroute [OF wf0 _ _ put]) simp_all
  moreover have "levelled (update_item i ix1)"
    using e level by (intro levelled_move [OF l row ix1]) auto
  moreover have "\<forall>r \<in> set (tab_items (update_item i ix1)). stored_status (case_Status r)"
    using st status(2) ix1 by (intro statuses_update_item) simp_all
  moreover note wf_update_item [OF wf1]
  moreover have "evolves ix (update_item i ix1)"
  proof -
    have le: "case_EscalationLevel row \<le> case_EscalationLevel i" using level by linarith
    have "evolves ix ix0" using e by (auto simp: put_Inr evolves_def)
    also have "evolves ix0 (supersede_assignments (case_ID i) ix0)" by (rule evolves_supersede)
    also have "evolves \<dots> ix1" using put by (auto simp: put_Inr evolves_def)
    also have "evolves ix1 (update_item i ix1)"
      using row status(1) ix1 le by (intro evolves_update_item [OF wf1]) simp_all
    finally show ?thesis .
  qed
  ultimately show "sound_index (update_item i ix1) \<and> evolves ix (update_item i ix1)"
    by (simp add: sound_index_def)
qed

section \<open>Steps in a transaction\<close>

lemma WithTx_good:
  assumes "WithTx fn w = (r, w')"
    and "\<And>w0 a w1. db_index w0 = db_index w \<Longrightarrow> fn w0 = (Inr a, w1) \<Longrightarrow> good_step (db_index w0) (db_index w1)"
  shows "good_step (db_index w) (db_index w')"
proof (cases r)
  case (Inl e)
  with assms(1) show ?thesis by (simp add: WithTx_Inl)
next
  case (Inr a)
  with WithTx_InrD [of fn w a w'] assms show ?thesis by metis
qed

lemma mapErr_world: "mapErr f m w = (r, w') \<Longrightarrow> \<exists>r0. m w = (r0, w')"
  by (auto simp: mapErr_def split: prod.splits sum.splits)

lemma mapErr_WithTx_good:
  assumes "mapErr f (WithTx fn) w = (r, w')"
    and "\<And>w0 a w1. db_index w0 = db_index w \<Longrightarrow> fn w0 = (Inr a, w1) \<Longrightarrow> good_step (db_index w0) (db_index w1)"
  shows "good_step (db_index w) (db_index w')"
  using mapErr_world [OF assms(1)] WithTx_good assms(2) by metis

section \<open>Operations that are good steps by themselves\<close>

lemma exec_safe: "(\<And>ix b ix'. stmt ix = Inr (b, ix') \<Longrightarrow> good_step ix ix') \<Longrightarrow> keeps safe (exec stmt)"
  by (rule keepsI) (auto simp: safe_def dest!: exec_index split: sum.splits)

lemma statements_safe:
  "keeps safe (InsertAudit u)" "keeps safe (InsertFailure f)" "keeps safe (InsertBatch b)"
  "keeps safe (InsertRule r)"
  unfolding InsertAudit_def InsertFailure_def InsertBatch_def InsertRule_def
  by (rule safe.keeps_map, rule exec_safe, erule good_put)+

lemma updates_safe: "keeps safe (SupersedeRule v)" "keeps safe (UpdateFailure g)"
  unfolding SupersedeRule_def UpdateFailure_def
  by (intro safe.keeps_bind safe.keeps_map exec_safe same_index_safe keeps_rules;
      auto intro: good_supersede_rule good_update_failure)+

lemma WithTx_safe: "keeps safe fn \<Longrightarrow> keeps safe (WithTx fn)"
  by (rule keepsI, unfold safe_def, erule WithTx_good, drule keepsD, assumption) (simp add: safe_def)

lemma basic_safe:
  "keeps safe external" "keeps safe Now" "keeps safe WallNow" "keeps safe NewString" "keeps safe (Append ty t e)"
  by (rule same_index_safe, rule keeps_rules Append_index)+

lemma saves_safe:
  "keeps safe (SaveAudit a)" "keeps safe (SaveFailure f)" "keeps safe (tx_UpdateFailure f)"
  "keeps safe (SaveBatch b)" "keeps safe (SaveRule r)"
  unfolding save_defs by (intro safe.keeps_all basic_safe statements_safe updates_safe)+

lemmas safe_rules = safe.keeps_all basic_safe statements_safe updates_safe WithTx_safe saves_safe
  queries_read_only [THEN same_index_safe]

end
