(* ===== verification/Case_Service.thy ===== *)
theory Case_Service
  imports History
begin

text \<open>
  The package internal/auditlog and the case service of internal/service: registration of a
  case with its referral, the steps of its life, and the audit entry that each of them writes in
  the same transaction. The service's field \<open>deadline\<close> is an argument.
\<close>

section \<open>Audit entries\<close>

definition ActionRegister :: string where "ActionRegister = ''register''"
definition ActionModify :: string where "ActionModify = ''modify''"
definition ActionReturn :: string where "ActionReturn = ''return_for_correction''"
definition ActionResubmit :: string where "ActionResubmit = ''resubmit''"
definition ActionCancel :: string where "ActionCancel = ''cancel''"
definition ActionComplete :: string where "ActionComplete = ''complete''"
definition ActionStartProcessing :: string where "ActionStartProcessing = ''start_processing''"
definition ActionEscalate :: string where "ActionEscalate = ''escalate''"
definition ActionRuleCreate :: string where "ActionRuleCreate = ''rule_create''"
definition ActionRuleSupersede :: string where "ActionRuleSupersede = ''supersede_rule''"
definition ActionBatchImport :: string where "ActionBatchImport = ''batch_import''"
definition ActionFailureRetry :: string where "ActionFailureRetry = ''failure_retry''"
definition ActionRuleReevaluated :: string where "ActionRuleReevaluated = ''rule_reevaluated''"

definition NewEntry ::
  "string \<Rightarrow> string \<Rightarrow> string \<Rightarrow> string \<Rightarrow> time \<Rightarrow> string \<Rightarrow> (err, 'a runtime_scheme, time AuditEntry) op" where
  "NewEntry entityID entityType action actor timestamp details =
     bindM NewString (\<lambda>uid. retM \<lparr>aud_ID = uid, aud_EntityID = entityID, aud_EntityType = entityType,
       aud_Action = action, aud_Actor = actor, aud_Timestamp = timestamp, aud_Details = details,
       aud_ShardPath = '''', aud_DataVersion = DataVersion\<rparr>)"

section \<open>Requests\<close>

record RegisterItemRequest =
  rq_ExternalRef :: string
  rq_Title :: string
  rq_Description :: string
  rq_OperatorName :: string
  rq_OperatorContact :: string
  rq_Materials :: "string list"
  rq_Category :: string
  rq_Keywords :: "string list"
  rq_RegisteredBy :: string
  rq_StoreID :: string

record ModifyItemRequest =
  mq_Title :: string
  mq_Description :: string
  mq_OperatorName :: string
  mq_OperatorContact :: string
  mq_Materials :: "string list option" \<comment> \<open>\<open>None\<close> is the nil slice\<close>
  mq_Category :: string
  mq_Keywords :: "string list option"
  mq_Actor :: string

section \<open>Operations\<close>

definition update_tx ::
  "item \<Rightarrow> string \<Rightarrow> string \<Rightarrow> string \<Rightarrow> time \<Rightarrow> (err, 'a world_scheme, item) op" where
  \<comment> \<open>the function given to \<open>WithTx\<close> by \<open>updateItemWithAudit\<close>\<close>
  "update_tx i actor action details now =
     bindM (mapErr (Wrap ''update item'') (tx_UpdateItem i)) (\<lambda>i'.
     bindM (NewEntry (case_ID i) ''item'' action actor now details) (\<lambda>audit.
     bindM (mapErr (Wrap ''save audit'') (SaveAudit audit)) (\<lambda>_. retM i')))"

definition updateItemWithAudit ::
  "item \<Rightarrow> string \<Rightarrow> string \<Rightarrow> string \<Rightarrow> (err, 'a world_scheme, item) op" where
  "updateItemWithAudit i actor action details =
     bindM Now (\<lambda>now.
     mapErr (Wrap ''update item with audit'') (WithTx (update_tx i actor action details now)))"

definition new_case :: "RegisterItemRequest \<Rightarrow> string \<Rightarrow> time \<Rightarrow> duration \<Rightarrow> item" where
  "new_case req itemID now deadline = \<lparr>case_ID = itemID, case_ExternalRef = rq_ExternalRef req,
     case_Title = rq_Title req, case_Description = rq_Description req,
     case_OperatorName = rq_OperatorName req, case_OperatorContact = rq_OperatorContact req,
     case_Materials = rq_Materials req, case_Category = rq_Category req,
     case_Keywords = rq_Keywords req, case_Status = StatusRegistered, case_LeadDepartment = '''',
     case_CoDepartments = [], case_RuleVersion = 0, case_RegisteredAt = now,
     case_RegisteredBy = rq_RegisteredBy req, case_Deadline = Add now deadline,
     case_EscalationLevel = 0, case_StoreID = rq_StoreID req, case_CompletedAt = None,
     case_CancelledAt = None, case_CancelReason = '''', case_ShardPath = '''', case_ShardOffset = 0,
     case_DataVersion = DataVersion, case_CreatedAt = now, case_UpdatedAt = now\<rparr>"

definition register_tx ::
  "item \<Rightarrow> time Referral \<Rightarrow> string \<Rightarrow> time \<Rightarrow> (err, 'a world_scheme, item) op" where
  \<comment> \<open>the function given to \<open>WithTx\<close> by \<open>Register\<close>\<close>
  "register_tx i referral actor now =
     bindM (mapErr (Wrap ''save item'') (SaveItem i)) (\<lambda>i'.
     bindM (mapErr (Wrap ''save referral'') (SaveAssignment referral)) (\<lambda>_.
     bindM (NewEntry (case_ID i) ''item'' ActionRegister actor now '''') (\<lambda>audit.
     bindM (mapErr (Wrap ''save audit'') (SaveAudit audit)) (\<lambda>_. retM i'))))"

definition Register :: "duration \<Rightarrow> RegisterItemRequest \<Rightarrow> (err, 'a world_scheme, item) op" where
  "Register deadline req =
     (if rq_ExternalRef req = '''' then failM (Wrap ''external_ref empty'' ErrValidation)
      else if rq_Title req = '''' then failM (Wrap ''title empty'' ErrValidation)
      else if rq_RegisteredBy req = '''' then failM (Wrap ''reported_by empty'' ErrValidation)
      else bindM (tryM (GetItemByExternalRef (rq_ExternalRef req))) (\<lambda>r. case r of
        Inr existing \<Rightarrow> retM existing
      | Inl e \<Rightarrow> if \<not> errIs e ErrNotFound then failM (Wrap ''check duplicate'' e)
          else
            bindM Now (\<lambda>now.
            bindM (mapErr (Wrap ''get active rules'') (GetActiveRules now)) (\<lambda>rules.
            bindM NewString (\<lambda>itemID.
            let i = new_case req itemID now deadline in
            bindM (mapErr (Wrap (''adjudicate item '' @ itemID)) (Adjudicate i rules)) (\<lambda>referral.
            let i = i\<lparr>case_LeadDepartment := ref_LeadDepartment referral,
                      case_CoDepartments := ref_CoDepartments referral,
                      case_RuleVersion := ref_RuleVersion referral,
                      case_Status := StatusAdjudicated\<rparr> in
            mapErr (Wrap ''register item tx'')
              (WithTx (register_tx i referral (rq_RegisteredBy req) now))))))))"

definition StartProcessing :: "string \<Rightarrow> string \<Rightarrow> (err, 'a world_scheme, item) op" where
  "StartProcessing itemID actor =
     bindM (mapErr (Wrap ''get item'') (GetItemByID itemID)) (\<lambda>i.
     bindM Now (\<lambda>now.
     bindM (liftE (TransitionTo i StatusInProgress)) (\<lambda>i.
     updateItemWithAudit (i\<lparr>case_UpdatedAt := now\<rparr>) actor ActionStartProcessing '''')))"

definition modified :: "ModifyItemRequest \<Rightarrow> item \<Rightarrow> item" where
  "modified req i =
     (let i = (if mq_Title req \<noteq> '''' then i\<lparr>case_Title := mq_Title req\<rparr> else i);
          i = (if mq_Description req \<noteq> '''' then i\<lparr>case_Description := mq_Description req\<rparr> else i);
          i = (if mq_OperatorName req \<noteq> '''' then i\<lparr>case_OperatorName := mq_OperatorName req\<rparr> else i);
          i = (if mq_OperatorContact req \<noteq> '''' then i\<lparr>case_OperatorContact := mq_OperatorContact req\<rparr> else i);
          i = (case mq_Materials req of None \<Rightarrow> i | Some ms \<Rightarrow> i\<lparr>case_Materials := ms\<rparr>);
          i = (if mq_Category req \<noteq> '''' then i\<lparr>case_Category := mq_Category req\<rparr> else i)
      in (case mq_Keywords req of None \<Rightarrow> i | Some ks \<Rightarrow> i\<lparr>case_Keywords := ks\<rparr>))"

definition Modify :: "string \<Rightarrow> ModifyItemRequest \<Rightarrow> (err, 'a world_scheme, item) op" where
  "Modify itemID req =
     bindM (mapErr (Wrap ''get item'') (GetItemByID itemID)) (\<lambda>i.
     if IsTerminal (case_Status i) then
       failM (Wrap (''item '' @ itemID @ '' is '' @ status_name (case_Status i)) ErrAlreadyCompleted)
     else
     let i = modified req i in
     bindM Now (\<lambda>now.
     updateItemWithAudit (i\<lparr>case_UpdatedAt := now\<rparr>) (mq_Actor req) ActionModify ''''))"

definition ReturnForCorrection :: "string \<Rightarrow> string \<Rightarrow> string \<Rightarrow> (err, 'a world_scheme, item) op" where
  "ReturnForCorrection itemID reason actor =
     bindM (mapErr (Wrap ''get item'') (GetItemByID itemID)) (\<lambda>i.
     bindM Now (\<lambda>now.
     bindM (liftE (TransitionTo i StatusReturned)) (\<lambda>i.
     updateItemWithAudit (i\<lparr>case_UpdatedAt := now\<rparr>) actor ActionReturn reason)))"

definition Resubmit :: "string \<Rightarrow> string \<Rightarrow> (err, 'a world_scheme, item) op" where
  "Resubmit itemID actor =
     bindM (mapErr (Wrap ''get item'') (GetItemByID itemID)) (\<lambda>i.
     bindM (liftE (TransitionTo i StatusRegistered)) (\<lambda>i.
     bindM (liftE (TransitionTo i StatusAdjudicated)) (\<lambda>i.
     bindM Now (\<lambda>now.
     updateItemWithAudit (i\<lparr>case_UpdatedAt := now\<rparr>) actor ActionResubmit ''''))))"

definition Cancel :: "string \<Rightarrow> string \<Rightarrow> string \<Rightarrow> (err, 'a world_scheme, item) op" where
  "Cancel itemID reason actor =
     bindM (mapErr (Wrap ''get item'') (GetItemByID itemID)) (\<lambda>i.
     bindM Now (\<lambda>now.
     bindM (liftE (TransitionTo i StatusCancelled)) (\<lambda>i.
     updateItemWithAudit (i\<lparr>case_CancelledAt := Some now, case_CancelReason := reason, case_UpdatedAt := now\<rparr>)
       actor ActionCancel reason)))"

definition Complete :: "string \<Rightarrow> string \<Rightarrow> (err, 'a world_scheme, item) op" where
  "Complete itemID actor =
     bindM (mapErr (Wrap ''get item'') (GetItemByID itemID)) (\<lambda>i.
     bindM Now (\<lambda>now.
     bindM (liftE (TransitionTo i StatusCompleted)) (\<lambda>i.
     updateItemWithAudit (i\<lparr>case_CompletedAt := Some now, case_UpdatedAt := now\<rparr>) actor ActionComplete '''')))"

section \<open>The effect of an update\<close>

lemma NewEntry_eq: "NewEntry k ty ac who t d w = (r, w') \<longleftrightarrow>
    r = Inr \<lparr>aud_ID = rt_uuid w (rt_ids w), aud_EntityID = k, aud_EntityType = ty, aud_Action = ac,
      aud_Actor = who, aud_Timestamp = t, aud_Details = d, aud_ShardPath = '''', aud_DataVersion = DataVersion\<rparr>
    \<and> w' = w\<lparr>rt_ids := Suc (rt_ids w)\<rparr>"
  by (auto simp: NewEntry_def bindM_def NewString_def retM_def)

lemma NewEntry_same: "keeps same_index (NewEntry k ty ac who t d)"
  by (rule keepsI) (auto simp: NewEntry_eq same_index_def)

lemma NewEntry_safe: "keeps safe (NewEntry k ty ac who t d)"
  by (rule same_index_safe) (rule NewEntry_same)

definition audited :: "string \<Rightarrow> string \<Rightarrow> string \<Rightarrow> string \<Rightarrow> string \<Rightarrow> audit_row \<Rightarrow> bool" where
  "audited k ty action actor details a \<longleftrightarrow> aud_EntityID a = k \<and> aud_EntityType a = ty
     \<and> aud_Action a = action \<and> aud_Actor a = actor \<and> aud_Details a = details"

lemma audited_row: "audited k ty action actor details (row_of_audit a) \<longleftrightarrow>
    aud_EntityID a = k \<and> aud_EntityType a = ty \<and> aud_Action a = action \<and> aud_Actor a = actor \<and> aud_Details a = details"
  by (simp add: audited_def row_of_audit_def)

text \<open>Making an entry and saving it, seen as one operation.\<close>

definition save_entry ::
  "string \<Rightarrow> string \<Rightarrow> string \<Rightarrow> string \<Rightarrow> time \<Rightarrow> string \<Rightarrow> (err, 'a world_scheme, time AuditEntry) op" where
  "save_entry k ty action actor t details = bindM (NewEntry k ty action actor t details) SaveAudit"

lemma fold_audit:
  "bindM (NewEntry k ty action actor t details) (\<lambda>audit. bindM (mapErr f (SaveAudit audit)) g)
     = bindM (mapErr f (save_entry k ty action actor t details)) g"
  "bindM (NewEntry k ty action actor t details) (\<lambda>audit. bindM (SaveAudit audit) g)
     = bindM (save_entry k ty action actor t details) g"
  by (rule ext, simp add: save_entry_def bindM_def mapErr_def NewEntry_def NewString_def retM_def)+

lemma save_entry_effect:
  assumes "save_entry k ty action actor t details w = (Inr x, w')"
  shows "\<exists>a. audited k ty action actor details a \<and> put_audit a (db_index w) = Inr ((), db_index w')"
proof -
  obtain e where "SaveAudit e (w\<lparr>rt_ids := Suc (rt_ids w)\<rparr>) = (Inr x, w')"
    and e: "aud_EntityID e = k" "aud_EntityType e = ty" "aud_Action e = action" "aud_Actor e = actor"
      "aud_Details e = details"
    using assms by (auto simp: save_entry_def op_results NewEntry_eq)
  moreover from this(1) obtain p where "x = e\<lparr>aud_ShardPath := p\<rparr>"
    and "put_audit (row_of_audit x) (db_index w) = Inr ((), db_index w')"
    by (auto dest!: SaveAudit_effect)
  ultimately show ?thesis by (intro exI [of _ "row_of_audit x"]) (auto simp: audited_row)
qed

lemma updateItemWithAudit_Inl: "updateItemWithAudit i actor action details w = (Inl e, w') \<Longrightarrow> db_index w' = db_index w"
  by (auto simp: updateItemWithAudit_def op_results Now_eq dest!: WithTx_Inl)

lemma updateItemWithAudit_Inr:
  assumes "updateItemWithAudit i actor action details w = (Inr i', w')"
  shows "relocated i i' \<and> case_ID i \<in> case_ID ` set (tab_items (db_index w))
    \<and> (\<exists>a. audited (case_ID i) ''item'' action actor details a
         \<and> put_audit a (update_item i (db_index w)) = Inr ((), db_index w'))"
proof -
  from assms have "WithTx (update_tx i actor action details (rt_clock w (rt_ticks w))) (w\<lparr>rt_ticks := Suc (rt_ticks w)\<rparr>)
     = (Inr i', w')"
    by (auto simp: updateItemWithAudit_def op_results Now_eq)
  from WithTx_InrD [OF this] obtain now and w0 w1 :: "'a world_scheme"
    where w0: "db_index w0 = db_index w" and w1: "db_index w' = db_index w1"
      and run: "update_tx i actor action details now w0 = (Inr i', w1)"
    by auto
  then show ?thesis
    using w0 w1 unfolding update_tx_def fold_audit
    by (auto simp: op_results dest!: tx_UpdateItem_effect save_entry_effect)
qed

section \<open>Reading a case\<close>

lemma scanItem_fields: "scanItem row = Inr i \<Longrightarrow>
    case_ID i = case_ID row \<and> case_ExternalRef i = case_ExternalRef row \<and> case_Status i = case_Status row
    \<and> case_LeadDepartment i = case_LeadDepartment row \<and> case_CoDepartments i = case_CoDepartments row
    \<and> case_RuleVersion i = case_RuleVersion row \<and> case_EscalationLevel i = case_EscalationLevel row"
  by (auto simp: scanItem_def bindE_Inr_iff)

lemma query_row_Inr: "query_row sel scan w = (Inr x, w') \<Longrightarrow>
    db_index w' = db_index w \<and> (\<exists>row. sel (db_index w) = Some row \<and> scan row = Inr x)"
  by (auto simp: query_row_def op_results split: option.splits dest!: external_index)

lemma GetItemByID_Inr: "GetItemByID k w = (Inr i, w') \<Longrightarrow> db_index w' = db_index w
    \<and> (\<exists>row. find_key case_ID k (tab_items (db_index w)) = Some row \<and> scanItem row = Inr i)"
  by (auto simp: GetItemByID_def mapErr_Inr find_row_def dest!: query_row_Inr)

lemma GetItemByID_same: "GetItemByID k w = (r, w') \<Longrightarrow> db_index w' = db_index w"
  using keepsD [OF queries_read_only(1)] by (simp add: same_index_def)

definition read_from :: "index \<Rightarrow> item \<Rightarrow> bool" where
  \<comment> \<open>the case is what the index holds now\<close>
  "read_from ix i \<longleftrightarrow> (\<exists>row. find_key case_ID (case_ID i) (tab_items ix) = Some row \<and> scanItem row = Inr i)"

lemma query_rows_Inr: "query_rows f sel scan w = (Inr xs, w') \<Longrightarrow>
    db_index w' = db_index w \<and> list_all2 (\<lambda>row x. scan row = Inr x) (sel (db_index w)) xs"
  by (auto simp: query_rows_def op_results dest!: external_index sym [of "Inr _"] iffD1 [OF mapE_Inr_iff])

lemma scan_ids: "list_all2 (\<lambda>row i. scanItem row = Inr i) rows items \<Longrightarrow> map case_ID items = map case_ID rows"
  by (induction rule: list_all2_induct) (auto dest: scanItem_fields)

lemma list_all2_right: "list_all2 P xs ys \<Longrightarrow> y \<in> set ys \<Longrightarrow> \<exists>x \<in> set xs. P x y"
  by (induction rule: list_all2_induct) auto

lemma distinct_sorted_filter: "distinct (map f xs) \<Longrightarrow> distinct (map f (sort_key g (filter P xs)))"
  using distinct_map_filter [of f xs P] by (simp add: distinct_map)

section \<open>Each operation is a good step\<close>

text \<open>
  An edit of a stored case that the services may write: the same case, under the same
  referral, with a status that the machine can reach.
\<close>

definition legal_edit :: "item_row \<Rightarrow> item \<Rightarrow> bool" where
  "legal_edit row i \<longleftrightarrow> case_ID i = case_ID row
     \<and> case_LeadDepartment i = case_LeadDepartment row \<and> case_CoDepartments i = case_CoDepartments row
     \<and> case_RuleVersion i = case_RuleVersion row \<and> case_EscalationLevel i = case_EscalationLevel row
     \<and> CanTransition\<^sup>*\<^sup>* (case_Status row) (case_Status i)
     \<and> (stored_status (case_Status row) \<longrightarrow> stored_status (case_Status i))"

lemma updateItemWithAudit_good:
  assumes "updateItemWithAudit i actor action details w = (r, w')"
    and "find_key case_ID (case_ID i) (tab_items (db_index w)) = Some row" and "legal_edit row i"
  shows "good_step (db_index w) (db_index w')"
proof (cases r)
  case (Inl e)
  with assms(1) show ?thesis by (simp add: updateItemWithAudit_Inl)
next
  case (Inr i')
  with updateItemWithAudit_Inr [of i actor action details w i' w'] assms(1)
  obtain a where a: "put_audit a (update_item i (db_index w)) = Inr ((), db_index w')" by auto
  show ?thesis
  proof (unfold good_step_def, rule impI)
    assume s: "sound_index (db_index w)"
    then have "stored_status (case_Status row)"
      using find_key_Some [OF assms(2)] by (auto simp: sound_index_def)
    then have "good_step (db_index w) (update_item i (db_index w))"
      using assms(2,3) by (intro good_update_item [OF assms(2)]) (auto simp: legal_edit_def)
    also have "good_step \<dots> (db_index w')" using a by (rule good_put(1))
    finally show "sound_index (db_index w') \<and> evolves (db_index w) (db_index w')"
      using s by (simp add: good_step_def)
  qed
qed

text \<open>An operation that reads a case and goes on to edit it.\<close>

lemma get_then_safe:
  assumes "\<And>i row w r w'. find_key case_ID k (tab_items (db_index w)) = Some row \<Longrightarrow> scanItem row = Inr i \<Longrightarrow>
      m i w = (r, w') \<Longrightarrow> good_step (db_index w) (db_index w')"
  shows "keeps safe (bindM (mapErr f (GetItemByID k)) m)"
proof (rule keepsI, unfold safe_def)
  fix w r w'
  assume run: "bindM (mapErr f (GetItemByID k)) m w = (r, w')"
  show "good_step (db_index w) (db_index w')"
  proof (cases "GetItemByID k w")
    case (Pair x w1)
    then have same: "db_index w1 = db_index w" by (rule GetItemByID_same)
    show ?thesis
    proof (cases x)
      case (Inl e)
      with run Pair have "w' = w1" by (auto simp: bindM_def mapErr_def)
      with same show ?thesis by simp
    next
      case (Inr i)
      with run Pair have "m i w1 = (r, w')" by (auto simp: bindM_def mapErr_def)
      moreover obtain row where "find_key case_ID k (tab_items (db_index w1)) = Some row" "scanItem row = Inr i"
        using GetItemByID_Inr [of k w i w1] Pair Inr same by auto
      ultimately show ?thesis using assms same by metis
    qed
  qed
qed

lemma legal_edit_scanned:
  assumes "find_key case_ID k rows = Some row" and "scanItem row = Inr i"
    and "case_ID j = case_ID i" "case_LeadDepartment j = case_LeadDepartment i"
    "case_CoDepartments j = case_CoDepartments i" "case_RuleVersion j = case_RuleVersion i"
    "case_EscalationLevel j = case_EscalationLevel i"
    and "CanTransition\<^sup>*\<^sup>* (case_Status i) (case_Status j)"
    and "stored_status (case_Status i) \<Longrightarrow> stored_status (case_Status j)"
  shows "legal_edit row j \<and> find_key case_ID (case_ID j) rows = Some row"
  using assms scanItem_fields [OF assms(2)] find_key_Some [OF assms(1)] by (auto simp: legal_edit_def)

lemma path_to: "case_Status i = s \<or> CanTransition (case_Status i) s \<Longrightarrow> CanTransition\<^sup>*\<^sup>* (case_Status i) s"
  by auto


lemma edit_good:
  assumes "updateItemWithAudit j actor action details w = (r, w')" and "db_index w = ix"
    and "find_key case_ID k (tab_items ix) = Some row" and "scanItem row = Inr i"
    and "case_ID j = case_ID i" "case_LeadDepartment j = case_LeadDepartment i"
    "case_CoDepartments j = case_CoDepartments i" "case_RuleVersion j = case_RuleVersion i"
    "case_EscalationLevel j = case_EscalationLevel i"
    and "CanTransition\<^sup>*\<^sup>* (case_Status i) (case_Status j)"
    and "stored_status (case_Status i) \<Longrightarrow> stored_status (case_Status j)"
  shows "good_step ix (db_index w')"
  using legal_edit_scanned [OF assms(3-11)] updateItemWithAudit_good [OF assms(1)] assms(2) by blast

lemma StartProcessing_safe: "keeps safe (StartProcessing itemID actor)"
  unfolding StartProcessing_def
  by (rule get_then_safe)
     (auto simp: bindM_liftE TransitionTo_Inr_iff stored_status_def split: sum.split_asm elim!: edit_good)

lemma modified_routing:
  "case_ID (modified req i) = case_ID i" "case_LeadDepartment (modified req i) = case_LeadDepartment i"
  "case_CoDepartments (modified req i) = case_CoDepartments i" "case_RuleVersion (modified req i) = case_RuleVersion i"
  "case_EscalationLevel (modified req i) = case_EscalationLevel i" "case_Status (modified req i) = case_Status i"
  by (simp_all add: modified_def Let_def split: option.splits)

lemma Modify_safe: "keeps safe (Modify itemID req)"
  unfolding Modify_def
  by (rule get_then_safe)
     (auto simp: Let_def modified_routing failM_Inl split: if_split_asm elim!: edit_good)

lemma ReturnForCorrection_safe: "keeps safe (ReturnForCorrection itemID reason actor)"
  unfolding ReturnForCorrection_def
  by (rule get_then_safe)
     (auto simp: bindM_liftE TransitionTo_Inr_iff stored_status_def split: sum.split_asm elim!: edit_good)

lemma Cancel_safe: "keeps safe (Cancel itemID reason actor)"
  unfolding Cancel_def
  by (rule get_then_safe)
     (auto simp: bindM_liftE TransitionTo_Inr_iff stored_status_def split: sum.split_asm elim!: edit_good)

lemma Complete_safe: "keeps safe (Complete itemID actor)"
  unfolding Complete_def
  by (rule get_then_safe)
     (auto simp: bindM_liftE TransitionTo_Inr_iff stored_status_def split: sum.split_asm elim!: edit_good)

lemma Resubmit_path:
  "TransitionTo i StatusRegistered = Inr i1 \<Longrightarrow> TransitionTo i1 StatusAdjudicated = Inr i2 \<Longrightarrow>
     CanTransition\<^sup>*\<^sup>* (case_Status i) (case_Status i2) \<and> i2 = i\<lparr>case_Status := StatusAdjudicated\<rparr>"
  by (auto simp: TransitionTo_Inr_iff intro: rtranclp.rtrancl_into_rtrancl)

lemma Resubmit_safe: "keeps safe (Resubmit itemID actor)"
  unfolding Resubmit_def
  by (rule get_then_safe)
     (auto simp: bindM_liftE stored_status_def split: sum.split_asm dest!: Resubmit_path elim!: edit_good)

section \<open>Registration\<close>

lemma Adjudicate_same: "keeps same_index (Adjudicate i rules)"
  unfolding Adjudicate_alt Let_def
  by (intro same_index.keeps_all same_external same_Now same_NewString)

lemma GetActiveRules_same: "keeps same_index (GetActiveRules t)"
  by (rule queries_read_only)

lemma Adjudicate_fields:
  "Adjudicate i rules w = (Inr a, w') \<Longrightarrow> ref_ItemID a = case_ID i \<and> ref_IsCurrent a"
  by (auto dest!: adjudicated)

lemma row_of_referral_fields [simp]:
  "ref_ID (row_of_referral a) = ref_ID a" "ref_ItemID (row_of_referral a) = ref_ItemID a"
  "ref_IsCurrent (row_of_referral a) = ref_IsCurrent a"
  "ref_LeadDepartment (row_of_referral a) = ref_LeadDepartment a"
  "ref_CoDepartments (row_of_referral a) = ref_CoDepartments a"
  "ref_RuleVersion (row_of_referral a) = ref_RuleVersion a"
  by (simp_all add: row_of_referral_def)

lemma row_of_item_fields [simp]:
  "case_ID (row_of_item i) = case_ID i" "case_ExternalRef (row_of_item i) = case_ExternalRef i"
  "case_Status (row_of_item i) = case_Status i" "case_LeadDepartment (row_of_item i) = case_LeadDepartment i"
  "case_CoDepartments (row_of_item i) = case_CoDepartments i" "case_RuleVersion (row_of_item i) = case_RuleVersion i"
  "case_EscalationLevel (row_of_item i) = case_EscalationLevel i"
  by (simp_all add: row_of_item_def)

lemma register_tx_effect:
  assumes "register_tx i referral actor now w = (Inr i', w')"
  obtains a d ix1 ix2 where "relocated i i'" and "put_item (row_of_item i') (db_index w) = Inr ((), ix1)"
    and "put_assignment (row_of_referral a) ix1 = Inr ((), ix2)" and "\<exists>p. a = referral\<lparr>ref_ShardPath := p\<rparr>"
    and "audited (case_ID i) ''item'' ActionRegister actor '''' d" and "put_audit d ix2 = Inr ((), db_index w')"
proof -
  obtain a e and w1 w2 :: "'a world_scheme" where s: "SaveItem i w = (Inr i', w1)" "SaveAssignment referral w1 = (Inr a, w2)"
    and rest: "save_entry (case_ID i) ''item'' ActionRegister actor now '''' w2 = (Inr e, w')"
    using assms unfolding register_tx_def fold_audit by (auto simp: op_results)
  obtain d where d: "audited (case_ID i) ''item'' ActionRegister actor '''' d"
    "put_audit d (db_index w2) = Inr ((), db_index w')"
    using save_entry_effect [OF rest] by blast
  show thesis
    using SaveItem_effect [OF s(1)] SaveAssignment_effect [OF s(2)] d
    by (intro that [of "db_index w1" a "db_index w2" d]) auto
qed

lemma relocated_fields:
  "relocated i i' \<Longrightarrow> case_ID i' = case_ID i \<and> case_ExternalRef i' = case_ExternalRef i
     \<and> case_Status i' = case_Status i \<and> case_LeadDepartment i' = case_LeadDepartment i
     \<and> case_CoDepartments i' = case_CoDepartments i \<and> case_RuleVersion i' = case_RuleVersion i
     \<and> case_EscalationLevel i' = case_EscalationLevel i"
proof -
  assume "relocated i i'"
  then obtain p n where "i' = i\<lparr>case_ShardPath := p, case_ShardOffset := n\<rparr>"
    unfolding relocated_def by blast
  then show ?thesis by simp
qed

lemma register_tx_good:
  assumes "register_tx i referral actor now w = (Inr i', w')"
    and "ref_ItemID referral = case_ID i" "ref_IsCurrent referral"
    and "ref_LeadDepartment referral = case_LeadDepartment i" "ref_CoDepartments referral = case_CoDepartments i"
    "ref_RuleVersion referral = case_RuleVersion i" and "case_EscalationLevel i = 0" and "stored_status (case_Status i)"
  shows "good_step (db_index w) (db_index w')"
  using assms(1)
proof (rule register_tx_effect)
  fix a d ix1 ix2
  assume r: "relocated i i'" and i: "put_item (row_of_item i') (db_index w) = Inr ((), ix1)"
    and a: "put_assignment (row_of_referral a) ix1 = Inr ((), ix2)" "\<exists>p. a = referral\<lparr>ref_ShardPath := p\<rparr>"
    and d: "put_audit d ix2 = Inr ((), db_index w')"
  have "good_step (db_index w) ix2"
    using i a(1)
  proof (rule good_register)
    show "ref_ItemID (row_of_referral a) = case_ID (row_of_item i')" "ref_IsCurrent (row_of_referral a)"
      "agrees (row_of_item i') (row_of_referral a)" "case_EscalationLevel (row_of_item i') = 0"
      "stored_status (case_Status (row_of_item i'))"
      using relocated_fields [OF r] a(2) assms(2-8) by (auto simp: agrees_def)
  qed
  also have "good_step ix2 (db_index w')" using d by (rule good_put(1))
  finally show ?thesis .
qed

lemma adjudicate_and_save_safe:
  assumes "case_EscalationLevel i = 0"
  shows "keeps safe (bindM (mapErr f (Adjudicate i rules)) (\<lambda>referral.
     mapErr g (WithTx (register_tx (i\<lparr>case_LeadDepartment := ref_LeadDepartment referral,
       case_CoDepartments := ref_CoDepartments referral, case_RuleVersion := ref_RuleVersion referral,
       case_Status := StatusAdjudicated\<rparr>) referral actor now))))"
proof (rule keepsI, unfold safe_def)
  fix w r w'
  assume run: "bindM (mapErr f (Adjudicate i rules)) (\<lambda>referral.
     mapErr g (WithTx (register_tx (i\<lparr>case_LeadDepartment := ref_LeadDepartment referral,
       case_CoDepartments := ref_CoDepartments referral, case_RuleVersion := ref_RuleVersion referral,
       case_Status := StatusAdjudicated\<rparr>) referral actor now))) w = (r, w')"
  obtain x w1 where x: "Adjudicate i rules w = (x, w1)" by (cases "Adjudicate i rules w")
  then have same: "db_index w1 = db_index w" using keepsD [OF Adjudicate_same] by (simp add: same_index_def)
  show "good_step (db_index w) (db_index w')"
  proof (cases x)
    case (Inl e)
    with run x have "w' = w1" by (auto simp: bindM_def mapErr_def)
    with same show ?thesis by simp
  next
    case (Inr a)
    with Adjudicate_fields [of i rules w a w1] x
    have a: "ref_ItemID a = case_ID i" "ref_IsCurrent a" by auto
    from run x Inr have "mapErr g (WithTx (register_tx (i\<lparr>case_LeadDepartment := ref_LeadDepartment a,
       case_CoDepartments := ref_CoDepartments a, case_RuleVersion := ref_RuleVersion a,
       case_Status := StatusAdjudicated\<rparr>) a actor now)) w1 = (r, w')"
      by (auto simp: bindM_def mapErr_def)
    then have "good_step (db_index w1) (db_index w')"
      by (rule mapErr_WithTx_good, elim register_tx_good) (use a assms in \<open>simp_all add: stored_status_def\<close>)
    with same show ?thesis by simp
  qed
qed

lemma Register_safe: "keeps safe (Register deadline req)"
  unfolding Register_def Let_def
  by (intro safe_rules adjudicate_and_save_safe) (simp add: new_case_def)

end
