(* ===== verification/Success.thy ===== *)
theory Success
  imports Case_Service
begin

text \<open>
  Operations that do return: a condition under which an operation succeeds, with what holds of
  its result and of the state it leaves, computed from the parts of the operation. The state is
  one in which no call that leaves the program fails.
\<close>

section \<open>Success of an operation\<close>

definition succeeds :: "('e, 'w, 'a) op \<Rightarrow> ('a \<Rightarrow> 'w \<Rightarrow> bool) \<Rightarrow> 'w \<Rightarrow> bool" where
  "succeeds m Q w \<longleftrightarrow> (\<exists>a w'. m w = (Inr a, w') \<and> Q a w')"

lemma succeeds_seq:
  "succeeds (bindM m k) Q w \<longleftrightarrow> succeeds m (\<lambda>a. succeeds (k a) Q) w"
  "succeeds (mapErr f n) R w \<longleftrightarrow> succeeds n R w"
  by (auto simp: succeeds_def bindM_Inr mapErr_Inr)

lemma succeeds_step [simp]:
  "succeeds (retM a) Q w \<longleftrightarrow> Q a w"
  "succeeds (getM f) Q w \<longleftrightarrow> Q (f w) w"
  "succeeds (liftE (Inr a)) Q w \<longleftrightarrow> Q a w"
  "\<not> succeeds (liftE (Inl e)) Q w"
  "\<not> succeeds (failM e) Q w"
  by (simp_all add: succeeds_def op_simps)

lemma succeeds_clock [simp]:
  "succeeds Now Q v \<longleftrightarrow> Q (rt_clock v (rt_ticks v)) (v\<lparr>rt_ticks := Suc (rt_ticks v)\<rparr>)"
  "succeeds WallNow Q v \<longleftrightarrow> Q (rt_wall v (rt_ticks v)) (v\<lparr>rt_ticks := Suc (rt_ticks v)\<rparr>)"
  "succeeds NewString R v \<longleftrightarrow> R (rt_uuid v (rt_ids v)) (v\<lparr>rt_ids := Suc (rt_ids v)\<rparr>)"
  by (simp_all add: succeeds_def Now_def WallNow_def NewString_def)

lemma succeeds_mono: "succeeds m P w \<Longrightarrow> (\<And>a w'. P a w' \<Longrightarrow> Q a w') \<Longrightarrow> succeeds m Q w"
  by (auto simp: succeeds_def)

lemma succeeds_try: "succeeds (tryM m) Q w \<longleftrightarrow> (case m w of (r, w') \<Rightarrow> Q r w')"
  by (auto simp: succeeds_def tryM_def split: prod.split)

section \<open>Calls that leave the program\<close>

lemma succeeds_external: "rt_faults w = [] \<Longrightarrow> succeeds external Q w \<longleftrightarrow> Q () w"
  by (simp add: succeeds_def external_def)

lemma succeeds_exec: "rt_faults w = [] \<Longrightarrow> succeeds (exec stmt) Q w \<longleftrightarrow>
    (\<exists>b ix. stmt (db_index w) = Inr (b, ix) \<and> Q b (w\<lparr>db_index := ix\<rparr>))"
  by (auto simp: succeeds_def exec_def bindM_def external_def split: sum.splits prod.splits)

lemma succeeds_query_rows: "rt_faults w = [] \<Longrightarrow> succeeds (query_rows wrap sel scan) Q w \<longleftrightarrow>
    (\<exists>xs. mapE scan (sel (db_index w)) = Inr xs \<and> Q xs w)"
  by (cases "mapE scan (sel (db_index w))")
     (auto simp: succeeds_def query_rows_def bindM_def mapErr_def external_def getM_def liftE_def retM_def)

lemma query_row_quiet: "rt_faults w = [] \<Longrightarrow> query_row sel scan w =
    ((case sel (db_index w) of None \<Rightarrow> Inl ErrNoRows | Some row \<Rightarrow> scan row), w)"
  by (auto simp: query_row_def bindM_def external_def getM_def failM_def liftE_def split: option.split)

lemma succeeds_Append:
  assumes "rt_faults w = []" and "\<And>loc fs. Q loc (w\<lparr>sh_files := fs\<rparr>)"
  shows "succeeds (Append entityType t e) Q w"
  using assms by (auto simp: Append_def succeeds_seq succeeds_external on_files_def,
      auto simp: succeeds_def on_files_def external_def bindM_def mapErr_def getM_def retM_def)

section \<open>Transactions and the writes inside them\<close>

lemma succeeds_WithTx:
  "rt_faults w = [] \<Longrightarrow> succeeds fn (\<lambda>a w'. rt_faults w' = [] \<and> Q a w') w \<Longrightarrow> succeeds (WithTx fn) Q w"
  by (auto simp: succeeds_def WithTx_def bindM_def mapErr_def external_def rollback_on_error_def retM_def)

definition writable :: "entry \<Rightarrow> bool" where
  "writable e \<longleftrightarrow> list_all time_ok (entry_times e)"

lemma succeeds_marshal: "writable e \<Longrightarrow> succeeds (liftE (marshal e)) Q w \<longleftrightarrow> Q (stored e) w"
  by (simp add: marshal_def writable_def)

lemma row_keys [simp]:
  "case_ID (row_of_item i) = case_ID i" "case_ExternalRef (row_of_item i) = case_ExternalRef i"
  "ref_ID (row_of_referral a) = ref_ID a" "aud_ID (row_of_audit d) = aud_ID d"
  "esc_ID (row_of_escalation e) = esc_ID e" "rule_Version (row_of_rule r) = rule_Version r"
  by (simp_all add: row_of_item_def row_of_referral_def row_of_audit_def row_of_escalation_def row_of_rule_def)

lemma succeeds_SaveItem:
  assumes "rt_faults w = []" and "writable (ItemEntry i)"
    and "case_ID i \<notin> case_ID ` set (tab_items (db_index w))"
    and "case_ExternalRef i \<notin> case_ExternalRef ` set (tab_items (db_index w))"
    and "\<And>p off fs. Q (i\<lparr>case_ShardPath := p, case_ShardOffset := off\<rparr>)
        (w\<lparr>sh_files := fs, db_index := (db_index w)\<lparr>tab_items := tab_items (db_index w)
           @ [row_of_item (i\<lparr>case_ShardPath := p, case_ShardOffset := off\<rparr>)]\<rparr>\<rparr>)"
  shows "succeeds (SaveItem i) Q w"
  using assms
  by (auto simp: SaveItem_def InsertItem_def Let_def succeeds_seq succeeds_marshal succeeds_exec put_item_Inr
      intro!: succeeds_Append)

lemma succeeds_SaveAssignment:
  assumes "rt_faults w = []" and "time_ok (ref_AdjudicatedAt a)"
    and "ref_ID a \<notin> ref_ID ` set (tab_assignments (db_index w))"
    and "\<And>p fs. Q (a\<lparr>ref_ShardPath := p\<rparr>)
        (w\<lparr>sh_files := fs, db_index := (db_index w)\<lparr>tab_assignments := tab_assignments (db_index w)
           @ [row_of_referral (a\<lparr>ref_ShardPath := p\<rparr>)]\<rparr>\<rparr>)"
  shows "succeeds (SaveAssignment a) Q w"
  using assms
  by (auto simp: SaveAssignment_def InsertAssignment_def Let_def succeeds_seq succeeds_marshal writable_def succeeds_exec
      put_Inr intro!: succeeds_Append)

lemma succeeds_SaveAudit:
  assumes "rt_faults w = []" and "time_ok (aud_Timestamp a)"
    and "aud_ID a \<notin> aud_ID ` set (tab_audit_entries (db_index w))"
    and "\<And>p fs. Q (a\<lparr>aud_ShardPath := p\<rparr>)
        (w\<lparr>sh_files := fs, db_index := (db_index w)\<lparr>tab_audit_entries := tab_audit_entries (db_index w)
           @ [row_of_audit (a\<lparr>aud_ShardPath := p\<rparr>)]\<rparr>\<rparr>)"
  shows "succeeds (SaveAudit a) Q w"
  using assms
  by (auto simp: SaveAudit_def InsertAudit_def Let_def succeeds_seq succeeds_marshal writable_def succeeds_exec
      put_Inr intro!: succeeds_Append)

lemma succeeds_SaveEscalation:
  assumes "rt_faults w = []" and "time_ok (esc_EscalatedAt e)" and "time_ok (esc_NewDeadline e)"
    and "esc_ID e \<notin> esc_ID ` set (tab_escalations (db_index w))"
    and "\<And>p fs. Q (e\<lparr>esc_ShardPath := p\<rparr>)
        (w\<lparr>sh_files := fs, db_index := (db_index w)\<lparr>tab_escalations := tab_escalations (db_index w)
           @ [row_of_escalation (e\<lparr>esc_ShardPath := p\<rparr>)]\<rparr>\<rparr>)"
  shows "succeeds (SaveEscalation e) Q w"
  using assms
  by (auto simp: SaveEscalation_def InsertEscalation_def Let_def succeeds_seq succeeds_marshal writable_def succeeds_exec
      put_Inr intro!: succeeds_Append)

lemma succeeds_SaveRule:
  assumes "rt_faults w = []" and "writable (RuleEntry r)"
    and "rule_Version r \<notin> rule_Version ` set (tab_rules (db_index w))"
    and "\<And>p fs. Q (r\<lparr>rule_ShardPath := p\<rparr>)
        (w\<lparr>sh_files := fs, db_index := (db_index w)\<lparr>tab_rules := tab_rules (db_index w)
           @ [row_of_rule (r\<lparr>rule_ShardPath := p\<rparr>)]\<rparr>\<rparr>)"
  shows "succeeds (SaveRule r) Q w"
  using assms
  by (auto simp: SaveRule_def InsertRule_def Let_def succeeds_seq succeeds_marshal succeeds_exec
      put_Inr intro!: succeeds_Append)

lemma succeeds_UpdateItem:
  assumes "rt_faults w = []" and "writable (ItemEntry i)"
    and "case_ID i \<in> case_ID ` set (tab_items (db_index w))"
    and "\<And>p off fs. Q (i\<lparr>case_ShardPath := p, case_ShardOffset := off\<rparr>)
        (w\<lparr>rt_ticks := Suc (rt_ticks w), sh_files := fs, db_index := update_item i (db_index w)\<rparr>)"
  shows "succeeds (tx_UpdateItem i) Q w"
proof -
  have "affected (\<lambda>r. case_ID r = case_ID i) (tab_items (db_index w)) \<noteq> 0"
    using assms(3) by (auto simp: affected_def filter_empty_conv)
  moreover have "update_item (i\<lparr>case_ShardPath := p, case_ShardOffset := off\<rparr>) ix = update_item i ix" for p off ix
    by (simp add: update_item_def set_item_def)
  ultimately show ?thesis using assms
    by (auto simp: tx_UpdateItem_def UpdateItem_def require_affected_def Let_def succeeds_seq succeeds_marshal succeeds_exec
        intro!: succeeds_Append)
qed

end
