(* ===== verification/Case_Facts.thy ===== *)
theory Case_Facts
  imports Success
begin

text \<open>
  What the operations of the case service return and write, on every branch: the outcome of a
  registration and of each step of a case's life, and conditions under which they succeed.
\<close>

section \<open>Registration\<close>

lemma Adjudicate_index: "Adjudicate i rules w = (r, w') \<Longrightarrow> db_index w' = db_index w"
  using keepsD [OF Adjudicate_same] by (simp add: same_index_def)

lemma GetActiveRules_Inr: "GetActiveRules t w = (Inr rules, w') \<Longrightarrow> db_index w' = db_index w
    \<and> list_all2 (\<lambda>row r. scanRule row = Inr r)
        (sort_key rank_of (filter (rule_active_at (formatTime t)) (tab_rules (db_index w)))) rules"
  by (auto simp: GetActiveRules_def active_rules_def Let_def dest!: query_rows_Inr)

lemma GetActiveRules_index: "GetActiveRules t w = (r, w') \<Longrightarrow> db_index w' = db_index w"
  using keepsD [OF GetActiveRules_same] by (simp add: same_index_def)

lemma scanRule_fields: "scanRule row = Inr r \<Longrightarrow> rule_Version r = rule_Version row
    \<and> rule_LeadDepartment r = rule_LeadDepartment row \<and> rule_CoDepartments r = rule_CoDepartments row"
  by (auto simp: scanRule_def bindE_Inr_iff)

lemma GetItemByExternalRef_index: "GetItemByExternalRef x w = (r, w') \<Longrightarrow> db_index w' = db_index w"
  using keepsD [OF queries_read_only(2)] by (simp add: same_index_def)

lemma GetItemByExternalRef_Inr: "GetItemByExternalRef x w = (Inr i, w') \<Longrightarrow> 
    \<exists>row. find_key case_ExternalRef x (tab_items (db_index w)) = Some row \<and> scanItem row = Inr i"
  by (auto simp: GetItemByExternalRef_def mapErr_Inr find_row_def dest!: query_row_Inr)

definition routed_by :: "rule_row \<Rightarrow> item \<Rightarrow> bool" where
  "routed_by row i \<longleftrightarrow> rule_Version row = case_RuleVersion i \<and> rule_LeadDepartment row = case_LeadDepartment i
     \<and> rule_CoDepartments row = case_CoDepartments i"

definition newly_registered :: "RegisterItemRequest \<Rightarrow> item \<Rightarrow> index \<Rightarrow> index \<Rightarrow> bool" where
  "newly_registered req i ix ix' \<longleftrightarrow>
     case_ExternalRef i = rq_ExternalRef req \<and> case_Status i = StatusAdjudicated \<and> case_EscalationLevel i = 0
     \<and> rq_ExternalRef req \<notin> case_ExternalRef ` set (tab_items ix)
     \<and> (\<exists>row \<in> set (tab_rules ix). rule_Status row = RuleStatusActive \<and> routed_by row i)
     \<and> (\<exists>a d. ix' = ix\<lparr>tab_items := tab_items ix @ [row_of_item i], tab_assignments := tab_assignments ix @ [a],
          tab_audit_entries := tab_audit_entries ix @ [d]\<rparr>
        \<and> ref_ItemID a = case_ID i \<and> ref_IsCurrent a \<and> agrees (row_of_item i) a
        \<and> audited (case_ID i) ''item'' ActionRegister (rq_RegisteredBy req) '''' d)"

lemma chosen_rule:
  assumes "list_all2 (\<lambda>row r. scanRule row = Inr r)
        (sort_key rank_of (filter (rule_active_at t) (tab_rules ix))) rules"
    and "Adjudicate i rules w = (Inr a, w1)"
  shows "\<exists>row \<in> set (tab_rules ix). rule_Status row = RuleStatusActive \<and> rule_Version row = ref_RuleVersion a
    \<and> rule_LeadDepartment row = ref_LeadDepartment a \<and> rule_CoDepartments row = ref_CoDepartments a"
proof -
  obtain r where r: "r \<in> set rules" "ref_LeadDepartment a = rule_LeadDepartment r"
    "ref_CoDepartments a = rule_CoDepartments r" "ref_RuleVersion a = rule_Version r"
    using adjudicated [OF assms(2)] by auto
  with list_all2_right [OF assms(1)] obtain row where "row \<in> set (tab_rules ix)" "rule_active_at t row" "scanRule row = Inr r"
    by auto
  with r scanRule_fields show ?thesis by (auto simp: rule_active_at_def)
qed

lemma register_tx_newly:
  assumes "WithTx (register_tx i a (rq_RegisteredBy req) now) w = (Inr i', w')"
    and "case_ExternalRef i = rq_ExternalRef req" "case_Status i = StatusAdjudicated" "case_EscalationLevel i = 0"
    and "ref_ItemID a = case_ID i" "ref_IsCurrent a" "case_LeadDepartment i = ref_LeadDepartment a"
    "case_CoDepartments i = ref_CoDepartments a" "case_RuleVersion i = ref_RuleVersion a"
    and "\<exists>row \<in> set (tab_rules (db_index w)). rule_Status row = RuleStatusActive \<and> routed_by row i"
  shows "newly_registered req i' (db_index w) (db_index w')"
proof -
  obtain w0 w1 :: "'a world_scheme" where w0: "db_index w0 = db_index w" and w1: "db_index w' = db_index w1"
    and run: "register_tx i a (rq_RegisteredBy req) now w0 = (Inr i', w1)"
    using WithTx_InrD [OF assms(1)] by auto
  from run show ?thesis
  proof (rule register_tx_effect)
    fix b d ix1 ix2
    assume r: "relocated i i'" and i: "put_item (row_of_item i') (db_index w0) = Inr ((), ix1)"
      and b: "put_assignment (row_of_referral b) ix1 = Inr ((), ix2)" "\<exists>p. b = a\<lparr>ref_ShardPath := p\<rparr>"
      and d: "audited (case_ID i) ''item'' ActionRegister (rq_RegisteredBy req) '''' d" "put_audit d ix2 = Inr ((), db_index w1)"
    note f = relocated_fields [OF r]
    have ix: "db_index w' = (db_index w)\<lparr>tab_items := tab_items (db_index w) @ [row_of_item i'],
        tab_assignments := tab_assignments (db_index w) @ [row_of_referral b],
        tab_audit_entries := tab_audit_entries (db_index w) @ [d]\<rparr>"
      and fresh: "case_ExternalRef i' \<notin> case_ExternalRef ` set (tab_items (db_index w))"
      using i b(1) d(2) w0 w1 by (auto simp: put_item_Inr put_Inr)
    have "ref_ItemID (row_of_referral b) = case_ID i' \<and> ref_IsCurrent (row_of_referral b)
        \<and> agrees (row_of_item i') (row_of_referral b)"
      using b(2) f assms(5-9) by (auto simp: agrees_def)
    moreover have "\<exists>row \<in> set (tab_rules (db_index w)). rule_Status row = RuleStatusActive \<and> routed_by row i'"
      using assms(10) f by (auto simp: routed_by_def)
    ultimately show ?thesis
      unfolding newly_registered_def using f assms(2-4) fresh d(1) ix by auto
  qed
qed

text \<open>The part of a registration behind the check for a duplicate.\<close>

definition register_unknown :: "int \<Rightarrow> RegisterItemRequest \<Rightarrow> time \<Rightarrow> (err, 'a world_scheme, item) op" where
  "register_unknown deadline req now =
     bindM (mapErr (Wrap ''get active rules'') (GetActiveRules now)) (\<lambda>rules.
     bindM NewString (\<lambda>itemID.
     let i = new_case req itemID now deadline in
     bindM (mapErr (Wrap (''adjudicate item '' @ itemID)) (Adjudicate i rules)) (\<lambda>referral.
     let i = i\<lparr>case_LeadDepartment := ref_LeadDepartment referral,
               case_CoDepartments := ref_CoDepartments referral,
               case_RuleVersion := ref_RuleVersion referral,
               case_Status := StatusAdjudicated\<rparr> in
     mapErr (Wrap ''register item tx'') (WithTx (register_tx i referral (rq_RegisteredBy req) now)))))"

lemma register_unknown_outcome:
  assumes run: "register_unknown deadline req now (w :: 'a world_scheme) = (r, w')"
  shows "case r of Inl e \<Rightarrow> db_index w' = db_index w | Inr i \<Rightarrow> newly_registered req i (db_index w) (db_index w')"
proof (cases r)
  case (Inl e)
  with run show ?thesis
    by (auto simp: register_unknown_def op_results NewString_eq Let_def
        dest!: WithTx_Inl Adjudicate_index GetActiveRules_index)
next
  case (Inr i)
  from run [unfolded this] obtain rules a and w3 w4 :: "'a world_scheme"
    where rules: "GetActiveRules now w = (Inr rules, w3)"
      and a: "Adjudicate (new_case req (rt_uuid w3 (rt_ids w3)) now deadline) rules
          (w3\<lparr>rt_ids := Suc (rt_ids w3)\<rparr>) = (Inr a, w4)"
      and tx: "WithTx (register_tx ((new_case req (rt_uuid w3 (rt_ids w3)) now deadline)
          \<lparr>case_LeadDepartment := ref_LeadDepartment a, case_CoDepartments := ref_CoDepartments a,
            case_RuleVersion := ref_RuleVersion a, case_Status := StatusAdjudicated\<rparr>) a
          (rq_RegisteredBy req) now) w4 = (Inr i, w')"
    by (auto simp: register_unknown_def op_results NewString_eq Let_def)
  have same: "db_index w3 = db_index w" "db_index w4 = db_index w"
    using GetActiveRules_Inr [OF rules] Adjudicate_index [OF a] by auto
  have "\<exists>row \<in> set (tab_rules (db_index w4)). rule_Status row = RuleStatusActive
      \<and> rule_Version row = ref_RuleVersion a \<and> rule_LeadDepartment row = ref_LeadDepartment a
      \<and> rule_CoDepartments row = ref_CoDepartments a"
    using chosen_rule [OF _ a] GetActiveRules_Inr [OF rules] same by auto
  then have "newly_registered req i (db_index w4) (db_index w')"
    using Adjudicate_fields [OF a]
    by (intro register_tx_newly [OF tx]) (auto simp: new_case_def routed_by_def)
  with same Inr show ?thesis by simp
qed

lemma Register_outcome_lemma:
  assumes "Register deadline req w = (r, w')"
  shows "case r of
      Inl e \<Rightarrow> db_index w' = db_index w
    | Inr i \<Rightarrow> (db_index w' = db_index w
          \<and> (\<exists>row. find_key case_ExternalRef (rq_ExternalRef req) (tab_items (db_index w)) = Some row \<and> scanItem row = Inr i))
        \<or> newly_registered req i (db_index w) (db_index w')"
proof (cases "rq_ExternalRef req = '''' \<or> rq_Title req = '''' \<or> rq_RegisteredBy req = ''''")
  case True
  with assms show ?thesis by (auto simp: Register_def failM_def split: if_splits)
next
  case ok: False
  obtain x w1 where g: "GetItemByExternalRef (rq_ExternalRef req) w = (x, w1)"
    by (cases "GetItemByExternalRef (rq_ExternalRef req) w")
  note ix1 = GetItemByExternalRef_index [OF g]
  show ?thesis
  proof (cases x)
    case (Inr i)
    with ok g assms have "r = Inr i" "w' = w1" by (auto simp: Register_def bindM_def tryM_def retM_def)
    with ix1 GetItemByExternalRef_Inr g Inr show ?thesis by auto
  next
    case (Inl e)
    show ?thesis
    proof (cases "errIs e ErrNotFound")
      case True
      with ok Inl g assms have "register_unknown deadline req (rt_clock w1 (rt_ticks w1)) (w1\<lparr>rt_ticks := Suc (rt_ticks w1)\<rparr>) = (r, w')"
        by (auto simp: Register_def register_unknown_def bindM_def [of "tryM _"] tryM_def)
      from register_unknown_outcome [OF this] ix1 show ?thesis by (cases r) simp_all
    next
      case False
      with ok Inl g assms have "r = Inl (Wrap ''check duplicate'' e)" "w' = w1"
        by (auto simp: Register_def bindM_def tryM_def failM_def)
      with ix1 show ?thesis by simp
    qed
  qed
qed

text \<open>Whatever happens to the index, the lines of the shards stay.\<close>

lemma Register_append_only: "keeps append_only (Register deadline req)"
  unfolding Register_def register_tx_def NewEntry_def Adjudicate_alt Let_def by (intro append_only_all)

lemma steps_append_only:
  "keeps append_only (StartProcessing itemID actor)" "keeps append_only (Modify itemID mreq)"
  "keeps append_only (ReturnForCorrection itemID reason actor)" "keeps append_only (Resubmit itemID actor)"
  "keeps append_only (Cancel itemID reason actor)" "keeps append_only (Complete itemID actor)"
  unfolding StartProcessing_def Modify_def ReturnForCorrection_def Resubmit_def Cancel_def Complete_def
    updateItemWithAudit_def update_tx_def NewEntry_def Let_def
  by (intro append_only_all)+

lemma not_newly_registered: "\<not> newly_registered req i ix ix"
proof
  assume "newly_registered req i ix ix"
  then obtain a d where "ix = ix\<lparr>tab_items := tab_items ix @ [row_of_item i], tab_assignments := tab_assignments ix @ [a],
      tab_audit_entries := tab_audit_entries ix @ [d]\<rparr>"
    unfolding newly_registered_def by (elim conjE exE)
  from arg_cong [OF this, of tab_items] show False by simp
qed

lemma Register_duplicate:
  assumes "Register deadline req w = (Inr i, w')" and "db_index w' = db_index w"
  shows "sh_files w' = sh_files w"
proof -
  obtain x w1 where g: "GetItemByExternalRef (rq_ExternalRef req) w = (x, w1)"
    by (cases "GetItemByExternalRef (rq_ExternalRef req) w")
  have same: "sh_files w1 = sh_files w" "db_index w1 = db_index w"
    using keepsD [OF queries_files(2) g] keepsD [OF queries_read_only(2) g] by (simp_all add: same_files_def same_index_def)
  show ?thesis
  proof (cases x)
    case (Inr j)
    with g assms(1) have "w' = w1" by (auto simp: Register_def bindM_def tryM_def retM_def failM_def split: if_splits)
    with same show ?thesis by simp
  next
    case (Inl e)
    with g assms(1) have "register_unknown deadline req (rt_clock w1 (rt_ticks w1)) (w1\<lparr>rt_ticks := Suc (rt_ticks w1)\<rparr>) = (Inr i, w')"
      by (auto simp: Register_def register_unknown_def bindM_def [of "tryM _"] tryM_def failM_def split: if_splits)
    from register_unknown_outcome [OF this] assms(2) same have "newly_registered req i (db_index w) (db_index w)" by simp
    then show ?thesis by (simp add: not_newly_registered)
  qed
qed

text \<open>
  C10: The outcome of a registration. Either it fails, and the index is what it was; or a case with
  the same external reference was registered before, it is returned as it is stored and nothing
  is written, neither to the index nor to a shard; or the reference was not in use, and exactly one
  case, one referral and one audit entry are added to the index in one step: the case is adjudicated
  under an active rule, the referral is current and agrees with it, and the entry records the
  registration by the person who asked. In any case every line of a shard stays as it is: the lines
  that a failing registration has appended stay behind the others too, although its rows do not.
\<close>

theorem Register_outcome:
  "case Register deadline req w of (r, w') \<Rightarrow> append_only w w' \<and> (case r of
      Inl e \<Rightarrow> db_index w' = db_index w
    | Inr i \<Rightarrow> (db_index w' = db_index w \<and> sh_files w' = sh_files w
          \<and> (\<exists>row. find_key case_ExternalRef (rq_ExternalRef req) (tab_items (db_index w)) = Some row \<and> scanItem row = Inr i))
        \<or> newly_registered req i (db_index w) (db_index w'))"
  using keepsD [OF Register_append_only, of deadline req w] Register_outcome_lemma [of deadline req w]
    Register_duplicate [of deadline req w]
  by (cases "Register deadline req w"; cases "fst (Register deadline req w)") auto

lemma GetItemByExternalRef_quiet:
  assumes "rt_faults w = []" and "find_key case_ExternalRef x (tab_items (db_index w)) = None"
  shows "GetItemByExternalRef x w = (Inl ErrNotFound, w)"
  using assms by (simp add: GetItemByExternalRef_def mapErr_def query_row_quiet find_row_def or_not_found_def)

definition fresh_ids :: "'a db_scheme \<Rightarrow> nat \<Rightarrow> bool" where
  \<comment> \<open>the next identifiers are not in use\<close>
  "fresh_ids w n \<longleftrightarrow> (\<forall>k \<in> {rt_ids w ..< rt_ids w + n}.
     rt_uuid w k \<notin> case_ID ` set (tab_items (db_index w)) \<and> rt_uuid w k \<notin> ref_ID ` set (tab_assignments (db_index w))
     \<and> rt_uuid w k \<notin> aud_ID ` set (tab_audit_entries (db_index w)) \<and> rt_uuid w k \<notin> esc_ID ` set (tab_escalations (db_index w)))"

lemma Register_succeeds_lemma:
  assumes quiet: "rt_faults w = []"
    and fields: "rq_ExternalRef req \<noteq> ''''" "rq_Title req \<noteq> ''''" "rq_RegisteredBy req \<noteq> ''''"
    and ref: "rq_ExternalRef req \<notin> case_ExternalRef ` set (tab_items (db_index w))"
    and times: "time_ok (rt_clock w (rt_ticks w))" "time_ok (Add (rt_clock w (rt_ticks w)) deadline)"
      "time_ok (rt_clock w (Suc (rt_ticks w)))"
    and rules: "mapE scanRule (sort_key rank_of (filter (rule_active_at (formatTime (rt_clock w (rt_ticks w)))) (tab_rules (db_index w)))) = Inr rules"
      "\<exists>r \<in> set rules. eligible (new_case req (rt_uuid w (rt_ids w)) (rt_clock w (rt_ticks w)) deadline) r"
    and ids: "fresh_ids w 3"
  shows "succeeds (Register deadline req) (\<lambda>i w'. item_ok i) w"
proof -
  have none: "find_key case_ExternalRef (rq_ExternalRef req) (tab_items (db_index w)) = None"
    using ref by (simp add: find_key_None_iff)
  let ?t = "rt_ticks w" and ?k = "rt_ids w"
  let ?i = "new_case req (rt_uuid w ?k) (rt_clock w ?t) deadline"
  let ?w = "w\<lparr>rt_ticks := Suc ?t, rt_ids := Suc ?k\<rparr>"
  have q: "rt_faults ?w = []" using quiet by simp
  obtain r where r: "r \<in> set rules" "eligible ?i r" using rules(2) by blast
  obtain a where a: "Adjudicate ?i rules ?w = (Inr a, w\<lparr>rt_ticks := Suc (Suc ?t), rt_ids := Suc (Suc ?k)\<rparr>)"
    "ref_AdjudicatedAt a = rt_clock w (Suc ?t)" "ref_ID a = rt_uuid w (Suc ?k)"
    using Adjudicate_quiet [OF q r] by auto
  note fresh = ids [unfolded fresh_ids_def, rule_format]
  have ref_id: "ref_ID a \<notin> ref_ID ` set (tab_assignments (db_index w))" using fresh [of "Suc ?k"] a(3) by simp
  have "succeeds (Adjudicate ?i rules) Q ?w \<longleftrightarrow> Q a (w\<lparr>rt_ticks := Suc (Suc ?t), rt_ids := Suc (Suc ?k)\<rparr>)" for Q
    by (simp add: succeeds_def a(1))
  then show ?thesis
    using quiet fields times rules(1) fresh [of ?k] fresh [of "Suc (Suc ?k)"] ref a(2) ref_id
    by (simp add: Register_def succeeds_seq succeeds_try GetItemByExternalRef_quiet [OF quiet none] GetActiveRules_def active_rules_def
        succeeds_query_rows Let_def)
      (intro succeeds_WithTx, simp,
       auto simp: register_tx_def succeeds_seq NewEntry_def writable_def new_case_def item_ok_def opt_time_ok_def
         intro!: succeeds_SaveItem succeeds_SaveAssignment succeeds_SaveAudit)
qed

lemma Register_registers:
  assumes "rt_faults w = []"
    and "rq_ExternalRef req \<noteq> ''''" "rq_Title req \<noteq> ''''" "rq_RegisteredBy req \<noteq> ''''"
    and "rq_ExternalRef req \<notin> case_ExternalRef ` set (tab_items (db_index w))"
    and "time_ok (rt_clock w (rt_ticks w))" "time_ok (Add (rt_clock w (rt_ticks w)) deadline)"
      "time_ok (rt_clock w (Suc (rt_ticks w)))"
    and "mapE scanRule (sort_key rank_of (filter (rule_active_at (formatTime (rt_clock w (rt_ticks w)))) (tab_rules (db_index w)))) = Inr rules"
      "\<exists>r \<in> set rules. eligible (new_case req (rt_uuid w (rt_ids w)) (rt_clock w (rt_ticks w)) deadline) r"
    and "fresh_ids w 3"
  shows "\<exists>i w'. Register deadline req w = (Inr i, w') \<and> newly_registered req i (db_index w) (db_index w')
     \<and> scanItem (row_of_item i) = Inr i \<and> item_ok i"
proof -
  obtain i w' where run: "Register deadline req w = (Inr i, w')" and ok: "item_ok i"
    using Register_succeeds_lemma [OF assms] by (auto simp: succeeds_def)
  have "find_key case_ExternalRef (rq_ExternalRef req) (tab_items (db_index w)) = None"
    using assms(5) by (simp add: find_key_None_iff)
  with Register_outcome_lemma [OF run] run ok item_codec.scan_enc [OF ok] show ?thesis by auto
qed

text \<open>
  C14: A registration does succeed when it should: nothing fails outside, the request has its
  three mandatory fields, its reference is new, the clock reads times that can be written, some
  active rule accepts the case, and the three identifiers drawn are new. Then the case is
  registered as the outcome above says.
\<close>

theorem Register_succeeds:
  assumes "rt_faults w = []"
    and "rq_ExternalRef req \<noteq> ''''" "rq_Title req \<noteq> ''''" "rq_RegisteredBy req \<noteq> ''''"
    and "rq_ExternalRef req \<notin> case_ExternalRef ` set (tab_items (db_index w))"
    and "time_ok (rt_clock w (rt_ticks w))" "time_ok (Add (rt_clock w (rt_ticks w)) deadline)"
      "time_ok (rt_clock w (Suc (rt_ticks w)))"
    and "mapE scanRule (sort_key rank_of (filter (rule_active_at (formatTime (rt_clock w (rt_ticks w)))) (tab_rules (db_index w)))) = Inr rules"
      "\<exists>r \<in> set rules. eligible (new_case req (rt_uuid w (rt_ids w)) (rt_clock w (rt_ticks w)) deadline) r"
    and "fresh_ids w 3"
  shows "\<exists>i w'. Register deadline req w = (Inr i, w') \<and> newly_registered req i (db_index w) (db_index w')
     \<and> scanItem (row_of_item i) = Inr i \<and> item_ok i"
  using assms by (rule Register_registers)

section \<open>The steps of a case's life\<close>

definition step_outcome ::
  "(err, 'a world_scheme, item) op \<Rightarrow> string \<Rightarrow> (item \<Rightarrow> bool) \<Rightarrow> (time \<Rightarrow> item \<Rightarrow> item) \<Rightarrow>
     string \<Rightarrow> string \<Rightarrow> string \<Rightarrow> 'a world_scheme \<Rightarrow> bool" where
  \<comment> \<open>on an error nothing changes; on success the case was there and the step was allowed, its row
     is set to the edited case and one audit entry is added\<close>
  "step_outcome m itemID allowed edit action actor details w \<longleftrightarrow> (case m w of (r, w') \<Rightarrow> (case r of
      Inl e \<Rightarrow> db_index w' = db_index w
    | Inr i \<Rightarrow> \<exists>row j t d. find_key case_ID itemID (tab_items (db_index w)) = Some row \<and> scanItem row = Inr j
        \<and> allowed j \<and> relocated (edit t j) i \<and> audited itemID ''item'' action actor details d
        \<and> db_index w' = (update_item (edit t j) (db_index w))
            \<lparr>tab_audit_entries := tab_audit_entries (db_index w) @ [d]\<rparr>))"

definition may_move :: "ItemStatus \<Rightarrow> item \<Rightarrow> bool" where
  "may_move to i \<longleftrightarrow> case_Status i = to \<or> CanTransition (case_Status i) to"

lemma step_outcomeI:
  assumes "\<And>r w'. m w = (r, w') \<Longrightarrow> (case r of
      Inl e \<Rightarrow> db_index w' = db_index w
    | Inr i \<Rightarrow> \<exists>j w1 t. GetItemByID itemID w = (Inr j, w1) \<and> allowed j
        \<and> (\<exists>w2. db_index w2 = db_index w \<and> updateItemWithAudit (edit t j) actor action details w2 = (Inr i, w')))"
    and "\<And>t j. case_ID (edit t j) = case_ID j"
  shows "step_outcome m itemID allowed edit action actor details w"
proof -
  obtain r w' where run: "m w = (r, w')" by (cases "m w")
  show ?thesis
  proof (cases r)
    case (Inl e)
    with assms(1) [OF run] run show ?thesis by (simp add: step_outcome_def)
  next
    case (Inr i)
    from assms(1) [OF run] Inr obtain j w1 t w2 where g: "GetItemByID itemID w = (Inr j, w1)" "allowed j"
      and u: "db_index w2 = db_index w" "updateItemWithAudit (edit t j) actor action details w2 = (Inr i, w')" by auto
    from g(1) obtain row where row: "find_key case_ID itemID (tab_items (db_index w)) = Some row" "scanItem row = Inr j"
      using GetItemByID_Inr by blast
    then have "case_ID j = itemID" using find_key_Some [OF row(1)] scanItem_fields [OF row(2)] by simp
    with updateItemWithAudit_Inr [OF u(2)] assms(2) [of t j] u(1) obtain d where
      "relocated (edit t j) i" "audited itemID ''item'' action actor details d"
      "put_audit d (update_item (edit t j) (db_index w)) = Inr ((), db_index w')" by auto
    moreover from this(3) have "db_index w' = (update_item (edit t j) (db_index w))
            \<lparr>tab_audit_entries := tab_audit_entries (db_index w) @ [d]\<rparr>"
      by (simp add: put_Inr update_item_def)
    ultimately show ?thesis using run Inr row g(2) unfolding step_outcome_def by auto
  qed
qed

lemma transition_outcome:
  assumes "\<And>t j. case_ID (g t j) = case_ID j"
  shows "step_outcome (bindM (mapErr f (GetItemByID itemID)) (\<lambda>i. bindM Now (\<lambda>now.
       bindM (liftE (TransitionTo i to)) (\<lambda>i. updateItemWithAudit (g now i) actor action details))))
     itemID (may_move to) (\<lambda>t j. g t (j\<lparr>case_Status := to\<rparr>)) action actor details w"
proof (rule step_outcomeI)
  fix r w'
  assume run: "bindM (mapErr f (GetItemByID itemID)) (\<lambda>i. bindM Now (\<lambda>now.
       bindM (liftE (TransitionTo i to)) (\<lambda>i. updateItemWithAudit (g now i) actor action details))) w = (r, w')"
  show "case r of Inl e \<Rightarrow> db_index w' = db_index w
    | Inr i \<Rightarrow> \<exists>j w1 t. GetItemByID itemID w = (Inr j, w1) \<and> may_move to j
        \<and> (\<exists>w2. db_index w2 = db_index w
             \<and> updateItemWithAudit (g t (j\<lparr>case_Status := to\<rparr>)) actor action details w2 = (Inr i, w'))"
  proof (cases r)
    case (Inl e)
    with run show ?thesis
      by (auto simp: op_results Now_eq dest!: GetItemByID_same updateItemWithAudit_Inl)
  next
    case (Inr i)
    with run obtain j w1 where g: "GetItemByID itemID w = (Inr j, w1)" and "may_move to j"
      and "updateItemWithAudit (g (rt_clock w1 (rt_ticks w1)) (j\<lparr>case_Status := to\<rparr>)) actor action details
          (w1\<lparr>rt_ticks := Suc (rt_ticks w1)\<rparr>) = (Inr i, w')"
      by (auto simp: op_results Now_eq TransitionTo_Inr_iff may_move_def dest!: sym [of "Inr _" "TransitionTo _ _"])
    then show ?thesis using Inr GetItemByID_same [OF g]
      by (auto intro!: exI [of _ "w1\<lparr>rt_ticks := Suc (rt_ticks w1)\<rparr>"])
  qed
qed (simp add: assms)

lemma StartProcessing_outcome: "step_outcome (StartProcessing itemID actor) itemID (may_move StatusInProgress)
     (\<lambda>t j. j\<lparr>case_Status := StatusInProgress, case_UpdatedAt := t\<rparr>) ActionStartProcessing actor '''' w"
  unfolding StartProcessing_def by (rule transition_outcome) simp

lemma Return_outcome: "step_outcome (ReturnForCorrection itemID reason actor) itemID (may_move StatusReturned)
     (\<lambda>t j. j\<lparr>case_Status := StatusReturned, case_UpdatedAt := t\<rparr>) ActionReturn actor reason w"
  unfolding ReturnForCorrection_def by (rule transition_outcome) simp

lemma Cancel_outcome: "step_outcome (Cancel itemID reason actor) itemID (may_move StatusCancelled)
     (\<lambda>t j. j\<lparr>case_Status := StatusCancelled, case_CancelledAt := Some t, case_CancelReason := reason,
        case_UpdatedAt := t\<rparr>) ActionCancel actor reason w"
  unfolding Cancel_def by (rule transition_outcome) simp

lemma Complete_outcome: "step_outcome (Complete itemID actor) itemID (may_move StatusCompleted)
     (\<lambda>t j. j\<lparr>case_Status := StatusCompleted, case_CompletedAt := Some t, case_UpdatedAt := t\<rparr>)
     ActionComplete actor '''' w"
  unfolding Complete_def by (rule transition_outcome) simp

lemma Modify_outcome: "step_outcome (Modify itemID req) itemID (\<lambda>j. \<not> IsTerminal (case_Status j))
     (\<lambda>t j. (modified req j)\<lparr>case_UpdatedAt := t\<rparr>) ActionModify (mq_Actor req) '''' w"
proof (rule step_outcomeI)
  fix r w'
  assume run: "Modify itemID req w = (r, w')"
  show "case r of Inl e \<Rightarrow> db_index w' = db_index w
    | Inr i \<Rightarrow> \<exists>j w1 t. GetItemByID itemID w = (Inr j, w1) \<and> \<not> IsTerminal (case_Status j)
        \<and> (\<exists>w2. db_index w2 = db_index w
             \<and> updateItemWithAudit ((modified req j)\<lparr>case_UpdatedAt := t\<rparr>) (mq_Actor req) ActionModify '''' w2 = (Inr i, w'))"
  proof (cases r)
    case (Inl e)
    with run show ?thesis
      by (auto simp: Modify_def Let_def op_results Now_eq dest!: GetItemByID_same updateItemWithAudit_Inl split: if_splits)
  next
    case (Inr i)
    with run obtain j w1 where g: "GetItemByID itemID w = (Inr j, w1)" and "\<not> IsTerminal (case_Status j)"
      and "updateItemWithAudit ((modified req j)\<lparr>case_UpdatedAt := rt_clock w1 (rt_ticks w1)\<rparr>) (mq_Actor req) ActionModify ''''
          (w1\<lparr>rt_ticks := Suc (rt_ticks w1)\<rparr>) = (Inr i, w')"
      by (auto simp: Modify_def Let_def op_results Now_eq split: if_splits)
    then show ?thesis using Inr GetItemByID_same [OF g]
      by (auto intro!: exI [of _ "w1\<lparr>rt_ticks := Suc (rt_ticks w1)\<rparr>"])
  qed
qed (simp add: modified_routing)

lemma Resubmit_outcome: "step_outcome (Resubmit itemID actor) itemID (may_move StatusRegistered)
     (\<lambda>t j. j\<lparr>case_Status := StatusAdjudicated, case_UpdatedAt := t\<rparr>) ActionResubmit actor '''' w"
proof (rule step_outcomeI)
  fix r w'
  assume run: "Resubmit itemID actor w = (r, w')"
  show "case r of Inl e \<Rightarrow> db_index w' = db_index w
    | Inr i \<Rightarrow> \<exists>j w1 t. GetItemByID itemID w = (Inr j, w1) \<and> may_move StatusRegistered j
        \<and> (\<exists>w2. db_index w2 = db_index w
             \<and> updateItemWithAudit (j\<lparr>case_Status := StatusAdjudicated, case_UpdatedAt := t\<rparr>) actor ActionResubmit '''' w2 = (Inr i, w'))"
  proof (cases r)
    case (Inl e)
    with run show ?thesis
      by (auto simp: Resubmit_def op_results Now_eq dest!: GetItemByID_same updateItemWithAudit_Inl)
  next
    case (Inr i)
    with run obtain j w1 where g: "GetItemByID itemID w = (Inr j, w1)" and "may_move StatusRegistered j"
      and "updateItemWithAudit (j\<lparr>case_Status := StatusAdjudicated, case_UpdatedAt := rt_clock w1 (rt_ticks w1)\<rparr>) actor
          ActionResubmit '''' (w1\<lparr>rt_ticks := Suc (rt_ticks w1)\<rparr>) = (Inr i, w')"
      by (auto simp: Resubmit_def op_results Now_eq TransitionTo_Inr_iff may_move_def dest!: sym [of "Inr _" "TransitionTo _ _"])
    then show ?thesis using Inr GetItemByID_same [OF g]
      by (auto intro!: exI [of _ "w1\<lparr>rt_ticks := Suc (rt_ticks w1)\<rparr>"])
  qed
qed simp

text \<open>
  C11: What the steps of a case's life do. Each of them either fails and leaves the index (not always
  the shards, where lines that it has appended stay) as it was, or finds the case under its identifier in a state from which the step is allowed (for a
  modification: not in a terminal one), sets the row to the stored case with the step's fields
  changed, and appends one audit entry with the step's action, actor and reason; no other row
  of any table changes. In both cases every line of a shard stays as it is, with new ones behind it.
\<close>

theorem lifecycle_outcome:
  "step_outcome (StartProcessing itemID actor) itemID (may_move StatusInProgress)
     (\<lambda>t j. j\<lparr>case_Status := StatusInProgress, case_UpdatedAt := t\<rparr>) ActionStartProcessing actor '''' w
   \<and> step_outcome (ReturnForCorrection itemID reason actor) itemID (may_move StatusReturned)
     (\<lambda>t j. j\<lparr>case_Status := StatusReturned, case_UpdatedAt := t\<rparr>) ActionReturn actor reason w
   \<and> step_outcome (Resubmit itemID actor) itemID (may_move StatusRegistered)
     (\<lambda>t j. j\<lparr>case_Status := StatusAdjudicated, case_UpdatedAt := t\<rparr>) ActionResubmit actor '''' w
   \<and> step_outcome (Cancel itemID reason actor) itemID (may_move StatusCancelled)
     (\<lambda>t j. j\<lparr>case_Status := StatusCancelled, case_CancelledAt := Some t, case_CancelReason := reason,
        case_UpdatedAt := t\<rparr>) ActionCancel actor reason w
   \<and> step_outcome (Complete itemID actor) itemID (may_move StatusCompleted)
     (\<lambda>t j. j\<lparr>case_Status := StatusCompleted, case_CompletedAt := Some t, case_UpdatedAt := t\<rparr>)
     ActionComplete actor '''' w
   \<and> step_outcome (Modify itemID mreq) itemID (\<lambda>j. \<not> IsTerminal (case_Status j))
     (\<lambda>t j. (modified mreq j)\<lparr>case_UpdatedAt := t\<rparr>) ActionModify (mq_Actor mreq) '''' w
   \<and> append_only w (snd (StartProcessing itemID actor w)) \<and> append_only w (snd (ReturnForCorrection itemID reason actor w))
   \<and> append_only w (snd (Resubmit itemID actor w)) \<and> append_only w (snd (Cancel itemID reason actor w))
   \<and> append_only w (snd (Complete itemID actor w)) \<and> append_only w (snd (Modify itemID mreq w))"
  by (intro conjI StartProcessing_outcome Return_outcome Resubmit_outcome Cancel_outcome Complete_outcome Modify_outcome
      steps_append_only [THEN keepsD, OF prod.collapse [symmetric]])

section \<open>When a step succeeds\<close>

definition ready :: "string \<Rightarrow> item \<Rightarrow> 'a world_scheme \<Rightarrow> bool" where
  \<comment> \<open>nothing fails outside, the case is stored and can be read and written, the clock reads
     times that can be written and the next identifier is new\<close>
  "ready itemID j w \<longleftrightarrow> rt_faults w = [] \<and> writable (ItemEntry j)
     \<and> (\<exists>row. find_key case_ID itemID (tab_items (db_index w)) = Some row \<and> scanItem row = Inr j)
     \<and> (\<forall>n \<in> {rt_ticks w ..< rt_ticks w + 2}. time_ok (rt_clock w n)) \<and> fresh_ids w 1"

lemma ready_get: "ready itemID j w \<Longrightarrow> GetItemByID itemID w = (Inr j, w) \<and> case_ID j = itemID"
  by (auto simp: ready_def GetItemByID_def mapErr_def query_row_quiet find_row_def
      dest: find_key_Some scanItem_fields)

text \<open>A write needs the row to be there, whatever the row holds.\<close>

lemma stored_write:
  assumes "rt_faults w = []" and "case_ID i \<in> case_ID ` set (tab_items (db_index w))" and "writable (ItemEntry i)"
    and "time_ok (rt_clock w (rt_ticks w))" and "rt_uuid w (rt_ids w) \<notin> aud_ID ` set (tab_audit_entries (db_index w))"
  shows "\<exists>i' w'. updateItemWithAudit i actor action details w = (Inr i', w')"
proof -
  have "succeeds (updateItemWithAudit i actor action details) (\<lambda>_ _. True) w"
    unfolding updateItemWithAudit_def update_tx_def succeeds_seq succeeds_clock
  proof (rule succeeds_WithTx, simp add: assms(1), unfold succeeds_seq, rule succeeds_UpdateItem)
    show "writable (ItemEntry i)" by (rule assms(3))
  qed (use assms in \<open>simp_all add: NewEntry_def succeeds_seq update_item_def succeeds_SaveAudit\<close>)
  then show ?thesis by (simp add: succeeds_def)
qed

lemma ready_write:
  assumes "ready itemID j w" and "case_ID i = itemID" and "writable (ItemEntry i)" and "n \<le> 1"
  shows "\<exists>i' w'. updateItemWithAudit i actor action details (w\<lparr>rt_ticks := rt_ticks w + n\<rparr>) = (Inr i', w')"
  using assms by (intro stored_write) (auto simp: ready_def fresh_ids_def dest!: find_key_Some intro!: rev_image_eqI)

definition is_refusal :: "err \<Rightarrow> bool" where
  \<comment> \<open>the error of a transition that the table does not allow\<close>
  "is_refusal e \<longleftrightarrow> (\<exists>s. e = Detail ErrInvalidTransition s)"

lemma refusal_is_invalid: "is_refusal e \<Longrightarrow> errIs e ErrInvalidTransition"
  by (auto simp: is_refusal_def)

lemma transition_decides:
  assumes "ready itemID j w"
    and "\<And>t j. case_ID (g t j) = case_ID j"
    and "\<And>t j. time_ok t \<Longrightarrow> writable (ItemEntry j) \<Longrightarrow> writable (ItemEntry (g t (j\<lparr>case_Status := to\<rparr>)))"
  shows "case fst (bindM (mapErr f (GetItemByID itemID)) (\<lambda>i. bindM Now (\<lambda>now.
       bindM (liftE (TransitionTo i to)) (\<lambda>i. updateItemWithAudit (g now i) actor action details))) w)
     of Inr i \<Rightarrow> may_move to j | Inl e \<Rightarrow> \<not> may_move to j \<and> is_refusal e"
proof (cases "may_move to j")
  case True
  then have "TransitionTo j to = Inr (j\<lparr>case_Status := to\<rparr>)" by (simp add: TransitionTo_Inr_iff may_move_def)
  moreover have "\<exists>i' w'. updateItemWithAudit (g (rt_clock w (rt_ticks w)) (j\<lparr>case_Status := to\<rparr>)) actor action details
      (w\<lparr>rt_ticks := rt_ticks w + 1\<rparr>) = (Inr i', w')"
    using assms(1,3) ready_get [OF assms(1)] by (intro ready_write [OF assms(1)]) (simp_all add: assms(2) ready_def)
  ultimately show ?thesis using ready_get [OF assms(1)] True by (auto simp: bindM_def mapErr_def Now_def liftE_def)
next
  case False
  then obtain e where e: "TransitionTo j to = Inl e"
    by (cases "TransitionTo j to") (auto simp: TransitionTo_Inr_iff may_move_def)
  then have "is_refusal e" by (auto simp: is_refusal_def dest: TransitionTo_Inl)
  with e show ?thesis using ready_get [OF assms(1)] False by (auto simp: bindM_def mapErr_def Now_def liftE_def)
qed

lemma decides:
  assumes "ready itemID j w"
  shows "case fst (StartProcessing itemID actor w) of
      Inr i \<Rightarrow> may_move StatusInProgress j | Inl e \<Rightarrow> \<not> may_move StatusInProgress j \<and> is_refusal e"
    and "case fst (ReturnForCorrection itemID reason actor w) of
      Inr i \<Rightarrow> may_move StatusReturned j | Inl e \<Rightarrow> \<not> may_move StatusReturned j \<and> is_refusal e"
    and "case fst (Cancel itemID reason actor w) of
      Inr i \<Rightarrow> may_move StatusCancelled j | Inl e \<Rightarrow> \<not> may_move StatusCancelled j \<and> is_refusal e"
    and "case fst (Complete itemID actor w) of
      Inr i \<Rightarrow> may_move StatusCompleted j | Inl e \<Rightarrow> \<not> may_move StatusCompleted j \<and> is_refusal e"
  unfolding StartProcessing_def ReturnForCorrection_def Cancel_def Complete_def
  by (rule transition_decides [OF assms]; simp add: writable_def)+

text \<open>
  C15: When a step succeeds. For a stored case that can be read and written, with nothing failing
  outside, starting, returning, cancelling and completing it return the case exactly if its status is
  the target already or the transition table has the step from its status to the target, and an
  invalid-transition error otherwise.
\<close>

theorem lifecycle_decides:
  assumes "ready itemID j w"
  shows "(case fst (StartProcessing itemID actor w) of
      Inr i \<Rightarrow> may_move StatusInProgress j | Inl e \<Rightarrow> \<not> may_move StatusInProgress j \<and> errIs e ErrInvalidTransition)
    \<and> (case fst (ReturnForCorrection itemID reason actor w) of
      Inr i \<Rightarrow> may_move StatusReturned j | Inl e \<Rightarrow> \<not> may_move StatusReturned j \<and> errIs e ErrInvalidTransition)
    \<and> (case fst (Cancel itemID reason actor w) of
      Inr i \<Rightarrow> may_move StatusCancelled j | Inl e \<Rightarrow> \<not> may_move StatusCancelled j \<and> errIs e ErrInvalidTransition)
    \<and> (case fst (Complete itemID actor w) of
      Inr i \<Rightarrow> may_move StatusCompleted j | Inl e \<Rightarrow> \<not> may_move StatusCompleted j \<and> errIs e ErrInvalidTransition)"
  using decides(1,4) [OF assms, of actor] decides(2,3) [OF assms, of reason actor]
  by (auto split: sum.splits dest: refusal_is_invalid)

text \<open>
  A case that is completed can be completed again: the step is accepted, since a status may
  always be set to itself, and the time of completion that was recorded is replaced by the
  present time.
\<close>

theorem Complete_again:
  assumes "ready itemID j w" and "case_Status j = StatusCompleted"
  shows "\<exists>i w' t. Complete itemID actor w = (Inr i, w') \<and> case_CompletedAt i = Some t
     \<and> (\<exists>row \<in> set (tab_items (db_index w')). case_ID row = itemID \<and> case_CompletedAt row = formatNullableTime (Some t))"
proof -
  obtain i w' where run: "Complete itemID actor w = (Inr i, w')"
    using decides(4) [OF assms(1), of actor] assms(2)
    by (cases "Complete itemID actor w") (auto simp: may_move_def split: sum.splits)
  from Complete_outcome [of itemID actor w] run obtain row j' t d where
    row: "find_key case_ID itemID (tab_items (db_index w)) = Some row" "scanItem row = Inr j'"
    and i: "relocated (j'\<lparr>case_Status := StatusCompleted, case_CompletedAt := Some t, case_UpdatedAt := t\<rparr>) i"
    and ix: "db_index w' = (update_item (j'\<lparr>case_Status := StatusCompleted, case_CompletedAt := Some t, case_UpdatedAt := t\<rparr>)
        (db_index w))\<lparr>tab_audit_entries := tab_audit_entries (db_index w) @ [d]\<rparr>"
    by (auto simp: step_outcome_def)
  have "row \<in> set (tab_items (db_index w))" "case_ID row = itemID" "case_ID j' = itemID"
    using find_key_Some [OF row(1)] scanItem_fields [OF row(2)] by auto
  then have "set_item (j'\<lparr>case_Status := StatusCompleted, case_CompletedAt := Some t, case_UpdatedAt := t\<rparr>) row
      \<in> set (tab_items (db_index w'))"
    by (auto simp: ix update_item_def set_update_where intro!: image_eqI [of _ _ row])
  then have "\<exists>r \<in> set (tab_items (db_index w')). case_ID r = itemID \<and> case_CompletedAt r = formatNullableTime (Some t)"
    using \<open>case_ID row = itemID\<close> by (intro bexI) (simp_all add: set_item_def)
  moreover have "case_CompletedAt i = Some t" using arg_cong [OF i [unfolded relocated_def], of case_CompletedAt] by simp
  ultimately show ?thesis using run by blast
qed

section \<open>Witnesses\<close>

definition sample_ready :: "ItemStatus \<Rightarrow> world" where
  "sample_ready s = sample_world\<lparr>rt_clock := (\<lambda>n. 100), rt_uuid := (\<lambda>n. ''u'' @ show_nat n), db_index := empty_index\<lparr>tab_items :=
     [row_of_item (sample_case\<lparr>case_Status := s\<rparr>)]\<rparr>\<rparr>"

lemma ready_sample: "ready ''i1'' (sample_case\<lparr>case_Status := s\<rparr>) (sample_ready s)"
proof -
  have "scanItem (row_of_item (sample_case\<lparr>case_Status := s\<rparr>)) = Inr (sample_case\<lparr>case_Status := s\<rparr>)"
    by (rule item_codec.scan_enc) (simp add: item_ok_def sample_case_def opt_time_ok_def time_ok_def)
  then show ?thesis
    by (simp add: ready_def sample_ready_def sample_world_def writable_def find_key_def time_ok_def fresh_ids_def
        empty_index_def) (simp add: sample_case_def time_ok_def)
qed

theorem lifecycle_decides_witness:
  "errIs (projl (fst (StartProcessing ''i1'' ''a'' (sample_ready StatusCompleted)))) ErrInvalidTransition"
  using lifecycle_decides [OF ready_sample [of StatusCompleted], of "''a''" "''r''"]
  by (auto simp: may_move_def CanTransition_def split: sum.splits)

theorem Complete_again_witness:
  "\<exists>i w'. Complete ''i1'' ''a'' (sample_ready StatusCompleted) = (Inr i, w') \<and> case_CompletedAt i \<noteq> None"
  using Complete_again [OF ready_sample [of StatusCompleted], of "''a''"] by fastforce

definition sample_request :: RegisterItemRequest where
  "sample_request = \<lparr>rq_ExternalRef = ''R9'', rq_Title = ''t'', rq_Description = '''', rq_OperatorName = '''',
     rq_OperatorContact = '''', rq_Materials = [], rq_Category = '''', rq_Keywords = [], rq_RegisteredBy = ''clerk'',
     rq_StoreID = ''''\<rparr>"

definition sample_open :: world where
  "sample_open = sample_world\<lparr>rt_clock := (\<lambda>n. 1), rt_uuid := (\<lambda>n. ''u'' @ show_nat n),
     db_index := empty_index\<lparr>tab_rules := [row_of_rule (sample_rule 1 5 True)]\<rparr>\<rparr>"

theorem Register_succeeds_witness:
  "\<exists>i w'. Register 50 sample_request sample_open = (Inr i, w') \<and> case_ExternalRef i = ''R9''
     \<and> case_Status i = StatusAdjudicated"
proof -
  have scan: "scanRule (row_of_rule (sample_rule 1 5 True)) = Inr (sample_rule 1 5 True)"
    by (rule rule_codec.scan_enc) (simp add: sample_rule_def rule_ok_def time_ok_def)
  have active: "rule_active_at (formatTime (rt_clock sample_open (rt_ticks sample_open))) (row_of_rule (sample_rule 1 5 True))"
    by (simp add: sample_open_def sample_world_def rule_active_at_def row_of_rule_def sample_rule_def formatTimeVal_def
        IsZero_def)
  have "\<exists>i w'. Register 50 sample_request sample_open = (Inr i, w')
      \<and> newly_registered sample_request i (db_index sample_open) (db_index w')
      \<and> scanItem (row_of_item i) = Inr i \<and> item_ok i"
  proof (rule Register_succeeds)
    show "mapE scanRule (sort_key rank_of (filter (rule_active_at (formatTime (rt_clock sample_open (rt_ticks sample_open))))
        (tab_rules (db_index sample_open)))) = Inr [sample_rule 1 5 True]"
      using scan active by (simp add: sample_open_def)
    show "\<exists>r \<in> set [sample_rule 1 5 True]. eligible (new_case sample_request (rt_uuid sample_open (rt_ids sample_open))
        (rt_clock sample_open (rt_ticks sample_open)) 50) r"
      by (simp add: eligible_def sample_open_def sample_rule_def new_case_def IsActiveAt_def Matches_def Before_def IsZero_def)
  qed (simp_all add: sample_open_def sample_world_def sample_request_def empty_index_def time_ok_def Add_def
       fresh_ids_def wrap64_def)
  then show ?thesis by (auto simp: newly_registered_def sample_request_def)
qed

end
