(* ===== verification/Rule_Service.thy ===== *)
theory Rule_Service
  imports Case_Service
begin

text \<open>
  The rule service of internal/service: a new version of the dispatch rules, which may
  supersede an earlier one, with its audit entries in one transaction.
\<close>

section \<open>Operations\<close>

record CreateRuleRequest =
  cr_Name :: string
  cr_Description :: string
  cr_MatchKeywords :: "string list"
  cr_MatchCategory :: string
  cr_LeadDepartment :: string
  cr_CoDepartments :: "string list"
  cr_Priority :: int
  cr_IsDefault :: bool
  cr_CreatedBy :: string
  cr_SupersedeVersion :: int

definition new_rule :: "CreateRuleRequest \<Rightarrow> int \<Rightarrow> time \<Rightarrow> rule" where
  "new_rule req version now = \<lparr>rule_Version = version, rule_Name = cr_Name req,
     rule_Description = cr_Description req, rule_MatchKeywords = cr_MatchKeywords req,
     rule_MatchCategory = cr_MatchCategory req, rule_LeadDepartment = cr_LeadDepartment req,
     rule_CoDepartments = cr_CoDepartments req, rule_Priority = cr_Priority req,
     rule_IsDefault = cr_IsDefault req, rule_EffectiveFrom = now, rule_EffectiveTo = zero_time,
     rule_Status = RuleStatusActive, rule_CreatedAt = now, rule_CreatedBy = cr_CreatedBy req,
     rule_ShardPath = '''', rule_DataVersion = DataVersion\<rparr>"

definition create_rule_tx :: "CreateRuleRequest \<Rightarrow> rule \<Rightarrow> time \<Rightarrow> (err, 'a world_scheme, rule) op" where
  \<comment> \<open>the function given to \<open>WithTx\<close> by \<open>CreateRule\<close>\<close>
  "create_rule_tx req rule now =
     bindM (if cr_SupersedeVersion req > 0 then
         bindM (mapErr (Wrap (''supersede rule v'' @ show_int (cr_SupersedeVersion req)))
           (SupersedeRule (cr_SupersedeVersion req))) (\<lambda>_.
         bindM (NewEntry (show_int (cr_SupersedeVersion req)) ''rule'' ActionRuleSupersede (cr_CreatedBy req) now
           (''superseded by v'' @ show_int (rule_Version rule))) (\<lambda>supAudit.
         bindM (mapErr (Wrap ''save supersede audit'') (SaveAudit supAudit)) (\<lambda>_. retM ())))
       else retM ()) (\<lambda>_.
     bindM (mapErr (Wrap ''save rule'') (SaveRule rule)) (\<lambda>rule.
     bindM (NewEntry (show_int (rule_Version rule)) ''rule'' ActionRuleCreate (cr_CreatedBy req) now
       (rule_Name rule)) (\<lambda>audit.
     bindM (SaveAudit audit) (\<lambda>_. retM rule))))"

definition CreateRule :: "CreateRuleRequest \<Rightarrow> (err, 'a world_scheme, rule) op" where
  "CreateRule req =
     (if cr_Name req = '''' then failM (Wrap ''rule name empty'' ErrValidation)
      else if cr_LeadDepartment req = '''' then failM (Wrap ''lead_department empty'' ErrValidation)
      else if cr_CreatedBy req = '''' then failM (Wrap ''created_by empty'' ErrValidation)
      else
        bindM (mapErr (Wrap ''get current version'') GetCurrentRuleVersion) (\<lambda>currentVersion.
        bindM Now (\<lambda>now.
        WithTx (create_rule_tx req (new_rule req (wrap64 (currentVersion + 1)) now) now))))"

section \<open>Creating a rule is a good step\<close>

lemma CreateRule_safe: "keeps safe (CreateRule req)"
  unfolding CreateRule_def create_rule_tx_def by (intro safe_rules NewEntry_safe)

end
