(* ===== verification/Rule_Facts.thy ===== *)
theory Rule_Facts
  imports Case_Facts Rule_Service
begin

text \<open>
  What the creation of a dispatch rule returns and writes, on every branch, and when it
  succeeds.
\<close>

section \<open>The outcome\<close>

lemma fold_max_ge: "(v::int) \<le> fold max vs v \<and> (\<forall>x \<in> set vs. x \<le> fold max vs v)"
proof (induction vs arbitrary: v)
  case (Cons x xs)
  from Cons [of "max x v"] show ?case by (auto simp: max.commute)
qed simp

lemma latest_version_ge: "row \<in> set (tab_rules ix) \<Longrightarrow> rule_Version row \<le> latest_version ix"
  using fold_max_ge by (cases "tab_rules ix") (auto simp: latest_version_def)

definition rule_created :: "CreateRuleRequest \<Rightarrow> rule \<Rightarrow> index \<Rightarrow> index \<Rightarrow> bool" where
  "rule_created req rl ix ix' \<longleftrightarrow>
     rule_Version rl = wrap64 (latest_version ix + 1) \<and> rule_Status rl = RuleStatusActive
     \<and> rule_LeadDepartment rl = cr_LeadDepartment req \<and> rule_Priority rl = cr_Priority req
     \<and> rule_Version rl \<notin> rule_Version ` set (tab_rules ix)
     \<and> (\<exists>t ds. ix' = (let old = (if cr_SupersedeVersion req > 0 then supersede_rule (cr_SupersedeVersion req) t ix else ix)
          in old\<lparr>tab_rules := tab_rules old @ [row_of_rule rl], tab_audit_entries := tab_audit_entries ix @ ds\<rparr>)
        \<and> map aud_Action ds = (if cr_SupersedeVersion req > 0 then [ActionRuleSupersede, ActionRuleCreate] else [ActionRuleCreate]))"

text \<open>The part of the transaction that takes an older rule out of force.\<close>

definition supersede_first :: "CreateRuleRequest \<Rightarrow> rule \<Rightarrow> time \<Rightarrow> (err, 'a world_scheme, unit) op" where
  "supersede_first req rl now =
     (if cr_SupersedeVersion req > 0 then
         bindM (mapErr (Wrap (''supersede rule v'' @ show_int (cr_SupersedeVersion req)))
           (SupersedeRule (cr_SupersedeVersion req))) (\<lambda>_.
         bindM (NewEntry (show_int (cr_SupersedeVersion req)) ''rule'' ActionRuleSupersede (cr_CreatedBy req) now
           (''superseded by v'' @ show_int (rule_Version rl))) (\<lambda>supAudit.
         bindM (mapErr (Wrap ''save supersede audit'') (SaveAudit supAudit)) (\<lambda>_. retM ())))
       else retM ())"

definition superseded_index :: "CreateRuleRequest \<Rightarrow> time \<Rightarrow> audit_row list \<Rightarrow> index \<Rightarrow> index" where
  "superseded_index req t ds ix = (let old = (if cr_SupersedeVersion req > 0 then supersede_rule (cr_SupersedeVersion req) t ix else ix)
     in old\<lparr>tab_audit_entries := tab_audit_entries ix @ ds\<rparr>)"

lemma supersede_first_effect:
  assumes "supersede_first req rl now w = (Inr u, w')"
  shows "\<exists>t ds. db_index w' = superseded_index req t ds (db_index w)
     \<and> map aud_Action ds = (if cr_SupersedeVersion req > 0 then [ActionRuleSupersede] else [])"
proof (cases "cr_SupersedeVersion req > 0")
  case True
  with assms obtain w2 :: "'a world_scheme" and x d where s: "SupersedeRule (cr_SupersedeVersion req) w = (Inr (), w2)"
    and e: "save_entry (show_int (cr_SupersedeVersion req)) ''rule'' ActionRuleSupersede (cr_CreatedBy req) now d w2 = (Inr x, w')"
    unfolding supersede_first_def fold_audit by (auto simp: bindM_Inr mapErr_Inr retM_Inr)
  obtain a where "audited (show_int (cr_SupersedeVersion req)) ''rule'' ActionRuleSupersede (cr_CreatedBy req) d a"
    "put_audit a (db_index w2) = Inr ((), db_index w')"
    using save_entry_effect [OF e] by blast
  with SupersedeRule_effect [OF s] True show ?thesis
    by (auto simp: put_Inr audited_def superseded_index_def supersede_rule_def intro!: exI [of _ "[a]"])
next
  case False
  with assms have "db_index w' = db_index w" by (simp add: supersede_first_def retM_def)
  with False show ?thesis by (intro exI [of _ 0] exI [of _ "[]"]) (simp add: superseded_index_def)
qed

lemma create_rule_tx_effect:
  assumes "create_rule_tx req rl now (w :: 'a world_scheme) = (Inr rl', w')"
    and "rule_Version rl = wrap64 (latest_version (db_index w) + 1)" "rule_Status rl = RuleStatusActive"
    "rule_LeadDepartment rl = cr_LeadDepartment req" "rule_Priority rl = cr_Priority req"
  shows "rule_created req rl' (db_index w) (db_index w')"
proof -
  let ?s = "cr_SupersedeVersion req"
  from assms(1) obtain w1 w2 :: "'a world_scheme" and x where "supersede_first req rl now w = (Inr (), w1)"
    and r: "SaveRule rl w1 = (Inr rl', w2)"
    and e: "save_entry (show_int (rule_Version rl')) ''rule'' ActionRuleCreate (cr_CreatedBy req) now (rule_Name rl') w2 = (Inr x, w')"
    unfolding create_rule_tx_def supersede_first_def [symmetric] unfolding fold_audit
    by (auto simp: bindM_Inr mapErr_Inr retM_Inr)
  from supersede_first_effect [OF this(1)] obtain t ds where ds: "db_index w1 = superseded_index req t ds (db_index w)"
      "map aud_Action ds = (if ?s > 0 then [ActionRuleSupersede] else [])" by blast
  obtain a where a: "aud_Action a = ActionRuleCreate" "put_audit a (db_index w2) = Inr ((), db_index w')"
    using save_entry_effect [OF e] by (auto simp: audited_def)
  have "map rule_Version (tab_rules (db_index w1)) = map rule_Version (tab_rules (db_index w))"
    using ds(1) by (simp add: superseded_index_def Let_def supersede_rule_def map_update_where)
  then have versions: "rule_Version ` set (tab_rules (db_index w1)) = rule_Version ` set (tab_rules (db_index w))"
    by (metis list.set_map)
  have "db_index w' = (let old = (if ?s > 0 then supersede_rule ?s t (db_index w) else db_index w)
          in old\<lparr>tab_rules := tab_rules old @ [row_of_rule rl'], tab_audit_entries := tab_audit_entries (db_index w) @ (ds @ [a])\<rparr>)"
    using SaveRule_effect [OF r] a(2) ds(1) by (auto simp: put_Inr Let_def superseded_index_def supersede_rule_def)
  moreover have "map aud_Action (ds @ [a]) = (if ?s > 0 then [ActionRuleSupersede, ActionRuleCreate] else [ActionRuleCreate])"
    using ds(2) a(1) by auto
  moreover have "rule_Version rl' = wrap64 (latest_version (db_index w) + 1) \<and> rule_Status rl' = RuleStatusActive
     \<and> rule_LeadDepartment rl' = cr_LeadDepartment req \<and> rule_Priority rl' = cr_Priority req
     \<and> rule_Version rl' \<notin> rule_Version ` set (tab_rules (db_index w))"
    using SaveRule_effect [OF r] assms(2-5) versions by (auto simp: put_Inr)
  ultimately show ?thesis unfolding rule_created_def by blast
qed

lemma GetCurrentRuleVersion_Inr: "GetCurrentRuleVersion w = (Inr v, w') \<Longrightarrow>
    v = latest_version (db_index w) \<and> db_index w' = db_index w"
  by (auto simp: GetCurrentRuleVersion_def latest_version_def op_results dest!: external_index)

lemma GetCurrentRuleVersion_index: "GetCurrentRuleVersion w = (r, w') \<Longrightarrow> db_index w' = db_index w"
  using keepsD [OF queries_read_only(8)] by (simp add: same_index_def)

lemma CreateRule_outcome_lemma:
  assumes "CreateRule req w = (r, w')"
  shows "case r of Inl e \<Rightarrow> db_index w' = db_index w | Inr rl \<Rightarrow> rule_created req rl (db_index w) (db_index w')"
proof (cases r)
  case (Inl e)
  with assms show ?thesis
    by (auto simp: CreateRule_def op_results Now_eq dest!: WithTx_Inl GetCurrentRuleVersion_index split: if_splits)
next
  case (Inr rl)
  with assms obtain v w1 now where g: "GetCurrentRuleVersion w = (Inr v, w1)"
    and tx: "WithTx (create_rule_tx req (new_rule req (wrap64 (v + 1)) now) now) (w1\<lparr>rt_ticks := Suc (rt_ticks w1)\<rparr>) = (Inr rl, w')"
    by (auto simp: CreateRule_def op_results Now_eq split: if_splits)
  note v = GetCurrentRuleVersion_Inr [OF g]
  obtain w2 w3 :: "'a world_scheme" where w2: "db_index w2 = db_index w" and w3: "db_index w' = db_index w3"
    and "create_rule_tx req (new_rule req (wrap64 (v + 1)) now) now w2 = (Inr rl, w3)"
    using WithTx_InrD [OF tx] v by auto
  from create_rule_tx_effect [OF this(3)] w2 w3 v Inr show ?thesis by (simp add: new_rule_def)
qed

lemma CreateRule_append_only: "keeps append_only (CreateRule req)"
  unfolding CreateRule_def create_rule_tx_def NewEntry_def Let_def by (intro append_only_all)

text \<open>
  C16: Creating a rule either fails and leaves the index as it was (a line that it has appended to a
  shard stays there), or adds one active rule whose version is one more than the highest version so
  far, as 64-bit arithmetic counts; the version was not in use. If the request names a version to
  supersede, the rows of that version are superseded in the same step and an audit entry says so
  before the one for the new rule; all other rows are what they were. In both cases every line of a
  shard stays as it is.
\<close>

theorem CreateRule_outcome:
  "case CreateRule req w of (r, w') \<Rightarrow> append_only w w' \<and> (case r of
      Inl e \<Rightarrow> db_index w' = db_index w
    | Inr rl \<Rightarrow> rule_created req rl (db_index w) (db_index w'))"
  using keepsD [OF CreateRule_append_only, of req w]
  by (cases "CreateRule req w") (use CreateRule_outcome_lemma [of req w] in auto)

lemma CreateRule_succeeds:
  assumes "rt_faults w = []" and "cr_Name req \<noteq> ''''" "cr_LeadDepartment req \<noteq> ''''" "cr_CreatedBy req \<noteq> ''''"
    and "cr_SupersedeVersion req \<le> 0" and "latest_version (db_index w) + 1 < 2 ^ 63" "0 \<le> latest_version (db_index w)"
    and "time_ok (rt_clock w (rt_ticks w))"
    and "rt_uuid w (rt_ids w) \<notin> aud_ID ` set (tab_audit_entries (db_index w))"
  shows "succeeds (CreateRule req) (\<lambda>rl w'. rt_faults w' = [] \<and> rule_created req rl (db_index w) (db_index w')
     \<and> rt_clock w' = rt_clock w \<and> rt_uuid w' = rt_uuid w \<and> rt_ids w' = rt_ids w + 1
     \<and> (\<exists>now. rt_clock w (rt_ticks w) = now \<and> (\<exists>p. rl = (new_rule req (latest_version (db_index w) + 1) now)\<lparr>rule_ShardPath := p\<rparr>))) w"
proof -
  let ?v = "latest_version (db_index w) + 1"
  have v: "wrap64 ?v = ?v" using assms(6,7) by (intro wrap64_id) (simp add: int64_def)
  have cur: "succeeds GetCurrentRuleVersion Q w \<longleftrightarrow> Q (latest_version (db_index w)) w" for Q
    using assms(1) by (simp add: succeeds_def GetCurrentRuleVersion_def latest_version_def bindM_def external_def getM_def)
  have new: "?v \<notin> rule_Version ` set (tab_rules (db_index w))"
    using latest_version_ge [of _ "db_index w"] by force
  have "succeeds (CreateRule req) (\<lambda>rl w'. rt_faults w' = [] \<and> rt_clock w' = rt_clock w \<and> rt_uuid w' = rt_uuid w
      \<and> rt_ids w' = rt_ids w + 1
      \<and> (\<exists>p. rl = (new_rule req ?v (rt_clock w (rt_ticks w)))\<lparr>rule_ShardPath := p\<rparr>)) w"
    using assms(2-4)
    by (simp add: CreateRule_def succeeds_seq cur v, intro succeeds_WithTx)
       (use assms new in \<open>auto simp: create_rule_tx_def succeeds_seq NewEntry_def writable_def new_rule_def
          time_ok_def intro!: succeeds_SaveRule succeeds_SaveAudit\<close>)
  then show ?thesis
    using CreateRule_outcome_lemma [of req w] by (force simp: succeeds_def)
qed

end
