(* ===== verification/Query_Service.thy ===== *)
theory Query_Service
  imports Case_Service
begin

text \<open>
  The batch and query services of internal/service: import of many registrations, each on its
  own, with one batch record at the end; export; the detail of a case; the backlog; and the
  retry of a recorded failure.
\<close>

section \<open>Batch import and export\<close>

record BatchImportRequest =
  bq_StoreID :: string
  bq_Items :: "RegisterItemRequest list"

fun import_rows ::
  "duration \<Rightarrow> int \<Rightarrow> RegisterItemRequest list \<Rightarrow> BatchImportResult \<Rightarrow> (err, 'a world_scheme, BatchImportResult) op" where
  \<comment> \<open>the loop over the rows; an error is recorded and the loop goes on\<close>
  "import_rows deadline i [] result = retM result"
| "import_rows deadline i (itemReq # items) result =
     bindM (tryM (Register deadline itemReq)) (\<lambda>r. case r of
       Inl e \<Rightarrow> import_rows deadline (i + 1) items
         (result\<lparr>bi_Results := bi_Results result @ [\<lparr>br_RowIndex = i, br_ExternalRef = rq_ExternalRef itemReq,
             br_Success = False, br_ItemID = '''', br_Error = errText e\<rparr>],
           bi_FailureCount := bi_FailureCount result + 1\<rparr>)
     | Inr it \<Rightarrow> import_rows deadline (i + 1) items
         (result\<lparr>bi_Results := bi_Results result @ [\<lparr>br_RowIndex = i, br_ExternalRef = rq_ExternalRef itemReq,
             br_Success = True, br_ItemID = case_ID it, br_Error = ''''\<rparr>],
           bi_SuccessCount := bi_SuccessCount result + 1\<rparr>))"

definition import_tx :: "time ImportBatch \<Rightarrow> string \<Rightarrow> time \<Rightarrow> BatchImportResult \<Rightarrow> (err, 'a world_scheme, unit) op" where
  \<comment> \<open>the function given to \<open>WithTx\<close> by \<open>Import\<close>\<close>
  "import_tx batch storeID now result =
     bindM (mapErr (Wrap ''save batch'') (SaveBatch batch)) (\<lambda>_.
     bindM (NewEntry (batch_ID batch) ''batch'' ActionBatchImport storeID now
       (show_int (bi_SuccessCount result) @ '' success, '' @ show_int (bi_FailureCount result) @ '' fail'')) (\<lambda>audit.
     bindM (SaveAudit audit) (\<lambda>_. retM ())))"

definition Import :: "duration \<Rightarrow> BatchImportRequest \<Rightarrow> (err, 'a world_scheme, BatchImportResult) op" where
  "Import deadline req =
     bindM Now (\<lambda>now.
     bindM NewString (\<lambda>batchID.
     bindM (import_rows deadline 0 (bq_Items req) \<lparr>bi_BatchID = batchID, bi_TotalRows = int (length (bq_Items req)),
         bi_SuccessCount = 0, bi_FailureCount = 0, bi_Results = []\<rparr>) (\<lambda>result.
     bindM (mapErr (Wrap ''save import batch'') (WithTx (import_tx
         \<lparr>batch_ID = bi_BatchID result, batch_StoreID = bq_StoreID req, batch_BatchDate = now,
           batch_TotalRows = bi_TotalRows result, batch_SuccessCount = bi_SuccessCount result,
           batch_FailureCount = bi_FailureCount result, batch_ImportedAt = now, batch_ShardPath = '''',
           batch_DataVersion = DataVersion\<rparr> (bq_StoreID req) now result))) (\<lambda>_.
     retM result))))"

definition Export :: "time \<Rightarrow> time \<Rightarrow> (err, 'a world_scheme, item list \<times> int) op" where
  "Export from to = ListItems \<lparr>if_Status = StatusOther '''', if_LeadDepartment = '''', if_StoreID = '''',
     if_RegisteredBy = '''', if_From = from, if_To = to, if_OverdueOnly = False, if_PageSize = 1000,
     if_PageOffset = 0\<rparr>"

section \<open>Queries\<close>

record ItemDetail =
  det_Item :: item
  det_Assignments :: "time Referral list"
  det_Escalations :: "time Escalation list"
  det_Audit :: "time AuditEntry list"

definition GetItemDetail :: "string \<Rightarrow> (err, 'a world_scheme, ItemDetail) op" where
  "GetItemDetail itemID =
     bindM (mapErr (Wrap ''get item'') (GetItemByID itemID)) (\<lambda>i.
     bindM (mapErr (Wrap ''get assignments'') (GetAssignmentsByItemID itemID)) (\<lambda>assignments.
     bindM (mapErr (Wrap ''get escalations'') (GetEscalationsByItemID itemID)) (\<lambda>escalations.
     bindM (mapErr (Wrap ''list audit'') (ListAudit \<lparr>af_EntityID = itemID, af_EntityType = '''', af_Actor = '''',
        af_From = zero_time, af_To = zero_time, af_PageSize = 100, af_PageOffset = 0\<rparr>)) (\<lambda>(audit, total).
     retM \<lparr>det_Item = i, det_Assignments = assignments, det_Escalations = escalations, det_Audit = audit\<rparr>))))"

record BacklogStats =
  bl_StatusCounts :: "(ItemStatus \<times> int) list"
  bl_OverdueCount :: int
  bl_OverdueItems :: "item list"

definition GetBacklog :: "(err, 'a world_scheme, BacklogStats) op" where
  "GetBacklog =
     bindM (mapErr (Wrap ''count by status'') CountByStatus) (\<lambda>counts.
     bindM Now (\<lambda>now.
     bindM (mapErr (Wrap ''find overdue'') (FindOverdueItems now 999)) (\<lambda>overdue.
     retM \<lparr>bl_StatusCounts = counts, bl_OverdueCount = int (length overdue), bl_OverdueItems = overdue\<rparr>)))"

definition retry_tx :: "time PermanentFailure \<Rightarrow> string \<Rightarrow> string \<Rightarrow> time \<Rightarrow> (err, 'a world_scheme, unit) op" where
  \<comment> \<open>the function given to \<open>WithTx\<close> by \<open>RetryFailure\<close>\<close>
  "retry_tx failure failureID actor now =
     bindM (mapErr (Wrap ''update failure'') (tx_UpdateFailure failure)) (\<lambda>_.
     bindM (NewEntry failureID ''failure'' ActionFailureRetry actor now '''') (\<lambda>audit.
     bindM (SaveAudit audit) (\<lambda>_. retM ())))"

definition RetryFailure :: "string \<Rightarrow> string \<Rightarrow> (err, 'a world_scheme, unit) op" where
  "RetryFailure failureID actor =
     bindM (mapErr (Wrap ''get failure'') (GetFailureByID failureID)) (\<lambda>failure.
     bindM Now (\<lambda>now.
     WithTx (retry_tx (failure\<lparr>fail_Status := FailureStatusRetried, fail_ResolvedAt := Some now\<rparr>)
       failureID actor now)))"

section \<open>Good steps\<close>

lemma import_rows_safe: "keeps safe (import_rows deadline i items result)"
  by (induction deadline i items result rule: import_rows.induct)
     (auto intro!: safe.keeps_all Register_safe)

lemma Import_safe: "keeps safe (Import deadline req)"
  unfolding Import_def import_tx_def by (intro safe_rules NewEntry_safe import_rows_safe)

lemma RetryFailure_safe: "keeps safe (RetryFailure failureID actor)"
  unfolding RetryFailure_def retry_tx_def by (intro safe_rules NewEntry_safe)

lemma queries_same:
  "keeps same_index (GetItemDetail itemID)" "keeps same_index GetBacklog" "keeps same_index (Export from to)"
  unfolding GetItemDetail_def GetBacklog_def Export_def
  by (intro same_index.keeps_all queries_read_only same_Now; auto split: prod.split intro: same_index.keeps_all)+

section \<open>The length of a page\<close>

lemma length_page: "0 \<le> limit \<Longrightarrow> 0 \<le> offset \<Longrightarrow>
    int (length (page limit offset rows)) = max 0 (min limit (int (length rows) - offset))"
  by (auto simp: page_def)

lemma count_rows_Inr: "count_rows tab p w = (Inr n, w') \<Longrightarrow>
    n = int (length (filter p (tab (db_index w)))) \<and> db_index w' = db_index w"
  by (auto simp: count_rows_def bindM_Inr getM_eq dest!: external_index)

lemma ListItems_length:
  assumes "ListItems flt w = (Inr (items, n), w')"
  shows "int (length items) = max 0 (min (item_page_size (if_PageSize flt)) (n - page_offset (if_PageOffset flt)))"
proof -
  obtain now w1 w2 where now: "(if if_OverdueOnly flt then WallNow else retM zero_time) w = (Inr now, w1)"
    and n: "mapErr (Wrap ''count items'') (count_rows tab_items (item_where flt now)) w1 = (Inr n, w2)"
    and q: "query_rows (Wrap ''query items'') (\<lambda>ix. page (item_page_size (if_PageSize flt)) (page_offset (if_PageOffset flt))
            (sort_desc case_RegisteredAt (filter (item_where flt now) (tab_items ix)))) scanItem w2 = (Inr items, w')"
    using assms unfolding ListItems_def listed_items_def by (auto simp: bindM_Inr retM_Inr)
  from count_rows_Inr [OF n [unfolded mapErr_Inr]] have n': "n = int (length (filter (item_where flt now) (tab_items (db_index w2))))"
    by simp
  have "length items = length (page (item_page_size (if_PageSize flt)) (page_offset (if_PageOffset flt))
            (sort_desc case_RegisteredAt (filter (item_where flt now) (tab_items (db_index w2)))))"
    using query_rows_Inr [OF q] by (auto dest: list_all2_lengthD)
  moreover have "0 \<le> item_page_size (if_PageSize flt)" "0 \<le> page_offset (if_PageOffset flt)"
    by (simp_all add: item_page_size_def page_offset_def Let_def)
  ultimately show ?thesis by (simp add: length_page n')
qed

lemma Export_length:
  assumes "Export from to w = (Inr (items, n), w')"
  shows "int (length items) = max 0 (min 200 n)"
  using ListItems_length [OF assms [unfolded Export_def]]
  by (simp add: item_page_size_def page_offset_def)

end
