(* ===== verification/Escalation_Service.thy ===== *)
theory Escalation_Service
  imports Case_Service
begin

text \<open>
  The escalation service of internal/service: every overdue case moves one level up, to a
  supervisor of its lead department, with a new deadline, a new current referral, an escalation
  record and an audit entry in one transaction. The service's fields are a record.
\<close>

section \<open>Operations\<close>

record EscalationService =
  es_deadlineExtension :: duration
  es_maxLevel :: int

definition escalation_of :: "item \<Rightarrow> string \<Rightarrow> int \<Rightarrow> string \<Rightarrow> time \<Rightarrow> time \<Rightarrow> time Escalation" where
  "escalation_of i escID newLevel newLead now newDeadline = \<lparr>esc_ID = escID, esc_ItemID = case_ID i,
     esc_FromLevel = case_EscalationLevel i, esc_ToLevel = newLevel, esc_OldLeadDept = case_LeadDepartment i,
     esc_NewLeadDept = newLead, esc_EscalatedAt = now, esc_Reason = ''deadline_exceeded'',
     esc_NewDeadline = newDeadline, esc_ShardPath = '''', esc_DataVersion = DataVersion\<rparr>"

definition escalation_referral :: "item \<Rightarrow> string \<Rightarrow> string \<Rightarrow> time \<Rightarrow> time Referral" where
  "escalation_referral i refID newLead now = \<lparr>ref_ID = refID, ref_ItemID = case_ID i,
     ref_LeadDepartment = newLead, ref_CoDepartments = case_CoDepartments i,
     ref_RuleVersion = case_RuleVersion i, ref_AdjudicatedAt = now, ref_AdjudicatedBy = ''system_escalation'',
     ref_IsCurrent = True, ref_ShardPath = '''', ref_DataVersion = DataVersion\<rparr>"

definition escalate_tx ::
  "item \<Rightarrow> time Escalation \<Rightarrow> time Referral \<Rightarrow> time \<Rightarrow> (err, 'a world_scheme, time Escalation) op" where
  \<comment> \<open>the function given to \<open>WithTx\<close> by \<open>escalateItem\<close>\<close>
  "escalate_tx i esc referral now =
     bindM (mapErr (Wrap ''save escalation'') (SaveEscalation esc)) (\<lambda>esc.
     bindM (mapErr (Wrap ''mark referral superseded'') (MarkAssignmentSuperseded (case_ID i))) (\<lambda>_.
     bindM (mapErr (Wrap ''save escalation referral'') (SaveAssignment referral)) (\<lambda>_.
     bindM (mapErr (Wrap ''update item'') (tx_UpdateItem i)) (\<lambda>_.
     bindM (NewEntry (case_ID i) ''item'' ActionEscalate ''system'' now
        (''level '' @ show_int (esc_FromLevel esc) @ ''->'' @ show_int (esc_ToLevel esc) @ '' lead ''
          @ esc_OldLeadDept esc @ ''->'' @ esc_NewLeadDept esc)) (\<lambda>audit.
     bindM (SaveAudit audit) (\<lambda>_. retM esc))))))"

definition escalateItem ::
  "EscalationService \<Rightarrow> item \<Rightarrow> time \<Rightarrow> (err, 'a world_scheme, time Escalation) op" where
  "escalateItem s i now =
     (let newLevel = wrap64 (case_EscalationLevel i + 1) in
      if newLevel > es_maxLevel s then
        failM (Wrap (''item '' @ case_ID i @ '' at level '' @ show_int (case_EscalationLevel i)) ErrMaxEscalationReached)
      else
      let newLead = EscalationDepartmentName (case_LeadDepartment i) newLevel;
          newDeadline = Add now (es_deadlineExtension s)
      in bindM NewString (\<lambda>escID.
         bindM NewString (\<lambda>refID.
         let esc = escalation_of i escID newLevel newLead now newDeadline;
             referral = escalation_referral i refID newLead now;
             i = i\<lparr>case_LeadDepartment := newLead, case_EscalationLevel := newLevel, case_Deadline := newDeadline\<rparr>
         in bindM (liftE (TransitionTo i StatusEscalated)) (\<lambda>i.
            WithTx (escalate_tx (i\<lparr>case_UpdatedAt := now\<rparr>) esc referral now)))))"

definition failure_tx ::
  "time PermanentFailure \<Rightarrow> string \<Rightarrow> time \<Rightarrow> err \<Rightarrow> (err, 'a world_scheme, unit) op" where
  "failure_tx failure itemID now cause =
     bindM (mapErr (Wrap ''save failure'') (SaveFailure failure)) (\<lambda>_.
     bindM (NewEntry itemID ''item'' ''max_escalation_reached'' ''system'' now (errText cause)) (\<lambda>audit.
     bindM (SaveAudit audit) (\<lambda>_. retM ())))"

definition recordPermanentFailure ::
  "EscalationService \<Rightarrow> item \<Rightarrow> time \<Rightarrow> err \<Rightarrow> (err, 'a world_scheme, unit) op" where
  "recordPermanentFailure s i now cause = bindM NewString (\<lambda>failID.
     WithTx (failure_tx \<lparr>fail_ID = failID, fail_EntityType = ''item'', fail_EntityID = case_ID i,
       fail_TaskType = ''escalation'', fail_LastError = errText cause, fail_Attempts = es_maxLevel s,
       fail_FirstFailedAt = case_RegisteredAt i, fail_LastFailedAt = now, fail_Status = FailureStatusActive,
       fail_ResolvedAt = None, fail_NextRetryAt = None, fail_BackoffState = '''', fail_DataVersion = DataVersion\<rparr>
       (case_ID i) now cause))"

text \<open>
  The escalations made so far are returned together with the error, if there is one.
\<close>

fun escalate_all ::
  "EscalationService \<Rightarrow> time \<Rightarrow> item list \<Rightarrow> time Escalation list \<Rightarrow>
     (err, 'a world_scheme, time Escalation list \<times> err option) op" where
  "escalate_all s now [] done = retM (done, None)"
| "escalate_all s now (i # items) done =
     bindM (tryM (escalateItem s i now)) (\<lambda>r. case r of
       Inl e \<Rightarrow>
         if errIs e ErrMaxEscalationReached then
           bindM (tryM (recordPermanentFailure s i now e)) (\<lambda>f. case f of
             Inl ferr \<Rightarrow> retM (done, Some ferr)
           | Inr _ \<Rightarrow> escalate_all s now items done)
         else retM (done, Some (Wrap (''escalate item '' @ case_ID i) e))
     | Inr esc \<Rightarrow> escalate_all s now items (done @ [esc]))"

definition CheckAndEscalate ::
  "EscalationService \<Rightarrow> (err, 'a world_scheme, time Escalation list \<times> err option) op" where
  "CheckAndEscalate s =
     bindM Now (\<lambda>now.
     bindM (tryM (FindOverdueItems now (es_maxLevel s))) (\<lambda>r. case r of
       Inl e \<Rightarrow> retM ([], Some (Wrap ''find overdue items'' e))
     | Inr overdue \<Rightarrow> escalate_all s now overdue []))"

section \<open>The effect of an escalation\<close>

lemma escalate_tx_effect:
  assumes "escalate_tx i esc referral now w = (Inr esc', w')"
  obtains a d ix0 ix1 where "\<exists>p. esc' = esc\<lparr>esc_ShardPath := p\<rparr>"
    and "put_escalation (row_of_escalation esc') (db_index w) = Inr ((), ix0)"
    and "\<exists>p. a = referral\<lparr>ref_ShardPath := p\<rparr>"
    and "put_assignment (row_of_referral a) (supersede_assignments (case_ID i) ix0) = Inr ((), ix1)"
    and "aud_EntityID d = case_ID i \<and> aud_Action d = ActionEscalate"
    and "put_audit d (update_item i ix1) = Inr ((), db_index w')"
proof -
  obtain a i' details e and w1 w2 w3 w4 :: "'a world_scheme"
    where s: "SaveEscalation esc w = (Inr esc', w1)" "MarkAssignmentSuperseded (case_ID i) w1 = (Inr (), w2)"
      "SaveAssignment referral w2 = (Inr a, w3)" "tx_UpdateItem i w3 = (Inr i', w4)"
    and rest: "save_entry (case_ID i) ''item'' ActionEscalate ''system'' now details w4 = (Inr e, w')"
    using assms unfolding escalate_tx_def fold_audit by (auto simp: op_results)
  obtain d where d: "audited (case_ID i) ''item'' ActionEscalate ''system'' details d"
    "put_audit d (db_index w4) = Inr ((), db_index w')"
    using save_entry_effect [OF rest] by blast
  show thesis
    using SaveEscalation_effect [OF s(1)] update_effect(3) [OF s(2)] SaveAssignment_effect [OF s(3)]
      tx_UpdateItem_effect [OF s(4)] d
    by (intro that [of "db_index w1" a "db_index w3" d]) (auto simp: audited_def)
qed

lemma row_of_escalation_fields [simp]: "esc_ItemID (row_of_escalation e) = esc_ItemID e"
  by (simp add: row_of_escalation_def)

lemma escalate_tx_good:
  assumes "escalate_tx i esc referral now w = (Inr esc', w')"
    and "find_key case_ID (case_ID i) (tab_items (db_index w)) = Some row"
    and "esc_ItemID esc = case_ID i" "ref_ItemID referral = case_ID i" "ref_IsCurrent referral"
    "ref_LeadDepartment referral = case_LeadDepartment i" "ref_CoDepartments referral = case_CoDepartments i"
    "ref_RuleVersion referral = case_RuleVersion i" "case_EscalationLevel i = case_EscalationLevel row + 1"
    "CanTransition\<^sup>*\<^sup>* (case_Status row) (case_Status i)" "stored_status (case_Status i)"
  shows "good_step (db_index w) (db_index w')
    \<and> tab_items (db_index w') = update_where (\<lambda>r. case_ID r = case_ID i) (set_item i) (tab_items (db_index w))"
  using assms(1)
proof (rule escalate_tx_effect)
  fix a d ix0 ix1
  assume e: "\<exists>p. esc' = esc\<lparr>esc_ShardPath := p\<rparr>"
    and p: "put_escalation (row_of_escalation esc') (db_index w) = Inr ((), ix0)"
    and a: "\<exists>p. a = referral\<lparr>ref_ShardPath := p\<rparr>"
    and q: "put_assignment (row_of_referral a) (supersede_assignments (case_ID i) ix0) = Inr ((), ix1)"
    and d: "put_audit d (update_item i ix1) = Inr ((), db_index w')"
  have "good_step (db_index w) (update_item i ix1)"
  proof (rule good_move [where esc = "[row_of_escalation esc']"])
    show "[row_of_escalation esc'] = [] \<and> ix0 = db_index w \<or>
      (\<exists>e v. [row_of_escalation esc'] = [e] \<and> esc_ItemID e = case_ID i \<and> put_escalation e (db_index w) = Inr (v, ix0))"
      using p e assms(3) by auto
    show "find_key case_ID (case_ID i) (tab_items (db_index w)) = Some row" by (rule assms(2))
    show "put_assignment (row_of_referral a) (supersede_assignments (case_ID i) ix0) = Inr ((), ix1)" by (rule q)
  qed (use a assms in auto)
  also have "good_step \<dots> (db_index w')" using d by (rule good_put(1))
  finally have "good_step (db_index w) (db_index w')" .
  moreover have "tab_items (db_index w') = tab_items (update_item i ix1)"
    "tab_items ix1 = tab_items (db_index w)"
    using p q d by (auto simp: put_Inr)
  ultimately show ?thesis by (simp add: update_item_def)
qed

lemma escalateItem_Inl: "escalateItem s i now w = (Inl e, w') \<Longrightarrow> db_index w' = db_index w"
  by (auto simp: escalateItem_def Let_def bindM_liftE failM_def dest!: WithTx_Inl split: if_split_asm sum.split_asm)

definition escalated_case :: "EscalationService \<Rightarrow> time \<Rightarrow> item \<Rightarrow> item" where
  "escalated_case s now i = i\<lparr>case_LeadDepartment := EscalationDepartmentName (case_LeadDepartment i) (case_EscalationLevel i + 1),
     case_EscalationLevel := case_EscalationLevel i + 1, case_Deadline := Add now (es_deadlineExtension s),
     case_Status := StatusEscalated, case_UpdatedAt := now\<rparr>"

lemma escalateItem_tx:
  assumes "escalateItem s i now w = (Inr esc, w')"
    and "0 \<le> case_EscalationLevel i" "case_EscalationLevel i < es_maxLevel s" "int64 (es_maxLevel s)"
  shows "(case_Status i = StatusEscalated \<or> CanTransition (case_Status i) StatusEscalated)
    \<and> WithTx (escalate_tx (escalated_case s now i)
        (escalation_of i (rt_uuid w (rt_ids w)) (case_EscalationLevel i + 1)
          (EscalationDepartmentName (case_LeadDepartment i) (case_EscalationLevel i + 1)) now (Add now (es_deadlineExtension s)))
        (escalation_referral i (rt_uuid w (Suc (rt_ids w)))
          (EscalationDepartmentName (case_LeadDepartment i) (case_EscalationLevel i + 1)) now) now)
      (w\<lparr>rt_ids := Suc (Suc (rt_ids w))\<rparr>) = (Inr esc, w')"
proof -
  have "wrap64 (case_EscalationLevel i + 1) = case_EscalationLevel i + 1"
    using assms(2-4) by (intro wrap64_id) (simp add: int64_def)
  with assms(1,3) show ?thesis
    by (auto simp: escalateItem_def escalated_case_def Let_def bindM_liftE TransitionTo_Inr_iff split: sum.split_asm)
qed

lemma escalateItem_good:
  assumes run: "escalateItem s i now w = (r, w')" and i: "read_from (db_index w) i"
    and s: "sound_index (db_index w)" and level: "case_EscalationLevel i < es_maxLevel s" and m: "int64 (es_maxLevel s)"
  shows "sound_index (db_index w') \<and> evolves (db_index w) (db_index w')
    \<and> (\<forall>k. k \<noteq> case_ID i \<longrightarrow> find_key case_ID k (tab_items (db_index w')) = find_key case_ID k (tab_items (db_index w)))"
proof (cases r)
  case (Inl e)
  with run have "db_index w' = db_index w" by (simp add: escalateItem_Inl)
  with s show ?thesis by (simp add: evolves_refl)
next
  case (Inr esc)
  obtain row where row: "find_key case_ID (case_ID i) (tab_items (db_index w)) = Some row" "scanItem row = Inr i"
    using i by (auto simp: read_from_def)
  note f = scanItem_fields [OF row(2)]
  have "0 \<le> case_EscalationLevel i"
    using level_of_row [OF s row(1)] f by simp
  let ?lead = "EscalationDepartmentName (case_LeadDepartment i) (case_EscalationLevel i + 1)"
  let ?i = "escalated_case s now i"
  let ?esc = "escalation_of i (rt_uuid w (rt_ids w)) (case_EscalationLevel i + 1) ?lead now (Add now (es_deadlineExtension s))"
  let ?ref = "escalation_referral i (rt_uuid w (Suc (rt_ids w))) ?lead now"
  from escalateItem_tx [OF run [unfolded Inr] \<open>0 \<le> case_EscalationLevel i\<close> level m]
  have tx: "WithTx (escalate_tx ?i ?esc ?ref now) (w\<lparr>rt_ids := Suc (Suc (rt_ids w))\<rparr>) = (Inr esc, w')"
    and path: "CanTransition\<^sup>*\<^sup>* (case_Status i) StatusEscalated" by auto
  from WithTx_InrD [OF tx] obtain w2 w3 :: "'a world_scheme" where w2: "db_index w2 = db_index w"
    and run2: "escalate_tx ?i ?esc ?ref now w2 = (Inr esc, w3)" and w3: "db_index w' = db_index w3"
    by auto
  have "good_step (db_index w2) (db_index w3)
    \<and> tab_items (db_index w3) = update_where (\<lambda>r. case_ID r = case_ID ?i) (set_item ?i) (tab_items (db_index w2))"
    by (rule escalate_tx_good [OF run2, where row = row])
       (use row f path w2 in \<open>simp_all add: escalated_case_def escalation_of_def escalation_referral_def stored_status_def\<close>)
  then show ?thesis
    using s w2 w3 by (auto simp: good_step_def find_key_update_where map_option_case escalated_case_def dest: find_key_Some split: option.split)
qed

lemma recordPermanentFailure_safe: "keeps safe (recordPermanentFailure s i now cause)"
  unfolding recordPermanentFailure_def failure_tx_def by (intro safe_rules NewEntry_safe)

lemma failure_tx_items: "failure_tx f k now cause w = (Inr u, w') \<Longrightarrow>
    tab_items (db_index w') = tab_items (db_index w)"
  unfolding failure_tx_def fold_audit
  by (auto simp: op_results put_Inr dest!: SaveFailure_effect save_entry_effect)

lemma recordPermanentFailure_items: "recordPermanentFailure s i now cause w = (r, w') \<Longrightarrow>
    tab_items (db_index w') = tab_items (db_index w)"
  by (cases r) (auto simp: recordPermanentFailure_def dest!: WithTx_Inl WithTx_InrD failure_tx_items)

lemma recordPermanentFailure_good:
  "recordPermanentFailure s i now cause w = (r, w') \<Longrightarrow>
     good_step (db_index w) (db_index w') \<and> tab_items (db_index w') = tab_items (db_index w)"
  using keepsD [OF recordPermanentFailure_safe] recordPermanentFailure_items unfolding safe_def by blast

text \<open>After one case the round goes on with the others, or it ends with an error.\<close>

lemma escalate_all_step:
  assumes run: "escalate_all s now (i # items) done w = (r, w')"
  obtains (goes_on) d and w2 :: "'a world_scheme" where "escalate_all s now items d w2 = (r, w')"
      "good_step (db_index (snd (escalateItem s i now w))) (db_index w2)"
      "tab_items (db_index w2) = tab_items (db_index (snd (escalateItem s i now w)))"
  | (ends) escs e where "r = Inr (escs, Some e)"
      "good_step (db_index (snd (escalateItem s i now w))) (db_index w')"
      "tab_items (db_index w') = tab_items (db_index (snd (escalateItem s i now w)))"
proof -
  obtain x w1 where x: "escalateItem s i now w = (x, w1)" by (cases "escalateItem s i now w")
  show thesis
  proof (cases x)
    case (Inr esc)
    with run x have "escalate_all s now items (done @ [esc]) w1 = (r, w')" by (simp add: bindM_def tryM_def)
    then show thesis by (rule goes_on) (simp_all add: x)
  next
    case (Inl e)
    obtain y w2 where y: "recordPermanentFailure s i now e w1 = (y, w2)"
      by (cases "recordPermanentFailure s i now e w1")
    note f = recordPermanentFailure_good [OF y]
    from run x Inl y have "escalate_all s now items done w2 = (r, w')
        \<or> (\<exists>escs e. r = Inr (escs, Some e)) \<and> (w' = w1 \<or> w' = w2)"
      by (cases y; cases "errIs e ErrMaxEscalationReached") (auto simp: bindM_def tryM_def retM_def)
    then show thesis
    proof
      assume "escalate_all s now items done w2 = (r, w')"
      then show thesis by (rule goes_on) (use f x in simp_all)
    next
      assume "(\<exists>escs e. r = Inr (escs, Some e)) \<and> (w' = w1 \<or> w' = w2)"
      then show thesis by (elim conjE exE) (rule ends, assumption, use f x in auto)
    qed
  qed
qed

lemma escalate_all_good:
  assumes "escalate_all s now items done w = (r, w')" and "sound_index (db_index w)"
    and "\<forall>i \<in> set items. read_from (db_index w) i \<and> case_EscalationLevel i < es_maxLevel s"
    and "distinct (map case_ID items)" and "int64 (es_maxLevel s)"
  shows "sound_index (db_index w') \<and> evolves (db_index w) (db_index w')"
  using assms(1-4)
proof (induction items arbitrary: "done" w)
  case Nil
  then show ?case by (auto simp: retM_def evolves_refl)
next
  case (Cons i items)
  let ?w1 = "snd (escalateItem s i now w)"
  have step: "sound_index (db_index ?w1)" "evolves (db_index w) (db_index ?w1)"
    "\<And>k. k \<noteq> case_ID i \<Longrightarrow> find_key case_ID k (tab_items (db_index ?w1)) = find_key case_ID k (tab_items (db_index w))"
    using escalateItem_good [OF prod.collapse [symmetric] _ Cons.prems(2) _ assms(5)] Cons.prems(3) by auto
  from Cons.prems(1) show ?case
  proof (cases rule: escalate_all_step)
    case (goes_on d w2)
    have "read_from (db_index w2) j" if j: "j \<in> set items" for j
    proof -
      have "case_ID i \<notin> case_ID ` set items" using Cons.prems(4) by simp
      with j have "case_ID j \<noteq> case_ID i" by (metis imageI)
      with j goes_on(3) step(3) Cons.prems(3) show ?thesis by (simp add: read_from_def)
    qed
    with goes_on(2) step(1,2) Cons.prems(3,4) show ?thesis
      using Cons.IH [OF goes_on(1)] by (auto simp: good_step_def intro: evolves_trans)
  next
    case (ends escs e)
    with step(1,2) show ?thesis by (auto simp: good_step_def intro: evolves_trans)
  qed
qed

lemma FindOverdueItems_Inr:
  assumes "FindOverdueItems now maxLevel w = (Inr items, w')" and "wf_index (db_index w)"
  shows "db_index w' = db_index w \<and> distinct (map case_ID items)
    \<and> (\<forall>i \<in> set items. read_from (db_index w) i \<and> case_EscalationLevel i < maxLevel)"
proof -
  let ?sel = "sort_key case_Deadline (filter (\<lambda>r. live_status (case_Status r)
        \<and> case_Deadline r < formatTime now \<and> case_EscalationLevel r < maxLevel) (tab_items (db_index w)))"
  have same: "db_index w' = db_index w" and sc: "list_all2 (\<lambda>row i. scanItem row = Inr i) ?sel items"
    using query_rows_Inr assms(1) unfolding FindOverdueItems_def overdue_items_def by fastforce+
  have "map case_ID items = map case_ID ?sel"
    using sc by (rule scan_ids)
  moreover have "distinct (map case_ID ?sel)"
  proof -
    have "distinct (map case_ID (tab_items (db_index w)))" using assms(2) unfolding wf_index_def by blast
    then show ?thesis by (rule distinct_sorted_filter)
  qed
  moreover have "read_from (db_index w) i \<and> case_EscalationLevel i < maxLevel" if "i \<in> set items" for i
  proof -
    from sc that obtain row where row: "row \<in> set ?sel" "scanItem row = Inr i"
      by (auto dest: list_all2_right)
    have "items_by_id.unique (db_index w)" using assms(2) by (simp add: items_by_id.unique_def wf_index_def)
    with row have "find_key case_ID (case_ID row) (tab_items (db_index w)) = Some row"
      by (intro items_by_id.find_unique) simp_all
    with row scanItem_fields [OF row(2)] show ?thesis by (auto simp: read_from_def)
  qed
  ultimately show ?thesis using same by simp
qed

lemma CheckAndEscalate_safe:
  assumes "int64 (es_maxLevel s)"
  shows "keeps safe (CheckAndEscalate s)"
proof (rule keepsI, unfold safe_def good_step_def, rule impI)
  fix w r w'
  assume run: "CheckAndEscalate s w = (r, w')" and sound: "sound_index (db_index w)"
  then have wf: "wf_index (db_index w)" by (simp add: sound_index_def)
  let ?now = "rt_clock w (rt_ticks w)" and ?w = "w\<lparr>rt_ticks := Suc (rt_ticks w)\<rparr>"
  obtain x w1 where x: "FindOverdueItems ?now (es_maxLevel s) ?w = (x, w1)"
    by (cases "FindOverdueItems ?now (es_maxLevel s) ?w")
  show "sound_index (db_index w') \<and> evolves (db_index w) (db_index w')"
  proof (cases x)
    case (Inl e)
    then have "db_index w' = db_index w"
      using run x keepsD [OF queries_read_only(4) x]
      by (simp add: CheckAndEscalate_def bindM_def [of "tryM _"] tryM_def retM_def same_index_def)
    with sound show ?thesis by (simp add: evolves_refl)
  next
    case (Inr items)
    then have "escalate_all s ?now items [] w1 = (r, w')"
      using run x by (simp add: CheckAndEscalate_def bindM_def [of "tryM _"] tryM_def)
    moreover have "db_index w1 = db_index w \<and> distinct (map case_ID items)
      \<and> (\<forall>i \<in> set items. read_from (db_index w) i \<and> case_EscalationLevel i < es_maxLevel s)"
      using FindOverdueItems_Inr [of ?now "es_maxLevel s" ?w items w1] x Inr wf by simp
    ultimately show ?thesis using escalate_all_good [of s ?now items "[]" w1 r w'] sound assms by simp
  qed
qed

end
