(* ===== verification/Worker.thy ===== *)
theory Worker
  imports Rule_Service
begin

text \<open>
  The package internal/worker: the sweep that gives cases, which no one has begun to work on,
  to the departments of the rules that are active now. The counters of the worker are fields
  of the state. \<open>worker_tick\<close> is what the goroutine does for one tick; the goroutine itself is in
  \<open>Process\<close>.
\<close>

section \<open>State\<close>

record workers = world +
  wk_running :: bool \<comment> \<open>\<open>runMu\<close> is locked\<close>
  wk_cycles :: int
  wk_reevaled :: int
  wk_skipped :: int
  wk_failed :: int

definition add_reevaled :: "(err, 'a workers_scheme, unit) op" where
  "add_reevaled w = (Inr (), w\<lparr>wk_reevaled := wrap64 (wk_reevaled w + 1)\<rparr>)"

definition add_skipped :: "(err, 'a workers_scheme, unit) op" where
  "add_skipped w = (Inr (), w\<lparr>wk_skipped := wrap64 (wk_skipped w + 1)\<rparr>)"

definition add_failed :: "(err, 'a workers_scheme, unit) op" where
  "add_failed w = (Inr (), w\<lparr>wk_failed := wrap64 (wk_failed w + 1)\<rparr>)"

section \<open>Operations\<close>

definition reevaluableStatuses :: "ItemStatus list" where
  "reevaluableStatuses = [StatusRegistered, StatusAdjudicated]"

definition sweepPageSize :: int where
  "sweepPageSize = 200"

definition isReevaluable :: "ItemStatus \<Rightarrow> bool" where
  "isReevaluable s \<longleftrightarrow> list_ex (\<lambda>r. s = r) reevaluableStatuses"

definition reeval_tx :: "item \<Rightarrow> time Referral \<Rightarrow> int \<Rightarrow> time \<Rightarrow> (err, 'a world_scheme, unit) op" where
  \<comment> \<open>the function given to \<open>WithTx\<close> by \<open>reevaluateItem\<close>\<close>
  "reeval_tx fresh referral oldVersion now =
     bindM (mapErr (Wrap ''supersede old referral'') (MarkAssignmentSuperseded (case_ID fresh))) (\<lambda>_.
     bindM (mapErr (Wrap ''save new referral'') (SaveAssignment referral)) (\<lambda>_.
     bindM (mapErr (Wrap ''update item'') (tx_UpdateItem fresh)) (\<lambda>_.
     bindM (NewEntry (case_ID fresh) ''item'' ActionRuleReevaluated ''system'' now
       (''rule v'' @ show_int oldVersion @ ''->v'' @ show_int (ref_RuleVersion referral) @ '' lead ''
         @ ref_LeadDepartment referral)) (\<lambda>audit.
     bindM (SaveAudit audit) (\<lambda>_. retM ())))))"

definition reroute :: "item \<Rightarrow> time Referral \<Rightarrow> (err, 'a workers_scheme, unit) op" where
  \<comment> \<open>the case takes the new routing, in one transaction\<close>
  "reroute fresh referral =
     bindM Now (\<lambda>now.
     bindM (if case_Status fresh = StatusRegistered then
         mapErr (Wrap (''transition item '' @ case_ID fresh)) (liftE (TransitionTo fresh StatusAdjudicated))
       else retM fresh) (\<lambda>fresh'.
     bindM (mapErr (Wrap (''reeval tx for '' @ case_ID fresh)) (WithTx (reeval_tx
         (fresh'\<lparr>case_LeadDepartment := ref_LeadDepartment referral,
           case_CoDepartments := ref_CoDepartments referral,
           case_RuleVersion := ref_RuleVersion referral, case_UpdatedAt := now\<rparr>)
         referral (case_RuleVersion fresh) now))) (\<lambda>_.
     add_reevaled)))"

definition reeval_loaded :: "item \<Rightarrow> rule list \<Rightarrow> int \<Rightarrow> (err, 'a workers_scheme, unit) op" where
  \<comment> \<open>what \<open>reevaluateItem\<close> does with the case it has read\<close>
  "reeval_loaded fresh rules currentVersion =
     (if case_RuleVersion fresh \<ge> currentVersion then add_skipped
     else if IsTerminal (case_Status fresh) then add_skipped
     else if \<not> isReevaluable (case_Status fresh) then add_skipped
     else bindM (tryM (Adjudicate fresh rules)) (\<lambda>r. case r of
       Inl e \<Rightarrow> if errIs e ErrNoMatchingRule then add_skipped
         else failM (Wrap (''adjudicate item '' @ case_ID fresh) e)
     | Inr referral \<Rightarrow> reroute fresh referral))"

definition reevaluateItem ::
  "item \<Rightarrow> rule list \<Rightarrow> int \<Rightarrow> (err, 'a workers_scheme, unit) op" where
  "reevaluateItem i rules currentVersion =
     bindM (mapErr (Wrap (''reload item '' @ case_ID i)) (GetItemByID (case_ID i))) (\<lambda>fresh.
     reeval_loaded fresh rules currentVersion)"

text \<open>
  The loop over the pages of one status. Each page that is full moves the offset on; the fuel
  bounds the number of pages, and \<open>collect_pages_enough\<close> below shows that one page more than
  the number of rows is enough.
\<close>

fun collect_pages ::
  "nat \<Rightarrow> ItemStatus \<Rightarrow> int \<Rightarrow> int \<Rightarrow> item list \<Rightarrow> (err, 'a world_scheme, item list option) op" where
  "collect_pages 0 status currentVersion offset stale = retM None"
| "collect_pages (Suc fuel) status currentVersion offset stale =
     bindM (mapErr (Wrap (''list '' @ status_name status @ '' items offset '' @ show_int offset))
       (ListItems \<lparr>if_Status = status, if_LeadDepartment = '''', if_StoreID = '''', if_RegisteredBy = '''',
          if_From = zero_time, if_To = zero_time, if_OverdueOnly = False, if_PageSize = sweepPageSize,
          if_PageOffset = offset\<rparr>)) (\<lambda>(items, total).
     let stale = stale @ filter (\<lambda>it. case_RuleVersion it < currentVersion) items in
     if int (length items) < sweepPageSize then retM (Some stale)
     else collect_pages fuel status currentVersion (offset + sweepPageSize) stale)"

fun collect_statuses ::
  "nat \<Rightarrow> ItemStatus list \<Rightarrow> int \<Rightarrow> item list \<Rightarrow> (err, 'a world_scheme, item list option) op" where
  "collect_statuses fuel [] currentVersion stale = retM (Some stale)"
| "collect_statuses fuel (s # ss) currentVersion stale =
     bindM (collect_pages fuel s currentVersion 0 stale) (\<lambda>r. case r of
       None \<Rightarrow> retM None
     | Some stale' \<Rightarrow> collect_statuses fuel ss currentVersion stale')"

definition page_fuel :: "'a db_scheme \<Rightarrow> nat" where
  "page_fuel w = Suc (length (tab_items (db_index w)))"

definition collectStaleItems :: "int \<Rightarrow> (err, 'a world_scheme, item list option) op" where
  "collectStaleItems currentVersion =
     bindM (getM page_fuel) (\<lambda>fuel. collect_statuses fuel reevaluableStatuses currentVersion [])"

fun sweep_items :: "item list \<Rightarrow> rule list \<Rightarrow> int \<Rightarrow> (err, 'a workers_scheme, unit) op" where
  "sweep_items [] rules current = retM ()"
| "sweep_items (i # items) rules current =
     bindM (mapErr (\<lambda>e. Wrap ''sweep canceled'' (Join e ErrRuleReeval)) external) (\<lambda>_.
     bindM (tryM (reevaluateItem i rules current)) (\<lambda>r. case r of
       Inl e \<Rightarrow> bindM add_failed (\<lambda>_. sweep_items items rules current)
     | Inr _ \<Rightarrow> sweep_items items rules current))"

definition sweep :: "(err, 'a workers_scheme, unit) op" where
  "sweep =
     bindM (mapErr (\<lambda>e. Wrap ''get current rule version'' (Join e ErrRuleReeval)) GetCurrentRuleVersion) (\<lambda>current.
     if current = 0 then retM ()
     else
       bindM Now (\<lambda>now.
       bindM (mapErr (\<lambda>e. Wrap ''get active rules'' (Join e ErrRuleReeval)) (GetActiveRules now)) (\<lambda>rules.
       bindM (mapErr (\<lambda>e. Wrap ''collect stale items'' (Join e ErrRuleReeval)) (collectStaleItems current)) (\<lambda>stale.
       case stale of None \<Rightarrow> retM () | Some stale \<Rightarrow> sweep_items stale rules current))))"

definition RunOnce :: "(err, 'a workers_scheme, unit) op" where
  \<comment> \<open>a call that finds another sweep running is skipped\<close>
  "RunOnce w = (if wk_running w then add_skipped w
     else (case sweep (w\<lparr>wk_running := True\<rparr>) of (r, w') \<Rightarrow> (r, w'\<lparr>wk_running := False\<rparr>)))"

definition count_cycle :: "(err, 'a workers_scheme, unit) op" where
  "count_cycle w = (Inr (), w\<lparr>wk_cycles := wrap64 (wk_cycles w + 1)\<rparr>)"

definition worker_tick :: "(err, 'a workers_scheme, unit) op" where
  \<comment> \<open>the second branch of the \<open>select\<close> in the loop\<close>
  "worker_tick =
     bindM count_cycle (\<lambda>_.
     bindM (tryM RunOnce) (\<lambda>r. case r of Inl e \<Rightarrow> add_failed | Inr _ \<Rightarrow> retM ()))"

section \<open>Collecting the stale cases\<close>

definition status_rows :: "ItemStatus \<Rightarrow> index \<Rightarrow> item_row list" where
  "status_rows s ix = sort_desc case_RegisteredAt (filter (\<lambda>r. status_name (case_Status r) = status_name s) (tab_items ix))"

definition status_filter :: "ItemStatus \<Rightarrow> int \<Rightarrow> ItemFilter" where
  "status_filter s offset = \<lparr>if_Status = s, if_LeadDepartment = '''', if_StoreID = '''', if_RegisteredBy = '''',
     if_From = zero_time, if_To = zero_time, if_OverdueOnly = False, if_PageSize = sweepPageSize,
     if_PageOffset = offset\<rparr>"

lemma status_rows_le: "length (status_rows s ix) \<le> length (tab_items ix)"
  by (simp add: status_rows_def)

lemma ListItems_page:
  assumes "ListItems (status_filter s offset) w = (Inr (items, n), w')" and "status_name s \<noteq> ''''" and "0 \<le> offset"
  shows "db_index w' = db_index w
    \<and> list_all2 (\<lambda>row i. scanItem row = Inr i) (take 200 (drop (nat offset) (status_rows s (db_index w)))) items"
proof -
  have p: "item_where (status_filter s offset) zero_time = (\<lambda>r. status_name (case_Status r) = status_name s)"
    using assms(2) by (auto simp: item_where_def status_filter_def IsZero_def fun_eq_iff)
  have q: "item_page_size (if_PageSize (status_filter s offset)) = 200"
    "page_offset (if_PageOffset (status_filter s offset)) = offset" "if_OverdueOnly (status_filter s offset) = False"
    using assms(3) by (simp_all add: item_page_size_def page_offset_def status_filter_def sweepPageSize_def)
  obtain w1 where "count_rows tab_items (\<lambda>r. status_name (case_Status r) = status_name s) w = (Inr n, w1)"
    and "query_rows (Wrap ''query items'') (\<lambda>ix. page 200 offset (status_rows s ix)) scanItem w1 = (Inr items, w')"
    using assms(1) unfolding ListItems_def listed_items_def q by (auto simp: p op_results status_rows_def)
  moreover from this(1) have "db_index w1 = db_index w"
    using keepsD [OF same_count_rows] unfolding same_index_def by blast
  ultimately show ?thesis by (auto simp: page_def dest!: query_rows_Inr)
qed

lemma list_all2_split: "list_all2 P (take n xs) ys \<Longrightarrow> list_all2 P (drop n xs) zs \<Longrightarrow> list_all2 P xs (ys @ zs)"
  by (metis append_take_drop_id list_all2_appendI)

lemma collect_pages_Inr:
  assumes "collect_pages fuel s v offset stale w = (Inr r, w')" and "status_name s \<noteq> ''''" and "0 \<le> offset"
  shows "db_index w' = db_index w \<and>
    (case r of
       None \<Rightarrow> 200 * int fuel + offset \<le> int (length (status_rows s (db_index w))) \<or> fuel = 0
     | Some out \<Rightarrow> \<exists>new. out = stale @ filter (\<lambda>it. case_RuleVersion it < v) new
         \<and> list_all2 (\<lambda>row i. scanItem row = Inr i) (drop (nat offset) (status_rows s (db_index w))) new)"
  using assms
proof (induction fuel arbitrary: offset stale w)
  case 0
  then show ?case by (auto simp: retM_Inr)
next
  case (Suc fuel)
  let ?rows = "status_rows s (db_index w)"
  obtain items n w1 where L: "ListItems (status_filter s offset) w = (Inr (items, n), w1)"
    and rest: "(if int (length items) < sweepPageSize then retM (Some (stale @ filter (\<lambda>it. case_RuleVersion it < v) items))
       else collect_pages fuel s v (offset + sweepPageSize) (stale @ filter (\<lambda>it. case_RuleVersion it < v) items)) w1
       = (Inr r, w')"
    using Suc.prems(1) by (auto simp: bindM_Inr mapErr_Inr status_filter_def Let_def)
  have same: "db_index w1 = db_index w"
    and items: "list_all2 (\<lambda>row i. scanItem row = Inr i) (take 200 (drop (nat offset) ?rows)) items"
    using ListItems_page [OF L Suc.prems(2,3)] by auto
  from items have len: "length items = min 200 (length ?rows - nat offset)" by (auto dest!: list_all2_lengthD)
  show ?case
  proof (cases "int (length items) < sweepPageSize")
    case True
    then have "take 200 (drop (nat offset) ?rows) = drop (nat offset) ?rows"
      using len by (intro take_all) (simp add: sweepPageSize_def)
    with True rest items same show ?thesis by (auto simp: retM_Inr)
  next
    case False
    then have full: "nat offset + 200 \<le> length ?rows" using len by (simp add: sweepPageSize_def)
    have off: "nat (offset + sweepPageSize) = nat offset + 200" using Suc.prems(3) by (simp add: sweepPageSize_def nat_add_distrib)
    have "0 \<le> offset + sweepPageSize" using Suc.prems(3) by (simp add: sweepPageSize_def)
    moreover from False rest have "collect_pages fuel s v (offset + sweepPageSize)
        (stale @ filter (\<lambda>it. case_RuleVersion it < v) items) w1 = (Inr r, w')" by simp
    ultimately have ih: "db_index w' = db_index w \<and>
      (case r of None \<Rightarrow> 200 * int fuel + (offset + sweepPageSize) \<le> int (length ?rows) \<or> fuel = 0
       | Some out \<Rightarrow> \<exists>new. out = (stale @ filter (\<lambda>it. case_RuleVersion it < v) items) @ filter (\<lambda>it. case_RuleVersion it < v) new
         \<and> list_all2 (\<lambda>row i. scanItem row = Inr i) (drop (nat offset + 200) ?rows) new)"
      using Suc.IH [OF _ Suc.prems(2)] unfolding off [symmetric] same [symmetric] by blast
    show ?thesis
    proof (cases r)
      case None
      then show ?thesis using ih full Suc.prems(3) by (auto simp: sweepPageSize_def)
    next
      case (Some out)
      with ih obtain new where new: "out = stale @ filter (\<lambda>it. case_RuleVersion it < v) (items @ new)"
        "list_all2 (\<lambda>row i. scanItem row = Inr i) (drop (nat offset + 200) ?rows) new" by auto
      have "list_all2 (\<lambda>row i. scanItem row = Inr i) (drop (nat offset) ?rows) (items @ new)"
        using list_all2_split [OF items] new(2) by (simp add: add.commute)
      with new(1) have "\<exists>new. out = stale @ filter (\<lambda>it. case_RuleVersion it < v) new
          \<and> list_all2 (\<lambda>row i. scanItem row = Inr i) (drop (nat offset) ?rows) new" by blast
      then show ?thesis using Some ih by simp
    qed
  qed
qed

lemma collect_pages_enough:
  assumes "collect_pages (page_fuel w) s v 0 stale w0 = (Inr r, w')" and "db_index w0 = db_index w" and "status_name s \<noteq> ''''"
  shows "\<exists>new. r = Some (stale @ filter (\<lambda>it. case_RuleVersion it < v) new)
    \<and> list_all2 (\<lambda>row i. scanItem row = Inr i) (status_rows s (db_index w)) new \<and> db_index w' = db_index w"
proof (cases r)
  case None
  then show ?thesis
    using collect_pages_Inr [OF assms(1,3)] status_rows_le [of s "db_index w"] assms(2) by (simp add: page_fuel_def)
next
  case (Some out)
  then show ?thesis using collect_pages_Inr [OF assms(1,3)] assms(2) by simp
qed

text \<open>When nothing fails and the rows can be read, the sweep's reading succeeds.\<close>

definition readable :: "index \<Rightarrow> bool" where
  "readable ix \<longleftrightarrow> (\<forall>row \<in> set (tab_items ix). \<exists>i. scanItem row = Inr i)"

lemma mapE_scannable: "\<forall>row \<in> set rows. \<exists>x. f row = Inr x \<Longrightarrow> \<exists>xs. mapE f rows = Inr xs"
  by (induction rows) auto

lemma ListItems_quiet:
  assumes "rt_faults w = []" and "readable (db_index w)" and "\<not> if_OverdueOnly flt"
  shows "\<exists>p. ListItems flt w = (Inr p, w)"
proof -
  let ?rows = "page (item_page_size (if_PageSize flt)) (page_offset (if_PageOffset flt))
            (sort_desc case_RegisteredAt (filter (item_where flt zero_time) (tab_items (db_index w))))"
  have "set ?rows \<subseteq> set (tab_items (db_index w))"
    unfolding page_def by (auto dest!: in_set_takeD in_set_dropD)
  with assms(2) obtain xs where "mapE scanItem ?rows = Inr xs"
    using mapE_scannable [of ?rows scanItem] unfolding readable_def by blast
  with assms(1,3) show ?thesis
    by (simp add: ListItems_def listed_items_def count_rows_def query_rows_def bindM_def mapErr_def external_def getM_def liftE_def retM_def)
qed

lemma collect_pages_quiet:
  assumes "rt_faults w = []" and "readable (db_index w)"
  shows "\<exists>r. collect_pages fuel s v offset stale w = (Inr r, w)"
proof (induction fuel arbitrary: offset stale)
  case (Suc fuel)
  obtain items n where L: "ListItems (status_filter s offset) w = (Inr (items, n), w)"
    using ListItems_quiet [OF assms] by (fastforce simp: status_filter_def)
  with Suc show ?case by (simp add: status_filter_def bindM_def mapErr_def Let_def retM_def)
qed (simp add: retM_def)

lemma collectStaleItems_quiet:
  assumes "rt_faults w = []" and "readable (db_index w)"
  shows "\<exists>r. collectStaleItems v w = (Inr r, w)"
proof -
  have "\<exists>r. collect_statuses fuel ss v stale w = (Inr r, w)" for fuel ss stale
  proof (induction ss arbitrary: stale)
    case (Cons s ss)
    obtain r where "collect_pages fuel s v 0 stale w = (Inr r, w)" using collect_pages_quiet [OF assms] by blast
    with Cons show ?case by (cases r) (simp_all add: bindM_def retM_def)
  qed (simp add: retM_def)
  then show ?thesis by (simp add: collectStaleItems_def)
qed

definition stale_row :: "int \<Rightarrow> item_row \<Rightarrow> bool" where
  "stale_row v r \<longleftrightarrow> isReevaluable (case_Status r) \<and> case_RuleVersion r < v"

lemma scanned_filter:
  "list_all2 (\<lambda>row i. scanItem row = Inr i) rows items \<Longrightarrow>
     list_all2 (\<lambda>row i. scanItem row = Inr i) (filter (\<lambda>r. case_RuleVersion r < v) rows)
       (filter (\<lambda>i. case_RuleVersion i < v) items)"
  by (induction rule: list_all2_induct) (auto dest: scanItem_fields)

lemma mset_status_rows: "mset (status_rows s ix) = filter_mset (\<lambda>r. status_name (case_Status r) = status_name s) (mset (tab_items ix))"
  by (simp add: status_rows_def)

lemma collectStaleItems_exact:
  assumes "collectStaleItems v w = (Inr r, w')"
    and "\<forall>row \<in> set (tab_items (db_index w)). known_status (case_Status row)"
  shows "\<exists>stale rows. r = Some stale \<and> mset rows = filter_mset (stale_row v) (mset (tab_items (db_index w)))
     \<and> list_all2 (\<lambda>row i. scanItem row = Inr i) rows stale \<and> db_index w' = db_index w"
proof -
  let ?S = "\<lambda>row i. scanItem row = Inr i" and ?f = "filter (\<lambda>it. case_RuleVersion it < v)"
  let ?rows = "\<lambda>s. filter (\<lambda>r. case_RuleVersion r < v) (status_rows s (db_index w))"
  obtain r1 and w1 :: "'a world_scheme" where
    a: "collect_pages (page_fuel w) StatusRegistered v 0 [] w = (Inr r1, w1)"
    and b: "(case r1 of None \<Rightarrow> retM None | Some stale \<Rightarrow> collect_statuses (page_fuel w) [StatusAdjudicated] v stale) w1 = (Inr r, w')"
    using assms(1) by (auto simp: collectStaleItems_def reevaluableStatuses_def bindM_Inr)
  obtain n1 where n1: "r1 = Some (?f n1)" "list_all2 ?S (status_rows StatusRegistered (db_index w)) n1" "db_index w1 = db_index w"
    using collect_pages_enough [OF a] by auto
  with b obtain r2 and w2 :: "'a world_scheme" where
    c: "collect_pages (page_fuel w) StatusAdjudicated v 0 (?f n1) w1 = (Inr r2, w2)" "r = r2" "w' = w2 \<or> r2 = None"
    by (auto simp: bindM_Inr retM_Inr split: option.splits)
  obtain n2 where n2: "r2 = Some (?f n1 @ ?f n2)" "list_all2 ?S (status_rows StatusAdjudicated (db_index w)) n2" "db_index w2 = db_index w"
    using collect_pages_enough [OF c(1) n1(3)] by auto
  have "list_all2 ?S (?rows StatusRegistered @ ?rows StatusAdjudicated) (?f n1 @ ?f n2)"
    using scanned_filter [OF n1(2)] scanned_filter [OF n2(2)] by (rule list_all2_appendI)
  moreover have "mset (?rows StatusRegistered @ ?rows StatusAdjudicated) = filter_mset (stale_row v) (mset (tab_items (db_index w)))"
  proof -
    have "stale_row v x \<longleftrightarrow> case_RuleVersion x < v
        \<and> (status_name (case_Status x) = ''registered'' \<or> status_name (case_Status x) = ''adjudicated'')"
      if "x \<in># mset (tab_items (db_index w))" for x
      using that assms(2) by (cases "case_Status x")
        (auto simp: stale_row_def isReevaluable_def reevaluableStatuses_def known_status_iff)
    then show ?thesis
      by (simp add: mset_status_rows filter_filter_mset union_filter_mset_complement)
        (rule multiset_eqI, auto)
  qed
  ultimately show ?thesis
    using n2 c(2,3)
    by (intro exI [of _ "?f n1 @ ?f n2"] exI [of _ "?rows StatusRegistered @ ?rows StatusAdjudicated"]) auto
qed

text \<open>
  C30: A sweep looks at every stale case exactly once: when the pages have been read, the list of
  cases is the list of those registered or adjudicated cases that were routed under an older
  version, each as often as it is in the table; paging loses none and repeats none, the loop
  over the pages ends, and the index is only read. It does read the pages when no call fails
  and the rows can be parsed.
\<close>

theorem collectStaleItems_complete:
  assumes "\<forall>row \<in> set (tab_items (db_index w)). known_status (case_Status row)"
  shows "(rt_faults w = [] \<and> readable (db_index w) \<longrightarrow> (\<exists>r. collectStaleItems v w = (Inr r, w)))
     \<and> (\<forall>r w'. collectStaleItems v w = (Inr r, w') \<longrightarrow>
         (\<exists>stale rows. r = Some stale \<and> mset rows = filter_mset (stale_row v) (mset (tab_items (db_index w)))
            \<and> list_all2 (\<lambda>row i. scanItem row = Inr i) rows stale \<and> db_index w' = db_index w))"
  using collectStaleItems_quiet collectStaleItems_exact [OF _ assms] by blast

definition sample_stale :: world where
  "sample_stale = sample_world\<lparr>db_index := empty_index\<lparr>tab_items :=
     [row_of_item (sample_case\<lparr>case_Status := StatusAdjudicated, case_RuleVersion := 1\<rparr>)]\<rparr>\<rparr>"

theorem collectStaleItems_complete_witness:
  "\<exists>i. collectStaleItems 2 sample_stale = (Inr (Some [i]), sample_stale) \<and> case_ID i = ''i1''"
proof -
  let ?i = "sample_case\<lparr>case_Status := StatusAdjudicated, case_RuleVersion := 1\<rparr>"
  have rows: "tab_items (db_index sample_stale) = [row_of_item ?i]" by (simp add: sample_stale_def)
  have ok: "scanItem (row_of_item ?i) = Inr ?i"
    by (rule item_codec.scan_enc) (simp add: item_ok_def sample_case_def opt_time_ok_def time_ok_def)
  have "known_status (case_Status (row_of_item ?i))" by (simp add: row_of_item_def known_status_def)
  then have P: "\<exists>r. collectStaleItems 2 sample_stale = (Inr r, sample_stale)"
    and Q: "\<And>r w'. collectStaleItems 2 sample_stale = (Inr r, w') \<Longrightarrow>
      (\<exists>stale rows. r = Some stale \<and> mset rows = filter_mset (stale_row 2) {# row_of_item ?i #}
            \<and> list_all2 (\<lambda>row i. scanItem row = Inr i) rows stale)"
    using collectStaleItems_complete [of sample_stale 2] ok rows
    by (auto simp: readable_def sample_stale_def sample_world_def)
  obtain r where r: "collectStaleItems 2 sample_stale = (Inr r, sample_stale)" using P by blast
  have stale: "filter_mset (stale_row 2) {# row_of_item ?i #} = {# row_of_item ?i #}"
    by (simp add: stale_row_def row_of_item_def isReevaluable_def reevaluableStatuses_def)
  from Q [OF r] obtain stale rows' where s: "r = Some stale" "mset rows' = {# row_of_item ?i #}"
    "list_all2 (\<lambda>row i. scanItem row = Inr i) rows' stale" unfolding stale by blast
  then have "stale = [?i]" using ok by (auto simp: list_all2_Cons1)
  with r s(1) show ?thesis by (simp add: sample_case_def)
qed

section \<open>A sweep is a good step\<close>

lemma counters_same: "keeps same_index add_reevaled" "keeps same_index add_skipped" "keeps same_index add_failed"
  by (simp_all add: keeps_def same_index_def add_reevaled_def add_skipped_def add_failed_def)

lemma reeval_tx_good:
  assumes "reeval_tx i referral v now w = (Inr u, w')"
    and "find_key case_ID (case_ID i) (tab_items (db_index w)) = Some row"
    and "ref_ItemID referral = case_ID i" "ref_IsCurrent referral"
    "ref_LeadDepartment referral = case_LeadDepartment i" "ref_CoDepartments referral = case_CoDepartments i"
    "ref_RuleVersion referral = case_RuleVersion i" "case_EscalationLevel i = case_EscalationLevel row"
    "CanTransition\<^sup>*\<^sup>* (case_Status row) (case_Status i)" "stored_status (case_Status i)"
  shows "good_step (db_index w) (db_index w')"
proof -
  obtain a i' details e and w2 w3 w4 :: "'a world_scheme"
    where s: "MarkAssignmentSuperseded (case_ID i) w = (Inr (), w2)"
      "SaveAssignment referral w2 = (Inr a, w3)" "tx_UpdateItem i w3 = (Inr i', w4)"
    and rest: "save_entry (case_ID i) ''item'' ActionRuleReevaluated ''system'' now details w4 = (Inr e, w')"
    using assms(1) unfolding reeval_tx_def fold_audit by (auto simp: op_results)
  obtain d where d: "put_audit d (db_index w4) = Inr ((), db_index w')"
    using save_entry_effect [OF rest] by blast
  have "good_step (db_index w) (update_item i (db_index w3))"
  proof (rule good_move [where esc = "[]"])
    show "find_key case_ID (case_ID i) (tab_items (db_index w)) = Some row" by (rule assms(2))
    show "put_assignment (row_of_referral a) (supersede_assignments (case_ID i) (db_index w)) = Inr ((), db_index w3)"
      using update_effect(3) [OF s(1)] SaveAssignment_effect [OF s(2)] by simp
  qed (use SaveAssignment_effect [OF s(2)] assms in auto)
  also have "good_step \<dots> (db_index w')" using d tx_UpdateItem_effect [OF s(3)] good_put(1) by metis
  finally show ?thesis .
qed

lemma reroute_safe:
  assumes "find_key case_ID (case_ID i) (tab_items (db_index w)) = Some row" and "scanItem row = Inr i"
    and "ref_ItemID referral = case_ID i" "ref_IsCurrent referral" and "isReevaluable (case_Status i)"
    and "reroute i referral w = (r, w')"
  shows "good_step (db_index w) (db_index w')"
proof -
  let ?now = "rt_clock w (rt_ticks w)" and ?w = "w\<lparr>rt_ticks := Suc (rt_ticks w)\<rparr>"
    and ?g = "Wrap (''reeval tx for '' @ case_ID i)" and ?v = "case_RuleVersion i"
  let ?s = "if case_Status i = StatusRegistered then StatusAdjudicated else case_Status i"
  let ?i = "i\<lparr>case_Status := ?s, case_LeadDepartment := ref_LeadDepartment referral,
     case_CoDepartments := ref_CoDepartments referral, case_RuleVersion := ref_RuleVersion referral, case_UpdatedAt := ?now\<rparr>"
  have path: "CanTransition\<^sup>*\<^sup>* (case_Status i) ?s" and st: "stored_status ?s"
    using assms(5) by (auto simp: isReevaluable_def reevaluableStatuses_def stored_status_def CanTransition_iff)
  have "i = i\<lparr>case_Status := case_Status i\<rparr>" by simp
  then have run: "bindM (mapErr ?g (WithTx (reeval_tx ?i referral ?v ?now))) (\<lambda>_. add_reevaled) ?w = (r, w')"
    using assms(6)
    by (auto simp: reroute_def TransitionTo_def ValidateTransition_def CanTransition_def
        bindM_def [of "mapErr _ (liftE _)"] mapErr_def [of _ "liftE _"]
        liftE_def bindM_def [of "retM i"] retM_def split: if_split_asm)
  obtain x w1 where x: "WithTx (reeval_tx ?i referral ?v ?now) ?w = (x, w1)"
    by (cases "WithTx (reeval_tx ?i referral ?v ?now) ?w")
  have "db_index w' = db_index w1"
    using run x keepsD [OF counters_same(1)] by (auto simp: bindM_def mapErr_def same_index_def split: sum.splits)
  moreover have "good_step (db_index ?w) (db_index w1)"
    using x
  proof (rule WithTx_good)
    fix w0 a w2
    assume "db_index w0 = db_index ?w" and t: "reeval_tx ?i referral ?v ?now w0 = (Inr a, w2)"
    then show "good_step (db_index w0) (db_index w2)"
      using assms(1-4) path st scanItem_fields [OF assms(2)]
      by (intro reeval_tx_good [OF t, where row = row]) simp_all
  qed
  ultimately show ?thesis by simp
qed

lemma reevaluateItem_safe: "keeps safe (reevaluateItem i rules v)"
  unfolding reevaluateItem_def
proof (rule get_then_safe)
  fix fresh row w r w'
  assume row: "find_key case_ID (case_ID i) (tab_items (db_index w)) = Some row" "scanItem row = Inr fresh"
    and run: "reeval_loaded fresh rules v w = (r, w')"
  have id: "case_ID fresh = case_ID i" using scanItem_fields [OF row(2)] find_key_Some [OF row(1)] by simp
  obtain x w1 where x: "Adjudicate fresh rules w = (x, w1)" by (cases "Adjudicate fresh rules w")
  have same: "db_index w1 = db_index w" using keepsD [OF Adjudicate_same x] by (simp add: same_index_def)
  have skip: "db_index w'' = db_index w" if "add_skipped w = (r, w'') \<or> add_skipped w1 = (r, w'')" for w''
    using that same keepsD [OF counters_same(2)] unfolding same_index_def by metis
  from run [unfolded reeval_loaded_def] x consider "add_skipped w = (r, w') \<or> add_skipped w1 = (r, w') \<or> w' = w1"
    | a where "x = Inr a" "reroute fresh a w1 = (r, w')" "isReevaluable (case_Status fresh)"
    by (cases x) (auto simp: bindM_def tryM_def failM_def split: if_split_asm)
  then show "good_step (db_index w) (db_index w')"
  proof cases
    case 1
    then have "db_index w' = db_index w" using skip same by blast
    then show ?thesis by simp
  next
    case 2
    with Adjudicate_fields [of fresh rules w a w1] x
    have "ref_ItemID a = case_ID fresh" "ref_IsCurrent a" by auto
    from reroute_safe [OF _ row(2) this 2(3,2)] row(1) id same show ?thesis by simp
  qed
qed

lemma collect_pages_same: "keeps same_index (collect_pages fuel s v offset stale)"
  by (induction fuel arbitrary: offset stale)
     (auto simp: Let_def split: prod.split intro!: same_index.keeps_all queries_read_only)

lemma collect_statuses_same: "keeps same_index (collect_statuses fuel ss v stale)"
  by (induction fuel ss v stale rule: collect_statuses.induct)
     (auto split: option.split intro!: same_index.keeps_all collect_pages_same)

lemma collectStaleItems_same: "keeps same_index (collectStaleItems v)"
  unfolding collectStaleItems_def by (intro same_index.keeps_all collect_statuses_same)

lemma sweep_items_safe: "keeps safe (sweep_items items rules v)"
  by (induction items rules v rule: sweep_items.induct)
     (auto intro!: safe_rules reevaluateItem_safe counters_same [THEN same_index_safe])

lemma sweep_safe: "keeps safe sweep"
  unfolding sweep_def by (intro safe_rules collectStaleItems_same [THEN same_index_safe] sweep_items_safe)

lemma RunOnce_safe: "keeps safe RunOnce"
proof (rule keepsI, unfold safe_def)
  fix w r w'
  assume run: "RunOnce w = (r, w')"
  obtain r1 w1 where s: "sweep (w\<lparr>wk_running := True\<rparr>) = (r1, w1)" by (cases "sweep (w\<lparr>wk_running := True\<rparr>)")
  then have "good_step (db_index w) (db_index w1)" using keepsD [OF sweep_safe s] by (simp add: safe_def)
  moreover have "db_index w' = db_index w \<or> db_index w' = db_index w1"
    using run s by (auto simp: RunOnce_def add_skipped_def split: if_split_asm)
  ultimately show "good_step (db_index w) (db_index w')" by auto
qed

lemma worker_tick_safe: "keeps safe worker_tick"
proof -
  have "keeps safe count_cycle" by (auto simp: keeps_def count_cycle_def safe_def)
  then show ?thesis
    unfolding worker_tick_def
    by (intro safe_rules RunOnce_safe) (auto split: sum.split intro!: safe_rules counters_same [THEN same_index_safe])
qed

end
