(* ===== verification/Sha256.thy ===== *)
theory Sha256
  imports Hub_Prelude "HOL-Library.Word"
begin

text \<open>
  The digest that the package shard takes of a file: SHA-256 (FIPS 180-4), on a string as the
  list of its bytes, as \<open>crypto/sha256\<close> computes it, and its text in hexadecimal digits, as
  \<open>encoding/hex\<close> writes it.
\<close>

unbundle bit_operations_syntax

type_synonym word32 = "32 word"

definition sha_k :: "word32 list" where
  "sha_k = [
    1116352408, 1899447441, 3049323471, 3921009573, 961987163, 1508970993, 2453635748, 2870763221,
    3624381080, 310598401, 607225278, 1426881987, 1925078388, 2162078206, 2614888103, 3248222580,
    3835390401, 4022224774, 264347078, 604807628, 770255983, 1249150122, 1555081692, 1996064986, 2554220882,
    2821834349, 2952996808, 3210313671, 3336571891, 3584528711, 113926993, 338241895, 666307205, 773529912,
    1294757372, 1396182291, 1695183700, 1986661051, 2177026350, 2456956037, 2730485921, 2820302411,
    3259730800, 3345764771, 3516065817, 3600352804, 4094571909, 275423344, 430227734, 506948616, 659060556,
    883997877, 958139571, 1322822218, 1537002063, 1747873779, 1955562222, 2024104815, 2227730452,
    2361852424, 2428436474, 2756734187, 3204031479, 3329325298]"

definition rotr :: "nat \<Rightarrow> word32 \<Rightarrow> word32" where
  "rotr n x = (drop_bit n x OR push_bit (32 - n) x)"

definition big_sigma0 :: "word32 \<Rightarrow> word32" where
  "big_sigma0 x = (rotr 2 x XOR rotr 13 x XOR rotr 22 x)"

definition big_sigma1 :: "word32 \<Rightarrow> word32" where
  "big_sigma1 x = (rotr 6 x XOR rotr 11 x XOR rotr 25 x)"

definition small_sigma0 :: "word32 \<Rightarrow> word32" where
  "small_sigma0 x = (rotr 7 x XOR rotr 18 x XOR drop_bit 3 x)"

definition small_sigma1 :: "word32 \<Rightarrow> word32" where
  "small_sigma1 x = (rotr 17 x XOR rotr 19 x XOR drop_bit 10 x)"

definition big_endian :: "string \<Rightarrow> word32" where
  "big_endian s = word_of_int (foldl (\<lambda>v c. 256 * v + of_char c) 0 s)"

fun expand :: "nat \<Rightarrow> word32 list \<Rightarrow> word32 list" where
  \<comment> \<open>the message schedule, with the latest word first\<close>
  "expand 0 ws = ws"
| "expand (Suc n) ws = expand n ((small_sigma1 (ws ! 1) + ws ! 6 + small_sigma0 (ws ! 14) + ws ! 15) # ws)"

fun words_of :: "nat \<Rightarrow> string \<Rightarrow> word32 list" where
  "words_of 0 s = []"
| "words_of (Suc n) s = big_endian (take 4 s) # words_of n (drop 4 s)"

fun sha_round :: "word32 list \<Rightarrow> word32 \<times> word32 \<Rightarrow> word32 list" where
  "sha_round [a, b, c, d, e, f, g, h] (k, w) =
     (let t1 = h + big_sigma1 e + ((e AND f) XOR (NOT e AND g)) + k + w;
          t2 = big_sigma0 a + ((a AND b) XOR (a AND c) XOR (b AND c))
      in [t1 + t2, a, b, c, d + t1, e, f, g])"
| "sha_round hs kw = hs"

definition sha_block :: "word32 list \<Rightarrow> string \<Rightarrow> word32 list" where
  "sha_block hs block =
     map2 (+) hs (foldl sha_round hs (zip sha_k (rev (expand 48 (rev (words_of 16 block))))))"

definition byte_at :: "int \<Rightarrow> nat \<Rightarrow> char" where
  \<comment> \<open>the byte of a number with \<open>i\<close> bytes below it\<close>
  "byte_at n i = char_of (n div 256 ^ i mod 256)"

definition sha_pad :: "string \<Rightarrow> string" where
  "sha_pad s = s @ [CHR 0x80] @ replicate ((119 - length s mod 64) mod 64) (CHR 0x00)
     @ map (byte_at (8 * int (length s))) (rev [0..<8])"

fun sha_blocks :: "nat \<Rightarrow> word32 list \<Rightarrow> string \<Rightarrow> word32 list" where
  "sha_blocks 0 hs s = hs"
| "sha_blocks (Suc n) hs s = sha_blocks n (sha_block hs (take 64 s)) (drop 64 s)"

definition sha_init :: "word32 list" where
  "sha_init = [1779033703, 3144134277, 1013904242, 2773480762, 1359893119, 2600822924, 528734635, 1541459225]"

definition hex_digit :: "int \<Rightarrow> char" where
  "hex_digit n = ''0123456789abcdef'' ! nat (n mod 16)"

definition hex_word :: "word32 \<Rightarrow> string" where
  "hex_word x = map (\<lambda>i. hex_digit (uint x div 16 ^ i)) (rev [0..<8])"

definition sha256_hex :: "string \<Rightarrow> string" where
  "sha256_hex s = (let p = sha_pad s in concat (map hex_word (sha_blocks (length p div 64) sha_init p)))"

lemma length_sha_pad: "length (sha_pad s) mod 64 = 0"
proof -
  define q r where "q = length s div 64" and "r = length s mod 64"
  have len: "length s = 64 * q + r" "r < 64" by (simp_all add: q_def r_def)
  have pad: "length (sha_pad s) = length s + 1 + (119 - r) mod 64 + 8" by (simp add: sha_pad_def r_def)
  show ?thesis
  proof (cases "r \<le> 55")
    case True
    then have "(119 - r) mod 64 = (64 + (55 - r)) mod 64" by simp
    also have "\<dots> = 55 - r" using True by (simp only: mod_add_self1) simp
    finally have "length (sha_pad s) = 64 * (q + 1)" using True pad len(1) by simp
    then show ?thesis by simp
  next
    case False
    then have "length (sha_pad s) = 64 * (q + 2)" using pad len by simp
    then show ?thesis by simp
  qed
qed

lemma length_map2_min: "length (map2 f xs ys) = min (length xs) (length ys)"
  by simp

lemma length_sha_round: "length (sha_round hs kw) = length hs"
  by (cases "(hs, kw)" rule: sha_round.cases) (simp_all add: Let_def)

lemma length_sha_rounds: "length (foldl sha_round hs kws) = length hs"
  by (induction kws arbitrary: hs) (simp_all add: length_sha_round)

lemma length_sha_blocks: "length (sha_blocks n hs s) = length hs"
  by (induction n arbitrary: hs s) (simp_all add: sha_block_def length_sha_rounds)

lemma length_sha256: "length (sha256_hex s) = 64"
proof -
  have "length (concat (map hex_word ws)) = 8 * length ws" for ws by (induction ws) (simp_all add: hex_word_def)
  then show ?thesis by (simp add: sha256_hex_def Let_def length_sha_blocks sha_init_def)
qed

end
