(* ===== verification/Rebuild.thy ===== *)
theory Rebuild
  imports Repo Sha256
begin

text \<open>
  The index made again from the shards (repo/rebuild.go), the comparison of the two, the
  diagnosis, and what of the shard reader only these use. The lines of a file are the values
  that were marshalled, so \<open>json.Unmarshal\<close> is a look at their type; a line below the directory
  of another entity type, which no operation writes, counts as one that does not parse. The
  collector's Go maps are functions from keys, and the order in which the runtime ranges over
  each is an argument. The zone of the host is taken to be UTC.
\<close>

section \<open>Reading a shard\<close>

definition Checksum :: "string \<Rightarrow> (err, 'a world_scheme, string) op" where
  "Checksum path =
     bindM (mapErr (Wrap (''open for checksum '' @ path)) external) (\<lambda>_.
     bindM (getM (\<lambda>w. map_of (sh_files w) path)) (\<lambda>f. case f of
       None \<Rightarrow> failM (Wrap (''open for checksum '' @ path) (ErrExternal (''open '' @ path @ '': no such file or directory'')))
     | Some ls \<Rightarrow> bindM (mapErr (Wrap (''compute checksum '' @ path)) external) (\<lambda>_. retM (sha256_hex (file_bytes ls)))))"

definition RecordCount :: "string \<Rightarrow> (err, 'a world_scheme, int) op" where
  "RecordCount path =
     bindM (mapErr (Wrap (''open for count '' @ path)) external) (\<lambda>_.
     bindM (getM (\<lambda>w. map_of (sh_files w) path)) (\<lambda>f. case f of
       None \<Rightarrow> failM (Wrap (''open for count '' @ path) (ErrExternal (''open '' @ path @ '': no such file or directory'')))
     | Some ls \<Rightarrow> if list_ex (\<lambda>e. line_size e > max_line) ls then
           failM (Wrap (''scan for count '' @ path) (ErrExternal ''bufio.Scanner: token too long''))
         else bindM (mapErr (Wrap (''scan for count '' @ path)) external) (\<lambda>_. retM (int (length ls)))))"

section \<open>Collecting records\<close>

record recordCollector =
  itemsByID :: "string \<rightharpoonup> item"
  rulesByVersion :: "int \<rightharpoonup> rule"
  assignmentsByID :: "string \<rightharpoonup> time Referral"
  escalationsByID :: "string \<rightharpoonup> time Escalation"
  auditByID :: "string \<rightharpoonup> time AuditEntry"
  failuresByID :: "string \<rightharpoonup> time PermanentFailure"
  batchesByID :: "string \<rightharpoonup> time ImportBatch"

definition newCollector :: recordCollector where
  "newCollector = \<lparr>itemsByID = Map.empty, rulesByVersion = Map.empty, assignmentsByID = Map.empty,
     escalationsByID = Map.empty, auditByID = Map.empty, failuresByID = Map.empty, batchesByID = Map.empty\<rparr>"

definition no_parse :: err where
  "no_parse = ErrExternal ''json: cannot unmarshal''"

definition collector_add :: "string \<Rightarrow> entry \<Rightarrow> recordCollector \<Rightarrow> err + recordCollector" where
  "collector_add entityType e c =
     (if entityType = ''items'' then (case e of
        ItemEntry item \<Rightarrow> Inr (c\<lparr>itemsByID := (itemsByID c)(case_ID item \<mapsto> item)\<rparr>) | _ \<Rightarrow> Inl no_parse)
      else if entityType = ''rules'' then (case e of
        RuleEntry rule \<Rightarrow> Inr (c\<lparr>rulesByVersion := (rulesByVersion c)(rule_Version rule \<mapsto> rule)\<rparr>) | _ \<Rightarrow> Inl no_parse)
      else if entityType = ''assignments'' then (case e of
        ReferralEntry a \<Rightarrow> Inr (c\<lparr>assignmentsByID := (assignmentsByID c)(ref_ID a \<mapsto> a)\<rparr>) | _ \<Rightarrow> Inl no_parse)
      else if entityType = ''escalations'' then (case e of
        EscalationEntry x \<Rightarrow> Inr (c\<lparr>escalationsByID := (escalationsByID c)(esc_ID x \<mapsto> x)\<rparr>) | _ \<Rightarrow> Inl no_parse)
      else if entityType = ''audit'' then (case e of
        AuditLine a \<Rightarrow> Inr (c\<lparr>auditByID := (auditByID c)(aud_ID a \<mapsto> a)\<rparr>) | _ \<Rightarrow> Inl no_parse)
      else if entityType = ''failures'' then (case e of
        FailureEntry f \<Rightarrow> Inr (c\<lparr>failuresByID := (failuresByID c)(fail_ID f \<mapsto> f)\<rparr>) | _ \<Rightarrow> Inl no_parse)
      else if entityType = ''batches'' then (case e of
        BatchEntry b \<Rightarrow> Inr (c\<lparr>batchesByID := (batchesByID c)(batch_ID b \<mapsto> b)\<rparr>) | _ \<Rightarrow> Inl no_parse)
      else Inl (ErrExternal (''unknown entity type: '' @ entityType)))"

fun collect_lines :: "string \<Rightarrow> entry list \<Rightarrow> recordCollector \<Rightarrow> recordCollector" where
  \<comment> \<open>\<open>_ = collector.add(...)\<close>: an error is ignored\<close>
  "collect_lines entityType [] c = c"
| "collect_lines entityType (e # es) c =
     collect_lines entityType es (case collector_add entityType e c of Inl _ \<Rightarrow> c | Inr c' \<Rightarrow> c')"

section \<open>The report\<close>

record CorruptedShard =
  cs_Path :: string
  cs_Reason :: string

record RebuildReport =
  rr_TotalShards :: int
  rr_IndexedShards :: int
  rr_SkippedShards :: int
  rr_CorruptedShards :: "CorruptedShard list"
  rr_TotalRecords :: int

fun collect_files :: "ShardFile list \<Rightarrow> recordCollector \<Rightarrow> RebuildReport
    \<Rightarrow> (err, 'a world_scheme, recordCollector \<times> RebuildReport) op" where
  "collect_files [] c report = retM (c, report)"
| "collect_files (sf # sfs) c report =
     bindM (tryM (ReadAll (sf_Path sf))) (\<lambda>r. case r of
       Inl readErr \<Rightarrow> collect_files sfs c (report\<lparr>
           rr_CorruptedShards := rr_CorruptedShards report @ [\<lparr>cs_Path = sf_Path sf, cs_Reason = errText readErr\<rparr>],
           rr_SkippedShards := rr_SkippedShards report + 1\<rparr>)
     | Inr records \<Rightarrow> collect_files sfs (collect_lines (sf_EntityType sf) records c)
         (report\<lparr>rr_IndexedShards := rr_IndexedShards report + 1\<rparr>))"

section \<open>Filling the index\<close>

record range_orders =
  ord_items :: "string list"
  ord_rules :: "int list"
  ord_assignments :: "string list"
  ord_escalations :: "string list"
  ord_audit :: "string list"
  ord_failures :: "string list"
  ord_batches :: "string list"

fun insert_all :: "('r \<Rightarrow> (err, 'w, unit) op) \<Rightarrow> ('r \<Rightarrow> string) \<Rightarrow> 'r list \<Rightarrow> (err, 'w, int) op" where
  \<comment> \<open>one of the seven loops; the number of the records inserted\<close>
  "insert_all insert1 what [] = retM 0"
| "insert_all insert1 what (r # rs) =
     bindM (mapErr (Wrap (''insert '' @ what r)) (insert1 r)) (\<lambda>_.
     bindM (insert_all insert1 what rs) (\<lambda>n. retM (n + 1)))"

definition insert_collected :: "range_orders \<Rightarrow> recordCollector \<Rightarrow> (err, 'a world_scheme, int) op" where
  "insert_collected ord c =
     bindM (insert_all InsertItem (\<lambda>i. ''item '' @ case_ID i) (List.map_filter (itemsByID c) (ord_items ord))) (\<lambda>n1.
     bindM (insert_all InsertRule (\<lambda>r. ''rule v'' @ show_int (rule_Version r))
       (List.map_filter (rulesByVersion c) (ord_rules ord))) (\<lambda>n2.
     bindM (insert_all InsertAssignment (\<lambda>a. ''referral '' @ ref_ID a)
       (List.map_filter (assignmentsByID c) (ord_assignments ord))) (\<lambda>n3.
     bindM (insert_all InsertEscalation (\<lambda>e. ''escalation '' @ esc_ID e)
       (List.map_filter (escalationsByID c) (ord_escalations ord))) (\<lambda>n4.
     bindM (insert_all InsertAudit (\<lambda>a. ''audit '' @ aud_ID a) (List.map_filter (auditByID c) (ord_audit ord))) (\<lambda>n5.
     bindM (insert_all InsertFailure (\<lambda>f. ''failure '' @ fail_ID f)
       (List.map_filter (failuresByID c) (ord_failures ord))) (\<lambda>n6.
     bindM (insert_all InsertBatch (\<lambda>b. ''batch '' @ batch_ID b) (List.map_filter (batchesByID c) (ord_batches ord))) (\<lambda>n7.
     retM (n1 + n2 + n3 + n4 + n5 + n6 + n7))))))))"

definition sql_integer :: "string \<Rightarrow> int" where
  \<comment> \<open>\<open>CAST(x AS INTEGER)\<close>: the longest prefix that is a number, 0 without one\<close>
  "sql_integer s =
     (let s = dropWhile (\<lambda>c. c \<in> {CHR '' '', CHR 0x09, CHR 0x0A, CHR 0x0B, CHR 0x0C, CHR 0x0D}) s;
          neg = (take 1 s = ''-'');
          s = (if take 1 s = ''-'' \<or> take 1 s = ''+'' then drop 1 s else s);
          n = int (digits_val (takeWhile is_digit s))
      in if neg then max (- n) (- (2 ^ 63)) else min n (2 ^ 63 - 1))"

definition postProcessRebuild :: "(err, 'a world_scheme, unit) op" where
  "postProcessRebuild =
     bindM (mapErr (Wrap ''mark superseded assignments'') (exec (\<lambda>ix. Inr ((), ix\<lparr>tab_assignments :=
       update_where (\<lambda>a. ref_ItemID a \<in> esc_ItemID ` set (tab_escalations ix)) (\<lambda>a. a\<lparr>ref_IsCurrent := False\<rparr>)
         (tab_assignments ix)\<rparr>)))) (\<lambda>_.
     mapErr (Wrap ''mark superseded rules'') (exec (\<lambda>ix. Inr ((), ix\<lparr>tab_rules :=
       update_where (\<lambda>r. rule_Version r \<in> (\<lambda>d. sql_integer (aud_EntityID d)) `
           set (filter (\<lambda>d. aud_Action d = ''supersede_rule'' \<and> aud_EntityType d = ''rule'') (tab_audit_entries ix)))
         (\<lambda>r. r\<lparr>rule_Status := RuleStatusSuperseded\<rparr>) (tab_rules ix)\<rparr>))))"

definition path_base :: "string \<Rightarrow> string" where
  \<comment> \<open>\<open>filepath.Base\<close> of a path that does not end in a slash\<close>
  "path_base path = rev (takeWhile (\<lambda>c. c \<noteq> CHR ''/'') (rev path))"

definition trim_suffix :: "string \<Rightarrow> string \<Rightarrow> string" where
  "trim_suffix s suffix = (if has_suffix s suffix then take (length s - length suffix) s else s)"

definition extractDateKey :: "string \<Rightarrow> string" where
  "extractDateKey path = trim_suffix (path_base path) ''.jsonl''"

definition manifest_entry :: "time \<Rightarrow> ShardFile \<Rightarrow> string \<Rightarrow> int \<Rightarrow> string \<Rightarrow> ManifestEntry" where
  "manifest_entry now sf checksum records status = \<lparr>man_ShardID = sf_EntityType sf @ '':'' @ path_base (sf_Path sf),
     man_EntityType = sf_EntityType sf, man_ShardPath = sf_Path sf, man_Checksum = checksum, man_RecordCount = records,
     man_MinKey = '''', man_MaxKey = '''', man_DateKey = extractDateKey (sf_Path sf), man_Status = status,
     man_CreatedAt = rfc3339nano now, man_UpdatedAt = rfc3339nano now\<rparr>"

fun manifests_of :: "time \<Rightarrow> ShardFile list \<Rightarrow> (err, 'a world_scheme, unit) op" where
  "manifests_of now [] = retM ()"
| "manifests_of now (sf # sfs) =
     bindM (tryM (ReadAll (sf_Path sf))) (\<lambda>r.
     bindM (case r of
         Inl e \<Rightarrow> retM (manifest_entry now sf '''' 0 ''corrupted'')
       | Inr records \<Rightarrow> bindM (tryM (Checksum (sf_Path sf))) (\<lambda>c.
           retM (manifest_entry now sf (case c of Inl _ \<Rightarrow> '''' | Inr s \<Rightarrow> s) (int (length records)) ''ok''))) (\<lambda>entry.
     bindM (UpsertManifest entry) (\<lambda>_. manifests_of now sfs)))"

definition rebuildManifests :: "ShardFile list \<Rightarrow> (err, 'a world_scheme, unit) op" where
  "rebuildManifests files = bindM WallNow (\<lambda>now. manifests_of now files)"

definition RebuildIndex :: "range_orders \<Rightarrow> (err, 'a world_scheme, RebuildReport) op" where
  \<comment> \<open>the partial report that comes back with an error is left out\<close>
  "RebuildIndex ord =
     bindM (mapErr (Wrap ''scan shards'') ScanAll) (\<lambda>found.
     let files = sort_key sf_Path found;
         report = \<lparr>rr_TotalShards = int (length files), rr_IndexedShards = 0, rr_SkippedShards = 0,
           rr_CorruptedShards = [], rr_TotalRecords = 0\<rparr> in
     bindM (collect_files files newCollector report) (\<lambda>(collector, report).
     bindM (mapErr (\<lambda>e. Wrap ''begin tx'' (Wrap ''begin tx'' e)) external) (\<lambda>_.
     rollback_on_error (
       bindM (mapErr (Wrap ''delete all data'') DeleteAllData) (\<lambda>_.
       bindM (insert_collected ord collector) (\<lambda>n.
       bindM (mapErr (Wrap ''post-process'') postProcessRebuild) (\<lambda>_.
       bindM (mapErr (Wrap ''rebuild manifests'') (rebuildManifests files)) (\<lambda>_.
       bindM (mapErr (Wrap ''commit rebuild'') external) (\<lambda>_.
       retM (report\<lparr>rr_TotalRecords := n\<rparr>))))))))))"

section \<open>Reconciliation\<close>

record ReconcileReport =
  rc_ShardCount :: int
  rc_IndexCount :: int
  rc_OrphanedInShard :: int
  rc_MissingInShard :: int
  rc_ChecksumMismatches :: int
  rc_Details :: "string list"

definition manifest_by_path :: "ManifestEntry list \<Rightarrow> string \<rightharpoonup> ManifestEntry" where
  "manifest_by_path ms = foldl (\<lambda>f m. f(man_ShardPath m \<mapsto> m)) Map.empty ms"

definition count_mismatch :: "string \<Rightarrow> int \<Rightarrow> ManifestEntry \<Rightarrow> ReconcileReport \<Rightarrow> ReconcileReport" where
  "count_mismatch path shardCount m report =
     (if man_RecordCount m \<noteq> shardCount then
        let diff = wrap64 (shardCount - man_RecordCount m);
            report = (if diff > 0 then report\<lparr>rc_OrphanedInShard := wrap64 (rc_OrphanedInShard report + diff)\<rparr>
              else report\<lparr>rc_MissingInShard := wrap64 (rc_MissingInShard report + wrap64 (- diff))\<rparr>)
        in report\<lparr>rc_Details := rc_Details report @ [''count mismatch '' @ path @ '': shard='' @ show_int shardCount
             @ '' manifest='' @ show_int (man_RecordCount m)]\<rparr>
      else report)"

definition checksum_mismatch :: "string \<Rightarrow> string \<Rightarrow> ManifestEntry \<Rightarrow> ReconcileReport \<Rightarrow> ReconcileReport" where
  "checksum_mismatch path checksum m report =
     (if man_Checksum m \<noteq> '''' \<and> man_Checksum m \<noteq> checksum then
        report\<lparr>rc_ChecksumMismatches := rc_ChecksumMismatches report + 1,
          rc_Details := rc_Details report @ [''checksum mismatch '' @ path]\<rparr>
      else report)"

fun reconcile_files :: "(string \<rightharpoonup> ManifestEntry) \<Rightarrow> ShardFile list \<Rightarrow> ReconcileReport
    \<Rightarrow> (err, 'a world_scheme, ReconcileReport) op" where
  "reconcile_files byPath [] report = retM report"
| "reconcile_files byPath (sf # sfs) report =
     bindM (tryM (ReadAll (sf_Path sf))) (\<lambda>r. case r of
       Inl readErr \<Rightarrow> reconcile_files byPath sfs (report\<lparr>rc_Details := rc_Details report
           @ [''corrupted shard '' @ sf_Path sf @ '': '' @ errText readErr]\<rparr>)
     | Inr records \<Rightarrow> (case byPath (sf_Path sf) of
         None \<Rightarrow> reconcile_files byPath sfs (report\<lparr>
             rc_OrphanedInShard := wrap64 (rc_OrphanedInShard report + int (length records)),
             rc_Details := rc_Details report @ [''shard '' @ sf_Path sf @ '' not in manifest (records: ''
               @ show_nat (length records) @ '')'']\<rparr>)
       | Some m \<Rightarrow> bindM (tryM (Checksum (sf_Path sf))) (\<lambda>c.
           let checksum = (case c of Inl _ \<Rightarrow> '''' | Inr s \<Rightarrow> s);
               report = checksum_mismatch (sf_Path sf) checksum m (count_mismatch (sf_Path sf) (int (length records)) m report)
           in reconcile_files byPath sfs (report\<lparr>rc_IndexCount := wrap64 (rc_IndexCount report + man_RecordCount m)\<rparr>))))"

definition Reconcile :: "(err, 'a world_scheme, ReconcileReport) op" where
  "Reconcile =
     bindM ScanAll (\<lambda>files.
     bindM ListManifest (\<lambda>manifests.
     reconcile_files (manifest_by_path manifests) files
       \<lparr>rc_ShardCount = int (length files), rc_IndexCount = 0, rc_OrphanedInShard = 0, rc_MissingInShard = 0,
          rc_ChecksumMismatches = 0, rc_Details = []\<rparr>))"

section \<open>Diagnosis\<close>

record ShardManifestEntry =
  sme_ShardID :: string
  sme_EntityType :: string
  sme_ShardPath :: string
  sme_RecordCount :: int
  sme_Status :: string
  sme_Checksum :: string

record DiagnoseReport =
  dr_DataDirWritable :: bool
  dr_ShardManifest :: "ShardManifestEntry list"
  dr_ItemCount :: int
  dr_RuleCount :: int
  dr_OverdueCount :: int
  dr_CorruptedShards :: int
  dr_SchemaVersion :: int
  dr_Ready :: bool
  dr_Issues :: "string list"

definition SchemaVersion :: "int list \<Rightarrow> (err, 'a world_scheme, int) op" where
  \<comment> \<open>the argument is the column of the table schema_version\<close>
  "SchemaVersion applied = bindM external (\<lambda>_. retM (if applied = [] then 0 else Max (set applied)))"

definition ask :: "string \<Rightarrow> 'b \<Rightarrow> (err, 'a world_scheme, 'b) op \<Rightarrow> (err, 'a world_scheme, 'b \<times> string list) op" where
  \<comment> \<open>a query of the diagnosis: its result, the zero value if it fails, and the issue then\<close>
  "ask what zero m = bindM (tryM m) (\<lambda>r. case r of
      Inl e \<Rightarrow> retM (zero, [''failed to '' @ what @ '': '' @ errText e]) | Inr x \<Rightarrow> retM (x, []))"

definition Diagnose :: "int list \<Rightarrow> (err, 'a world_scheme, DiagnoseReport) op" where
  \<comment> \<open>the first external call is \<open>os.CreateTemp\<close> in the data directory\<close>
  "Diagnose applied =
     bindM (tryM external) (\<lambda>f.
     let writable = (case f of Inl _ \<Rightarrow> False | Inr _ \<Rightarrow> True);
         issues0 = (if writable then [] else [''data directory not writable'']) in
     bindM (ask ''list manifest'' [] ListManifest) (\<lambda>(manifests, issues1).
     bindM (ask ''count by status'' [] CountByStatus) (\<lambda>(counts, issues2).
     bindM (ask ''list rules'' [] ListRules) (\<lambda>(rules, issues3).
     bindM Now (\<lambda>now.
     bindM (ask ''find overdue'' [] (FindOverdueItems now 999)) (\<lambda>(overdue, issues4).
     bindM (ask ''get schema version'' 0 (SchemaVersion applied)) (\<lambda>(sv, issues5).
     let issues = issues0 @ issues1 @ issues2 @ issues3 @ issues4 @ issues5;
         corrupted = int (length (filter (\<lambda>m. man_Status m = ''corrupted'') manifests)) in
     retM \<lparr>dr_DataDirWritable = writable,
       dr_ShardManifest = map (\<lambda>m. \<lparr>sme_ShardID = man_ShardID m, sme_EntityType = man_EntityType m,
         sme_ShardPath = man_ShardPath m, sme_RecordCount = man_RecordCount m, sme_Status = man_Status m,
         sme_Checksum = man_Checksum m\<rparr>) manifests,
       dr_ItemCount = foldl (\<lambda>n (s, k). wrap64 (n + k)) 0 counts, dr_RuleCount = int (length rules),
       dr_OverdueCount = int (length overdue), dr_CorruptedShards = corrupted, dr_SchemaVersion = sv,
       dr_Ready = (writable \<and> corrupted = 0 \<and> length issues = 0), dr_Issues = issues\<rparr>)))))))"

end
