(* ===== verification/Rebuild_Facts.thy ===== *)
theory Rebuild_Facts
  imports Rebuild Success
begin

text \<open>
  What a rebuild of the index does: it is atomic, it leaves the shards alone, it makes each row
  from the last line with its key, and it does not work on an index that still holds rules.
\<close>

section \<open>Reading when nothing fails outside\<close>

definition read_file :: "'a world_scheme \<Rightarrow> string \<Rightarrow> err + entry list" where
  "read_file w path = (case map_of (sh_files w) path of
      None \<Rightarrow> Inl (Wrap (''open shard '' @ path) (ErrExternal (''open '' @ path @ '': no such file or directory'')))
    | Some ls \<Rightarrow> if list_ex (\<lambda>e. line_size e > max_line) ls
        then Inl (Wrap (''scan shard '' @ path) (ErrExternal ''bufio.Scanner: token too long'')) else Inr ls)"

lemma ReadAll_quiet: "rt_faults w = [] \<Longrightarrow> ReadAll path w = (read_file w path, w)"
  by (auto simp: ReadAll_def read_file_def bindM_def mapErr_def external_def getM_def failM_def retM_def split: option.splits)

definition digest_file :: "'a world_scheme \<Rightarrow> string \<Rightarrow> err + string" where
  "digest_file w path = (case map_of (sh_files w) path of
      None \<Rightarrow> Inl (Wrap (''open for checksum '' @ path) (ErrExternal (''open '' @ path @ '': no such file or directory'')))
    | Some ls \<Rightarrow> Inr (sha256_hex (file_bytes ls)))"

lemma Checksum_quiet: "rt_faults w = [] \<Longrightarrow> Checksum path w = (digest_file w path, w)"
  by (auto simp: Checksum_def digest_file_def bindM_def mapErr_def external_def getM_def failM_def retM_def split: option.splits)

definition scanned :: "'a world_scheme \<Rightarrow> ShardFile list" where
  "scanned w = concat (map (\<lambda>t. map (\<lambda>p. \<lparr>sf_Path = p, sf_EntityType = t\<rparr>)
     (sort (filter (\<lambda>p. in_dir (sh_rootDir w @ ''/shards/'' @ t) p \<and> has_suffix p ''.jsonl'') (map fst (sh_files w))))) shard_types)"

lemma ScanAll_quiet: "rt_faults w = [] \<Longrightarrow> ScanAll w = (Inr (scanned w), w)"
proof -
  assume q: "rt_faults w = []"
  have "scan_types ts w = (Inr (concat (map (\<lambda>t. map (\<lambda>p. \<lparr>sf_Path = p, sf_EntityType = t\<rparr>)
     (sort (filter (\<lambda>p. in_dir (sh_rootDir w @ ''/shards/'' @ t) p \<and> has_suffix p ''.jsonl'') (map fst (sh_files w))))) ts)), w)" for ts
    using q by (induction ts) (simp_all add: ScanEntityType_def bindM_def external_def getM_def retM_def)
  then show ?thesis by (simp add: ScanAll_def scanned_def)
qed

fun collected :: "'a world_scheme \<Rightarrow> ShardFile list \<Rightarrow> recordCollector \<Rightarrow> recordCollector" where
  "collected w [] c = c"
| "collected w (sf # sfs) c = collected w sfs (case read_file w (sf_Path sf) of
     Inl _ \<Rightarrow> c | Inr ls \<Rightarrow> collect_lines (sf_EntityType sf) ls c)"

lemma collect_files_quiet: "rt_faults w = [] \<Longrightarrow>
    \<exists>report'. collect_files sfs c report w = (Inr (collected w sfs c, report'), w)
      \<and> rr_TotalShards report' = rr_TotalShards report
      \<and> rr_IndexedShards report' + rr_SkippedShards report' = rr_IndexedShards report + rr_SkippedShards report + int (length sfs)"
proof (induction sfs arbitrary: c report)
  case Nil
  then show ?case by (simp add: retM_def)
next
  case (Cons sf sfs)
  show ?case
  proof (cases "read_file w (sf_Path sf)")
    case (Inl e)
    with Cons.prems Cons.IH [of c "report\<lparr>
           rr_CorruptedShards := rr_CorruptedShards report @ [\<lparr>cs_Path = sf_Path sf, cs_Reason = errText e\<rparr>],
           rr_SkippedShards := rr_SkippedShards report + 1\<rparr>"] show ?thesis
      by (auto simp: bindM_def tryM_def ReadAll_quiet)
  next
    case (Inr ls)
    with Cons.prems Cons.IH [of "collect_lines (sf_EntityType sf) ls c" "report\<lparr>rr_IndexedShards := rr_IndexedShards report + 1\<rparr>"]
    show ?thesis by (auto simp: bindM_def tryM_def ReadAll_quiet)
  qed
qed

section \<open>The last line wins\<close>

definition last_with :: "('a \<Rightarrow> 'k) \<Rightarrow> 'k \<Rightarrow> 'a list \<Rightarrow> 'a option" where
  "last_with key k xs = find_key key k (rev xs)"

lemma last_with_Nil [simp]: "last_with key k [] = None"
  by (simp add: last_with_def)

lemma last_with_append: "last_with key k (xs @ ys) = (case last_with key k ys of Some y \<Rightarrow> Some y | None \<Rightarrow> last_with key k xs)"
  by (simp add: last_with_def find_key_append split: option.split)

lemma last_with_snoc: "last_with key k (xs @ [x]) = (if key x = k then Some x else last_with key k xs)"
  by (simp add: last_with_def)

lemma last_with_key: "last_with key k xs = Some x \<Longrightarrow> key x = k \<and> x \<in> set xs"
  by (auto simp: last_with_def dest: find_key_Some)

definition typed_lines :: "'a world_scheme \<Rightarrow> string \<Rightarrow> ShardFile list \<Rightarrow> entry list" where
  \<comment> \<open>the lines of the readable files of a type, in the order of the files\<close>
  "typed_lines w t sfs = concat (map (\<lambda>sf. if sf_EntityType sf = t
     then (case read_file w (sf_Path sf) of Inl _ \<Rightarrow> [] | Inr ls \<Rightarrow> ls) else []) sfs)"

text \<open>
  One of the collector's maps: the files of its type are the only ones that change it, and a
  line of such a file sets the entry of its key.
\<close>

locale collected_map =
  fixes M :: "recordCollector \<Rightarrow> 'k \<Rightarrow> 'r option"
    and etyp :: string
    and unpack :: "entry \<Rightarrow> 'r option"
    and key :: "'r \<Rightarrow> 'k"
  assumes add: "M (case collector_add s e c of Inl _ \<Rightarrow> c | Inr c' \<Rightarrow> c') =
      (if s = etyp then (case unpack e of Some r \<Rightarrow> (M c)(key r \<mapsto> r) | None \<Rightarrow> M c) else M c)"
    and new: "M newCollector = Map.empty"
begin

lemma lines_other: "s \<noteq> etyp \<Longrightarrow> M (collect_lines s es c) = M c"
  by (induction s es c rule: collect_lines.induct) (simp_all add: add)

lemma lines_same: "M (collect_lines etyp es c) k =
    (case last_with key k (List.map_filter unpack es) of Some r \<Rightarrow> Some r | None \<Rightarrow> M c k)"
proof (induction es arbitrary: c)
  case Nil
  then show ?case by (simp add: List.map_filter_simps)
next
  case (Cons e es)
  have split: "last_with key k (r # rs) = (case last_with key k rs of Some x \<Rightarrow> Some x
      | None \<Rightarrow> if key r = k then Some r else None)" for r rs
    using last_with_append [of key k "[r]" rs] by (auto simp: last_with_def split: option.splits)
  show ?case
    by (cases "unpack e") (auto simp: Cons.IH add List.map_filter_simps split split: option.splits)
qed

lemma map_filter_lines: "List.map_filter unpack (xs @ ys) = List.map_filter unpack xs @ List.map_filter unpack ys"
  by (simp add: List.map_filter_def)

lemma collected: "M (collected w sfs c) k =
    (case last_with key k (List.map_filter unpack (typed_lines w etyp sfs)) of Some r \<Rightarrow> Some r | None \<Rightarrow> M c k)"
proof (induction sfs arbitrary: c)
  case Nil
  then show ?case by (simp add: typed_lines_def List.map_filter_simps)
next
  case (Cons sf sfs)
  have "typed_lines w etyp (sf # sfs) = (if sf_EntityType sf = etyp
     then (case read_file w (sf_Path sf) of Inl _ \<Rightarrow> [] | Inr ls \<Rightarrow> ls) else []) @ typed_lines w etyp sfs"
    by (simp add: typed_lines_def)
  then show ?case
    by (auto simp: Cons.IH map_filter_lines last_with_append lines_same lines_other List.map_filter_simps
        split: sum.split option.split)
qed

lemma collected_new: "M (collected w sfs newCollector) k = last_with key k (List.map_filter unpack (typed_lines w etyp sfs))"
  by (simp add: collected new split: option.split)

lemma key_of: "M (collected w sfs newCollector) k = Some r \<Longrightarrow> key r = k"
  by (simp add: collected_new) (drule last_with_key, simp)

end

fun as_item :: "entry \<Rightarrow> item option" where
  "as_item (ItemEntry i) = Some i" | "as_item _ = None"
fun as_rule :: "entry \<Rightarrow> rule option" where
  "as_rule (RuleEntry r) = Some r" | "as_rule _ = None"
fun as_referral :: "entry \<Rightarrow> time Referral option" where
  "as_referral (ReferralEntry a) = Some a" | "as_referral _ = None"
fun as_escalation :: "entry \<Rightarrow> time Escalation option" where
  "as_escalation (EscalationEntry e) = Some e" | "as_escalation _ = None"
fun as_audit :: "entry \<Rightarrow> time AuditEntry option" where
  "as_audit (AuditLine a) = Some a" | "as_audit _ = None"
fun as_failure :: "entry \<Rightarrow> time PermanentFailure option" where
  "as_failure (FailureEntry f) = Some f" | "as_failure _ = None"
fun as_batch :: "entry \<Rightarrow> time ImportBatch option" where
  "as_batch (BatchEntry b) = Some b" | "as_batch _ = None"

interpretation items: collected_map itemsByID "''items''" as_item case_ID
  by unfold_locales (auto simp: collector_add_def newCollector_def split: entry.split)
interpretation rules: collected_map rulesByVersion "''rules''" as_rule rule_Version
  by unfold_locales (auto simp: collector_add_def newCollector_def split: entry.split)
interpretation referrals: collected_map assignmentsByID "''assignments''" as_referral ref_ID
  by unfold_locales (auto simp: collector_add_def newCollector_def split: entry.split)
interpretation escs: collected_map escalationsByID "''escalations''" as_escalation esc_ID
  by unfold_locales (auto simp: collector_add_def newCollector_def split: entry.split)
interpretation audits: collected_map auditByID "''audit''" as_audit aud_ID
  by unfold_locales (auto simp: collector_add_def newCollector_def split: entry.split)
interpretation fails: collected_map failuresByID "''failures''" as_failure fail_ID
  by unfold_locales (auto simp: collector_add_def newCollector_def split: entry.split)
interpretation batch_map: collected_map batchesByID "''batches''" as_batch batch_ID
  by unfold_locales (auto simp: collector_add_def newCollector_def split: entry.split)

section \<open>Filling the tables\<close>

text \<open>
  A loop of insertions that do not collide: \<open>grow\<close> adds rows to one table and \<open>ok\<close> says that a
  row does not collide with those that are there.
\<close>

lemma insert_all_rows:
  assumes one: "\<And>(w :: 'a world_scheme) r. rt_faults w = [] \<Longrightarrow> ok (row_of r) (rows (db_index w)) \<Longrightarrow>
      insert1 r w = (Inr (), w\<lparr>db_index := grow (db_index w) [row_of r]\<rparr>)"
    and grow: "\<And>ix xs ys. grow (grow ix xs) ys = grow ix (xs @ ys)" "\<And>ix. grow ix [] = ix"
      "\<And>ix xs. rows (grow ix xs) = rows ix @ xs"
    and q: "rt_faults (w :: 'a world_scheme) = []"
    and free: "\<And>as r bs. rs = as @ r # bs \<Longrightarrow> ok (row_of r) (rows (db_index w) @ map row_of as)"
  shows "insert_all insert1 what rs w = (Inr (int (length rs)), w\<lparr>db_index := grow (db_index w) (map row_of rs)\<rparr>)"
  using q free
proof (induction rs arbitrary: w)
  case Nil
  then show ?case by (simp add: retM_def grow)
next
  case (Cons r rs)
  let ?w = "w\<lparr>db_index := grow (db_index w) [row_of r]\<rparr>"
  have "insert1 r w = (Inr (), ?w)" using one Cons.prems(1) Cons.prems(2) [of "[]"] by simp
  moreover have "ok (row_of s) (rows (db_index ?w) @ map row_of as)" if "rs = as @ s # bs" for as s bs
    using Cons.prems(2) [of "r # as" s bs] that by (simp add: grow)
  then have "insert_all insert1 what rs ?w
      = (Inr (int (length rs)), ?w\<lparr>db_index := grow (db_index ?w) (map row_of rs)\<rparr>)"
    using Cons.prems(1) by (intro Cons.IH) simp_all
  ultimately show ?case by (simp add: bindM_def mapErr_def retM_def grow)
qed

lemma mapErr_exec: "rt_faults w = [] \<Longrightarrow> stmt (db_index w) = Inr ((), ix) \<Longrightarrow>
    mapErr f (exec stmt) w = (Inr (), w\<lparr>db_index := ix\<rparr>)"
  by (simp add: mapErr_def exec_def bindM_def external_def)

lemmas insert_defs = InsertItem_def InsertRule_def InsertAssignment_def InsertEscalation_def InsertAudit_def
  InsertFailure_def InsertBatch_def

lemma row_ids [simp]: "fail_ID (row_of_failure f) = fail_ID f" "batch_ID (row_of_batch b) = batch_ID b"
  by (simp_all add: row_of_failure_def row_of_batch_def)

lemma distinct_split: "distinct (map f (as @ r # bs)) \<Longrightarrow> f r \<notin> f ` set as"
  by auto

lemma insert_items:
  assumes "rt_faults (w :: 'a world_scheme) = []" and "tab_items (db_index w) = []"
    and "distinct (map case_ID rs)" and "distinct (map case_ExternalRef rs)"
  shows "insert_all InsertItem what rs w
      = (Inr (int (length rs)), w\<lparr>db_index := (db_index w)\<lparr>tab_items := map row_of_item rs\<rparr>\<rparr>)"
proof -
  have "insert_all InsertItem what rs w = (Inr (int (length rs)),
      w\<lparr>db_index := (db_index w)\<lparr>tab_items := tab_items (db_index w) @ map row_of_item rs\<rparr>\<rparr>)"
    using assms
    by (intro insert_all_rows [where grow = "\<lambda>ix xs. ix\<lparr>tab_items := tab_items ix @ xs\<rparr>" and rows = tab_items
          and ok = "\<lambda>r rs. case_ID r \<notin> case_ID ` set rs \<and> case_ExternalRef r \<notin> case_ExternalRef ` set rs"])
       (auto simp: insert_defs put_item_def intro!: mapErr_exec)
  with assms(2) show ?thesis by simp
qed

lemma insert_keyed:
  assumes one: "\<And>r. insert1 r = mapErr f (exec (put (row_of r)))"
    and put: "\<And>x ix. key x \<notin> key ` set (rows ix) \<Longrightarrow> put x ix = Inr ((), grow ix [x])"
    and grow: "\<And>ix xs ys. grow (grow ix xs) ys = grow ix (xs @ ys)" "\<And>ix. grow ix [] = ix"
      "\<And>ix xs. rows (grow ix xs) = rows ix @ xs"
    and q: "rt_faults (w :: 'a world_scheme) = []" and empty: "rows (db_index w) = []"
    and keys: "distinct (map k rs)" "\<And>r. key (row_of r) = k r"
  shows "insert_all insert1 what rs w = (Inr (int (length rs)), w\<lparr>db_index := grow (db_index w) (map row_of rs)\<rparr>)"
proof (rule insert_all_rows [where rows = rows and ok = "\<lambda>r rs. key r \<notin> key ` set rs"])
  show "insert1 r v = (Inr (), v\<lparr>db_index := grow (db_index v) [row_of r]\<rparr>)"
    if "rt_faults v = []" "key (row_of r) \<notin> key ` set (rows (db_index v))" for r and v :: "'a world_scheme"
    unfolding one using that by (intro mapErr_exec) (simp_all add: put)
  show "key (row_of r) \<notin> key ` set (rows (db_index w) @ map row_of as)" if "rs = as @ r # bs" for as r bs
    using keys(1) that by (auto simp: keys(2) empty)
qed (use q grow in simp_all)

lemma put_free:
  "ref_ID ra \<notin> ref_ID ` set (tab_assignments ix) \<Longrightarrow> put_assignment ra ix = Inr ((), ix\<lparr>tab_assignments := tab_assignments ix @ [ra]\<rparr>)"
  "esc_ID re \<notin> esc_ID ` set (tab_escalations ix) \<Longrightarrow> put_escalation re ix = Inr ((), ix\<lparr>tab_escalations := tab_escalations ix @ [re]\<rparr>)"
  "aud_ID ru \<notin> aud_ID ` set (tab_audit_entries ix) \<Longrightarrow> put_audit ru ix = Inr ((), ix\<lparr>tab_audit_entries := tab_audit_entries ix @ [ru]\<rparr>)"
  "fail_ID rf \<notin> fail_ID ` set (tab_permanent_failures ix) \<Longrightarrow>
     put_failure rf ix = Inr ((), ix\<lparr>tab_permanent_failures := tab_permanent_failures ix @ [rf]\<rparr>)"
  "batch_ID rb \<notin> batch_ID ` set (tab_import_batches ix) \<Longrightarrow> put_batch rb ix = Inr ((), ix\<lparr>tab_import_batches := tab_import_batches ix @ [rb]\<rparr>)"
  "rule_Version rr \<notin> rule_Version ` set (tab_rules ix) \<Longrightarrow> put_rule rr ix = Inr ((), ix\<lparr>tab_rules := tab_rules ix @ [rr]\<rparr>)"
  by (simp_all add: put_defs insert_row_def)

lemmas insert_rules = insert_keyed [where rows = tab_rules and key = rule_Version and k = rule_Version
    and grow = "\<lambda>ix xs. ix\<lparr>tab_rules := tab_rules ix @ xs\<rparr>", OF InsertRule_def put_free(6), simplified]
lemmas insert_assignments = insert_keyed [where rows = tab_assignments and key = ref_ID and k = ref_ID
    and grow = "\<lambda>ix xs. ix\<lparr>tab_assignments := tab_assignments ix @ xs\<rparr>", OF InsertAssignment_def put_free(1), simplified]
lemmas insert_escalations = insert_keyed [where rows = tab_escalations and key = esc_ID and k = esc_ID
    and grow = "\<lambda>ix xs. ix\<lparr>tab_escalations := tab_escalations ix @ xs\<rparr>", OF InsertEscalation_def put_free(2), simplified]
lemmas insert_audits = insert_keyed [where rows = tab_audit_entries and key = aud_ID and k = aud_ID
    and grow = "\<lambda>ix xs. ix\<lparr>tab_audit_entries := tab_audit_entries ix @ xs\<rparr>", OF InsertAudit_def put_free(3), simplified]
lemmas insert_failures = insert_keyed [where rows = tab_permanent_failures and key = fail_ID and k = fail_ID
    and grow = "\<lambda>ix xs. ix\<lparr>tab_permanent_failures := tab_permanent_failures ix @ xs\<rparr>", OF InsertFailure_def put_free(4), simplified]
lemmas insert_batches = insert_keyed [where rows = tab_import_batches and key = batch_ID and k = batch_ID
    and grow = "\<lambda>ix xs. ix\<lparr>tab_import_batches := tab_import_batches ix @ xs\<rparr>", OF InsertBatch_def put_free(5), simplified]

section \<open>The whole of the insertion\<close>

definition enumerates :: "range_orders \<Rightarrow> recordCollector \<Rightarrow> bool" where
  \<comment> \<open>what \<open>range\<close> over a map promises: every key once\<close>
  "enumerates ord c \<longleftrightarrow>
     distinct (ord_items ord) \<and> set (ord_items ord) = dom (itemsByID c)
   \<and> distinct (ord_rules ord) \<and> set (ord_rules ord) = dom (rulesByVersion c)
   \<and> distinct (ord_assignments ord) \<and> set (ord_assignments ord) = dom (assignmentsByID c)
   \<and> distinct (ord_escalations ord) \<and> set (ord_escalations ord) = dom (escalationsByID c)
   \<and> distinct (ord_audit ord) \<and> set (ord_audit ord) = dom (auditByID c)
   \<and> distinct (ord_failures ord) \<and> set (ord_failures ord) = dom (failuresByID c)
   \<and> distinct (ord_batches ord) \<and> set (ord_batches ord) = dom (batchesByID c)"

definition keyed :: "('r \<Rightarrow> 'k) \<Rightarrow> ('k \<Rightarrow> 'r option) \<Rightarrow> bool" where
  "keyed key m \<longleftrightarrow> (\<forall>k r. m k = Some r \<longrightarrow> key r = k)"

lemma range_keys:
  assumes "keyed key m" and "set ks = dom m"
  shows "map key (List.map_filter m ks) = ks"
proof -
  have "map key (List.map_filter m ks') = ks'" if "set ks' \<subseteq> dom m" for ks'
    using that
  proof (induction ks')
    case (Cons k ks')
    then obtain r where "m k = Some r" by auto
    with Cons assms(1) show ?case by (simp add: List.map_filter_simps keyed_def)
  qed (simp add: List.map_filter_simps)
  then show ?thesis using assms(2) by simp
qed

lemma range_find:
  assumes "keyed key m" and "set ks = dom m" and "distinct ks"
  shows "find_key key k (List.map_filter m ks) = m k"
proof (cases "m k")
  case None
  then show ?thesis
    using range_keys [OF assms(1,2)] assms(2) by (metis domIff find_key_None_iff set_map)
next
  case (Some r)
  then have "r \<in> set (List.map_filter m ks)" using assms(2)
    by (auto simp: List.map_filter_def intro!: image_eqI [of _ _ k])
  moreover have "key r = k" using assms(1) Some by (simp add: keyed_def)
  ultimately show ?thesis using range_keys [OF assms(1,2)] assms(3) Some find_key_distinct by metis
qed

lemma range_set: "set ks = dom m \<Longrightarrow> set (List.map_filter m ks) = ran m"
  by (force simp: List.map_filter_def ran_def)

definition cleared :: "index \<Rightarrow> index" where
  "cleared ix = ix\<lparr>tab_items := [], tab_assignments := [], tab_escalations := [], tab_audit_entries := [],
     tab_permanent_failures := [], tab_import_batches := [], tab_shard_manifest := []\<rparr>"

lemma delete_quiet: "rt_faults w = [] \<Longrightarrow>
    delete_tables ts w = (Inr (), w\<lparr>db_index := foldl (\<lambda>ix t. snd t ix) (db_index w) ts\<rparr>)"
proof (induction ts arbitrary: w)
  case (Cons t ts)
  then show ?case
    by (cases t) (simp add: bindM_def mapErr_exec [where ix = "snd t (db_index w)"])
qed (simp add: retM_def)

lemma DeleteAllData_quiet: "rt_faults w = [] \<Longrightarrow> DeleteAllData w = (Inr (), w\<lparr>db_index := cleared (db_index w)\<rparr>)"
  unfolding DeleteAllData_def by (simp only: delete_quiet) (simp add: delete_from_def cleared_def)

definition filled :: "range_orders \<Rightarrow> recordCollector \<Rightarrow> index \<Rightarrow> index" where
  "filled ord c ix = ix\<lparr>tab_items := map row_of_item (List.map_filter (itemsByID c) (ord_items ord)),
     tab_rules := map row_of_rule (List.map_filter (rulesByVersion c) (ord_rules ord)),
     tab_assignments := map row_of_referral (List.map_filter (assignmentsByID c) (ord_assignments ord)),
     tab_escalations := map row_of_escalation (List.map_filter (escalationsByID c) (ord_escalations ord)),
     tab_audit_entries := map row_of_audit (List.map_filter (auditByID c) (ord_audit ord)),
     tab_permanent_failures := map row_of_failure (List.map_filter (failuresByID c) (ord_failures ord)),
     tab_import_batches := map row_of_batch (List.map_filter (batchesByID c) (ord_batches ord))\<rparr>"

definition all_keyed :: "recordCollector \<Rightarrow> bool" where
  "all_keyed c \<longleftrightarrow> keyed case_ID (itemsByID c) \<and> keyed rule_Version (rulesByVersion c)
   \<and> keyed ref_ID (assignmentsByID c) \<and> keyed esc_ID (escalationsByID c) \<and> keyed aud_ID (auditByID c)
   \<and> keyed fail_ID (failuresByID c) \<and> keyed batch_ID (batchesByID c)"

lemma collected_keyed: "all_keyed (collected w sfs newCollector)"
  unfolding all_keyed_def keyed_def
  by (intro conjI allI impI; rule items.key_of rules.key_of referrals.key_of escs.key_of audits.key_of fails.key_of
      batch_map.key_of; assumption)

definition one_per_ref :: "recordCollector \<Rightarrow> bool" where
  \<comment> \<open>no two cases of the shards have an external reference in common\<close>
  "one_per_ref c \<longleftrightarrow> (\<forall>k i l j. itemsByID c k = Some i \<longrightarrow> itemsByID c l = Some j
     \<longrightarrow> case_ExternalRef i = case_ExternalRef j \<longrightarrow> k = l)"

lemma range_refs:
  assumes "one_per_ref c" and "keyed case_ID (itemsByID c)" and "distinct ks" and "set ks = dom (itemsByID c)"
  shows "distinct (map case_ExternalRef (List.map_filter (itemsByID c) ks))"
proof -
  let ?is = "List.map_filter (itemsByID c) ks"
  have "distinct (map case_ID ?is)" using range_keys [OF assms(2,4)] assms(3) by simp
  moreover have "i = j" if ij: "i \<in> set ?is" "j \<in> set ?is" and eq: "case_ExternalRef i = case_ExternalRef j" for i j
  proof -
    from ij obtain k l where "itemsByID c k = Some i" "itemsByID c l = Some j"
      unfolding range_set [OF assms(4)] ran_def by blast
    with assms(1) eq show ?thesis unfolding one_per_ref_def by (metis option.inject)
  qed
  then have "inj_on case_ExternalRef (set ?is)" by (auto intro: inj_onI)
  ultimately show ?thesis by (simp add: distinct_map)
qed

lemma insert_collected_quiet:
  assumes q: "rt_faults (w :: 'a world_scheme) = []" and ord: "enumerates ord c" and keyed: "all_keyed c"
    and refs: "one_per_ref c" and rules: "tab_rules (db_index w) = []" and clear: "cleared (db_index w) = db_index w"
  shows "\<exists>n. insert_collected ord c w = (Inr n, w\<lparr>db_index := filled ord c (db_index w)\<rparr>)"
proof -
  note ord' = ord [unfolded enumerates_def] and keyed' = keyed [unfolded all_keyed_def]
  have e: "tab_items (db_index w) = []" "tab_assignments (db_index w) = []" "tab_escalations (db_index w) = []"
    "tab_audit_entries (db_index w) = []" "tab_permanent_failures (db_index w) = []" "tab_import_batches (db_index w) = []"
    by (subst clear [symmetric], simp add: cleared_def)+
  have d: "distinct (map case_ID (List.map_filter (itemsByID c) (ord_items ord)))"
    "distinct (map rule_Version (List.map_filter (rulesByVersion c) (ord_rules ord)))"
    "distinct (map ref_ID (List.map_filter (assignmentsByID c) (ord_assignments ord)))"
    "distinct (map esc_ID (List.map_filter (escalationsByID c) (ord_escalations ord)))"
    "distinct (map aud_ID (List.map_filter (auditByID c) (ord_audit ord)))"
    "distinct (map fail_ID (List.map_filter (failuresByID c) (ord_failures ord)))"
    "distinct (map batch_ID (List.map_filter (batchesByID c) (ord_batches ord)))"
    using ord' keyed' by (simp_all add: range_keys)
  have x: "distinct (map case_ExternalRef (List.map_filter (itemsByID c) (ord_items ord)))"
    using range_refs [OF refs] ord' keyed' by blast
  show ?thesis
    unfolding insert_collected_def filled_def
    by (simp add: bindM_def retM_def q e rules d x insert_items insert_rules insert_assignments insert_escalations
        insert_audits insert_failures insert_batches)
qed

definition processed :: "index \<Rightarrow> index" where
  "processed ix = ix\<lparr>tab_assignments :=
       update_where (\<lambda>a. ref_ItemID a \<in> esc_ItemID ` set (tab_escalations ix)) (\<lambda>a. a\<lparr>ref_IsCurrent := False\<rparr>)
         (tab_assignments ix),
     tab_rules :=
       update_where (\<lambda>r. rule_Version r \<in> (\<lambda>d. sql_integer (aud_EntityID d)) `
           set (filter (\<lambda>d. aud_Action d = ''supersede_rule'' \<and> aud_EntityType d = ''rule'') (tab_audit_entries ix)))
         (\<lambda>r. r\<lparr>rule_Status := RuleStatusSuperseded\<rparr>) (tab_rules ix)\<rparr>"

lemma postProcess_quiet:
  "rt_faults w = [] \<Longrightarrow> postProcessRebuild w = (Inr (), w\<lparr>db_index := processed (db_index w)\<rparr>)"
  unfolding postProcessRebuild_def bindM_def
  by (simp add: mapErr_exec processed_def)

section \<open>The manifest\<close>

definition shard_id :: "ShardFile \<Rightarrow> string" where
  "shard_id sf = sf_EntityType sf @ '':'' @ path_base (sf_Path sf)"

definition manifest_for :: "time \<Rightarrow> 'a world_scheme \<Rightarrow> ShardFile \<Rightarrow> ManifestEntry" where
  "manifest_for now w sf = (case read_file w (sf_Path sf) of
      Inl _ \<Rightarrow> manifest_entry now sf '''' 0 ''corrupted''
    | Inr ls \<Rightarrow> manifest_entry now sf (sha256_hex (file_bytes ls)) (int (length ls)) ''ok'')"

lemma read_digest: "read_file w p = Inr ls \<Longrightarrow> digest_file w p = Inr (sha256_hex (file_bytes ls))"
  by (auto simp: read_file_def digest_file_def split: option.splits if_splits)

lemma read_file_index [simp]: "read_file (w\<lparr>db_index := ix\<rparr>) p = read_file w p"
  "digest_file (w\<lparr>db_index := ix\<rparr>) p = digest_file w p"
  "read_file (w\<lparr>rt_ticks := n\<rparr>) p = read_file w p" "digest_file (w\<lparr>rt_ticks := n\<rparr>) p = digest_file w p"
  by (simp_all add: read_file_def digest_file_def)

lemma manifest_for_same [simp]: "manifest_for now (w\<lparr>db_index := ix\<rparr>) sf = manifest_for now w sf"
  "manifest_for now (w\<lparr>rt_ticks := n\<rparr>) sf = manifest_for now w sf"
  by (simp_all add: manifest_for_def)

lemma manifest_for_id [simp]: "man_ShardID (manifest_for now w sf) = shard_id sf"
  "man_ShardPath (manifest_for now w sf) = sf_Path sf"
  by (simp_all add: manifest_for_def manifest_entry_def shard_id_def split: sum.split)

lemma manifests_quiet:
  "rt_faults w = [] \<Longrightarrow> \<exists>ms. manifests_of now sfs w = (Inr (), w\<lparr>db_index := (db_index w)\<lparr>tab_shard_manifest := ms\<rparr>\<rparr>)
     \<and> (distinct (map shard_id sfs) \<and> shard_id ` set sfs \<inter> man_ShardID ` set (tab_shard_manifest (db_index w)) = {}
        \<longrightarrow> ms = tab_shard_manifest (db_index w) @ map (manifest_for now w) sfs)"
proof (induction sfs arbitrary: w)
  case Nil
  show ?case by (rule exI [of _ "tab_shard_manifest (db_index w)"]) (simp add: retM_def)
next
  case (Cons sf sfs)
  let ?ms = "if man_ShardID (manifest_for now w sf) \<in> man_ShardID ` set (tab_shard_manifest (db_index w)) then
        update_where (\<lambda>m. man_ShardID m = man_ShardID (manifest_for now w sf))
          (\<lambda>m. m\<lparr>man_Checksum := man_Checksum (manifest_for now w sf), man_RecordCount := man_RecordCount (manifest_for now w sf),
             man_MinKey := man_MinKey (manifest_for now w sf), man_MaxKey := man_MaxKey (manifest_for now w sf),
             man_Status := man_Status (manifest_for now w sf), man_UpdatedAt := man_UpdatedAt (manifest_for now w sf)\<rparr>)
          (tab_shard_manifest (db_index w))
      else tab_shard_manifest (db_index w) @ [manifest_for now w sf]"
  let ?w = "w\<lparr>db_index := (db_index w)\<lparr>tab_shard_manifest := ?ms\<rparr>\<rparr>"
  have "UpsertManifest (manifest_for now w sf) w = (Inr (), ?w)"
    using Cons.prems unfolding UpsertManifest_def put_manifest_def by (intro mapErr_exec) simp_all
  then have step: "manifests_of now (sf # sfs) w = manifests_of now sfs ?w"
    using Cons.prems
    by (cases "read_file w (sf_Path sf)")
       (auto simp: bindM_def tryM_def ReadAll_quiet Checksum_quiet read_digest manifest_for_def retM_def)
  from Cons.IH [of ?w] Cons.prems obtain ms where
    ms: "manifests_of now sfs ?w = (Inr (), ?w\<lparr>db_index := (db_index ?w)\<lparr>tab_shard_manifest := ms\<rparr>\<rparr>)"
    and all: "distinct (map shard_id sfs) \<and> shard_id ` set sfs \<inter> man_ShardID ` set ?ms = {}
        \<longrightarrow> ms = ?ms @ map (manifest_for now w) sfs" by auto
  show ?case
  proof (intro exI [of _ ms] conjI impI)
    show "manifests_of now (sf # sfs) w = (Inr (), w\<lparr>db_index := (db_index w)\<lparr>tab_shard_manifest := ms\<rparr>\<rparr>)"
      unfolding step ms by simp
    assume fresh: "distinct (map shard_id (sf # sfs))
      \<and> shard_id ` set (sf # sfs) \<inter> man_ShardID ` set (tab_shard_manifest (db_index w)) = {}"
    then have "?ms = tab_shard_manifest (db_index w) @ [manifest_for now w sf]" by simp
    with all fresh show "ms = tab_shard_manifest (db_index w) @ map (manifest_for now w) (sf # sfs)" by auto
  qed
qed

section \<open>The rebuild\<close>

definition shard_list :: "'a world_scheme \<Rightarrow> ShardFile list" where
  "shard_list w = sort_key sf_Path (scanned w)"

definition contents :: "'a world_scheme \<Rightarrow> recordCollector" where
  \<comment> \<open>what a rebuild finds in the shards\<close>
  "contents w = collected w (shard_list w) newCollector"

lemma collected_world [simp]: "collected (w\<lparr>db_index := ix\<rparr>) sfs c = collected w sfs c"
  by (induction sfs arbitrary: c) simp_all

lemma run_step: "m w = (Inr a, w') \<Longrightarrow> bindM m k w = k a w'"
  by (simp add: bindM_def)

lemma run_map: "m w = (Inr a, w') \<Longrightarrow> bindM (mapErr f m) k w = k a w'"
  by (simp add: bindM_def mapErr_def)

lemma external_quiet: "rt_faults w = [] \<Longrightarrow> external w = (Inr (), w)"
  by (simp add: external_def)

lemma RebuildIndex_quiet:
  assumes q: "rt_faults (w :: 'a world_scheme) = []" and ord: "enumerates ord (contents w)"
    and refs: "one_per_ref (contents w)" and rules: "tab_rules (db_index w) = []"
  shows "\<exists>rep ms. RebuildIndex ord w = (Inr rep, w\<lparr>rt_ticks := Suc (rt_ticks w),
      db_index := (processed (filled ord (contents w) (cleared (db_index w))))\<lparr>tab_shard_manifest := ms\<rparr>\<rparr>)
    \<and> (distinct (map shard_id (shard_list w)) \<longrightarrow> ms = map (manifest_for (rt_wall w (rt_ticks w)) w) (shard_list w))"
proof -
  let ?c = "contents w" and ?sfs = "shard_list w"
  let ?w1 = "w\<lparr>db_index := cleared (db_index w)\<rparr>"
  let ?w2 = "w\<lparr>db_index := filled ord ?c (cleared (db_index w))\<rparr>"
  let ?w3 = "w\<lparr>db_index := processed (filled ord ?c (cleared (db_index w)))\<rparr>"
  have scan: "ScanAll w = (Inr (scanned w), w)" using q by (rule ScanAll_quiet)
  let ?r0 = "\<lparr>rr_TotalShards = int (length ?sfs), rr_IndexedShards = 0,
      rr_SkippedShards = 0, rr_CorruptedShards = [], rr_TotalRecords = 0\<rparr>"
  obtain rep where collect: "collect_files ?sfs newCollector ?r0 w = (Inr (?c, rep), w)"
    using collect_files_quiet [OF q] unfolding contents_def by metis
  have delete: "DeleteAllData w = (Inr (), ?w1)" using q by (rule DeleteAllData_quiet)
  have keyed: "all_keyed ?c" unfolding contents_def by (rule collected_keyed)
  from insert_collected_quiet [of ?w1 ord ?c] obtain n where insert: "insert_collected ord ?c ?w1 = (Inr n, ?w2)"
    using q ord refs rules keyed by (auto simp: cleared_def)
  have post: "postProcessRebuild ?w2 = (Inr (), ?w3)" using postProcess_quiet [of ?w2] q by simp
  let ?w4 = "?w3\<lparr>rt_ticks := Suc (rt_ticks w)\<rparr>"
  have q4: "rt_faults ?w4 = []" using q by simp
  obtain ms where man: "manifests_of (rt_wall w (rt_ticks w)) ?sfs ?w4
      = (Inr (), ?w4\<lparr>db_index := (db_index ?w4)\<lparr>tab_shard_manifest := ms\<rparr>\<rparr>)"
    and ms: "distinct (map shard_id ?sfs) \<and> shard_id ` set ?sfs \<inter> man_ShardID ` set (tab_shard_manifest (db_index ?w4)) = {}
        \<longrightarrow> ms = tab_shard_manifest (db_index ?w4) @ map (manifest_for (rt_wall w (rt_ticks w)) ?w4) ?sfs"
    using manifests_quiet [OF q4, of _ ?sfs] by blast
  have none: "tab_shard_manifest (db_index ?w4) = []" by (simp add: processed_def filled_def cleared_def)
  have "RebuildIndex ord w = (Inr (rep\<lparr>rr_TotalRecords := n\<rparr>), ?w4\<lparr>db_index := (db_index ?w4)\<lparr>tab_shard_manifest := ms\<rparr>\<rparr>)"
    unfolding RebuildIndex_def run_map [where m = ScanAll, OF scan] Let_def shard_list_def [symmetric]
      run_step [where m = "collect_files ?sfs newCollector ?r0", OF collect] prod.case
      run_map [where m = external, OF external_quiet [OF q]] rollback_Inr run_map [where m = DeleteAllData, OF delete]
      run_step [where m = "insert_collected ord ?c", OF insert] run_map [where m = postProcessRebuild, OF post]
      rebuildManifests_def
    using man q by (simp add: bindM_def mapErr_def WallNow_def external_def retM_def)
  with ms none show ?thesis by auto
qed

lemma contents_are:
  "itemsByID (contents w) k = last_with case_ID k (List.map_filter as_item (typed_lines w ''items'' (shard_list w)))"
  "rulesByVersion (contents w) v = last_with rule_Version v (List.map_filter as_rule (typed_lines w ''rules'' (shard_list w)))"
  "assignmentsByID (contents w) k = last_with ref_ID k (List.map_filter as_referral (typed_lines w ''assignments'' (shard_list w)))"
  "escalationsByID (contents w) k = last_with esc_ID k (List.map_filter as_escalation (typed_lines w ''escalations'' (shard_list w)))"
  "auditByID (contents w) k = last_with aud_ID k (List.map_filter as_audit (typed_lines w ''audit'' (shard_list w)))"
  "failuresByID (contents w) k = last_with fail_ID k (List.map_filter as_failure (typed_lines w ''failures'' (shard_list w)))"
  "batchesByID (contents w) k = last_with batch_ID k (List.map_filter as_batch (typed_lines w ''batches'' (shard_list w)))"
  unfolding contents_def
  by (rule items.collected_new rules.collected_new referrals.collected_new escs.collected_new audits.collected_new
      fails.collected_new batch_map.collected_new)+

lemma find_key_map: "(\<And>x. key (f x) = k x) \<Longrightarrow> find_key key i (map f xs) = map_option f (find_key k i xs)"
  by (induction xs) simp_all

section \<open>A rebuild is atomic\<close>

lemma keeps_files_collect: "keeps same_files (collect_files sfs c rep)"
  by (induction sfs c rep rule: collect_files.induct)
     (auto intro!: same_files.keeps_all simp: ReadAll_def, (intro same_files.keeps_all files_external)+)

lemma files_reading: "keeps same_files (ReadAll p)" "keeps same_files (Checksum p)"
  unfolding ReadAll_def Checksum_def by (auto intro!: same_files.keeps_all files_external)

lemma files_scan: "keeps same_files ScanAll"
proof -
  have "keeps same_files (scan_types ts)" for ts
    by (induction ts) (auto simp: ScanEntityType_def intro!: same_files.keeps_all files_external)
  then show ?thesis by (simp add: ScanAll_def)
qed

lemma files_insert_all: "(\<And>r. keeps same_files (insert1 r)) \<Longrightarrow> keeps same_files (insert_all insert1 what rs)"
  by (induction rs) (auto intro!: same_files.keeps_all)

lemma files_insert: "keeps same_files (insert_collected ord c)"
  unfolding insert_collected_def by (intro same_files.keeps_all files_insert_all files_statements)

lemma files_delete: "keeps same_files (delete_tables ts)"
  by (induction ts rule: delete_tables.induct) (auto intro!: same_files.keeps_all files_exec)

lemma files_post: "keeps same_files postProcessRebuild"
  unfolding postProcessRebuild_def by (intro same_files.keeps_all files_exec)

lemma files_manifests: "keeps same_files (manifests_of now sfs)"
  by (induction sfs) (auto simp: UpsertManifest_def put_manifest_def intro!: same_files.keeps_all files_exec files_reading)

lemma files_rollback: "keeps same_files m \<Longrightarrow> keeps same_files (rollback_on_error m)"
  by (auto simp: keeps_def same_files_def rollback_on_error_def split: prod.splits sum.splits) (metis snd_conv)+

lemma files_Rebuild: "keeps same_files (RebuildIndex ord)"
  unfolding RebuildIndex_def Let_def rebuildManifests_def DeleteAllData_def
  by (intro same_files.keeps_all files_scan files_rollback files_delete files_insert files_post files_clock files_manifests
      keeps_files_collect files_external) (auto intro!: same_files.keeps_all files_external files_rollback files_delete files_insert files_post files_clock files_manifests
      keeps_files_collect)

lemma index_reading: "keeps same_index (ReadAll p)" "keeps same_index ScanAll" "keeps same_index (collect_files sfs c rep)"
proof -
  show read: "keeps same_index (ReadAll p)" for p
    unfolding ReadAll_def by (auto intro!: same_index.keeps_all keeps_rules)
  have "keeps same_index (scan_types ts)" for ts
    by (induction ts) (auto simp: ScanEntityType_def intro!: same_index.keeps_all keeps_rules)
  then show "keeps same_index ScanAll" by (simp add: ScanAll_def)
  show "keeps same_index (collect_files sfs c rep)"
    by (induction sfs c rep rule: collect_files.induct) (auto intro!: same_index.keeps_all read)
qed

lemma RebuildIndex_Inl: "RebuildIndex ord w = (Inl e, w') \<Longrightarrow> db_index w' = db_index w"
  unfolding RebuildIndex_def Let_def
  by (auto simp: op_results split: prod.splits dest!: rollback_Inl index_reading(2) [THEN keepsD]
      index_reading(3) [THEN keepsD] external_index simp: same_index_def)

text \<open>a rebuild never touches the shards, and one that fails, wherever it fails, leaves the
  index as it was.\<close>
theorem RebuildIndex_atomic:
  "sh_files (snd (RebuildIndex ord w)) = sh_files w
   \<and> (case fst (RebuildIndex ord w) of Inl e \<Rightarrow> db_index (snd (RebuildIndex ord w)) = db_index w | Inr rep \<Rightarrow> True)"
proof (cases "RebuildIndex ord w")
  case (Pair r w')
  then show ?thesis
    using keepsD [OF files_Rebuild Pair] RebuildIndex_Inl [of ord w _ w']
    by (cases r) (simp_all add: same_files_def)
qed

section \<open>A rebuild on an index that still has rules\<close>

lemma insert_all_keeps:
  "insert_all insert1 what rs w = (Inr n, w') \<Longrightarrow>
    (\<And>r w u w'. insert1 r w = (Inr u, w') \<Longrightarrow> P (db_index w) \<Longrightarrow> P (db_index w')) \<Longrightarrow> P (db_index w) \<Longrightarrow> P (db_index w')"
proof (induction rs arbitrary: w n)
  case (Cons r rs)
  from Cons.prems(1) obtain u w1 m where "insert1 r w = (Inr u, w1)" "insert_all insert1 what rs w1 = (Inr m, w')"
    by (auto simp: op_results)
  with Cons.IH [of w1 m] Cons.prems(2,3) show ?case by blast
qed (simp add: retM_Inr)

lemma insert_rules_new:
  "insert_all InsertRule what rs w = (Inr n, w') \<Longrightarrow> r \<in> set rs \<Longrightarrow>
    rule_Version r \<notin> rule_Version ` set (tab_rules (db_index w))"
proof (induction rs arbitrary: w n)
  case (Cons s rs)
  from Cons.prems(1) obtain u w1 m where first: "InsertRule s w = (Inr u, w1)"
    and rest: "insert_all InsertRule what rs w1 = (Inr m, w')" by (auto simp: op_results)
  from insert_effect(7) [OF first] have "rule_Version s \<notin> rule_Version ` set (tab_rules (db_index w))"
    "set (tab_rules (db_index w)) \<subseteq> set (tab_rules (db_index w1))"
    by (auto simp: put_Inr)
  with Cons.IH [OF rest] Cons.prems(2) show ?case by auto
qed simp

text \<open>C38: \<open>DeleteAllData\<close> leaves the rules, so on an index that holds a rule of the shards the rebuild
  fails at the first of them, and changes nothing.\<close>
theorem RebuildIndex_with_rules:
  assumes q: "rt_faults (w :: 'a world_scheme) = []" and ord: "enumerates ord (contents w)"
    and old: "r \<in> set (tab_rules (db_index w))" and line: "rulesByVersion (contents w) (rule_Version r) = Some s"
  shows "\<exists>e w'. RebuildIndex ord w = (Inl e, w') \<and> db_index w' = db_index w"
proof (cases "RebuildIndex ord w")
  case (Pair res w')
  show ?thesis
  proof (cases res)
    case (Inl e)
    with Pair RebuildIndex_Inl [of ord w e w'] show ?thesis by blast
  next
    case (Inr rep)
    let ?r0 = "\<lparr>rr_TotalShards = int (length (shard_list w)), rr_IndexedShards = 0,
      rr_SkippedShards = 0, rr_CorruptedShards = [], rr_TotalRecords = 0\<rparr>"
    let ?w1 = "w\<lparr>db_index := cleared (db_index w)\<rparr>"
    obtain rep' where collect: "collect_files (shard_list w) newCollector ?r0 w = (Inr (contents w, rep'), w)"
      using collect_files_quiet [OF q] unfolding contents_def by metis
    have "RebuildIndex ord w = (Inr rep, w')" using Pair Inr by simp
    then obtain n w2 where ins: "insert_collected ord (contents w) ?w1 = (Inr n, w2)"
      unfolding RebuildIndex_def run_map [where m = ScanAll, OF ScanAll_quiet [OF q]] Let_def shard_list_def [symmetric]
        run_step [where m = "collect_files (shard_list w) newCollector ?r0", OF collect] prod.case
        run_map [where m = external, OF external_quiet [OF q]] rollback_Inr
        run_map [where m = DeleteAllData, OF DeleteAllData_quiet [OF q]]
      by (auto simp: bindM_Inr)
    then obtain n1 w3 n2 w4 where
        items: "insert_all InsertItem (\<lambda>i. ''item '' @ case_ID i) (List.map_filter (itemsByID (contents w)) (ord_items ord)) ?w1 = (Inr n1, w3)"
      and rules: "insert_all InsertRule (\<lambda>r. ''rule v'' @ show_int (rule_Version r))
        (List.map_filter (rulesByVersion (contents w)) (ord_rules ord)) w3 = (Inr n2, w4)"
      unfolding insert_collected_def by (auto simp: bindM_Inr)
    have keep: "r \<in> set (tab_rules (db_index v'))"
      if "InsertItem j v = (Inr u, v')" "r \<in> set (tab_rules (db_index v))" for j u and v v' :: "'a world_scheme"
      using insert_effect(1) [OF that(1)] that(2) by (simp add: put_item_Inr)
    have "r \<in> set (tab_rules (db_index w3))"
      by (rule insert_all_keeps [OF items, of "\<lambda>ix. r \<in> set (tab_rules ix)"], erule (1) keep)
         (use old in \<open>simp add: cleared_def\<close>)
    moreover have "s \<in> set (List.map_filter (rulesByVersion (contents w)) (ord_rules ord))"
      using ord line range_set [of "ord_rules ord" "rulesByVersion (contents w)"] by (auto simp: enumerates_def ran_def)
    moreover have "rule_Version s = rule_Version r" using line unfolding contents_def by (rule rules.key_of)
    ultimately show ?thesis using insert_rules_new [OF rules] by fastforce
  qed
qed

section \<open>The index after a rebuild\<close>

definition last_rows :: "('d \<Rightarrow> 'k) \<Rightarrow> ('r \<Rightarrow> 'k) \<Rightarrow> ('r \<Rightarrow> 'd) \<Rightarrow> 'd list \<Rightarrow> 'r list \<Rightarrow> bool" where
  \<comment> \<open>the table holds, for each key, the row of the last record with that key\<close>
  "last_rows row_key key row_of rows rs \<longleftrightarrow>
     distinct (map row_key rows) \<and> (\<forall>k. find_key row_key k rows = map_option row_of (last_with key k rs))"

lemma last_rows_filled:
  assumes "keyed key m" and "set ks = dom m" and "distinct ks" and "\<And>k. m k = last_with key k rs"
    and "\<And>r. row_key (row_of r) = key r"
  shows "last_rows row_key key row_of (map row_of (List.map_filter m ks)) rs"
  using range_keys [OF assms(1,2)] range_find [OF assms(1,2,3)] assms(3,4,5)
  by (simp add: last_rows_def find_key_map o_def)

lemma last_rows_update:
  assumes "last_rows row_key key row_of rows rs" and "\<And>d. p d \<Longrightarrow> row_key (f d) = row_key d"
    and "\<And>r. r \<in> set rs \<Longrightarrow> p (row_of r) = p' r"
  shows "last_rows row_key key (\<lambda>r. if p' r then f (row_of r) else row_of r) (update_where p f rows) rs"
  unfolding last_rows_def
proof (intro conjI allI)
  show "distinct (map row_key (update_where p f rows))"
    using assms(1) by (simp add: map_update_where assms(2) last_rows_def)
  show "find_key row_key k (update_where p f rows)
      = map_option (\<lambda>r. if p' r then f (row_of r) else row_of r) (last_with key k rs)" for k
    using assms(1,3) by (cases "last_with key k rs")
      (auto simp: find_key_update_where assms(2) last_rows_def dest: last_with_key)
qed

definition escalated :: "index \<Rightarrow> string \<Rightarrow> bool" where
  "escalated ix itemID \<longleftrightarrow> itemID \<in> esc_ItemID ` set (tab_escalations ix)"

definition marked_superseded :: "index \<Rightarrow> int \<Rightarrow> bool" where
  "marked_superseded ix v \<longleftrightarrow> v \<in> (\<lambda>d. sql_integer (aud_EntityID d)) `
     set (filter (\<lambda>d. aud_Action d = ''supersede_rule'' \<and> aud_EntityType d = ''rule'') (tab_audit_entries ix))"

text \<open>C37: on an index without rules, with no failure outside and no external reference in two
  cases, the rebuild succeeds, in whatever order the maps are ranged over: each table holds, for
  each key, the row of the last line with that key, except that the referrals of escalated cases
  are not current and the superseded rules are marked.\<close>
theorem RebuildIndex_last_line:
  assumes q: "rt_faults (w :: 'a world_scheme) = []" and ord: "enumerates ord (contents w)"
    and refs: "one_per_ref (contents w)" and rules: "tab_rules (db_index w) = []"
  shows "\<exists>rep ix. fst (RebuildIndex ord w) = Inr rep \<and> db_index (snd (RebuildIndex ord w)) = ix
    \<and> last_rows case_ID case_ID row_of_item (tab_items ix)
        (List.map_filter as_item (typed_lines w ''items'' (shard_list w)))
    \<and> last_rows ref_ID ref_ID
        (\<lambda>a. if escalated ix (ref_ItemID a) then row_of_referral a\<lparr>ref_IsCurrent := False\<rparr> else row_of_referral a)
        (tab_assignments ix) (List.map_filter as_referral (typed_lines w ''assignments'' (shard_list w)))
    \<and> last_rows rule_Version rule_Version
        (\<lambda>r. if marked_superseded ix (rule_Version r) then row_of_rule r\<lparr>rule_Status := RuleStatusSuperseded\<rparr>
             else row_of_rule r)
        (tab_rules ix) (List.map_filter as_rule (typed_lines w ''rules'' (shard_list w)))
    \<and> last_rows esc_ID esc_ID row_of_escalation (tab_escalations ix)
        (List.map_filter as_escalation (typed_lines w ''escalations'' (shard_list w)))
    \<and> last_rows aud_ID aud_ID row_of_audit (tab_audit_entries ix)
        (List.map_filter as_audit (typed_lines w ''audit'' (shard_list w)))
    \<and> last_rows fail_ID fail_ID row_of_failure (tab_permanent_failures ix)
        (List.map_filter as_failure (typed_lines w ''failures'' (shard_list w)))
    \<and> last_rows batch_ID batch_ID row_of_batch (tab_import_batches ix)
        (List.map_filter as_batch (typed_lines w ''batches'' (shard_list w)))"
proof -
  let ?c = "contents w"
  let ?f = "filled ord ?c (cleared (db_index w))"
  from RebuildIndex_quiet [OF q ord refs rules] obtain rep ms where
    run: "RebuildIndex ord w = (Inr rep, w\<lparr>rt_ticks := Suc (rt_ticks w), db_index := (processed ?f)\<lparr>tab_shard_manifest := ms\<rparr>\<rparr>)"
    by blast
  note ord' = ord [unfolded enumerates_def]
  have k: "all_keyed ?c" unfolding contents_def by (rule collected_keyed)
  note k' = k [unfolded all_keyed_def]
  let ?ix = "(processed ?f)\<lparr>tab_shard_manifest := ms\<rparr>"
  have ref: "ref_ItemID (row_of_referral a) = ref_ItemID a" for a by (simp add: row_of_referral_def)
  have "last_rows ref_ID ref_ID row_of_referral (tab_assignments ?f) (List.map_filter as_referral (typed_lines w ''assignments'' (shard_list w)))"
    unfolding filled_def using ord' k' by (simp add: last_rows_filled contents_are)
  then have a: "last_rows ref_ID ref_ID (\<lambda>a. if escalated ?ix (ref_ItemID a) then row_of_referral a\<lparr>ref_IsCurrent := False\<rparr>
      else row_of_referral a) (tab_assignments ?ix) (List.map_filter as_referral (typed_lines w ''assignments'' (shard_list w)))"
    unfolding processed_def escalated_def by simp (rule last_rows_update, simp_all add: ref)
  have "last_rows rule_Version rule_Version row_of_rule (tab_rules ?f) (List.map_filter as_rule (typed_lines w ''rules'' (shard_list w)))"
    unfolding filled_def using ord' k' by (simp add: last_rows_filled contents_are)
  then have r: "last_rows rule_Version rule_Version (\<lambda>r. if marked_superseded ?ix (rule_Version r)
      then row_of_rule r\<lparr>rule_Status := RuleStatusSuperseded\<rparr> else row_of_rule r)
      (tab_rules ?ix) (List.map_filter as_rule (typed_lines w ''rules'' (shard_list w)))"
    unfolding processed_def marked_superseded_def by simp (rule last_rows_update, simp_all)
  show ?thesis
    using a r ord' k' unfolding run
    by (intro exI [of _ rep] exI [of _ ?ix] conjI)
       (simp_all add: processed_def filled_def last_rows_filled contents_are)
qed

section \<open>Reconciliation after a rebuild\<close>

lemma manifest_by_path_snoc: "manifest_by_path (ms @ [m]) = (manifest_by_path ms)(man_ShardPath m \<mapsto> m)"
  by (simp add: manifest_by_path_def)

lemma manifest_by_path_mem:
  "p \<in> man_ShardPath ` set ms \<Longrightarrow> \<exists>m \<in> set ms. manifest_by_path ms p = Some m \<and> man_ShardPath m = p"
proof (induction ms rule: rev_induct)
  case (snoc m ms)
  then show ?case by (cases "man_ShardPath m = p") (auto simp: manifest_by_path_snoc)
qed simp

definition unreadable :: "'a world_scheme \<Rightarrow> ShardFile \<Rightarrow> bool" where
  "unreadable w sf \<longleftrightarrow> (\<exists>e. read_file w (sf_Path sf) = Inl e)"

lemma reconcile_clean:
  assumes q: "rt_faults w = []"
    and "\<And>sf. sf \<in> set sfs \<Longrightarrow> \<exists>m. byPath (sf_Path sf) = Some m
      \<and> (\<forall>ls. read_file w (sf_Path sf) = Inr ls \<longrightarrow>
          man_RecordCount m = int (length ls) \<and> man_Checksum m = sha256_hex (file_bytes ls))"
  shows "\<exists>rc. reconcile_files byPath sfs report w = (Inr rc, w)
    \<and> rc_OrphanedInShard rc = rc_OrphanedInShard report \<and> rc_MissingInShard rc = rc_MissingInShard report
    \<and> rc_ChecksumMismatches rc = rc_ChecksumMismatches report \<and> rc_ShardCount rc = rc_ShardCount report
    \<and> length (rc_Details rc) = length (rc_Details report) + length (filter (unreadable w) sfs)"
  using assms(2)
proof (induction sfs arbitrary: report)
  case Nil
  then show ?case by (simp add: retM_def)
next
  case (Cons sf sfs)
  note IH = Cons.IH [OF Cons.prems [OF list.set_intros(2)]]
  show ?case
  proof (cases "read_file w (sf_Path sf)")
    case (Inl e)
    with IH [of "report\<lparr>rc_Details := rc_Details report @ [''corrupted shard '' @ sf_Path sf @ '': '' @ errText e]\<rparr>"] q
    show ?thesis by (auto simp: bindM_def tryM_def ReadAll_quiet unreadable_def)
  next
    case (Inr ls)
    with Cons.prems [of sf] obtain m where m: "byPath (sf_Path sf) = Some m" "man_RecordCount m = int (length ls)"
      "man_Checksum m = sha256_hex (file_bytes ls)" by auto
    with IH [of "report\<lparr>rc_IndexCount := wrap64 (rc_IndexCount report + int (length ls))\<rparr>"] q Inr
    show ?thesis
      by (auto simp: bindM_def tryM_def ReadAll_quiet Checksum_quiet read_digest count_mismatch_def checksum_mismatch_def
          unreadable_def)
  qed
qed

lemma ListManifest_quiet:
  assumes "rt_faults w = []"
  shows "ListManifest w = (Inr (sort_key man_EntityType (sort_key man_DateKey (tab_shard_manifest (db_index w)))), w)"
proof -
  let ?list = "sort_key man_EntityType (sort_key man_DateKey (tab_shard_manifest (db_index w)))"
  have "succeeds ListManifest (\<lambda>a v. a = ?list \<and> v = w) w"
    unfolding ListManifest_def listed_manifests_def succeeds_query_rows [OF assms] using mapE_all [of ?list Inr "\<lambda>m. m"] by simp
  then show ?thesis by (auto simp: succeeds_def)
qed

text \<open>The manifest that a rebuild writes knows every file, by its path and with what can be read in it.\<close>

lemma manifests_known:
  assumes "sf \<in> set sfs" and "set ms = manifest_for now w ` set sfs" and "read_file w' = read_file w"
  shows "\<exists>m. manifest_by_path ms (sf_Path sf) = Some m
      \<and> (\<forall>ls. read_file w' (sf_Path sf) = Inr ls \<longrightarrow>
          man_RecordCount m = int (length ls) \<and> man_Checksum m = sha256_hex (file_bytes ls))"
proof -
  have "sf_Path sf \<in> man_ShardPath ` set ms" using assms(1,2) by force
  from manifest_by_path_mem [OF this] assms(2) obtain sf' where
    "manifest_by_path ms (sf_Path sf) = Some (manifest_for now w sf')" "sf_Path sf' = sf_Path sf"
    by auto
  with assms(3) show ?thesis by (auto simp: manifest_for_def manifest_entry_def)
qed

text \<open>C39: right after a rebuild the reconciliation finds nothing orphaned, missing or altered; its
  only details are the shards that cannot be read.\<close>
theorem Reconcile_after_rebuild:
  assumes q: "rt_faults (w :: 'a world_scheme) = []" and ord: "enumerates ord (contents w)"
    and refs: "one_per_ref (contents w)" and rules: "tab_rules (db_index w) = []"
    and ids: "distinct (map shard_id (shard_list w))"
  shows "\<exists>rc. fst (Reconcile (snd (RebuildIndex ord w))) = Inr rc
    \<and> rc_ShardCount rc = int (length (shard_list w)) \<and> rc_OrphanedInShard rc = 0 \<and> rc_MissingInShard rc = 0
    \<and> rc_ChecksumMismatches rc = 0 \<and> length (rc_Details rc) = length (filter (unreadable w) (shard_list w))"
proof -
  let ?now = "rt_wall w (rt_ticks w)"
  let ?ix = "processed (filled ord (contents w) (cleared (db_index w)))"
  let ?ms = "map (manifest_for ?now w) (shard_list w)"
  let ?w' = "w\<lparr>rt_ticks := Suc (rt_ticks w), db_index := ?ix\<lparr>tab_shard_manifest := ?ms\<rparr>\<rparr>"
  let ?list = "sort_key man_EntityType (sort_key man_DateKey ?ms)"
  let ?r0 = "\<lparr>rc_ShardCount = int (length (scanned w)), rc_IndexCount = 0, rc_OrphanedInShard = 0, rc_MissingInShard = 0,
          rc_ChecksumMismatches = 0, rc_Details = []\<rparr>"
  have run: "snd (RebuildIndex ord w) = ?w'"
    using RebuildIndex_quiet [OF q ord refs rules] ids by auto
  have q': "rt_faults ?w' = []" using q by simp
  have same: "scanned ?w' = scanned w" "unreadable ?w' = unreadable w" "read_file ?w' = read_file w"
    by (simp_all add: scanned_def unreadable_def fun_eq_iff)
  have list: "ListManifest ?w' = (Inr ?list, ?w')" using ListManifest_quiet [OF q'] by simp
  have "set ?list = manifest_for ?now w ` set (scanned w)" by (simp add: shard_list_def)
  note known = manifests_known [OF _ this same(3)]
  obtain rc where "reconcile_files (manifest_by_path ?list) (scanned w) ?r0 ?w' = (Inr rc, ?w')"
    and rc: "rc_OrphanedInShard rc = 0" "rc_MissingInShard rc = 0" "rc_ChecksumMismatches rc = 0"
      "rc_ShardCount rc = int (length (scanned w))" "length (rc_Details rc) = length (filter (unreadable w) (scanned w))"
    using reconcile_clean [OF q', of "scanned w" "manifest_by_path ?list" ?r0] known same(2) by auto
  then have "Reconcile ?w' = (Inr rc, ?w')"
    unfolding Reconcile_def by (simp only: run_step [where m = ScanAll, OF ScanAll_quiet [OF q']]
        run_step [where m = ListManifest, OF list] same)
  moreover have "length (filter p (scanned w)) = length (filter p (shard_list w))" "length (scanned w) = length (shard_list w)" for p
    by (simp_all only: shard_list_def filter_sort length_sort)
  ultimately show ?thesis unfolding run using rc by simp
qed

section \<open>A concrete rebuild\<close>

text \<open>Two lines of a case, of which the second is the later, and a rule.\<close>

definition sample_shards :: "rule_row list \<Rightarrow> world" where
  "sample_shards rows = sample_world\<lparr>db_index := empty_index\<lparr>tab_rules := rows\<rparr>, sh_files :=
     [(''data/shards/items/2024-01/a.jsonl'', [ItemEntry sample_case, ItemEntry (sample_case\<lparr>case_Title := ''u''\<rparr>)]),
      (''data/shards/rules/2024-01/a.jsonl'', [RuleEntry (sample_rule 1 5 True)])]\<rparr>"

lemma sample_scanned: "shard_list (sample_shards rows) = [\<lparr>sf_Path = ''data/shards/items/2024-01/a.jsonl'', sf_EntityType = ''items''\<rparr>,
    \<lparr>sf_Path = ''data/shards/rules/2024-01/a.jsonl'', sf_EntityType = ''rules''\<rparr>]"
  by (simp add: shard_list_def scanned_def sample_shards_def sample_world_def shard_types_def in_dir_def has_suffix_def
      sort_key_def)

lemma sample_times: "rfc3339nano 0 = ''0001-01-01T00:00:00Z''" "rfc3339nano 1 = ''0001-01-01T00:00:00.000000001Z''"
  "rfc3339nano 10 = ''0001-01-01T00:00:00.00000001Z''" "rfc3339nano 20 = ''0001-01-01T00:00:00.00000002Z''"
  by (simp_all add: time_eval)

lemma sample_sizes: "line_size (ItemEntry sample_case) \<le> max_line"
  "line_size (ItemEntry (sample_case\<lparr>case_Title := ''u''\<rparr>)) \<le> max_line"
  "line_size (RuleEntry (sample_rule 1 5 True)) \<le> max_line"
  by (simp_all add: line_size_def entry_json.simps sample_case_def sample_rule_def json_object_def json_time_def sample_times
      json_string_def json_char_def quote_char_def backslash_def json_strings_def json_bool_def rule_status_name_def
      show_int_def show_nat.simps digit_numerals omit_empty_def max_line_def)

lemma sample_lines: "typed_lines (sample_shards rows) t (shard_list (sample_shards rows)) =
    (if t = ''items'' then [ItemEntry sample_case, ItemEntry (sample_case\<lparr>case_Title := ''u''\<rparr>)]
     else if t = ''rules'' then [RuleEntry (sample_rule 1 5 True)] else [])"
  using sample_sizes
  by (simp add: typed_lines_def sample_scanned read_file_def) (simp add: sample_shards_def)

lemma sample_contents:
  "itemsByID (contents (sample_shards rows)) = [''i1'' \<mapsto> sample_case\<lparr>case_Title := ''u''\<rparr>]"
  "rulesByVersion (contents (sample_shards rows)) = [1 \<mapsto> sample_rule 1 5 True]"
  "assignmentsByID (contents (sample_shards rows)) = Map.empty"
  "escalationsByID (contents (sample_shards rows)) = Map.empty"
  "auditByID (contents (sample_shards rows)) = Map.empty"
  "failuresByID (contents (sample_shards rows)) = Map.empty"
  "batchesByID (contents (sample_shards rows)) = Map.empty"
  by (simp_all add: fun_eq_iff contents_are sample_lines List.map_filter_simps last_with_def)
     (simp_all add: sample_case_def sample_rule_def)

definition sample_orders :: range_orders where
  "sample_orders = \<lparr>ord_items = [''i1''], ord_rules = [1], ord_assignments = [], ord_escalations = [], ord_audit = [],
     ord_failures = [], ord_batches = []\<rparr>"

lemma sample_hyps: "rt_faults (sample_shards rows) = []" "enumerates sample_orders (contents (sample_shards rows))"
  "one_per_ref (contents (sample_shards rows))"
  by (simp_all add: enumerates_def sample_contents sample_orders_def one_per_ref_def)
     (simp add: sample_shards_def sample_world_def)

theorem RebuildIndex_last_line_witness:
  "\<exists>rep. fst (RebuildIndex sample_orders (sample_shards [])) = Inr rep
     \<and> find_key case_ID ''i1'' (tab_items (db_index (snd (RebuildIndex sample_orders (sample_shards [])))))
       = Some (row_of_item (sample_case\<lparr>case_Title := ''u''\<rparr>))"
proof -
  have "tab_rules (db_index (sample_shards [])) = []" by (simp add: sample_shards_def)
  from RebuildIndex_last_line [OF sample_hyps this] show ?thesis
    by (auto simp: last_rows_def sample_lines List.map_filter_simps last_with_def sample_case_def)
qed

theorem RebuildIndex_with_rules_witness:
  "\<exists>e w'. RebuildIndex sample_orders (sample_shards [row_of_rule (sample_rule 1 5 True)]) = (Inl e, w')
     \<and> tab_rules (db_index w') = [row_of_rule (sample_rule 1 5 True)]"
  using RebuildIndex_with_rules [OF sample_hyps(1,2), of "row_of_rule (sample_rule 1 5 True)" "[row_of_rule (sample_rule 1 5 True)]"
      "sample_rule 1 5 True"]
  by (auto simp: sample_contents) (auto simp: sample_shards_def sample_rule_def)

theorem Reconcile_after_rebuild_witness:
  "\<exists>rc. fst (Reconcile (snd (RebuildIndex sample_orders (sample_shards [])))) = Inr rc \<and> rc_ShardCount rc = 2
     \<and> rc_OrphanedInShard rc = 0 \<and> rc_ChecksumMismatches rc = 0"
proof -
  have "tab_rules (db_index (sample_shards [])) = []" by (simp add: sample_shards_def)
  moreover have "distinct (map shard_id (shard_list (sample_shards [])))"
    by (simp add: sample_scanned shard_id_def)
  ultimately show ?thesis using Reconcile_after_rebuild [OF sample_hyps] by (auto simp: sample_scanned)
qed

end
