(* ===== verification/Go_Strings.thy ===== *)
theory Go_Strings
  imports Hub_Prelude
begin

text \<open>
  What the program uses of the package strings, on strings as the lists of their bytes:
  \<open>TrimSpace\<close> and \<open>Fields\<close> with the white space of Unicode in its UTF-8 encoding, and the two
  changes of case. The latter are exact whenever their result is a text in ASCII, which is all
  that the program compares it with: beside the letters of ASCII, dotless i and long s have an
  upper case there, and dotted I and the Kelvin sign a lower case.
\<close>

section \<open>White space\<close>

definition space_seqs :: "string list" where
  "space_seqs = [[CHR 0x09], [CHR 0x0A], [CHR 0x0B], [CHR 0x0C], [CHR 0x0D], [CHR 0x20],
     [CHR 0xC2, CHR 0x85], [CHR 0xC2, CHR 0xA0], [CHR 0xE1, CHR 0x9A, CHR 0x80],
     [CHR 0xE2, CHR 0x80, CHR 0x80], [CHR 0xE2, CHR 0x80, CHR 0x81], [CHR 0xE2, CHR 0x80, CHR 0x82],
     [CHR 0xE2, CHR 0x80, CHR 0x83], [CHR 0xE2, CHR 0x80, CHR 0x84], [CHR 0xE2, CHR 0x80, CHR 0x85],
     [CHR 0xE2, CHR 0x80, CHR 0x86], [CHR 0xE2, CHR 0x80, CHR 0x87], [CHR 0xE2, CHR 0x80, CHR 0x88],
     [CHR 0xE2, CHR 0x80, CHR 0x89], [CHR 0xE2, CHR 0x80, CHR 0x8A], [CHR 0xE2, CHR 0x80, CHR 0xA8],
     [CHR 0xE2, CHR 0x80, CHR 0xA9], [CHR 0xE2, CHR 0x80, CHR 0xAF], [CHR 0xE2, CHR 0x81, CHR 0x9F],
     [CHR 0xE3, CHR 0x80, CHR 0x80]]"

definition starts_with :: "string list \<Rightarrow> string \<Rightarrow> nat option" where
  \<comment> \<open>the length of the sequence of the list that the text starts with\<close>
  "starts_with seqs s = map_option length (find (\<lambda>p. take (length p) s = p \<and> p \<noteq> []) seqs)"

lemma starts_with_pos: "starts_with seqs s = Some n \<Longrightarrow> 0 < n \<and> n \<le> length s"
proof -
  assume "starts_with seqs s = Some n"
  then obtain p where "find (\<lambda>p. take (length p) s = p \<and> p \<noteq> []) seqs = Some p" and n: "n = length p"
    by (auto simp: starts_with_def)
  then have "take (length p) s = p" "p \<noteq> []" by (auto simp: find_Some_iff)
  then have "0 < length p" "length (take (length p) s) = length p" by simp_all
  then show ?thesis using n by simp
qed

function trim_left :: "string list \<Rightarrow> string \<Rightarrow> string" where
  "trim_left seqs s = (case starts_with seqs s of None \<Rightarrow> s | Some n \<Rightarrow> trim_left seqs (drop n s))"
  by pat_completeness auto

termination trim_left
  by (relation "measure (\<lambda>(seqs, s). length s)") (auto dest!: starts_with_pos)

declare trim_left.simps [simp del]

definition TrimSpace :: "string \<Rightarrow> string" where
  "TrimSpace s = rev (trim_left (map rev space_seqs) (rev (trim_left space_seqs s)))"

function fields_from :: "string \<Rightarrow> string \<Rightarrow> string list" where
  \<comment> \<open>the field read so far, and the rest of the text\<close>
  "fields_from field s = (case starts_with space_seqs s of
      Some n \<Rightarrow> (if field = [] then [] else [field]) @ fields_from [] (drop n s)
    | None \<Rightarrow> (case s of [] \<Rightarrow> (if field = [] then [] else [field]) | c # cs \<Rightarrow> fields_from (field @ [c]) cs))"
  by pat_completeness auto

termination fields_from
  by (relation "measure (\<lambda>(field, s). length s)") (auto dest!: starts_with_pos)

declare fields_from.simps [simp del]

definition Fields :: "string \<Rightarrow> string list" where
  "Fields s = fields_from [] s"

fun Join_with :: "string \<Rightarrow> string list \<Rightarrow> string" where
  "Join_with sep [] = []"
| "Join_with sep [s] = s"
| "Join_with sep (s # t # ss) = s @ sep @ Join_with sep (t # ss)"

lemma trim_left_idem: "trim_left seqs (trim_left seqs s) = trim_left seqs s"
proof (induction seqs s rule: trim_left.induct)
  case (1 seqs s)
  then show ?case
    by (cases "starts_with seqs s") (simp_all add: trim_left.simps [of seqs s] trim_left.simps [of seqs "trim_left seqs s" for s])
qed

lemma trim_left_suffix: "\<exists>p. s = p @ trim_left seqs s"
proof (induction seqs s rule: trim_left.induct)
  case (1 seqs s)
  show ?case
  proof (cases "starts_with seqs s")
    case None
    then show ?thesis by (simp add: trim_left.simps [of seqs s])
  next
    case (Some n)
    with 1 obtain p where "drop n s = p @ trim_left seqs (drop n s)" by blast
    then have "s = (take n s @ p) @ trim_left seqs (drop n s)" by (metis append_assoc append_take_drop_id)
    with Some show ?thesis
      by (intro exI [of _ "take n s @ p"]) (simp add: trim_left.simps [of seqs s])
  qed
qed

section \<open>Case\<close>

definition upper_char :: "char \<Rightarrow> char" where
  "upper_char c = (if CHR ''a'' \<le> c \<and> c \<le> CHR ''z'' then char_of (of_char c - 32 :: nat) else c)"

definition lower_char :: "char \<Rightarrow> char" where
  "lower_char c = (if CHR ''A'' \<le> c \<and> c \<le> CHR ''Z'' then char_of (of_char c + 32 :: nat) else c)"

fun ToUpper :: "string \<Rightarrow> string" where
  "ToUpper [] = []"
| "ToUpper [c] = [upper_char c]"
| "ToUpper (c # d # s) =
     (if c = CHR 0xC4 \<and> d = CHR 0xB1 then CHR ''I'' # ToUpper s
      else if c = CHR 0xC5 \<and> d = CHR 0xBF then CHR ''S'' # ToUpper s
      else upper_char c # ToUpper (d # s))"

fun ToLower :: "string \<Rightarrow> string" where
  "ToLower [] = []"
| "ToLower [c] = [lower_char c]"
| "ToLower [c, d] = (if c = CHR 0xC4 \<and> d = CHR 0xB0 then ''i'' else lower_char c # ToLower [d])"
| "ToLower (c # d # e # s) =
     (if c = CHR 0xC4 \<and> d = CHR 0xB0 then CHR ''i'' # ToLower (e # s)
      else if c = CHR 0xE2 \<and> d = CHR 0x84 \<and> e = CHR 0xAA then CHR ''k'' # ToLower s
      else lower_char c # ToLower (d # e # s))"

section \<open>Evaluation\<close>

lemma TrimSpace_sample: "TrimSpace '' vn '' = ''vn'' \<and> TrimSpace ''    '' = '''' \<and> ToUpper ''vN'' = ''VN''"
  by code_simp

lemma Fields_sample: "Fields '' a  bc '' = [''a'', ''bc'']"
  by code_simp

end
