(* ===== verification/Go_Numbers.thy ===== *)
theory Go_Numbers
  imports Go_Strings Go_Time
begin

text \<open>
  The readers of numbers that the program takes from the standard library: \<open>Atoi\<close> (package
  strconv, also what \<open>ParseInt\<close> does to base ten and 64 bits) and \<open>ParseDuration\<close> (package
  time). The latter multiplies a fraction by its unit in \<open>float64\<close>: \<open>round53\<close> is the rounding
  of a positive fraction to 53 binary digits, ties to even. Only a fraction of more than three
  hundred digits leaves the range of normal numbers, and then it counts for no nanosecond in
  either reading.
\<close>

section \<open>Integers\<close>

definition Atoi :: "string \<Rightarrow> int option" where
  "Atoi s =
     (let neg = (take 1 s = ''-''); ds = (if take 1 s = ''-'' \<or> take 1 s = ''+'' then drop 1 s else s);
          n = (if neg then - int (digits_val ds) else int (digits_val ds))
      in if ds \<noteq> [] \<and> list_all is_digit ds \<and> int64 n then Some n else None)"

lemma Atoi_int64: "Atoi s = Some n \<Longrightarrow> int64 n"
  by (auto simp: Atoi_def Let_def split: if_split_asm)

section \<open>Products of fractions in floating point\<close>

function bits :: "int \<Rightarrow> int" where
  "bits n = (if n \<le> 0 then 0 else 1 + bits (n div 2))"
  by pat_completeness auto

termination bits by (relation "measure nat") auto

declare bits.simps [simp del]

definition half_even :: "int \<Rightarrow> int \<Rightarrow> int" where
  \<comment> \<open>\<open>n / d\<close> as a whole number\<close>
  "half_even n d =
     (let q = n div d; r = n mod d in if 2 * r > d \<or> 2 * r = d \<and> odd q then q + 1 else q)"

definition scaled_frac :: "int \<times> int \<Rightarrow> int \<Rightarrow> int \<times> int" where
  \<comment> \<open>the fraction divided by \<open>2 ^ e\<close>\<close>
  "scaled_frac x e = (fst x * 2 ^ nat (- e), snd x * 2 ^ nat e)"

definition round53 :: "int \<times> int \<Rightarrow> int \<times> int" where
  "round53 x =
     (let e0 = bits (fst x) - bits (snd x) - 53;
          (n0, d0) = scaled_frac x e0;
          e = (if n0 \<ge> d0 * 2 ^ 53 then e0 + 1 else e0);
          (n, d) = scaled_frac x e
      in (half_even n d * 2 ^ nat e, 2 ^ nat (- e)))"

definition times10 :: "int \<Rightarrow> int" where
  \<comment> \<open>\<open>scale *= 10\<close> in floating point, where whole numbers stay whole\<close>
  "times10 scale = (let (n, d) = round53 (scale * 10, 1) in n div d)"

definition fraction_ns :: "int \<Rightarrow> int \<Rightarrow> int \<Rightarrow> int" where
  \<comment> \<open>\<open>uint64(float64(f) * (float64(unit) / scale))\<close>\<close>
  "fraction_ns f unit scale =
     (let (fn, fd) = round53 (f, 1); (un, ud) = round53 (unit, scale);
          (n, d) = round53 (fn * un, fd * ud)
      in n div d)"

section \<open>Durations\<close>

fun leadingInt :: "int \<Rightarrow> string \<Rightarrow> (int \<times> string) option" where
  \<comment> \<open>with the value of the digits read so far\<close>
  "leadingInt x [] = Some (x, [])"
| "leadingInt x (c # s) =
     (if \<not> is_digit c then Some (x, c # s)
      else if x > 2 ^ 63 div 10 then None
      else if x * 10 + int (digit_val c) > 2 ^ 63 then None
      else leadingInt (x * 10 + int (digit_val c)) s)"

fun leadingFraction :: "int \<Rightarrow> int \<Rightarrow> bool \<Rightarrow> string \<Rightarrow> int \<times> int \<times> string" where
  "leadingFraction x scale overflow [] = (x, scale, [])"
| "leadingFraction x scale overflow (c # s) =
     (if \<not> is_digit c then (x, scale, c # s)
      else if overflow then leadingFraction x scale True s
      else if x > (2 ^ 63 - 1) div 10 then leadingFraction x scale True s
      else if x * 10 + int (digit_val c) > 2 ^ 63 then leadingFraction x scale True s
      else leadingFraction (x * 10 + int (digit_val c)) (times10 scale) False s)"

definition unitMap :: "(string \<times> int) list" where
  "unitMap = [(''ns'', 1), (''us'', 1000), ([CHR 0xC2, CHR 0xB5, CHR ''s''], 1000),
     ([CHR 0xCE, CHR 0xBC, CHR ''s''], 1000), (''ms'', 1000000), (''s'', 1000000000),
     (''m'', 60000000000), (''h'', 3600000000000)]"

definition in_unit :: "char \<Rightarrow> bool" where
  "in_unit c \<longleftrightarrow> \<not> (c = CHR ''.'' \<or> is_digit c)"

definition duration_term :: "string \<Rightarrow> (int \<times> string) option" where
  \<comment> \<open>one round of the loop: a number with its unit, and the rest\<close>
  "duration_term s =
     (case leadingInt 0 s of None \<Rightarrow> None
      | Some (v, s1) \<Rightarrow>
         let pre = length s1 \<noteq> length s;
             dot = (take 1 s1 = ''.'');
             (f, scale, s2) = (if dot then leadingFraction 0 1 False (drop 1 s1) else (0, 1, s1));
             post = (dot \<and> length s2 \<noteq> length (drop 1 s1));
             u = takeWhile in_unit s2; rest = dropWhile in_unit s2
         in if \<not> pre \<and> \<not> post then None
            else if u = [] then None
            else case map_of unitMap u of None \<Rightarrow> None
            | Some unit \<Rightarrow>
                if v > 2 ^ 63 div unit then None
                else let v' = (if f > 0 then v * unit + fraction_ns f unit scale else v * unit)
                     in if v' > 2 ^ 63 then None else Some (v', rest))"

text \<open>Each round reads a letter at least, so that the length of the text is fuel enough.\<close>

fun duration_terms :: "nat \<Rightarrow> int \<Rightarrow> string \<Rightarrow> int option" where
  "duration_terms fuel d [] = Some d"
| "duration_terms 0 d (c # s) = None"
| "duration_terms (Suc fuel) d (c # s) =
     (if \<not> (c = CHR ''.'' \<or> is_digit c) then None
      else case duration_term (c # s) of None \<Rightarrow> None
      | Some (v, rest) \<Rightarrow> if d + v > 2 ^ 63 then None else duration_terms fuel (d + v) rest)"

definition ParseDuration :: "string \<Rightarrow> duration option" where
  "ParseDuration s =
     (let neg = (take 1 s = ''-''); t = (if take 1 s = ''-'' \<or> take 1 s = ''+'' then drop 1 s else s)
      in if t = ''0'' then Some 0
         else if t = '''' then None
         else case duration_terms (length t) 0 t of None \<Rightarrow> None
         | Some d \<Rightarrow> if neg then Some (- d)
             else if d > 2 ^ 63 - 1 then None else Some d)"

lemma ParseDuration_samples:
  "map ParseDuration [''1h30m'', ''1.5h'', ''-250ms'', ''0'', ''5'', ''0.1s'', ''1.000000001s'', ''2562048h'']
     = [Some 5400000000000, Some 5400000000000, Some (- 250000000), Some 0, None, Some 100000000, Some 1000000001, None]"
  by code_simp

lemma round53_nonneg: "0 \<le> fst x \<Longrightarrow> 0 \<le> snd x \<Longrightarrow> 0 \<le> fst (round53 x) \<and> 0 \<le> snd (round53 x)"
proof -
  assume x: "0 \<le> fst x" "0 \<le> snd x"
  have half: "0 \<le> half_even n d" if "0 \<le> n" "0 \<le> d" for n d
  proof -
    have "0 \<le> n div d" using that by (simp add: div_int_pos_iff)
    then show ?thesis by (simp add: half_even_def Let_def)
  qed
  show ?thesis using x by (simp add: round53_def Let_def scaled_frac_def half)
qed

lemma fraction_ns_nonneg: "0 \<le> f \<Longrightarrow> 0 \<le> unit \<Longrightarrow> 0 \<le> scale \<Longrightarrow> 0 \<le> fraction_ns f unit scale"
  using round53_nonneg [of "(f, 1)"] round53_nonneg [of "(unit, scale)"]
    round53_nonneg [of "(fst (round53 (f, 1)) * fst (round53 (unit, scale)), snd (round53 (f, 1)) * snd (round53 (unit, scale)))"]
  by (auto simp: fraction_ns_def split_beta Let_def div_int_pos_iff)

lemma times10_nonneg: "0 \<le> scale \<Longrightarrow> 0 \<le> times10 scale"
  using round53_nonneg [of "(scale * 10, 1)"] by (auto simp: times10_def split_beta div_int_pos_iff)

lemma leadingInt_nonneg: "leadingInt x s = Some (v, r) \<Longrightarrow> 0 \<le> x \<Longrightarrow> 0 \<le> v"
  by (induction x s rule: leadingInt.induct) (auto split: if_split_asm)

lemma leadingFraction_nonneg:
  "leadingFraction x scale over s = (f, m, r) \<Longrightarrow> 0 \<le> x \<Longrightarrow> 0 \<le> scale \<Longrightarrow> 0 \<le> f \<and> 0 \<le> m"
  by (induction x scale over s rule: leadingFraction.induct) (auto simp: times10_nonneg split: if_split_asm)

lemma unitMap_nonneg: "map_of unitMap u = Some unit \<Longrightarrow> 0 \<le> unit"
  by (auto simp: unitMap_def split: if_split_asm)

lemma duration_term_nonneg: "duration_term s = Some (v, r) \<Longrightarrow> 0 \<le> v"
  by (auto simp: duration_term_def Let_def fraction_ns_nonneg
      split: option.split_asm if_split_asm prod.split_asm
      dest!: leadingInt_nonneg leadingFraction_nonneg unitMap_nonneg intro!: add_nonneg_nonneg)

lemma duration_terms_bound: "duration_terms fuel d s = Some n \<Longrightarrow> 0 \<le> d \<and> d \<le> 2 ^ 63 \<Longrightarrow> 0 \<le> n \<and> n \<le> 2 ^ 63"
  by (induction fuel d s rule: duration_terms.induct)
     (auto split: if_split_asm option.split_asm dest: duration_term_nonneg)

lemma ParseDuration_int64: "ParseDuration s = Some d \<Longrightarrow> int64 d"
proof -
  assume p: "ParseDuration s = Some d"
  have "0 \<le> n \<and> n \<le> 2 ^ 63" if "duration_terms fuel 0 t = Some n" for fuel t n
    using duration_terms_bound [OF that] by simp
  note b = this
  from p show ?thesis
    by (auto simp: ParseDuration_def Let_def int64_def split: if_split_asm option.split_asm dest!: b)
qed

end
