(* ===== verification/Config.thy ===== *)
theory Config
  imports Domain Go_Numbers
begin

text \<open>
  The package internal/config: the sections of the configuration, its defaults, the overrides
  from the environment, and the check that \<open>Load\<close> ends with. The environment is the function
  \<open>os.Getenv\<close>, which gives the empty text for a variable that is not set. Reading a file, the
  YAML decoder (a package outside, which writes over the configuration it is given) and the
  JSON decoder for the bootstrap users are parameters.
\<close>

section \<open>Data\<close>

record ServerConfig =
  srv_Port :: int
  srv_ReadTimeout :: duration
  srv_WriteTimeout :: duration
  srv_ShutdownTimeout :: duration

record StorageConfig =
  sto_DataDir :: string
  sto_ShardMaxSize :: int
  sto_SyncOnWrite :: bool

record SchedulerConfig =
  cfg_EscalationInterval :: duration
  cfg_ReconciliationInterval :: duration
  cfg_ReevalInterval :: duration
  cfg_MaxRetries :: int
  cfg_BaseBackoff :: duration
  cfg_TaskTimeout :: duration

record LoggingConfig =
  log_Level :: string
  log_Format :: string

record BusinessConfig =
  biz_DefaultDeadline :: duration
  biz_EscalationDeadlineExtension :: duration
  biz_MaxEscalationLevel :: int

record AuthBootstrapUser =
  abu_ID :: string
  abu_Username :: string
  abu_Password :: string
  abu_Role :: string

record AuthConfig =
  ath_StorePath :: string
  ath_SessionTTL :: duration
  ath_Required :: bool
  ath_BootstrapUsers :: "AuthBootstrapUser list"
  ath_BootstrapError :: string

record Config =
  con_Server :: ServerConfig
  con_Storage :: StorageConfig
  con_Scheduler :: SchedulerConfig
  con_Logging :: LoggingConfig
  con_Business :: BusinessConfig
  con_Auth :: AuthConfig

definition Defaults :: Config where
  "Defaults =
     \<lparr>con_Server = \<lparr>srv_Port = 49660, srv_ReadTimeout = 30 * nsSecond, srv_WriteTimeout = 30 * nsSecond,
        srv_ShutdownTimeout = 15 * nsSecond\<rparr>,
      con_Storage = \<lparr>sto_DataDir = ''./data'', sto_ShardMaxSize = 1048576, sto_SyncOnWrite = True\<rparr>,
      con_Scheduler = \<lparr>cfg_EscalationInterval = 30 * nsSecond, cfg_ReconciliationInterval = 5 * nsMinute,
        cfg_ReevalInterval = 1 * nsMinute, cfg_MaxRetries = 3, cfg_BaseBackoff = 1 * nsSecond,
        cfg_TaskTimeout = 10 * nsSecond\<rparr>,
      con_Logging = \<lparr>log_Level = ''info'', log_Format = ''json''\<rparr>,
      con_Business = \<lparr>biz_DefaultDeadline = 72 * nsHour, biz_EscalationDeadlineExtension = 48 * nsHour,
        biz_MaxEscalationLevel = 3\<rparr>,
      con_Auth = \<lparr>ath_StorePath = ''./data/auth.json'', ath_SessionTTL = 8 * nsHour, ath_Required = True,
        ath_BootstrapUsers = [], ath_BootstrapError = ''''\<rparr>\<rparr>"

section \<open>The check\<close>

definition Validate :: "Config \<Rightarrow> err option" where
  "Validate c =
     (if srv_Port (con_Server c) \<le> 0 \<or> srv_Port (con_Server c) > 65535 then
        Some (ErrNamed (''server.port must be between 1 and 65535, got '' @ show_int (srv_Port (con_Server c))))
      else if sto_DataDir (con_Storage c) = '''' then Some (ErrNamed ''storage.data_dir must not be empty'')
      else if biz_MaxEscalationLevel (con_Business c) < 1 then
        Some (ErrNamed ''business.max_escalation_level must be at least 1'')
      else if biz_DefaultDeadline (con_Business c) \<le> 0 then Some (ErrNamed ''business.default_deadline must be positive'')
      else if biz_EscalationDeadlineExtension (con_Business c) \<le> 0 then
        Some (ErrNamed ''business.escalation_deadline_extension must be positive'')
      else if cfg_MaxRetries (con_Scheduler c) < 1 then Some (ErrNamed ''scheduler.max_retries must be at least 1'')
      else if ath_StorePath (con_Auth c) = '''' \<or> ath_SessionTTL (con_Auth c) \<le> 0 then
        Some (ErrNamed ''auth.store_path and auth.session_ttl must be configured'')
      else if ath_BootstrapError (con_Auth c) \<noteq> '''' then
        Some (ErrNamed (''auth bootstrap users are invalid: '' @ ath_BootstrapError (con_Auth c)))
      else None)"

section \<open>The environment\<close>

text \<open>The three kinds of override: a variable that is empty or does not parse changes nothing.\<close>

definition env_text :: "string \<Rightarrow> (string \<Rightarrow> 'c \<Rightarrow> 'c) \<Rightarrow> 'c \<Rightarrow> 'c" where
  "env_text v put c = (if v \<noteq> '''' then put v c else c)"

definition env_int :: "string \<Rightarrow> (int \<Rightarrow> 'c \<Rightarrow> 'c) \<Rightarrow> 'c \<Rightarrow> 'c" where
  "env_int v put c = (if v \<noteq> '''' then case Atoi v of None \<Rightarrow> c | Some n \<Rightarrow> put n c else c)"

definition env_duration :: "string \<Rightarrow> (duration \<Rightarrow> 'c \<Rightarrow> 'c) \<Rightarrow> 'c \<Rightarrow> 'c" where
  "env_duration v put c = (if v \<noteq> '''' then case ParseDuration v of None \<Rightarrow> c | Some d \<Rightarrow> put d c else c)"

definition env_server :: "(string \<Rightarrow> string) \<Rightarrow> ServerConfig \<Rightarrow> ServerConfig" where
  "env_server env =
     env_duration (env ''WUXIANG_AI_HUB_SERVER_SHUTDOWN_TIMEOUT'') (\<lambda>d c. c\<lparr>srv_ShutdownTimeout := d\<rparr>)
     \<circ> env_duration (env ''WUXIANG_AI_HUB_SERVER_WRITE_TIMEOUT'') (\<lambda>d c. c\<lparr>srv_WriteTimeout := d\<rparr>)
     \<circ> env_duration (env ''WUXIANG_AI_HUB_SERVER_READ_TIMEOUT'') (\<lambda>d c. c\<lparr>srv_ReadTimeout := d\<rparr>)
     \<circ> env_int (env ''WUXIANG_AI_HUB_SERVER_PORT'') (\<lambda>n c. c\<lparr>srv_Port := n\<rparr>)"

definition env_storage :: "(string \<Rightarrow> string) \<Rightarrow> StorageConfig \<Rightarrow> StorageConfig" where
  "env_storage env =
     env_text (env ''WUXIANG_AI_HUB_STORAGE_SYNC_ON_WRITE'') (\<lambda>v c. c\<lparr>sto_SyncOnWrite := ToLower v = ''true''\<rparr>)
     \<circ> env_int (env ''WUXIANG_AI_HUB_STORAGE_SHARD_MAX_SIZE'') (\<lambda>n c. c\<lparr>sto_ShardMaxSize := n\<rparr>)
     \<circ> env_text (env ''WUXIANG_AI_HUB_STORAGE_DATA_DIR'') (\<lambda>v c. c\<lparr>sto_DataDir := v\<rparr>)"

definition env_scheduler :: "(string \<Rightarrow> string) \<Rightarrow> SchedulerConfig \<Rightarrow> SchedulerConfig" where
  "env_scheduler env =
     env_duration (env ''WUXIANG_AI_HUB_SCHEDULER_TASK_TIMEOUT'') (\<lambda>d c. c\<lparr>cfg_TaskTimeout := d\<rparr>)
     \<circ> env_duration (env ''WUXIANG_AI_HUB_SCHEDULER_BASE_BACKOFF'') (\<lambda>d c. c\<lparr>cfg_BaseBackoff := d\<rparr>)
     \<circ> env_int (env ''WUXIANG_AI_HUB_SCHEDULER_MAX_RETRIES'') (\<lambda>n c. c\<lparr>cfg_MaxRetries := n\<rparr>)
     \<circ> env_duration (env ''WUXIANG_AI_HUB_SCHEDULER_REEVAL_INTERVAL'') (\<lambda>d c. c\<lparr>cfg_ReevalInterval := d\<rparr>)
     \<circ> env_duration (env ''WUXIANG_AI_HUB_SCHEDULER_RECONCILIATION_INTERVAL'') (\<lambda>d c. c\<lparr>cfg_ReconciliationInterval := d\<rparr>)
     \<circ> env_duration (env ''WUXIANG_AI_HUB_SCHEDULER_ESCALATION_INTERVAL'') (\<lambda>d c. c\<lparr>cfg_EscalationInterval := d\<rparr>)"

definition env_logging :: "(string \<Rightarrow> string) \<Rightarrow> LoggingConfig \<Rightarrow> LoggingConfig" where
  "env_logging env =
     env_text (env ''WUXIANG_AI_HUB_LOGGING_FORMAT'') (\<lambda>v c. c\<lparr>log_Format := v\<rparr>)
     \<circ> env_text (env ''WUXIANG_AI_HUB_LOGGING_LEVEL'') (\<lambda>v c. c\<lparr>log_Level := v\<rparr>)"

definition env_business :: "(string \<Rightarrow> string) \<Rightarrow> BusinessConfig \<Rightarrow> BusinessConfig" where
  "env_business env =
     env_int (env ''WUXIANG_AI_HUB_BUSINESS_MAX_ESCALATION_LEVEL'') (\<lambda>n c. c\<lparr>biz_MaxEscalationLevel := n\<rparr>)
     \<circ> env_duration (env ''WUXIANG_AI_HUB_BUSINESS_ESCALATION_DEADLINE_EXTENSION'')
         (\<lambda>d c. c\<lparr>biz_EscalationDeadlineExtension := d\<rparr>)
     \<circ> env_duration (env ''WUXIANG_AI_HUB_BUSINESS_DEFAULT_DEADLINE'') (\<lambda>d c. c\<lparr>biz_DefaultDeadline := d\<rparr>)"

definition env_users ::
  "(string \<Rightarrow> string + AuthBootstrapUser list) \<Rightarrow> string \<Rightarrow> AuthConfig \<Rightarrow> AuthConfig" where
  "env_users unmarshal v c =
     (if v \<noteq> '''' then case unmarshal v of Inl text \<Rightarrow> c\<lparr>ath_BootstrapError := text\<rparr>
        | Inr users \<Rightarrow> c\<lparr>ath_BootstrapUsers := users\<rparr>
      else c)"

definition env_auth ::
  "(string \<Rightarrow> string + AuthBootstrapUser list) \<Rightarrow> (string \<Rightarrow> string) \<Rightarrow> AuthConfig \<Rightarrow> AuthConfig" where
  "env_auth unmarshal env =
     env_users unmarshal (env ''WUXIANG_AI_HUB_AUTH_BOOTSTRAP_USERS'')
     \<circ> env_duration (env ''WUXIANG_AI_HUB_AUTH_SESSION_TTL'') (\<lambda>d c. c\<lparr>ath_SessionTTL := d\<rparr>)
     \<circ> env_text (env ''WUXIANG_AI_HUB_AUTH_STORE_PATH'') (\<lambda>v c. c\<lparr>ath_StorePath := v\<rparr>)"

definition applyEnvOverrides ::
  "(string \<Rightarrow> string + AuthBootstrapUser list) \<Rightarrow> (string \<Rightarrow> string) \<Rightarrow> Config \<Rightarrow> Config" where
  \<comment> \<open>section by section; a section depends on no other\<close>
  "applyEnvOverrides unmarshal env cfg =
     \<lparr>con_Server = env_server env (con_Server cfg), con_Storage = env_storage env (con_Storage cfg),
      con_Scheduler = env_scheduler env (con_Scheduler cfg), con_Logging = env_logging env (con_Logging cfg),
      con_Business = env_business env (con_Business cfg), con_Auth = env_auth unmarshal env (con_Auth cfg)\<rparr>"

section \<open>Loading\<close>

record outside =
  out_ReadFile :: "string \<Rightarrow> err + string"
  out_Yaml :: "string \<Rightarrow> Config \<Rightarrow> err + Config"
  out_Json :: "string \<Rightarrow> string + AuthBootstrapUser list"
  out_Getenv :: "string \<Rightarrow> string"

definition load_file :: "outside \<Rightarrow> string \<Rightarrow> err + Config" where
  "load_file out path =
     (if path \<noteq> '''' then
        case out_ReadFile out path of Inl e \<Rightarrow> Inl (Wrap (''read config file '' @ path) e)
        | Inr data \<Rightarrow> (case out_Yaml out data Defaults of Inl e \<Rightarrow> Inl (Wrap ''parse config yaml'' e) | Inr cfg \<Rightarrow> Inr cfg)
      else Inr Defaults)"

definition Load :: "outside \<Rightarrow> string \<Rightarrow> err + Config" where
  "Load out path =
     (case load_file out path of Inl e \<Rightarrow> Inl e
      | Inr cfg \<Rightarrow>
         let cfg = applyEnvOverrides (out_Json out) (out_Getenv out) cfg
         in case Validate cfg of Some e \<Rightarrow> Inl e | None \<Rightarrow> Inr cfg)"

section \<open>What a loaded configuration satisfies\<close>

definition server_typed :: "ServerConfig \<Rightarrow> bool" where
  "server_typed s \<longleftrightarrow> int64 (srv_Port s) \<and> int64 (srv_ReadTimeout s) \<and> int64 (srv_WriteTimeout s)
     \<and> int64 (srv_ShutdownTimeout s)"

definition scheduler_typed :: "SchedulerConfig \<Rightarrow> bool" where
  "scheduler_typed s \<longleftrightarrow> int64 (cfg_EscalationInterval s) \<and> int64 (cfg_ReconciliationInterval s)
     \<and> int64 (cfg_ReevalInterval s) \<and> int64 (cfg_MaxRetries s) \<and> int64 (cfg_BaseBackoff s) \<and> int64 (cfg_TaskTimeout s)"

definition business_typed :: "BusinessConfig \<Rightarrow> bool" where
  "business_typed s \<longleftrightarrow> int64 (biz_DefaultDeadline s) \<and> int64 (biz_EscalationDeadlineExtension s)
     \<and> int64 (biz_MaxEscalationLevel s)"

definition config_typed :: "Config \<Rightarrow> bool" where
  \<comment> \<open>every number fits the 64 bits of its field\<close>
  "config_typed c \<longleftrightarrow> server_typed (con_Server c) \<and> int64 (sto_ShardMaxSize (con_Storage c))
     \<and> scheduler_typed (con_Scheduler c) \<and> business_typed (con_Business c) \<and> int64 (ath_SessionTTL (con_Auth c))"

lemmas typed_defs = server_typed_def scheduler_typed_def business_typed_def config_typed_def

lemma Defaults_typed: "config_typed Defaults"
  by (simp add: typed_defs Defaults_def int64_def duration_defs)

lemma Defaults_valid: "Validate Defaults = None"
  by (simp add: Validate_def Defaults_def duration_defs)

lemma env_keeps:
  "(\<And>n c. int64 n \<Longrightarrow> P c \<Longrightarrow> P (put n c)) \<Longrightarrow> P c \<Longrightarrow> P (env_int v put c)"
  "(\<And>n c. int64 n \<Longrightarrow> P c \<Longrightarrow> P (put n c)) \<Longrightarrow> P c \<Longrightarrow> P (env_duration v put c)"
  "(\<And>t c. P c \<Longrightarrow> P (put_text t c)) \<Longrightarrow> P c \<Longrightarrow> P (env_text v put_text c)"
  by (auto simp: env_int_def env_duration_def env_text_def Atoi_int64 ParseDuration_int64 split: option.split)

lemma env_sections_typed:
  "server_typed s \<Longrightarrow> server_typed (env_server env s)"
  "scheduler_typed c \<Longrightarrow> scheduler_typed (env_scheduler env c)"
  "business_typed b \<Longrightarrow> business_typed (env_business env b)"
  unfolding env_server_def env_scheduler_def env_business_def o_apply
  by ((rule env_keeps [where P = server_typed] env_keeps [where P = scheduler_typed]
      env_keeps [where P = business_typed], simp add: typed_defs)+, assumption)+

lemma env_storage_typed: "int64 (sto_ShardMaxSize s) \<Longrightarrow> int64 (sto_ShardMaxSize (env_storage env s))"
  unfolding env_storage_def o_apply
  by (intro env_keeps [where P = "\<lambda>s. int64 (sto_ShardMaxSize s)"]) simp_all

lemma env_auth_typed: "int64 (ath_SessionTTL s) \<Longrightarrow> int64 (ath_SessionTTL (env_auth unmarshal env s))"
proof -
  have users: "ath_SessionTTL (env_users unmarshal v t) = ath_SessionTTL t" for v t
    by (simp add: env_users_def split: sum.split)
  show "int64 (ath_SessionTTL s) \<Longrightarrow> int64 (ath_SessionTTL (env_auth unmarshal env s))"
    unfolding env_auth_def o_apply users
    by (intro env_keeps [where P = "\<lambda>s. int64 (ath_SessionTTL s)"]) simp_all
qed

lemma applyEnvOverrides_typed: "config_typed c \<Longrightarrow> config_typed (applyEnvOverrides unmarshal env c)"
  by (simp add: config_typed_def applyEnvOverrides_def env_sections_typed env_storage_typed env_auth_typed)

lemma Load_valid:
  assumes "\<And>data c. out_Yaml out data Defaults = Inr c \<Longrightarrow> config_typed c" and "Load out path = Inr cfg"
  shows "config_typed cfg \<and> Validate cfg = None"
proof -
  obtain base where base: "load_file out path = Inr base"
    and cfg: "cfg = applyEnvOverrides (out_Json out) (out_Getenv out) base" and valid: "Validate cfg = None"
    using assms(2) by (auto simp: Load_def Let_def split: sum.split_asm option.split_asm)
  have "config_typed base"
    using base assms(1) Defaults_typed by (auto simp: load_file_def split: if_split_asm sum.split_asm)
  then show ?thesis using valid unfolding cfg by (simp add: applyEnvOverrides_typed)
qed

text \<open>
  C21: A configuration that \<open>Load\<close> returns is well typed and within the bounds that \<open>Validate\<close>
  checks: a port that exists, a directory, at least one escalation level and one attempt, a positive
  default deadline, extension and session time, and every number within the 64 bits of its field,
  whatever the environment says. The intervals of the three tickers are not checked and may be zero
  or negative, nor are the two durations of the retries. The one thing asked of the YAML decoder is
  that it fills a 64-bit field with a number of 64 bits.
\<close>

theorem Load_type:
  assumes "\<And>data c. out_Yaml out data Defaults = Inr c \<Longrightarrow> config_typed c"
    and "Load out path = Inr cfg"
  shows "config_typed cfg
     \<and> 1 \<le> srv_Port (con_Server cfg) \<and> srv_Port (con_Server cfg) \<le> 65535
     \<and> sto_DataDir (con_Storage cfg) \<noteq> ''''
     \<and> 1 \<le> biz_MaxEscalationLevel (con_Business cfg)
     \<and> 0 < biz_DefaultDeadline (con_Business cfg) \<and> 0 < biz_EscalationDeadlineExtension (con_Business cfg)
     \<and> 1 \<le> cfg_MaxRetries (con_Scheduler cfg)
     \<and> ath_StorePath (con_Auth cfg) \<noteq> '''' \<and> 0 < ath_SessionTTL (con_Auth cfg)
     \<and> ath_BootstrapError (con_Auth cfg) = ''''"
proof -
  from Load_valid [OF assms] have "config_typed cfg" and "Validate cfg = None" by auto
  then show ?thesis by (simp add: Validate_def split: if_split_asm)
qed

definition sample_outside :: outside where
  "sample_outside = \<lparr>out_ReadFile = (\<lambda>path. Inr ''server:''), out_Yaml = (\<lambda>data c. Inr c), out_Json = (\<lambda>text. Inr []),
     out_Getenv = (\<lambda>v. if v = ''WUXIANG_AI_HUB_SERVER_PORT'' then ''8080''
       else if v = ''WUXIANG_AI_HUB_AUTH_SESSION_TTL'' then ''a day''
       else if v = ''WUXIANG_AI_HUB_SCHEDULER_REEVAL_INTERVAL'' then ''0s'' else '''')\<rparr>"

lemma sample_overrides:
  "Load sample_outside ''hub.yaml'' = Inr (Defaults\<lparr>con_Server := (con_Server Defaults)\<lparr>srv_Port := 8080\<rparr>,
     con_Scheduler := (con_Scheduler Defaults)\<lparr>cfg_ReevalInterval := 0\<rparr>\<rparr>)"
proof -
  have nums: "Atoi ''8080'' = Some 8080" "ParseDuration ''a day'' = None" "ParseDuration ''0s'' = Some 0"
    by code_simp+
  show ?thesis
    by (simp add: Load_def load_file_def sample_outside_def applyEnvOverrides_def env_server_def env_storage_def
        env_scheduler_def env_logging_def env_business_def env_auth_def env_users_def env_int_def env_text_def
        env_duration_def nums Validate_def Defaults_def duration_defs)
qed

theorem Load_type_witness:
  "\<exists>cfg. Load sample_outside ''hub.yaml'' = Inr cfg \<and> config_typed cfg \<and> srv_Port (con_Server cfg) = 8080
     \<and> 0 < ath_SessionTTL (con_Auth cfg)"
proof -
  have yaml: "out_Yaml sample_outside data Defaults = Inr c \<Longrightarrow> config_typed c" for data c
    by (simp add: sample_outside_def Defaults_typed)
  from Load_type [of sample_outside, OF yaml sample_overrides] show ?thesis
    by (simp add: sample_overrides)
qed

end
