(* ===== verification/Scheduler.thy ===== *)
theory Scheduler
  imports Escalation_Service Worker Rebuild_Facts Config
begin

text \<open>
  The package internal/scheduler: the delay between attempts, the retry of a failing task, the
  record of a task that failed for good, and the escalation and reconciliation tasks. The context of
  a task has a deadline, \<open>TaskTimeout\<close> after its start on the wall clock: a wait that would last longer
  ends early, as does one whose context is cancelled from outside (a call that fails), and with it
  the task; a call that the deadline ends while it is under way is one that fails. The goroutines are
  in \<open>Process\<close>.
\<close>

section \<open>Operations\<close>

record schedulers = workers +
  sc_escalationRuns :: int
  sc_reconRuns :: int

definition calculateBackoff :: "SchedulerConfig \<Rightarrow> int \<Rightarrow> duration" where
  "calculateBackoff cfg attempt =
     (let attempt = (if attempt \<le> 0 then 1 else attempt);
          shift = nat (attempt - 1);
          shift = (if shift > 10 then 10 else shift)
      in wrap64 (cfg_BaseBackoff cfg * 2 ^ shift))"

definition task_failure :: "SchedulerConfig \<Rightarrow> string \<Rightarrow> string \<Rightarrow> err \<Rightarrow> int \<Rightarrow> time \<Rightarrow> time PermanentFailure" where
  "task_failure cfg failID taskName cause attempts now = \<lparr>fail_ID = failID, fail_EntityType = ''scheduler_task'',
     fail_EntityID = taskName, fail_TaskType = taskName, fail_LastError = errText cause, fail_Attempts = attempts,
     fail_FirstFailedAt = Add now (wrap64 (wrap64 (- cfg_BaseBackoff cfg) * attempts)), fail_LastFailedAt = now,
     fail_Status = FailureStatusActive, fail_ResolvedAt = None, fail_NextRetryAt = None,
     fail_BackoffState = ''exhausted after '' @ show_int attempts @ '' attempts'', fail_DataVersion = DataVersion\<rparr>"

definition recordTaskFailure :: "SchedulerConfig \<Rightarrow> string \<Rightarrow> err \<Rightarrow> int \<Rightarrow> (err, 'a world_scheme, unit) op" where
  "recordTaskFailure cfg taskName cause attempts =
     bindM Now (\<lambda>now. bindM NewString (\<lambda>failID.
     WithTx (SaveFailure (task_failure cfg failID taskName cause attempts now))))"

definition wait_backoff :: "time \<Rightarrow> duration \<Rightarrow> (err, 'a world_scheme, bool) op" where
  \<comment> \<open>the \<open>select\<close> between the context and the delay: was it the delay?\<close>
  "wait_backoff deadline backoff =
     bindM WallNow (\<lambda>now.
     if Before deadline (Add now backoff) then retM False
     else bindM (tryM external :: (err, 'a world_scheme, err + unit) op) (\<lambda>r. retM (case r of Inl e \<Rightarrow> False | Inr u \<Rightarrow> True)))"

function runWithRetry ::
  "SchedulerConfig \<Rightarrow> time \<Rightarrow> string \<Rightarrow> (err, 'a world_scheme, unit) op \<Rightarrow> int \<Rightarrow> (err, 'a world_scheme, unit) op" where
  \<comment> \<open>the loop, with the deadline of the context and the number of attempts made so far\<close>
  "runWithRetry cfg deadline taskName fn attempts =
     bindM (tryM fn) (\<lambda>r. case r of
       Inr _ \<Rightarrow> retM ()
     | Inl e \<Rightarrow>
         let attempts' = attempts + 1 in
         if attempts' \<ge> cfg_MaxRetries cfg then
           bindM (tryM (recordTaskFailure cfg taskName e attempts') :: (err, 'a world_scheme, err + unit) op) (\<lambda>_. retM ())
         else
           bindM (wait_backoff deadline (calculateBackoff cfg attempts')) (\<lambda>elapsed.
             if elapsed then runWithRetry cfg deadline taskName fn attempts' else retM ()))"
  by pat_completeness auto

termination runWithRetry
  by (relation "measure (\<lambda>(cfg, d, n, fn, attempts). nat (cfg_MaxRetries cfg - attempts))") auto

definition run_with_timeout ::
  "SchedulerConfig \<Rightarrow> string \<Rightarrow> (err, 'a world_scheme, unit) op \<Rightarrow> (err, 'a world_scheme, unit) op" where
  \<comment> \<open>what a loop does at a tick\<close>
  "run_with_timeout cfg taskName fn =
     bindM WallNow (\<lambda>now. runWithRetry cfg (Add now (cfg_TaskTimeout cfg)) taskName fn 0)"

declare runWithRetry.simps [simp del]

definition count_escalation_run :: "(err, 'a schedulers_scheme, unit) op" where
  "count_escalation_run w = (Inr (), w\<lparr>sc_escalationRuns := wrap64 (sc_escalationRuns w + 1)\<rparr>)"

definition runEscalationOnce :: "EscalationService \<Rightarrow> (err, 'a schedulers_scheme, unit) op" where
  "runEscalationOnce s =
     bindM count_escalation_run (\<lambda>_.
     bindM (CheckAndEscalate s) (\<lambda>(escs, e). case e of
       Some err \<Rightarrow> failM (Wrap ''escalation check'' err)
     | None \<Rightarrow> retM ()))"

definition count_recon_run :: "(err, 'a schedulers_scheme, unit) op" where
  "count_recon_run w = (Inr (), w\<lparr>sc_reconRuns := wrap64 (sc_reconRuns w + 1)\<rparr>)"

definition runReconciliationOnce :: "(err, 'a schedulers_scheme, unit) op" where
  \<comment> \<open>the report is logged\<close>
  "runReconciliationOnce =
     bindM count_recon_run (\<lambda>_.
     bindM (mapErr (Wrap ''reconcile'') Reconcile) (\<lambda>report. retM ()))"

section \<open>The delay\<close>

text \<open>
  The delay starts at the configured base, doubles with each attempt up to the eleventh and
  stays there: it is at least the base, at most 1024 times the base, and never shorter for a
  later attempt, as long as 1024 times the base fits a duration (a base of up to 104 days).
\<close>

theorem calculateBackoff_bounds:
  assumes "0 \<le> cfg_BaseBackoff cfg" and "1024 * cfg_BaseBackoff cfg < 2 ^ 63"
  shows "calculateBackoff cfg attempt = cfg_BaseBackoff cfg * 2 ^ min 10 (nat (attempt - 1))
     \<and> cfg_BaseBackoff cfg \<le> calculateBackoff cfg attempt
     \<and> calculateBackoff cfg attempt \<le> 1024 * cfg_BaseBackoff cfg
     \<and> (attempt \<le> attempt' \<longrightarrow> calculateBackoff cfg attempt \<le> calculateBackoff cfg attempt')"
proof -
  let ?b = "cfg_BaseBackoff cfg" and ?k = "\<lambda>n. min 10 (nat (n - 1))"
  have eq: "calculateBackoff cfg n = ?b * 2 ^ ?k n" for n
  proof -
    have "(2::int) ^ ?k n \<le> 2 ^ 10" by (rule power_increasing) simp_all
    then have "?b * 2 ^ ?k n \<le> ?b * 2 ^ 10" using assms(1) by (intro mult_left_mono) simp_all
    moreover have "0 \<le> ?b * 2 ^ ?k n" using assms(1) by simp
    ultimately have "- (2 ^ 63) \<le> ?b * 2 ^ ?k n \<and> ?b * 2 ^ ?k n < 2 ^ 63" using assms(2) by simp
    then have "wrap64 (?b * 2 ^ ?k n) = ?b * 2 ^ ?k n"
      by (intro wrap64_id) (simp add: int64_def)
    moreover have "calculateBackoff cfg n = wrap64 (?b * 2 ^ ?k n)"
      by (auto simp: calculateBackoff_def Let_def min_def)
    ultimately show ?thesis by simp
  qed
  have lo: "?b \<le> ?b * 2 ^ k" for k :: nat
    using assms(1) mult_left_mono [of 1 "2 ^ k" ?b] by simp
  have mono: "?b * 2 ^ k \<le> ?b * 2 ^ k'" if "k \<le> k'" for k k' :: nat
    using assms(1) that by (intro mult_left_mono power_increasing) simp_all
  have "?b * 2 ^ ?k attempt \<le> ?b * 2 ^ 10" by (rule mono) simp
  moreover have "?b * 2 ^ ?k attempt \<le> ?b * 2 ^ ?k attempt'" if "attempt \<le> attempt'"
    using that by (intro mono min.mono) simp_all
  ultimately show ?thesis using lo by (simp add: eq mult.commute)
qed

definition sample_retries :: "int \<Rightarrow> SchedulerConfig" where
  "sample_retries n = (con_Scheduler Defaults)\<lparr>cfg_MaxRetries := n\<rparr>"

lemma sample_retries_values [simp]:
  "cfg_MaxRetries (sample_retries n) = n" "cfg_BaseBackoff (sample_retries n) = 1000000000"
  by (simp_all add: sample_retries_def Defaults_def duration_defs)

theorem calculateBackoff_bounds_witness:
  "calculateBackoff (sample_retries 5) 3 = 4000000000"
  using calculateBackoff_bounds [of "sample_retries 5" 3 3] by simp

section \<open>A task that keeps failing\<close>

lemma recordTaskFailure_safe: "keeps safe (recordTaskFailure cfg taskName cause attempts)"
  unfolding recordTaskFailure_def by (intro safe_rules)

lemma wait_backoff_safe: "keeps safe (wait_backoff deadline backoff)"
  unfolding wait_backoff_def by (intro safe_rules)

lemma runWithRetry_safe: "keeps safe fn \<Longrightarrow> keeps safe (runWithRetry cfg deadline taskName fn attempts)"
proof (induction cfg deadline taskName fn attempts rule: runWithRetry.induct)
  case (1 cfg deadline taskName fn attempts)
  show ?case
  proof (cases "cfg_MaxRetries cfg \<le> attempts + 1")
    case True
    with "1.prems" show ?thesis
      by (subst runWithRetry.simps, simp add: Let_def) (intro safe_rules recordTaskFailure_safe)
  next
    case False
    with 1 have "keeps safe (runWithRetry cfg deadline taskName fn (attempts + 1))" by simp
    with "1.prems" False show ?thesis
      by (subst runWithRetry.simps, simp add: Let_def) (intro safe_rules wait_backoff_safe)
  qed
qed

lemma run_with_timeout_safe: "keeps safe fn \<Longrightarrow> keeps safe (run_with_timeout cfg taskName fn)"
  unfolding run_with_timeout_def by (intro safe_rules runWithRetry_safe)

lemma count_escalation_run_safe: "keeps safe count_escalation_run"
  by (auto simp: keeps_def count_escalation_run_def safe_def)

lemma Reconcile_same: "keeps same_index Reconcile"
proof -
  have "keeps same_index (Checksum p)" for p
    unfolding Checksum_def by (auto intro!: same_index.keeps_all keeps_rules)
  then have "keeps same_index (reconcile_files byPath sfs report)" for byPath sfs report
    by (induction sfs arbitrary: report)
       (auto simp: Let_def split: option.split intro!: same_index.keeps_all index_reading)
  then show ?thesis
    unfolding Reconcile_def by (intro same_index.keeps_all index_reading queries_read_only)
qed

lemma runReconciliationOnce_safe: "keeps safe runReconciliationOnce"
  unfolding runReconciliationOnce_def
  by (intro safe_rules Reconcile_same [THEN same_index_safe])
     (auto simp: keeps_def count_recon_run_def safe_def)

lemma runEscalationOnce_safe: "int64 (es_maxLevel s) \<Longrightarrow> keeps safe (runEscalationOnce s)"
  unfolding runEscalationOnce_def
  by (intro safe_rules count_escalation_run_safe)
     (auto split: prod.split option.split intro!: safe_rules CheckAndEscalate_safe)

text \<open>
  The attempts of a task that fails, the first of them on \<open>w\<close>: what an attempt leaves, with the reading
  of the clock that the wait behind it makes, and whether that wait is cut off.
\<close>

definition after_attempts :: "(err, 'a world_scheme, unit) op \<Rightarrow> nat \<Rightarrow> 'a world_scheme \<Rightarrow> 'a world_scheme" where
  "after_attempts fn k w = ((\<lambda>v. let v' = snd (fn v) in v'\<lparr>rt_ticks := Suc (rt_ticks v')\<rparr>) ^^ k) w"

definition cut_off :: "SchedulerConfig \<Rightarrow> time \<Rightarrow> (err, 'a world_scheme, unit) op \<Rightarrow> 'a world_scheme \<Rightarrow> nat \<Rightarrow> bool" where
  \<comment> \<open>the deadline lies before the end of the wait behind attempt \<open>Suc k\<close>\<close>
  "cut_off cfg deadline fn w k \<longleftrightarrow> (let v = snd (fn (after_attempts fn k w)) in
     Before deadline (Add (rt_wall v (rt_ticks v)) (calculateBackoff cfg (int (Suc k)))))"

lemma wait_quiet:
  assumes "rt_faults w = []"
  shows "wait_backoff deadline backoff w =
     (Inr (\<not> Before deadline (Add (rt_wall w (rt_ticks w)) backoff)), w\<lparr>rt_ticks := Suc (rt_ticks w)\<rparr>)"
  using assms by (simp add: wait_backoff_def) (simp add: bindM_def tryM_def external_def retM_def)

lemma tried: "bindM (tryM m :: (err, 'a world_scheme, err + unit) op) (\<lambda>_. retM ()) v = (Inr (), snd (m v))"
  by (cases "m v") (simp add: bindM_def tryM_def retM_def)

lemma runWithRetry_failed:
  assumes "fn w = (Inl e, w1)" and "rt_faults w1 = []"
  shows "runWithRetry cfg deadline taskName fn attempts w =
     (if cfg_MaxRetries cfg \<le> attempts + 1 then (Inr (), snd (recordTaskFailure cfg taskName e (attempts + 1) w1))
      else if Before deadline (Add (rt_wall w1 (rt_ticks w1)) (calculateBackoff cfg (attempts + 1)))
        then (Inr (), w1\<lparr>rt_ticks := Suc (rt_ticks w1)\<rparr>)
      else runWithRetry cfg deadline taskName fn (attempts + 1) (w1\<lparr>rt_ticks := Suc (rt_ticks w1)\<rparr>))"
proof -
  have "runWithRetry cfg deadline taskName fn attempts w =
     (let attempts' = attempts + 1 in
      if attempts' \<ge> cfg_MaxRetries cfg then
        bindM (tryM (recordTaskFailure cfg taskName e attempts') :: (err, 'a world_scheme, err + unit) op) (\<lambda>_. retM ()) w1
      else bindM (wait_backoff deadline (calculateBackoff cfg attempts')) (\<lambda>elapsed.
             if elapsed then runWithRetry cfg deadline taskName fn attempts' else retM ()) w1)"
    using assms(1) by (subst runWithRetry.simps) (subst bindM_def, simp add: Let_def tryM_def)
  then show ?thesis
    by (simp add: Let_def tried retM_def bindM_def [of "wait_backoff _ _"] wait_quiet [OF assms(2)])
qed

lemma after_attempts_Suc:
  "after_attempts fn (Suc k) w = (let v = snd (fn w) in after_attempts fn k (v\<lparr>rt_ticks := Suc (rt_ticks v)\<rparr>))"
  by (simp add: after_attempts_def Let_def funpow_Suc_right del: funpow.simps)

lemma runWithRetry_waits:
  assumes fails: "\<forall>v. rt_faults v = [] \<longrightarrow> fst (fn v) = Inl (e v) \<and> rt_faults (snd (fn v)) = []"
    and "rt_faults w = []" and "attempts + int m < max (attempts + 1) (cfg_MaxRetries cfg)"
    and "\<forall>k < m. \<not> Before deadline (Add (rt_wall (snd (fn (after_attempts fn k w))) (rt_ticks (snd (fn (after_attempts fn k w)))))
        (calculateBackoff cfg (attempts + int (Suc k))))"
  shows "runWithRetry cfg deadline taskName fn attempts w
      = runWithRetry cfg deadline taskName fn (attempts + int m) (after_attempts fn m w)
    \<and> rt_faults (after_attempts fn m w) = []"
  using assms(2-4)
proof (induction m arbitrary: attempts w)
  case 0
  then show ?case by (simp add: after_attempts_def)
next
  case (Suc m)
  obtain w1 where fn: "fn w = (Inl (e w), w1)" and quiet: "rt_faults w1 = []"
    using fails Suc.prems(1) by (metis prod.collapse)
  let ?w = "w1\<lparr>rt_ticks := Suc (rt_ticks w1)\<rparr>"
  have step: "after_attempts fn (Suc k) w = after_attempts fn k ?w" for k using fn by (simp add: after_attempts_Suc Let_def)
  have "\<not> Before deadline (Add (rt_wall w1 (rt_ticks w1)) (calculateBackoff cfg (attempts + 1)))"
    using Suc.prems(3) [rule_format, of 0] fn by (simp add: after_attempts_def)
  then have first: "runWithRetry cfg deadline taskName fn attempts w = runWithRetry cfg deadline taskName fn (attempts + 1) ?w"
    using runWithRetry_failed [of fn w _ w1 cfg deadline taskName attempts, OF fn quiet] Suc.prems(2) by auto
  have "runWithRetry cfg deadline taskName fn (attempts + 1) ?w
      = runWithRetry cfg deadline taskName fn (attempts + 1 + int m) (after_attempts fn m ?w)
    \<and> rt_faults (after_attempts fn m ?w) = []"
  proof (rule Suc.IH)
    show "rt_faults ?w = []" using quiet by simp
    show "attempts + 1 + int m < max (attempts + 1 + 1) (cfg_MaxRetries cfg)" using Suc.prems(2) by simp
    show "\<forall>k < m. \<not> Before deadline (Add (rt_wall (snd (fn (after_attempts fn k ?w))) (rt_ticks (snd (fn (after_attempts fn k ?w)))))
        (calculateBackoff cfg (attempts + 1 + int (Suc k))))"
    proof (intro allI impI)
      fix k assume "k < m"
      then show "\<not> Before deadline (Add (rt_wall (snd (fn (after_attempts fn k ?w))) (rt_ticks (snd (fn (after_attempts fn k ?w)))))
          (calculateBackoff cfg (attempts + 1 + int (Suc k))))"
        using Suc.prems(3) [rule_format, of "Suc k"] step [of k] by (simp add: algebra_simps)
    qed
  qed
  with first step show ?case by (simp add: algebra_simps)
qed

text \<open>
  C31: A task that keeps failing, while nothing else goes wrong (no call outside fails; one that is made
  after the deadline would). As long as its waits end before the
  deadline of its context, it goes on; if this holds of all of them, it is run exactly as often as
  configured, but at least once, and the failure of its last run is recorded with the number
  of runs; but if the deadline lies before the end of one of them, the task is given up there, after
  the runs made so far, and no failure is recorded. In both cases the loop returns.
\<close>

theorem runWithRetry_exhausts:
  assumes "\<forall>v. rt_faults v = [] \<longrightarrow> fst (fn v) = Inl (e v) \<and> rt_faults (snd (fn v)) = []"
    and "rt_faults w = []" and "m < nat (max 1 (cfg_MaxRetries cfg))" and "\<forall>k < m. \<not> cut_off cfg deadline fn w k"
  shows "let v = after_attempts fn m w; v' = snd (fn v) in
     (Suc m = nat (max 1 (cfg_MaxRetries cfg)) \<longrightarrow> runWithRetry cfg deadline taskName fn 0 w
        = (Inr (), snd (recordTaskFailure cfg taskName (e v) (int (Suc m)) v')))
   \<and> (Suc m < nat (max 1 (cfg_MaxRetries cfg)) \<and> cut_off cfg deadline fn w m \<longrightarrow> runWithRetry cfg deadline taskName fn 0 w
        = (Inr (), v'\<lparr>rt_ticks := Suc (rt_ticks v')\<rparr>))"
proof -
  let ?v = "after_attempts fn m w"
  have run: "runWithRetry cfg deadline taskName fn 0 w = runWithRetry cfg deadline taskName fn (int m) ?v" "rt_faults ?v = []"
    using runWithRetry_waits [OF assms(1,2), of 0 m cfg deadline taskName] assms(3,4) by (simp_all add: cut_off_def Let_def)
  have fn: "fn ?v = (Inl (e ?v), snd (fn ?v))" "rt_faults (snd (fn ?v)) = []"
    using assms(1) run(2) by (metis prod.collapse)+
  have "Suc m = nat (max 1 (cfg_MaxRetries cfg)) \<longleftrightarrow> cfg_MaxRetries cfg \<le> int m + 1"
    "Suc m < nat (max 1 (cfg_MaxRetries cfg)) \<longleftrightarrow> \<not> cfg_MaxRetries cfg \<le> int m + 1" using assms(3) by auto
  then show ?thesis
    using runWithRetry_failed [of fn ?v _ _ cfg deadline taskName "int m", OF fn] run(1)
    by (simp add: Let_def cut_off_def algebra_simps)
qed

text \<open>
  Five attempts with a second's delay before the second, and ten seconds for the task: the fourth wait
  would end after the deadline, and the failure is not recorded. Three attempts are made in time.
\<close>

definition sample_waits :: world where
  \<comment> \<open>the readings of the clock at the ends of the first attempts, in nanoseconds\<close>
  "sample_waits = sample_world\<lparr>rt_wall := (\<lambda>n. if n = 0 then 0 else 1000000000 * (2 ^ n - 1))\<rparr>"

lemma failing_attempts: "after_attempts (failM x) k w = w\<lparr>rt_ticks := rt_ticks w + k\<rparr>"
  by (induction k arbitrary: w) (simp_all add: after_attempts_Suc, simp_all add: after_attempts_def failM_def)

theorem runWithRetry_exhausts_witness:
  "runWithRetry (sample_retries 3) 10000000000 ''t'' (failM ErrNotFound) 0 sample_waits
     = (Inr (), snd (recordTaskFailure (sample_retries 3) ''t'' ErrNotFound 3 (sample_waits\<lparr>rt_ticks := 2\<rparr>)))
   \<and> runWithRetry (sample_retries 5) 10000000000 ''t'' (failM ErrNotFound) 0 sample_waits
     = (Inr (), sample_waits\<lparr>rt_ticks := 4\<rparr>)"
proof -
  have fails: "\<forall>v :: world. rt_faults v = [] \<longrightarrow> fst (failM ErrNotFound v :: (err + unit) \<times> world) = Inl ErrNotFound
      \<and> rt_faults (snd (failM ErrNotFound v :: (err + unit) \<times> world)) = []" by (simp add: failM_def)
  have failed: "snd (failM x v :: (err + unit) \<times> world) = v" for x v by (simp add: failM_def)
  have "rt_faults sample_waits = []" "rt_ticks sample_waits = 0" by (simp_all add: sample_waits_def sample_world_def)
  moreover have "cut_off (sample_retries n) 10000000000 (failM ErrNotFound) sample_waits k \<longleftrightarrow> 2 < k" if "k < 4" for n k
    using that
    by (auto simp: cut_off_def failing_attempts failM_def sample_waits_def sample_world_def Let_def Before_def Add_def
        calculateBackoff_def wrap64_def less_Suc_eq numeral_eq_Suc)
  ultimately show ?thesis
    using runWithRetry_exhausts [OF fails, of sample_waits 2 "sample_retries 3" 10000000000 "''t''"]
      runWithRetry_exhausts [OF fails, of sample_waits 3 "sample_retries 5" 10000000000 "''t''"]
    by (simp add: failing_attempts failed Let_def numeral_2_eq_2)
qed

end
