(* ===== verification/Store_Relations.thy ===== *)
theory Store_Relations
  imports Query_Service Scheduler
begin

text \<open>
  Relations between the store before and after, which every operation of the program keeps, no
  matter what it has read before: the interface \<open>tx_preorder\<close> asks for the transactions that move a
  case and for the single writes of the others, and gives all services, the scheduler and the worker;
  \<open>store_preorder\<close>, which asks for every single write, is a case of it. They are interpreted for the files,
  which only grow, for the tables, in which nothing disappears, and for the ownership of referrals
  and escalations.
\<close>

section \<open>What only reads\<close>

lemma Reconcile_files: "keeps same_files Reconcile"
proof -
  have "keeps same_files (reconcile_files byPath sfs report)" for byPath sfs report
    by (induction sfs arbitrary: report)
       (auto simp: Let_def split: option.split intro!: same_files.keeps_all files_reading)
  then show ?thesis unfolding Reconcile_def by (intro same_files.keeps_all queries_files files_scan)
qed

section \<open>The interfaces\<close>

locale rollback_preorder = step_preorder R for R :: "schedulers \<Rightarrow> schedulers \<Rightarrow> bool" +
  assumes rolled_back: "R w w' \<Longrightarrow> db_index w'' = db_index w \<Longrightarrow> sh_files w'' = sh_files w' \<Longrightarrow> R w w''"
begin

lemma unchanged: "db_index w' = db_index w \<Longrightarrow> sh_files w' = sh_files w \<Longrightarrow> R w w'"
  using step_refl by (rule rolled_back)

lemma kept_reading: "keeps same_index m \<Longrightarrow> keeps same_files m \<Longrightarrow> keeps R m"
  by (simp add: keeps_def same_index_def same_files_def unchanged)

lemma kept_runtime: "keeps R external" "keeps R Now" "keeps R WallNow" "keeps R NewString"
  by (rule kept_reading; rule keeps_rules files_external files_clock)+

lemma kept_rollback: "keeps R m \<Longrightarrow> keeps R (rollback_on_error m)"
proof (rule keepsI)
  fix w r w'
  assume k: "keeps R m" and run: "rollback_on_error m w = (r, w')"
  obtain r1 w1 where m: "m w = (r1, w1)" by (cases "m w")
  then have "R w w1" by (rule keepsD [OF k])
  with run m show "R w w'"
    by (auto simp: rollback_on_error_def split: sum.splits elim: rolled_back)
qed

lemma kept_WithTx: "keeps R fn \<Longrightarrow> keeps R (WithTx fn)"
  unfolding WithTx_def by (intro keeps_all kept_runtime kept_rollback)

lemma kept_queries:
  "keeps R (GetItemByID itemID)" "keeps R (GetItemByExternalRef xref)"
  "keeps R (ListItems f)" "keeps R (FindOverdueItems t n)"
  "keeps R CountByStatus" "keeps R (GetActiveRules t)"
  "keeps R GetCurrentRuleVersion" "keeps R ListRules" "keeps R (GetRuleByVersion v)"
  "keeps R (ListBatches bf)" "keeps R ListFailures" "keeps R ListManifest" "keeps R (GetAssignmentsByItemID itemID)"
  "keeps R (GetEscalationsByItemID itemID)" "keeps R (ListAudit g)" "keeps R (GetFailureByID itemID)"
  by (rule kept_reading, rule queries_read_only, rule queries_files)+

text \<open>A sequence whose later parts may use what the first has returned.\<close>

lemma keeps_bind_Inr:
  assumes "keeps R m" and "\<And>a w w'. m w = (Inr a, w') \<Longrightarrow> keeps R (k a)"
  shows "keeps R (bindM m k)"
proof (rule keepsI)
  fix w r w'
  assume run: "bindM m k w = (r, w')"
  obtain x w1 where x: "m w = (x, w1)" by (cases "m w")
  then have first: "R w w1" by (rule keepsD [OF assms(1)])
  show "R w w'"
  proof (cases x)
    case (Inl e)
    with x run first show ?thesis by (simp add: bindM_def)
  next
    case (Inr a)
    with x run have "k a w1 = (r, w')" by (simp add: bindM_def)
    with keepsD [OF assms(2)] x Inr first show ?thesis by (blast intro: step_trans)
  qed
qed

end

locale tx_preorder = rollback_preorder R for R :: "schedulers \<Rightarrow> schedulers \<Rightarrow> bool" +
  assumes kept_saves: "keeps R (tx_UpdateItem i)" "keeps R (SaveAudit d)" "keeps R (SaveFailure f)"
      "keeps R (tx_UpdateFailure f)" "keeps R (SaveBatch b)" "keeps R (SaveRule r)" "keeps R (SupersedeRule v)"
    and kept_register_tx: "ref_ItemID a = case_ID i \<Longrightarrow> ref_IsCurrent a \<Longrightarrow> keeps R (WithTx (register_tx i a actor now))"
    and kept_escalate_tx: "esc_ItemID e = case_ID i \<Longrightarrow> ref_ItemID a = case_ID i \<Longrightarrow> ref_IsCurrent a
      \<Longrightarrow> keeps R (WithTx (escalate_tx i e a now))"
    and kept_reeval_tx: "ref_ItemID a = case_ID i \<Longrightarrow> ref_IsCurrent a \<Longrightarrow> keeps R (WithTx (reeval_tx i a v now))"
begin

lemmas kept_rules = keeps_all kept_runtime kept_saves kept_WithTx kept_queries

lemma kept_NewEntry: "keeps R (NewEntry k ty ac who t d)"
  unfolding NewEntry_def by (intro kept_rules)

lemma kept_Adjudicate: "keeps R (Adjudicate i rules)"
  unfolding Adjudicate_alt Let_def by (intro kept_rules)

lemmas kept = kept_rules kept_NewEntry kept_Adjudicate

subsection \<open>The services\<close>

lemma kept_updateItemWithAudit: "keeps R (updateItemWithAudit i actor action details)"
  unfolding updateItemWithAudit_def update_tx_def by (intro kept)

lemma kept_case_service:
  "keeps R (StartProcessing itemID actor)" "keeps R (Modify itemID mreq)"
  "keeps R (ReturnForCorrection itemID reason actor)" "keeps R (Resubmit itemID actor)"
  "keeps R (Cancel itemID reason actor)" "keeps R (Complete itemID actor)"
  unfolding StartProcessing_def Modify_def ReturnForCorrection_def Resubmit_def
    Cancel_def Complete_def Let_def
  by (intro kept kept_updateItemWithAudit)+

text \<open>A case that is adjudicated, and the referral for it, are stored together.\<close>

lemma kept_adjudicated:
  assumes "\<And>a. case_ID (h a) = case_ID i"
  shows "keeps R (bindM (mapErr f (Adjudicate i rules)) (\<lambda>a. mapErr g (WithTx (register_tx (h a) a actor now))))"
proof (rule keeps_bind_Inr)
  fix a and w w' :: schedulers
  assume "mapErr f (Adjudicate i rules) w = (Inr a, w')"
  then have "ref_ItemID a = case_ID i \<and> ref_IsCurrent a" by (auto simp: mapErr_Inr dest: Adjudicate_fields)
  then show "keeps R (mapErr g (WithTx (register_tx (h a) a actor now)))"
    by (intro keeps_map kept_register_tx) (simp_all add: assms)
qed (intro kept)

lemma kept_Register: "keeps R (Register deadline req)"
  unfolding Register_def Let_def
  by (intro keeps_if keeps_fail kept_adjudicated keeps_bind keeps_try keeps_sum keeps_ret keeps_map kept_queries kept_runtime) simp

lemma kept_other_services:
  "keeps R (CreateRule creq)" "keeps R (RetryFailure failureID actor)"
  "keeps R (GetItemDetail itemID)" "keeps R GetBacklog" "keeps R (Export from to)"
  unfolding CreateRule_def create_rule_tx_def RetryFailure_def retry_tx_def GetItemDetail_def GetBacklog_def Export_def
  by (intro kept; auto split: prod.split intro: keeps_all)+

lemma kept_Import: "keeps R (Import deadline req)"
proof -
  have "keeps R (import_rows deadline i items result)" for i items result
    by (induction deadline i items result rule: import_rows.induct) (auto intro!: keeps_all kept_Register)
  then show ?thesis unfolding Import_def import_tx_def by (intro kept)
qed

subsection \<open>The scheduler\<close>

lemma kept_escalateItem: "keeps R (escalateItem s i now)"
  unfolding escalateItem_def Let_def
  by (intro keeps_if keeps_fail keeps_bind_Inr keeps_lift kept_escalate_tx kept_runtime)
     (auto simp: liftE_def escalation_of_def escalation_referral_def TransitionTo_Inr_iff dest!: sym [of _ "TransitionTo _ _"])

lemma kept_recordPermanentFailure: "keeps R (recordPermanentFailure s i now cause)"
  unfolding recordPermanentFailure_def failure_tx_def by (intro kept)

lemma kept_CheckAndEscalate: "keeps R (CheckAndEscalate s)"
proof -
  have "keeps R (escalate_all s now items done)" for now items "done"
    by (induction items arbitrary: "done") (auto intro!: keeps_all kept_escalateItem kept_recordPermanentFailure)
  then show ?thesis unfolding CheckAndEscalate_def by (intro kept)
qed

lemma kept_recordTaskFailure: "keeps R (recordTaskFailure cfg taskName cause attempts)"
  unfolding recordTaskFailure_def by (intro kept)

lemma kept_runWithRetry: "keeps R fn \<Longrightarrow> keeps R (runWithRetry cfg deadline taskName fn attempts)"
proof (induction cfg deadline taskName fn attempts rule: runWithRetry.induct)
  case (1 cfg deadline taskName fn attempts)
  have "keeps R (wait_backoff deadline backoff)" for backoff
    unfolding wait_backoff_def by (intro keeps_all kept_runtime)
  then show ?case
    using 1 by (subst runWithRetry.simps, cases "cfg_MaxRetries cfg \<le> attempts + 1")
      (simp_all add: Let_def keeps_all kept_runtime kept_recordTaskFailure)
qed

lemma kept_run_with_timeout: "keeps R fn \<Longrightarrow> keeps R (run_with_timeout cfg taskName fn)"
  unfolding run_with_timeout_def by (intro keeps_all kept_runtime kept_runWithRetry)

lemma kept_Reconcile: "keeps R Reconcile"
  by (rule kept_reading, rule Reconcile_same, rule Reconcile_files)

lemma kept_counters: "keeps R count_escalation_run" "keeps R count_recon_run" "keeps R count_cycle"
  "keeps R add_reevaled" "keeps R add_skipped" "keeps R add_failed"
  by (simp_all add: keeps_def unchanged count_escalation_run_def count_recon_run_def count_cycle_def
      add_reevaled_def add_skipped_def add_failed_def)

lemma kept_scheduler: "keeps R (runEscalationOnce s)" "keeps R runReconciliationOnce"
  unfolding runEscalationOnce_def runReconciliationOnce_def
  by (auto split: prod.split option.split intro!: keeps_all kept_counters kept_CheckAndEscalate kept_Reconcile)

subsection \<open>The worker\<close>

lemma kept_reroute: "ref_ItemID a = case_ID i \<Longrightarrow> ref_IsCurrent a \<Longrightarrow> keeps R (reroute i a)"
  unfolding reroute_def
  by (intro keeps_bind_Inr keeps_if keeps_map keeps_lift keeps_ret kept_reeval_tx kept_runtime kept_counters)
     (auto simp: mapErr_Inr liftE_def retM_def TransitionTo_Inr_iff dest!: sym [of _ "TransitionTo _ _"] split: if_split_asm)

lemma kept_collectStaleItems: "keeps R (collectStaleItems v)"
proof -
  have pages: "keeps R (collect_pages fuel s v offset stale)" for fuel s v offset stale
    by (induction fuel arbitrary: offset stale)
       (auto simp: Let_def split: prod.splits intro!: keeps_all kept_queries)
  have "keeps R (collect_statuses fuel ss v stale)" for fuel ss v stale
    by (induction ss arbitrary: stale) (auto intro!: keeps_all pages split: option.split)
  then show ?thesis unfolding collectStaleItems_def by (intro kept)
qed

lemma kept_reeval_loaded: "keeps R (reeval_loaded i rules v)"
proof -
  have "keeps R (bindM (tryM (Adjudicate i rules)) (\<lambda>r. case r of
       Inl e \<Rightarrow> if errIs e ErrNoMatchingRule then add_skipped else failM (Wrap (''adjudicate item '' @ case_ID i) e)
     | Inr referral \<Rightarrow> reroute i referral))"
  proof (rule keeps_bind_Inr)
    fix r and w w' :: schedulers
    assume "tryM (Adjudicate i rules) w = (Inr r, w')"
    then have "case r of Inl e \<Rightarrow> True | Inr a \<Rightarrow> ref_ItemID a = case_ID i \<and> ref_IsCurrent a"
      by (auto simp: tryM_def split: prod.splits sum.split dest: Adjudicate_fields)
    then show "keeps R (case r of
       Inl e \<Rightarrow> if errIs e ErrNoMatchingRule then add_skipped else failM (Wrap (''adjudicate item '' @ case_ID i) e)
     | Inr referral \<Rightarrow> reroute i referral)"
      by (cases r) (simp_all add: keeps_if keeps_fail kept_counters kept_reroute)
  qed (intro kept)
  then show ?thesis unfolding reeval_loaded_def by (intro keeps_if kept_counters)
qed

lemma kept_sweep: "keeps R sweep"
proof -
  have "keeps R (reevaluateItem i rules v)" for i rules v
    unfolding reevaluateItem_def by (intro kept kept_reeval_loaded)
  then have "keeps R (sweep_items items rules v)" for items rules v
    by (induction items rules v rule: sweep_items.induct) (auto intro!: keeps_all kept_runtime kept_counters)
  then show ?thesis unfolding sweep_def by (intro kept kept_collectStaleItems)
qed

lemma kept_RunOnce: "keeps R RunOnce"
proof (rule keepsI)
  fix r and w w' :: schedulers
  assume run: "RunOnce w = (r, w')"
  obtain r1 w1 where s1: "sweep (w\<lparr>wk_running := True\<rparr>) = (r1, w1)" by (cases "sweep (w\<lparr>wk_running := True\<rparr>)")
  have "R w (w\<lparr>wk_running := True\<rparr>)" "R w1 (w1\<lparr>wk_running := False\<rparr>)" by (simp_all add: unchanged)
  with keepsD [OF kept_sweep s1] have "R w (w1\<lparr>wk_running := False\<rparr>)" by (blast intro: step_trans)
  with run s1 keepsD [OF kept_counters(5), of w] show "R w w'" by (auto simp: RunOnce_def split: if_splits)
qed

lemma kept_worker_tick: "keeps R worker_tick"
  unfolding worker_tick_def by (intro kept kept_counters kept_RunOnce)

lemmas kept_operations = kept_Register kept_case_service kept_other_services kept_Import kept_scheduler kept_RunOnce
  kept_worker_tick kept_queries kept_run_with_timeout [OF kept_scheduler(1)] kept_run_with_timeout [OF kept_scheduler(2)]

end

text \<open>Relations that every single write keeps.\<close>

locale store_preorder = rollback_preorder R for R :: "schedulers \<Rightarrow> schedulers \<Rightarrow> bool" +
  assumes kept_writes: "keeps R (SaveItem i)" "keeps R (tx_UpdateItem i)" "keeps R (SaveAssignment a)"
      "keeps R (SaveEscalation e)" "keeps R (SaveAudit d)" "keeps R (SaveFailure f)" "keeps R (tx_UpdateFailure f)"
      "keeps R (SaveBatch b)" "keeps R (SaveRule r)"
    and kept_updates: "keeps R (MarkAssignmentSuperseded k)" "keeps R (SupersedeRule v)"
begin

lemma kept_tx:
  "keeps R (WithTx (register_tx i a actor now))" "keeps R (WithTx (escalate_tx i e a now))"
  "keeps R (WithTx (reeval_tx i a v now))"
  unfolding register_tx_def escalate_tx_def reeval_tx_def NewEntry_def
  by (intro keeps_all kept_runtime kept_writes kept_updates kept_WithTx)+

end

sublocale store_preorder \<subseteq> tx_preorder
  by unfold_locales (rule kept_writes kept_updates kept_tx)+

section \<open>The tables\<close>

text \<open>
  What remains of a table, whatever an operation has read: no row disappears, the identity of a
  case and its registration stay, a referral only stops being current, a rule is only superseded,
  and escalations, audit entries and batches stay as they are; keys stay unique.
\<close>

definition same_case :: "item_row \<Rightarrow> item_row \<Rightarrow> bool" where
  "same_case r r' \<longleftrightarrow> case_ID r' = case_ID r \<and> case_ExternalRef r' = case_ExternalRef r
     \<and> case_RegisteredAt r' = case_RegisteredAt r \<and> case_RegisteredBy r' = case_RegisteredBy r
     \<and> case_CreatedAt r' = case_CreatedAt r"

definition durable_index :: "index \<Rightarrow> index \<Rightarrow> bool" where
  "durable_index ix ix' \<longleftrightarrow> extends same_case (tab_items ix) (tab_items ix')
     \<and> extends referral_evolves (tab_assignments ix) (tab_assignments ix')
     \<and> extends rule_evolves (tab_rules ix) (tab_rules ix')
     \<and> extends failure_evolves (tab_permanent_failures ix) (tab_permanent_failures ix')
     \<and> extends (=) (tab_escalations ix) (tab_escalations ix')
     \<and> extends (=) (tab_audit_entries ix) (tab_audit_entries ix')
     \<and> extends (=) (tab_import_batches ix) (tab_import_batches ix')
     \<and> (wf_index ix \<longrightarrow> wf_index ix')"

definition durable :: "'a db_scheme \<Rightarrow> 'a db_scheme \<Rightarrow> bool" where
  "durable w w' \<longleftrightarrow> durable_index (db_index w) (db_index w')"

lemma same_case_order [simp]: "reflp same_case" "transp same_case"
  by (auto simp: reflp_def transp_def same_case_def)

lemma same_case_extends [simp]: "extends same_case rs rs" "extends same_case rs (rs @ rs')"
  by (auto intro: extends_refl extends_append)

interpretation durable: step_preorder durable
  by unfold_locales (auto simp: durable_def durable_index_def extends_eq_iff intro: extends_trans)

lemma durable_put:
  "put_item r ix = Inr (u, ix') \<Longrightarrow> durable_index ix ix'"
  "put_assignment ra ix = Inr (u, ix') \<Longrightarrow> durable_index ix ix'"
  "put_escalation re ix = Inr (u, ix') \<Longrightarrow> durable_index ix ix'"
  "put_audit ru ix = Inr (u, ix') \<Longrightarrow> durable_index ix ix'"
  "put_failure rf ix = Inr (u, ix') \<Longrightarrow> durable_index ix ix'"
  "put_batch rb ix = Inr (u, ix') \<Longrightarrow> durable_index ix ix'"
  "put_rule rr ix = Inr (u, ix') \<Longrightarrow> durable_index ix ix'"
  using distinct_put [of _ ix u ix']
  by (auto simp: durable_index_def put_item_Inr put_Inr)

lemma durable_update:
  "durable_index ix (update_item i ix)" "durable_index ix (supersede_assignments k ix)"
  "durable_index ix (supersede_rule v t ix)" "durable_index ix (update_failure f ix)"
  using wf_update_item wf_supersede
  by (auto simp: durable_index_def update_item_def supersede_assignments_def supersede_rule_def update_failure_def
      same_case_def referral_evolves_def rule_evolves_def failure_evolves_def wf_index_def map_update_where
      intro!: extends_update_where)

lemma durable_exec: "(\<And>ix b ix'. stmt ix = Inr (b, ix') \<Longrightarrow> durable_index ix ix') \<Longrightarrow> keeps durable (exec stmt)"
  by (rule keepsI) (auto simp: durable_def durable_index_def dest!: exec_index split: sum.splits)

lemma same_index_durable: "keeps same_index m \<Longrightarrow> keeps durable m"
  by (erule keeps_weaken) (simp add: same_index_def durable_def durable_index_def)

lemma durable_inserts:
  "keeps durable (InsertItem i)" "keeps durable (InsertAssignment a)" "keeps durable (InsertEscalation e)"
  "keeps durable (InsertAudit d)" "keeps durable (InsertFailure f)" "keeps durable (InsertBatch b)"
  "keeps durable (InsertRule r)"
  unfolding InsertItem_def InsertAssignment_def InsertEscalation_def InsertAudit_def InsertFailure_def
    InsertBatch_def InsertRule_def
  by (rule durable.keeps_map, rule durable_exec, erule durable_put)+

lemma durable_updates:
  "keeps durable (UpdateItem i)" "keeps durable (MarkAssignmentSuperseded k)" "keeps durable (UpdateFailure f)"
  "keeps durable (SupersedeRule v)"
  unfolding UpdateItem_def MarkAssignmentSuperseded_def UpdateFailure_def SupersedeRule_def
  by (intro durable.keeps_bind durable.keeps_map durable_exec same_index_durable keeps_rules;
      auto intro: durable_update)+

lemma durable_saves:
  "keeps durable (SaveItem i)" "keeps durable (tx_UpdateItem i)" "keeps durable (SaveAssignment a)"
  "keeps durable (SaveEscalation e)" "keeps durable (SaveAudit d)" "keeps durable (SaveFailure f)"
  "keeps durable (tx_UpdateFailure f)" "keeps durable (SaveBatch b)" "keeps durable (SaveRule r)"
  unfolding save_defs
  by (intro durable.keeps_all durable_inserts durable_updates Append_index [THEN same_index_durable]
      same_Now [THEN same_index_durable])+

interpretation tables: store_preorder durable
  by unfold_locales (auto simp: durable_def durable_index_def intro: durable_saves durable_updates)

section \<open>The files\<close>

interpretation files: store_preorder append_only
  by unfold_locales (auto simp: append_only_def intro: saves_append_only
      files_statements [THEN same_files_append_only])

section \<open>Whose referrals and escalations they are\<close>

definition owned :: "index \<Rightarrow> bool" where
  \<comment> \<open>each case has one current referral, and referrals and escalations belong to cases\<close>
  "owned ix \<longleftrightarrow> (\<forall>k \<in> case_ID ` set (tab_items ix). length (current_of k (tab_assignments ix)) = 1)
     \<and> ref_ItemID ` set (tab_assignments ix) \<subseteq> case_ID ` set (tab_items ix)
     \<and> esc_ItemID ` set (tab_escalations ix) \<subseteq> case_ID ` set (tab_items ix)"

definition keeps_owned :: "'a db_scheme \<Rightarrow> 'a db_scheme \<Rightarrow> bool" where
  "keeps_owned w w' \<longleftrightarrow> (owned (db_index w) \<longrightarrow> owned (db_index w'))"

interpretation keeps_owned: step_preorder keeps_owned
  by unfold_locales (auto simp: keeps_owned_def)

lemma owned_update_item [simp]: "owned (update_item i ix) = owned ix"
proof -
  have "case_ID ` set (tab_items (update_item i ix)) = case_ID ` set (tab_items ix)" by (simp add: update_item_def)
  moreover have "tab_assignments (update_item i ix) = tab_assignments ix" "tab_escalations (update_item i ix) = tab_escalations ix"
    by (simp_all add: update_item_def)
  ultimately show ?thesis unfolding owned_def by (simp only:)
qed

lemma owned_put:
  "put_audit d ix = Inr (u, ix') \<Longrightarrow> owned ix' = owned ix"
  "put_failure f ix = Inr (u, ix') \<Longrightarrow> owned ix' = owned ix"
  "put_batch b ix = Inr (u, ix') \<Longrightarrow> owned ix' = owned ix"
  "put_rule r ix = Inr (u, ix') \<Longrightarrow> owned ix' = owned ix"
  by (auto simp: put_Inr owned_def)

lemma owned_others: "owned (update_failure f ix) = owned ix" "owned (supersede_rule v t ix) = owned ix"
  by (simp_all add: update_failure_def supersede_rule_def owned_def)

lemma owned_registered:
  assumes "put_item r ix = Inr (u, ix1)" and "put_assignment a ix1 = Inr (v, ix2)" and "ref_ItemID a = case_ID r"
    and "ref_IsCurrent a" and "owned ix"
  shows "owned ix2"
proof -
  have ix2: "ix2 = ix\<lparr>tab_items := tab_items ix @ [r], tab_assignments := tab_assignments ix @ [a]\<rparr>"
    and fresh: "case_ID r \<notin> case_ID ` set (tab_items ix)"
    using assms(1,2) by (auto simp: put_item_Inr put_Inr)
  have "\<forall>b \<in> set (tab_assignments ix). ref_ItemID b \<noteq> case_ID r"
    using assms(5) fresh unfolding owned_def by (metis imageI subsetD)
  then have none: "current_of (case_ID r) (tab_assignments ix) = []" by (simp add: current_of_none)
  have ids: "case_ID ` set (tab_items ix2) = insert (case_ID r) (case_ID ` set (tab_items ix))" by (simp add: ix2)
  show ?thesis unfolding owned_def ids
  proof (intro conjI ballI)
    fix k assume "k \<in> insert (case_ID r) (case_ID ` set (tab_items ix))"
    moreover have "\<forall>k \<in> case_ID ` set (tab_items ix). length (current_of k (tab_assignments ix)) = 1"
      using assms(5) unfolding owned_def by (elim conjE)
    ultimately show "length (current_of k (tab_assignments ix2)) = 1"
      using none assms(3,4) by (cases "k = case_ID r") (auto simp: ix2 current_of_append)
  next
    show "ref_ItemID ` set (tab_assignments ix2) \<subseteq> insert (case_ID r) (case_ID ` set (tab_items ix))"
      "esc_ItemID ` set (tab_escalations ix2) \<subseteq> insert (case_ID r) (case_ID ` set (tab_items ix))"
      using assms(3,5) by (simp_all add: ix2 owned_def subset_insertI2)
  qed
qed

lemma owned_moved:
  assumes "put_assignment a (supersede_assignments (ref_ItemID a) ix) = Inr (u, ix1)" and "ref_IsCurrent a"
    and "ref_ItemID a \<in> case_ID ` set (tab_items ix)" and "owned ix"
  shows "owned ix1"
proof -
  let ?s = "supersede_assignments (ref_ItemID a) ix"
  have tabs: "tab_items ix1 = tab_items ix" "tab_escalations ix1 = tab_escalations ix"
    "tab_assignments ix1 = tab_assignments ?s @ [a]" using assms(1) by (auto simp: put_Inr)
  have "length (current_of k (tab_assignments ix1)) = 1" if "k \<in> case_ID ` set (tab_items ix)" for k
    using that assms(2,4) by (auto simp: tabs current_of_append current_of_superseded owned_def)
  then show ?thesis using assms(3,4) item_ids_superseded(3) [of "ref_ItemID a" ix]
    by (auto simp: owned_def tabs)
qed

lemma owned_escalated:
  assumes "put_escalation e ix = Inr (u, ix0)" and "esc_ItemID e \<in> case_ID ` set (tab_items ix)" and "owned ix"
  shows "owned ix0"
  using assms by (auto simp: put_Inr owned_def)

lemma WithTx_owned:
  assumes "\<And>w x w'. fn w = (Inr x, w') \<Longrightarrow> owned (db_index w) \<Longrightarrow> owned (db_index w')"
  shows "keeps keeps_owned (WithTx fn)"
proof (rule keepsI, unfold keeps_owned_def, rule impI)
  fix w r w'
  assume run: "WithTx fn w = (r, w')" and o: "owned (db_index w)"
  show "owned (db_index w')"
  proof (cases r)
    case (Inl e)
    with run o show ?thesis by (simp add: WithTx_Inl)
  next
    case (Inr x)
    with WithTx_InrD [of fn w x w'] run obtain w0 w1 where "db_index w0 = db_index w" "fn w0 = (Inr x, w1)" "db_index w' = db_index w1"
      by auto
    with assms o show ?thesis by metis
  qed
qed

lemma register_tx_owned:
  assumes "register_tx i a actor now w = (Inr i', w')" and "ref_ItemID a = case_ID i" "ref_IsCurrent a" and "owned (db_index w)"
  shows "owned (db_index w')"
  using assms(1)
proof (rule register_tx_effect)
  fix b d ix1 ix2
  assume "relocated i i'" "put_item (row_of_item i') (db_index w) = Inr ((), ix1)"
    "put_assignment (row_of_referral b) ix1 = Inr ((), ix2)" "\<exists>p. b = a\<lparr>ref_ShardPath := p\<rparr>"
    and d: "put_audit d ix2 = Inr ((), db_index w')"
  then have "owned ix2" using assms(2-4) relocated_fields [of i i']
    by - (rule owned_registered [of "row_of_item i'" "db_index w" "()" ix1 "row_of_referral b" "()"], auto)
  with owned_put(1) [OF d] show ?thesis by simp
qed

lemma reeval_tx_owned:
  assumes "reeval_tx i a v now w = (Inr u, w')" and "ref_ItemID a = case_ID i" "ref_IsCurrent a" and "owned (db_index w)"
  shows "owned (db_index w')"
proof -
  obtain b i' details e and w2 w3 w4 :: "'a world_scheme"
    where s: "MarkAssignmentSuperseded (case_ID i) w = (Inr (), w2)"
      "SaveAssignment a w2 = (Inr b, w3)" "tx_UpdateItem i w3 = (Inr i', w4)"
    and rest: "save_entry (case_ID i) ''item'' ActionRuleReevaluated ''system'' now details w4 = (Inr e, w')"
    using assms(1) unfolding reeval_tx_def fold_audit by (auto simp: op_results)
  obtain d where d: "put_audit d (db_index w4) = Inr ((), db_index w')" using save_entry_effect [OF rest] by blast
  note moved = SaveAssignment_effect [OF s(2), unfolded update_effect(3) [OF s(1)]]
  have "tab_items (db_index w3) = tab_items (db_index w)" using moved by (auto simp: put_Inr)
  with moved tx_UpdateItem_effect [OF s(3)] assms(2-4) have "owned (db_index w3)"
    by - (rule owned_moved [of "row_of_referral b" "db_index w" "()"], auto)
  with tx_UpdateItem_effect [OF s(3)] owned_put(1) [OF d] show ?thesis by simp
qed

lemma escalate_tx_owned:
  assumes "escalate_tx i e a now w = (Inr e', w')" and "esc_ItemID e = case_ID i"
    and "ref_ItemID a = case_ID i" "ref_IsCurrent a" and "owned (db_index w)"
  shows "owned (db_index w')"
proof -
  obtain b i' details x and w1 w2 w3 w4 :: "'a world_scheme"
    where s: "SaveEscalation e w = (Inr e', w1)" "MarkAssignmentSuperseded (case_ID i) w1 = (Inr (), w2)"
      "SaveAssignment a w2 = (Inr b, w3)" "tx_UpdateItem i w3 = (Inr i', w4)"
    and rest: "save_entry (case_ID i) ''item'' ActionEscalate ''system'' now details w4 = (Inr x, w')"
    using assms(1) unfolding escalate_tx_def fold_audit by (auto simp: op_results)
  obtain d where d: "put_audit d (db_index w4) = Inr ((), db_index w')" using save_entry_effect [OF rest] by blast
  note moved = SaveAssignment_effect [OF s(3), unfolded update_effect(3) [OF s(2)]]
  have items: "tab_items (db_index w3) = tab_items (db_index w)" "tab_items (db_index w1) = tab_items (db_index w)"
    using moved SaveEscalation_effect [OF s(1)] by (auto simp: put_Inr)
  have key: "case_ID i \<in> case_ID ` set (tab_items (db_index w))" using tx_UpdateItem_effect [OF s(4)] items by simp
  have "owned (db_index w1)"
    using SaveEscalation_effect [OF s(1)] assms(2,5) key by - (rule owned_escalated [of "row_of_escalation e'" "db_index w" "()"], auto)
  with moved assms(3,4) key items have "owned (db_index w3)"
    by - (rule owned_moved [of "row_of_referral b" "db_index w1" "()"], auto)
  with tx_UpdateItem_effect [OF s(4)] owned_put(1) [OF d] show ?thesis by simp
qed

lemma owned_exec: "(\<And>ix b ix'. stmt ix = Inr (b, ix') \<Longrightarrow> owned ix' = owned ix) \<Longrightarrow> keeps keeps_owned (exec stmt)"
  by (rule keepsI) (auto simp: keeps_owned_def dest!: exec_index split: sum.splits)

lemma same_index_owned: "keeps same_index m \<Longrightarrow> keeps keeps_owned m"
  by (erule keeps_weaken) (simp add: same_index_def keeps_owned_def)

lemma owned_statements:
  "keeps keeps_owned (InsertAudit d)" "keeps keeps_owned (InsertFailure f)" "keeps keeps_owned (InsertBatch b)"
  "keeps keeps_owned (InsertRule r)" "keeps keeps_owned (UpdateItem i)" "keeps keeps_owned (UpdateFailure g)"
  "keeps keeps_owned (SupersedeRule v)"
  unfolding InsertAudit_def InsertFailure_def InsertBatch_def InsertRule_def UpdateItem_def UpdateFailure_def SupersedeRule_def
  by (intro keeps_owned.keeps_bind keeps_owned.keeps_map owned_exec same_index_owned keeps_rules;
      auto dest: owned_put simp: owned_others)+

lemma owned_saves:
  "keeps keeps_owned (tx_UpdateItem i)" "keeps keeps_owned (SaveAudit d)" "keeps keeps_owned (SaveFailure f)"
  "keeps keeps_owned (tx_UpdateFailure f)" "keeps keeps_owned (SaveBatch b)" "keeps keeps_owned (SaveRule r)"
  unfolding save_defs
  by (intro keeps_owned.keeps_all owned_statements Append_index [THEN same_index_owned] same_Now [THEN same_index_owned])+

interpretation referrals: tx_preorder keeps_owned
proof unfold_locales
  show "keeps_owned w w' \<Longrightarrow> db_index w'' = db_index w \<Longrightarrow> sh_files w'' = sh_files w' \<Longrightarrow> keeps_owned w w''"
    for w w' w'' :: schedulers by (simp add: keeps_owned_def)
qed (auto intro: owned_saves owned_statements intro!: WithTx_owned elim: register_tx_owned escalate_tx_owned reeval_tx_owned)

end
