(* ===== verification/System.thy ===== *)
theory System
  imports Rule_Facts Store_Relations
begin

text \<open>
  The case system as a whole: every request that the HTTP handlers pass to the services, the
  tasks of the scheduler, the worker's sweep and a restart, as steps of one state. Steps follow each
  other in any order, each is complete before the next one begins, and between them time may
  pass, identifiers may be drawn and calls that leave the program may begin to fail. \<open>Interleaving\<close>
  divides the operations; what a whole step keeps is shown here, for use there.
\<close>

section \<open>Steps\<close>

record system_config =
  sys_deadline :: duration
  sys_escalation :: EscalationService
  sys_scheduler :: SchedulerConfig

definition restarted :: "schedulers \<Rightarrow> schedulers" where
  \<comment> \<open>another process on the same files: the counters begin again\<close>
  "restarted w = w\<lparr>wk_running := False, wk_cycles := 0, wk_reevaled := 0, wk_skipped := 0, wk_failed := 0,
     sc_escalationRuns := 0, sc_reconRuns := 0\<rparr>"

inductive system_step :: "system_config \<Rightarrow> schedulers \<Rightarrow> schedulers \<Rightarrow> bool" for cfg where
  register: "Register (sys_deadline cfg) req w = (r, w') \<Longrightarrow> system_step cfg w w'"
| start: "StartProcessing itemID actor w = (r, w') \<Longrightarrow> system_step cfg w w'"
| modify: "Modify itemID mreq w = (r, w') \<Longrightarrow> system_step cfg w w'"
| return: "ReturnForCorrection itemID reason actor w = (r, w') \<Longrightarrow> system_step cfg w w'"
| resubmit: "Resubmit itemID actor w = (r, w') \<Longrightarrow> system_step cfg w w'"
| cancel: "Cancel itemID reason actor w = (r, w') \<Longrightarrow> system_step cfg w w'"
| complete: "Complete itemID actor w = (r, w') \<Longrightarrow> system_step cfg w w'"
| create_rule: "CreateRule creq w = (rr, w') \<Longrightarrow> system_step cfg w w'"
| import_batch: "Import (sys_deadline cfg) breq w = (br, w') \<Longrightarrow> system_step cfg w w'"
| export: "Export from to w = (er, w') \<Longrightarrow> system_step cfg w w'"
| detail: "GetItemDetail itemID w = (dr, w') \<Longrightarrow> system_step cfg w w'"
| backlog: "GetBacklog w = (gr, w') \<Longrightarrow> system_step cfg w w'"
| retry: "RetryFailure failureID actor w = (ur, w') \<Longrightarrow> system_step cfg w w'"
| escalate: "runEscalationOnce (sys_escalation cfg) w = (ur, w') \<Longrightarrow> system_step cfg w w'"
| escalate_retried: "run_with_timeout (sys_scheduler cfg) taskName (runEscalationOnce (sys_escalation cfg)) w = (ur, w')
    \<Longrightarrow> system_step cfg w w'"
| sweep_once: "RunOnce w = (ur, w') \<Longrightarrow> system_step cfg w w'"
| sweep_tick: "worker_tick w = (ur, w') \<Longrightarrow> system_step cfg w w'"
| reconcile_retried: "run_with_timeout (sys_scheduler cfg) taskName runReconciliationOnce w = (ur, w')
    \<Longrightarrow> system_step cfg w w'"
| list_items: "ListItems flt w = (ir, w') \<Longrightarrow> system_step cfg w w'"
| list_rules: "ListRules w = (lr, w') \<Longrightarrow> system_step cfg w w'"
| get_rule: "GetRuleByVersion v w = (vr, w') \<Longrightarrow> system_step cfg w w'"
| list_batches: "ListBatches bflt w = (bbr, w') \<Longrightarrow> system_step cfg w w'"
| list_audit: "ListAudit aflt w = (ar, w') \<Longrightarrow> system_step cfg w w'"
| list_failures: "ListFailures w = (fr, w') \<Longrightarrow> system_step cfg w w'"
| restart: "w' = restarted w \<Longrightarrow> system_step cfg w w'"
| environment: "w' = w\<lparr>rt_clock := clk, rt_wall := wall, rt_uuid := uuid, rt_faults := fs\<rparr> \<Longrightarrow> system_step cfg w w'"

inductive reachable :: "system_config \<Rightarrow> schedulers \<Rightarrow> bool" for cfg where
  empty_store: "db_index w = empty_index \<Longrightarrow> sh_files w = [] \<Longrightarrow> reachable cfg w"
| step: "reachable cfg w \<Longrightarrow> system_step cfg w w' \<Longrightarrow> reachable cfg w'"

inductive_cases system_stepE: "system_step cfg w w'"

section \<open>What every step keeps\<close>

definition keeps_promises :: "schedulers \<Rightarrow> schedulers \<Rightarrow> bool" where
  "keeps_promises w w' \<longleftrightarrow> safe w w' \<and> append_only w w'"

lemma promise: "keeps safe m \<Longrightarrow> keeps append_only m \<Longrightarrow> m w = (r, w') \<Longrightarrow> keeps_promises w w'"
  by (auto simp: keeps_promises_def dest: keepsD)

interpretation promises: step_preorder keeps_promises
  by unfold_locales (auto simp: keeps_promises_def append_only.step_refl safe.step_refl
      intro: safe.step_trans append_only.step_trans)

lemmas step_safe = Register_safe StartProcessing_safe Modify_safe ReturnForCorrection_safe Resubmit_safe
  Cancel_safe Complete_safe CreateRule_safe Import_safe RetryFailure_safe runEscalationOnce_safe RunOnce_safe
  worker_tick_safe queries_same [THEN same_index_safe] queries_read_only [THEN same_index_safe]
  run_with_timeout_safe [OF runEscalationOnce_safe] run_with_timeout_safe [OF runReconciliationOnce_safe]

lemma step_keeps_promises:
  assumes "int64 (es_maxLevel (sys_escalation cfg))" and "system_step cfg w w'"
  shows "keeps_promises w w'"
  using assms(2)
proof cases
  case (environment clk wall uuid fs)
  then show ?thesis by (simp add: keeps_promises_def safe_def append_only_def)
next
  case restart
  then show ?thesis by (simp add: restarted_def keeps_promises_def safe_def append_only_def)
qed (erule promise [rotated 2]; (rule step_safe assms(1) files.kept_operations)+)+

lemma steps_keep_promises:
  assumes "int64 (es_maxLevel (sys_escalation cfg))" and "(system_step cfg)\<^sup>*\<^sup>* w w'"
  shows "keeps_promises w w'"
  using assms(2) by (induction rule: rtranclp_induct)
    (auto intro: promises.step_refl promises.step_trans step_keeps_promises [OF assms(1)])

lemma reachable_sound:
  assumes "int64 (es_maxLevel (sys_escalation cfg))" and "reachable cfg w"
  shows "sound_index (db_index w)"
  using assms(2)
proof induction
  case (empty_store w)
  then show ?case by (simp add: sound_empty)
next
  case (step w w')
  with step_keeps_promises [OF assms(1) step.hyps(2)] show ?case
    by (simp add: keeps_promises_def safe_def good_step_def)
qed

lemma reachable_evolves:
  assumes "int64 (es_maxLevel (sys_escalation cfg))" and "reachable cfg w" and "(system_step cfg)\<^sup>*\<^sup>* w w'"
  shows "evolves (db_index w) (db_index w')" and "append_only w w'" and "sound_index (db_index w')"
  using steps_keep_promises [OF assms(1,3)] reachable_sound [OF assms(1,2)]
  by (auto simp: keeps_promises_def safe_def good_step_def)

section \<open>A state with a case\<close>

definition sample_start :: schedulers where
  "sample_start = \<lparr>rt_clock = (\<lambda>n. 100), rt_wall = (\<lambda>n. 100), rt_ticks = 0, rt_uuid = (\<lambda>n. ''u''), rt_ids = 0,
     rt_faults = [], db_index = empty_index, sh_rootDir = ''data'', sh_maxShardSize = 1024, sh_syncOnWrite = True,
     sh_files = [], wk_running = False, wk_cycles = 0, wk_reevaled = 0, wk_skipped = 0, wk_failed = 0, sc_escalationRuns = 0,
     sc_reconRuns = 0\<rparr>"

definition sample_config :: system_config where
  "sample_config = \<lparr>sys_deadline = 50, sys_escalation = \<lparr>es_deadlineExtension = 50, es_maxLevel = 3\<rparr>,
     sys_scheduler = con_Scheduler Defaults\<rparr>"

definition sample_rule_request :: CreateRuleRequest where
  "sample_rule_request = \<lparr>cr_Name = ''default'', cr_Description = '''', cr_MatchKeywords = [], cr_MatchCategory = '''',
     cr_LeadDepartment = ''market'', cr_CoDepartments = [''fire''], cr_Priority = 1, cr_IsDefault = True,
     cr_CreatedBy = ''admin'', cr_SupersedeVersion = 0\<rparr>"


lemma infinite_strings: "finite (A :: string set) \<Longrightarrow> \<exists>s. s \<notin> A"
  using ex_new_if_finite [OF infinite_UNIV_listI] by blast

lemma sample_case_steps:
  "\<exists>w i. (system_step sample_config)\<^sup>*\<^sup>* sample_start w \<and> tab_items (db_index w) = [row_of_item i]
     \<and> case_ExternalRef i = ''R9'' \<and> case_LeadDepartment i = ''market'' \<and> case_Status i = StatusAdjudicated
     \<and> item_ok i"
proof -
  let ?c = sample_config and ?w0 = sample_start
  have "succeeds (CreateRule sample_rule_request) (\<lambda>rl w'. rt_faults w' = []
      \<and> rule_created sample_rule_request rl (db_index ?w0) (db_index w')
      \<and> rt_clock w' = rt_clock ?w0 \<and> rt_uuid w' = rt_uuid ?w0 \<and> rt_ids w' = rt_ids ?w0 + 1
      \<and> (\<exists>now. rt_clock ?w0 (rt_ticks ?w0) = now
           \<and> (\<exists>p. rl = (new_rule sample_rule_request (latest_version (db_index ?w0) + 1) now)\<lparr>rule_ShardPath := p\<rparr>))) ?w0"
    by (rule CreateRule_succeeds)
       (simp_all add: sample_start_def sample_rule_request_def latest_version_def empty_index_def time_ok_def)
  then obtain rl w1 p where r: "CreateRule sample_rule_request ?w0 = (Inr rl, w1)"
    and created: "rule_created sample_rule_request rl empty_index (db_index w1)"
    and rl: "rl = (new_rule sample_rule_request 1 100)\<lparr>rule_ShardPath := p\<rparr>"
    by (auto simp: succeeds_def sample_start_def latest_version_def empty_index_def)
  have r1: "(system_step ?c)\<^sup>*\<^sup>* ?w0 w1" using system_step.create_rule [OF r] by blast
  obtain ds where ix1: "db_index w1 = empty_index\<lparr>tab_rules := [row_of_rule rl], tab_audit_entries := ds\<rparr>"
    using created by (auto simp: rule_created_def sample_rule_request_def empty_index_def Let_def)
  obtain u where u: "u \<notin> aud_ID ` set ds" using infinite_strings by (metis List.finite_set finite_imageI)
  define w2 where "w2 = w1\<lparr>rt_clock := (\<lambda>n. 100), rt_wall := (\<lambda>n. 100), rt_uuid := (\<lambda>n. u), rt_faults := []\<rparr>"
  with r1 have r2: "(system_step ?c)\<^sup>*\<^sup>* ?w0 w2" by (blast intro: rtranclp.rtrancl_into_rtrancl system_step.environment)
  have scan: "scanRule (row_of_rule rl) = Inr rl"
    by (rule rule_codec.scan_enc) (simp add: rl rule_ok_def new_rule_def time_ok_def)
  have "\<exists>i w'. Register (sys_deadline ?c) sample_request w2 = (Inr i, w')
      \<and> newly_registered sample_request i (db_index w2) (db_index w')
      \<and> scanItem (row_of_item i) = Inr i \<and> item_ok i"
  proof (rule Register_registers)
    show "mapE scanRule (sort_key rank_of (filter (rule_active_at (formatTime (rt_clock w2 (rt_ticks w2))))
        (tab_rules (db_index w2)))) = Inr [rl]"
      using scan by (simp add: w2_def ix1 rule_active_at_def row_of_rule_def rl new_rule_def formatTimeVal_def IsZero_def)
    show "\<exists>r \<in> set [rl]. eligible (new_case sample_request (rt_uuid w2 (rt_ids w2)) (rt_clock w2 (rt_ticks w2))
        (sys_deadline ?c)) r"
      by (simp add: eligible_def w2_def rl new_rule_def sample_rule_request_def new_case_def IsActiveAt_def Matches_def
          Before_def IsZero_def)
  qed (use u in \<open>simp_all add: w2_def ix1 sample_request_def empty_index_def time_ok_def Add_def sample_config_def
       fresh_ids_def wrap64_def\<close>)
  then obtain i w3 where i: "Register (sys_deadline ?c) sample_request w2 = (Inr i, w3)"
    and new: "newly_registered sample_request i (db_index w2) (db_index w3)" "item_ok i" by blast
  with r2 have "(system_step ?c)\<^sup>*\<^sup>* ?w0 w3" by (blast intro: rtranclp.rtrancl_into_rtrancl system_step.register)
  moreover have "tab_items (db_index w3) = [row_of_item i]" "case_ExternalRef i = ''R9''"
    "case_LeadDepartment i = ''market''" "case_Status i = StatusAdjudicated"
    using new by (auto simp: newly_registered_def w2_def ix1 empty_index_def sample_request_def routed_by_def
        row_of_rule_def rl new_rule_def sample_rule_request_def)
  ultimately show ?thesis using new(2) by blast
qed

lemma reachable_steps: "(system_step cfg)\<^sup>*\<^sup>* w w' \<Longrightarrow> reachable cfg w \<Longrightarrow> reachable cfg w'"
  by (induction rule: rtranclp_induct) (auto intro: reachable.step)

lemma sample_start_reachable: "reachable cfg sample_start"
  by (rule reachable.empty_store) (simp_all add: sample_start_def)

lemma sample_case_reachable:
  "\<exists>w i. reachable sample_config w \<and> tab_items (db_index w) = [row_of_item i] \<and> case_ExternalRef i = ''R9''
     \<and> case_LeadDepartment i = ''market'' \<and> case_Status i = StatusAdjudicated"
  using sample_case_steps reachable_steps sample_start_reachable by blast

text \<open>The case is ready to be worked on, once new identifiers are drawn.\<close>

definition refreshed :: "string \<Rightarrow> schedulers \<Rightarrow> schedulers" where
  "refreshed u w = w\<lparr>rt_clock := (\<lambda>n. 100), rt_wall := (\<lambda>n. 100), rt_uuid := (\<lambda>n. u), rt_faults := []\<rparr>"

lemma refreshed_step: "system_step cfg w (refreshed u w)"
  by (rule system_step.environment) (rule refreshed_def)

lemma refreshed_ids: "\<exists>u. fresh_ids (refreshed u w) 1"
proof -
  let ?used = "case_ID ` set (tab_items (db_index w)) \<union> ref_ID ` set (tab_assignments (db_index w))
    \<union> aud_ID ` set (tab_audit_entries (db_index w)) \<union> esc_ID ` set (tab_escalations (db_index w))"
  obtain u where "u \<notin> ?used" using infinite_strings [of ?used] by auto
  then show ?thesis by (intro exI [of _ u]) (simp add: fresh_ids_def refreshed_def)
qed

lemma sample_case_ready:
  "\<exists>w i. (system_step sample_config)\<^sup>*\<^sup>* sample_start w \<and> ready (case_ID i) i w \<and> tab_items (db_index w) = [row_of_item i]
     \<and> case_ExternalRef i = ''R9'' \<and> case_Status i = StatusAdjudicated \<and> scanItem (row_of_item i) = Inr i"
proof -
  obtain w i where w: "(system_step sample_config)\<^sup>*\<^sup>* sample_start w" "tab_items (db_index w) = [row_of_item i]"
    and i: "case_ExternalRef i = ''R9''" "case_Status i = StatusAdjudicated" "item_ok i"
    using sample_case_steps by blast
  obtain u where ids: "fresh_ids (refreshed u w) 1" using refreshed_ids by blast
  have times: "list_all time_ok (entry_times (ItemEntry i))"
    using i(3) by (cases "case_CompletedAt i"; cases "case_CancelledAt i") (simp_all add: item_ok_def opt_time_ok_def)
  have "ready (case_ID i) i (refreshed u w)"
    using times ids w(2) item_codec.scan_enc [OF i(3)]
    by (simp add: ready_def refreshed_def writable_def find_key_def time_ok_def)
  moreover have "(system_step sample_config)\<^sup>*\<^sup>* sample_start (refreshed u w)"
    using w(1) refreshed_step by (rule rtranclp.rtrancl_into_rtrancl)
  moreover have "tab_items (db_index (refreshed u w)) = [row_of_item i]" using w(2) by (simp add: refreshed_def)
  ultimately show ?thesis using i item_codec.scan_enc [OF i(3)] by blast
qed

text \<open>The case can then be cancelled.\<close>

lemma sample_cancelled_reachable:
  "\<exists>w row. reachable sample_config w \<and> row \<in> set (tab_items (db_index w)) \<and> case_ExternalRef row = ''R9''
     \<and> case_Status row = StatusCancelled"
proof -
  obtain w i where w: "(system_step sample_config)\<^sup>*\<^sup>* sample_start w" "ready (case_ID i) i w"
    "tab_items (db_index w) = [row_of_item i]"
    and i: "case_ExternalRef i = ''R9''" "case_Status i = StatusAdjudicated" "scanItem (row_of_item i) = Inr i"
    using sample_case_ready by blast
  obtain j w3 where j: "Cancel (case_ID i) ''r'' ''a'' w = (Inr j, w3)"
    using decides(3) [OF w(2), of "''r''" "''a''"] i(2)
    by (cases "Cancel (case_ID i) ''r'' ''a'' w") (auto simp: may_move_def CanTransition_def split: sum.splits)
  from Cancel_outcome [of "case_ID i" "''r''" "''a''" w] j w(3) i(3) obtain t d where
    "db_index w3 = (update_item (i\<lparr>case_Status := StatusCancelled,
        case_CancelledAt := Some t, case_CancelReason := ''r'', case_UpdatedAt := t\<rparr>) (db_index w))
      \<lparr>tab_audit_entries := tab_audit_entries (db_index w) @ [d]\<rparr>"
    by (auto simp: step_outcome_def find_key_def split: if_splits)
  then have "tab_items (db_index w3) = [set_item (i\<lparr>case_Status := StatusCancelled, case_CancelledAt := Some t,
      case_CancelReason := ''r'', case_UpdatedAt := t\<rparr>) (row_of_item i)]"
    using w(3) by (simp add: update_item_def update_where_def)
  moreover have "reachable sample_config w3"
    using reachable_steps [OF w(1) sample_start_reachable] system_step.cancel [OF j] by (rule reachable.step)
  ultimately show ?thesis using i(1) by (auto simp: set_item_def)
qed

lemma sample_config_level: "int64 (es_maxLevel (sys_escalation sample_config))"
  by (simp add: sample_config_def int64_def)

section \<open>What holds in every reachable state\<close>

text \<open>
  C19: Identity in the index. In every reachable state the identifiers of cases, of their external
  references, of referrals, escalations, audit entries, failures and batches and the versions of
  rules are used once, and no stored case has the status of a registration that was not
  adjudicated.
\<close>

theorem reachable_keys_unique:
  assumes "int64 (es_maxLevel (sys_escalation cfg))" and "reachable cfg w"
  shows "distinct (map case_ID (tab_items (db_index w))) \<and> distinct (map case_ExternalRef (tab_items (db_index w)))
     \<and> distinct (map ref_ID (tab_assignments (db_index w))) \<and> distinct (map esc_ID (tab_escalations (db_index w)))
     \<and> distinct (map aud_ID (tab_audit_entries (db_index w)))
     \<and> distinct (map fail_ID (tab_permanent_failures (db_index w)))
     \<and> distinct (map batch_ID (tab_import_batches (db_index w))) \<and> distinct (map rule_Version (tab_rules (db_index w)))
     \<and> StatusRegistered \<notin> case_Status ` set (tab_items (db_index w))"
  using reachable_sound [OF assms] by (auto simp: sound_index_def wf_index_def stored_status_def)

theorem reachable_keys_unique_witness:
  "\<exists>w. reachable sample_config w \<and> tab_items (db_index w) \<noteq> []
     \<and> StatusRegistered \<notin> case_Status ` set (tab_items (db_index w))"
  using sample_case_reachable reachable_keys_unique [OF sample_config_level] by fastforce

end
