(* ===== verification/Interleaving.thy ===== *)
theory Interleaving
  imports System
begin

text \<open>
  Requests, rounds and sweeps that run at the same time. The store has one connection, so a query
  or a transaction is not interrupted; but between what a goroutine reads and the transaction in
  which it writes, others may do anything. A \<open>job\<close> is what a goroutine has in its variables at
  such a point, \<open>resume\<close> is the code up to the next one. The attempts that a scheduler makes after a
  failed round are rounds of their own here. A reconciliation is not divided: it writes nothing, so what
  comes in between its reads can only change its report.
\<close>

section \<open>The two halves of an operation on a case\<close>

datatype case_action = StartA string | ModifyA ModifyItemRequest | ReturnA string string
  | ResubmitA string | CancelA string string | CompleteA string

fun case_operation :: "case_action \<Rightarrow> string \<Rightarrow> (err, 'a world_scheme, item) op" where
  "case_operation (StartA actor) itemID = StartProcessing itemID actor"
| "case_operation (ModifyA req) itemID = Modify itemID req"
| "case_operation (ReturnA reason actor) itemID = ReturnForCorrection itemID reason actor"
| "case_operation (ResubmitA actor) itemID = Resubmit itemID actor"
| "case_operation (CancelA reason actor) itemID = Cancel itemID reason actor"
| "case_operation (CompleteA actor) itemID = Complete itemID actor"

fun case_write :: "case_action \<Rightarrow> string \<Rightarrow> item \<Rightarrow> (err, 'a world_scheme, item) op" where
  \<comment> \<open>the operation from where it has read the case\<close>
  "case_write (StartA actor) itemID i =
     bindM Now (\<lambda>now.
     bindM (liftE (TransitionTo i StatusInProgress)) (\<lambda>i.
     updateItemWithAudit (i\<lparr>case_UpdatedAt := now\<rparr>) actor ActionStartProcessing ''''))"
| "case_write (ModifyA req) itemID i =
     (if IsTerminal (case_Status i) then
       failM (Wrap (''item '' @ itemID @ '' is '' @ status_name (case_Status i)) ErrAlreadyCompleted)
     else
     let i = modified req i in
     bindM Now (\<lambda>now.
     updateItemWithAudit (i\<lparr>case_UpdatedAt := now\<rparr>) (mq_Actor req) ActionModify ''''))"
| "case_write (ReturnA reason actor) itemID i =
     bindM Now (\<lambda>now.
     bindM (liftE (TransitionTo i StatusReturned)) (\<lambda>i.
     updateItemWithAudit (i\<lparr>case_UpdatedAt := now\<rparr>) actor ActionReturn reason))"
| "case_write (ResubmitA actor) itemID i =
     bindM (liftE (TransitionTo i StatusRegistered)) (\<lambda>i.
     bindM (liftE (TransitionTo i StatusAdjudicated)) (\<lambda>i.
     bindM Now (\<lambda>now.
     updateItemWithAudit (i\<lparr>case_UpdatedAt := now\<rparr>) actor ActionResubmit '''')))"
| "case_write (CancelA reason actor) itemID i =
     bindM Now (\<lambda>now.
     bindM (liftE (TransitionTo i StatusCancelled)) (\<lambda>i.
     updateItemWithAudit (i\<lparr>case_CancelledAt := Some now, case_CancelReason := reason, case_UpdatedAt := now\<rparr>)
       actor ActionCancel reason))"
| "case_write (CompleteA actor) itemID i =
     bindM Now (\<lambda>now.
     bindM (liftE (TransitionTo i StatusCompleted)) (\<lambda>i.
     updateItemWithAudit (i\<lparr>case_CompletedAt := Some now, case_UpdatedAt := now\<rparr>) actor ActionComplete ''''))"

lemma case_operation_halves:
  "case_operation a itemID = bindM (mapErr (Wrap ''get item'') (GetItemByID itemID)) (case_write a itemID)"
  by (rule ext, cases a) (simp_all add: StartProcessing_def Modify_def ReturnForCorrection_def Resubmit_def Cancel_def
      Complete_def Let_def bindM_def [of "mapErr _ (GetItemByID _)"] split: prod.split sum.split)

section \<open>The later parts of the other operations\<close>

definition register_rules :: "(err, 'a world_scheme, time \<times> rule list) op" where
  "register_rules = bindM Now (\<lambda>now. bindM (mapErr (Wrap ''get active rules'') (GetActiveRules now)) (\<lambda>rules.
     retM (now, rules)))"

definition register_read :: "RegisterItemRequest \<Rightarrow> (err, 'a world_scheme, item option) op" where
  \<comment> \<open>the case that was registered before, if there is one\<close>
  "register_read req =
     (if rq_ExternalRef req = '''' then failM (Wrap ''external_ref empty'' ErrValidation)
      else if rq_Title req = '''' then failM (Wrap ''title empty'' ErrValidation)
      else if rq_RegisteredBy req = '''' then failM (Wrap ''reported_by empty'' ErrValidation)
      else bindM (tryM (GetItemByExternalRef (rq_ExternalRef req))) (\<lambda>r. case r of
        Inr existing \<Rightarrow> retM (Some existing)
      | Inl e \<Rightarrow> if \<not> errIs e ErrNotFound then failM (Wrap ''check duplicate'' e) else retM None))"

definition register_write :: "duration \<Rightarrow> RegisterItemRequest \<Rightarrow> time \<Rightarrow> rule list \<Rightarrow> (err, 'a world_scheme, item) op" where
  "register_write deadline req now rules =
     bindM NewString (\<lambda>itemID.
     let i = new_case req itemID now deadline in
     bindM (mapErr (Wrap (''adjudicate item '' @ itemID)) (Adjudicate i rules)) (\<lambda>referral.
     let i = i\<lparr>case_LeadDepartment := ref_LeadDepartment referral,
               case_CoDepartments := ref_CoDepartments referral,
               case_RuleVersion := ref_RuleVersion referral,
               case_Status := StatusAdjudicated\<rparr> in
     mapErr (Wrap ''register item tx'') (WithTx (register_tx i referral (rq_RegisteredBy req) now))))"

definition rule_write :: "CreateRuleRequest \<Rightarrow> int \<Rightarrow> (err, 'a world_scheme, rule) op" where
  "rule_write req currentVersion =
     bindM Now (\<lambda>now. WithTx (create_rule_tx req (new_rule req (wrap64 (currentVersion + 1)) now) now))"

definition retry_write :: "string \<Rightarrow> string \<Rightarrow> time PermanentFailure \<Rightarrow> (err, 'a world_scheme, unit) op" where
  "retry_write failureID actor failure =
     bindM Now (\<lambda>now.
     WithTx (retry_tx (failure\<lparr>fail_Status := FailureStatusRetried, fail_ResolvedAt := Some now\<rparr>) failureID actor now))"

definition round_start :: "EscalationService \<Rightarrow> (err, 'a schedulers_scheme, time \<times> item list) op" where
  "round_start s = bindM count_escalation_run (\<lambda>_. bindM Now (\<lambda>now.
     bindM (FindOverdueItems now (es_maxLevel s)) (\<lambda>overdue. retM (now, overdue))))"

definition import_start :: "BatchImportRequest \<Rightarrow> (err, 'a world_scheme, time \<times> BatchImportResult) op" where
  "import_start req = bindM Now (\<lambda>now. bindM NewString (\<lambda>batchID.
     retM (now, \<lparr>bi_BatchID = batchID, bi_TotalRows = int (length (bq_Items req)),
       bi_SuccessCount = 0, bi_FailureCount = 0, bi_Results = []\<rparr>)))"

definition row_result :: "int \<Rightarrow> RegisterItemRequest \<Rightarrow> err + item \<Rightarrow> BatchImportResult \<Rightarrow> BatchImportResult" where
  \<comment> \<open>what a row adds to the result\<close>
  "row_result i itemReq r result = (case r of
      Inl e \<Rightarrow> result\<lparr>bi_Results := bi_Results result @ [\<lparr>br_RowIndex = i, br_ExternalRef = rq_ExternalRef itemReq,
          br_Success = False, br_ItemID = '''', br_Error = errText e\<rparr>],
        bi_FailureCount := bi_FailureCount result + 1\<rparr>
    | Inr it \<Rightarrow> result\<lparr>bi_Results := bi_Results result @ [\<lparr>br_RowIndex = i, br_ExternalRef = rq_ExternalRef itemReq,
          br_Success = True, br_ItemID = case_ID it, br_Error = ''''\<rparr>],
        bi_SuccessCount := bi_SuccessCount result + 1\<rparr>)"

definition import_end :: "string \<Rightarrow> time \<Rightarrow> BatchImportResult \<Rightarrow> (err, 'a world_scheme, BatchImportResult) op" where
  "import_end storeID now result =
     bindM (mapErr (Wrap ''save import batch'') (WithTx (import_tx
         \<lparr>batch_ID = bi_BatchID result, batch_StoreID = storeID, batch_BatchDate = now,
           batch_TotalRows = bi_TotalRows result, batch_SuccessCount = bi_SuccessCount result,
           batch_FailureCount = bi_FailureCount result, batch_ImportedAt = now, batch_ShardPath = '''',
           batch_DataVersion = DataVersion\<rparr> storeID now result))) (\<lambda>_.
     retM result)"

definition tick_version :: "(err, 'a workers_scheme, int) op" where
  \<comment> \<open>a tick of the worker that finds no other sweep running, up to the version read\<close>
  "tick_version = bindM count_cycle (\<lambda>_. bindM (modM (\<lambda>w. w\<lparr>wk_running := True\<rparr>)) (\<lambda>_.
     mapErr (\<lambda>e. Wrap ''get current rule version'' (Join e ErrRuleReeval)) GetCurrentRuleVersion))"

definition sweep_rules :: "(err, 'a workers_scheme, rule list) op" where
  "sweep_rules = bindM Now (\<lambda>now. mapErr (\<lambda>e. Wrap ''get active rules'' (Join e ErrRuleReeval)) (GetActiveRules now))"

definition stale_page :: "ItemStatus \<Rightarrow> int \<Rightarrow> (err, 'a world_scheme, item list \<times> int) op" where
  "stale_page status offset = mapErr (Wrap (''list '' @ status_name status @ '' items offset '' @ show_int offset))
     (ListItems (status_filter status offset))"

definition sweep_fails :: "'a workers_scheme \<Rightarrow> 'a workers_scheme" where
  \<comment> \<open>a sweep that ends with an error\<close>
  "sweep_fails w = snd (add_failed (w\<lparr>wk_running := False\<rparr>))"

section \<open>Jobs\<close>

datatype job =
    CaseJob case_action string item \<comment> \<open>a request that has read its case\<close>
  | RegisterJob RegisterItemRequest \<comment> \<open>a registration that has found no duplicate\<close>
  | RoutedJob RegisterItemRequest time "rule list" \<comment> \<open>and that has read the rules\<close>
  | RuleJob CreateRuleRequest int \<comment> \<open>a new rule, with the version read\<close>
  | RetryJob string string "time PermanentFailure"
  | RoundJob time "item list" \<comment> \<open>a round, with the cases it has yet to escalate\<close>
  | FailureJob time item err "item list" \<comment> \<open>a round that is about to record a failure\<close>
  | ImportJob string time int "RegisterItemRequest list" BatchImportResult \<comment> \<open>an import before its next row\<close>
  | ImportRulesJob string time int RegisterItemRequest "RegisterItemRequest list" BatchImportResult
      \<comment> \<open>whose row has found no duplicate\<close>
  | ImportWriteJob string time int RegisterItemRequest time "rule list" "RegisterItemRequest list" BatchImportResult
      \<comment> \<open>and has read the rules\<close>
  | RulesJob int \<comment> \<open>a sweep that has read the version\<close>
  | CollectJob "ItemStatus list" nat "item list" "rule list" int
      \<comment> \<open>a sweep with the statuses to collect, the pages it has read of the first, and the cases so far\<close>
  | SweepJob "item list" "rule list" int \<comment> \<open>a sweep, with the cases it has yet to load\<close>
  | RerouteJob item "rule list" int "item list" \<comment> \<open>a sweep that has loaded a case\<close>

fun resume :: "system_config \<Rightarrow> job \<Rightarrow> schedulers \<Rightarrow> job list \<times> schedulers" where
  "resume cfg (CaseJob a itemID i) w = ([], snd (case_write a itemID i w))"
| "resume cfg (RegisterJob req) w = (case register_rules w of
     (Inl e, w') \<Rightarrow> ([], w') | (Inr (now, rules), w') \<Rightarrow> ([RoutedJob req now rules], w'))"
| "resume cfg (RoutedJob req now rules) w = ([], snd (register_write (sys_deadline cfg) req now rules w))"
| "resume cfg (RuleJob req v) w = ([], snd (rule_write req v w))"
| "resume cfg (RetryJob failureID actor f) w = ([], snd (retry_write failureID actor f w))"
| "resume cfg (RoundJob now []) w = ([], w)"
| "resume cfg (RoundJob now (i # items)) w = (case escalateItem (sys_escalation cfg) i now w of
     (Inl e, w') \<Rightarrow> ((if errIs e ErrMaxEscalationReached then [FailureJob now i e items] else []), w')
   | (Inr esc, w') \<Rightarrow> ([RoundJob now items], w'))"
| "resume cfg (FailureJob now i e items) w = (case recordPermanentFailure (sys_escalation cfg) i now e w of
     (Inl ferr, w') \<Rightarrow> ([], w') | (Inr u, w') \<Rightarrow> ([RoundJob now items], w'))"
| "resume cfg (ImportJob storeID now i [] result) w = ([], snd (import_end storeID now result w))"
| "resume cfg (ImportJob storeID now i (req # reqs) result) w = (case register_read req w of
     (Inl e, w') \<Rightarrow> ([ImportJob storeID now (i + 1) reqs (row_result i req (Inl e) result)], w')
   | (Inr (Some it), w') \<Rightarrow> ([ImportJob storeID now (i + 1) reqs (row_result i req (Inr it) result)], w')
   | (Inr None, w') \<Rightarrow> ([ImportRulesJob storeID now i req reqs result], w'))"
| "resume cfg (ImportRulesJob storeID now i req reqs result) w = (case register_rules w of
     (Inl e, w') \<Rightarrow> ([ImportJob storeID now (i + 1) reqs (row_result i req (Inl e) result)], w')
   | (Inr (t, rules), w') \<Rightarrow> ([ImportWriteJob storeID now i req t rules reqs result], w'))"
| "resume cfg (ImportWriteJob storeID now i req t rules reqs result) w =
     (case register_write (sys_deadline cfg) req t rules w of
       (r, w') \<Rightarrow> ([ImportJob storeID now (i + 1) reqs (row_result i req r result)], w'))"
| "resume cfg (RulesJob v) w = (case sweep_rules w of
     (Inl e, w') \<Rightarrow> ([], sweep_fails w')
   | (Inr rules, w') \<Rightarrow> ([CollectJob reevaluableStatuses 0 [] rules v], w'))"
| "resume cfg (CollectJob [] n stale rules v) w = ([SweepJob stale rules v], w)"
| "resume cfg (CollectJob (s # ss) n stale rules v) w = (case stale_page s (sweepPageSize * int n) w of
     (Inl e, w') \<Rightarrow> ([], sweep_fails w')
   | (Inr (items, rowCount), w') \<Rightarrow>
       let stale = stale @ filter (\<lambda>it. case_RuleVersion it < v) items in
       ([if int (length items) < sweepPageSize then CollectJob ss 0 stale rules v
         else CollectJob (s # ss) (Suc n) stale rules v], w'))"
| "resume cfg (SweepJob [] rules v) w = ([], w\<lparr>wk_running := False\<rparr>)"
| "resume cfg (SweepJob (i # items) rules v) w = (case external w of
     (Inl e, w') \<Rightarrow> ([], sweep_fails w')
   | (Inr u, w') \<Rightarrow> (case GetItemByID (case_ID i) w' of
        (Inl e, w'') \<Rightarrow> ([SweepJob items rules v], snd (add_failed w''))
      | (Inr fresh, w'') \<Rightarrow> ([RerouteJob fresh rules v items], w'')))"
| "resume cfg (RerouteJob fresh rules v items) w = (case reeval_loaded fresh rules v w of
     (Inl e, w') \<Rightarrow> ([SweepJob items rules v], snd (add_failed w'))
   | (Inr u, w') \<Rightarrow> ([SweepJob items rules v], w'))"

text \<open>A job that runs without anything in between.\<close>

inductive runs_alone :: "system_config \<Rightarrow> job list \<Rightarrow> schedulers \<Rightarrow> schedulers \<Rightarrow> bool" for cfg where
  finished: "runs_alone cfg [] w w"
| resumed: "resume cfg p w = (qs, w1) \<Longrightarrow> runs_alone cfg (qs @ ps) w1 w' \<Longrightarrow> runs_alone cfg (p # ps) w w'"

inductive_simps runs_alone_simps [simp]: "runs_alone cfg [] w w'" "runs_alone cfg (p # ps) w w'"

section \<open>Steps\<close>

text \<open>What a request has read when others come in for the first time.\<close>

inductive request_begins :: "schedulers \<Rightarrow> job \<Rightarrow> schedulers \<Rightarrow> bool" where
  case_read: "GetItemByID itemID w = (Inr i, w') \<Longrightarrow> request_begins w (CaseJob a itemID i) w'"
| register_reads: "register_read req w = (Inr None, w') \<Longrightarrow> request_begins w (RegisterJob req) w'"
| rule_read: "cr_Name creq \<noteq> '''' \<Longrightarrow> cr_LeadDepartment creq \<noteq> '''' \<Longrightarrow> cr_CreatedBy creq \<noteq> ''''
    \<Longrightarrow> GetCurrentRuleVersion w = (Inr v, w') \<Longrightarrow> request_begins w (RuleJob creq v) w'"
| failure_read: "GetFailureByID failureID w = (Inr f, w') \<Longrightarrow> request_begins w (RetryJob failureID actor f) w'"
| import_begins: "import_start breq w = (Inr (now, result), w')
    \<Longrightarrow> request_begins w (ImportJob (bq_StoreID breq) now 0 (bq_Items breq) result) w'"

text \<open>
  The state is the store with the jobs under way, which a restart loses. \<open>fit\<close> says which jobs may be
  resumed at an index: any, in general; or only those whose case is still what they have read.
\<close>

inductive concurrent_step ::
  "system_config \<Rightarrow> (index \<Rightarrow> job \<Rightarrow> bool) \<Rightarrow> schedulers \<times> job list \<Rightarrow> schedulers \<times> job list \<Rightarrow> bool"
  for cfg fit where
  whole: "system_step cfg w w' \<Longrightarrow> concurrent_step cfg fit (w, ps) (w', ps)"
| request_begins: "request_begins w p w' \<Longrightarrow> concurrent_step cfg fit (w, ps) (w', p # ps)"
| round_begins: "round_start (sys_escalation cfg) w = (Inr (now, items), w')
    \<Longrightarrow> concurrent_step cfg fit (w, ps) (w', RoundJob now items # ps)"
| sweep_begins: "\<not> wk_running w \<Longrightarrow> tick_version w = (Inr v, w') \<Longrightarrow> v \<noteq> 0
    \<Longrightarrow> concurrent_step cfg fit (w, ps) (w', RulesJob v # ps)"
| task_fails: "recordTaskFailure (sys_scheduler cfg) taskName e n w = (u, w')
    \<Longrightarrow> concurrent_step cfg fit (w, ps) (w', ps)"
| goes_on: "fit (db_index w) p \<Longrightarrow> resume cfg p w = (qs, w')
    \<Longrightarrow> concurrent_step cfg fit (w, ps @ p # ps') (w', ps @ qs @ ps')"
| crash: "w' = restarted w \<Longrightarrow> concurrent_step cfg fit (w, ps) (w', [])"

abbreviation any_job :: "index \<Rightarrow> job \<Rightarrow> bool" where
  "any_job ix p \<equiv> True"

definition reachable_concurrently :: "system_config \<Rightarrow> schedulers \<times> job list \<Rightarrow> bool" where
  "reachable_concurrently cfg s \<longleftrightarrow> (\<exists>w. db_index w = empty_index \<and> sh_files w = []
     \<and> (concurrent_step cfg any_job)\<^sup>*\<^sup>* (w, []) s)"

section \<open>Every job ends\<close>

text \<open>
  The size of a job that pages through the cases depends on the number of rows: each full page leaves
  a shorter rest, and adds at most two hundred cases to what is to be swept.
\<close>

fun job_size :: "schedulers \<Rightarrow> job \<Rightarrow> nat" where
  "job_size w (CaseJob a itemID i) = 1"
| "job_size w (RegisterJob req) = 2"
| "job_size w (RoutedJob req now rules) = 1"
| "job_size w (RuleJob req v) = 1"
| "job_size w (RetryJob failureID actor f) = 1"
| "job_size w (RoundJob now items) = 2 * length items + 1"
| "job_size w (FailureJob now i e items) = 2 * length items + 2"
| "job_size w (ImportJob storeID now i reqs result) = 3 * length reqs + 1"
| "job_size w (ImportRulesJob storeID now i req reqs result) = 3 * length reqs + 3"
| "job_size w (ImportWriteJob storeID now i req t rules reqs result) = 3 * length reqs + 2"
| "job_size w (RulesJob v) = (let n = length (tab_items (db_index w)) in
     3 + 401 * (length reevaluableStatuses * Suc n + n))"
| "job_size w (CollectJob ss k stale rules v) = (let n = length (tab_items (db_index w)) in
     2 * length stale + 2 + 401 * (length ss * Suc n + (n - k)))"
| "job_size w (SweepJob items rules v) = 2 * length items + 1"
| "job_size w (RerouteJob fresh rules v items) = 2 * length items + 2"

lemma job_size_pos: "0 < job_size w p"
  by (cases p) (simp_all add: Let_def)

lemma page_bounds:
  assumes "stale_page s offset w = (Inr (items, n), w')" and "0 \<le> offset"
  shows "db_index w' = db_index w" and "length items \<le> 200"
    and "\<not> int (length items) < sweepPageSize \<Longrightarrow> offset + 200 \<le> int (length (tab_items (db_index w)))"
proof -
  obtain p :: "item_row \<Rightarrow> bool" and w1 where "db_index w1 = db_index w"
    and q: "query_rows (Wrap ''query items'') (\<lambda>ix. page 200 offset (sort_desc case_RegisteredAt (filter p (tab_items ix)))) scanItem w1
      = (Inr items, w')"
  proof -
    have size: "item_page_size (if_PageSize (status_filter s offset)) = 200" "page_offset (if_PageOffset (status_filter s offset)) = offset"
      "if_OverdueOnly (status_filter s offset) = False"
      using assms(2) by (simp_all add: item_page_size_def page_offset_def status_filter_def sweepPageSize_def)
    obtain w1 where "count_rows tab_items (item_where (status_filter s offset) zero_time) w = (Inr n, w1)"
      and q: "query_rows (Wrap ''query items'') (\<lambda>ix. page 200 offset (sort_desc case_RegisteredAt
        (filter (item_where (status_filter s offset) zero_time) (tab_items ix)))) scanItem w1 = (Inr items, w')"
      using assms(1) unfolding stale_page_def ListItems_def listed_items_def size by (auto simp: op_results)
    moreover from this(1) have "db_index w1 = db_index w"
      using keepsD [OF same_count_rows] unfolding same_index_def by blast
    ultimately show thesis using that by blast
  qed
  let ?rows = "sort_desc case_RegisteredAt (filter p (tab_items (db_index w)))"
  from query_rows_Inr [OF q] \<open>db_index w1 = db_index w\<close> have same: "db_index w' = db_index w"
    and items: "list_all2 (\<lambda>row i. scanItem row = Inr i) (take 200 (drop (nat offset) ?rows)) items"
    by (auto simp: page_def)
  from items have len: "length items = min 200 (length ?rows - nat offset)" by (auto dest!: list_all2_lengthD)
  show "db_index w' = db_index w" and "length items \<le> 200" using same len by simp_all
  assume "\<not> int (length items) < sweepPageSize"
  then have "length items = 200" using len by (simp add: sweepPageSize_def)
  then have "nat offset + 200 \<le> length ?rows" using len by linarith
  also have "\<dots> \<le> length (tab_items (db_index w))" by simp
  finally show "offset + 200 \<le> int (length (tab_items (db_index w)))" using assms(2) by linarith
qed

lemma rules_read_only: "sweep_rules w = (r, w') \<Longrightarrow> db_index w' = db_index w"
proof -
  have "keeps same_index (sweep_rules :: (err, 'a workers_scheme, rule list) op)" unfolding sweep_rules_def
    by (intro same_index.keeps_all same_Now queries_read_only)
  then show "sweep_rules w = (r, w') \<Longrightarrow> db_index w' = db_index w" by (auto simp: keeps_def same_index_def dest!: spec [of _ w])
qed

lemma collect_smaller:
  assumes "stale_page s (sweepPageSize * int k) w = (Inr (items, n), w')"
  shows "job_size w' (if int (length items) < sweepPageSize then CollectJob ss 0 (stale @ filter P items) rules v
      else CollectJob (s # ss) (Suc k) (stale @ filter P items) rules v) < job_size w (CollectJob (s # ss) k stale rules v)"
proof -
  note page = page_bounds [OF assms]
  have off: "0 \<le> sweepPageSize * int k" by (simp add: sweepPageSize_def)
  let ?n = "length (tab_items (db_index w))"
  have new: "length (filter P items) \<le> 200" using page(2) [OF off] length_filter_le [of P items] by linarith
  show ?thesis
  proof (cases "int (length items) < sweepPageSize")
    case True
    with new page(1) [OF off] show ?thesis by (simp add: Let_def)
  next
    case False
    then have "Suc k \<le> ?n" using page(3) [OF off] by (simp add: sweepPageSize_def)
    then have "?n - k = Suc (?n - Suc k)" by simp
    with new page(1) [OF off] False show ?thesis by (simp add: Let_def)
  qed
qed

lemma resume_smaller:
  "resume cfg p w = (qs, w') \<Longrightarrow> qs = [] \<or> (\<exists>q. qs = [q] \<and> job_size w' q < job_size w p)"
proof (induction cfg p w rule: resume.induct)
  case (10 cfg storeID now i req reqs result w)
  then show ?case by (auto split: prod.splits sum.splits option.splits)
qed (auto simp: Let_def rules_read_only split: prod.splits sum.splits if_split_asm
    dest: collect_smaller)

text \<open>A list of jobs ends one after the other.\<close>

definition jobs_left :: "((job list \<times> schedulers) \<times> job list \<times> schedulers) set" where
  "jobs_left = measures [\<lambda>(ps, w). length ps, \<lambda>(ps, w). job_size w (hd ps)]"

lemma jobs_left: "wf jobs_left" "resume cfg p w = (qs, w') \<Longrightarrow> ((qs @ ps, w'), p # ps, w) \<in> jobs_left"
  using resume_smaller by (fastforce simp: jobs_left_def)+

lemma jobs_end: "\<exists>!w'. runs_alone cfg ps w w'"
proof (induction "(ps, w)" arbitrary: ps w rule: wf_induct_rule [OF jobs_left(1)])
  case 1
  show ?case
  proof (cases ps)
    case (Cons p qs)
    obtain ks w1 where r: "resume cfg p w = (ks, w1)" by (cases "resume cfg p w")
    have "\<exists>!w'. runs_alone cfg (ks @ qs) w1 w'" using 1 jobs_left(2) [OF r, of qs] Cons by blast
    moreover have "runs_alone cfg ps w = runs_alone cfg (ks @ qs) w1" using r Cons by (simp add: fun_eq_iff)
    ultimately show ?thesis by simp
  qed (simp add: Ex1_def)
qed

end
