(* ===== verification/Auth.thy ===== *)
theory Auth
  imports Sha256 Go_Runtime
begin

text \<open>
  Users and sessions (internal/auth). The file of the store is the value that was marshalled,
  or a file that does not decode; \<open>persist\<close> replaces it in one step, as the rename does. The
  package bcrypt is a parameter, the random bytes of a token are an arbitrary function of the
  number of the draw, and a failure of any call outside can come from \<open>rt_faults\<close>. Every
  operation is one step, under the mutex of the store; between the two halves of a login, which
  lets go of it, only the sessions can change, and the second half does not look at them.
\<close>

section \<open>Data\<close>

record bcrypt =
  bc_generate :: "nat \<Rightarrow> string \<Rightarrow> err + string"
    \<comment> \<open>\<open>GenerateFromPassword\<close> with the salt of the given draw\<close>
  bc_matches :: "string \<Rightarrow> string \<Rightarrow> bool"
    \<comment> \<open>\<open>CompareHashAndPassword\<close> returns nil\<close>

definition ErrInvalidCredentials :: err where "ErrInvalidCredentials = ErrNamed ''invalid credentials''"
definition ErrSessionExpired :: err where "ErrSessionExpired = ErrNamed ''session expired''"
definition ErrSessionRevoked :: err where "ErrSessionRevoked = ErrNamed ''session revoked''"
definition ErrForbidden :: err where "ErrForbidden = ErrNamed ''forbidden''"

lemmas auth_errors = ErrInvalidCredentials_def ErrSessionExpired_def ErrSessionRevoked_def ErrForbidden_def

datatype Role = RoleStoreOperator | RoleQualityInspector | RoleSupplyChainAuditor | RoleAdmin | RoleOther string

definition role_of :: "string \<Rightarrow> Role" where
  "role_of s = (if s = ''store_operator'' then RoleStoreOperator else if s = ''quality_inspector'' then RoleQualityInspector
     else if s = ''supply_chain_auditor'' then RoleSupplyChainAuditor else if s = ''admin'' then RoleAdmin else RoleOther s)"

record User =
  usr_ID :: string
  usr_Username :: string
  usr_PasswordHash :: string
  usr_Role :: Role
  usr_Disabled :: bool

record BootstrapUser =
  boot_ID :: string
  boot_Username :: string
  boot_Password :: string
  boot_Role :: Role

record Session =
  ses_ID :: string
  ses_UserID :: string
  ses_TokenHash :: string
  ses_ExpiresAt :: time
  ses_RevokedAt :: "time option"

record diskState =
  ds_Users :: "User list"
  ds_Sessions :: "Session list"

datatype auth_file = NoFile | Undecodable err | Saved diskState

record auth_store = runtime +
  au_random :: "nat \<Rightarrow> nat \<Rightarrow> char"
  au_draws :: nat
  au_disk :: auth_file
  au_data :: diskState

definition validRole :: "Role \<Rightarrow> bool" where
  "validRole role \<longleftrightarrow> role \<in> {RoleStoreOperator, RoleQualityInspector, RoleSupplyChainAuditor, RoleAdmin}"

section \<open>Loading and saving\<close>

definition load :: "(err, 'a auth_store_scheme, unit) op" where
  "load = bindM (mapErr (Wrap ''read auth store'') external) (\<lambda>_.
     bindM (getM au_disk) (\<lambda>f. case f of
       NoFile \<Rightarrow> retM ()
     | Undecodable e \<Rightarrow> failM (Wrap ''decode auth store'' e)
     | Saved d \<Rightarrow> modM (\<lambda>w. w\<lparr>au_data := d\<rparr>)))"

definition stored_user :: "User \<Rightarrow> User" where
  \<comment> \<open>the field \<open>PasswordHash\<close> has the tag \<open>json:"-"\<close>\<close>
  "stored_user u = u\<lparr>usr_PasswordHash := ''''\<rparr>"

definition session_times :: "Session \<Rightarrow> time list" where
  "session_times s = ses_ExpiresAt s # (case ses_RevokedAt s of None \<Rightarrow> [] | Some t \<Rightarrow> [t])"

definition marshal_state :: "diskState \<Rightarrow> err + diskState" where
  \<comment> \<open>\<open>MarshalIndent\<close>, which refuses a year beyond 9999\<close>
  "marshal_state d =
     (if \<forall>s \<in> set (ds_Sessions d). list_all time_ok (session_times s)
      then Inr (d\<lparr>ds_Users := map stored_user (ds_Users d)\<rparr>)
      else Inl (ErrExternal ''json: error calling MarshalJSON for type time.Time: Time.MarshalJSON: year outside of range [0,9999]''))"

definition persist :: "(err, 'a auth_store_scheme, unit) op" where
  "persist =
     bindM (mapErr (Wrap ''create auth directory'') external) (\<lambda>_.
     bindM (getM au_data) (\<lambda>d.
     bindM (mapErr (Wrap ''encode auth store'') (liftE (marshal_state d))) (\<lambda>data.
     bindM (mapErr (Wrap ''write auth store'') external) (\<lambda>_.
     bindM (mapErr (Wrap ''replace auth store'') external) (\<lambda>_.
     modM (\<lambda>w. w\<lparr>au_disk := Saved data\<rparr>))))))"

section \<open>Opening the store\<close>

definition hashPassword :: "bcrypt \<Rightarrow> string \<Rightarrow> (err, 'a auth_store_scheme, string) op" where
  "hashPassword bc password =
     bindM (getM au_draws) (\<lambda>n.
     bindM (modM (\<lambda>w. w\<lparr>au_draws := Suc n\<rparr>)) (\<lambda>_.
     mapErr (Wrap ''bcrypt password hash'') (liftE (bc_generate bc n password))))"

fun go_quote_char :: "char \<Rightarrow> string" where
  \<comment> \<open>the verb \<open>%q\<close>, for a text whose runes beyond ASCII are printable\<close>
  "go_quote_char c =
     (if c = CHR 0x22 \<or> c = CHR 0x5C then [CHR 0x5C, c]
      else if c = CHR 0x07 then [CHR 0x5C, CHR ''a''] else if c = CHR 0x08 then [CHR 0x5C, CHR ''b'']
      else if c = CHR 0x0C then [CHR 0x5C, CHR ''f''] else if c = CHR 0x0A then [CHR 0x5C, CHR ''n'']
      else if c = CHR 0x0D then [CHR 0x5C, CHR ''r''] else if c = CHR 0x09 then [CHR 0x5C, CHR ''t'']
      else if c = CHR 0x0B then [CHR 0x5C, CHR ''v'']
      else if (of_char c :: int) < 32 \<or> c = CHR 0x7F
        then CHR 0x5C # ''x'' @ [hex_digit (of_char c div 16), hex_digit (of_char c)] else [c])"

definition go_quote :: "string \<Rightarrow> string" where
  "go_quote s = CHR 0x22 # concat (map go_quote_char s) @ [CHR 0x22]"

fun seed_users :: "bcrypt \<Rightarrow> string list \<Rightarrow> string list \<Rightarrow> BootstrapUser list \<Rightarrow> (err, 'a auth_store_scheme, unit) op" where
  \<comment> \<open>the loop of \<open>Open\<close>, with the keys of \<open>seenIDs\<close> and \<open>seenNames\<close>\<close>
  "seed_users bc seenIDs seenNames [] = retM ()"
| "seed_users bc seenIDs seenNames (seed # seeds) =
     (if boot_ID seed = '''' \<or> boot_Username seed = '''' \<or> length (boot_Password seed) < 12 \<or> \<not> validRole (boot_Role seed) then
        failM (ErrNamed (''invalid bootstrap user '' @ go_quote (boot_Username seed)
          @ '': id, username, role and a 12-character password are required''))
      else if boot_ID seed \<in> set seenIDs then failM (ErrNamed (''duplicate bootstrap user id '' @ go_quote (boot_ID seed)))
      else if boot_Username seed \<in> set seenNames then
        failM (ErrNamed (''duplicate bootstrap username '' @ go_quote (boot_Username seed)))
      else
        bindM (mapErr (Wrap (''hash bootstrap password for '' @ boot_Username seed)) (hashPassword bc (boot_Password seed))) (\<lambda>hash.
        bindM (modM (\<lambda>w. w\<lparr>au_data := (au_data w)\<lparr>ds_Users := ds_Users (au_data w)
            @ [\<lparr>usr_ID = boot_ID seed, usr_Username = boot_Username seed, usr_PasswordHash = hash,
                usr_Role = boot_Role seed, usr_Disabled = False\<rparr>]\<rparr>\<rparr>)) (\<lambda>_.
        seed_users bc (boot_ID seed # seenIDs) (boot_Username seed # seenNames) seeds)))"

definition Open :: "bcrypt \<Rightarrow> BootstrapUser list \<Rightarrow> (err, 'a auth_store_scheme, unit) op" where
  \<comment> \<open>a new store in place of \<open>au_data\<close>\<close>
  "Open bc bootstrap =
     bindM (modM (\<lambda>w. w\<lparr>au_data := \<lparr>ds_Users = [], ds_Sessions = []\<rparr>\<rparr>)) (\<lambda>_.
     bindM load (\<lambda>_.
     bindM (getM au_data) (\<lambda>d.
     if ds_Users d = [] \<and> bootstrap \<noteq> [] then bindM (seed_users bc [] [] bootstrap) (\<lambda>_. persist)
     else retM ())))"

section \<open>Sessions\<close>

definition tokenHash :: "string \<Rightarrow> string" where
  "tokenHash token = sha256_hex token"

definition hex_bytes :: "string \<Rightarrow> string" where
  "hex_bytes s = concat (map (\<lambda>c. [hex_digit (of_char c div 16), hex_digit (of_char c)]) s)"

definition newToken :: "(err, 'a auth_store_scheme, string) op" where
  "newToken =
     bindM (mapErr (Wrap ''generate session token'') external) (\<lambda>_.
     bindM (getM (\<lambda>w. map (au_random w (au_draws w)) [0..<32])) (\<lambda>b.
     bindM (modM (\<lambda>w. w\<lparr>au_draws := Suc (au_draws w)\<rparr>)) (\<lambda>_. retM (hex_bytes b))))"

definition Authenticate :: "bcrypt \<Rightarrow> string \<Rightarrow> string \<Rightarrow> (err, 'a auth_store_scheme, User) op" where
  "Authenticate bc username password =
     bindM (getM (\<lambda>w. find (\<lambda>u. usr_Username u = username \<and> \<not> usr_Disabled u
       \<and> bc_matches bc (usr_PasswordHash u) password) (ds_Users (au_data w)))) (\<lambda>r. case r of
       Some user \<Rightarrow> retM user | None \<Rightarrow> failM ErrInvalidCredentials)"

definition Login :: "bcrypt \<Rightarrow> string \<Rightarrow> string \<Rightarrow> duration \<Rightarrow> time
    \<Rightarrow> (err, 'a auth_store_scheme, User \<times> string \<times> time) op" where
  "Login bc username password ttl now =
     bindM (Authenticate bc username password) (\<lambda>user.
     bindM newToken (\<lambda>token.
     let expires = Add now ttl in
     bindM (modM (\<lambda>w. w\<lparr>au_data := (au_data w)\<lparr>ds_Sessions := ds_Sessions (au_data w)
         @ [\<lparr>ses_ID = take 16 token, ses_UserID = usr_ID user, ses_TokenHash = tokenHash token,
             ses_ExpiresAt = expires, ses_RevokedAt = None\<rparr>]\<rparr>\<rparr>)) (\<lambda>_.
     bindM persist (\<lambda>_. retM (user, token, expires)))))"

definition Resolve :: "string \<Rightarrow> time \<Rightarrow> (err, 'a auth_store_scheme, User) op" where
  "Resolve token now =
     bindM (getM (\<lambda>w. find (\<lambda>s. ses_TokenHash s = tokenHash token) (ds_Sessions (au_data w)))) (\<lambda>r. case r of
       None \<Rightarrow> failM ErrInvalidCredentials
     | Some session \<Rightarrow>
         if ses_RevokedAt session \<noteq> None then failM ErrSessionRevoked
         else if \<not> Before now (ses_ExpiresAt session) then failM ErrSessionExpired
         else bindM (getM (\<lambda>w. find (\<lambda>u. usr_ID u = ses_UserID session \<and> \<not> usr_Disabled u) (ds_Users (au_data w)))) (\<lambda>u.
           case u of Some user \<Rightarrow> retM user | None \<Rightarrow> failM ErrInvalidCredentials))"

fun revoke_first :: "string \<Rightarrow> time \<Rightarrow> Session list \<Rightarrow> Session list" where
  \<comment> \<open>the assignment in the loop of \<open>Logout\<close>\<close>
  "revoke_first hash now [] = []"
| "revoke_first hash now (s # ss) =
     (if ses_TokenHash s = hash then (if ses_RevokedAt s = None then s\<lparr>ses_RevokedAt := Some now\<rparr> else s) # ss
      else s # revoke_first hash now ss)"

definition Logout :: "string \<Rightarrow> time \<Rightarrow> (err, 'a auth_store_scheme, unit) op" where
  "Logout token now =
     bindM (getM (\<lambda>w. list_ex (\<lambda>s. ses_TokenHash s = tokenHash token) (ds_Sessions (au_data w)))) (\<lambda>found.
     if found then
       bindM (modM (\<lambda>w. w\<lparr>au_data := (au_data w)\<lparr>ds_Sessions :=
           revoke_first (tokenHash token) now (ds_Sessions (au_data w))\<rparr>\<rparr>)) (\<lambda>_. persist)
     else failM ErrInvalidCredentials)"

definition RequireRole :: "User \<Rightarrow> Role list \<Rightarrow> err option" where
  "RequireRole user allowed = (if usr_Role user \<in> set allowed then None else Some ErrForbidden)"

end
