(* ===== verification/Http.thy ===== *)
theory Http
  imports Auth Rule_Service Query_Service Go_Numbers
begin

text \<open>
  The HTTP interface (internal/httpapi): the handlers, the two middlewares that decide whether a
  handler runs, and the route table. The router and the decoder of JSON are outside: a request is
  the route that was matched with its parameters, and a body is what the decoder made of it, or
  the text of its error. A response is its status and the value that is encoded into its body;
  request identifiers, headers and logging are left out. Query parameters that are times are
  taken to be in UTC; a text with a numeric offset, which the index would compare as that text,
  is outside of the model.
\<close>

section \<open>Responses\<close>

definition utf8 :: "nat list \<Rightarrow> string" where
  "utf8 bs = map char_of bs"

definition msg_no_token :: string where
  "msg_no_token = utf8 [0xE7, 0xBC, 0xBA, 0xE5, 0xB0, 0x91, 0xE4, 0xBC, 0x9A, 0xE8, 0xAF, 0x9D, 0xE4, 0xBB, 0xA4,
     0xE7, 0x89, 0x8C]"

definition msg_bad_login :: string where
  "msg_bad_login = utf8 [0xE7, 0x94, 0xA8, 0xE6, 0x88, 0xB7, 0xE5, 0x90, 0x8D, 0xE6, 0x88, 0x96, 0xE5, 0xAF, 0x86,
     0xE7, 0xA0, 0x81, 0xE9, 0x94, 0x99, 0xE8, 0xAF, 0xAF]"

definition msg_invalid :: string where
  "msg_invalid = utf8 [0xE4, 0xBC, 0x9A, 0xE8, 0xAF, 0x9D, 0xE6, 0x97, 0xA0, 0xE6, 0x95, 0x88]"

definition msg_expired :: string where
  "msg_expired = utf8 [0xE4, 0xBC, 0x9A, 0xE8, 0xAF, 0x9D, 0xE5, 0xB7, 0xB2, 0xE8, 0xBF, 0x87, 0xE6, 0x9C, 0x9F]"

definition msg_revoked :: string where
  "msg_revoked = utf8 [0xE4, 0xBC, 0x9A, 0xE8, 0xAF, 0x9D, 0xE5, 0xB7, 0xB2, 0xE9, 0x80, 0x80, 0xE5, 0x87, 0xBA]"

definition msg_invalid_or_expired :: string where
  "msg_invalid_or_expired = utf8 [0xE4, 0xBC, 0x9A, 0xE8, 0xAF, 0x9D, 0xE6, 0x97, 0xA0, 0xE6, 0x95, 0x88, 0xE6, 0x88, 0x96,
     0xE5, 0xB7, 0xB2, 0xE5, 0xA4, 0xB1, 0xE6, 0x95, 0x88]"

definition msg_forbidden :: string where
  "msg_forbidden = utf8 [0xE5, 0xBD, 0x93, 0xE5, 0x89, 0x8D, 0xE8, 0xA7, 0x92, 0xE8, 0x89, 0xB2, 0xE6, 0x97, 0xA0,
     0xE6, 0x9D, 0x83, 0xE6, 0x89, 0xA7, 0xE8, 0xA1, 0x8C, 0xE6, 0xAD, 0xA4, 0xE6, 0x93, 0x8D, 0xE4,
     0xBD, 0x9C]"

datatype payload =
    Problem string string
  | Texts "(string \<times> string) list"
  | OneItem item
  | ItemPage "item list" int int int
  | OneDetail ItemDetail
  | OneRule rule
  | RuleList "rule list" int
  | Imported BatchImportResult
  | BatchPage "time ImportBatch list" int int int
  | Backlog BacklogStats
  | AuditPage "time AuditEntry list" int int int
  | FailureList "time PermanentFailure list" int
  | LoggedIn User string time
  | Who User
  | Readiness bool "(string \<times> string) list"
  | NoContent

record response =
  rs_Status :: int
  rs_Body :: payload

definition writeJSON :: "int \<Rightarrow> payload \<Rightarrow> response" where
  "writeJSON status data = \<lparr>rs_Status = status, rs_Body = data\<rparr>"

definition writeError :: "int \<Rightarrow> string \<Rightarrow> string \<Rightarrow> response" where
  "writeError status code message = writeJSON status (Problem code message)"

definition writeBadRequest :: "string \<Rightarrow> response" where
  "writeBadRequest message = writeError 400 ''BAD_REQUEST'' message"

fun as_validation :: "err \<Rightarrow> (string \<times> string) option" where
  \<comment> \<open>\<open>errors.As\<close> with a target of the type ValidationError\<close>
  "as_validation (ValidationError f m) = Some (f, m)"
| "as_validation (Wrap s e) = as_validation e"
| "as_validation (Detail e s) = as_validation e"
| "as_validation (Join a b) = (case as_validation a of Some v \<Rightarrow> Some v | None \<Rightarrow> as_validation b)"
| "as_validation e = None"

definition writeServiceError :: "err \<Rightarrow> response" where
  "writeServiceError e =
     (case as_validation e of
        Some (field, message) \<Rightarrow> writeError 400 ''VALIDATION_ERROR'' (field @ '': '' @ message)
      | None \<Rightarrow>
          if errIs e ErrValidation then writeError 400 ''VALIDATION_ERROR'' (errText e)
          else if errIs e ErrNotFound then writeError 404 ''NOT_FOUND'' (errText e)
          else if errIs e ErrInvalidTransition then writeError 409 ''INVALID_TRANSITION'' (errText e)
          else if errIs e ErrAlreadyCompleted then writeError 409 ''ALREADY_COMPLETED'' (errText e)
          else if errIs e ErrAlreadyCancelled then writeError 409 ''ALREADY_CANCELLED'' (errText e)
          else if errIs e ErrNoMatchingRule then writeError 422 ''NO_MATCHING_RULE'' (errText e)
          else if errIs e ErrMaxEscalationReached then writeError 409 ''MAX_ESCALATION'' (errText e)
          else if errIs e ErrDuplicate then writeError 409 ''DUPLICATE'' (errText e)
          else writeError 500 ''INTERNAL_ERROR'' (errText e))"

section \<open>Requests\<close>

definition parsePageSize :: "(string \<Rightarrow> string) \<Rightarrow> int" where
  "parsePageSize query =
     (let s = query ''page_size'' in
      if s = '''' then 20
      else case Atoi s of None \<Rightarrow> 20 | Some n \<Rightarrow> if n \<le> 0 then 20 else if n > 200 then 200 else n)"

definition parsePageOffset :: "(string \<Rightarrow> string) \<Rightarrow> int" where
  "parsePageOffset query =
     (let s = query ''page_offset'' in
      if s = '''' then 0 else case Atoi s of None \<Rightarrow> 0 | Some n \<Rightarrow> if n < 0 then 0 else n)"

definition query_time :: "(string \<Rightarrow> string) \<Rightarrow> string \<Rightarrow> time" where
  \<comment> \<open>the zero time when the parameter is missing or does not parse\<close>
  "query_time query name = (if query name = '''' then zero_time
     else case parse_rfc3339 (query name) of None \<Rightarrow> zero_time | Some t \<Rightarrow> t)"

definition parseItemFilter :: "(string \<Rightarrow> string) \<Rightarrow> ItemFilter" where
  "parseItemFilter query = \<lparr>if_Status = status_of (query ''status''), if_LeadDepartment = query ''lead_department'',
     if_StoreID = query ''store_id'', if_RegisteredBy = query ''reported_by'', if_From = query_time query ''from'',
     if_To = query_time query ''to'', if_OverdueOnly = (query ''overdue'' = ''true''),
     if_PageSize = parsePageSize query, if_PageOffset = parsePageOffset query\<rparr>"

definition or_else :: "string \<Rightarrow> string \<Rightarrow> string" where
  "or_else fallback s = (if s = '''' then fallback else s)"

definition bearerToken :: "string \<Rightarrow> string" where
  "bearerToken header =
     (let value = TrimSpace header in
      if length value > 7 \<and> map lower_char (take 7 value) = ''bearer '' then TrimSpace (drop 7 value) else '''')"

section \<open>Handlers\<close>

type_synonym 'w handler = "'w \<Rightarrow> response \<times> 'w"

definition respond :: "(err, 'w, 'b) op \<Rightarrow> ('b \<Rightarrow> response) \<Rightarrow> 'w handler" where
  \<comment> \<open>\<open>x, err := op; if err != nil { writeServiceError(w, r, err); return }\<close>\<close>
  "respond m ok w = (case m w of (Inl e, w') \<Rightarrow> (writeServiceError e, w') | (Inr b, w') \<Rightarrow> (ok b, w'))"

definition with_body :: "string + 'q \<Rightarrow> ('q \<Rightarrow> 'w handler) \<Rightarrow> 'w handler" where
  "with_body body h w = (case body of Inl msg \<Rightarrow> (writeBadRequest (''invalid JSON: '' @ msg), w) | Inr req \<Rightarrow> h req w)"

definition registerItem :: "duration \<Rightarrow> string + RegisterItemRequest \<Rightarrow> 'a world_scheme handler" where
  "registerItem deadline body = with_body body (\<lambda>req. respond (Register deadline req) (\<lambda>i. writeJSON 201 (OneItem i)))"

definition listItems :: "(string \<Rightarrow> string) \<Rightarrow> 'a world_scheme handler" where
  "listItems query = (let flt = parseItemFilter query in
     respond (ListItems flt) (\<lambda>(items, total). writeJSON 200 (ItemPage items total (if_PageSize flt) (if_PageOffset flt))))"

definition getItemDetail :: "string \<Rightarrow> 'a world_scheme handler" where
  "getItemDetail itemID w = (if itemID = '''' then (writeBadRequest ''item id required'', w)
     else respond (GetItemDetail itemID) (\<lambda>d. writeJSON 200 (OneDetail d)) w)"

definition modifyItem :: "string \<Rightarrow> string + ModifyItemRequest \<Rightarrow> 'a world_scheme handler" where
  "modifyItem itemID body w = (if itemID = '''' then (writeBadRequest ''item id required'', w)
     else with_body body (\<lambda>req. respond (Modify itemID req) (\<lambda>i. writeJSON 200 (OneItem i))) w)"

definition startProcessing :: "string \<Rightarrow> (string \<Rightarrow> string) \<Rightarrow> 'a world_scheme handler" where
  "startProcessing itemID query =
     respond (StartProcessing itemID (or_else ''unknown'' (query ''actor''))) (\<lambda>i. writeJSON 200 (OneItem i))"

definition returnForCorrection :: "string \<Rightarrow> string \<Rightarrow> string \<Rightarrow> 'a world_scheme handler" where
  \<comment> \<open>the reason and the actor are what the decoder left in them, whether or not it failed\<close>
  "returnForCorrection itemID reason actor =
     respond (ReturnForCorrection itemID reason (or_else ''unknown'' actor)) (\<lambda>i. writeJSON 200 (OneItem i))"

definition resubmitItem :: "string \<Rightarrow> (string \<Rightarrow> string) \<Rightarrow> 'a world_scheme handler" where
  "resubmitItem itemID query =
     respond (Resubmit itemID (or_else ''unknown'' (query ''actor''))) (\<lambda>i. writeJSON 200 (OneItem i))"

definition cancelItem :: "string \<Rightarrow> string \<Rightarrow> string \<Rightarrow> 'a world_scheme handler" where
  "cancelItem itemID reason actor =
     respond (Cancel itemID reason (or_else ''unknown'' actor)) (\<lambda>i. writeJSON 200 (OneItem i))"

definition completeItem :: "string \<Rightarrow> (string \<Rightarrow> string) \<Rightarrow> 'a world_scheme handler" where
  "completeItem itemID query =
     respond (Complete itemID (or_else ''unknown'' (query ''actor''))) (\<lambda>i. writeJSON 200 (OneItem i))"

definition createRule :: "string + CreateRuleRequest \<Rightarrow> 'a world_scheme handler" where
  "createRule body = with_body body (\<lambda>req. respond (CreateRule req) (\<lambda>r. writeJSON 201 (OneRule r)))"

definition listRules :: "'a world_scheme handler" where
  "listRules = respond ListRules (\<lambda>rules. writeJSON 200 (RuleList rules (int (length rules))))"

definition getRule :: "string \<Rightarrow> 'a world_scheme handler" where
  "getRule versionStr w = (case Atoi versionStr of
      None \<Rightarrow> (writeBadRequest ''invalid rule version'', w)
    | Some version \<Rightarrow> respond (GetRuleByVersion version) (\<lambda>r. writeJSON 200 (OneRule r)) w)"

definition batchImport :: "duration \<Rightarrow> string + BatchImportRequest \<Rightarrow> 'a world_scheme handler" where
  "batchImport deadline body = with_body body (\<lambda>req. respond (Import deadline req) (\<lambda>r. writeJSON 200 (Imported r)))"

definition batchExport :: "(string \<Rightarrow> string) \<Rightarrow> 'a world_scheme handler" where
  "batchExport query = respond (Export (query_time query ''from'') (query_time query ''to''))
     (\<lambda>(items, total). writeJSON 200 (ItemPage items total (int (length items)) 0))"

definition listBatches :: "(string \<Rightarrow> string) \<Rightarrow> 'a world_scheme handler" where
  "listBatches query =
     (let flt = \<lparr>bf_StoreID = query ''store_id'', bf_From = query_time query ''from'', bf_To = query_time query ''to'',
            bf_PageSize = parsePageSize query, bf_PageOffset = parsePageOffset query\<rparr> in
      respond (ListBatches flt) (\<lambda>(batches, total). writeJSON 200 (BatchPage batches total (bf_PageSize flt) (bf_PageOffset flt))))"

definition getBacklog :: "'a world_scheme handler" where
  "getBacklog = respond GetBacklog (\<lambda>stats. writeJSON 200 (Backlog stats))"

definition listAudit :: "(string \<Rightarrow> string) \<Rightarrow> 'a world_scheme handler" where
  "listAudit query =
     (let flt = \<lparr>af_EntityID = query ''entity_id'', af_EntityType = query ''entity_type'', af_Actor = query ''actor'',
            af_From = query_time query ''from'', af_To = query_time query ''to'',
            af_PageSize = parsePageSize query, af_PageOffset = parsePageOffset query\<rparr> in
      respond (ListAudit flt) (\<lambda>(entries, total). writeJSON 200 (AuditPage entries total (af_PageSize flt) (af_PageOffset flt))))"

definition listFailures :: "'a world_scheme handler" where
  "listFailures = respond ListFailures (\<lambda>failures. writeJSON 200 (FailureList failures (int (length failures))))"

definition retryFailure :: "string \<Rightarrow> (string \<Rightarrow> string) \<Rightarrow> 'a world_scheme handler" where
  "retryFailure failureID query w = (if failureID = '''' then (writeBadRequest ''failure id required'', w)
     else respond (RetryFailure failureID (or_else ''admin'' (query ''actor'')))
       (\<lambda>_. writeJSON 200 (Texts [(''status'', ''retried'')])) w)"

definition healthz :: response where
  "healthz = writeJSON 200 (Texts [(''status'', ''alive'')])"

definition readyz :: "bool \<Rightarrow> bool \<Rightarrow> 'a world_scheme handler" where
  \<comment> \<open>the arguments: whether the scheduler and the worker are there and started; the external calls
     are \<open>Ping\<close> and \<open>os.CreateTemp\<close>\<close>
  "readyz scheduler reeval w =
     (case external w of (store, w1) \<Rightarrow> case external w1 of (dir, w2) \<Rightarrow>
      let ok = (\<lambda>r. case r of Inl e \<Rightarrow> False | Inr u \<Rightarrow> True);
          checks = [(''store'', case store of Inl e \<Rightarrow> ''unavailable: '' @ errText e | Inr u \<Rightarrow> ''ok''),
            (''data_dir'', case dir of Inl e \<Rightarrow> ''not writable: '' @ errText e | Inr u \<Rightarrow> ''ok''),
            (''scheduler'', if scheduler then ''ok'' else ''not started''),
            (''reeval_worker'', if reeval then ''ok'' else ''not started'')];
          ready = (ok store \<and> ok dir \<and> scheduler \<and> reeval)
      in (writeJSON (if ready then 200 else 503) (Readiness ready checks), w2))"

section \<open>Signing in and out\<close>

record loginRequest =
  lr_Username :: string
  lr_Password :: string

definition login :: "bcrypt \<Rightarrow> duration \<Rightarrow> string + loginRequest \<Rightarrow> 'a auth_store_scheme handler" where
  "login bc ttl body = with_body body (\<lambda>req w.
     case bindM WallNow (\<lambda>now. Login bc (lr_Username req) (lr_Password req) ttl now) w of
       (Inl e, w') \<Rightarrow> (if errIs e ErrInvalidCredentials then writeError 401 ''INVALID_CREDENTIALS'' msg_bad_login
          else writeError 500 ''AUTH_STORE_ERROR'' (errText e), w')
     | (Inr (user, token, expires), w') \<Rightarrow> (writeJSON 200 (LoggedIn user token expires), w'))"

definition logout :: "string \<Rightarrow> 'a auth_store_scheme handler" where
  "logout header w =
     (let token = bearerToken header in
      if token = '''' then (writeError 401 ''UNAUTHORIZED'' msg_no_token, w)
      else case bindM WallNow (Logout token) w of
          (Inl e, w') \<Rightarrow> (writeError 401 ''INVALID_SESSION'' msg_invalid, w')
        | (Inr _, w') \<Rightarrow> (writeJSON 204 NoContent, w'))"

definition me :: "string \<Rightarrow> 'a auth_store_scheme handler" where
  "me header w =
     (let token = bearerToken header in
      if token = '''' then (writeError 401 ''UNAUTHORIZED'' msg_no_token, w)
      else case bindM WallNow (Resolve token) w of
          (Inl e, w') \<Rightarrow> (if errIs e ErrSessionExpired then writeError 401 ''SESSION_EXPIRED'' msg_expired
             else if errIs e ErrSessionRevoked then writeError 401 ''SESSION_REVOKED'' msg_revoked
             else writeError 401 ''INVALID_SESSION'' msg_invalid, w')
        | (Inr user, w') \<Rightarrow> (writeJSON 200 (Who user), w'))"

section \<open>Routes\<close>

datatype endpoint =
    RegisterItemR "string + RegisterItemRequest"
  | ListItemsR
  | GetItemDetailR string
  | ModifyItemR string "string + ModifyItemRequest"
  | StartR string
  | ReturnR string string string
  | ResubmitR string
  | CancelR string string string
  | CompleteR string
  | CreateRuleR "string + CreateRuleRequest"
  | ListRulesR
  | GetRuleR string
  | ImportR "string + BatchImportRequest"
  | ExportR
  | ListBatchesR
  | BacklogR
  | ListAuditR
  | ListFailuresR
  | RetryR string

record request =
  hr_Authorization :: string
  hr_Query :: "string \<Rightarrow> string"
  hr_Endpoint :: endpoint

fun handle :: "duration \<Rightarrow> endpoint \<Rightarrow> (string \<Rightarrow> string) \<Rightarrow> 'a world_scheme handler" where
  "handle deadline (RegisterItemR body) query = registerItem deadline body"
| "handle deadline ListItemsR query = listItems query"
| "handle deadline (GetItemDetailR itemID) query = getItemDetail itemID"
| "handle deadline (ModifyItemR itemID body) query = modifyItem itemID body"
| "handle deadline (StartR itemID) query = startProcessing itemID query"
| "handle deadline (ReturnR itemID reason actor) query = returnForCorrection itemID reason actor"
| "handle deadline (ResubmitR itemID) query = resubmitItem itemID query"
| "handle deadline (CancelR itemID reason actor) query = cancelItem itemID reason actor"
| "handle deadline (CompleteR itemID) query = completeItem itemID query"
| "handle deadline (CreateRuleR body) query = createRule body"
| "handle deadline ListRulesR query = listRules"
| "handle deadline (GetRuleR version) query = getRule version"
| "handle deadline (ImportR body) query = batchImport deadline body"
| "handle deadline ExportR query = batchExport query"
| "handle deadline ListBatchesR query = listBatches query"
| "handle deadline BacklogR query = getBacklog"
| "handle deadline ListAuditR query = listAudit query"
| "handle deadline ListFailuresR query = listFailures"
| "handle deadline (RetryR failureID) query = retryFailure failureID query"

fun roles_for :: "endpoint \<Rightarrow> Role list option" where
  \<comment> \<open>the routes with \<open>requireRoles\<close>\<close>
  "roles_for (CreateRuleR body) = Some [RoleAdmin, RoleQualityInspector]"
| "roles_for (ImportR body) = Some [RoleAdmin, RoleQualityInspector]"
| "roles_for (RetryR failureID) = Some [RoleAdmin]"
| "roles_for e = None"

definition requireRoles :: "User option \<Rightarrow> Role list option \<Rightarrow> response option" where
  \<comment> \<open>the answer when the handler is not to run; the user is the one in the context, if any\<close>
  "requireRoles context required = (case required of
      None \<Rightarrow> None
    | Some roles \<Rightarrow> (case context of
        None \<Rightarrow> Some (writeError 403 ''FORBIDDEN'' msg_forbidden)
      | Some user \<Rightarrow> if RequireRole user roles \<noteq> None then Some (writeError 403 ''FORBIDDEN'' msg_forbidden) else None))"

definition authenticate :: "string \<Rightarrow> 'a auth_store_scheme \<Rightarrow> (response + User) \<times> 'a auth_store_scheme" where
  \<comment> \<open>\<open>authenticationMiddleware\<close>: the refusal, or the user put into the context\<close>
  "authenticate header w =
     (let token = bearerToken header in
      if token = '''' then (Inl (writeError 401 ''UNAUTHORIZED'' msg_no_token), w)
      else case bindM WallNow (Resolve token) w of
          (Inl e, w') \<Rightarrow> (Inl (writeError 401
             (if errIs e ErrSessionRevoked then ''SESSION_REVOKED''
              else if errIs e ErrSessionExpired then ''SESSION_EXPIRED'' else ''INVALID_SESSION'') msg_invalid_or_expired), w')
        | (Inr user, w') \<Rightarrow> (Inr user, w'))"

definition serve :: "bool \<Rightarrow> duration \<Rightarrow> request \<Rightarrow> 'a auth_store_scheme \<times> 'b world_scheme
    \<Rightarrow> response \<times> 'a auth_store_scheme \<times> 'b world_scheme" where
  \<comment> \<open>a request below \<open>/api\<close>; the first argument is \<open>config.Auth.Required\<close>\<close>
  "serve required deadline r s = (case s of (a, w) \<Rightarrow>
     let run = (\<lambda>context a. case requireRoles context (roles_for (hr_Endpoint r)) of
           Some refusal \<Rightarrow> (refusal, a, w)
         | None \<Rightarrow> (case handle deadline (hr_Endpoint r) (hr_Query r) w of (resp, w') \<Rightarrow> (resp, a, w')))
     in if required then (case authenticate (hr_Authorization r) a of
           (Inl refusal, a') \<Rightarrow> (refusal, a', w)
         | (Inr user, a') \<Rightarrow> run (Some user) a')
       else run None a)"

end
