(* ===== verification/Process.thy ===== *)
theory Process
  imports Interleaving Http
begin

text \<open>
  The running program (cmd/wuxiangai, the constructor of the server, and the goroutines of the
  packages scheduler and worker): the configuration is turned into the services, three loops wait
  for their tickers, requests are served, and a signal starts the shutdown. A step is a request, a
  tick, or a move of one goroutine, in any order; when the channel of a ticker and the
  cancellation are both ready, either may be taken, as \<open>select\<close> does. A request, a round or a sweep
  can also be a job (\<open>Interleaving\<close>): then it reads in one step and goes on in later ones, with
  steps of others in between (who may send a request is decided before, by \<open>serve\<close>). Logging is left out. The
  path of the file of the users, and the address that is listened to, are not part of the state.
\<close>

section \<open>From the configuration to the services\<close>

definition services_of :: "Config \<Rightarrow> system_config" where
  "services_of cfg = \<lparr>sys_deadline = biz_DefaultDeadline (con_Business cfg),
     sys_escalation = \<lparr>es_deadlineExtension = biz_EscalationDeadlineExtension (con_Business cfg),
       es_maxLevel = biz_MaxEscalationLevel (con_Business cfg)\<rparr>,
     sys_scheduler = con_Scheduler cfg\<rparr>"

definition bootstrap_of :: "Config \<Rightarrow> BootstrapUser list" where
  "bootstrap_of cfg = map (\<lambda>u. \<lparr>boot_ID = abu_ID u, boot_Username = abu_Username u, boot_Password = abu_Password u,
     boot_Role = role_of (abu_Role u)\<rparr>) (ath_BootstrapUsers (con_Auth cfg))"

section \<open>State\<close>

datatype task = EscalationTask | ReconciliationTask | ReevalTask

datatype loop_phase = NotStarted | Waiting | Returned

datatype shutdown_phase = NoSignal | Draining | StoppingScheduler | StoppingWorker | ClosingStore | ShutDown

datatype main_phase = Running | Exited | Crashed

record process =
  pr_auth :: auth_store
  pr_world :: schedulers
  pr_jobs :: "job list"
  pr_loop :: "task \<Rightarrow> loop_phase"
  pr_cancelled :: "task \<Rightarrow> bool"
  pr_scheduler :: bool \<comment> \<open>\<open>started\<close> of the scheduler\<close>
  pr_reeval :: bool \<comment> \<open>\<open>started\<close> of the worker\<close>
  pr_shutdown :: shutdown_phase
  pr_store_open :: bool
  pr_main :: main_phase

definition NewServer :: "bcrypt \<Rightarrow> Config \<Rightarrow> auth_store \<Rightarrow> (err + unit) \<times> auth_store" where
  \<comment> \<open>an error of \<open>auth.Open\<close> becomes a panic\<close>
  "NewServer bc cfg a = mapErr (Wrap ''open auth store'') (Open bc (bootstrap_of cfg)) a"

definition startup :: "bcrypt \<Rightarrow> Config \<Rightarrow> auth_store \<Rightarrow> schedulers \<Rightarrow> process" where
  \<comment> \<open>the function \<open>main\<close> up to \<open>ListenAndServe\<close>, with an open store: both \<open>Start\<close> are done and
     the goroutines have not run yet\<close>
  "startup bc cfg a w = (case NewServer bc cfg a of (r, a') \<Rightarrow>
     \<lparr>pr_auth = a', pr_world = restarted w, pr_jobs = [], pr_loop = (\<lambda>t. NotStarted), pr_cancelled = (\<lambda>t. False),
      pr_scheduler = True, pr_reeval = True, pr_shutdown = NoSignal, pr_store_open = True,
      pr_main = (case r of Inl e \<Rightarrow> Crashed | Inr u \<Rightarrow> Running)\<rparr>)"

section \<open>The loops\<close>

fun interval :: "SchedulerConfig \<Rightarrow> task \<Rightarrow> duration" where
  "interval cfg EscalationTask = cfg_EscalationInterval cfg"
| "interval cfg ReconciliationTask = cfg_ReconciliationInterval cfg"
| "interval cfg ReevalTask = cfg_ReevalInterval cfg"

definition begin_loop :: "SchedulerConfig \<Rightarrow> task \<Rightarrow> process \<Rightarrow> process" where
  \<comment> \<open>the ticker panics for an interval that is not positive, and no one recovers\<close>
  "begin_loop cfg t p = (if interval cfg t \<le> 0 then p\<lparr>pr_main := Crashed\<rparr>
     else p\<lparr>pr_loop := (pr_loop p)(t := Waiting)\<rparr>)"

fun run_task :: "system_config \<Rightarrow> task \<Rightarrow> (err, schedulers, unit) op" where
  "run_task sc EscalationTask = run_with_timeout (sys_scheduler sc) ''escalation'' (runEscalationOnce (sys_escalation sc))"
| "run_task sc ReconciliationTask = run_with_timeout (sys_scheduler sc) ''reconciliation'' runReconciliationOnce"
| "run_task sc ReevalTask = worker_tick"

definition on_tick :: "Config \<Rightarrow> task \<Rightarrow> process \<Rightarrow> process" where
  "on_tick cfg t p = p\<lparr>pr_world := snd (run_task (services_of cfg) t (pr_world p))\<rparr>"

definition loop_returns :: "task \<Rightarrow> process \<Rightarrow> process" where
  "loop_returns t p = p\<lparr>pr_loop := (pr_loop p)(t := Returned)\<rparr>"

text \<open>A loop whose round or sweep is under way waits for nothing and cannot return.\<close>

fun works_for :: "task \<Rightarrow> job \<Rightarrow> bool" where
  "works_for EscalationTask (RoundJob now items) = True"
| "works_for EscalationTask (FailureJob now i e items) = True"
| "works_for ReevalTask (RulesJob v) = True"
| "works_for ReevalTask (CollectJob ss n stale rules v) = True"
| "works_for ReevalTask (SweepJob items rules v) = True"
| "works_for ReevalTask (RerouteJob fresh rules v items) = True"
| "works_for t j = False"

definition idle :: "task \<Rightarrow> process \<Rightarrow> bool" where
  "idle t p \<longleftrightarrow> pr_loop p t = Waiting \<and> \<not> list_ex (works_for t) (pr_jobs p)"

section \<open>Requests\<close>

definition answer :: "Config \<Rightarrow> request \<Rightarrow> process \<Rightarrow> response \<times> process" where
  "answer cfg r p =
     (case serve (ath_Required (con_Auth cfg)) (sys_deadline (services_of cfg)) r (pr_auth p, pr_world p) of
       (resp, a, w) \<Rightarrow> (resp, p\<lparr>pr_auth := a, pr_world := w\<rparr>))"

datatype session_request = LoginR "string + loginRequest" | LogoutR string | MeR string

fun session_handler :: "bcrypt \<Rightarrow> Config \<Rightarrow> session_request \<Rightarrow> auth_store handler" where
  "session_handler bc cfg (LoginR body) = login bc (ath_SessionTTL (con_Auth cfg)) body"
| "session_handler bc cfg (LogoutR header) = logout header"
| "session_handler bc cfg (MeR header) = me header"

definition answer_session :: "bcrypt \<Rightarrow> Config \<Rightarrow> session_request \<Rightarrow> process \<Rightarrow> response \<times> process" where
  "answer_session bc cfg r p = (case session_handler bc cfg r (pr_auth p) of (resp, a) \<Rightarrow> (resp, p\<lparr>pr_auth := a\<rparr>))"

definition answer_ready :: "process \<Rightarrow> response \<times> process" where
  "answer_ready p = (case readyz (pr_scheduler p) (pr_reeval p) (pr_world p) of (resp, w) \<Rightarrow> (resp, p\<lparr>pr_world := w\<rparr>))"

section \<open>The shutdown\<close>

definition cancel_scheduler :: "process \<Rightarrow> process" where
  "cancel_scheduler p = p\<lparr>pr_shutdown := StoppingScheduler,
     pr_cancelled := (pr_cancelled p)(EscalationTask := True, ReconciliationTask := True)\<rparr>"

definition scheduler_stopped :: "process \<Rightarrow> process" where
  \<comment> \<open>\<open>sched.Stop\<close> ends and \<open>reevalWorker.Stop\<close> begins\<close>
  "scheduler_stopped p = p\<lparr>pr_scheduler := False, pr_shutdown := StoppingWorker,
     pr_cancelled := (pr_cancelled p)(ReevalTask := True)\<rparr>"

definition worker_stopped :: "process \<Rightarrow> process" where
  "worker_stopped p = p\<lparr>pr_reeval := False, pr_shutdown := ClosingStore\<rparr>"

definition close_store :: "process \<Rightarrow> process" where
  "close_store p = p\<lparr>pr_store_open := False, pr_shutdown := ShutDown\<rparr>"

inductive process_step :: "bcrypt \<Rightarrow> Config \<Rightarrow> process \<Rightarrow> process \<Rightarrow> bool" for bc cfg where
  loop_begins: "pr_main p = Running \<Longrightarrow> pr_loop p t = NotStarted
    \<Longrightarrow> process_step bc cfg p (begin_loop (con_Scheduler cfg) t p)"
| tick: "pr_main p = Running \<Longrightarrow> idle t p \<Longrightarrow> process_step bc cfg p (on_tick cfg t p)"
| loop_ends: "pr_main p = Running \<Longrightarrow> idle t p \<Longrightarrow> pr_cancelled p t \<Longrightarrow> process_step bc cfg p (loop_returns t p)"
| round_begins: "pr_main p = Running \<Longrightarrow> idle EscalationTask p
    \<Longrightarrow> round_start (sys_escalation (services_of cfg)) (pr_world p) = (Inr (now, items), w')
    \<Longrightarrow> process_step bc cfg p (p\<lparr>pr_world := w', pr_jobs := RoundJob now items # pr_jobs p\<rparr>)"
| attempts_end: "pr_main p = Running \<Longrightarrow> idle EscalationTask p
    \<Longrightarrow> recordTaskFailure (con_Scheduler cfg) ''escalation'' e n (pr_world p) = (u, w')
    \<Longrightarrow> process_step bc cfg p (p\<lparr>pr_world := w'\<rparr>)"
| sweep_begins: "pr_main p = Running \<Longrightarrow> idle ReevalTask p \<Longrightarrow> \<not> wk_running (pr_world p)
    \<Longrightarrow> tick_version (pr_world p) = (Inr v, w') \<Longrightarrow> v \<noteq> 0
    \<Longrightarrow> process_step bc cfg p (p\<lparr>pr_world := w', pr_jobs := RulesJob v # pr_jobs p\<rparr>)"
| request_reads: "pr_main p = Running \<Longrightarrow> pr_store_open p \<Longrightarrow> request_begins (pr_world p) j w'
    \<Longrightarrow> process_step bc cfg p (p\<lparr>pr_world := w', pr_jobs := j # pr_jobs p\<rparr>)"
| job_goes_on: "pr_main p = Running \<Longrightarrow> pr_store_open p \<Longrightarrow> pr_jobs p = js @ j # js'
    \<Longrightarrow> resume (services_of cfg) j (pr_world p) = (ks, w')
    \<Longrightarrow> process_step bc cfg p (p\<lparr>pr_world := w', pr_jobs := js @ ks @ js'\<rparr>)"
| request: "pr_main p = Running \<Longrightarrow> pr_store_open p \<Longrightarrow> process_step bc cfg p (snd (answer cfg r p))"
| session: "pr_main p = Running \<Longrightarrow> process_step bc cfg p (snd (answer_session bc cfg sr p))"
| ready: "pr_main p = Running \<Longrightarrow> process_step bc cfg p (snd (answer_ready p))"
| signal: "pr_main p = Running \<Longrightarrow> pr_shutdown p = NoSignal \<Longrightarrow> process_step bc cfg p (p\<lparr>pr_shutdown := Draining\<rparr>)"
| drained: "pr_main p = Running \<Longrightarrow> pr_shutdown p = Draining \<Longrightarrow> process_step bc cfg p (cancel_scheduler p)"
| scheduler_waited: "pr_main p = Running \<Longrightarrow> pr_shutdown p = StoppingScheduler
    \<Longrightarrow> pr_loop p EscalationTask = Returned \<Longrightarrow> pr_loop p ReconciliationTask = Returned
    \<Longrightarrow> process_step bc cfg p (scheduler_stopped p)"
| worker_waited: "pr_main p = Running \<Longrightarrow> pr_shutdown p = StoppingWorker \<Longrightarrow> pr_loop p ReevalTask = Returned
    \<Longrightarrow> process_step bc cfg p (worker_stopped p)"
| closed: "pr_main p = Running \<Longrightarrow> pr_shutdown p = ClosingStore \<Longrightarrow> process_step bc cfg p (close_store p)"
| server_closed: "pr_main p = Running \<Longrightarrow> pr_shutdown p \<noteq> NoSignal \<Longrightarrow> process_step bc cfg p (p\<lparr>pr_main := Exited\<rparr>)"
| listen_fails: "pr_main p = Running \<Longrightarrow> process_step bc cfg p (p\<lparr>pr_main := Exited\<rparr>)"
| outside: "pr_main p = Running \<Longrightarrow> a' = (pr_auth p)\<lparr>rt_clock := c1, rt_wall := c2, rt_faults := fs1\<rparr>
    \<Longrightarrow> w' = (pr_world p)\<lparr>rt_clock := c3, rt_wall := c4, rt_uuid := uuid, rt_faults := fs2\<rparr>
    \<Longrightarrow> process_step bc cfg p (p\<lparr>pr_auth := a', pr_world := w'\<rparr>)"

inductive_cases process_stepE: "process_step bc cfg p p'"

text \<open>A run begins on the store that earlier runs have left, or on an empty one.\<close>

inductive process_run :: "bcrypt \<Rightarrow> Config \<Rightarrow> process \<Rightarrow> bool" for bc cfg where
  booted: "reachable_concurrently (services_of cfg) (w, js) \<Longrightarrow> process_run bc cfg (startup bc cfg a w)"
| stepped: "process_run bc cfg p \<Longrightarrow> process_step bc cfg p p' \<Longrightarrow> process_run bc cfg p'"

end
