(* ===== verification/Interleaving_Facts.thy ===== *)
theory Interleaving_Facts
  imports Interleaving
begin

text \<open>
  Jobs that run alone are the operations of the sequential machine; whatever jobs do to each other,
  no record is lost and no key is used twice; jobs that find their case as they have read it
  keep all that \<open>System\<close> promises; and two requests that both have read a case can bring a
  decided case back.
\<close>

section \<open>Jobs and operations\<close>

text \<open>The operations are their halves, one behind the other.\<close>

lemma register_tail:
  "bindM register_rules (\<lambda>(now, rules). register_write deadline req now rules)
    = bindM Now (\<lambda>now. bindM (mapErr (Wrap ''get active rules'') (GetActiveRules now)) (register_write deadline req now))"
  by (simp add: register_rules_def fun_eq_iff bindM_def retM_def split: prod.split sum.split)

lemma Register_halves:
  "Register deadline req = bindM (register_read req) (\<lambda>r. case r of
     Some existing \<Rightarrow> retM existing
   | None \<Rightarrow> bindM register_rules (\<lambda>(now, rules). register_write deadline req now rules))"
proof -
  have "Register deadline req =
     (if rq_ExternalRef req = '''' then failM (Wrap ''external_ref empty'' ErrValidation)
      else if rq_Title req = '''' then failM (Wrap ''title empty'' ErrValidation)
      else if rq_RegisteredBy req = '''' then failM (Wrap ''reported_by empty'' ErrValidation)
      else bindM (tryM (GetItemByExternalRef (rq_ExternalRef req))) (\<lambda>r. case r of
        Inr existing \<Rightarrow> retM existing
      | Inl e \<Rightarrow> if \<not> errIs e ErrNotFound then failM (Wrap ''check duplicate'' e)
          else bindM register_rules (\<lambda>(now, rules). register_write deadline req now rules)))"
    unfolding Register_def register_tail unfolding register_write_def [abs_def] by (rule refl)
  also have "\<dots> = bindM (register_read req) (\<lambda>r. case r of
     Some existing \<Rightarrow> retM existing
   | None \<Rightarrow> bindM register_rules (\<lambda>(now, rules). register_write deadline req now rules))"
    by (auto simp: register_read_def fun_eq_iff bindM_def tryM_def failM_def retM_def split: prod.split sum.split)
  finally show ?thesis .
qed

lemma import_row_halves:
  "import_rows deadline i (req # reqs) result =
     bindM (tryM (Register deadline req)) (\<lambda>r. import_rows deadline (i + 1) reqs (row_result i req r result))"
  by (simp add: row_result_def fun_eq_iff bindM_def tryM_def split: prod.split sum.split)

lemma Import_halves:
  "Import deadline req = bindM (import_start req) (\<lambda>(now, result).
     bindM (import_rows deadline 0 (bq_Items req) result) (import_end (bq_StoreID req) now))"
  by (simp add: Import_def import_start_def import_end_def [abs_def] fun_eq_iff bindM_def retM_def split: prod.split sum.split)

text \<open>What a sweep ends with, for the worker.\<close>

definition sweep_end :: "err + unit \<Rightarrow> schedulers \<Rightarrow> schedulers" where
  "sweep_end r w = (case r of Inl e \<Rightarrow> snd (add_failed (w\<lparr>wk_running := False\<rparr>)) | Inr u \<Rightarrow> w\<lparr>wk_running := False\<rparr>)"

lemma round_alone: "runs_alone cfg [RoundJob now items] w w' \<longleftrightarrow>
    w' = snd (escalate_all (sys_escalation cfg) now items done w)"
proof (induction items arbitrary: w "done")
  case (Cons i items)
  obtain x w1 where x: "escalateItem (sys_escalation cfg) i now w = (x, w1)"
    by (cases "escalateItem (sys_escalation cfg) i now w")
  show ?case
  proof (cases x)
    case (Inl e)
    obtain y w2 where y: "recordPermanentFailure (sys_escalation cfg) i now e w1 = (y, w2)"
      by (cases "recordPermanentFailure (sys_escalation cfg) i now e w1")
    show ?thesis using Cons.IH [of w2 "done"] x Inl y by (cases y) (simp_all add: bindM_def tryM_def retM_def)
  next
    case (Inr esc)
    then show ?thesis using Cons.IH [of w1 "done @ [esc]"] x by (simp add: bindM_def tryM_def)
  qed
qed (simp add: retM_def)

text \<open>The rows of an import, one job after the other.\<close>

lemma alone_step:
  "resume cfg p w = ([q], w1) \<Longrightarrow> runs_alone cfg [p] w w' \<longleftrightarrow> runs_alone cfg [q] w1 w'"
  "resume cfg p w = ([], w1) \<Longrightarrow> runs_alone cfg [p] w w' \<longleftrightarrow> w' = w1"
  by auto

lemma import_alone: "runs_alone cfg [ImportJob storeID now i reqs result] w w' \<longleftrightarrow>
    w' = snd (bindM (import_rows (sys_deadline cfg) i reqs result) (import_end storeID now) w)"
proof (induction reqs arbitrary: i result w)
  case Nil
  show ?case by (subst alone_step(2) [of _ _ _ "snd (import_end storeID now result w)"]) (simp_all add: bindM_def retM_def)
next
  case (Cons req reqs)
  let ?rest = "\<lambda>r. import_rows (sys_deadline cfg) (i + 1) reqs (row_result i req r result)"
  have goes_on: "snd (bindM (import_rows (sys_deadline cfg) i (req # reqs) result) (import_end storeID now) w)
      = snd (bindM (?rest r) (import_end storeID now) w1)" if "Register (sys_deadline cfg) req w = (r, w1)" for r w1
    unfolding import_row_halves using that by (simp add: bindM_def tryM_def)
  obtain x w1 where x: "register_read req w = (x, w1)" by (cases "register_read req w")
  consider (failed) e where "x = Inl e" | (there) it where "x = Inr (Some it)" | (fresh) "x = Inr None"
    by (metis option.exhaust sum.exhaust)
  then show ?case
  proof cases
    case failed
    then have "Register (sys_deadline cfg) req w = (Inl e, w1)" using x by (simp add: Register_halves bindM_def)
    then show ?thesis using x failed goes_on Cons.IH by (subst alone_step(1)) (simp, assumption?, simp)
  next
    case there
    then have "Register (sys_deadline cfg) req w = (Inr it, w1)" using x by (simp add: Register_halves bindM_def retM_def)
    then show ?thesis using x there goes_on Cons.IH by (subst alone_step(1)) (simp, assumption?, simp)
  next
    case fresh
    then have first: "runs_alone cfg [ImportJob storeID now i (req # reqs) result] w w'
        \<longleftrightarrow> runs_alone cfg [ImportRulesJob storeID now i req reqs result] w1 w'"
      using x by (intro alone_step) simp
    obtain y w2 where y: "register_rules w1 = (y, w2)" by (cases "register_rules w1")
    show ?thesis
    proof (cases y)
      case (Inl e)
      then have "Register (sys_deadline cfg) req w = (Inl e, w2)" using x y fresh by (simp add: Register_halves bindM_def)
      moreover have "runs_alone cfg [ImportRulesJob storeID now i req reqs result] w1 w'
          \<longleftrightarrow> runs_alone cfg [ImportJob storeID now (i + 1) reqs (row_result i req (Inl e) result)] w2 w'"
        using y Inl by (intro alone_step) simp
      ultimately show ?thesis using first goes_on Cons.IH by simp
    next
      case (Inr tr)
      obtain t rules where tr: "tr = (t, rules)" by (cases tr)
      obtain z w3 where z: "register_write (sys_deadline cfg) req t rules w2 = (z, w3)"
        by (cases "register_write (sys_deadline cfg) req t rules w2")
      then have "Register (sys_deadline cfg) req w = (z, w3)" using x y fresh Inr tr by (simp add: Register_halves bindM_def)
      moreover have "runs_alone cfg [ImportRulesJob storeID now i req reqs result] w1 w'
          \<longleftrightarrow> runs_alone cfg [ImportWriteJob storeID now i req t rules reqs result] w2 w'"
        using y Inr tr by (intro alone_step) simp
      moreover have "runs_alone cfg [ImportWriteJob storeID now i req t rules reqs result] w2 w'
          \<longleftrightarrow> runs_alone cfg [ImportJob storeID now (i + 1) reqs (row_result i req z result)] w3 w'"
        using z by (intro alone_step) simp
      ultimately show ?thesis using first goes_on Cons.IH by simp
    qed
  qed
qed

lemma sweep_alone: "runs_alone cfg [SweepJob items rules v] w w' \<longleftrightarrow>
    w' = (case sweep_items items rules v w of (r, w1) \<Rightarrow> sweep_end r w1)"
proof (induction items arbitrary: w)
  case (Cons i items)
  obtain x w1 where x: "external w = (x, w1)" by (cases "external w")
  show ?case
  proof (cases x)
    case (Inl e)
    with x show ?thesis by (simp add: bindM_def mapErr_def sweep_end_def sweep_fails_def)
  next
    case u: (Inr u)
    obtain y w2 where y: "GetItemByID (case_ID i) w1 = (y, w2)" by (cases "GetItemByID (case_ID i) w1")
    show ?thesis
    proof (cases y)
      case (Inl e)
      then show ?thesis using Cons.IH x u y
        by (simp add: bindM_def mapErr_def tryM_def reevaluateItem_def add_failed_def)
    next
      case (Inr fresh)
      obtain z w3 where z: "reeval_loaded fresh rules v w2 = (z, w3)" by (cases "reeval_loaded fresh rules v w2")
      show ?thesis using Cons.IH x u y Inr z
        by (cases z) (simp_all add: bindM_def mapErr_def tryM_def reevaluateItem_def add_failed_def)
    qed
  qed
qed (simp add: retM_def sweep_end_def)

lemma escalate_all_Inr: "\<exists>p. fst (escalate_all s now items done w) = Inr p"
  by (induction items arbitrary: w "done")
     (auto simp: bindM_def tryM_def retM_def split: prod.split sum.split)

lemma case_alone:
  "case GetItemByID itemID w of (Inl e, w1) \<Rightarrow> snd (case_operation a itemID w) = w1
     | (Inr i, w1) \<Rightarrow> runs_alone cfg [CaseJob a itemID i] w1 = (=) (snd (case_operation a itemID w))"
  by (auto simp: case_operation_halves bindM_def mapErr_def fun_eq_iff split: prod.split sum.split)

lemma round_starts:
  "case round_start (sys_escalation cfg) w of (Inl e, w1) \<Rightarrow> snd (runEscalationOnce (sys_escalation cfg) w) = w1
     | (Inr (now, items), w1) \<Rightarrow> runs_alone cfg [RoundJob now items] w1 = (=) (snd (runEscalationOnce (sys_escalation cfg) w))"
proof -
  obtain w0 where w0: "count_escalation_run w = (Inr (), w0)" by (simp add: count_escalation_run_def)
  let ?now = "rt_clock w0 (rt_ticks w0)"
  obtain x w1 where x: "FindOverdueItems ?now (es_maxLevel (sys_escalation cfg)) (w0\<lparr>rt_ticks := Suc (rt_ticks w0)\<rparr>) = (x, w1)"
    by (cases "FindOverdueItems ?now (es_maxLevel (sys_escalation cfg)) (w0\<lparr>rt_ticks := Suc (rt_ticks w0)\<rparr>)")
  show ?thesis
  proof (cases x)
    case (Inl e)
    with w0 x show ?thesis
      by (simp add: round_start_def runEscalationOnce_def CheckAndEscalate_def bindM_def tryM_def retM_def failM_def Now_def)
  next
    case (Inr items)
    obtain escs e w2 where "escalate_all (sys_escalation cfg) ?now items [] w1 = (Inr (escs, e), w2)"
      using escalate_all_Inr [of "sys_escalation cfg" ?now items "[]" w1]
      by (cases "escalate_all (sys_escalation cfg) ?now items [] w1") auto
    with w0 x Inr show ?thesis
      by (auto simp: round_start_def runEscalationOnce_def CheckAndEscalate_def bindM_def tryM_def retM_def failM_def Now_def
          round_alone [of cfg _ items w1 _ "[]"] fun_eq_iff simp del: runs_alone_simps split: option.split)
  qed
qed

lemma collect_page:
  "collect_pages (Suc fuel) s v offset stale = bindM (stale_page s offset) (\<lambda>(items, n).
     let stale = stale @ filter (\<lambda>it. case_RuleVersion it < v) items in
     if int (length items) < sweepPageSize then retM (Some stale) else collect_pages fuel s v (offset + sweepPageSize) stale)"
  by (simp add: stale_page_def status_filter_def)

text \<open>The pages of one status, and then of the others, up to the sweep of what they had.\<close>

lemma pages_alone:
  assumes "collect_pages fuel s v (sweepPageSize * int k) stale w = (r, w1)" and "r \<noteq> Inr None"
  shows "runs_alone cfg [CollectJob (s # ss) k stale rules v] w w' \<longleftrightarrow> (case r of
      Inl e \<Rightarrow> w' = sweep_fails w1
    | Inr out \<Rightarrow> runs_alone cfg [CollectJob ss 0 (the out) rules v] w1 w')"
  using assms
proof (induction fuel arbitrary: k stale w)
  case 0
  then show ?case by (simp add: retM_def)
next
  case (Suc fuel)
  obtain x w2 where x: "stale_page s (sweepPageSize * int k) w = (x, w2)" by (cases "stale_page s (sweepPageSize * int k) w")
  show ?case
  proof (cases x)
    case (Inl e)
    with Suc.prems(1) x have r: "r = Inl e" "w1 = w2" unfolding collect_page by (simp_all add: bindM_def)
    with x Inl show ?thesis by simp
  next
    case (Inr p)
    obtain items n where p: "p = (items, n)" by (cases p)
    let ?stale = "stale @ filter (\<lambda>it. case_RuleVersion it < v) items"
    show ?thesis
    proof (cases "int (length items) < sweepPageSize")
      case True
      with Suc.prems(1) x Inr p have "r = Inr (Some ?stale)" "w1 = w2"
        unfolding collect_page by (simp_all add: bindM_def retM_def)
      moreover have "runs_alone cfg [CollectJob (s # ss) k stale rules v] w w' \<longleftrightarrow> runs_alone cfg [CollectJob ss 0 ?stale rules v] w2 w'"
        using x Inr p True by (intro alone_step) (simp add: Let_def)
      ultimately show ?thesis by simp
    next
      case False
      have "collect_pages fuel s v (sweepPageSize * int (Suc k)) ?stale w2 = (r, w1)"
        using Suc.prems(1) x Inr p False unfolding collect_page by (simp add: bindM_def algebra_simps)
      moreover have "runs_alone cfg [CollectJob (s # ss) k stale rules v] w w' \<longleftrightarrow> runs_alone cfg [CollectJob (s # ss) (Suc k) ?stale rules v] w2 w'"
        using x Inr p False by (intro alone_step) (simp add: Let_def)
      ultimately show ?thesis using Suc.IH Suc.prems(2) by (simp del: runs_alone_simps)
    qed
  qed
qed

lemma collected_alone:
  assumes "collect_statuses (page_fuel w0) ss v stale w = (r, w1)" and "db_index w = db_index w0"
    and "\<forall>s \<in> set ss. status_name s \<noteq> ''''"
  shows "runs_alone cfg [CollectJob ss 0 stale rules v] w w' \<longleftrightarrow> (case r of
      Inl e \<Rightarrow> w' = sweep_fails w1
    | Inr out \<Rightarrow> runs_alone cfg [SweepJob (the out) rules v] w1 w')"
  using assms
proof (induction ss arbitrary: stale w)
  case Nil
  then show ?case by (auto simp: retM_def)
next
  case (Cons s ss)
  obtain x w2 where x: "collect_pages (page_fuel w0) s v 0 stale w = (x, w2)" by (cases "collect_pages (page_fuel w0) s v 0 stale w")
  have there: "\<exists>out. y = Some out \<and> db_index w2 = db_index w0" if "x = Inr y" for y
    using collect_pages_enough [of w0 s v stale w y w2] x that Cons.prems(2,3) by auto
  then have "x \<noteq> Inr None" by auto
  moreover from x have "collect_pages (page_fuel w0) s v (sweepPageSize * int 0) stale w = (x, w2)" by simp
  ultimately have step: "runs_alone cfg [CollectJob (s # ss) 0 stale rules v] w w' \<longleftrightarrow> (case x of
      Inl e \<Rightarrow> w' = sweep_fails w2 | Inr out \<Rightarrow> runs_alone cfg [CollectJob ss 0 (the out) rules v] w2 w')" by (intro pages_alone)
  show ?case
  proof (cases x)
    case (Inl e)
    with Cons.prems(1) x step show ?thesis by (auto simp: bindM_def)
  next
    case (Inr y)
    with there obtain out where out: "y = Some out" "db_index w2 = db_index w0" by blast
    with Cons.prems(1) x Inr have "collect_statuses (page_fuel w0) ss v out w2 = (r, w1)" by (simp add: bindM_def)
    from Cons.IH [OF this out(2)] Cons.prems(3) step Inr out(1) show ?thesis by simp
  qed
qed

lemma collect_there:
  fixes w :: "'a world_scheme"
  assumes "collectStaleItems v w = (Inr r, w1)"
  shows "\<exists>stale. r = Some stale"
proof -
  have "\<exists>stale. r = Some stale" if "collect_statuses (page_fuel w0) ss v stale w = (Inr r, w1)" "db_index w = db_index w0"
      "\<forall>s \<in> set ss. status_name s \<noteq> ''''" for ss stale and w w0 :: "'a world_scheme"
    using that
  proof (induction ss arbitrary: stale w)
    case (Cons s ss)
    then obtain y w2 where y: "collect_pages (page_fuel w0) s v 0 stale w = (Inr y, w2)"
      and rest: "(case y of None \<Rightarrow> retM None | Some stale' \<Rightarrow> collect_statuses (page_fuel w0) ss v stale') w2 = (Inr r, w1)"
      by (auto simp: bindM_Inr)
    with collect_pages_enough [OF y Cons.prems(2)] Cons.prems(3) obtain out where "y = Some out" "db_index w2 = db_index w0" by auto
    with rest Cons show ?case by auto
  qed (auto simp: retM_Inr)
  from this [of w reevaluableStatuses "[]" w] assms show ?thesis
    by (auto simp: collectStaleItems_def bindM_def getM_def reevaluableStatuses_def)
qed

lemma rules_alone:
  "runs_alone cfg [RulesJob v] w w' \<longleftrightarrow> w' = (case bindM sweep_rules (\<lambda>rules.
      bindM (mapErr (\<lambda>e. Wrap ''collect stale items'' (Join e ErrRuleReeval)) (collectStaleItems v)) (\<lambda>stale.
      case stale of None \<Rightarrow> retM () | Some stale \<Rightarrow> sweep_items stale rules v)) w of (r, w1) \<Rightarrow> sweep_end r w1)"
proof -
  obtain x w1 where x: "sweep_rules w = (x, w1)" by (cases "sweep_rules w")
  show ?thesis
  proof (cases x)
    case (Inl e)
    with x show ?thesis by (simp add: bindM_def sweep_end_def sweep_fails_def)
  next
    case (Inr rules)
    have first: "runs_alone cfg [RulesJob v] w w' \<longleftrightarrow> runs_alone cfg [CollectJob reevaluableStatuses 0 [] rules v] w1 w'"
      using x Inr by (intro alone_step) simp
    obtain y w2 where y: "collectStaleItems v w1 = (y, w2)" by (cases "collectStaleItems v w1")
    then have c: "collect_statuses (page_fuel w1) reevaluableStatuses v [] w1 = (y, w2)"
      by (simp add: collectStaleItems_def bindM_def getM_def)
    have "\<forall>s \<in> set reevaluableStatuses. status_name s \<noteq> ''''" by (simp add: reevaluableStatuses_def)
    note second = collected_alone [OF c refl this]
    show ?thesis
    proof (cases y)
      case (Inl e)
      with x Inr y first second show ?thesis by (simp add: bindM_def mapErr_def sweep_end_def sweep_fails_def)
    next
      case (Inr out)
      with y collect_there obtain stale where "out = Some stale" by blast
      with x \<open>x = Inr rules\<close> y Inr first second show ?thesis
        by (simp add: bindM_def mapErr_def sweep_alone del: runs_alone_simps)
    qed
  qed
qed

lemma tick_starts:
  assumes "\<not> wk_running w"
  shows "case tick_version w of (Inl e, w1) \<Rightarrow> snd (worker_tick w) = sweep_end (Inl e) w1
     | (Inr v, w1) \<Rightarrow> if v = 0 then snd (worker_tick w) = sweep_end (Inr ()) w1
         else runs_alone cfg [RulesJob v] w1 = (=) (snd (worker_tick w))"
proof -
  obtain w0 where w0: "count_cycle w = (Inr (), w0)" "\<not> wk_running w0" using assms by (simp add: count_cycle_def)
  obtain x w1 where x: "mapErr (\<lambda>e. Wrap ''get current rule version'' (Join e ErrRuleReeval)) GetCurrentRuleVersion (w0\<lparr>wk_running := True\<rparr>) = (x, w1)"
    by (cases "mapErr (\<lambda>e. Wrap ''get current rule version'' (Join e ErrRuleReeval)) GetCurrentRuleVersion (w0\<lparr>wk_running := True\<rparr>)")
  have start: "tick_version w = (x, w1)" using w0 x by (simp add: tick_version_def bindM_def modM_def)
  have whole: "snd (worker_tick w) = (case sweep (w0\<lparr>wk_running := True\<rparr>) of (r, w2) \<Rightarrow> sweep_end r w2)"
    using w0 by (simp add: worker_tick_def bindM_def tryM_def retM_def RunOnce_def sweep_end_def split: prod.split sum.split)
  have sweep: "sweep (w0\<lparr>wk_running := True\<rparr>) = (case x of Inl e \<Rightarrow> (Inl e, w1) | Inr v \<Rightarrow> if v = 0 then (Inr (), w1)
     else bindM sweep_rules (\<lambda>rules.
      bindM (mapErr (\<lambda>e. Wrap ''collect stale items'' (Join e ErrRuleReeval)) (collectStaleItems v)) (\<lambda>stale.
      case stale of None \<Rightarrow> retM () | Some stale \<Rightarrow> sweep_items stale rules v)) w1)"
    using x by (auto simp: sweep_def sweep_rules_def bindM_def retM_def split: sum.split prod.split)
  show ?thesis unfolding start whole sweep
    by (cases x) (auto simp: rules_alone fun_eq_iff simp del: runs_alone_simps)
qed

lemma import_starts:
  "case import_start breq w of (Inl e, w1) \<Rightarrow> snd (Import (sys_deadline cfg) breq w) = w1
     | (Inr (now, result), w1) \<Rightarrow>
         runs_alone cfg [ImportJob (bq_StoreID breq) now 0 (bq_Items breq) result] w1 = (=) (snd (Import (sys_deadline cfg) breq w))"
  by (auto simp: Import_halves import_alone fun_eq_iff bindM_def [of "import_start breq"] simp del: runs_alone_simps
      split: prod.split sum.split)

text \<open>
  C9: Operations are their jobs. A request on a case that reads the case, and then has its job
  resumed with nothing in between, ends in the state in which the whole operation ends; so
  does a round of escalations, an import with its rows, and a tick of the worker that finds no sweep
  running, with its pages and its cases, each with all
  the jobs that follow one another in it.
\<close>

theorem jobs_are_operations:
  "(case GetItemByID itemID w of (Inl e, w1) \<Rightarrow> snd (case_operation a itemID w) = w1
     | (Inr i, w1) \<Rightarrow> runs_alone cfg [CaseJob a itemID i] w1 = (=) (snd (case_operation a itemID w)))
   \<and> (case round_start (sys_escalation cfg) w of (Inl e, w1) \<Rightarrow> snd (runEscalationOnce (sys_escalation cfg) w) = w1
     | (Inr (now, items), w1) \<Rightarrow> runs_alone cfg [RoundJob now items] w1 = (=) (snd (runEscalationOnce (sys_escalation cfg) w)))
   \<and> (case tick_version (w\<lparr>wk_running := False\<rparr>) of (Inl e, w1) \<Rightarrow> snd (worker_tick (w\<lparr>wk_running := False\<rparr>)) = sweep_end (Inl e) w1
     | (Inr v, w1) \<Rightarrow> if v = 0 then snd (worker_tick (w\<lparr>wk_running := False\<rparr>)) = sweep_end (Inr ()) w1
         else runs_alone cfg [RulesJob v] w1 = (=) (snd (worker_tick (w\<lparr>wk_running := False\<rparr>))))
   \<and> (case import_start breq w of (Inl e, w1) \<Rightarrow> snd (Import (sys_deadline cfg) breq w) = w1
     | (Inr (now, result), w1) \<Rightarrow>
         runs_alone cfg [ImportJob (bq_StoreID breq) now 0 (bq_Items breq) result] w1 = (=) (snd (Import (sys_deadline cfg) breq w)))"
  using case_alone round_starts tick_starts [of "w\<lparr>wk_running := False\<rparr>"] import_starts by (intro conjI) simp_all

section \<open>Records\<close>

context tx_preorder begin

lemma kept_case_write: "keeps R (case_write a itemID i)"
  by (cases a) (auto simp: Let_def intro!: keeps_all kept_runtime kept_updateItemWithAudit)

lemma kept_parts:
  "keeps R register_rules" "keeps R (register_write deadline req now rules)" "keeps R (rule_write creq v)"
  "keeps R (retry_write failureID actor f)" "keeps R (round_start s)" "keeps R tick_version"
  "keeps R (register_read req)" "keeps R (import_start breq)" "keeps R (import_end storeID now result)"
  "keeps R sweep_rules" "keeps R (stale_page status offset)"
proof -
  have "keeps R (modM (\<lambda>w. w\<lparr>wk_running := True\<rparr>))" by (simp add: keeps_def modM_def unchanged)
  then show "keeps R tick_version" unfolding tick_version_def by (intro kept kept_counters)
  show "keeps R (register_write deadline req now rules)"
    unfolding register_write_def Let_def by (intro kept_adjudicated keeps_bind kept_runtime) simp
qed (unfold register_rules_def rule_write_def create_rule_tx_def retry_write_def retry_tx_def
    round_start_def register_read_def import_start_def import_end_def import_tx_def sweep_rules_def stale_page_def Let_def,
    (intro kept kept_counters)+)

lemma kept_failed: "R w w1 \<Longrightarrow> R w (snd (add_failed w1))" "R w w1 \<Longrightarrow> R w (w1\<lparr>wk_running := b\<rparr>)" "R w w1 \<Longrightarrow> R w (sweep_fails w1)"
  by (erule step_trans, simp add: unchanged add_failed_def sweep_fails_def)+

lemma kept_resume: "resume cfg p w = (qs, w') \<Longrightarrow> R w w'"
proof (induction cfg p w rule: resume.induct)
  case (1 cfg a itemID i w)
  then show ?case using kept_case_write by (auto simp: keeps_def)
next
  case (2 cfg req w)
  then show ?case using keepsD [OF kept_parts(1), of w] by (auto split: prod.splits sum.splits)
next
  case (3 cfg req now rules w)
  then show ?case using kept_parts(2) by (auto simp: keeps_def)
next
  case (4 cfg req v w)
  then show ?case using kept_parts(3) by (auto simp: keeps_def)
next
  case (5 cfg failureID actor f w)
  then show ?case using kept_parts(4) by (auto simp: keeps_def)
next
  case (7 cfg now i items w)
  then show ?case using keepsD [OF kept_escalateItem, of "sys_escalation cfg" i now w] by (auto split: prod.splits sum.splits)
next
  case (8 cfg now i e items w)
  then show ?case using keepsD [OF kept_recordPermanentFailure, of "sys_escalation cfg" i now e w]
    by (auto split: prod.splits sum.splits)
next
  case (9 cfg storeID now i result w)
  then show ?case using kept_parts(9) by (auto simp: keeps_def)
next
  case (10 cfg storeID now i req reqs result w)
  then show ?case using keepsD [OF kept_parts(7), of req w] by (auto split: prod.splits sum.splits option.splits)
next
  case (11 cfg storeID now i req reqs result w)
  then show ?case using keepsD [OF kept_parts(1), of w] by (auto split: prod.splits sum.splits)
next
  case (12 cfg storeID now i req t rules reqs result w)
  then show ?case using keepsD [OF kept_parts(2), of "sys_deadline cfg" req t rules w] by (auto split: prod.splits)
next
  case (13 cfg v w)
  then show ?case using keepsD [OF kept_parts(10), of w] by (auto split: prod.splits sum.splits intro: kept_failed)
next
  case (15 cfg s ss n stale rules v w)
  then show ?case using keepsD [OF kept_parts(11), of s "sweepPageSize * int n" w]
    by (auto simp: Let_def split: prod.splits sum.splits intro: kept_failed)
next
  case (17 cfg i items rules v w)
  then show ?case
    by (auto split: prod.splits sum.splits dest!: keepsD [OF kept_runtime(1)] keepsD [OF kept_queries(1)]
        intro: kept_failed step_trans kept_failed(1) [OF step_trans])
next
  case (18 cfg fresh rules v items w)
  then show ?case using keepsD [OF kept_reeval_loaded, of fresh rules v w]
    by (auto split: prod.splits sum.splits intro: kept_failed)
qed (auto simp: unchanged step_refl)

lemma kept_system:
  assumes "system_step cfg w w'"
  shows "R w w'"
  using assms
proof cases
  case restart
  then show ?thesis by (simp add: restarted_def unchanged)
qed (auto simp: unchanged dest: kept_operations [THEN keepsD])

lemma kept_concurrent: "concurrent_step cfg fit s s' \<Longrightarrow> R (fst s) (fst s')"
  by (erule concurrent_step.cases)
     (auto simp: restarted_def unchanged elim!: request_begins.cases dest: kept_system kept_resume kept_queries [THEN keepsD] kept_parts [THEN keepsD] kept_recordTaskFailure [THEN keepsD])

lemma kept_concurrent_run: "(concurrent_step cfg fit)\<^sup>*\<^sup>* s s' \<Longrightarrow> R (fst s) (fst s')"
  by (induction rule: rtranclp_induct) (auto intro: step_refl step_trans kept_concurrent)

end

text \<open>
  C6: No interleaving loses a record. From any state, whatever jobs are under way, are begun and go
  on in whatever order: no line of a shard is lost or changed; no row of a table disappears; a case
  keeps its identity, its reference and its registration; a referral only stops being current and
  a rule is only superseded; escalations, audit entries and batches stay as they are; and if the
  keys of every table are unique, they stay so.
\<close>

theorem interleaved_records:
  assumes "(concurrent_step cfg fit)\<^sup>*\<^sup>* (w, ps) (w', ps')"
  shows "durable w w' \<and> append_only w w' \<and> (wf_index (db_index w) \<longrightarrow> wf_index (db_index w'))"
  using tables.kept_concurrent_run [OF assms] files.kept_concurrent_run [OF assms]
  by (simp add: durable_def durable_index_def)

section \<open>Jobs that are not disturbed\<close>

fun undisturbed :: "system_config \<Rightarrow> index \<Rightarrow> job \<Rightarrow> bool" where
  \<comment> \<open>the case that the job writes is still what it has read\<close>
  "undisturbed cfg ix (CaseJob a itemID i) = read_from ix i"
| "undisturbed cfg ix (RoundJob now (i # items)) =
     (read_from ix i \<and> case_EscalationLevel i < es_maxLevel (sys_escalation cfg))"
| "undisturbed cfg ix (RerouteJob fresh rules v items) = read_from ix fresh"
| "undisturbed cfg ix p = True"

text \<open>A case that is what the index holds can have been read just now.\<close>

lemma read_just_now:
  assumes "read_from (db_index w) i"
  shows "\<exists>w0. GetItemByID (case_ID i) w0 = (Inr i, w) \<and> db_index w0 = db_index w"
  using assms
  by (intro exI [of _ "w\<lparr>rt_faults := None # rt_faults w\<rparr>"])
     (auto simp: read_from_def GetItemByID_def query_row_def find_row_def mapErr_def bindM_def external_def getM_def liftE_def)

lemma later_half_safe:
  assumes "keeps safe (bindM (mapErr f (GetItemByID (case_ID i))) k)" and "read_from (db_index w) i" and "k i w = (r, w')"
  shows "safe w w'"
proof -
  obtain w0 where w0: "GetItemByID (case_ID i) w0 = (Inr i, w)" "db_index w0 = db_index w"
    using read_just_now [OF assms(2)] by blast
  then have "bindM (mapErr f (GetItemByID (case_ID i))) k w0 = (r, w')" using assms(3) by (simp add: bindM_def mapErr_def)
  from keepsD [OF assms(1) this] w0(2) show ?thesis by (simp add: safe_def)
qed

lemma case_operation_safe: "keeps safe (case_operation a itemID)"
  by (cases a) (simp_all add: StartProcessing_safe Modify_safe ReturnForCorrection_safe Resubmit_safe Cancel_safe Complete_safe)

lemma case_write_safe:
  assumes "read_from (db_index w) i" and "case_write a itemID i w = (r, w')"
  shows "safe w w'"
proof -
  obtain r' where "case_write a (case_ID i) i w = (r', w')" using assms(2) by (cases a) (auto simp: failM_def split: if_splits)
  with assms(1) show ?thesis
    by (intro later_half_safe [OF case_operation_safe [of a "case_ID i", unfolded case_operation_halves]])
qed

lemma parts_safe:
  "keeps safe register_rules" "keeps safe (register_write deadline req now rules)" "keeps safe (rule_write creq v)"
  "keeps safe (retry_write failureID actor f)" "keeps safe (round_start s)" "keeps safe (tick_version :: (err, schedulers, _) op)"
  "keeps safe (register_read req)" "keeps safe (import_start breq)" "keeps safe (import_end storeID now result)"
  "keeps safe (sweep_rules :: (err, schedulers, _) op)" "keeps safe (stale_page status offset)"
proof -
  have "keeps safe (modM (\<lambda>w. w\<lparr>wk_running := True\<rparr>) :: (err, schedulers, unit) op)"
    by (simp add: keeps_def modM_def safe_def)
  moreover have "keeps safe (count_cycle :: (err, schedulers, unit) op)"
    by (auto simp: keeps_def count_cycle_def safe_def)
  ultimately show "keeps safe (tick_version :: (err, schedulers, _) op)"
    unfolding tick_version_def by (intro safe_rules)
  show "keeps safe (register_write deadline req now rules)"
    unfolding register_write_def Let_def by (intro safe_rules adjudicate_and_save_safe) (simp add: new_case_def)
qed (unfold register_rules_def rule_write_def create_rule_tx_def retry_write_def retry_tx_def round_start_def register_read_def
    import_start_def import_end_def import_tx_def sweep_rules_def stale_page_def Let_def,
    (intro safe_rules NewEntry_safe count_escalation_run_safe)+)

lemma safe_failed [simp]: "safe w (snd (add_failed w1)) = safe w w1" "safe w (w1\<lparr>wk_running := b\<rparr>) = safe w w1"
  "safe w (sweep_fails w1) = safe w w1"
  by (simp_all add: safe_def add_failed_def sweep_fails_def)

lemma resume_safe:
  "resume cfg p w = (qs, w') \<Longrightarrow> undisturbed cfg (db_index w) p \<Longrightarrow> int64 (es_maxLevel (sys_escalation cfg)) \<Longrightarrow> safe w w'"
proof (induction cfg p w rule: resume.induct)
  case (1 cfg a itemID i w)
  then show ?case using case_write_safe [OF _ prod.collapse [symmetric]] by auto
next
  case (2 cfg req w)
  then show ?case by (auto split: prod.splits sum.splits dest: keepsD [OF parts_safe(1)])
next
  case (3 cfg req now rules w)
  then show ?case using keepsD [OF parts_safe(2) prod.collapse [symmetric]] by auto
next
  case (4 cfg req v w)
  then show ?case using parts_safe(3) by (auto simp: keeps_def)
next
  case (5 cfg failureID actor f w)
  then show ?case using parts_safe(4) by (auto simp: keeps_def)
next
  case (7 cfg now i items w)
  obtain x w1 where x: "escalateItem (sys_escalation cfg) i now w = (x, w1)"
    by (cases "escalateItem (sys_escalation cfg) i now w")
  from escalateItem_good [OF x] 7 have "safe w w1" by (auto simp: safe_def good_step_def)
  with 7 x show ?case by (auto split: sum.splits)
next
  case (8 cfg now i e items w)
  then show ?case using keepsD [OF recordPermanentFailure_safe, of "sys_escalation cfg" i now e w]
    by (auto split: prod.splits sum.splits)
next
  case (9 cfg storeID now i result w)
  then show ?case using parts_safe(9) by (auto simp: keeps_def)
next
  case (10 cfg storeID now i req reqs result w)
  then show ?case using keepsD [OF parts_safe(7), of req w] by (auto split: prod.splits sum.splits option.splits)
next
  case (11 cfg storeID now i req reqs result w)
  then show ?case using keepsD [OF parts_safe(1), of w] by (auto split: prod.splits sum.splits)
next
  case (12 cfg storeID now i req t rules reqs result w)
  then show ?case using keepsD [OF parts_safe(2), of "sys_deadline cfg" req t rules w] by (auto split: prod.splits)
next
  case (13 cfg v w)
  then show ?case using keepsD [OF parts_safe(10), of w] by (auto split: prod.splits sum.splits)
next
  case (15 cfg s ss n stale rules v w)
  then show ?case using keepsD [OF parts_safe(11), of s "sweepPageSize * int n" w]
    by (auto simp: Let_def split: prod.splits sum.splits)
next
  case (17 cfg i items rules v w)
  then show ?case
    by (auto split: prod.splits sum.splits dest!: keepsD [OF basic_safe(1)]
        keepsD [OF queries_read_only(1) [THEN same_index_safe]] intro: safe.step_trans)
next
  case (18 cfg fresh rules v items w)
  then show ?case
    using later_half_safe [OF reevaluateItem_safe [of fresh rules v, unfolded reevaluateItem_def]]
    by (auto split: prod.splits sum.splits)
qed (auto simp: safe.step_refl)

lemma undisturbed_safe:
  assumes "concurrent_step cfg (undisturbed cfg) s s'" and "int64 (es_maxLevel (sys_escalation cfg))"
  shows "safe (fst s) (fst s')"
  using assms(1)
proof cases
  case (whole w w' ps)
  then show ?thesis using step_keeps_promises [OF assms(2)] by (simp add: keeps_promises_def)
next
  case (goes_on w p qs w' ps ps')
  then show ?thesis using resume_safe assms(2) by simp
qed (auto simp: restarted_def safe_def elim!: request_begins.cases
    dest: queries_read_only [THEN same_index_safe, THEN keepsD] parts_safe [THEN keepsD] recordTaskFailure_safe [THEN keepsD])

lemma undisturbed_run:
  assumes "int64 (es_maxLevel (sys_escalation cfg))" and "reachable cfg w"
    and "(concurrent_step cfg (undisturbed cfg))\<^sup>*\<^sup>* (w, ps) (w', ps')"
  shows "sound_index (db_index w')" and "evolves (db_index w) (db_index w')"
proof -
  have "safe w (fst s)" if "(concurrent_step cfg (undisturbed cfg))\<^sup>*\<^sup>* (w, ps) s" for s
    using that
  proof induction
    case (step s s')
    then show ?case using undisturbed_safe [OF step.hyps(2) assms(1)] by (auto intro: safe.step_trans)
  qed (simp add: safe.step_refl)
  from this [OF assms(3)] reachable_sound [OF assms(1,2)]
  show "sound_index (db_index w')" "evolves (db_index w) (db_index w')" by (simp_all add: safe_def good_step_def)
qed

text \<open>
  C7: Jobs that are not disturbed keep every promise. From a reachable state, as long as each job that
  writes a case finds the case as it has read it (and a round only escalates below the highest
  level, as it has selected), whatever else happens in between: every case has one current referral
  that agrees with it, the levels count the escalations, statuses move along the machine only,
  and decided cases stay decided.
\<close>

theorem undisturbed_jobs:
  assumes "int64 (es_maxLevel (sys_escalation cfg))" and "reachable cfg w"
    and "(concurrent_step cfg (undisturbed cfg))\<^sup>*\<^sup>* (w, ps) (w', ps')"
  shows "routed (db_index w') \<and> levelled (db_index w') \<and> evolves (db_index w) (db_index w')"
  using undisturbed_run [OF assms] by (simp add: sound_index_def)

section \<open>What holds of every case\<close>

lemma whole_steps: "(system_step cfg)\<^sup>*\<^sup>* w w' \<Longrightarrow> (concurrent_step cfg fit)\<^sup>*\<^sup>* (w, ps) (w', ps)"
  by (induction rule: rtranclp_induct) (auto intro: rtranclp.rtrancl_into_rtrancl concurrent_step.whole)

lemma sound_owned: "sound_index ix \<Longrightarrow> owned ix"
  by (fastforce simp: sound_index_def routed_def levelled_def owned_def)

text \<open>
  C1: Every case is routed. From a state that whole operations can reach, whatever jobs are then
  under way, are begun and go on in whatever order: a case has exactly one current referral, and
  every referral and every escalation belongs to a case. If in addition each job that writes a case
  finds the case as it has read it (\<open>undisturbed\<close>), the current referral names the lead department, the
  other departments and the rule version that the case itself carries; a write that is based on
  an older reading can break this agreement.
\<close>

theorem every_case_is_routed:
  assumes "int64 (es_maxLevel (sys_escalation cfg))" and "reachable cfg w"
    and "(concurrent_step cfg fit)\<^sup>*\<^sup>* (w, ps) (w', ps')" and "row \<in> set (tab_items (db_index w'))"
  shows "\<exists>a. filter (\<lambda>b. ref_ItemID b = case_ID row \<and> ref_IsCurrent b) (tab_assignments (db_index w')) = [a]
     \<and> ref_ItemID ` set (tab_assignments (db_index w')) \<subseteq> case_ID ` set (tab_items (db_index w'))
     \<and> esc_ItemID ` set (tab_escalations (db_index w')) \<subseteq> case_ID ` set (tab_items (db_index w'))
     \<and> (fit = undisturbed cfg \<longrightarrow> ref_LeadDepartment a = case_LeadDepartment row
          \<and> ref_CoDepartments a = case_CoDepartments row \<and> ref_RuleVersion a = case_RuleVersion row)"
proof -
  have owned: "owned (db_index w')"
    using referrals.kept_concurrent_run [OF assms(3)] sound_owned [OF reachable_sound [OF assms(1,2)]]
    by (simp add: keeps_owned_def)
  then have "length (current_of (case_ID row) (tab_assignments (db_index w'))) = 1"
    using assms(4) by (simp add: owned_def)
  then obtain a where a: "current_of (case_ID row) (tab_assignments (db_index w')) = [a]"
    by (cases "current_of (case_ID row) (tab_assignments (db_index w'))") auto
  moreover have "agrees row a" if "fit = undisturbed cfg"
    using undisturbed_run(1) [OF assms(1,2) assms(3) [unfolded that]] assms(4) a
    by (auto simp: sound_index_def routed_def)
  ultimately show ?thesis using owned
    by (intro exI [of _ a]) (auto simp: current_of_def owned_def agrees_def)
qed

theorem every_case_is_routed_witness:
  "\<exists>(w :: schedulers) a. filter ref_IsCurrent (tab_assignments (db_index w)) = [a] \<and> ref_LeadDepartment a = ''market''"
proof -
  obtain w i where w: "(system_step sample_config)\<^sup>*\<^sup>* sample_start w" "tab_items (db_index w) = [row_of_item i]"
    and i: "case_LeadDepartment i = ''market''" using sample_case_steps by blast
  from every_case_is_routed [OF sample_config_level sample_start_reachable whole_steps [OF w(1)], of "row_of_item i" "undisturbed sample_config"]
    w(2) obtain a where
    a: "filter (\<lambda>b. ref_ItemID b = case_ID i \<and> ref_IsCurrent b) (tab_assignments (db_index w)) = [a]"
    "ref_LeadDepartment a = ''market''" "ref_ItemID ` set (tab_assignments (db_index w)) \<subseteq> {case_ID i}"
    using i by auto
  have "filter ref_IsCurrent (tab_assignments (db_index w))
      = filter (\<lambda>b. ref_ItemID b = case_ID i \<and> ref_IsCurrent b) (tab_assignments (db_index w))"
    using a(3) by (intro filter_cong) auto
  with a(1,2) show ?thesis by auto
qed

text \<open>
  C4: The escalation level counts. From a state that whole operations can reach, as long as each job
  that writes a case finds the case as it has read it (and a round only escalates below the highest
  level, as it has selected), the level stored with a case is the number of escalations recorded for
  it, so it is never negative. A request that has read the case before an escalation and writes it
  afterwards is what this excludes: it would write the older level back.
\<close>

theorem level_counts_escalations:
  assumes "int64 (es_maxLevel (sys_escalation cfg))" and "reachable cfg w"
    and "(concurrent_step cfg (undisturbed cfg))\<^sup>*\<^sup>* (w, ps) (w', ps')" and "row \<in> set (tab_items (db_index w'))"
  shows "case_EscalationLevel row
       = int (length (filter (\<lambda>e. esc_ItemID e = case_ID row) (tab_escalations (db_index w'))))"
  using undisturbed_run(1) [OF assms(1-3)] assms(4)
  by (simp add: sound_index_def levelled_def escalations_of_def)

theorem level_counts_escalations_witness:
  "\<exists>w i. (system_step sample_config)\<^sup>*\<^sup>* sample_start w \<and> tab_items (db_index w) = [row_of_item i]
     \<and> case_EscalationLevel i = int (length (filter (\<lambda>e. esc_ItemID e = case_ID i) (tab_escalations (db_index w))))"
proof -
  obtain w i where w: "(system_step sample_config)\<^sup>*\<^sup>* sample_start w" "tab_items (db_index w) = [row_of_item i]"
    using sample_case_steps by blast
  from level_counts_escalations [OF sample_config_level sample_start_reachable whole_steps [OF w(1)], of "row_of_item i"] w
  show ?thesis by auto
qed

text \<open>
  C3: Nothing that was recorded is lost or rewritten. From a state that whole operations can reach,
  whatever jobs are under way and in whatever order they go on: every audit entry, escalation and
  import batch stays as it is, in its place, with new ones behind it; a referral only stops being
  current; a rule is only superseded; and every line of every shard file stays where it is. If in
  addition each job that writes a case finds the case as it has read it, every case keeps its
  identity, registration and creation, its level never falls, and its status only moves along the
  machine.
\<close>

theorem records_are_permanent:
  assumes "int64 (es_maxLevel (sys_escalation cfg))" and "reachable cfg w"
    and "(concurrent_step cfg fit)\<^sup>*\<^sup>* (w, ps) (w', ps')"
  shows "(\<exists>new. tab_audit_entries (db_index w') = tab_audit_entries (db_index w) @ new)
     \<and> (\<exists>new. tab_escalations (db_index w') = tab_escalations (db_index w) @ new)
     \<and> (\<exists>new. tab_import_batches (db_index w') = tab_import_batches (db_index w) @ new)
     \<and> extends referral_evolves (tab_assignments (db_index w)) (tab_assignments (db_index w'))
     \<and> extends rule_evolves (tab_rules (db_index w)) (tab_rules (db_index w'))
     \<and> append_only w w'
     \<and> (fit = undisturbed cfg \<longrightarrow> extends row_evolves (tab_items (db_index w)) (tab_items (db_index w')))"
  using tables.kept_concurrent_run [OF assms(3)] files.kept_concurrent_run [OF assms(3)]
    undisturbed_run(2) [OF assms(1,2)] assms(3)
  by (auto simp: durable_def durable_index_def evolves_def extends_eq_iff)

theorem records_are_permanent_witness:
  "\<exists>w. (system_step sample_config)\<^sup>*\<^sup>* sample_start w \<and> append_only sample_start w \<and> tab_items (db_index w) \<noteq> []
     \<and> extends row_evolves (tab_items (db_index sample_start)) (tab_items (db_index w))"
proof -
  obtain w i where w: "(system_step sample_config)\<^sup>*\<^sup>* sample_start w" "tab_items (db_index w) = [row_of_item i]"
    using sample_case_steps by blast
  from records_are_permanent [OF sample_config_level sample_start_reachable whole_steps [OF w(1)], of "undisturbed sample_config"] w
  show ?thesis by auto
qed

text \<open>
  C2: A decision stands against everything but a stale write. A case that is completed or cancelled in
  a state that whole operations can reach is still there, with the same status, in every later state,
  whatever the requests, the scheduler and the worker do, as long as each job that writes a case
  finds the case as it has read it. Without this condition a decided case can come back.
\<close>

theorem terminal_cases_stay:
  assumes "int64 (es_maxLevel (sys_escalation cfg))" and "reachable cfg w"
    and "(concurrent_step cfg (undisturbed cfg))\<^sup>*\<^sup>* (w, ps) (w', ps')"
    and "row \<in> set (tab_items (db_index w))" and "IsTerminal (case_Status row)"
  shows "\<exists>row' \<in> set (tab_items (db_index w')). case_ID row' = case_ID row
     \<and> case_ExternalRef row' = case_ExternalRef row \<and> case_Status row' = case_Status row"
proof -
  have "extends row_evolves (tab_items (db_index w)) (tab_items (db_index w'))"
    using undisturbed_run(2) [OF assms(1-3)] by (simp add: evolves_def)
  from extends_member [OF this assms(4)] obtain row' where row': "row' \<in> set (tab_items (db_index w'))" "row_evolves row row'"
    by blast
  then have "case_Status row' = case_Status row"
    using assms(5) case_machine.path_from_terminal by (simp add: row_evolves_def)
  with row' show ?thesis by (auto simp: row_evolves_def)
qed

theorem terminal_cases_stay_witness:
  "\<exists>w row. reachable sample_config w \<and> row \<in> set (tab_items (db_index w)) \<and> case_Status row = StatusCancelled
     \<and> (\<exists>row' \<in> set (tab_items (db_index w)). case_ExternalRef row' = ''R9'' \<and> case_Status row' = StatusCancelled)"
proof -
  obtain w row where w: "reachable sample_config w" "row \<in> set (tab_items (db_index w))"
    and row: "case_ExternalRef row = ''R9''" "case_Status row = StatusCancelled"
    using sample_cancelled_reachable by blast
  from terminal_cases_stay [OF sample_config_level w(1) rtranclp.rtrancl_refl w(2)] row w show ?thesis
    by (auto simp: IsTerminal_def)
qed

section \<open>Two requests on one case\<close>

text \<open>The write of a request depends on the case that it has read, not on the row that it finds.\<close>

lemma moved_write:
  assumes "may_move to i" and "rt_faults w = []" and "\<exists>row \<in> set (tab_items (db_index w)). case_ID row = case_ID i"
    and "time_ok (rt_clock w (rt_ticks w))" "time_ok (rt_clock w (Suc (rt_ticks w)))" and "fresh_ids w 1"
    and g: "\<And>t. case_ID (g t (i\<lparr>case_Status := to\<rparr>)) = case_ID i"
      "\<And>t. time_ok t \<Longrightarrow> writable (ItemEntry (g t (i\<lparr>case_Status := to\<rparr>)))"
  shows "\<exists>j t w'. bindM Now (\<lambda>now. bindM (liftE (TransitionTo i to)) (\<lambda>i. updateItemWithAudit (g now i) actor action details)) w
       = (Inr j, w')
     \<and> tab_items (db_index w') = update_where (\<lambda>r. case_ID r = case_ID i) (set_item (g t (i\<lparr>case_Status := to\<rparr>))) (tab_items (db_index w))"
proof -
  let ?t = "rt_clock w (rt_ticks w)" and ?w = "w\<lparr>rt_ticks := Suc (rt_ticks w)\<rparr>"
  have "TransitionTo i to = Inr (i\<lparr>case_Status := to\<rparr>)" using assms(1) by (simp add: TransitionTo_Inr_iff may_move_def)
  moreover have "\<exists>j w'. updateItemWithAudit (g ?t (i\<lparr>case_Status := to\<rparr>)) actor action details ?w = (Inr j, w')"
    using assms(2-6) g by (intro stored_write) (auto simp: fresh_ids_def intro: rev_image_eqI)
  then obtain j w' where j: "updateItemWithAudit (g ?t (i\<lparr>case_Status := to\<rparr>)) actor action details ?w = (Inr j, w')" by blast
  moreover have "tab_items (db_index w') = update_where (\<lambda>r. case_ID r = case_ID i) (set_item (g ?t (i\<lparr>case_Status := to\<rparr>)))
      (tab_items (db_index w))"
    using updateItemWithAudit_Inr [OF j] g(1) by (auto simp: put_Inr update_item_def)
  ultimately show ?thesis by (auto simp: bindM_liftE)
qed

lemma sample_race:
  "\<exists>w ps w' ps' row row'. (concurrent_step sample_config any_job)\<^sup>*\<^sup>* (sample_start, []) (w, ps)
     \<and> concurrent_step sample_config any_job (w, ps) (w', ps')
     \<and> row \<in> set (tab_items (db_index w)) \<and> row' \<in> set (tab_items (db_index w')) \<and> case_ID row' = case_ID row
     \<and> case_Status row = StatusCancelled \<and> case_Status row' = StatusInProgress"
proof -
  obtain w i where w: "(system_step sample_config)\<^sup>*\<^sup>* sample_start w" "ready (case_ID i) i w"
    "tab_items (db_index w) = [row_of_item i]" and i: "case_Status i = StatusAdjudicated"
    using sample_case_ready by blast
  let ?c = "CaseJob (CancelA ''r'' ''b'') (case_ID i) i" and ?s = "CaseJob (StartA ''a'') (case_ID i) i"
  note read = conjunct1 [OF ready_get [OF w(2)]]
  have begun: "(concurrent_step sample_config any_job)\<^sup>*\<^sup>* (sample_start, []) (w, [?c, ?s])"
    using whole_steps [OF w(1)] concurrent_step.request_begins [OF request_begins.case_read [OF read]] by (blast intro: rtranclp.rtrancl_into_rtrancl)
  have ok: "writable (ItemEntry i)" using w(2) by (simp add: ready_def)
  obtain j t w1 where cancel: "case_write (CancelA ''r'' ''b'') (case_ID i) i w = (Inr j, w1)"
    "tab_items (db_index w1) = update_where (\<lambda>r. case_ID r = case_ID i) (set_item (i\<lparr>case_Status := StatusCancelled,
        case_CancelledAt := Some t, case_CancelReason := ''r'', case_UpdatedAt := t\<rparr>)) (tab_items (db_index w))"
    using moved_write [of StatusCancelled i w "\<lambda>t i. i\<lparr>case_CancelledAt := Some t, case_CancelReason := ''r'', case_UpdatedAt := t\<rparr>"
        "''b''" ActionCancel "''r''"] w(2,3) ok i
    by (auto simp: ready_def may_move_def CanTransition_def writable_def)
  obtain u where u: "fresh_ids (refreshed u w1) 1" using refreshed_ids by blast
  let ?w = "refreshed u w1"
  have items: "tab_items (db_index ?w) = [set_item (i\<lparr>case_Status := StatusCancelled, case_CancelledAt := Some t,
      case_CancelReason := ''r'', case_UpdatedAt := t\<rparr>) (row_of_item i)]"
    using cancel(2) w(3) by (simp add: refreshed_def update_where_def)
  obtain k t' w2 where start: "case_write (StartA ''a'') (case_ID i) i ?w = (Inr k, w2)"
    "tab_items (db_index w2) = update_where (\<lambda>r. case_ID r = case_ID i) (set_item (i\<lparr>case_Status := StatusInProgress,
        case_UpdatedAt := t'\<rparr>)) (tab_items (db_index ?w))"
    using moved_write [of StatusInProgress i ?w "\<lambda>t i. i\<lparr>case_UpdatedAt := t\<rparr>" "''a''" ActionStartProcessing "''''"] u items ok i
    by (auto simp: refreshed_def may_move_def CanTransition_def writable_def time_ok_def set_item_def)
  have "concurrent_step sample_config any_job (w, [] @ ?c # [?s]) (w1, [] @ [] @ [?s])"
    using cancel(1) by (intro concurrent_step.goes_on) simp_all
  moreover have "concurrent_step sample_config any_job (w1, [?s]) (?w, [?s])"
    by (intro concurrent_step.whole refreshed_step)
  ultimately have "(concurrent_step sample_config any_job)\<^sup>*\<^sup>* (sample_start, []) (?w, [?s])"
    using begun by (auto intro: rtranclp.rtrancl_into_rtrancl)
  moreover have "concurrent_step sample_config any_job (?w, [] @ ?s # []) (w2, [] @ [] @ [])"
    using start(1) by (intro concurrent_step.goes_on) simp_all
  ultimately show ?thesis
    using items start(2)
    by (intro exI conjI) (assumption, simp, simp, simp add: update_where_def set_item_def, simp_all add: set_item_def)
qed

text \<open>
  C8: A decided case can come back. There is a run from the empty store in which two requests have
  read a case, one cancels it, and the other, which is to start work on it, then writes the
  case as it has read it: the case is cancelled before the step and in progress after it.
\<close>

theorem decided_case_reopens:
  "\<exists>w ps w' ps' row row'. (concurrent_step sample_config any_job)\<^sup>*\<^sup>* (sample_start, []) (w, ps)
     \<and> concurrent_step sample_config any_job (w, ps) (w', ps')
     \<and> row \<in> set (tab_items (db_index w)) \<and> row' \<in> set (tab_items (db_index w')) \<and> case_ID row' = case_ID row
     \<and> case_Status row = StatusCancelled \<and> case_Status row' = StatusInProgress"
  by (rule sample_race)

lemma sample_start_job:
  "\<exists>w' row. (concurrent_step sample_config (undisturbed sample_config))\<^sup>*\<^sup>* (sample_start, []) (w', [])
     \<and> tab_items (db_index w') = [row] \<and> case_Status row = StatusInProgress"
proof -
  obtain w i where w: "(system_step sample_config)\<^sup>*\<^sup>* sample_start w" "ready (case_ID i) i w"
    "tab_items (db_index w) = [row_of_item i]" and i: "case_Status i = StatusAdjudicated"
    using sample_case_ready by blast
  let ?s = "CaseJob (StartA ''a'') (case_ID i) i"
  obtain j t w' where start: "case_write (StartA ''a'') (case_ID i) i w = (Inr j, w')"
    "tab_items (db_index w') = update_where (\<lambda>r. case_ID r = case_ID i) (set_item (i\<lparr>case_Status := StatusInProgress,
        case_UpdatedAt := t\<rparr>)) (tab_items (db_index w))"
    using moved_write [of StatusInProgress i w "\<lambda>t i. i\<lparr>case_UpdatedAt := t\<rparr>" "''a''" ActionStartProcessing "''''"] w(2,3) i
    by (auto simp: ready_def may_move_def CanTransition_def writable_def)
  have "undisturbed sample_config (db_index w) ?s" using w(2) by (auto simp: ready_def read_from_def)
  then have "concurrent_step sample_config (undisturbed sample_config) (w, [] @ ?s # []) (w', [] @ [] @ [])"
    using start(1) by (intro concurrent_step.goes_on) simp_all
  moreover have "concurrent_step sample_config (undisturbed sample_config) (w, []) (w, [?s])"
    using ready_get [OF w(2)] by (intro concurrent_step.request_begins request_begins.case_read) simp
  moreover have "(concurrent_step sample_config (undisturbed sample_config))\<^sup>*\<^sup>* (sample_start, []) (w, [])"
    by (rule whole_steps [OF w(1)])
  ultimately have "(concurrent_step sample_config (undisturbed sample_config))\<^sup>*\<^sup>* (sample_start, []) (w', [])"
    by (auto intro: rtranclp.rtrancl_into_rtrancl)
  then show ?thesis using start(2) w(3) by (auto simp: update_where_def set_item_def)
qed

theorem interleaved_records_witness:
  "\<exists>w row. durable sample_start w \<and> append_only sample_start w \<and> wf_index (db_index w)
     \<and> row \<in> set (tab_items (db_index w)) \<and> case_Status row = StatusCancelled"
proof -
  obtain w ps row where run: "(concurrent_step sample_config any_job)\<^sup>*\<^sup>* (sample_start, []) (w, ps)"
    and row: "row \<in> set (tab_items (db_index w))" "case_Status row = StatusCancelled"
    using sample_race by blast
  have "wf_index (db_index sample_start)" by (simp add: wf_index_def sample_start_def empty_index_def)
  with interleaved_records [OF run] row show ?thesis by blast
qed

theorem undisturbed_jobs_witness:
  "\<exists>(w :: schedulers) row. routed (db_index w) \<and> levelled (db_index w) \<and> tab_items (db_index w) = [row] \<and> case_Status row = StatusInProgress"
proof -
  obtain w row where run: "(concurrent_step sample_config (undisturbed sample_config))\<^sup>*\<^sup>* (sample_start, []) (w, [])"
    and row: "tab_items (db_index w) = [row]" "case_Status row = StatusInProgress"
    using sample_start_job by blast
  from undisturbed_jobs [OF sample_config_level sample_start_reachable run] row show ?thesis by blast
qed

end
