(* ===== verification/Auth_Facts.thy ===== *)
theory Auth_Facts
  imports Auth
begin

text \<open>
  What a session token is good for, after any sequence of requests to the store, and what is
  left of the users after a restart.
\<close>

section \<open>Sequences of requests\<close>

datatype auth_action =
    DoAuthenticate string string
  | DoLogin string string duration time
  | DoResolve string time
  | DoLogout string time

fun auth_act :: "bcrypt \<Rightarrow> auth_action \<Rightarrow> 'a auth_store_scheme \<Rightarrow> 'a auth_store_scheme" where
  "auth_act bc (DoAuthenticate u p) w = snd (Authenticate bc u p w)"
| "auth_act bc (DoLogin u p ttl now) w = snd (Login bc u p ttl now w)"
| "auth_act bc (DoResolve token now) w = snd (Resolve token now w)"
| "auth_act bc (DoLogout token now) w = snd (Logout token now w)"

definition auth_run :: "bcrypt \<Rightarrow> auth_action list \<Rightarrow> 'a auth_store_scheme \<Rightarrow> 'a auth_store_scheme" where
  "auth_run bc acts w = foldl (\<lambda>w a. auth_act bc a w) w acts"

definition logged_out :: "string \<Rightarrow> auth_action list \<Rightarrow> bool" where
  "logged_out hash acts \<longleftrightarrow> (\<exists>token now. DoLogout token now \<in> set acts \<and> tokenHash token = hash)"

section \<open>What one request does\<close>

abbreviation "users w \<equiv> ds_Users (au_data w)"
abbreviation "sessions w \<equiv> ds_Sessions (au_data w)"

lemma external_data: "external w = (r, w') \<Longrightarrow> au_data w' = au_data w \<and> au_disk w' = au_disk w"
  by (auto elim!: external_cases)

definition saved_from :: "'a auth_store_scheme \<Rightarrow> 'a auth_store_scheme \<Rightarrow> bool" where
  "saved_from w w' \<longleftrightarrow> au_disk w' = au_disk w \<or> au_disk w' = Saved ((au_data w)\<lparr>ds_Users := map stored_user (users w)\<rparr>)"

lemma persist_effect: "persist w = (r, w') \<Longrightarrow> au_data w' = au_data w \<and> saved_from w w'
    \<and> (r = Inr () \<longrightarrow> au_disk w' = Saved ((au_data w)\<lparr>ds_Users := map stored_user (users w)\<rparr>))"
  unfolding persist_def marshal_state_def saved_from_def
  by (cases r) (auto simp: op_results modM_eq split: if_splits dest!: external_data)

lemma newToken_effect: "newToken w = (r, w') \<Longrightarrow> au_data w' = au_data w \<and> au_disk w' = au_disk w"
  unfolding newToken_def by (cases r) (auto simp: op_results modM_eq dest!: external_data)

lemma Authenticate_eq: "Authenticate bc u p w =
    ((case find (\<lambda>x. usr_Username x = u \<and> \<not> usr_Disabled x \<and> bc_matches bc (usr_PasswordHash x) p) (users w) of
        Some user \<Rightarrow> Inr user | None \<Rightarrow> Inl ErrInvalidCredentials), w)"
  by (simp add: Authenticate_def op_simps split: option.split)

lemma Resolve_eq: "Resolve token now w =
    ((case find (\<lambda>s. ses_TokenHash s = tokenHash token) (sessions w) of
        None \<Rightarrow> Inl ErrInvalidCredentials
      | Some s \<Rightarrow> if ses_RevokedAt s \<noteq> None then Inl ErrSessionRevoked
          else if \<not> now < ses_ExpiresAt s then Inl ErrSessionExpired
          else (case find (\<lambda>u. usr_ID u = ses_UserID s \<and> \<not> usr_Disabled u) (users w) of
              Some user \<Rightarrow> Inr user | None \<Rightarrow> Inl ErrInvalidCredentials)), w)"
  by (simp add: Resolve_def op_simps Before_def split: option.split)

definition new_session :: "User \<Rightarrow> string \<Rightarrow> time \<Rightarrow> Session" where
  "new_session user token expires = \<lparr>ses_ID = take 16 token, ses_UserID = usr_ID user, ses_TokenHash = tokenHash token,
     ses_ExpiresAt = expires, ses_RevokedAt = None\<rparr>"

lemma Login_Inr:
  assumes "Login bc u p ttl now w = (Inr (user, token, expires), w')"
  shows "user \<in> set (users w) \<and> \<not> usr_Disabled user \<and> usr_Username user = u \<and> bc_matches bc (usr_PasswordHash user) p
    \<and> expires = now + ttl \<and> users w' = users w \<and> sessions w' = sessions w @ [new_session user token expires]
    \<and> au_disk w' = Saved ((au_data w')\<lparr>ds_Users := map stored_user (users w')\<rparr>)"
  using assms unfolding Login_def Let_def
  by (auto simp: bindM_Inr Authenticate_eq modM_eq retM_Inr new_session_def Add_def find_Some_iff
      split: option.splits dest!: newToken_effect persist_effect)

text \<open>
  A request leaves the users alone, adds at most a session at the end, and changes a session only
  by a logout with its token.
\<close>

lemma Login_effect: "Login bc u p ttl now w = (r, w') \<Longrightarrow>
    au_data w' = au_data w \<or> (\<exists>s. au_data w' = (au_data w)\<lparr>ds_Sessions := sessions w @ [s]\<rparr>)"
  unfolding Login_def Let_def
  by (cases r) (auto simp: bindM_Inr bindM_Inl Authenticate_eq modM_eq retM_Inr split: option.splits
      dest!: newToken_effect persist_effect)

lemma revoke_none: "\<not> list_ex (\<lambda>s. ses_TokenHash s = h) ss \<Longrightarrow> revoke_first h now ss = ss"
  by (induction h now ss rule: revoke_first.induct) auto

lemma Logout_effect: "Logout token now w = (r, w') \<Longrightarrow>
    au_data w' = (au_data w)\<lparr>ds_Sessions := revoke_first (tokenHash token) now (sessions w)\<rparr>"
  unfolding Logout_def
  by (cases r) (auto simp: bindM_Inr bindM_Inl getM_eq failM_Inl modM_eq revoke_none split: if_splits dest!: persist_effect)

lemma act_effect: "au_data (auth_act bc a w) = au_data w
    \<or> (\<exists>s. au_data (auth_act bc a w) = (au_data w)\<lparr>ds_Sessions := sessions w @ [s]\<rparr>)
    \<or> (\<exists>token now. a = DoLogout token now
        \<and> au_data (auth_act bc a w) = (au_data w)\<lparr>ds_Sessions := revoke_first (tokenHash token) now (sessions w)\<rparr>)"
proof (cases a)
  case (DoLogin u p ttl now)
  then show ?thesis using Login_effect [OF prod.collapse [symmetric], of bc u p ttl now w] by auto
next
  case (DoLogout token now)
  then show ?thesis using Logout_effect [OF prod.collapse [symmetric], of token now w] by auto
qed (simp_all add: Authenticate_eq Resolve_eq)

lemma act_users [simp]: "users (auth_act bc a w) = users w"
  using act_effect [of bc a w] by auto

lemma run_users [simp]: "users (auth_run bc acts w) = users w"
  unfolding auth_run_def by (induction acts arbitrary: w) simp_all

definition first_session :: "string \<Rightarrow> Session list \<Rightarrow> Session option" where
  "first_session hash ss = find (\<lambda>s. ses_TokenHash s = hash) ss"

definition same_session :: "Session \<Rightarrow> Session \<Rightarrow> bool" where
  "same_session s s' \<longleftrightarrow> ses_UserID s' = ses_UserID s \<and> ses_ExpiresAt s' = ses_ExpiresAt s"

lemma first_session_append:
  "first_session h ss = Some s \<Longrightarrow> first_session h (ss @ rest) = Some s"
  by (induction ss) (auto simp: first_session_def)

lemma first_session_new:
  "h \<notin> ses_TokenHash ` set ss \<Longrightarrow> first_session h (ss @ [s]) = (if ses_TokenHash s = h then Some s else None)"
  by (induction ss) (auto simp: first_session_def)

lemma first_session_revoke: "first_session h ss = Some s \<Longrightarrow> \<exists>s'. first_session h (revoke_first g now ss) = Some s'
    \<and> same_session s s' \<and> (ses_RevokedAt s' = None \<longleftrightarrow> ses_RevokedAt s = None \<and> g \<noteq> h)"
  by (induction ss) (auto simp: first_session_def same_session_def split: if_splits)

lemma act_session:
  assumes "first_session h (sessions w) = Some s"
  shows "\<exists>s'. first_session h (sessions (auth_act bc a w)) = Some s' \<and> same_session s s'
    \<and> (ses_RevokedAt s' = None \<longleftrightarrow> ses_RevokedAt s = None \<and> \<not> logged_out h [a])"
proof (cases "\<exists>token now. a = DoLogout token now")
  case True
  then obtain token now where a: "a = DoLogout token now" by blast
  have "sessions (auth_act bc a w) = revoke_first (tokenHash token) now (sessions w)"
    using Logout_effect [OF prod.collapse [symmetric], of token now w] by (simp add: a)
  with first_session_revoke [OF assms, of "tokenHash token" now] a show ?thesis by (auto simp: logged_out_def)
next
  case False
  then have "\<exists>rest. sessions (auth_act bc a w) = sessions w @ rest" using act_effect [of bc a w] by auto
  moreover have "\<not> logged_out h [a]" using False by (auto simp: logged_out_def)
  ultimately show ?thesis using first_session_append [OF assms] by (auto simp: same_session_def)
qed

lemma run_session:
  "first_session h (sessions w) = Some s \<Longrightarrow> \<exists>s'. first_session h (sessions (auth_run bc acts w)) = Some s' \<and> same_session s s'
    \<and> (ses_RevokedAt s' = None \<longleftrightarrow> ses_RevokedAt s = None \<and> \<not> logged_out h acts)"
proof (induction acts arbitrary: w s)
  case Nil
  then show ?case by (simp add: auth_run_def same_session_def logged_out_def)
next
  case (Cons a acts)
  from act_session [OF Cons.prems, of bc a] obtain s1 where
    s1: "first_session h (sessions (auth_act bc a w)) = Some s1" "same_session s s1"
      "ses_RevokedAt s1 = None \<longleftrightarrow> ses_RevokedAt s = None \<and> \<not> logged_out h [a]" by (elim exE conjE) (rule that)
  have out: "logged_out h (a # acts) \<longleftrightarrow> logged_out h [a] \<or> logged_out h acts" by (auto simp: logged_out_def)
  have run: "auth_run bc (a # acts) w = auth_run bc acts (auth_act bc a w)" by (simp add: auth_run_def)
  from Cons.IH [OF s1(1)] obtain s2 where
    "first_session h (sessions (auth_run bc acts (auth_act bc a w))) = Some s2" "same_session s1 s2"
    "ses_RevokedAt s2 = None \<longleftrightarrow> ses_RevokedAt s1 = None \<and> \<not> logged_out h acts" by (elim exE conjE) (rule that)
  with s1(2,3) show ?case unfolding out run by (intro exI [of _ s2]) (simp add: same_session_def)
qed

lemma find_by_id:
  "distinct (map usr_ID us) \<Longrightarrow> user \<in> set us \<Longrightarrow> \<not> usr_Disabled user \<Longrightarrow>
    find (\<lambda>u. usr_ID u = usr_ID user \<and> \<not> usr_Disabled u) us = Some user"
  by (induction us) force+

section \<open>The life of a token\<close>

text \<open>C27: whatever requests follow a login, the token stands for the user who logged in until it
  expires, and from its logout on it is refused as revoked; nothing else ends it or brings it
  back. Two tokens with one hash are told apart by nothing, so the hash of the token is taken to
  be new.\<close>
theorem token_life:
  assumes login: "Login bc u p ttl t0 w = (Inr (user, token, expires), w1)"
    and new: "tokenHash token \<notin> ses_TokenHash ` set (sessions w)" and ids: "distinct (map usr_ID (users w))"
  shows "Resolve token now (auth_run bc acts w1) =
    ((if logged_out (tokenHash token) acts then Inl ErrSessionRevoked
      else if now < t0 + ttl then Inr user else Inl ErrSessionExpired), auth_run bc acts w1)"
proof -
  note l = Login_Inr [OF login]
  have "first_session (tokenHash token) (sessions w1) = Some (new_session user token expires)"
    using l new first_session_new [of "tokenHash token" "sessions w"] by (simp add: new_session_def)
  from run_session [OF this, of bc acts] obtain s where
    s: "first_session (tokenHash token) (sessions (auth_run bc acts w1)) = Some s"
      "ses_UserID s = usr_ID user" "ses_ExpiresAt s = t0 + ttl"
      "ses_RevokedAt s = None \<longleftrightarrow> \<not> logged_out (tokenHash token) acts"
    using l by (auto simp: same_session_def new_session_def)
  have "find (\<lambda>u. usr_ID u = usr_ID user \<and> \<not> usr_Disabled u) (users (auth_run bc acts w1)) = Some user"
    using l ids by (simp add: find_by_id)
  with s show ?thesis by (simp add: Resolve_eq first_session_def)
qed

section \<open>After a restart\<close>

lemma act_disk: "au_disk (auth_act bc a w) = au_disk w
    \<or> (\<exists>d. au_disk (auth_act bc a w) = Saved d \<and> ds_Users d = map stored_user (users w))"
proof (cases a)
  case (DoLogin u p ttl now)
  have "au_disk w' = au_disk w \<or> (\<exists>d. au_disk w' = Saved d \<and> ds_Users d = map stored_user (users w))"
    if "Login bc u p ttl now w = (r, w')" for r w'
    using that unfolding Login_def Let_def
    by (cases r) (auto simp: bindM_Inr bindM_Inl Authenticate_eq modM_eq retM_Inr saved_from_def split: option.splits
        dest!: newToken_effect persist_effect)
  with DoLogin show ?thesis by (metis auth_act.simps(2) prod.collapse)
next
  case (DoLogout token now)
  have "au_disk w' = au_disk w \<or> (\<exists>d. au_disk w' = Saved d \<and> ds_Users d = map stored_user (users w))"
    if "Logout token now w = (r, w')" for r w'
    using that unfolding Logout_def
    by (cases r) (auto simp: bindM_Inr bindM_Inl getM_eq failM_Inl modM_eq saved_from_def split: if_splits dest!: persist_effect)
  with DoLogout show ?thesis by (metis auth_act.simps(4) prod.collapse)
qed (simp_all add: Authenticate_eq Resolve_eq)

definition hashless :: "auth_file \<Rightarrow> bool" where
  "hashless f \<longleftrightarrow> (\<exists>d. f = Saved d \<and> ds_Users d \<noteq> [] \<and> (\<forall>u \<in> set (ds_Users d). usr_PasswordHash u = ''''))"

lemma stored_hashless: "us \<noteq> [] \<Longrightarrow> ds_Users d = map stored_user us \<Longrightarrow> hashless (Saved d)"
  by (auto simp: hashless_def stored_user_def)

lemma run_hashless: "hashless (au_disk w) \<Longrightarrow> users w \<noteq> [] \<Longrightarrow> hashless (au_disk (auth_run bc acts w))"
proof (induction acts arbitrary: w)
  case (Cons a acts)
  have "hashless (au_disk (auth_act bc a w))"
    using act_disk [of bc a w] Cons.prems stored_hashless by fastforce
  with Cons.IH [of "auth_act bc a w"] Cons.prems show ?case by (simp add: auth_run_def)
qed (simp add: auth_run_def)

text \<open>C40: the file of the store does not hold the password hashes. Whatever happens after a login,
  a process that opens the store again finds users, so that it does not provision any, and refuses
  every user and every password, bcrypt having no password for an empty hash.\<close>
theorem nobody_after_restart:
  assumes bcrypt: "\<And>p. \<not> bc_matches bc '''' p"
    and login: "Login bc u p ttl t0 w = (Inr x, w1)"
    and restart: "au_disk w2 = au_disk (auth_run bc acts w1)"
    and opened: "Open bc seeds w2 = (Inr (), w3)"
  shows "Authenticate bc username password w3 = (Inl ErrInvalidCredentials, w3)"
proof -
  obtain user token expires where x: "x = (user, token, expires)" by (cases x)
  note l = Login_Inr [OF login [unfolded x]]
  have "hashless (au_disk w1)" "users w1 \<noteq> []"
    using l by (auto simp: hashless_def stored_user_def)
  then have "hashless (au_disk w2)" using run_hashless restart by metis
  then obtain d where d: "au_disk w2 = Saved d" "ds_Users d \<noteq> []" "\<forall>u \<in> set (ds_Users d). usr_PasswordHash u = ''''"
    by (auto simp: hashless_def)
  have "users w3 = ds_Users d"
    using opened d unfolding Open_def load_def
    by (auto simp: bindM_Inr modM_eq getM_eq mapErr_Inr retM_Inr split: if_splits dest!: external_data)
  with d bcrypt show ?thesis by (auto simp: Authenticate_eq find_Some_iff split: option.split)
qed

section \<open>A concrete store\<close>

definition sample_bcrypt :: bcrypt where
  "sample_bcrypt = \<lparr>bc_generate = (\<lambda>n p. Inr (''$'' @ p)), bc_matches = (\<lambda>h p. h = ''$'' @ p)\<rparr>"

definition sample_user :: User where
  "sample_user = \<lparr>usr_ID = ''u1'', usr_Username = ''ann'', usr_PasswordHash = ''$secret'', usr_Role = RoleAdmin,
     usr_Disabled = False\<rparr>"

definition sample_store :: auth_store where
  "sample_store = \<lparr>rt_clock = (\<lambda>n. 1), rt_wall = (\<lambda>n. 1), rt_ticks = 0, rt_uuid = show_nat, rt_ids = 0, rt_faults = [],
     au_random = (\<lambda>n i. CHR ''x''), au_draws = 0, au_disk = NoFile, au_data = \<lparr>ds_Users = [sample_user], ds_Sessions = []\<rparr>\<rparr>"

lemma sample_login: "\<exists>token w1. Login sample_bcrypt ''ann'' ''secret'' 100 10 sample_store = (Inr (sample_user, token, 110), w1)"
  by (simp add: Login_def Authenticate_def newToken_def persist_def bindM_def mapErr_def external_def getM_def retM_def modM_def
      liftE_def marshal_state_def session_times_def time_ok_def Add_def sample_store_def sample_user_def sample_bcrypt_def)

theorem token_life_witness:
  "\<exists>token w1. Login sample_bcrypt ''ann'' ''secret'' 100 10 sample_store = (Inr (sample_user, token, 110), w1)
     \<and> fst (Resolve token 50 w1) = Inr sample_user \<and> fst (Resolve token 110 w1) = Inl ErrSessionExpired
     \<and> fst (Resolve token 50 (auth_run sample_bcrypt [DoLogout token 20] w1)) = Inl ErrSessionRevoked"
proof -
  obtain token w1 where l: "Login sample_bcrypt ''ann'' ''secret'' 100 10 sample_store = (Inr (sample_user, token, 110), w1)"
    using sample_login by blast
  have "tokenHash token \<notin> ses_TokenHash ` set (sessions sample_store)" "distinct (map usr_ID (users sample_store))"
    by (simp_all add: sample_store_def)
  note life = token_life [OF l this]
  show ?thesis using l life [of 50 "[]"] life [of 110 "[]"] life [of 50 "[DoLogout token 20]"]
    by (auto simp: logged_out_def auth_run_def)
qed

theorem nobody_after_restart_witness:
  "\<exists>token w1 w3. Login sample_bcrypt ''ann'' ''secret'' 100 10 sample_store = (Inr (sample_user, token, 110), w1)
     \<and> Open sample_bcrypt [] w1 = (Inr (), w3) \<and> fst (Authenticate sample_bcrypt ''ann'' ''secret'' w3) = Inl ErrInvalidCredentials"
proof -
  obtain token w1 where l: "Login sample_bcrypt ''ann'' ''secret'' 100 10 sample_store = (Inr (sample_user, token, 110), w1)"
    using sample_login by blast
  then have "rt_faults w1 = [] \<and> (\<exists>d. au_disk w1 = Saved d \<and> ds_Users d \<noteq> [])"
    by (auto simp: Login_def Authenticate_def newToken_def persist_def bindM_def mapErr_def external_def getM_def retM_def modM_def
      liftE_def marshal_state_def session_times_def time_ok_def Add_def sample_store_def sample_user_def sample_bcrypt_def)
  then obtain w3 where o: "Open sample_bcrypt [] w1 = (Inr (), w3)"
    by (auto simp: Open_def load_def bindM_def modM_def external_def mapErr_def getM_def retM_def)
  have "\<not> bc_matches sample_bcrypt '''' p" for p by (simp add: sample_bcrypt_def)
  from nobody_after_restart [OF this l _ o, of "[]"] l o show ?thesis by (auto simp: auth_run_def)
qed

end
