(* ===== verification/Http_Facts.thy ===== *)
theory Http_Facts
  imports Http Case_Facts Auth_Facts
begin

text \<open>
  Who may change the cases through the HTTP interface, what the status of an answer says of the
  operation, and how much of a listing one answer holds.
\<close>

section \<open>Access\<close>

definition caller :: "string \<Rightarrow> 'a auth_store_scheme \<Rightarrow> User option" where
  \<comment> \<open>the user whom the session token of a request stands for, now\<close>
  "caller header a = (if bearerToken header = '''' then None
     else case fst (Resolve (bearerToken header) (rt_wall a (rt_ticks a)) a) of Inl e \<Rightarrow> None | Inr user \<Rightarrow> Some user)"

text \<open>The routes that not everyone may use, and who may.\<close>

fun restricted :: "endpoint \<Rightarrow> bool" where
  "restricted (CreateRuleR body) = True"
| "restricted (ImportR body) = True"
| "restricted (RetryR failureID) = True"
| "restricted e = False"

fun may_call :: "Role \<Rightarrow> endpoint \<Rightarrow> bool" where
  "may_call role (CreateRuleR body) \<longleftrightarrow> role = RoleAdmin \<or> role = RoleQualityInspector"
| "may_call role (ImportR body) \<longleftrightarrow> role = RoleAdmin \<or> role = RoleQualityInspector"
| "may_call role (RetryR failureID) \<longleftrightarrow> role = RoleAdmin"
| "may_call role e \<longleftrightarrow> True"

lemma requireRoles_None: "requireRoles (Some user) (roles_for e) = None \<longleftrightarrow> may_call (usr_Role user) e"
  by (cases e) (auto simp: requireRoles_def RequireRole_def)

lemma requireRoles_nobody: "requireRoles None (roles_for e) = None \<longleftrightarrow> \<not> restricted e"
  by (cases e) (auto simp: requireRoles_def)

lemma requireRoles_Some: "requireRoles context required = Some refusal \<Longrightarrow> rs_Status refusal = 403"
  by (auto simp: requireRoles_def writeError_def writeJSON_def split: option.splits if_splits)

lemma authenticate_eq: "fst (authenticate header a) = (case caller header a of
      Some user \<Rightarrow> Inr user
    | None \<Rightarrow> Inl (projl (fst (authenticate header a))))"
  "caller header a = None \<Longrightarrow> rs_Status (projl (fst (authenticate header a))) = 401"
  "au_data (snd (authenticate header a)) = au_data a" "au_disk (snd (authenticate header a)) = au_disk a"
  by (auto simp: authenticate_def caller_def Let_def Resolve_eq writeError_def writeJSON_def split: sum.splits option.splits)

definition handled :: "duration \<Rightarrow> request \<Rightarrow> 'w world_scheme \<Rightarrow> response \<Rightarrow> 'w world_scheme \<Rightarrow> bool" where
  "handled deadline r w resp w' \<longleftrightarrow> (resp, w') = handle deadline (hr_Endpoint r) (hr_Query r) w"

lemma serve_required:
  assumes "serve True deadline r (a, w) = (resp, a', w')"
  shows "au_data a' = au_data a \<and> (case caller (hr_Authorization r) a of
        None \<Rightarrow> w' = w \<and> rs_Status resp = 401
      | Some user \<Rightarrow> if may_call (usr_Role user) (hr_Endpoint r) then handled deadline r w resp w'
          else w' = w \<and> rs_Status resp = 403)"
proof (cases "authenticate (hr_Authorization r) a")
  case (Pair x a1)
  note au = authenticate_eq [of "hr_Authorization r" a, unfolded Pair fst_conv snd_conv]
  show ?thesis
  proof (cases "caller (hr_Authorization r) a")
    case None
    with au Pair assms show ?thesis by (cases x) (auto simp: serve_def)
  next
    case (Some user)
    with au have x: "x = Inr user" by simp
    show ?thesis
    proof (cases "requireRoles (Some user) (roles_for (hr_Endpoint r))")
      case None
      then have "may_call (usr_Role user) (hr_Endpoint r)" by (simp add: requireRoles_None)
      with None Some x au Pair assms show ?thesis by (auto simp: serve_def handled_def split: prod.splits)
    next
      case (Some refusal)
      then have "\<not> may_call (usr_Role user) (hr_Endpoint r)" by (metis option.distinct(1) requireRoles_None)
      with Some requireRoles_Some [OF Some] \<open>caller _ _ = Some user\<close> x au Pair assms show ?thesis
        by (auto simp: serve_def)
    qed
  qed
qed

lemma open_restricted:
  assumes "serve False deadline r (a, w) = (resp, a', w')"
  shows "a' = a \<and> (if restricted (hr_Endpoint r) then w' = w \<and> rs_Status resp = 403 else handled deadline r w resp w')"
  using assms requireRoles_nobody [of "hr_Endpoint r"] requireRoles_Some [of None "roles_for (hr_Endpoint r)"]
  by (auto simp: serve_def handled_def split: prod.splits option.splits)

text \<open>C20: with authentication required, a request below \<open>/api\<close> has the effect and the answer of its
  handler exactly when its token stands for a user now whose role may use the route: an
  administrator or a quality inspector for a new rule and for an import, an administrator for the
  retry of a failure, and anyone for the others; any other request is answered 401 (no user) or 403 (not
  the role) and changes no case. With authentication switched off, nobody is known: the three
  restricted routes answer 403 and change nothing, and every other request is handled without a
  token. In both cases no request changes the users or the sessions.\<close>
theorem access_control:
  "case serve required deadline r (a, w) of (resp, a', w') \<Rightarrow> au_data a' = au_data a
   \<and> (if required then (case caller (hr_Authorization r) a of
        None \<Rightarrow> w' = w \<and> rs_Status resp = 401
      | Some user \<Rightarrow> if may_call (usr_Role user) (hr_Endpoint r) then handled deadline r w resp w'
          else w' = w \<and> rs_Status resp = 403)
      else if restricted (hr_Endpoint r) then w' = w \<and> rs_Status resp = 403
      else handled deadline r w resp w')"
  using serve_required [of deadline r a w] open_restricted [of deadline r a w]
  by (cases "serve required deadline r (a, w)"; cases required) auto

section \<open>The status of an answer\<close>

fun step_route :: "endpoint \<Rightarrow> (string \<times> ItemStatus) option" where
  "step_route (StartR itemID) = Some (itemID, StatusInProgress)"
| "step_route (ReturnR itemID reason actor) = Some (itemID, StatusReturned)"
| "step_route (CancelR itemID reason actor) = Some (itemID, StatusCancelled)"
| "step_route (CompleteR itemID) = Some (itemID, StatusCompleted)"
| "step_route e = None"

lemma refusal_status: "is_refusal e \<Longrightarrow> rs_Status (writeServiceError e) = 409"
  by (auto simp: is_refusal_def writeServiceError_def writeError_def writeJSON_def)

lemma respond_decided:
  fixes m :: "(err, 'w, 'b) op"
  assumes "case fst (m w) of Inr i \<Rightarrow> ok | Inl e \<Rightarrow> \<not> ok \<and> is_refusal e" and "\<And>i. rs_Status (good i) = 200"
  shows "rs_Status (fst (respond m good w)) = (if ok then 200 else 409)"
  using assms by (cases "m w") (auto simp: respond_def refusal_status split: sum.splits)

lemma respond_missing:
  assumes "rt_faults w = []" and "itemID \<notin> case_ID ` set (tab_items (db_index w))"
  shows "rs_Status (fst (respond (bindM (mapErr (Wrap s) (GetItemByID itemID)) k) good w)) = 404"
proof -
  have "GetItemByID itemID w = (Inl ErrNotFound, w)"
    using assms find_key_None_iff [of case_ID itemID "tab_items (db_index w)"]
    by (simp add: GetItemByID_def mapErr_def query_row_quiet find_row_def or_not_found_def)
  then show ?thesis by (simp add: respond_def bindM_def mapErr_def writeServiceError_def writeError_def writeJSON_def)
qed

text \<open>for a stored case and with nothing failing outside, the four steps answer 200 when the
  transition is allowed and 409 when it is not; for a case that is not stored they answer 404.\<close>
theorem step_status:
  assumes route: "step_route e = Some (itemID, to)"
    and stored: "ready itemID j w"
    and missing: "rt_faults v = []" "itemID \<notin> case_ID ` set (tab_items (db_index v))"
  shows "rs_Status (fst (handle deadline e query w)) = (if may_move to j then 200 else 409)
    \<and> rs_Status (fst (handle deadline e query v)) = 404"
proof (intro conjI)
  have good: "rs_Status (writeJSON 200 x) = 200" for x by (simp add: writeJSON_def)
  note handlers = startProcessing_def returnForCorrection_def cancelItem_def completeItem_def
  note decided = respond_decided [where m = "StartProcessing itemID actor" and w = w and good = "\<lambda>i. writeJSON 200 (OneItem i)" for actor, OF decides(1) [OF stored] good]
    respond_decided [where m = "ReturnForCorrection itemID reason actor" and w = w and good = "\<lambda>i. writeJSON 200 (OneItem i)" for reason actor, OF decides(2) [OF stored] good]
    respond_decided [where m = "Cancel itemID reason actor" and w = w and good = "\<lambda>i. writeJSON 200 (OneItem i)" for reason actor, OF decides(3) [OF stored] good]
    respond_decided [where m = "Complete itemID actor" and w = w and good = "\<lambda>i. writeJSON 200 (OneItem i)" for actor, OF decides(4) [OF stored] good]
  show "rs_Status (fst (handle deadline e query w)) = (if may_move to j then 200 else 409)"
    using route by (cases e rule: step_route.cases) (auto simp: handlers decided)
  show "rs_Status (fst (handle deadline e query v)) = 404"
    using route missing
    by (cases e rule: step_route.cases)
       (auto simp: handlers StartProcessing_def ReturnForCorrection_def Cancel_def Complete_def respond_missing)
qed

lemma unknown_rule_status:
  assumes "rt_faults w = []" and "Atoi v = Some n" and "n \<notin> rule_Version ` set (tab_rules (db_index w))"
  shows "rs_Status (fst (handle deadline (GetRuleR v) query w)) = 500"
proof -
  have "GetRuleByVersion n w = (Inl ErrNoRows, w)"
    using assms find_key_None_iff [of rule_Version n "tab_rules (db_index w)"]
    by (simp add: GetRuleByVersion_def query_row_quiet find_row_def)
  with assms(2) show ?thesis
    by (simp add: getRule_def respond_def writeServiceError_def writeError_def writeJSON_def)
qed

section \<open>Listings\<close>

lemma page_size_bounds: "1 \<le> parsePageSize query" "parsePageSize query \<le> 200" "0 \<le> parsePageOffset query"
  by (auto simp: parsePageSize_def parsePageOffset_def Let_def split: option.split)

fun exact_page :: "payload \<Rightarrow> bool" where
  "exact_page (ItemPage items n limit offset) \<longleftrightarrow> 1 \<le> limit \<and> limit \<le> 200 \<and> 0 \<le> offset
     \<and> int (length items) = max 0 (min limit (n - offset))"
| "exact_page (Problem code message) \<longleftrightarrow> True"
| "exact_page b \<longleftrightarrow> False"

fun exact_export :: "payload \<Rightarrow> bool" where
  "exact_export (ItemPage items n limit offset) \<longleftrightarrow> offset = 0 \<and> limit = int (length items)
     \<and> int (length items) = max 0 (min 200 n)"
| "exact_export (Problem code message) \<longleftrightarrow> True"
| "exact_export b \<longleftrightarrow> False"

lemma respond_body:
  assumes "\<And>x w'. m w = (Inr x, w') \<Longrightarrow> P (rs_Body (good x))" and "\<And>code message. P (Problem code message)"
  shows "P (rs_Body (fst (respond m good w)))"
proof (cases "m w")
  case (Pair r w')
  have "P (rs_Body (writeServiceError e))" for e
    unfolding writeServiceError_def writeError_def writeJSON_def by (auto simp: assms(2) split: option.split)
  with Pair assms(1) show ?thesis by (cases r) (auto simp: respond_def)
qed

text \<open>a page of the cases holds exactly those that are left after the offset, up to the page
  size, which is from 1 to 200 whatever the request says; the export holds the first two hundred
  and no more.\<close>
theorem listing_pages:
  "exact_page (rs_Body (fst (handle deadline ListItemsR query w)))
   \<and> exact_export (rs_Body (fst (handle deadline ExportR query w)))"
proof
  show "exact_page (rs_Body (fst (handle deadline ListItemsR query w)))"
    unfolding handle.simps listItems_def Let_def
  proof (rule respond_body)
    fix x w' assume "ListItems (parseItemFilter query) w = (Inr x, w')"
    then have "ListItems (parseItemFilter query) w = (Inr (fst x, snd x), w')" by simp
    from ListItems_length [OF this] page_size_bounds [of query]
    show "exact_page (rs_Body ((\<lambda>(items, total). writeJSON 200 (ItemPage items total (if_PageSize (parseItemFilter query))
        (if_PageOffset (parseItemFilter query)))) x))"
      by (simp add: case_prod_beta writeJSON_def parseItemFilter_def item_page_size_def page_offset_def Let_def)
  qed simp
  show "exact_export (rs_Body (fst (handle deadline ExportR query w)))"
    unfolding handle.simps batchExport_def Export_def
  proof (rule respond_body)
    let ?flt = "\<lparr>if_Status = StatusOther '''', if_LeadDepartment = '''', if_StoreID = '''',
      if_RegisteredBy = '''', if_From = query_time query ''from'', if_To = query_time query ''to'', if_OverdueOnly = False,
      if_PageSize = 1000, if_PageOffset = 0\<rparr>"
    fix x w' assume "ListItems ?flt w = (Inr x, w')"
    then have "ListItems ?flt w = (Inr (fst x, snd x), w')" by simp
    from ListItems_length [OF this]
    show "exact_export (rs_Body ((\<lambda>(items, total). writeJSON 200 (ItemPage items total (int (length items)) 0)) x))"
      by (simp add: case_prod_beta writeJSON_def item_page_size_def page_offset_def)
  qed simp
qed

theorem step_status_witness:
  "rs_Status (fst (handle 50 (StartR ''i1'') (\<lambda>k. '''') (sample_ready StatusCompleted))) = 409
   \<and> rs_Status (fst (handle 50 (StartR ''i1'') (\<lambda>k. '''') sample_open)) = 404"
proof -
  have "rt_faults sample_open = []" "''i1'' \<notin> case_ID ` set (tab_items (db_index sample_open))"
    by (simp_all add: sample_open_def sample_world_def empty_index_def)
  from step_status [OF _ ready_sample [of StatusCompleted] this, of "StartR ''i1''" StatusInProgress 50 "\<lambda>k. ''''"]
  show ?thesis by (simp add: may_move_def CanTransition_def)
qed

end
