(* ===== verification/Process_Facts.thy ===== *)
theory Process_Facts
  imports Process Interleaving_Facts Http_Facts
begin

text \<open>
  What holds of the running program: it does to the store only what the operations of \<open>System\<close> and
  the jobs of \<open>Interleaving\<close> do, so that what is proved of them holds here for any configuration
  that \<open>Load\<close> returns; and how its loops and its shutdown can go.
\<close>

section \<open>Requests are steps of the case system\<close>

lemma respond_world: "snd (respond m ok w) = snd (m w)"
  by (simp add: respond_def split: prod.split sum.split)

lemma with_body_world: "snd (with_body body h w) = (case body of Inl msg \<Rightarrow> w | Inr req \<Rightarrow> snd (h req w))"
  by (simp add: with_body_def split: sum.split)

lemma ran: "(\<And>r w'. m w = (r, w') \<Longrightarrow> system_step sc w w') \<Longrightarrow> (system_step sc)\<^sup>*\<^sup>* w (snd (m w))"
  by (cases "m w") auto

lemma handle_steps: "(system_step sc)\<^sup>*\<^sup>* w (snd (handle (sys_deadline sc) e query w))"
proof (cases e)
  case (RegisterItemR body)
  then show ?thesis
    by (auto simp: registerItem_def with_body_world respond_world split: sum.split intro: ran system_step.register)
next
  case (ModifyItemR itemID body)
  then show ?thesis
    by (auto simp: modifyItem_def with_body_world respond_world split: sum.split intro: ran system_step.modify)
next
  case (CreateRuleR body)
  then show ?thesis
    by (auto simp: createRule_def with_body_world respond_world split: sum.split intro: ran system_step.create_rule)
next
  case (ImportR body)
  then show ?thesis
    by (auto simp: batchImport_def with_body_world respond_world split: sum.split intro: ran system_step.import_batch)
qed (auto simp: listItems_def getItemDetail_def startProcessing_def returnForCorrection_def resubmitItem_def
    cancelItem_def completeItem_def listRules_def getRule_def batchExport_def listBatches_def getBacklog_def
    listAudit_def listFailures_def retryFailure_def respond_world Let_def split: option.split
    intro: ran system_step.intros)

lemma external_steps: "(system_step sc)\<^sup>*\<^sup>* w (snd (external w))"
proof -
  obtain fs where "snd (external w) = w\<lparr>rt_clock := rt_clock w, rt_wall := rt_wall w, rt_uuid := rt_uuid w, rt_faults := fs\<rparr>"
    using external_snd [of w] by auto
  then show ?thesis by (metis r_into_rtranclp system_step.environment)
qed

lemma readyz_steps: "(system_step sc)\<^sup>*\<^sup>* w (snd (readyz s v w))"
  using rtranclp_trans [OF external_steps external_steps, of sc w]
  by (auto simp: readyz_def Let_def split: prod.split)

lemma serve_steps: "serve required (sys_deadline sc) r (a, w) = (resp, a', w') \<Longrightarrow> (system_step sc)\<^sup>*\<^sup>* w w'"
  using handle_steps [of sc w "hr_Endpoint r" "hr_Query r"]
  by (auto simp: serve_def split: if_split_asm prod.split_asm sum.split_asm option.split_asm)

lemma run_task_steps: "(system_step sc)\<^sup>*\<^sup>* w (snd (run_task sc t w))"
  by (cases t) (auto intro: ran system_step.intros)

definition on_store :: "process \<Rightarrow> schedulers \<times> job list" where
  "on_store p = (pr_world p, pr_jobs p)"

abbreviation store_steps :: "system_config \<Rightarrow> schedulers \<times> job list \<Rightarrow> schedulers \<times> job list \<Rightarrow> bool" where
  "store_steps sc \<equiv> (concurrent_step sc any_job)\<^sup>*\<^sup>*"

lemma step_simulated:
  "process_step bc cfg p p' \<Longrightarrow> store_steps (services_of cfg) (on_store p) (on_store p')"
proof (induction rule: process_step.induct)
  case (request p r)
  then show ?case
    by (force simp: on_store_def answer_def split: prod.split intro: whole_steps serve_steps)
next
  case (ready p)
  then show ?case using whole_steps [OF readyz_steps [of "services_of cfg" "pr_world p"]]
    by (auto simp: on_store_def answer_ready_def split: prod.split) (metis snd_conv)
next
  case (outside p a' c1 c2 fs1 w' c3 c4 uuid fs2)
  then show ?case
    by (auto simp: on_store_def intro!: r_into_rtranclp concurrent_step.whole system_step.environment)
next
  case (attempts_end p e n u w')
  then show ?case
    by (auto simp: on_store_def services_of_def intro!: r_into_rtranclp concurrent_step.task_fails)
next
  case (job_goes_on p js j js' ks w')
  then show ?case by (auto simp: on_store_def intro!: r_into_rtranclp concurrent_step.goes_on)
qed (auto simp: on_store_def begin_loop_def on_tick_def loop_returns_def answer_session_def cancel_scheduler_def
    scheduler_stopped_def worker_stopped_def close_store_def split: prod.split
    intro: whole_steps run_task_steps concurrent_step.intros r_into_rtranclp)

interpretation program: simulation on_store "process_step bc cfg" "concurrent_step (services_of cfg) any_job" for bc cfg
  by unfold_locales (rule step_simulated)

lemma run_simulated: "process_run bc cfg p \<Longrightarrow> reachable_concurrently (services_of cfg) (on_store p)"
proof (induction rule: process_run.induct)
  case (booted w js a)
  then have "reachable_concurrently (services_of cfg) (restarted w, [])"
    unfolding reachable_concurrently_def by (blast intro: rtranclp.rtrancl_into_rtrancl concurrent_step.crash)
  then show ?case by (simp add: on_store_def startup_def split: prod.split)
next
  case (stepped p p')
  then show ?case unfolding reachable_concurrently_def using step_simulated by (blast intro: rtranclp_trans)
qed

section \<open>Users and sessions\<close>

lemma serve_auth: "serve required d r (a, w) = (resp, a', w') \<Longrightarrow> au_data a' = au_data a \<and> au_disk a' = au_disk a"
  using authenticate_eq(3,4) [of "hr_Authorization r" a]
  by (cases "authenticate (hr_Authorization r) a")
     (auto simp: serve_def split: if_split_asm prod.split_asm sum.split_asm option.split_asm)

lemma step_auth:
  assumes "process_step bc cfg p p'"
  shows "au_data (pr_auth p') = au_data (pr_auth p) \<and> au_disk (pr_auth p') = au_disk (pr_auth p)
     \<or> (\<exists>r. p' = snd (answer_session bc cfg r p))"
  using assms
proof cases
  case (request r)
  then show ?thesis using serve_auth by (force simp: answer_def split: prod.split)
qed (auto simp: begin_loop_def on_tick_def loop_returns_def answer_ready_def cancel_scheduler_def
    scheduler_stopped_def worker_stopped_def close_store_def split: prod.split)

text \<open>
  C5: The running program refines the store with its jobs. Whatever a process does in a step - a
  request, whole or in parts, a tick of a loop, a part of the shutdown, a call that begins to fail -
  its store and the jobs under way make steps of the concurrent machine or none, from a state that
  this machine can reach, crashes included; and the users and the sessions are changed by sign-in
  and sign-out only.
\<close>

theorem process_refines_system:
  assumes "process_run bc cfg p" and "process_step bc cfg p p'"
  shows "reachable_concurrently (services_of cfg) (pr_world p, pr_jobs p)
     \<and> (concurrent_step (services_of cfg) any_job)\<^sup>*\<^sup>* (pr_world p, pr_jobs p) (pr_world p', pr_jobs p')
     \<and> (au_data (pr_auth p') = au_data (pr_auth p) \<and> au_disk (pr_auth p') = au_disk (pr_auth p)
        \<or> (\<exists>r. p' = snd (answer_session bc cfg r p)))"
  using run_simulated [OF assms(1)] step_simulated [OF assms(2)] step_auth [OF assms(2)] by (simp add: on_store_def)

section \<open>The loops\<close>

lemma step_loops:
  assumes "process_step bc cfg p p'"
  shows "(pr_loop p' t = NotStarted \<longrightarrow> pr_loop p t = NotStarted) \<and> (pr_loop p t = Returned \<longrightarrow> pr_loop p' t = Returned)
     \<and> (pr_main p' = Crashed \<longrightarrow> (\<exists>s. interval (con_Scheduler cfg) s \<le> 0 \<and> pr_loop p s = NotStarted)) \<and> pr_main p = Running"
  using assms
  by cases (auto simp: begin_loop_def on_tick_def loop_returns_def answer_def answer_session_def answer_ready_def
      cancel_scheduler_def scheduler_stopped_def worker_stopped_def close_store_def split: prod.splits if_split_asm)

lemma steps_loops:
  assumes "(process_step bc cfg)\<^sup>*\<^sup>* p p'"
  shows "(pr_loop p' t = NotStarted \<longrightarrow> pr_loop p t = NotStarted) \<and> (pr_loop p t = Returned \<longrightarrow> pr_loop p' t = Returned)"
  using assms by (induction rule: rtranclp_induct) (use step_loops in blast)+

text \<open>
  A process that runs can only be brought down by an interval. It can crash exactly when one of
  its loops has yet to begin and the interval of this loop is not positive - which a configuration
  that \<open>Load\<close> returns may well have, since no interval is checked.
\<close>

theorem loops_crash_iff:
  assumes "pr_main p = Running"
  shows "(\<exists>p'. (process_step bc cfg)\<^sup>*\<^sup>* p p' \<and> pr_main p' = Crashed)
     \<longleftrightarrow> (\<exists>t. interval (con_Scheduler cfg) t \<le> 0 \<and> pr_loop p t = NotStarted)"
proof
  assume "\<exists>p'. (process_step bc cfg)\<^sup>*\<^sup>* p p' \<and> pr_main p' = Crashed"
  then obtain p' where steps: "(process_step bc cfg)\<^sup>*\<^sup>* p p'" and "pr_main p' = Crashed" by blast
  then show "\<exists>t. interval (con_Scheduler cfg) t \<le> 0 \<and> pr_loop p t = NotStarted"
  proof (cases rule: rtranclp.cases)
    case (rtrancl_into_rtrancl b)
    then show ?thesis using \<open>pr_main p' = Crashed\<close> step_loops steps_loops by metis
  qed (use assms in simp)
next
  assume "\<exists>t. interval (con_Scheduler cfg) t \<le> 0 \<and> pr_loop p t = NotStarted"
  then obtain t where "interval (con_Scheduler cfg) t \<le> 0" "pr_loop p t = NotStarted" by blast
  with process_step.loop_begins [OF assms this(2), of bc cfg]
  show "\<exists>p'. (process_step bc cfg)\<^sup>*\<^sup>* p p' \<and> pr_main p' = Crashed"
    by (intro exI [of _ "begin_loop (con_Scheduler cfg) t p"]) (auto simp: begin_loop_def)
qed

section \<open>The shutdown\<close>

fun rank :: "shutdown_phase \<Rightarrow> nat" where
  "rank NoSignal = 0" | "rank Draining = 1" | "rank StoppingScheduler = 2" | "rank StoppingWorker = 3"
| "rank ClosingStore = 4" | "rank ShutDown = 5"

fun stop_rank :: "task \<Rightarrow> nat" where
  "stop_rank EscalationTask = 2" | "stop_rank ReconciliationTask = 2" | "stop_rank ReevalTask = 3"

definition orderly :: "process \<Rightarrow> bool" where
  "orderly p \<longleftrightarrow>
     (\<forall>t. (pr_cancelled p t \<longleftrightarrow> stop_rank t \<le> rank (pr_shutdown p)) \<and> (pr_loop p t = Returned \<longrightarrow> stop_rank t \<le> rank (pr_shutdown p))
        \<and> (stop_rank t < rank (pr_shutdown p) \<longrightarrow> pr_loop p t = Returned))
     \<and> (pr_scheduler p \<longleftrightarrow> rank (pr_shutdown p) \<le> 2) \<and> (pr_reeval p \<longleftrightarrow> rank (pr_shutdown p) \<le> 3)
     \<and> (pr_store_open p \<longleftrightarrow> rank (pr_shutdown p) < 5)"

lemma orderly_same:
  "orderly p \<Longrightarrow> pr_cancelled q = pr_cancelled p \<Longrightarrow> pr_loop q = pr_loop p \<Longrightarrow> pr_shutdown q = pr_shutdown p
    \<Longrightarrow> pr_scheduler q = pr_scheduler p \<Longrightarrow> pr_reeval q = pr_reeval p \<Longrightarrow> pr_store_open q = pr_store_open p \<Longrightarrow> orderly q"
  by (cases p, cases q) (simp add: orderly_def)

lemma stop_rank_bounds: "2 \<le> stop_rank t" "stop_rank t \<le> 3"
  by (cases t; simp)+

lemma task_all: "(\<forall>t. P t) \<longleftrightarrow> P EscalationTask \<and> P ReconciliationTask \<and> P ReevalTask"
  by (metis task.exhaust)

lemma step_orderly:
  assumes "process_step bc cfg p p'" and "orderly p"
  shows "orderly p'"
  using assms(1)
proof cases
  case (request r)
  show ?thesis by (rule orderly_same [OF assms(2)]) (simp_all add: request answer_def split: prod.split)
next
  case (session r)
  show ?thesis by (rule orderly_same [OF assms(2)]) (simp_all add: session answer_session_def split: prod.split)
next
  case ready
  show ?thesis by (rule orderly_same [OF assms(2)]) (simp_all add: ready answer_ready_def split: prod.split)
next
  case (tick t)
  show ?thesis by (rule orderly_same [OF assms(2)]) (simp_all add: tick on_tick_def)
next
  case (loop_begins t)
  with assms(2) show ?thesis by (fastforce simp: orderly_def begin_loop_def)
next
  case (loop_ends t)
  with assms(2) show ?thesis by (fastforce simp: orderly_def loop_returns_def)
qed (use assms(2) in \<open>simp_all add: orderly_def task_all cancel_scheduler_def scheduler_stopped_def
      worker_stopped_def close_store_def\<close>)

lemma run_orderly: "process_run bc cfg p \<Longrightarrow> orderly p"
proof (induction rule: process_run.induct)
  case (booted w js a)
  show ?case by (cases "NewServer bc cfg a") (simp add: startup_def orderly_def task_all)
qed (rule step_orderly)


abbreviation process_steps :: "bcrypt \<Rightarrow> Config \<Rightarrow> process \<Rightarrow> process \<Rightarrow> bool" where
  "process_steps bc cfg \<equiv> (process_step bc cfg)\<^sup>*\<^sup>*"

lemma one_step: "process_step bc cfg p q \<Longrightarrow> process_steps bc cfg q r \<Longrightarrow> process_steps bc cfg p r"
  by (rule converse_rtranclp_into_rtranclp)

text \<open>The jobs under way can all go on to their ends.\<close>

lemma jobs_complete:
  "pr_main p = Running \<Longrightarrow> pr_store_open p \<Longrightarrow> \<exists>w'. process_steps bc cfg p (p\<lparr>pr_world := w', pr_jobs := []\<rparr>)"
proof (induction "(pr_jobs p, pr_world p)" arbitrary: p rule: wf_induct_rule [OF jobs_left(1)])
  case 1
  show ?case
  proof (cases "pr_jobs p")
    case Nil
    then have "p\<lparr>pr_world := pr_world p, pr_jobs := []\<rparr> = p" by simp
    then show ?thesis by (metis rtranclp.rtrancl_refl)
  next
    case (Cons j js)
    obtain ks w1 where r: "resume (services_of cfg) j (pr_world p) = (ks, w1)"
      by (cases "resume (services_of cfg) j (pr_world p)")
    let ?q = "p\<lparr>pr_world := w1, pr_jobs := ks @ js\<rparr>"
    have "process_step bc cfg p ?q"
      using process_step.job_goes_on [of p "[]" j js cfg ks w1 bc] "1.prems" Cons r by simp
    moreover have "\<exists>w'. process_steps bc cfg ?q (?q\<lparr>pr_world := w', pr_jobs := []\<rparr>)"
      using "1.prems" jobs_left(2) [OF r, of js] Cons by (intro "1.hyps") simp_all
    ultimately show ?thesis using one_step by fastforce
  qed
qed

lemma return_loop:
  assumes "pr_main p = Running" and "pr_jobs p = []" and "pr_cancelled p t" and "0 < interval (con_Scheduler cfg) t"
  shows "process_steps bc cfg p (loop_returns t p)"
proof (cases "pr_loop p t")
  case NotStarted
  let ?q = "begin_loop (con_Scheduler cfg) t p"
  have q: "?q = p\<lparr>pr_loop := (pr_loop p)(t := Waiting)\<rparr>" using assms(4) by (simp add: begin_loop_def)
  have "process_step bc cfg p ?q" using assms(1) NotStarted by (rule process_step.loop_begins)
  moreover have "process_step bc cfg ?q (loop_returns t ?q)"
    using assms by (intro process_step.loop_ends) (simp_all add: q idle_def)
  moreover have "loop_returns t ?q = loop_returns t p" by (simp add: q loop_returns_def)
  ultimately show ?thesis by (simp add: rtranclp.rtrancl_into_rtrancl)
next
  case Waiting
  then have "idle t p" using assms(2) by (simp add: idle_def)
  then show ?thesis using assms(1,3) by (blast intro: process_step.loop_ends)
next
  case Returned
  then have "loop_returns t p = p" by (simp add: loop_returns_def fun_upd_idem)
  then show ?thesis by simp
qed

lemma close_completes:
  assumes "pr_main p = Running" and "pr_shutdown p = ClosingStore"
  shows "process_steps bc cfg p (close_store p)"
  using process_step.closed [OF assms, of bc cfg] by blast

lemma worker_completes:
  assumes "pr_main p = Running" and "pr_jobs p = []" and "pr_shutdown p = StoppingWorker" and "pr_cancelled p ReevalTask"
    and "0 < interval (con_Scheduler cfg) ReevalTask"
  shows "process_steps bc cfg p (close_store (worker_stopped (loop_returns ReevalTask p)))"
proof -
  let ?q = "loop_returns ReevalTask p"
  have "process_step bc cfg ?q (worker_stopped ?q)"
    using assms by (intro process_step.worker_waited) (simp_all add: loop_returns_def)
  moreover have "process_steps bc cfg (worker_stopped ?q) (close_store (worker_stopped ?q))"
    using assms by (intro close_completes) (simp_all add: worker_stopped_def loop_returns_def)
  ultimately show ?thesis by (metis return_loop [OF assms(1,2,4,5)] one_step rtranclp_trans)
qed

lemma scheduler_completes:
  assumes "pr_main p = Running" and "pr_jobs p = []" and "pr_shutdown p = StoppingScheduler" and "\<forall>t. 0 < interval (con_Scheduler cfg) t"
    and "pr_cancelled p EscalationTask" "pr_cancelled p ReconciliationTask"
  shows "process_steps bc cfg p
    (close_store (worker_stopped (loop_returns ReevalTask
      (scheduler_stopped (loop_returns ReconciliationTask (loop_returns EscalationTask p))))))"
proof -
  let ?p1 = "loop_returns EscalationTask p"
  let ?p2 = "loop_returns ReconciliationTask ?p1"
  let ?q = "scheduler_stopped ?p2"
  note interval.simps [simp del]
  have "process_steps bc cfg p ?p1" using assms by (intro return_loop) simp_all
  also have "process_steps bc cfg ?p1 ?p2"
    using assms by (intro return_loop) (simp_all add: loop_returns_def)
  finally have p2: "process_steps bc cfg p ?p2" .
  have q: "process_step bc cfg ?p2 ?q"
    using assms by (intro process_step.scheduler_waited) (simp_all add: loop_returns_def)
  have "process_steps bc cfg ?q (close_store (worker_stopped (loop_returns ReevalTask ?q)))"
    using assms by (intro worker_completes) (simp_all add: loop_returns_def scheduler_stopped_def)
  with p2 q show ?thesis by (metis one_step rtranclp_trans)
qed

lemma phases_keep_main [simp]:
  "pr_main (close_store p) = pr_main p" "pr_main (worker_stopped p) = pr_main p"
  "pr_main (loop_returns t p) = pr_main p" "pr_main (scheduler_stopped p) = pr_main p"
  "pr_main (cancel_scheduler p) = pr_main p" "pr_shutdown (close_store p) = ShutDown"
  by (simp_all add: close_store_def worker_stopped_def loop_returns_def scheduler_stopped_def cancel_scheduler_def)

lemma can_complete:
  assumes "orderly p" and "pr_main p = Running" and "pr_jobs p = []" and "pr_shutdown p \<noteq> NoSignal"
    and "\<forall>t. 0 < interval (con_Scheduler cfg) t"
  shows "\<exists>q. process_steps bc cfg p q \<and> pr_main q = Running \<and> pr_shutdown q = ShutDown"
proof (cases "pr_shutdown p")
  case NoSignal
  with assms(4) show ?thesis by simp
next
  case Draining
  let ?q = "cancel_scheduler p"
  have "process_step bc cfg p ?q" using assms(2) Draining by (rule process_step.drained)
  moreover have "pr_main ?q = Running" "pr_jobs ?q = []" "pr_shutdown ?q = StoppingScheduler"
    "pr_cancelled ?q EscalationTask" "pr_cancelled ?q ReconciliationTask"
    using assms(2,3) by (simp_all add: cancel_scheduler_def)
  note scheduler_completes [OF this(1,2,3) assms(5) this(4,5), of bc]
  ultimately show ?thesis using assms(2) by (intro exI conjI) (erule (1) one_step, simp_all)
next
  case StoppingScheduler
  then have "pr_cancelled p EscalationTask" "pr_cancelled p ReconciliationTask"
    using assms(1) by (simp_all add: orderly_def task_all)
  from scheduler_completes [OF assms(2,3) StoppingScheduler assms(5) this, of bc] assms(2)
  show ?thesis by (intro exI conjI) (assumption, simp_all)
next
  case StoppingWorker
  then have "pr_cancelled p ReevalTask" using assms(1) by (simp add: orderly_def task_all)
  from worker_completes [OF assms(2,3) StoppingWorker this spec [OF assms(5)], of bc] assms(2)
  show ?thesis by (intro exI conjI) (assumption, simp_all)
next
  case ClosingStore
  from close_completes [OF assms(2) this, of bc cfg] assms(2)
  show ?thesis by (intro exI conjI) (assumption, simp_all)
next
  case ShutDown
  with assms(2) show ?thesis by blast
qed

text \<open>
  C23: A shutdown that has begun can always be completed: with positive intervals, from every
  running state after the signal, steps lead to the state in which every loop has returned and the
  store is closed. But nothing makes the process wait for that: in the same state the function
  \<open>main\<close> can return, as \<open>ListenAndServe\<close> does on the first call of \<open>Shutdown\<close>, with the loops
  and the store as they are.
\<close>

theorem shutdown_completes:
  assumes "process_run bc cfg p" and "pr_main p = Running" and "pr_shutdown p \<noteq> NoSignal"
    and "\<forall>t. 0 < interval (con_Scheduler cfg) t"
  shows "(\<exists>q. process_steps bc cfg p q \<and> pr_main q = Running \<and> pr_shutdown q = ShutDown \<and> \<not> pr_store_open q
        \<and> (\<forall>t. pr_loop q t = Returned))
     \<and> (\<exists>q. process_step bc cfg p q \<and> pr_main q = Exited \<and> pr_loop q = pr_loop p \<and> pr_store_open q = pr_store_open p)"
proof
  have "\<exists>q. process_steps bc cfg p q \<and> pr_main q = Running \<and> pr_shutdown q = ShutDown"
  proof (cases "pr_store_open p")
    case True
    obtain w' where w': "process_steps bc cfg p (p\<lparr>pr_world := w', pr_jobs := []\<rparr>)"
      using jobs_complete [OF assms(2) True] by blast
    have "orderly (p\<lparr>pr_world := w', pr_jobs := []\<rparr>)"
      by (rule orderly_same [OF run_orderly [OF assms(1)]]) simp_all
    then obtain q where "process_steps bc cfg (p\<lparr>pr_world := w', pr_jobs := []\<rparr>) q" "pr_main q = Running" "pr_shutdown q = ShutDown"
      using can_complete [OF _ _ _ _ assms(4), of "p\<lparr>pr_world := w', pr_jobs := []\<rparr>" bc] assms(2,3) by auto
    with w' show ?thesis by (blast intro: rtranclp_trans)
  next
    case False
    then have "pr_shutdown p = ShutDown" using run_orderly [OF assms(1)] by (cases "pr_shutdown p") (simp_all add: orderly_def)
    with assms(2) show ?thesis by blast
  qed
  then obtain q where q: "process_steps bc cfg p q" "pr_main q = Running" "pr_shutdown q = ShutDown" by blast
  have "process_run bc cfg q"
    using q(1) assms(1) by (induction rule: rtranclp_induct) (auto intro: process_run.stepped)
  then have "orderly q" by (rule run_orderly)
  with q show "\<exists>q. process_steps bc cfg p q \<and> pr_main q = Running \<and> pr_shutdown q = ShutDown \<and> \<not> pr_store_open q
      \<and> (\<forall>t. pr_loop q t = Returned)"
    by (intro exI [of _ q]) (simp add: orderly_def task_all)
  show "\<exists>q. process_step bc cfg p q \<and> pr_main q = Exited \<and> pr_loop q = pr_loop p \<and> pr_store_open q = pr_store_open p"
    using process_step.server_closed [OF assms(2,3), of bc cfg] by force
qed

section \<open>The whole program\<close>

text \<open>Whatever the process does, its records stay.\<close>

theorem program_keeps_records:
  assumes "process_steps bc cfg p p'"
  shows "durable (pr_world p) (pr_world p') \<and> append_only (pr_world p) (pr_world p')"
  using tables.kept_concurrent_run [OF program.runs_simulated [OF assms]]
    files.kept_concurrent_run [OF program.runs_simulated [OF assms]]
  by (simp add: on_store_def)

section \<open>Samples\<close>

definition short_config :: Config where
  "short_config = Defaults\<lparr>con_Business := \<lparr>biz_DefaultDeadline = 50, biz_EscalationDeadlineExtension = 50,
     biz_MaxEscalationLevel = 3\<rparr>\<rparr>"

lemma short_services: "services_of short_config = sample_config"
  by (simp add: services_of_def short_config_def sample_config_def Defaults_def)

definition sample_process :: "Config \<Rightarrow> schedulers \<Rightarrow> process" where
  "sample_process cfg w = startup sample_bcrypt cfg sample_store w"

lemma sample_process_starts:
  "ath_BootstrapUsers (con_Auth cfg) = [] \<Longrightarrow> pr_main (sample_process cfg w) = Running"
  "pr_loop (sample_process cfg w) t = NotStarted" "pr_world (sample_process cfg w) = restarted w"
  "pr_shutdown (sample_process cfg w) = NoSignal" "pr_store_open (sample_process cfg w)"
  "pr_jobs (sample_process cfg w) = []"
proof -
  show "ath_BootstrapUsers (con_Auth cfg) = [] \<Longrightarrow> pr_main (sample_process cfg w) = Running"
    by (simp add: sample_process_def startup_def NewServer_def Open_def load_def bootstrap_of_def bindM_def modM_def
      external_def mapErr_def getM_def retM_def sample_store_def)
qed (simp_all add: sample_process_def startup_def split: prod.split)

lemma sample_runs: "process_run sample_bcrypt cfg (sample_process cfg sample_start)"
  unfolding sample_process_def
  by (rule process_run.booted [of _ _ "[]"])
     (auto simp: reachable_concurrently_def sample_start_def intro!: exI [of _ sample_start])

theorem process_refines_system_witness:
  "\<exists>p :: process. pr_loop p ReevalTask = Waiting
     \<and> (concurrent_step sample_config any_job)\<^sup>*\<^sup>* (restarted sample_start, []) (pr_world p, pr_jobs p)"
proof -
  let ?p = "sample_process short_config sample_start"
  let ?q = "begin_loop (con_Scheduler short_config) ReevalTask ?p"
  have "process_step sample_bcrypt short_config ?p ?q"
    by (intro process_step.loop_begins) (simp_all add: sample_process_starts short_config_def Defaults_def)
  from process_refines_system [OF sample_runs this]
  have "(concurrent_step sample_config any_job)\<^sup>*\<^sup>* (restarted sample_start, []) (pr_world ?q, pr_jobs ?q)"
    by (simp add: short_services sample_process_starts)
  moreover have "pr_loop ?q ReevalTask = Waiting"
    by (simp add: begin_loop_def short_config_def Defaults_def duration_defs)
  ultimately show ?thesis by blast
qed

theorem loops_crash_iff_witness:
  "\<exists>cfg p'. Load sample_outside ''hub.yaml'' = Inr cfg
     \<and> process_steps sample_bcrypt cfg (sample_process cfg sample_start) p' \<and> pr_main p' = Crashed"
proof -
  obtain cfg where cfg: "Load sample_outside ''hub.yaml'' = Inr cfg"
    and users: "ath_BootstrapUsers (con_Auth cfg) = []" and zero: "cfg_ReevalInterval (con_Scheduler cfg) = 0"
    by (simp add: sample_overrides Defaults_def)
  have "interval (con_Scheduler cfg) ReevalTask \<le> 0" using zero by simp
  with loops_crash_iff [OF sample_process_starts(1) [OF users], of sample_bcrypt cfg sample_start] cfg
  show ?thesis using sample_process_starts(2) by blast
qed


theorem shutdown_completes_witness:
  "\<exists>p q e. pr_shutdown p = Draining \<and> process_steps sample_bcrypt Defaults p q \<and> \<not> pr_store_open q
     \<and> process_step sample_bcrypt Defaults p e \<and> pr_main e = Exited \<and> pr_store_open e \<and> pr_loop e ReevalTask \<noteq> Returned"
proof -
  let ?p = "sample_process Defaults sample_start"
  let ?d = "?p\<lparr>pr_shutdown := Draining\<rparr>"
  have main: "pr_main ?p = Running" by (rule sample_process_starts(1)) (simp add: Defaults_def)
  then have "process_step sample_bcrypt Defaults ?p ?d"
    using sample_process_starts(4) by (rule process_step.signal)
  with sample_runs have run: "process_run sample_bcrypt Defaults ?d" by (rule process_run.stepped)
  have d: "pr_main ?d = Running" "pr_shutdown ?d \<noteq> NoSignal" using main by simp_all
  have iv: "\<forall>t. 0 < interval (con_Scheduler Defaults) t"
    by (simp add: task_all Defaults_def duration_defs)
  from shutdown_completes [OF run d iv] obtain q e where
    "process_steps sample_bcrypt Defaults ?d q" "\<not> pr_store_open q"
    "process_step sample_bcrypt Defaults ?d e" "pr_main e = Exited" "pr_loop e = pr_loop ?d" "pr_store_open e = pr_store_open ?d"
    by blast
  then show ?thesis
    by (intro exI [of _ ?d] exI [of _ q] exI [of _ e]) (simp add: sample_process_starts)
qed

end
