(* ===== verification/Escalation_Facts.thy ===== *)
theory Escalation_Facts
  imports Escalation_Service Case_Facts
begin

text \<open>
  What an escalation leaves behind, and how far a round of escalations comes.
\<close>

section \<open>One escalation\<close>

definition escalation_recorded :: "EscalationService \<Rightarrow> time \<Rightarrow> item \<Rightarrow> time Escalation \<Rightarrow> index \<Rightarrow> index \<Rightarrow> bool" where
  \<comment> \<open>the row, the new referral in place of the current one, the escalation, and the audit entry\<close>
  "escalation_recorded s now i esc ix ix' \<longleftrightarrow> (let i' = escalated_case s now i in
     esc_ItemID esc = case_ID i \<and> esc_FromLevel esc = case_EscalationLevel i \<and> esc_ToLevel esc = case_EscalationLevel i + 1
     \<and> esc_OldLeadDept esc = case_LeadDepartment i \<and> esc_NewLeadDept esc = case_LeadDepartment i'
     \<and> esc_EscalatedAt esc = now \<and> esc_NewDeadline esc = case_Deadline i'
     \<and> (\<exists>a d. ref_ItemID a = case_ID i \<and> ref_IsCurrent a \<and> agrees (row_of_item i') a
          \<and> aud_EntityID d = case_ID i \<and> aud_Action d = ActionEscalate
          \<and> ix' = ix\<lparr>tab_items := update_where (\<lambda>r. case_ID r = case_ID i) (set_item i') (tab_items ix),
              tab_assignments := tab_assignments (supersede_assignments (case_ID i) ix) @ [a],
              tab_escalations := tab_escalations ix @ [row_of_escalation esc],
              tab_audit_entries := tab_audit_entries ix @ [d]\<rparr>))"

lemma escalateItem_recorded:
  assumes run: "escalateItem s i now w = (Inr esc, w')"
    and "0 \<le> case_EscalationLevel i" "case_EscalationLevel i < es_maxLevel s" "int64 (es_maxLevel s)"
  shows "may_move StatusEscalated i \<and> escalation_recorded s now i esc (db_index w) (db_index w')"
proof -
  let ?lead = "EscalationDepartmentName (case_LeadDepartment i) (case_EscalationLevel i + 1)"
  let ?esc = "escalation_of i (rt_uuid w (rt_ids w)) (case_EscalationLevel i + 1) ?lead now (Add now (es_deadlineExtension s))"
  let ?ref = "escalation_referral i (rt_uuid w (Suc (rt_ids w))) ?lead now"
  from escalateItem_tx [OF assms] have move: "may_move StatusEscalated i"
    and tx: "WithTx (escalate_tx (escalated_case s now i) ?esc ?ref now) (w\<lparr>rt_ids := Suc (Suc (rt_ids w))\<rparr>) = (Inr esc, w')"
    by (auto simp: may_move_def)
  from WithTx_InrD [OF tx] obtain w2 w3 :: "'a world_scheme" where w2: "db_index w2 = db_index w"
    and run2: "escalate_tx (escalated_case s now i) ?esc ?ref now w2 = (Inr esc, w3)" and w3: "db_index w' = db_index w3"
    by auto
  from run2 have "escalation_recorded s now i esc (db_index w2) (db_index w3)"
  proof (rule escalate_tx_effect)
    fix a d ix0 ix1
    assume e: "\<exists>p. esc = ?esc\<lparr>esc_ShardPath := p\<rparr>" and "put_escalation (row_of_escalation esc) (db_index w2) = Inr ((), ix0)"
      and a: "\<exists>p. a = ?ref\<lparr>ref_ShardPath := p\<rparr>"
      and "put_assignment (row_of_referral a) (supersede_assignments (case_ID (escalated_case s now i)) ix0) = Inr ((), ix1)"
      and d: "aud_EntityID d = case_ID (escalated_case s now i) \<and> aud_Action d = ActionEscalate"
      and "put_audit d (update_item (escalated_case s now i) ix1) = Inr ((), db_index w3)"
    then have "db_index w3 = (db_index w2)\<lparr>
        tab_items := update_where (\<lambda>r. case_ID r = case_ID i) (set_item (escalated_case s now i)) (tab_items (db_index w2)),
        tab_assignments := tab_assignments (supersede_assignments (case_ID i) (db_index w2)) @ [row_of_referral a],
        tab_escalations := tab_escalations (db_index w2) @ [row_of_escalation esc],
        tab_audit_entries := tab_audit_entries (db_index w2) @ [d]\<rparr>"
      by (simp add: put_Inr update_item_def supersede_assignments_def escalated_case_def)
    moreover have "ref_ItemID (row_of_referral a) = case_ID i \<and> ref_IsCurrent (row_of_referral a)
        \<and> agrees (row_of_item (escalated_case s now i)) (row_of_referral a)"
      using a by (auto simp: escalation_referral_def escalated_case_def agrees_def)
    moreover have "esc_ItemID esc = case_ID i \<and> esc_FromLevel esc = case_EscalationLevel i
        \<and> esc_ToLevel esc = case_EscalationLevel i + 1 \<and> esc_OldLeadDept esc = case_LeadDepartment i
        \<and> esc_NewLeadDept esc = case_LeadDepartment (escalated_case s now i) \<and> esc_EscalatedAt esc = now
        \<and> esc_NewDeadline esc = case_Deadline (escalated_case s now i)"
      using e by (auto simp: escalation_of_def escalated_case_def)
    moreover have "aud_EntityID d = case_ID i \<and> aud_Action d = ActionEscalate"
      using d by (simp add: escalated_case_def)
    ultimately show "escalation_recorded s now i esc (db_index w2) (db_index w3)"
      unfolding escalation_recorded_def Let_def by (elim conjE) (intro conjI exI)
  qed
  with move w2 w3 show ?thesis by simp
qed

lemma escalateItem_append_only: "keeps append_only (escalateItem s i now)"
  unfolding escalateItem_def escalate_tx_def NewEntry_def Let_def by (intro append_only_all)

text \<open>
  C12: The outcome of an escalation. In a reachable state, for a case that is read from the index
  and below the highest level, it either fails and the index is what it was (lines that it has appended
  to a shard stay there); or the case could move
  to escalated, and in one step its row gets the next level, the supervisor of its department, the
  new deadline and the new status, its current referral is replaced by one that agrees with the
  row, and one escalation and one audit entry are added that say so. In both cases every line of a shard
  stays as it is.
\<close>

theorem escalateItem_outcome:
  assumes "sound_index (db_index w)" and "read_from (db_index w) i"
    and "case_EscalationLevel i < es_maxLevel s" and "int64 (es_maxLevel s)"
  shows "(case escalateItem s i now w of
      (Inl e, w') \<Rightarrow> db_index w' = db_index w
    | (Inr esc, w') \<Rightarrow> may_move StatusEscalated i \<and> escalation_recorded s now i esc (db_index w) (db_index w'))
    \<and> append_only w (snd (escalateItem s i now w))"
proof -
  have "0 \<le> case_EscalationLevel i"
    using assms(1,2) level_of_row scanItem_fields by (force simp: read_from_def)
  then show ?thesis
    using escalateItem_Inl [of s i now w] escalateItem_recorded [of s i now w, OF _ _ assms(3,4)]
      keepsD [OF escalateItem_append_only [of s i now] prod.collapse [symmetric], of w]
    by (cases "escalateItem s i now w"; cases "fst (escalateItem s i now w)") simp_all
qed

section \<open>A round of escalations\<close>

definition due :: "EscalationService \<Rightarrow> index \<Rightarrow> item list \<Rightarrow> bool" where
  "due s ix items \<longleftrightarrow> distinct (map case_ID items)
     \<and> (\<forall>i \<in> set items. read_from ix i \<and> case_EscalationLevel i < es_maxLevel s)"

definition same_rows :: "item list \<Rightarrow> index \<Rightarrow> index \<Rightarrow> bool" where
  "same_rows items ix ix' \<longleftrightarrow> (\<forall>j \<in> set items. find_key case_ID (case_ID j) (tab_items ix') = find_key case_ID (case_ID j) (tab_items ix))"

lemma escalateItem_rest:
  assumes "escalateItem s i now w = (r, w1)" and "sound_index (db_index w)" and "due s (db_index w) (i # items)"
    and "int64 (es_maxLevel s)" and "tab_items (db_index w2) = tab_items (db_index w1)"
  shows "due s (db_index w2) items \<and> same_rows items (db_index w) (db_index w2)"
proof -
  have other: "case_ID j \<noteq> case_ID i" if "j \<in> set items" for j
    using assms(3) that by (metis due_def distinct.simps(2) image_eqI list.set_map list.simps(9))
  have "find_key case_ID k (tab_items (db_index w2)) = find_key case_ID k (tab_items (db_index w))" if "k \<noteq> case_ID i" for k
    using escalateItem_good [OF assms(1) _ assms(2) _ assms(4)] assms(3,5) that by (simp add: due_def)
  with other assms(3) show ?thesis by (simp add: due_def same_rows_def read_from_def)
qed

lemma escalateItem_stuck:
  assumes "\<not> may_move StatusEscalated i" and "int64 (es_maxLevel s)" and "case_EscalationLevel i < es_maxLevel s"
    and "0 \<le> case_EscalationLevel i"
  shows "\<exists>t w'. escalateItem s i now w = (Inl (Detail ErrInvalidTransition t), w') \<and> db_index w' = db_index w"
proof -
  have wrap: "wrap64 (case_EscalationLevel i + 1) = case_EscalationLevel i + 1"
    using assms(2-4) by (intro wrap64_id) (simp add: int64_def)
  obtain r w' where run: "escalateItem s i now w = (r, w')" by (cases "escalateItem s i now w")
  then have "\<exists>t. r = Inl (Detail ErrInvalidTransition t)"
    using assms(1,3) by (auto simp: escalateItem_def wrap Let_def bindM_liftE may_move_def TransitionTo_Inr_iff
        split: sum.split_asm dest: TransitionTo_Inl)
  with run escalateItem_Inl show ?thesis by blast
qed

lemma escalate_all_stuck:
  assumes "escalate_all s now (before @ x # rest) done w = (r, w')"
    and "sound_index (db_index w)" and "due s (db_index w) (before @ x # rest)" and "int64 (es_maxLevel s)"
    and "\<not> may_move StatusEscalated x"
  shows "(\<exists>escs e. r = Inr (escs, Some e)) \<and> same_rows (x # rest) (db_index w) (db_index w')"
  using assms(1-3)
proof (induction before arbitrary: "done" w)
  case Nil
  then have "0 \<le> case_EscalationLevel x" "case_EscalationLevel x < es_maxLevel s"
    using level_of_row scanItem_fields by (force simp: due_def read_from_def)+
  then obtain t w1 where "escalateItem s x now w = (Inl (Detail ErrInvalidTransition t), w1)" "db_index w1 = db_index w"
    using escalateItem_stuck [OF assms(5,4)] by blast
  with Nil(1) show ?case by (simp add: bindM_def tryM_def retM_def same_rows_def) auto
next
  case (Cons i before)
  let ?w1 = "snd (escalateItem s i now w)"
  note i = prod.collapse [of "escalateItem s i now w", symmetric]
  note kept = escalateItem_rest [OF i Cons.prems(2) Cons.prems(3) [simplified] assms(4)]
  have sound: "sound_index (db_index ?w1)"
    using escalateItem_good [OF i _ Cons.prems(2) _ assms(4)] Cons.prems(3) by (simp add: due_def)
  from Cons.prems(1) [simplified append_Cons] show ?case
  proof (cases rule: escalate_all_step)
    case (goes_on d w2)
    from goes_on(2) sound have "sound_index (db_index w2)" by (simp add: good_step_def)
    with kept [OF goes_on(3)] Cons.IH [OF goes_on(1)] show ?thesis by (auto simp: same_rows_def)
  next
    case (ends escs e)
    with kept [OF ends(3)] show ?thesis by (simp add: same_rows_def)
  qed
qed

text \<open>
  C13: A case that cannot be escalated ends the round. If among the overdue cases, in the order of
  their deadlines, there is one whose status does not allow the escalation - a case that was
  returned for correction is such a case - then the round ends with an error, and neither this case
  nor any behind it is touched. The next round meets the same case again.
\<close>

theorem escalation_round_stops:
  assumes "sound_index (db_index w)" and "int64 (es_maxLevel s)"
    and "FindOverdueItems (rt_clock w (rt_ticks w)) (es_maxLevel s) (w\<lparr>rt_ticks := Suc (rt_ticks w)\<rparr>)
      = (Inr (before @ x # rest), w1)"
    and "\<not> may_move StatusEscalated x"
  shows "\<exists>escs e w'. CheckAndEscalate s w = (Inr (escs, Some e), w') \<and> same_rows (x # rest) (db_index w) (db_index w')"
proof -
  let ?w = "w\<lparr>rt_ticks := Suc (rt_ticks w)\<rparr>"
  have "wf_index (db_index ?w)" using assms(1) by (simp add: sound_index_def)
  from FindOverdueItems_Inr [OF assms(3) this] have w1: "db_index w1 = db_index w" "due s (db_index w1) (before @ x # rest)"
    by (auto simp: due_def)
  from w1(1) assms(1) have "sound_index (db_index w1)" by simp
  moreover obtain r w' where run: "escalate_all s (rt_clock w (rt_ticks w)) (before @ x # rest) [] w1 = (r, w')"
    by (cases "escalate_all s (rt_clock w (rt_ticks w)) (before @ x # rest) [] w1")
  ultimately have "(\<exists>escs e. r = Inr (escs, Some e)) \<and> same_rows (x # rest) (db_index w1) (db_index w')"
    using escalate_all_stuck [OF run _ w1(2) assms(2,4)] by simp
  moreover have "CheckAndEscalate s w = (r, w')"
    using run assms(3) by (simp add: CheckAndEscalate_def bindM_def [of "tryM _"] tryM_def)
  ultimately show ?thesis using w1(1) by auto
qed

section \<open>A case that is overdue\<close>

definition sample_late :: "ItemStatus \<Rightarrow> item" where
  "sample_late s = sample_case\<lparr>case_Status := s, case_LeadDepartment := ''market'', case_RuleVersion := 1\<rparr>"

definition sample_due :: "ItemStatus \<Rightarrow> world" where
  "sample_due s = sample_world\<lparr>rt_uuid := (\<lambda>n. ''u'' @ show_nat n), db_index := empty_index\<lparr>
     tab_items := [row_of_item (sample_late s)],
     tab_assignments := [\<lparr>ref_ID = ''r1'', ref_ItemID = ''i1'', ref_LeadDepartment = ''market'', ref_CoDepartments = [],
       ref_RuleVersion = 1, ref_AdjudicatedAt = '''', ref_AdjudicatedBy = '''', ref_IsCurrent = True, ref_ShardPath = '''',
       ref_DataVersion = 2\<rparr>]\<rparr>\<rparr>"

definition sample_service :: EscalationService where
  "sample_service = \<lparr>es_deadlineExtension = 50, es_maxLevel = 3\<rparr>"

lemma sample_service_level [simp]: "int64 (es_maxLevel sample_service)" "es_maxLevel sample_service = 3"
  "es_deadlineExtension sample_service = 50"
  by (simp_all add: sample_service_def int64_def)

lemma sample_late_row: "scanItem (row_of_item (sample_late s)) = Inr (sample_late s)"
  by (rule item_codec.scan_enc) (simp add: sample_late_def item_ok_def sample_case_def opt_time_ok_def time_ok_def)

lemma sample_late_fields [simp]: "case_ID (sample_late s) = ''i1''" "case_EscalationLevel (sample_late s) = 0"
  "case_Status (sample_late s) = s"
  by (simp_all add: sample_late_def sample_case_def)

lemma sample_due_sound: "stored_status s \<Longrightarrow> sound_index (db_index (sample_due s))"
  by (simp add: sound_index_def wf_index_def routed_def levelled_def sample_due_def empty_index_def current_of_def
      escalations_of_def agrees_def row_of_item_def sample_late_def sample_case_def)

lemma sample_due_read: "read_from (db_index (sample_due s)) (sample_late s)"
  by (simp add: read_from_def sample_due_def find_key_def sample_late_row)

lemma sample_overdue:
  "live_status s \<Longrightarrow> FindOverdueItems 100 3 (sample_due s\<lparr>rt_ticks := n\<rparr>) = (Inr [sample_late s], sample_due s\<lparr>rt_ticks := n\<rparr>)"
proof -
  assume live: "live_status s"
  have "formatTime 20 = ''0001-01-01T00:00:00.00000002Z''" "formatTime 100 = ''0001-01-01T00:00:00.0000001Z''"
    by (simp_all add: formatTime_def IsZero_def time_eval)
  moreover have "''0001-01-01T00:00:00.00000002Z'' < ''0001-01-01T00:00:00.0000001Z''" by code_simp
  ultimately have "case_Deadline (row_of_item (sample_late s)) < formatTime 100"
    by (simp add: row_of_item_def sample_late_def sample_case_def)
  then show ?thesis using live
    by (simp add: FindOverdueItems_def overdue_items_def query_rows_def bindM_def mapErr_def external_def getM_def liftE_def retM_def
        sample_due_def sample_world_def sample_late_row)
qed

theorem escalation_round_stops_witness:
  "\<exists>escs e w'. CheckAndEscalate sample_service (sample_due StatusReturned) = (Inr (escs, Some e), w')"
proof -
  have late: "live_status StatusReturned" by (simp add: live_status_def)
  let ?w = "sample_due StatusReturned"
  have "rt_clock ?w (rt_ticks ?w) = 100" "rt_ticks ?w = 0" by (simp_all add: sample_due_def sample_world_def)
  then have due: "FindOverdueItems (rt_clock ?w (rt_ticks ?w)) (es_maxLevel sample_service) (?w\<lparr>rt_ticks := Suc (rt_ticks ?w)\<rparr>)
      = (Inr ([] @ sample_late StatusReturned # []), ?w\<lparr>rt_ticks := Suc 0\<rparr>)"
    using sample_overdue [OF late, of "Suc 0"] by simp
  have "sound_index (db_index ?w)" by (rule sample_due_sound) (simp add: stored_status_def)
  moreover have "\<not> may_move StatusEscalated (sample_late StatusReturned)" by (simp add: may_move_def CanTransition_def)
  ultimately show ?thesis
    using escalation_round_stops [OF _ sample_service_level(1) due] by blast
qed

lemma sample_escalates:
  "succeeds (escalateItem sample_service (sample_late StatusAdjudicated) 100) (\<lambda>esc w'. True) (sample_due StatusAdjudicated)"
proof -
  have ok: "writable (ItemEntry (sample_late StatusAdjudicated\<lparr>case_LeadDepartment := l, case_EscalationLevel := 1,
      case_Deadline := 150, case_Status := StatusEscalated, case_UpdatedAt := 100\<rparr>))" for l
    by (simp add: writable_def sample_late_def sample_case_def time_ok_def)
  show ?thesis
    unfolding escalateItem_def
    by (simp add: wrap64_id int64_def Let_def succeeds_seq TransitionTo_def ValidateTransition_def CanTransition_def)
       (intro succeeds_WithTx, simp add: sample_due_def sample_world_def,
        auto simp: escalate_tx_def succeeds_seq NewEntry_def MarkAssignmentSuperseded_def succeeds_exec
          ok update_item_def escalation_of_def escalation_referral_def time_ok_def Add_def
          sample_due_def sample_world_def empty_index_def supersede_assignments_def update_where_def
          intro!: succeeds_SaveEscalation succeeds_SaveAssignment succeeds_UpdateItem succeeds_SaveAudit)
qed

theorem escalateItem_outcome_witness:
  "\<exists>esc w'. escalateItem sample_service (sample_late StatusAdjudicated) 100 (sample_due StatusAdjudicated) = (Inr esc, w')
     \<and> escalation_recorded sample_service 100 (sample_late StatusAdjudicated) esc
         (db_index (sample_due StatusAdjudicated)) (db_index w')"
proof -
  obtain esc w' where run: "escalateItem sample_service (sample_late StatusAdjudicated) 100 (sample_due StatusAdjudicated) = (Inr esc, w')"
    using sample_escalates by (auto simp: succeeds_def)
  have "sound_index (db_index (sample_due StatusAdjudicated))" by (rule sample_due_sound) (simp add: stored_status_def)
  from escalateItem_outcome [OF this sample_due_read _ sample_service_level(1), of 100] run show ?thesis by simp
qed

end
