(* ===== verification/Sql.thy ===== *)
theory Sql
  imports Shard
begin

text \<open>
  SQLite (the package database/sql with its driver), as far as the program uses it: the statements
  that make tables, and those that write and read rows. A table is its columns and its rows, and a
  row gives each column a value, in the order of the columns. The statements are data here, so
  that the texts in migrations/ and in the package internal/index can be written down and run.
  A value that does not have the type of its column, which SQLite would convert, is an error.
\<close>

section \<open>Values\<close>

datatype sql_value = Null | Integer int | Text string

fun value_below :: "sql_value \<Rightarrow> sql_value \<Rightarrow> bool" where
  \<comment> \<open>first NULL, then numbers, then texts, which are compared byte by byte\<close>
  "value_below Null v = (v \<noteq> Null)"
| "value_below (Integer a) (Integer b) = (a < b)"
| "value_below (Integer a) (Text s) = True"
| "value_below (Text s) (Text t) = (s < t)"
| "value_below v w = False"

instantiation sql_value :: linorder
begin

definition less_sql_value where "v < w = value_below v w"

definition less_eq_sql_value where "v \<le> w = (value_below v w \<or> v = (w :: sql_value))"

instance
proof
  fix u v w :: sql_value
  note value_orders = less_sql_value_def less_eq_sql_value_def
  show "(v < w) = (v \<le> w \<and> \<not> w \<le> v)" by (cases v; cases w) (auto simp: value_orders)
  show "v \<le> v" by (simp add: value_orders)
  show "u \<le> v \<Longrightarrow> v \<le> w \<Longrightarrow> u \<le> w" by (cases u; cases v; cases w) (auto simp: value_orders)
  show "v \<le> w \<Longrightarrow> w \<le> v \<Longrightarrow> v = w" by (cases v; cases w) (auto simp: value_orders)
  show "v \<le> w \<or> w \<le> v" by (cases v; cases w) (auto simp: value_orders)
qed

end

lemma value_less [simp]:
  "Integer a < Integer b \<longleftrightarrow> a < b" "Text s < Text t \<longleftrightarrow> s < t"
  by (simp_all add: less_sql_value_def)

lemma value_less_eq [simp]:
  "Integer a \<le> Integer b \<longleftrightarrow> a \<le> b" "Text s \<le> Text t \<longleftrightarrow> s \<le> t"
  by (auto simp: less_eq_sql_value_def)

section \<open>Tables\<close>

datatype sql_type = INTEGER | TEXT

record column =
  col_Name :: string
  col_Type :: sql_type
  col_Unique :: bool \<comment> \<open>\<open>UNIQUE\<close> or \<open>PRIMARY KEY\<close>\<close>
  col_NotNull :: bool
  col_Default :: sql_value

type_synonym sql_row = "(string \<times> sql_value) list"

record table =
  tb_Name :: string
  tb_Columns :: "column list"
  tb_Rows :: "sql_row list"

record database =
  dat_Tables :: "table list"
  dat_Indexes :: "string list"

abbreviation column_names :: "table \<Rightarrow> string set" where
  "column_names t \<equiv> col_Name ` set (tb_Columns t)"

definition cell :: "sql_row \<Rightarrow> string \<Rightarrow> sql_value" where
  "cell row c = (case map_of row c of None \<Rightarrow> Null | Some v \<Rightarrow> v)"

definition with_table :: "string \<Rightarrow> (table \<Rightarrow> err + 'r \<times> table) \<Rightarrow> database \<Rightarrow> err + 'r \<times> database" where
  \<comment> \<open>work on one table, if it is there\<close>
  "with_table t f d = (case find_key tb_Name t (dat_Tables d) of
      None \<Rightarrow> Inl (ErrExternal (''no such table: '' @ t))
    | Some x \<Rightarrow> bindE (f x) (\<lambda>(r, x'). Inr (r, d\<lparr>dat_Tables := update_where (\<lambda>y. tb_Name y = t) (\<lambda>_. x') (dat_Tables d)\<rparr>)))"

definition known_columns :: "table \<Rightarrow> string list \<Rightarrow> err option" where
  "known_columns t cs = map_option (\<lambda>c. ErrExternal (''no such column: '' @ c)) (find (\<lambda>c. c \<notin> column_names t) cs)"

section \<open>Making tables\<close>

datatype ddl =
    CreateTable string "column list" \<comment> \<open>\<open>IF NOT EXISTS\<close>\<close>
  | CreateIndex string string string \<comment> \<open>\<open>IF NOT EXISTS\<close>; the index, its table, its column\<close>
  | AddColumn string column

definition add_column :: "column \<Rightarrow> table \<Rightarrow> err + unit \<times> table" where
  \<comment> \<open>the rows that are there get the default\<close>
  "add_column c t =
     (if col_Name c \<in> column_names t then Inl (ErrExternal (''duplicate column name: '' @ col_Name c))
      else if col_Unique c then Inl (ErrExternal ''Cannot add a UNIQUE column'')
      else if col_NotNull c \<and> col_Default c = Null then
        Inl (ErrExternal ''Cannot add a NOT NULL column with default value NULL'')
      else Inr ((), t\<lparr>tb_Columns := tb_Columns t @ [c],
        tb_Rows := map (\<lambda>row. row @ [(col_Name c, col_Default c)]) (tb_Rows t)\<rparr>))"

fun exec_ddl :: "ddl \<Rightarrow> database \<Rightarrow> err + unit \<times> database" where
  "exec_ddl (CreateTable t cols) d =
     (if t \<in> tb_Name ` set (dat_Tables d) then Inr ((), d)
      else Inr ((), d\<lparr>dat_Tables := dat_Tables d @ [\<lparr>tb_Name = t, tb_Columns = cols, tb_Rows = []\<rparr>]\<rparr>))"
| "exec_ddl (CreateIndex n t c) d =
     (if n \<in> set (dat_Indexes d) then Inr ((), d)
      else bindE (with_table t (\<lambda>x. case known_columns x [c] of Some e \<Rightarrow> Inl e | None \<Rightarrow> Inr ((), x)) d)
        (\<lambda>(_, d'). Inr ((), d'\<lparr>dat_Indexes := dat_Indexes d' @ [n]\<rparr>)))"
| "exec_ddl (AddColumn t c) d = with_table t (add_column c) d"

fun exec_script :: "ddl list \<Rightarrow> database \<Rightarrow> err + unit \<times> database" where
  "exec_script [] d = Inr ((), d)"
| "exec_script (s # ss) d = bindE (exec_ddl s d) (\<lambda>(_, d'). exec_script ss d')"

section \<open>Conditions\<close>

datatype predicate =
    Equals string sql_value
  | NotIn string "sql_value list"
  | Below string sql_value
  | Above string sql_value
  | AtMost string sql_value
  | AtLeast string sql_value
  | IsNull string
  | Or predicate predicate

fun holds :: "sql_row \<Rightarrow> predicate \<Rightarrow> bool" where
  \<comment> \<open>a comparison with NULL is unknown, and a row is selected when its condition is true\<close>
  "holds row (Equals c v) = (cell row c \<noteq> Null \<and> v \<noteq> Null \<and> cell row c = v)"
| "holds row (NotIn c vs) = (cell row c \<noteq> Null \<and> Null \<notin> set vs \<and> cell row c \<notin> set vs)"
| "holds row (Below c v) = (cell row c \<noteq> Null \<and> v \<noteq> Null \<and> cell row c < v)"
| "holds row (Above c v) = (cell row c \<noteq> Null \<and> v \<noteq> Null \<and> cell row c > v)"
| "holds row (AtMost c v) = (cell row c \<noteq> Null \<and> v \<noteq> Null \<and> cell row c \<le> v)"
| "holds row (AtLeast c v) = (cell row c \<noteq> Null \<and> v \<noteq> Null \<and> cell row c \<ge> v)"
| "holds row (IsNull c) = (cell row c = Null)"
| "holds row (Or p q) = (holds row p \<or> holds row q)"

fun columns_of :: "predicate \<Rightarrow> string list" where
  "columns_of (Equals c v) = [c]"
| "columns_of (NotIn c vs) = [c]"
| "columns_of (Below c v) = [c]"
| "columns_of (Above c v) = [c]"
| "columns_of (AtMost c v) = [c]"
| "columns_of (AtLeast c v) = [c]"
| "columns_of (IsNull c) = [c]"
| "columns_of (Or p q) = columns_of p @ columns_of q"

definition selected :: "predicate list \<Rightarrow> sql_row \<Rightarrow> bool" where
  \<comment> \<open>the conditions of a WHERE, joined by AND\<close>
  "selected ps row = list_all (holds row) ps"

section \<open>Writing rows\<close>

datatype statement =
    InsertInto string "string list" "sql_value list"
  | Upsert string "string list" "sql_value list" string "string list"
      \<comment> \<open>\<open>ON CONFLICT(c) DO UPDATE SET\<close> each of the columns to its \<open>excluded\<close> value\<close>
  | UpdateSet string "(string \<times> sql_value) list" "predicate list"
  | DeleteFrom string

definition fits :: "column \<Rightarrow> sql_value \<Rightarrow> bool" where
  "fits c v = (case v of Null \<Rightarrow> True | Integer n \<Rightarrow> col_Type c = INTEGER | Text s \<Rightarrow> col_Type c = TEXT)"

definition bad_value :: "table \<Rightarrow> column \<Rightarrow> sql_value \<Rightarrow> err option" where
  "bad_value t c v =
     (if col_NotNull c \<and> v = Null then
        Some (ErrExternal (''constraint failed: NOT NULL constraint failed: '' @ tb_Name t @ ''.'' @ col_Name c))
      else if \<not> fits c v then Some (ErrExternal (''datatype mismatch: '' @ tb_Name t @ ''.'' @ col_Name c))
      else None)"

definition taken :: "table \<Rightarrow> sql_row \<Rightarrow> column \<Rightarrow> bool" where
  "taken t row c = (col_Unique c \<and> cell row (col_Name c) \<noteq> Null
     \<and> cell row (col_Name c) \<in> (\<lambda>r. cell r (col_Name c)) ` set (tb_Rows t))"

definition complete_row :: "column list \<Rightarrow> (string \<times> sql_value) list \<Rightarrow> sql_row" where
  \<comment> \<open>the values that are given, and the defaults of the other columns\<close>
  "complete_row cols vals =
     map (\<lambda>c. (col_Name c, case map_of vals (col_Name c) of None \<Rightarrow> col_Default c | Some v \<Rightarrow> v)) cols"

definition first_bad :: "table \<Rightarrow> sql_row \<Rightarrow> err option" where
  "first_bad t row = (case List.map_filter (\<lambda>c. bad_value t c (cell row (col_Name c))) (tb_Columns t) of
      [] \<Rightarrow> None | e # es \<Rightarrow> Some e)"

definition insert_values :: "string list \<Rightarrow> sql_value list \<Rightarrow> table \<Rightarrow> err + nat \<times> table" where
  "insert_values cs vs t =
     (if length vs \<noteq> length cs then Inl (ErrExternal ''wrong number of values'')
      else case known_columns t cs of Some e \<Rightarrow> Inl e | None \<Rightarrow>
      let row = complete_row (tb_Columns t) (zip cs vs) in
      case first_bad t row of Some e \<Rightarrow> Inl e | None \<Rightarrow>
      case find (taken t row) (tb_Columns t) of
        Some c \<Rightarrow> Inl (unique_violation (tb_Name t @ ''.'' @ col_Name c))
      | None \<Rightarrow> Inr (1, t\<lparr>tb_Rows := tb_Rows t @ [row]\<rparr>))"

definition set_cells :: "(string \<times> sql_value) list \<Rightarrow> sql_row \<Rightarrow> sql_row" where
  "set_cells sets row = map (\<lambda>(c, v). (c, case map_of sets c of None \<Rightarrow> v | Some v' \<Rightarrow> v')) row"

definition update_rows :: "(string \<times> sql_value) list \<Rightarrow> predicate list \<Rightarrow> table \<Rightarrow> err + nat \<times> table" where
  "update_rows sets ps t =
     (case known_columns t (map fst sets @ concat (map columns_of ps)) of Some e \<Rightarrow> Inl e | None \<Rightarrow>
      let rows = update_where (selected ps) (set_cells sets) (tb_Rows t);
          hit = filter (selected ps) (tb_Rows t);
          bad = find (\<lambda>row. first_bad t row \<noteq> None) (map (set_cells sets) hit);
          clash = find (\<lambda>c. col_Unique c \<and> col_Name c \<in> fst ` set sets
            \<and> \<not> distinct (filter (\<lambda>v. v \<noteq> Null) (map (\<lambda>r. cell r (col_Name c)) rows))) (tb_Columns t)
      in case bad of Some row \<Rightarrow> Inl (the (first_bad t row)) | None \<Rightarrow>
      case clash of Some c \<Rightarrow> Inl (unique_violation (tb_Name t @ ''.'' @ col_Name c))
      | None \<Rightarrow> Inr (length hit, t\<lparr>tb_Rows := rows\<rparr>))"

definition upsert_values :: "string list \<Rightarrow> sql_value list \<Rightarrow> string \<Rightarrow> string list \<Rightarrow> table \<Rightarrow> err + nat \<times> table" where
  \<comment> \<open>a row that cannot be stored is refused before the conflict is looked at\<close>
  "upsert_values cs vs k us t =
     (let row = complete_row (tb_Columns t) (zip cs vs) in
      if length vs = length cs \<and> known_columns t cs = None \<and> first_bad t row = None
        \<and> cell row k \<in> (\<lambda>r. cell r k) ` set (tb_Rows t)
      then bindE (update_rows (map (\<lambda>c. (c, cell row c)) us) [Equals k (cell row k)] t) (\<lambda>(_, t'). Inr (1, t'))
      else insert_values cs vs t)"

fun run_statement :: "statement \<Rightarrow> database \<Rightarrow> err + nat \<times> database" where
  \<comment> \<open>the number of rows affected, and the database\<close>
  "run_statement (InsertInto t cs vs) d = with_table t (insert_values cs vs) d"
| "run_statement (Upsert t cs vs k us) d = with_table t (upsert_values cs vs k us) d"
| "run_statement (UpdateSet t sets ps) d = with_table t (update_rows sets ps) d"
| "run_statement (DeleteFrom t) d = with_table t (\<lambda>x. Inr (length (tb_Rows x), x\<lparr>tb_Rows := []\<rparr>)) d"

section \<open>Reading rows\<close>

datatype sort_term = Ascending sql_value | Descending sql_value

fun term_below :: "sort_term \<Rightarrow> sort_term \<Rightarrow> bool" where
  "term_below (Ascending v) (Ascending w) = (v < w)"
| "term_below (Descending v) (Descending w) = (v > w)"
| "term_below (Ascending v) (Descending w) = True"
| "term_below (Descending v) (Ascending w) = False"

instantiation sort_term :: linorder
begin

definition less_sort_term where "s < t = term_below s t"

definition less_eq_sort_term where "s \<le> t = (term_below s t \<or> s = (t :: sort_term))"

instance
proof
  fix s t u :: sort_term
  note term_orders = less_sort_term_def less_eq_sort_term_def
  show "(s < t) = (s \<le> t \<and> \<not> t \<le> s)" by (cases s; cases t) (auto simp: term_orders)
  show "s \<le> s" by (simp add: term_orders)
  show "s \<le> t \<Longrightarrow> t \<le> u \<Longrightarrow> s \<le> u" by (cases s; cases t; cases u) (auto simp: term_orders)
  show "s \<le> t \<Longrightarrow> t \<le> s \<Longrightarrow> s = t" by (cases s; cases t) (auto simp: term_orders)
  show "s \<le> t \<or> t \<le> s" by (cases s; cases t) (auto simp: term_orders)
qed

end

record query =
  qu_Table :: string
  qu_Columns :: "string list"
  qu_Where :: "predicate list"
  qu_Order :: "(string \<times> (sql_value \<Rightarrow> sort_term)) list"
  qu_Limit :: "(int \<times> int) option" \<comment> \<open>\<open>LIMIT\<close> and \<open>OFFSET\<close>\<close>

definition order_of :: "(string \<times> (sql_value \<Rightarrow> sort_term)) list \<Rightarrow> sql_row \<Rightarrow> sort_term list" where
  "order_of ords row = map (\<lambda>(c, direction). direction (cell row c)) ords"

definition limited :: "(int \<times> int) option \<Rightarrow> 'r list \<Rightarrow> 'r list" where
  \<comment> \<open>a negative limit is none, a negative offset is zero\<close>
  "limited l rows = (case l of None \<Rightarrow> rows
     | Some (n, k) \<Rightarrow> let rest = drop (nat k) rows in if n < 0 then rest else take (nat n) rest)"

definition the_table :: "string \<Rightarrow> database \<Rightarrow> err + table" where
  "the_table t d = (case find_key tb_Name t (dat_Tables d) of
      None \<Rightarrow> Inl (ErrExternal (''no such table: '' @ t)) | Some x \<Rightarrow> Inr x)"

definition run_query :: "query \<Rightarrow> database \<Rightarrow> err + sql_value list list" where
  "run_query q d = bindE (the_table (qu_Table q) d) (\<lambda>t.
     case known_columns t (qu_Columns q @ concat (map columns_of (qu_Where q)) @ map fst (qu_Order q)) of
       Some e \<Rightarrow> Inl e
     | None \<Rightarrow> Inr (map (\<lambda>row. map (cell row) (qu_Columns q))
         (limited (qu_Limit q) (sort_key (order_of (qu_Order q)) (filter (selected (qu_Where q)) (tb_Rows t))))))"

definition run_count :: "string \<Rightarrow> predicate list \<Rightarrow> database \<Rightarrow> err + int" where
  \<comment> \<open>\<open>SELECT COUNT(*)\<close>\<close>
  "run_count name ps d = bindE (the_table name d) (\<lambda>t.
     case known_columns t (concat (map columns_of ps)) of
       Some e \<Rightarrow> Inl e | None \<Rightarrow> Inr (int (length (filter (selected ps) (tb_Rows t)))))"

definition run_max :: "string \<Rightarrow> string \<Rightarrow> database \<Rightarrow> err + int" where
  \<comment> \<open>\<open>SELECT COALESCE(MAX(c), 0)\<close>, for a column of numbers\<close>
  "run_max name c d = bindE (the_table name d) (\<lambda>t.
     case known_columns t [c] of
       Some e \<Rightarrow> Inl e
     | None \<Rightarrow> Inr (case [n. Integer n \<leftarrow> map (\<lambda>row. cell row c) (tb_Rows t)] of [] \<Rightarrow> 0 | n # ns \<Rightarrow> fold max ns n))"

definition run_groups :: "string \<Rightarrow> string \<Rightarrow> database \<Rightarrow> err + (sql_value \<times> int) list" where
  \<comment> \<open>\<open>SELECT c, COUNT(*) ... GROUP BY c\<close>, in some order\<close>
  "run_groups name c d = bindE (the_table name d) (\<lambda>t.
     case known_columns t [c] of
       Some e \<Rightarrow> Inl e
     | None \<Rightarrow> let vs = map (\<lambda>row. cell row c) (tb_Rows t)
         in Inr (map (\<lambda>v. (v, int (length (filter (\<lambda>x. x = v) vs)))) (remdups vs)))"

end
