(* ===== verification/Slices.thy ===== *)
theory Slices
  imports Shard
begin

text \<open>
  Lists of texts in a column of the index: \<open>encodeSlice\<close> and \<open>decodeSlice\<close> of index/schema.go, with
  what \<open>json.Unmarshal\<close> makes of a text that is to be a list of strings. As everywhere, texts are
  taken to be valid UTF-8.
\<close>

section \<open>Strings of JSON\<close>

definition hex_value :: "char \<Rightarrow> nat option" where
  "hex_value c = (let n = of_char c :: nat in
     if 48 \<le> n \<and> n \<le> 57 then Some (n - 48)
     else if 97 \<le> n \<and> n \<le> 102 then Some (n - 87)
     else if 65 \<le> n \<and> n \<le> 70 then Some (n - 55) else None)"

fun hex4 :: "string \<Rightarrow> (nat \<times> string) option" where
  "hex4 (a # b # c # d # s) = (case (hex_value a, hex_value b, hex_value c, hex_value d) of
      (Some i, Some j, Some k, Some l) \<Rightarrow> Some (((i * 16 + j) * 16 + k) * 16 + l, s)
    | _ \<Rightarrow> None)"
| "hex4 s = None"

definition utf8_rune :: "nat \<Rightarrow> string" where
  "utf8_rune n = map char_of
     (if n < 128 then [n]
      else if n < 2048 then [192 + n div 64, 128 + n mod 64]
      else if n < 65536 then [224 + n div 4096, 128 + n div 64 mod 64, 128 + n mod 64]
      else [240 + n div 262144, 128 + n div 4096 mod 64, 128 + n div 64 mod 64, 128 + n mod 64])"

definition surrogate :: "nat \<Rightarrow> bool" where
  "surrogate n \<longleftrightarrow> 55296 \<le> n \<and> n < 57344"

definition unescape_u :: "string \<Rightarrow> (string \<times> string) option" where
  \<comment> \<open>after a backslash and \<open>u\<close>; a surrogate that has no partner becomes U+FFFD\<close>
  "unescape_u s = (case hex4 s of None \<Rightarrow> None
    | Some (n, r) \<Rightarrow>
       if \<not> surrogate n then Some (utf8_rune n, r)
       else (case (if take 2 r = [backslash, CHR ''u''] then hex4 (drop 2 r) else None) of
           Some (m, r') \<Rightarrow>
             if n < 56320 \<and> 56320 \<le> m \<and> m < 57344 then Some (utf8_rune (65536 + (n - 55296) * 1024 + (m - 56320)), r')
             else Some (utf8_rune 65533, r)
         | None \<Rightarrow> Some (utf8_rune 65533, r)))"

definition unescape :: "string \<Rightarrow> (string \<times> string) option" where
  \<comment> \<open>the bytes that the first character or escape stands for, and what follows it\<close>
  "unescape s = (case s of [] \<Rightarrow> None
    | c # r \<Rightarrow>
       if c = quote_char \<or> (of_char c :: nat) < 32 then None
       else if c \<noteq> backslash then Some ([c], r)
       else (case r of [] \<Rightarrow> None
         | e # r' \<Rightarrow>
            if e = quote_char \<or> e = backslash \<or> e = CHR ''/'' then Some ([e], r')
            else if e = CHR ''b'' then Some ([CHR 0x08], r')
            else if e = CHR ''f'' then Some ([CHR 0x0C], r')
            else if e = CHR ''n'' then Some ([CHR 0x0A], r')
            else if e = CHR ''r'' then Some ([CHR 0x0D], r')
            else if e = CHR ''t'' then Some ([CHR 0x09], r')
            else if e = CHR ''u'' then unescape_u r'
            else None))"

lemma hex4_shorter: "hex4 s = Some (n, r) \<Longrightarrow> length r < length s"
  by (cases s rule: hex4.cases) (auto split: option.splits)

lemma unescape_shorter: "unescape s = Some (bs, r) \<Longrightarrow> length r < length s"
  by (auto simp: unescape_def unescape_u_def split: list.splits if_splits option.splits dest!: hex4_shorter)

function unquote :: "string \<Rightarrow> (string \<times> string) option" where
  \<comment> \<open>after the opening quote: the string, and what follows the closing quote\<close>
  "unquote s = (case s of [] \<Rightarrow> None
    | c # r \<Rightarrow> if c = quote_char then Some ([], r)
       else (case unescape s of None \<Rightarrow> None
         | Some (bs, r') \<Rightarrow> (case unquote r' of None \<Rightarrow> None | Some (t, r'') \<Rightarrow> Some (bs @ t, r''))))"
  by pat_completeness auto
termination by (relation "measure length") (auto dest: unescape_shorter)

declare unquote.simps [simp del]

lemma unquote_end [simp]: "unquote (quote_char # r) = Some ([], r)"
  by (subst unquote.simps) simp

lemma unquote_shorter: "unquote s = Some (t, r) \<Longrightarrow> length r < length s"
proof (induction "length s" arbitrary: s t r rule: less_induct)
  case less
  then obtain c s' where s: "s = c # s'" by (cases s) (simp_all add: unquote.simps [of "[]"])
  show ?case
  proof (cases "c = quote_char")
    case False
    then obtain bs r' t' where r': "unescape s = Some (bs, r')" and t': "unquote r' = Some (t', r)"
      using less.prems by (subst (asm) unquote.simps) (auto simp: s split: option.splits)
    from less.hyps [OF unescape_shorter [OF r'] t'] unescape_shorter [OF r'] show ?thesis by simp
  qed (use less.prems in \<open>simp add: s\<close>)
qed

section \<open>Lists of strings\<close>

definition skip_space :: "string \<Rightarrow> string" where
  "skip_space s = dropWhile (\<lambda>c. c \<in> {CHR '' '', CHR 0x09, CHR 0x0A, CHR 0x0D}) s"

definition list_element :: "string \<Rightarrow> (string \<times> string) option" where
  \<comment> \<open>a string; \<open>null\<close> leaves the empty string\<close>
  "list_element s = (case s of [] \<Rightarrow> None
    | c # r \<Rightarrow> if c = quote_char then unquote r
       else if take 4 s = ''null'' then Some ([], drop 4 s) else None)"

lemma skip_space_length: "length (skip_space s) \<le> length s"
  by (simp add: skip_space_def length_dropWhile_le)

lemma list_element_shorter: "list_element s = Some (t, r) \<Longrightarrow> length r < length s"
  by (auto simp: list_element_def split: list.splits if_splits dest!: unquote_shorter)

function list_elements :: "string \<Rightarrow> (string list \<times> string) option" where
  \<comment> \<open>after the opening bracket, or a comma\<close>
  "list_elements s = (case list_element (skip_space s) of None \<Rightarrow> None
    | Some (t, r) \<Rightarrow> (case skip_space r of [] \<Rightarrow> None
       | c # r' \<Rightarrow> if c = CHR '']'' then Some ([t], r')
          else if c = CHR '','' then
            (case list_elements r' of None \<Rightarrow> None | Some (ts, r'') \<Rightarrow> Some (t # ts, r''))
          else None))"
  by pat_completeness auto
termination
proof (relation "measure length")
  fix s and x :: "string \<times> string" and t r c r'
  assume "list_element (skip_space s) = Some x" "(t, r) = x" "skip_space r = c # r'"
  then have "length r < length (skip_space s)" "length (c # r') \<le> length r"
    using skip_space_length [of r] by (auto dest: list_element_shorter)
  then show "(r', s) \<in> measure length" using skip_space_length [of s] by simp
qed simp

declare list_elements.simps [simp del]

definition unmarshal_strings :: "string \<Rightarrow> string list option" where
  "unmarshal_strings s = (case skip_space s of [] \<Rightarrow> None
    | c # r \<Rightarrow>
       if c = CHR ''['' then
         (if take 1 (skip_space r) = '']'' then (if skip_space (drop 1 (skip_space r)) = [] then Some [] else None)
          else case list_elements r of None \<Rightarrow> None
            | Some (ts, r') \<Rightarrow> if skip_space r' = [] then Some ts else None)
       else if take 4 (c # r) = ''null'' \<and> skip_space (drop 4 (c # r)) = [] then Some [] else None)"

definition encodeSlice :: "string list \<Rightarrow> string" where
  "encodeSlice s = (if s = [] then ''[]'' else json_strings s)"

definition decodeSlice :: "string \<Rightarrow> string list" where
  "decodeSlice s = (if s = '''' \<or> s = ''[]'' then [] else case unmarshal_strings s of None \<Rightarrow> [] | Some ts \<Rightarrow> ts)"

section \<open>Reading back what was written\<close>

lemma hex_value_digit: "n < 16 \<Longrightarrow> hex_value (''0123456789abcdef'' ! n) = Some n"
proof -
  have "list_all (\<lambda>n. hex_value (''0123456789abcdef'' ! n) = Some n) [0..<16]" by code_simp
  then show "n < 16 \<Longrightarrow> hex_value (''0123456789abcdef'' ! n) = Some n" by (simp add: list_all_iff)
qed

lemma char_code [simp]: "(of_char (c :: char) :: nat) < 256"
  by (metis nat_of_char_less_256)

lemma escaped_code:
  assumes "(of_char c :: nat) < 128"
  shows "unescape (backslash # ''u00'' @ [''0123456789abcdef'' ! (of_char c div 16), ''0123456789abcdef'' ! (of_char c mod 16)] @ rest)
    = Some ([c], rest)"
proof -
  let ?n = "of_char c :: nat"
  have zero: "hex_value (CHR ''0'') = Some 0" by code_simp
  have "hex4 (''00'' @ [''0123456789abcdef'' ! (?n div 16), ''0123456789abcdef'' ! (?n mod 16)] @ rest) = Some (?n, rest)"
    using assms by (simp add: hex_value_digit zero mult.commute)
  with assms show ?thesis
    by (simp add: unescape_def backslash_def quote_char_def unescape_u_def surrogate_def utf8_rune_def)
qed

lemma unescape_char: "unescape (json_char c @ rest) = Some ([c], rest)"
proof (cases "c \<in> {quote_char, backslash, CHR 0x08, CHR 0x0C, CHR 0x0A, CHR 0x0D, CHR 0x09}")
  case True
  then show ?thesis by (auto simp: json_char_def unescape_def quote_char_def backslash_def)
next
  case plain: False
  show ?thesis
  proof (cases "(of_char c :: nat) < 32 \<or> c \<in> {CHR ''<'', CHR ''>'', CHR ''&''}")
    case True
    then have "(of_char c :: nat) < 128" by auto
    from escaped_code [OF this] True plain show ?thesis by (simp add: json_char_def)
  next
    case False
    with plain show ?thesis by (simp add: json_char_def unescape_def)
  qed
qed

lemma unescape_separator:
  "unescape (backslash # ''u2028'' @ rest) = Some ([CHR 0xE2, CHR 0x80, CHR 0xA8], rest)"
  "unescape (backslash # ''u2029'' @ rest) = Some ([CHR 0xE2, CHR 0x80, CHR 0xA9], rest)"
proof -
  have d: "hex_value (CHR ''0'') = Some 0" "hex_value (CHR ''2'') = Some 2" "hex_value (CHR ''8'') = Some 8"
      "hex_value (CHR ''9'') = Some 9" by (simp_all add: hex_value_def)
  have "char_of (226 :: nat) = CHR 0xE2" "char_of (128 :: nat) = CHR 0x80" "char_of (168 :: nat) = CHR 0xA8"
      "char_of (169 :: nat) = CHR 0xA9"
    using char_of_char [of "CHR 0xE2"] char_of_char [of "CHR 0x80"] char_of_char [of "CHR 0xA8"] char_of_char [of "CHR 0xA9"]
    by simp_all
  then have "utf8_rune 8232 = [CHR 0xE2, CHR 0x80, CHR 0xA8]" "utf8_rune 8233 = [CHR 0xE2, CHR 0x80, CHR 0xA9]"
    by (simp_all add: utf8_rune_def)
  with d show "unescape (backslash # ''u2028'' @ rest) = Some ([CHR 0xE2, CHR 0x80, CHR 0xA8], rest)"
    "unescape (backslash # ''u2029'' @ rest) = Some ([CHR 0xE2, CHR 0x80, CHR 0xA9], rest)"
    by (simp_all add: unescape_def unescape_u_def surrogate_def backslash_def quote_char_def)
qed

lemma unquote_step:
  assumes "unescape s = Some (bs, r)"
  shows "unquote s = map_option (\<lambda>(t, r'). (bs @ t, r')) (unquote r)"
proof -
  obtain c s' where s: "s = c # s'" using assms by (cases s) (auto simp: unescape_def)
  with assms have "c \<noteq> quote_char" by (auto simp: unescape_def)
  then show ?thesis using assms by (subst unquote.simps) (auto simp: s split: option.split)
qed

lemma unquote_json: "unquote (json_chars s @ quote_char # rest) = Some (s, rest)"
proof (induction s rule: json_chars.induct)
  case 1
  show ?case by (simp add: unquote.simps [of "quote_char # rest"])
next
  case (2 c cs)
  consider (ls) "c = CHR 0xE2" "take 2 cs = [CHR 0x80, CHR 0xA8]" | (ps) "c = CHR 0xE2" "take 2 cs = [CHR 0x80, CHR 0xA9]"
    | (other) "\<not> (c = CHR 0xE2 \<and> (take 2 cs = [CHR 0x80, CHR 0xA8] \<or> take 2 cs = [CHR 0x80, CHR 0xA9]))" by blast
  then show ?case
  proof cases
    case ls
    have "cs = take 2 cs @ drop 2 cs" by simp
    with ls(2) obtain ds where ds: "cs = CHR 0x80 # CHR 0xA8 # ds" by (metis append_Cons append_Nil)
    with 2 ls show ?thesis by (simp add: unquote_step [OF unescape_separator(1) [unfolded append_Cons append_Nil]])
  next
    case ps
    have "cs = take 2 cs @ drop 2 cs" by simp
    with ps(2) obtain ds where ds: "cs = CHR 0x80 # CHR 0xA9 # ds" by (metis append_Cons append_Nil)
    with 2 ps show ?thesis by (simp add: unquote_step [OF unescape_separator(2) [unfolded append_Cons append_Nil]])
  next
    case other
    then have "json_chars (c # cs) = json_char c @ json_chars cs" by auto
    moreover have "unquote (json_chars cs @ quote_char # rest) = Some (cs, rest)" using 2(3) other by blast
    ultimately show ?thesis by (simp add: unquote_step [OF unescape_char])
  qed
qed

lemma skip_quote [simp]: "skip_space (quote_char # s) = quote_char # s"
  by (simp add: skip_space_def quote_char_def)

lemma elements_of_strings:
  "ss \<noteq> [] \<Longrightarrow> list_elements (json_join (map json_string ss) @ '']'' @ rest) = Some (ss, rest)"
proof (induction ss rule: json_join.induct)
  case (2 s)
  show ?case
    by (subst list_elements.simps) (simp add: json_string_def [of s] list_element_def unquote_json, simp add: skip_space_def)
next
  case (3 s t ts)
  then show ?case
    by (subst list_elements.simps) (simp add: json_string_def [of s] list_element_def unquote_json, simp add: skip_space_def)
qed simp

theorem decode_encode: "decodeSlice (encodeSlice ss) = ss"
proof (cases "ss = []")
  case False
  then obtain s ts where ss: "ss = s # ts" by (cases ss) auto
  let ?body = "json_join (map json_string ss)"
  have head: "?body = quote_char # drop 1 ?body" unfolding ss by (cases ts) (simp_all add: json_string_def)
  have "list_elements (?body @ '']'') = Some (ss, [])" using elements_of_strings [OF False, of "[]"] by simp
  moreover have "take 1 (skip_space (?body @ '']'')) \<noteq> '']''" by (subst head) (simp, simp add: quote_char_def)
  moreover have "skip_space (CHR ''['' # s') = CHR ''['' # s'" for s' by (simp add: skip_space_def)
  ultimately have "unmarshal_strings (CHR ''['' # ?body @ '']'') = Some ss"
    by (simp add: unmarshal_strings_def) (simp add: skip_space_def)
  moreover have "CHR ''['' # ?body @ '']'' \<noteq> ''[]''" by (subst head) (simp add: quote_char_def)
  ultimately show ?thesis using False by (simp add: decodeSlice_def encodeSlice_def json_strings_def)
qed (simp add: decodeSlice_def encodeSlice_def)

end
