(* ===== verification/Statements.thy ===== *)
theory Statements
  imports Sql Slices
begin

text \<open>
  The SQL of the program: the scripts in migrations/, and the statements and queries of the package
  internal/index as they are written there, with the columns they name and the values they bind.
\<close>

section \<open>The scripts\<close>

definition key_column :: "string \<Rightarrow> sql_type \<Rightarrow> column" where
  "key_column n ty = \<lparr>col_Name = n, col_Type = ty, col_Unique = True, col_NotNull = False, col_Default = Null\<rparr>"

definition nullable :: "string \<Rightarrow> sql_type \<Rightarrow> column" where
  "nullable n ty = \<lparr>col_Name = n, col_Type = ty, col_Unique = False, col_NotNull = False, col_Default = Null\<rparr>"

definition not_null :: "string \<Rightarrow> sql_type \<Rightarrow> column" where
  "not_null n ty = (nullable n ty)\<lparr>col_NotNull := True\<rparr>"

definition unique_not_null :: "string \<Rightarrow> sql_type \<Rightarrow> column" where
  "unique_not_null n ty = (not_null n ty)\<lparr>col_Unique := True\<rparr>"

definition text_default :: "string \<Rightarrow> string \<Rightarrow> column" where
  "text_default n s = (not_null n TEXT)\<lparr>col_Default := Text s\<rparr>"

definition int_default :: "string \<Rightarrow> int \<Rightarrow> column" where
  "int_default n k = (not_null n INTEGER)\<lparr>col_Default := Integer k\<rparr>"

lemmas column_defs = key_column_def nullable_def not_null_def unique_not_null_def text_default_def int_default_def

definition schema_version_columns :: "column list" where
  "schema_version_columns =
    [key_column ''version'' INTEGER, not_null ''description'' TEXT, not_null ''applied_at'' TEXT]"

definition shard_manifest_columns :: "column list" where
  "shard_manifest_columns =
    [key_column ''shard_id'' TEXT, not_null ''entity_type'' TEXT, not_null ''shard_path'' TEXT,
     not_null ''checksum'' TEXT, int_default ''record_count'' 0, nullable ''min_key'' TEXT, nullable ''max_key'' TEXT,
     not_null ''date_key'' TEXT, text_default ''status'' ''ok'', not_null ''created_at'' TEXT,
     not_null ''updated_at'' TEXT]"

definition items_columns :: "column list" where
  "items_columns =
    [key_column ''id'' TEXT, unique_not_null ''external_ref'' TEXT, not_null ''title'' TEXT,
     text_default ''description'' '''', text_default ''operator_name'' '''', text_default ''operator_contact'' '''',
     text_default ''materials'' ''[]'', text_default ''category'' '''', text_default ''keywords'' ''[]'',
     not_null ''status'' TEXT, text_default ''lead_department'' '''', text_default ''co_departments'' ''[]'',
     int_default ''rule_version'' 0, not_null ''registered_at'' TEXT, text_default ''reported_by'' '''',
     not_null ''deadline'' TEXT, int_default ''escalation_level'' 0, text_default ''store_id'' '''',
     nullable ''completed_at'' TEXT, nullable ''cancelled_at'' TEXT, text_default ''cancel_reason'' '''',
     text_default ''shard_path'' '''', int_default ''shard_offset'' 0, int_default ''data_version'' 1,
     not_null ''created_at'' TEXT, not_null ''updated_at'' TEXT]"

definition rules_columns :: "column list" where
  "rules_columns =
    [key_column ''version'' INTEGER, not_null ''name'' TEXT, text_default ''description'' '''',
     text_default ''match_keywords'' ''[]'', text_default ''match_category'' '''', not_null ''lead_department'' TEXT,
     text_default ''co_departments'' ''[]'', int_default ''priority'' 0, int_default ''is_default'' 0,
     not_null ''effective_from'' TEXT, nullable ''effective_to'' TEXT, not_null ''status'' TEXT,
     not_null ''created_at'' TEXT, text_default ''created_by'' '''', text_default ''shard_path'' '''',
     int_default ''data_version'' 1]"

definition assignments_columns :: "column list" where
  "assignments_columns =
    [key_column ''id'' TEXT, not_null ''item_id'' TEXT, not_null ''lead_department'' TEXT,
     text_default ''co_departments'' ''[]'', not_null ''rule_version'' INTEGER, not_null ''adjudicated_at'' TEXT,
     text_default ''adjudicated_by'' ''system'', int_default ''is_current'' 1, text_default ''shard_path'' '''',
     int_default ''data_version'' 1]"

definition escalations_columns :: "column list" where
  "escalations_columns =
    [key_column ''id'' TEXT, not_null ''item_id'' TEXT, not_null ''from_level'' INTEGER, not_null ''to_level'' INTEGER,
     text_default ''old_lead_dept'' '''', not_null ''new_lead_dept'' TEXT, not_null ''escalated_at'' TEXT,
     not_null ''reason'' TEXT, not_null ''new_deadline'' TEXT, text_default ''shard_path'' '''',
     int_default ''data_version'' 1]"

definition audit_entries_columns :: "column list" where
  "audit_entries_columns =
    [key_column ''id'' TEXT, not_null ''entity_id'' TEXT, not_null ''entity_type'' TEXT, not_null ''action'' TEXT,
     not_null ''actor'' TEXT, not_null ''timestamp'' TEXT, text_default ''details'' '''', text_default ''shard_path'' '''',
     int_default ''data_version'' 1]"

definition permanent_failures_columns :: "column list" where
  "permanent_failures_columns =
    [key_column ''id'' TEXT, not_null ''entity_type'' TEXT, not_null ''entity_id'' TEXT, not_null ''task_type'' TEXT,
     text_default ''last_error'' '''', int_default ''attempts'' 0, not_null ''first_failed_at'' TEXT,
     not_null ''last_failed_at'' TEXT, text_default ''status'' ''permanent_failure'', nullable ''resolved_at'' TEXT,
     int_default ''data_version'' 1]"

definition import_batches_columns :: "column list" where
  "import_batches_columns =
    [key_column ''id'' TEXT, not_null ''store_id'' TEXT, not_null ''batch_date'' TEXT, not_null ''total_rows'' INTEGER,
     not_null ''success_count'' INTEGER, not_null ''failure_count'' INTEGER, not_null ''imported_at'' TEXT,
     text_default ''shard_path'' '''', int_default ''data_version'' 1]"

definition init_script :: "ddl list" where
  "init_script =
   [CreateTable ''schema_version'' schema_version_columns,
    CreateTable ''shard_manifest'' shard_manifest_columns,
    CreateIndex ''idx_manifest_type'' ''shard_manifest'' ''entity_type'',
    CreateIndex ''idx_manifest_date'' ''shard_manifest'' ''date_key'',
    CreateTable ''items'' items_columns,
    CreateIndex ''idx_items_status'' ''items'' ''status'',
    CreateIndex ''idx_items_registered'' ''items'' ''registered_at'',
    CreateIndex ''idx_items_lead'' ''items'' ''lead_department'',
    CreateIndex ''idx_items_deadline'' ''items'' ''deadline'',
    CreateTable ''rules'' rules_columns,
    CreateTable ''assignments'' assignments_columns,
    CreateIndex ''idx_assign_item'' ''assignments'' ''item_id'',
    CreateTable ''escalations'' escalations_columns,
    CreateIndex ''idx_esc_item'' ''escalations'' ''item_id'',
    CreateTable ''audit_entries'' audit_entries_columns,
    CreateIndex ''idx_audit_entity'' ''audit_entries'' ''entity_id'',
    CreateIndex ''idx_audit_time'' ''audit_entries'' ''timestamp'',
    CreateTable ''permanent_failures'' permanent_failures_columns,
    CreateTable ''import_batches'' import_batches_columns,
    CreateIndex ''idx_batch_date'' ''import_batches'' ''batch_date'']"

definition retry_count_script :: "ddl list" where
  "retry_count_script =
   [AddColumn ''permanent_failures'' (nullable ''next_retry_at'' TEXT),
    AddColumn ''permanent_failures'' (text_default ''backoff_state'' '''')]"

definition migrations_FS :: "(string \<times> ddl list) list" where
  \<comment> \<open>the embedded directory migrations/\<close>
  "migrations_FS = [(''0001_init.sql'', init_script), (''0002_add_retry_count.sql'', retry_count_script)]"

section \<open>Values of a row\<close>

definition boolToInt :: "bool \<Rightarrow> int" where
  "boolToInt b = (if b then 1 else 0)"

definition nullable_text :: "string option \<Rightarrow> sql_value" where
  "nullable_text s = (case s of None \<Rightarrow> Null | Some s \<Rightarrow> Text s)"

definition itemCols :: "string list" where
  "itemCols = [''id'', ''external_ref'', ''title'', ''description'', ''operator_name'', ''operator_contact'',
     ''materials'', ''category'', ''keywords'', ''status'', ''lead_department'', ''co_departments'', ''rule_version'',
     ''registered_at'', ''reported_by'', ''deadline'', ''escalation_level'', ''store_id'',
     ''completed_at'', ''cancelled_at'', ''cancel_reason'', ''shard_path'', ''shard_offset'', ''data_version'',
     ''created_at'', ''updated_at'']"

definition item_values :: "item_row \<Rightarrow> sql_value list" where
  "item_values r = [Text (case_ID r), Text (case_ExternalRef r), Text (case_Title r), Text (case_Description r),
     Text (case_OperatorName r), Text (case_OperatorContact r), Text (encodeSlice (case_Materials r)),
     Text (case_Category r), Text (encodeSlice (case_Keywords r)), Text (status_name (case_Status r)),
     Text (case_LeadDepartment r), Text (encodeSlice (case_CoDepartments r)), Integer (case_RuleVersion r),
     Text (case_RegisteredAt r), Text (case_RegisteredBy r), Text (case_Deadline r), Integer (case_EscalationLevel r),
     Text (case_StoreID r), nullable_text (case_CompletedAt r), nullable_text (case_CancelledAt r),
     Text (case_CancelReason r), Text (case_ShardPath r), Integer (case_ShardOffset r), Integer (case_DataVersion r),
     Text (case_CreatedAt r), Text (case_UpdatedAt r)]"

definition ruleCols :: "string list" where
  "ruleCols = [''version'', ''name'', ''description'', ''match_keywords'', ''match_category'', ''lead_department'',
     ''co_departments'', ''priority'', ''is_default'', ''effective_from'', ''effective_to'', ''status'',
     ''created_at'', ''created_by'', ''shard_path'', ''data_version'']"

definition rule_values :: "rule_row \<Rightarrow> sql_value list" where
  "rule_values r = [Integer (rule_Version r), Text (rule_Name r), Text (rule_Description r),
     Text (encodeSlice (rule_MatchKeywords r)), Text (rule_MatchCategory r), Text (rule_LeadDepartment r),
     Text (encodeSlice (rule_CoDepartments r)), Integer (rule_Priority r), Integer (boolToInt (rule_IsDefault r)),
     Text (rule_EffectiveFrom r), nullable_text (rule_EffectiveTo r), Text (rule_status_name (rule_Status r)),
     Text (rule_CreatedAt r), Text (rule_CreatedBy r), Text (rule_ShardPath r), Integer (rule_DataVersion r)]"

definition asgnCols :: "string list" where
  "asgnCols = [''id'', ''item_id'', ''lead_department'', ''co_departments'', ''rule_version'',
     ''adjudicated_at'', ''adjudicated_by'', ''is_current'', ''shard_path'', ''data_version'']"

definition referral_values :: "referral_row \<Rightarrow> sql_value list" where
  "referral_values r = [Text (ref_ID r), Text (ref_ItemID r), Text (ref_LeadDepartment r),
     Text (encodeSlice (ref_CoDepartments r)), Integer (ref_RuleVersion r), Text (ref_AdjudicatedAt r),
     Text (ref_AdjudicatedBy r), Integer (boolToInt (ref_IsCurrent r)), Text (ref_ShardPath r),
     Integer (ref_DataVersion r)]"

definition escCols :: "string list" where
  "escCols = [''id'', ''item_id'', ''from_level'', ''to_level'', ''old_lead_dept'', ''new_lead_dept'',
     ''escalated_at'', ''reason'', ''new_deadline'', ''shard_path'', ''data_version'']"

definition escalation_values :: "escalation_row \<Rightarrow> sql_value list" where
  "escalation_values r = [Text (esc_ID r), Text (esc_ItemID r), Integer (esc_FromLevel r), Integer (esc_ToLevel r),
     Text (esc_OldLeadDept r), Text (esc_NewLeadDept r), Text (esc_EscalatedAt r), Text (esc_Reason r),
     Text (esc_NewDeadline r), Text (esc_ShardPath r), Integer (esc_DataVersion r)]"

definition auditCols :: "string list" where
  "auditCols = [''id'', ''entity_id'', ''entity_type'', ''action'', ''actor'', ''timestamp'', ''details'',
     ''shard_path'', ''data_version'']"

definition audit_values :: "audit_row \<Rightarrow> sql_value list" where
  "audit_values r = [Text (aud_ID r), Text (aud_EntityID r), Text (aud_EntityType r), Text (aud_Action r),
     Text (aud_Actor r), Text (aud_Timestamp r), Text (aud_Details r), Text (aud_ShardPath r),
     Integer (aud_DataVersion r)]"

definition failCols :: "string list" where
  "failCols = [''id'', ''entity_type'', ''entity_id'', ''task_type'', ''last_error'', ''attempts'',
     ''first_failed_at'', ''last_failed_at'', ''status'', ''resolved_at'', ''next_retry_at'',
     ''backoff_state'', ''data_version'']"

definition failure_values :: "failure_row \<Rightarrow> sql_value list" where
  "failure_values r = [Text (fail_ID r), Text (fail_EntityType r), Text (fail_EntityID r), Text (fail_TaskType r),
     Text (fail_LastError r), Integer (fail_Attempts r), Text (fail_FirstFailedAt r), Text (fail_LastFailedAt r),
     Text (failure_status_name (fail_Status r)), nullable_text (fail_ResolvedAt r),
     nullable_text (fail_NextRetryAt r), Text (fail_BackoffState r), Integer (fail_DataVersion r)]"

definition batchCols :: "string list" where
  "batchCols = [''id'', ''store_id'', ''batch_date'', ''total_rows'', ''success_count'', ''failure_count'',
     ''imported_at'', ''shard_path'', ''data_version'']"

definition batch_values :: "batch_row \<Rightarrow> sql_value list" where
  "batch_values r = [Text (batch_ID r), Text (batch_StoreID r), Text (batch_BatchDate r), Integer (batch_TotalRows r),
     Integer (batch_SuccessCount r), Integer (batch_FailureCount r), Text (batch_ImportedAt r),
     Text (batch_ShardPath r), Integer (batch_DataVersion r)]"

definition manifestCols :: "string list" where
  "manifestCols = [''shard_id'', ''entity_type'', ''shard_path'', ''checksum'', ''record_count'',
     ''min_key'', ''max_key'', ''date_key'', ''status'', ''created_at'', ''updated_at'']"

definition manifest_values :: "ManifestEntry \<Rightarrow> sql_value list" where
  "manifest_values m = [Text (man_ShardID m), Text (man_EntityType m), Text (man_ShardPath m), Text (man_Checksum m),
     Integer (man_RecordCount m), Text (man_MinKey m), Text (man_MaxKey m), Text (man_DateKey m), Text (man_Status m),
     Text (man_CreatedAt m), Text (man_UpdatedAt m)]"

section \<open>The statements that write\<close>

datatype writing =
    PutItem item
  | SetItem item
  | PutReferral "time Referral"
  | SupersedeReferrals string
  | PutEscalation "time Escalation"
  | SetEscalated string string int time ItemStatus time
  | PutAudit "time AuditEntry"
  | PutFailure "time PermanentFailure"
  | SetFailure "time PermanentFailure"
  | ResolveFailure string time
  | PutBatch "time ImportBatch"
  | PutRule rule
  | EndRule int time
  | PutManifest ManifestEntry

definition values_for :: "string list \<Rightarrow> string list \<Rightarrow> sql_value list \<Rightarrow> (string \<times> sql_value) list" where
  \<comment> \<open>\<open>SET c = ?, ...\<close> for these columns, bound to the values that the row has for them\<close>
  "values_for cs cols vs = map (\<lambda>c. (c, cell (zip cols vs) c)) cs"

fun statement_of :: "writing \<Rightarrow> statement" where
  "statement_of (PutItem i) = InsertInto ''items'' itemCols (item_values (row_of_item i))"
| "statement_of (SetItem i) = UpdateSet ''items''
     (values_for [''title'', ''description'', ''operator_name'', ''operator_contact'',
        ''materials'', ''category'', ''keywords'', ''status'',
        ''lead_department'', ''co_departments'', ''rule_version'',
        ''deadline'', ''escalation_level'', ''store_id'',
        ''completed_at'', ''cancelled_at'', ''cancel_reason'',
        ''data_version'', ''updated_at''] itemCols (item_values (row_of_item i)))
     [Equals ''id'' (Text (case_ID i))]"
| "statement_of (PutReferral a) = InsertInto ''assignments'' asgnCols (referral_values (row_of_referral a))"
| "statement_of (SupersedeReferrals itemID) = UpdateSet ''assignments'' [(''is_current'', Integer 0)]
     [Equals ''item_id'' (Text itemID), Equals ''is_current'' (Integer 1)]"
| "statement_of (PutEscalation e) = InsertInto ''escalations'' escCols (escalation_values (row_of_escalation e))"
| "statement_of (SetEscalated itemID newLead newLevel newDeadline newStatus now) = UpdateSet ''items''
     [(''lead_department'', Text newLead), (''escalation_level'', Integer newLevel),
      (''deadline'', Text (formatTime newDeadline)), (''status'', Text (status_name newStatus)),
      (''updated_at'', Text (formatTime now))]
     [Equals ''id'' (Text itemID)]"
| "statement_of (PutAudit a) = InsertInto ''audit_entries'' auditCols (audit_values (row_of_audit a))"
| "statement_of (PutFailure f) = InsertInto ''permanent_failures'' failCols (failure_values (row_of_failure f))"
| "statement_of (SetFailure f) = UpdateSet ''permanent_failures''
     (values_for [''last_error'', ''attempts'', ''last_failed_at'', ''status'', ''next_retry_at'',
        ''backoff_state'', ''resolved_at''] failCols (failure_values (row_of_failure f)))
     [Equals ''id'' (Text (fail_ID f))]"
| "statement_of (ResolveFailure failureID at) = UpdateSet ''permanent_failures''
     [(''status'', Text ''resolved''), (''resolved_at'', Text (formatTime at))] [Equals ''id'' (Text failureID)]"
| "statement_of (PutBatch b) = InsertInto ''import_batches'' batchCols (batch_values (row_of_batch b))"
| "statement_of (PutRule r) = InsertInto ''rules'' ruleCols (rule_values (row_of_rule r))"
| "statement_of (EndRule version now) = UpdateSet ''rules''
     [(''status'', Text ''superseded''), (''effective_to'', Text (formatTime now))]
     [Equals ''version'' (Integer version)]"
| "statement_of (PutManifest entry) = Upsert ''shard_manifest'' manifestCols (manifest_values entry) ''shard_id''
     [''checksum'', ''record_count'', ''min_key'', ''max_key'', ''status'', ''updated_at'']"

section \<open>The queries\<close>

definition equals_unless_empty :: "string \<Rightarrow> string \<Rightarrow> predicate list" where
  \<comment> \<open>\<open>if x != "" { where = append(where, "c = ?") }\<close>\<close>
  "equals_unless_empty c s = (if s = '''' then [] else [Equals c (Text s)])"

definition between :: "string \<Rightarrow> time \<Rightarrow> time \<Rightarrow> predicate list" where
  "between c from to = (if IsZero from then [] else [AtLeast c (Text (formatTime from))])
     @ (if IsZero to then [] else [AtMost c (Text (formatTime to))])"

definition items_clause :: "ItemFilter \<Rightarrow> time \<Rightarrow> predicate list" where
  "items_clause flt now = equals_unless_empty ''status'' (status_name (if_Status flt))
     @ equals_unless_empty ''lead_department'' (if_LeadDepartment flt)
     @ equals_unless_empty ''store_id'' (if_StoreID flt)
     @ equals_unless_empty ''reported_by'' (if_RegisteredBy flt)
     @ between ''registered_at'' (if_From flt) (if_To flt)
     @ (if if_OverdueOnly flt then [NotIn ''status'' [Text ''completed'', Text ''cancelled''],
          Below ''deadline'' (Text (formatTime now))] else [])"

definition audit_clause :: "AuditFilter \<Rightarrow> predicate list" where
  "audit_clause flt = equals_unless_empty ''entity_id'' (af_EntityID flt)
     @ equals_unless_empty ''entity_type'' (af_EntityType flt)
     @ equals_unless_empty ''actor'' (af_Actor flt)
     @ between ''timestamp'' (af_From flt) (af_To flt)"

definition batches_clause :: "BatchFilter \<Rightarrow> predicate list" where
  "batches_clause flt = equals_unless_empty ''store_id'' (bf_StoreID flt)
     @ between ''batch_date'' (bf_From flt) (bf_To flt)"

datatype reading =
    ItemByID string
  | ItemByExternalRef string
  | ItemList ItemFilter time
  | OverdueItems time int
  | RuleByVersion int
  | ActiveRules time
  | RuleList
  | ReferralsOf string
  | CurrentReferral string
  | EscalationsOf string
  | AuditList AuditFilter
  | ActiveFailures
  | FailureByID string
  | BatchList BatchFilter
  | ManifestList

definition select_from :: "string list \<Rightarrow> string \<Rightarrow> predicate list \<Rightarrow> query" where
  "select_from cols t ps = \<lparr>qu_Table = t, qu_Columns = cols, qu_Where = ps, qu_Order = [], qu_Limit = None\<rparr>"

fun query_of :: "reading \<Rightarrow> query" where
  "query_of (ItemByID itemID) = select_from itemCols ''items'' [Equals ''id'' (Text itemID)]"
| "query_of (ItemByExternalRef xref) = select_from itemCols ''items'' [Equals ''external_ref'' (Text xref)]"
| "query_of (ItemList flt now) = (select_from itemCols ''items'' (items_clause flt now))
     \<lparr>qu_Order := [(''registered_at'', Descending)],
      qu_Limit := Some (item_page_size (if_PageSize flt), page_offset (if_PageOffset flt))\<rparr>"
| "query_of (OverdueItems now maxLevel) = (select_from itemCols ''items''
     [NotIn ''status'' [Text ''completed'', Text ''cancelled''], Below ''deadline'' (Text (formatTime now)),
      Below ''escalation_level'' (Integer maxLevel)])\<lparr>qu_Order := [(''deadline'', Ascending)]\<rparr>"
| "query_of (RuleByVersion v) = select_from ruleCols ''rules'' [Equals ''version'' (Integer v)]"
| "query_of (ActiveRules at) = (select_from ruleCols ''rules''
     [Equals ''status'' (Text ''active''), AtMost ''effective_from'' (Text (formatTime at)),
      Or (IsNull ''effective_to'') (Or (Equals ''effective_to'' (Text ''''))
        (Above ''effective_to'' (Text (formatTime at))))])
     \<lparr>qu_Order := [(''priority'', Descending), (''version'', Descending)]\<rparr>"
| "query_of RuleList = (select_from ruleCols ''rules'' [])\<lparr>qu_Order := [(''version'', Descending)]\<rparr>"
| "query_of (ReferralsOf itemID) = (select_from asgnCols ''assignments'' [Equals ''item_id'' (Text itemID)])
     \<lparr>qu_Order := [(''adjudicated_at'', Ascending)]\<rparr>"
| "query_of (CurrentReferral itemID) = select_from asgnCols ''assignments''
     [Equals ''item_id'' (Text itemID), Equals ''is_current'' (Integer 1)]"
| "query_of (EscalationsOf itemID) = (select_from escCols ''escalations'' [Equals ''item_id'' (Text itemID)])
     \<lparr>qu_Order := [(''escalated_at'', Ascending)]\<rparr>"
| "query_of (AuditList flt) = (select_from auditCols ''audit_entries'' (audit_clause flt))
     \<lparr>qu_Order := [(''timestamp'', Descending)],
      qu_Limit := Some (default_page_size (af_PageSize flt), page_offset (af_PageOffset flt))\<rparr>"
| "query_of ActiveFailures = (select_from failCols ''permanent_failures'' [Equals ''status'' (Text ''permanent_failure'')])
     \<lparr>qu_Order := [(''last_failed_at'', Ascending)]\<rparr>"
| "query_of (FailureByID failureID) = select_from failCols ''permanent_failures'' [Equals ''id'' (Text failureID)]"
| "query_of (BatchList flt) = (select_from batchCols ''import_batches'' (batches_clause flt))
     \<lparr>qu_Order := [(''batch_date'', Descending)],
      qu_Limit := Some (default_page_size (bf_PageSize flt), page_offset (bf_PageOffset flt))\<rparr>"
| "query_of ManifestList = (select_from manifestCols ''shard_manifest'' [])
     \<lparr>qu_Order := [(''entity_type'', Ascending), (''date_key'', Ascending)]\<rparr>"

end
