(* ===== verification/Schema.thy ===== *)
theory Schema
  imports Repo Go_Numbers Statements
begin

text \<open>
  Opening the store: the directories of the shards, the connection to the database, and the
  migrations of its schema (shard/writer.go, index/schema.go, repo/store.go). \<open>sd_made\<close> has the
  tables that were made, with their columns and indexes (their rows are those of \<open>db_index\<close>);
  \<open>sd_scripts\<close> lists the scripts whose transaction was committed, in that order, and
  \<open>sd_versions\<close> has the rows of schema_version, if it exists. The embedded scripts are an argument.
\<close>

section \<open>State\<close>

record schema_row =
  sv_version :: int
  sv_description :: string
  sv_applied_at :: string

record schemas = world +
  sd_versions :: "schema_row list option"
  sd_scripts :: "string list"
  sd_made :: database

type_synonym scripts = "(string \<times> ddl list) list"

definition versions :: "'a schemas_scheme \<Rightarrow> schema_row list" where
  "versions w = (case sd_versions w of None \<Rightarrow> [] | Some rows \<Rightarrow> rows)"

section \<open>The version in a file name\<close>

fun split_underscore :: "string \<Rightarrow> (string \<times> string) option" where
  \<comment> \<open>\<open>SplitN(name, "_", 2)\<close>, if it has two parts\<close>
  "split_underscore [] = None"
| "split_underscore (c # s) = (if c = CHR ''_'' then Some ([], s)
     else case split_underscore s of None \<Rightarrow> None | Some (a, b) \<Rightarrow> Some (c # a, b))"

definition scan_int :: "string \<Rightarrow> err + int" where
  \<comment> \<open>\<open>Sscanf\<close> with \<open>%d\<close>, for a text with no white space but blanks\<close>
  "scan_int s =
     (let t = dropWhile (\<lambda>c. c = CHR '' '') s;
          neg = (take 1 t = ''-''); u = (if take 1 t = ''-'' \<or> take 1 t = ''+'' then drop 1 t else t);
          ds = takeWhile is_digit u;
          n = (if neg then - int (digits_val ds) else int (digits_val ds))
      in if t = [] then Inl (ErrExternal ''unexpected EOF'')
         else if ds = [] then Inl (ErrExternal ''expected integer'')
         else if int64 n then Inr n
         else Inl (ErrExternal (''integer overflow on token '' @ (if neg then ''-'' else '''') @ ds)))"

definition migrationVersion :: "string \<Rightarrow> err + int" where
  "migrationVersion name = (case split_underscore name of
      None \<Rightarrow> Inl (ErrNamed (''invalid migration filename: '' @ name))
    | Some (v, rest) \<Rightarrow> (case scan_int v of
        Inl e \<Rightarrow> Inl (Wrap (''parse version from '' @ name) e)
      | Inr n \<Rightarrow> Inr n))"

section \<open>Migrations\<close>

definition appliedMigrations :: "(err, 'a schemas_scheme, int \<Rightarrow> bool) op" where
  "appliedMigrations = bindM external (\<lambda>_. getM (\<lambda>w v. v \<in> sv_version ` set (versions w)))"

definition insert_version :: "schema_row \<Rightarrow> (err, 'a schemas_scheme, unit) op" where
  "insert_version row = bindM external (\<lambda>_. bindM (getM versions) (\<lambda>rows.
     if sv_version row \<in> sv_version ` set rows
     then failM (ErrExternal ''constraint failed: UNIQUE constraint failed: schema_version.version'')
     else modM (\<lambda>w. w\<lparr>sd_versions := Some (rows @ [row])\<rparr>)))"

definition in_tx :: "(err, 'a schemas_scheme, unit) op \<Rightarrow> (err, 'a schemas_scheme, unit) op" where
  \<comment> \<open>\<open>BeginTx\<close>, the deferred \<open>Rollback\<close>, and \<open>Commit\<close>\<close>
  "in_tx m = bindM external (\<lambda>_ w. case bindM m (\<lambda>_. external) w of
      (Inl e, w') \<Rightarrow> (Inl e, w'\<lparr>sd_versions := sd_versions w, sd_scripts := sd_scripts w, sd_made := sd_made w\<rparr>)
    | (Inr _, w') \<Rightarrow> (Inr (), w'))"

definition run_script :: "string \<Rightarrow> ddl list \<Rightarrow> (err, 'a schemas_scheme, unit) op" where
  \<comment> \<open>\<open>tx.ExecContext\<close> of the whole script\<close>
  "run_script name script = bindM external (\<lambda>_ w. case exec_script script (sd_made w) of
      Inl e \<Rightarrow> (Inl e, w)
    | Inr (_, d) \<Rightarrow> (Inr (), w\<lparr>sd_made := d, sd_scripts := sd_scripts w @ [name]\<rparr>))"

definition applyMigration :: "scripts \<Rightarrow> int \<Rightarrow> string \<Rightarrow> (err, 'a schemas_scheme, unit) op" where
  "applyMigration entries version name = (case map_of entries name of
      None \<Rightarrow> failM (Wrap (''read '' @ name) (ErrExternal ''file does not exist''))
    | Some content \<Rightarrow>
     in_tx (bindM (mapErr (Wrap ''exec migration sql'') (run_script name content)) (\<lambda>_.
       bindM WallNow (\<lambda>now.
       insert_version \<lparr>sv_version = version, sv_description = name, sv_applied_at = rfc3339nano now\<rparr>))))"

fun apply_all :: "scripts \<Rightarrow> (int \<Rightarrow> bool) \<Rightarrow> string list \<Rightarrow> (err, 'a schemas_scheme, unit) op" where
  "apply_all entries applied [] = retM ()"
| "apply_all entries applied (name # names) = (case migrationVersion name of
      Inl e \<Rightarrow> failM e
    | Inr version \<Rightarrow>
        if applied version then apply_all entries applied names
        else bindM (mapErr (Wrap (''apply migration '' @ name)) (applyMigration entries version name)) (\<lambda>_.
          apply_all entries applied names))"

definition migration_names :: "scripts \<Rightarrow> string list" where
  "migration_names entries = sort (filter (\<lambda>n. has_suffix n ''.sql'') (map fst entries))"

definition create_versions :: "(err, 'a schemas_scheme, unit) op" where
  \<comment> \<open>\<open>CREATE TABLE IF NOT EXISTS schema_version\<close>\<close>
  "create_versions = bindM external (\<lambda>_ w.
     case exec_ddl (CreateTable ''schema_version'' schema_version_columns) (sd_made w) of
       Inl e \<Rightarrow> (Inl e, w)
     | Inr (_, d) \<Rightarrow> (Inr (), w\<lparr>sd_made := d, sd_versions := Some (versions w)\<rparr>))"

definition migrate :: "scripts \<Rightarrow> (err, 'a schemas_scheme, unit) op" where
  "migrate entries =
     bindM (mapErr (Wrap ''create schema_version'') create_versions) (\<lambda>_.
     bindM appliedMigrations (\<lambda>applied.
     apply_all entries applied (migration_names entries)))"

section \<open>Opening\<close>

fun run_pragmas :: "string list \<Rightarrow> (err, 'a schemas_scheme, unit) op" where
  "run_pragmas [] = retM ()"
| "run_pragmas (p # ps) = bindM (mapErr (Wrap (''exec pragma '' @ CHR 0x22 # p @ [CHR 0x22])) external) (\<lambda>_. run_pragmas ps)"

definition OpenIndex :: "scripts \<Rightarrow> string \<Rightarrow> (err, 'a schemas_scheme, unit) op" where
  "OpenIndex entries dbPath =
     bindM (mapErr (Wrap (''open sqlite '' @ dbPath)) external) (\<lambda>_.
     bindM (mapErr (Wrap ''ping sqlite'') external) (\<lambda>_.
     bindM (run_pragmas [''PRAGMA journal_mode=WAL'', ''PRAGMA busy_timeout=5000'', ''PRAGMA foreign_keys=ON'']) (\<lambda>_.
     mapErr (Wrap ''migrate'') (migrate entries))))"

fun make_dirs :: "string list \<Rightarrow> (err, 'a schemas_scheme, unit) op" where
  "make_dirs [] = retM ()"
| "make_dirs (t # ts) = bindM (getM sh_rootDir) (\<lambda>root.
     bindM (mapErr (Wrap (''create dir '' @ root @ ''/shards/'' @ t)) external) (\<lambda>_. make_dirs ts))"

definition EnsureDirs :: "(err, 'a schemas_scheme, unit) op" where
  "EnsureDirs = make_dirs shard_types"

definition NewStore :: "scripts \<Rightarrow> string \<Rightarrow> int \<Rightarrow> bool \<Rightarrow> (err, 'a schemas_scheme, unit) op" where
  "NewStore entries dataDir maxShardSize syncOnWrite =
     bindM (modM (\<lambda>w. w\<lparr>sh_rootDir := dataDir, sh_maxShardSize := maxShardSize, sh_syncOnWrite := syncOnWrite\<rparr>)) (\<lambda>_.
     bindM (mapErr (Wrap ''ensure shard dirs'') EnsureDirs) (\<lambda>_.
     mapErr (Wrap ''open index'') (OpenIndex entries (dataDir @ ''/index.db''))))"

section \<open>What the migrations do\<close>

text \<open>
  The scripts that were committed are those with a row in the table, in the same order; the
  versions in the table are unique.
\<close>

definition recorded :: "'a schemas_scheme \<Rightarrow> bool" where
  "recorded w \<longleftrightarrow> sd_scripts w = map sv_description (versions w) \<and> distinct (map sv_version (versions w))
     \<and> (\<forall>row \<in> set (versions w). migrationVersion (sv_description row) = Inr (sv_version row))"

definition pending :: "scripts \<Rightarrow> 'a schemas_scheme \<Rightarrow> string list" where
  "pending entries w = filter (\<lambda>n. \<forall>v. migrationVersion n = Inr v \<longrightarrow> v \<notin> sv_version ` set (versions w))
     (migration_names entries)"

lemma external_schema: "external w = (r, w') \<Longrightarrow> sd_versions w' = sd_versions w \<and> sd_scripts w' = sd_scripts w
    \<and> sd_made w' = sd_made w"
  by (auto elim!: external_cases)

lemma run_script_Inr:
  "run_script n script w = (Inr u, w') \<longleftrightarrow> (\<exists>w1 d. external w = (Inr (), w1)
     \<and> exec_script script (sd_made w1) = Inr ((), d) \<and> w' = w1\<lparr>sd_made := d, sd_scripts := sd_scripts w1 @ [n]\<rparr>)"
  by (auto simp: run_script_def bindM_def split: sum.splits prod.splits)

lemma applyMigration_cases:
  assumes "applyMigration entries v n w = (r, w')" and "sd_versions w = Some rows"
  shows "case r of Inl e \<Rightarrow> sd_versions w' = sd_versions w \<and> sd_scripts w' = sd_scripts w \<and> sd_made w' = sd_made w
    | Inr u \<Rightarrow> v \<notin> sv_version ` set rows \<and> sd_scripts w' = sd_scripts w @ [n]
        \<and> (\<exists>script. map_of entries n = Some script \<and> exec_script script (sd_made w) = Inr ((), sd_made w'))
        \<and> (\<exists>t. sd_versions w' = Some (rows @ [\<lparr>sv_version = v, sv_description = n, sv_applied_at = t\<rparr>]))"
proof (cases "map_of entries n")
  case None
  with assms show ?thesis by (auto simp: applyMigration_def failM_def)
next
  case (Some script)
  obtain x w1 where x: "external w = (x, w1)" by (cases "external w")
  note same = external_schema [OF x]
  show ?thesis
  proof (cases x)
    case (Inl e)
    with assms x same Some show ?thesis by (auto simp: applyMigration_def in_tx_def bindM_def)
  next
    case (Inr u)
    define body :: "(err, 'a schemas_scheme, unit) op" where "body =
      bindM (mapErr (Wrap ''exec migration sql'') (run_script n script)) (\<lambda>_.
       bindM WallNow (\<lambda>now.
       insert_version \<lparr>sv_version = v, sv_description = n, sv_applied_at = rfc3339nano now\<rparr>))"
    have run: "(case bindM body (\<lambda>_. external) w1 of
        (Inl e, w') \<Rightarrow> (Inl e, w'\<lparr>sd_versions := sd_versions w1, sd_scripts := sd_scripts w1, sd_made := sd_made w1\<rparr>)
      | (Inr _, w') \<Rightarrow> (Inr (), w')) = (r, w')"
      using assms(1) x Inr Some by (simp add: applyMigration_def in_tx_def body_def bindM_def)
    show ?thesis
    proof (cases "bindM body (\<lambda>_. external) w1")
      case (Pair y w2)
      show ?thesis
      proof (cases y)
        case (Inl e)
        with run Pair same show ?thesis by auto
      next
        case (Inr u)
        with Pair have "bindM body (\<lambda>_. external) w1 = (Inr u, w2)" by simp
        then have "v \<notin> sv_version ` set rows \<and> sd_scripts w2 = sd_scripts w @ [n]
            \<and> exec_script script (sd_made w) = Inr ((), sd_made w2)
            \<and> (\<exists>t. sd_versions w2 = Some (rows @ [\<lparr>sv_version = v, sv_description = n, sv_applied_at = t\<rparr>]))"
          using same assms(2) unfolding body_def insert_version_def
          by (auto simp: versions_def op_results run_script_Inr modM_def WallNow_eq
              dest!: external_schema split: if_split_asm option.splits)
        with run Pair Inr Some show ?thesis by auto
      qed
    qed
  qed
qed

lemma applyMigration_recorded:
  assumes "applyMigration entries v n w = (r, w')" and "sd_versions w = Some rows" and "recorded w" and "migrationVersion n = Inr v"
  shows "(case r of Inl e \<Rightarrow> sd_versions w' = Some rows
    | Inr u \<Rightarrow> \<exists>row. sv_version row = v \<and> sv_description row = n \<and> sd_versions w' = Some (rows @ [row])) \<and> recorded w'"
proof (cases r)
  case (Inl e)
  then show ?thesis using applyMigration_cases [OF assms(1,2)] assms(2,3) by (simp add: recorded_def versions_def)
next
  case (Inr u)
  then obtain t where fresh: "v \<notin> sv_version ` set rows" and scripts: "sd_scripts w' = sd_scripts w @ [n]"
    and w': "sd_versions w' = Some (rows @ [\<lparr>sv_version = v, sv_description = n, sv_applied_at = t\<rparr>])"
    using applyMigration_cases [OF assms(1,2)] by auto
  then have "recorded w'" using assms(2-4) by (auto simp: recorded_def versions_def)
  with w' Inr show ?thesis by (auto intro: exI [of _ "\<lparr>sv_version = v, sv_description = n, sv_applied_at = t\<rparr>"])
qed

text \<open>What the loop over the names has brought about, when the table held \<open>rows\<close> before it.\<close>

definition unapplied :: "(int \<Rightarrow> bool) \<Rightarrow> string list \<Rightarrow> string list" where
  "unapplied applied names = filter (\<lambda>n. \<forall>v. migrationVersion n = Inr v \<longrightarrow> \<not> applied v) names"

definition brought :: "(int \<Rightarrow> bool) \<Rightarrow> string list \<Rightarrow> schema_row list \<Rightarrow> err + unit \<Rightarrow> 'a schemas_scheme \<Rightarrow> bool" where
  "brought applied names rows r w \<longleftrightarrow> (\<exists>k new. sd_versions w = Some (rows @ new) \<and> recorded w
     \<and> map sv_description new = take k (unapplied applied names)
     \<and> (r = Inr () \<longrightarrow> map sv_description new = unapplied applied names
          \<and> (\<forall>n \<in> set names. \<exists>v. migrationVersion n = Inr v \<and> v \<in> sv_version ` set (rows @ new))))"

lemma brought_failed:
  "sd_versions w = Some rows \<Longrightarrow> recorded w \<Longrightarrow> r \<noteq> Inr () \<Longrightarrow> brought applied names rows r w"
  unfolding brought_def by (intro exI [of _ 0] exI [of _ "[]"]) simp

lemma brought_skip:
  assumes "migrationVersion n = Inr v" "applied v" "v \<in> sv_version ` set rows" and "brought applied names rows r w"
  shows "brought applied (n # names) rows r w"
proof -
  have "unapplied applied (n # names) = unapplied applied names" using assms(1,2) by (simp add: unapplied_def)
  moreover have "\<exists>v. migrationVersion n = Inr v \<and> v \<in> sv_version ` set (rows @ new)" for new
    using assms(1,3) by auto
  ultimately show ?thesis using assms(4) by (simp only: brought_def list.set ball_simps(5)) blast
qed

lemma brought_apply:
  assumes "migrationVersion n = Inr v" "\<not> applied v" and row: "sv_version row = v" "sv_description row = n"
    and "brought applied names (rows @ [row]) r w"
  shows "brought applied (n # names) rows r w"
proof -
  have head: "unapplied applied (n # names) = n # unapplied applied names" using assms(1,2) by (simp add: unapplied_def)
  from assms(5) obtain k new where new: "sd_versions w = Some ((rows @ [row]) @ new)" "recorded w"
      "map sv_description new = take k (unapplied applied names)"
      "r = Inr () \<longrightarrow> map sv_description new = unapplied applied names
         \<and> (\<forall>n \<in> set names. \<exists>u. migrationVersion n = Inr u \<and> u \<in> sv_version ` set ((rows @ [row]) @ new))"
    unfolding brought_def by blast
  have "sd_versions w = Some (rows @ row # new)" using new(1) by simp
  moreover have "map sv_description (row # new) = take (Suc k) (n # unapplied applied names)" using new(3) row by simp
  moreover have "r = Inr () \<longrightarrow> map sv_description (row # new) = n # unapplied applied names
      \<and> (\<forall>m \<in> set (n # names). \<exists>u. migrationVersion m = Inr u \<and> u \<in> sv_version ` set (rows @ row # new))"
    using new(4) row assms(1) by simp
  ultimately show ?thesis using new(2) unfolding brought_def head
    by (intro exI [of _ "Suc k"] exI [of _ "row # new"] conjI)
qed

lemma apply_all_prefix:
  assumes "apply_all entries applied names w = (r, w')" and "sd_versions w = Some rows" and "recorded w"
    and "\<forall>v. applied v \<longrightarrow> v \<in> sv_version ` set rows"
  shows "brought applied names rows r w'"
  using assms
proof (induction names arbitrary: w rows)
  case Nil
  then show ?case by (auto simp: op_simps brought_def unapplied_def)
next
  case (Cons n names)
  show ?case
  proof (cases "migrationVersion n")
    case (Inl e)
    with Cons.prems(1) have "r = Inl e" "w' = w" by (auto simp: failM_def)
    with Cons.prems(2,3) show ?thesis by (intro brought_failed) simp_all
  next
    case v: (Inr v)
    show ?thesis
    proof (cases "applied v")
      case True
      with Cons.prems(1) v have "apply_all entries applied names w = (r, w')" by simp
      from Cons.IH [OF this Cons.prems(2-4)] show ?thesis
        using v True Cons.prems(4) by (intro brought_skip) auto
    next
      case False
      obtain x w1 where x: "applyMigration entries v n w = (x, w1)" by (cases "applyMigration entries v n w")
      note step = applyMigration_recorded [OF this Cons.prems(2,3) v]
      show ?thesis
      proof (cases x)
        case (Inl e)
        with Cons.prems(1) v False x have "r \<noteq> Inr ()" "w' = w1" by (auto simp: bindM_def mapErr_def)
        then show ?thesis using step Inl by (intro brought_failed) simp_all
      next
        case (Inr u)
        with step obtain row where row: "sv_version row = v" "sv_description row = n"
          "sd_versions w1 = Some (rows @ [row])" "recorded w1" by auto
        have "apply_all entries applied names w1 = (r, w')"
          using Cons.prems(1) v False x Inr by (simp add: bindM_def mapErr_def)
        from Cons.IH [OF this row(3,4)] Cons.prems(4) have "brought applied names (rows @ [row]) r w'" by auto
        with v False row(1,2) show ?thesis by (rule brought_apply)
      qed
    qed
  qed
qed

lemma create_versions_cases:
  assumes "create_versions w = (r, w')"
  shows "(r \<noteq> Inr () \<and> sd_versions w' = sd_versions w \<and> sd_scripts w' = sd_scripts w \<and> sd_made w' = sd_made w)
    \<or> (r = Inr () \<and> sd_versions w' = Some (versions w) \<and> sd_scripts w' = sd_scripts w
      \<and> exec_ddl (CreateTable ''schema_version'' schema_version_columns) (sd_made w) = Inr ((), sd_made w'))"
proof -
  obtain x w1 where x: "external w = (x, w1)" by (cases "external w")
  with assms external_schema [OF x] show ?thesis
    by (cases x) (auto simp: create_versions_def bindM_def versions_def split: sum.splits if_splits)
qed

lemma migrate_cases:
  assumes "recorded w" and "migrate entries w = (r, w')"
  shows "(r \<noteq> Inr () \<and> sd_scripts w' = sd_scripts w \<and> recorded w')
    \<or> brought (\<lambda>v. v \<in> sv_version ` set (versions w)) (migration_names entries) (versions w) r w'"
proof -
  obtain x w1 where x: "create_versions w = (x, w1)" by (cases "create_versions w")
  note same = create_versions_cases [OF x]
  have vs1: "versions w1 = versions w" using same by (auto simp: versions_def)
  then have rec1: "recorded w1" using assms(1) same by (auto simp: recorded_def)
  show ?thesis
  proof (cases x)
    case (Inl e)
    with assms x same rec1 show ?thesis by (auto simp: migrate_def bindM_def mapErr_def)
  next
    case u: (Inr u)
    obtain y w2 where y: "external w1 = (y, w2)" by (cases "external w1")
    have rows: "sd_versions w2 = Some (versions w)" "sd_scripts w2 = sd_scripts w" and rec2: "recorded w2"
      using same external_schema [OF y] rec1 u by (auto simp: recorded_def versions_def)
    show ?thesis
    proof (cases y)
      case (Inl e)
      with assms x y u have "r \<noteq> Inr ()" "w' = w2"
        by (auto simp: migrate_def appliedMigrations_def bindM_def mapErr_def)
      with rows rec2 show ?thesis by simp
    next
      case (Inr u')
      have "apply_all entries (\<lambda>v. v \<in> sv_version ` set (versions w)) (migration_names entries) w2 = (r, w')"
        using assms(2) x y u Inr rows(1)
        by (simp add: migrate_def appliedMigrations_def bindM_def mapErr_def getM_def versions_def)
      from apply_all_prefix [OF this rows(1) rec2] show ?thesis by simp
    qed
  qed
qed

lemma migrate_progress:
  assumes "recorded w" and "migrate entries w = (r, w')"
  shows "recorded w' \<and> (\<exists>k. sd_scripts w' = sd_scripts w @ take k (pending entries w))"
  using migrate_cases [OF assms]
proof
  assume "r \<noteq> Inr () \<and> sd_scripts w' = sd_scripts w \<and> recorded w'"
  then show ?thesis by (intro conjI exI [of _ 0]) simp_all
next
  assume "brought (\<lambda>v. v \<in> sv_version ` set (versions w)) (migration_names entries) (versions w) r w'"
  then obtain k new where "sd_versions w' = Some (versions w @ new)" "recorded w'"
    "map sv_description new = take k (pending entries w)"
    unfolding brought_def unapplied_def by (fold pending_def) blast
  then show ?thesis using assms(1) by (auto simp: recorded_def versions_def)
qed

lemma migrate_finished:
  assumes "recorded w" and "migrate entries w = (Inr (), w')"
  shows "sd_scripts w' = sd_scripts w @ pending entries w"
    and "\<forall>n \<in> set (migration_names entries). \<exists>v. migrationVersion n = Inr v \<and> v \<in> sv_version ` set (versions w')"
proof -
  have "brought (\<lambda>v. v \<in> sv_version ` set (versions w)) (migration_names entries) (versions w) (Inr ()) w'"
    using migrate_cases [OF assms] by blast
  then obtain new where "sd_versions w' = Some (versions w @ new)" "recorded w'"
    "map sv_description new = pending entries w"
    "\<forall>n \<in> set (migration_names entries). \<exists>v. migrationVersion n = Inr v \<and> v \<in> sv_version ` set (versions w @ new)"
    unfolding brought_def unapplied_def by (fold pending_def) blast
  then show "sd_scripts w' = sd_scripts w @ pending entries w"
    and "\<forall>n \<in> set (migration_names entries). \<exists>v. migrationVersion n = Inr v \<and> v \<in> sv_version ` set (versions w')"
    using assms(1) by (auto simp: recorded_def versions_def)
qed

text \<open>
  C24: Migrations are applied once, in order, and can be taken up again. Whether it succeeds or
  fails, \<open>migrate\<close> commits a first part of the pending scripts, in the order of their names, and
  records exactly those; when it succeeds, it has committed all of them and none is pending, so
  that another run commits nothing.
\<close>

theorem migrate_resumes:
  assumes "recorded w" and "migrate entries w = (r, w')"
  shows "recorded w' \<and> (\<exists>k. sd_scripts w' = sd_scripts w @ take k (pending entries w))
     \<and> (r = Inr () \<longrightarrow> sd_scripts w' = sd_scripts w @ pending entries w \<and> pending entries w' = [])"
  using migrate_progress [OF assms] migrate_finished [OF assms(1), of entries w'] assms(2)
  by (fastforce simp: pending_def filter_empty_conv)

definition fresh_store :: "schema_row list option \<Rightarrow> string list \<Rightarrow> database \<Rightarrow> schemas" where
  "fresh_store rows scripts d = \<lparr>rt_clock = (\<lambda>n. 1), rt_wall = (\<lambda>n. 1), rt_ticks = 0, rt_uuid = (\<lambda>n. ''u''), rt_ids = 0,
     rt_faults = [], db_index = empty_index, sh_rootDir = ''data'', sh_maxShardSize = 1024, sh_syncOnWrite = True,
     sh_files = [], sd_versions = rows, sd_scripts = scripts, sd_made = d\<rparr>"

definition first_row :: schema_row where
  "first_row = \<lparr>sv_version = 1, sv_description = ''0001_init.sql'', sv_applied_at = ''2024-01-01T00:00:00Z''\<rparr>"

lemma embedded_names: "migration_names migrations_FS = [''0001_init.sql'', ''0002_add_retry_count.sql'']"
  by (simp add: migration_names_def migrations_FS_def) code_simp

lemma embedded_scripts: "map_of migrations_FS ''0001_init.sql'' = Some init_script"
  "map_of migrations_FS ''0002_add_retry_count.sql'' = Some retry_count_script"
  by (simp_all add: migrations_FS_def)

lemma embedded_versions:
  "migrationVersion ''0001_init.sql'' = Inr 1" "migrationVersion ''0002_add_retry_count.sql'' = Inr 2"
  by code_simp+

text \<open>A database that only has the table of failures can take the second script.\<close>

definition failures_only :: database where
  "failures_only = \<lparr>dat_Tables = [\<lparr>tb_Name = ''schema_version'', tb_Columns = schema_version_columns, tb_Rows = []\<rparr>,
     \<lparr>tb_Name = ''permanent_failures'', tb_Columns = permanent_failures_columns, tb_Rows = []\<rparr>], dat_Indexes = []\<rparr>"

lemma second_script: "exec_script retry_count_script failures_only
    = Inr ((), case exec_script retry_count_script failures_only of Inr (_, d) \<Rightarrow> d | Inl e \<Rightarrow> failures_only)"
  by code_simp

lemma versions_there: "exec_ddl (CreateTable ''schema_version'' cs) failures_only = Inr ((), failures_only)"
  by (simp add: failures_only_def)

theorem migrate_resumes_witness:
  "\<exists>w'. migrate migrations_FS (fresh_store (Some [first_row]) [''0001_init.sql''] failures_only) = (Inr (), w')
     \<and> sd_scripts w' = [''0001_init.sql'', ''0002_add_retry_count.sql''] \<and> pending migrations_FS w' = []"
proof -
  let ?w = "fresh_store (Some [first_row]) [''0001_init.sql''] failures_only"
  have rec: "recorded ?w"
    by (simp add: recorded_def versions_def fresh_store_def first_row_def embedded_versions)
  have p: "pending migrations_FS ?w = [''0002_add_retry_count.sql'']"
    by (simp add: pending_def embedded_names embedded_versions versions_def fresh_store_def first_row_def)
  obtain d where d: "exec_script retry_count_script failures_only = Inr ((), d)" using second_script by blast
  obtain r w' where m: "migrate migrations_FS ?w = (r, w')" by (cases "migrate migrations_FS ?w")
  then have "r = Inr ()"
    by (auto simp: migrate_def create_versions_def versions_there appliedMigrations_def embedded_names embedded_versions
        embedded_scripts applyMigration_def in_tx_def run_script_def d
        insert_version_def versions_def fresh_store_def first_row_def bindM_def mapErr_def modM_def getM_def
        external_def retM_def WallNow_def simp del: exec_ddl.simps)
  with migrate_resumes [OF rec m] m p show ?thesis by (simp add: fresh_store_def)
qed

end
