(* ===== verification/Hubctl.thy ===== *)
theory Hubctl
  imports Schema Config Rule_Service Query_Service Rebuild
begin

text \<open>
  The operations command (cmd/hubctl): the flags as the package flag reads them, and the six
  commands. The state is a store for every data directory. What is printed is the value that is
  printed; the exit codes are those of \<open>os.Exit\<close>, and \<open>Fatal\<close> stands for \<open>logger.Fatal\<close>, which exits
  with 1. Reading and creating a file and decoding JSON are parameters.
\<close>

section \<open>Flags\<close>

definition split_value :: "string \<Rightarrow> string \<times> string option" where
  \<comment> \<open>\<open>name=value\<close>, where the first character belongs to the name\<close>
  "split_value name =
     (let rest = dropWhile (\<lambda>c. c \<noteq> CHR ''='') (drop 1 name) in
      if rest = [] then (name, None)
      else (take 1 name @ takeWhile (\<lambda>c. c \<noteq> CHR ''='') (drop 1 name), Some (drop 1 rest)))"

datatype arg = NoFlag | BadFlag | GivenFlag string "string option"

definition read_arg :: "string \<Rightarrow> arg" where
  "read_arg s =
     (if length s < 2 \<or> take 1 s \<noteq> ''-'' \<or> s = ''--'' then NoFlag
      else
        let name = (if take 2 s = ''--'' then drop 2 s else drop 1 s) in
        if name = [] \<or> take 1 name = ''-'' \<or> take 1 name = ''='' then BadFlag
        else case split_value name of (name, value) \<Rightarrow> GivenFlag name value)"

datatype parsed = Flags "string \<rightharpoonup> string" | ExitWith int

function parse_flags :: "string set \<Rightarrow> (string \<rightharpoonup> string) \<Rightarrow> string list \<Rightarrow> parsed" where
  \<comment> \<open>\<open>FlagSet.Parse\<close> with \<open>ExitOnError\<close> and text flags only: the names defined, the values given
     so far, the arguments left\<close>
  "parse_flags names vals [] = Flags vals"
| "parse_flags names vals (s # args) = (case read_arg s of
      NoFlag \<Rightarrow> Flags vals
    | BadFlag \<Rightarrow> ExitWith 2
    | GivenFlag name value \<Rightarrow>
        if name \<notin> names then ExitWith (if name = ''help'' \<or> name = ''h'' then 0 else 2)
        else (case value of
            Some v \<Rightarrow> parse_flags names (vals(name \<mapsto> v)) args
          | None \<Rightarrow> (case args of [] \<Rightarrow> ExitWith 2
              | v # args' \<Rightarrow> parse_flags names (vals(name \<mapsto> v)) args')))"
  by pat_completeness auto

termination parse_flags
  by (relation "measure (\<lambda>(names, vals, args). length args)") auto

declare parse_flags.simps [simp del]

definition flag_value :: "(string \<rightharpoonup> string) \<Rightarrow> string \<Rightarrow> string \<Rightarrow> string" where
  "flag_value vals name default_value = (case vals name of None \<Rightarrow> default_value | Some v \<Rightarrow> v)"

section \<open>Commands\<close>

record tools =
  tl_outside :: outside
  tl_Unmarshal :: "string \<Rightarrow> err + BatchImportRequest"
  tl_Create :: "string \<Rightarrow> err + unit"
  tl_Orders :: range_orders
  tl_Migrations :: scripts

datatype printed =
    InitDone int
  | ImportDone BatchImportResult
  | ExportDone "item list" int string
  | ReconcileDone ReconcileReport
  | RebuildDone RebuildReport
  | DiagnoseDone DiagnoseReport

datatype outcome = Printed printed | Exit int | Fatal string err

type_synonym stores = "string \<Rightarrow> schemas"

type_synonym command = "schemas \<Rightarrow> outcome \<times> schemas"

definition fatal :: "string \<Rightarrow> (err, schemas, 'b) op \<Rightarrow> ('b \<Rightarrow> command) \<Rightarrow> command" where
  "fatal msg m k w = (case m w of (Inl e, w') \<Rightarrow> (Fatal msg e, w') | (Inr b, w') \<Rightarrow> k b w')"

definition openStore :: "tools \<Rightarrow> Config \<Rightarrow> (err, schemas, unit) op" where
  "openStore t cfg = mapErr (Wrap ''open store'') (NewStore (tl_Migrations t) (sto_DataDir (con_Storage cfg))
     (sto_ShardMaxSize (con_Storage cfg)) (sto_SyncOnWrite (con_Storage cfg)))"

definition default_rule :: CreateRuleRequest where
  "default_rule = \<lparr>cr_Name = ''default-dispatch'', cr_Description = ''default fallback rule for unclassified items'',
     cr_MatchKeywords = [], cr_MatchCategory = '''', cr_LeadDepartment = ''general-affairs-bureau'',
     cr_CoDepartments = [], cr_Priority = 0, cr_IsDefault = True, cr_CreatedBy = ''init'', cr_SupersedeVersion = 0\<rparr>"

definition runInit :: "tools \<Rightarrow> Config \<Rightarrow> command" where
  "runInit t cfg = fatal ''init failed'' (openStore t cfg) (\<lambda>_.
     fatal ''create default rule failed'' (CreateRule default_rule) (\<lambda>created.
     Pair (Printed (InitDone (rule_Version created)))))"

definition runImport :: "tools \<Rightarrow> Config \<Rightarrow> (string \<rightharpoonup> string) \<Rightarrow> string list \<Rightarrow> command" where
  \<comment> \<open>the values of the first parse, and the same arguments again\<close>
  "runImport t cfg vals args w = (case parse_flags {''data-dir'', ''config'', ''file''} vals args of
      ExitWith n \<Rightarrow> (Exit n, w)
    | Flags vals \<Rightarrow>
        let filePath = flag_value vals ''file'' '''' in
        if filePath = '''' then (Exit 1, w)
        else (case out_ReadFile (tl_outside t) filePath of
          Inl e \<Rightarrow> (Fatal ''read input file'' e, w)
        | Inr data \<Rightarrow> (case tl_Unmarshal t data of
            Inl e \<Rightarrow> (Fatal ''parse input JSON'' e, w)
          | Inr req \<Rightarrow>
              fatal ''open store'' (openStore t cfg) (\<lambda>_.
              fatal ''import failed'' (Import (biz_DefaultDeadline (con_Business cfg)) req) (\<lambda>result.
              Pair (Printed (ImportDone result)))) w)))"

definition flag_time :: "string \<Rightarrow> time" where
  "flag_time s = (if s = '''' then zero_time else case parse_rfc3339 s of None \<Rightarrow> zero_time | Some t \<Rightarrow> t)"

definition runExport :: "tools \<Rightarrow> Config \<Rightarrow> (string \<rightharpoonup> string) \<Rightarrow> string list \<Rightarrow> command" where
  "runExport t cfg vals args w =
     (case parse_flags {''data-dir'', ''config'', ''from'', ''to'', ''out''} vals args of
      ExitWith n \<Rightarrow> (Exit n, w)
    | Flags vals \<Rightarrow>
        let from = flag_time (flag_value vals ''from'' ''''); to = flag_time (flag_value vals ''to'' '''');
            outPath = flag_value vals ''out'' '''' in
        fatal ''open store'' (openStore t cfg) (\<lambda>_.
        fatal ''export failed'' (Export from to) (\<lambda>(items, total).
        fatal ''create output file'' (liftE (if outPath = '''' then Inr () else tl_Create t outPath)) (\<lambda>_.
        Pair (Printed (ExportDone items total outPath))))) w)"

definition runReconcile :: "tools \<Rightarrow> Config \<Rightarrow> command" where
  "runReconcile t cfg = fatal ''open store'' (openStore t cfg) (\<lambda>_.
     fatal ''reconcile failed'' Reconcile (\<lambda>report. Pair (Printed (ReconcileDone report))))"

definition runRebuildIndex :: "tools \<Rightarrow> Config \<Rightarrow> command" where
  "runRebuildIndex t cfg = fatal ''open store'' (openStore t cfg) (\<lambda>_.
     fatal ''rebuild index failed'' (RebuildIndex (tl_Orders t)) (\<lambda>report. Pair (Printed (RebuildDone report))))"

definition runDiagnose :: "tools \<Rightarrow> Config \<Rightarrow> command" where
  "runDiagnose t cfg = fatal ''open store'' (openStore t cfg) (\<lambda>_ w.
     fatal ''diagnose failed'' (Diagnose (map sv_version (versions w))) (\<lambda>report.
     Pair (Printed (DiagnoseDone report))) w)"

definition run_command :: "tools \<Rightarrow> Config \<Rightarrow> string \<Rightarrow> (string \<rightharpoonup> string) \<Rightarrow> string list \<Rightarrow> command" where
  "run_command t cfg cmd vals args =
     (if cmd = ''init'' then runInit t cfg
      else if cmd = ''import'' then runImport t cfg vals args
      else if cmd = ''export'' then runExport t cfg vals args
      else if cmd = ''reconcile'' then runReconcile t cfg
      else if cmd = ''rebuild-index'' then runRebuildIndex t cfg
      else if cmd = ''diagnose'' then runDiagnose t cfg
      else Pair (Exit 1))"

fun hubctl :: "tools \<Rightarrow> string list \<Rightarrow> stores \<Rightarrow> outcome \<times> stores" where
  \<comment> \<open>the function \<open>main\<close>, with the arguments behind the name of the program\<close>
  "hubctl t [] st = (Exit 1, st)"
| "hubctl t (cmd # args) st = (case parse_flags {''data-dir'', ''config''} Map.empty args of
      ExitWith n \<Rightarrow> (Exit n, st)
    | Flags vals \<Rightarrow> (case Load (tl_outside t) (flag_value vals ''config'' '''') of
        Inl e \<Rightarrow> (Exit 1, st)
      | Inr cfg \<Rightarrow>
          let dir = flag_value vals ''data-dir'' ''./data'';
              cfg = (if dir \<noteq> '''' then cfg\<lparr>con_Storage := (con_Storage cfg)\<lparr>sto_DataDir := dir\<rparr>\<rparr> else cfg);
              dir = sto_DataDir (con_Storage cfg)
          in (case run_command t cfg cmd vals args (st dir) of (r, w) \<Rightarrow> (r, st(dir := w)))))"

section \<open>What the flags can say\<close>

text \<open>
  Arguments that one set of flags accepts are accepted by a larger one, which then gives no value
  to the additional flags.
\<close>

lemma parse_flags_larger:
  assumes "parse_flags names vals args = Flags out" and "names \<subseteq> names'"
  shows "\<exists>out'. parse_flags names' vals' args = Flags out' \<and> (\<forall>n. n \<notin> names \<longrightarrow> out' n = vals' n)"
  using assms(1)
proof (induction args arbitrary: vals vals' out rule: length_induct)
  case (1 args)
  show ?case
  proof (cases args)
    case Nil
    then show ?thesis by (simp add: parse_flags.simps)
  next
    case (Cons s rest)
    show ?thesis
    proof (cases "read_arg s")
      case NoFlag
      then show ?thesis by (simp add: Cons parse_flags.simps)
    next
      case BadFlag
      with "1.prems" Cons show ?thesis by (simp add: parse_flags.simps)
    next
      case (GivenFlag name given)
      have step: "\<exists>out'. parse_flags names' (vals'(name \<mapsto> v)) r = Flags out' \<and> (\<forall>n. n \<notin> names \<longrightarrow> out' n = vals' n)"
        if "parse_flags names (vals(name \<mapsto> v)) r = Flags out" "length r < length args" "name \<in> names" for v r
      proof -
        from "1.IH" that(1,2) obtain out' where "parse_flags names' (vals'(name \<mapsto> v)) r = Flags out'"
          "\<forall>n. n \<notin> names \<longrightarrow> out' n = (vals'(name \<mapsto> v)) n" by blast
        with that(3) show ?thesis by fastforce
      qed
      have "name \<in> names" "name \<in> names'"
        using "1.prems" GivenFlag Cons assms(2) by (auto simp: parse_flags.simps split: if_split_asm)
      note unfold = parse_flags.simps(2) [of names vals s rest] parse_flags.simps(2) [of names' vals' s rest]
      from "1.prems" have run: "parse_flags names vals (s # rest) = Flags out" by (simp add: Cons)
      show ?thesis
        using run GivenFlag Cons \<open>name \<in> names\<close> \<open>name \<in> names'\<close>
        by (simp add: unfold step split: option.split_asm list.split_asm)
    qed
  qed
qed

lemma new_flag_unset:
  "parse_flags names vals args = Flags out \<Longrightarrow> n \<notin> names
    \<Longrightarrow> \<exists>out'. parse_flags (insert n names) vals' args = Flags out' \<and> out' n = vals' n"
  using parse_flags_larger [of names vals args out "insert n names" vals'] by blast

lemma flags_from_defined: "parse_flags names vals args = Flags out \<Longrightarrow> n \<notin> names \<Longrightarrow> out n = vals n"
  using parse_flags_larger [of names vals args out names vals] by auto

lemma import_exits: "\<exists>n. hubctl t (''import'' # args) st = (Exit n, st)"
proof (cases "parse_flags {''data-dir'', ''config''} Map.empty args")
  case (Flags vals)
  obtain a where a: "parse_flags {''data-dir'', ''config'', ''file''} vals args = Flags a" "a ''file'' = None"
    using parse_flags_larger [OF Flags, of "{''data-dir'', ''config'', ''file''}" vals] flags_from_defined [OF Flags] by force
  have "runImport t c vals args w = (Exit 1, w)" for c w
    using a by (simp add: runImport_def flag_value_def)
  with Flags show ?thesis by (simp add: run_command_def Let_def split: sum.split)
qed simp

lemma export_runs:
  "case parse_flags {''data-dir'', ''config''} Map.empty args of
     ExitWith n \<Rightarrow> hubctl t (''export'' # args) st = (Exit n, st)
   | Flags vals \<Rightarrow> (case Load (tl_outside t) (flag_value vals ''config'' '''') of
       Inl e \<Rightarrow> hubctl t (''export'' # args) st = (Exit 1, st)
     | Inr cfg \<Rightarrow>
         let given = flag_value vals ''data-dir'' ''./data'';
             dir = (if given = '''' then sto_DataDir (con_Storage cfg) else given) in
         (case openStore t (cfg\<lparr>con_Storage := (con_Storage cfg)\<lparr>sto_DataDir := dir\<rparr>\<rparr>) (st dir) of
           (Inl e, w) \<Rightarrow> hubctl t (''export'' # args) st = (Fatal ''open store'' e, st(dir := w))
         | (Inr u, w) \<Rightarrow> (case Export zero_time zero_time w of
             (Inl e, w') \<Rightarrow> hubctl t (''export'' # args) st = (Fatal ''export failed'' e, st(dir := w'))
           | (Inr (items, n), w') \<Rightarrow> hubctl t (''export'' # args) st = (Printed (ExportDone items n ''''), st(dir := w'))
               \<and> int (length items) = max 0 (min 200 n))))"
proof (cases "parse_flags {''data-dir'', ''config''} Map.empty args")
  case (Flags vals)
  obtain b where b: "parse_flags {''data-dir'', ''config'', ''from'', ''to'', ''out''} vals args = Flags b"
      "b ''from'' = None" "b ''to'' = None" "b ''out'' = None"
    using parse_flags_larger [OF Flags, of "{''data-dir'', ''config'', ''from'', ''to'', ''out''}" vals]
      flags_from_defined [OF Flags] by force
  have run: "runExport t c vals args w = fatal ''open store'' (openStore t c) (\<lambda>_.
      fatal ''export failed'' (Export zero_time zero_time) (\<lambda>(items, total). Pair (Printed (ExportDone items total '''')))) w" for c w
    using b by (auto simp: runExport_def flag_value_def flag_time_def fatal_def liftE_def split: prod.split sum.split)
  show ?thesis
  proof (cases "Load (tl_outside t) (flag_value vals ''config'' '''')")
    case (Inr cfg)
    have same: "cfg\<lparr>con_Storage := (con_Storage cfg)\<lparr>sto_DataDir := sto_DataDir (con_Storage cfg)\<rparr>\<rparr> = cfg" by simp
    show ?thesis
      using Flags Inr by (auto simp: run_command_def run fatal_def Let_def same split: prod.split sum.split dest: Export_length)
  qed (simp add: Flags)
qed simp

text \<open>
  C26: The flags of \<open>import\<close> and \<open>export\<close> cannot be used. \<open>hubctl import\<close> exits with a code and touches
  no store, whatever its arguments. A first argument that gives \<open>file\<close>, \<open>from\<close>, \<open>to\<close> or \<open>out\<close> ends any
  command with the code 2. \<open>hubctl export\<close> exits with the code of the first parse of the arguments, if
  that ends the program, and with 1 if the configuration cannot be loaded; otherwise it opens the
  store of the chosen directory and exports from it, without limits of time and to the standard output:
  the first two hundred cases at most, with the number of all; or it ends with the failure of one of
  these two steps. The first parse knows the flags of all commands only.
\<close>

theorem import_and_export_flags:
  "(\<exists>n. hubctl t (''import'' # args) st = (Exit n, st))
   \<and> (case read_arg s of
        GivenFlag name given \<Rightarrow> if name \<in> {''file'', ''from'', ''to'', ''out''} then hubctl t (cmd # s # args) st = (Exit 2, st) else True
      | _ \<Rightarrow> True)
   \<and> (case parse_flags {''data-dir'', ''config''} Map.empty args of
        ExitWith n \<Rightarrow> hubctl t (''export'' # args) st = (Exit n, st)
      | Flags vals \<Rightarrow> (case Load (tl_outside t) (flag_value vals ''config'' '''') of
          Inl e \<Rightarrow> hubctl t (''export'' # args) st = (Exit 1, st)
        | Inr cfg \<Rightarrow>
            let given = flag_value vals ''data-dir'' ''./data'';
                dir = (if given = '''' then sto_DataDir (con_Storage cfg) else given) in
            (case openStore t (cfg\<lparr>con_Storage := (con_Storage cfg)\<lparr>sto_DataDir := dir\<rparr>\<rparr>) (st dir) of
              (Inl e, w) \<Rightarrow> hubctl t (''export'' # args) st = (Fatal ''open store'' e, st(dir := w))
            | (Inr u, w) \<Rightarrow> (case Export zero_time zero_time w of
                (Inl e, w') \<Rightarrow> hubctl t (''export'' # args) st = (Fatal ''export failed'' e, st(dir := w'))
              | (Inr (items, n), w') \<Rightarrow> hubctl t (''export'' # args) st = (Printed (ExportDone items n ''''), st(dir := w'))
                  \<and> int (length items) = max 0 (min 200 n)))))"
proof (intro conjI)
  show "case read_arg s of
      GivenFlag name given \<Rightarrow> if name \<in> {''file'', ''from'', ''to'', ''out''} then hubctl t (cmd # s # args) st = (Exit 2, st) else True
    | _ \<Rightarrow> True"
    by (auto simp: parse_flags.simps(2) split: arg.split)
  show "\<exists>n. hubctl t (''import'' # args) st = (Exit n, st)" by (rule import_exits)
qed (rule export_runs)

text \<open>
  Which store a command works on. Only one directory can be touched: the one of the flag
  \<open>-data-dir\<close>, which is \<open>./data\<close> when the flag is not given; the directory of the configuration
  counts only if the flag is given an empty value.
\<close>

theorem hubctl_data_dir:
  "case parse_flags {''data-dir'', ''config''} Map.empty args of
     ExitWith n \<Rightarrow> hubctl t (cmd # args) st = (Exit n, st)
   | Flags vals \<Rightarrow> \<exists>dir.
       (dir = flag_value vals ''data-dir'' ''./data'' \<or> flag_value vals ''data-dir'' ''./data'' = ''''
          \<and> (\<exists>cfg. Load (tl_outside t) (flag_value vals ''config'' '''') = Inr cfg \<and> dir = sto_DataDir (con_Storage cfg)))
       \<and> (\<forall>d. d \<noteq> dir \<longrightarrow> snd (hubctl t (cmd # args) st) d = st d)"
proof (cases "parse_flags {''data-dir'', ''config''} Map.empty args")
  case (Flags vals)
  show ?thesis
  proof (cases "Load (tl_outside t) (flag_value vals ''config'' '''')")
    case (Inr cfg)
    let ?dir = "flag_value vals ''data-dir'' ''./data''"
    show ?thesis unfolding Flags parsed.case using Flags Inr
      by (intro exI [of _ "if ?dir = '''' then sto_DataDir (con_Storage cfg) else ?dir"])
         (auto simp: Let_def split: prod.split)
  qed (simp add: Flags)
qed simp

end
