(* ===== verification/Hub_AI.thy ===== *)
theory Hub_AI
  imports Go_Runtime Go_Strings
begin

text \<open>
  The AI side of the package internal/hub: applications of enterprises for computing power,
  clusters, routes, service offers, scenes and communities (ai_models.go), the policy that they
  obey (ai_policy.go), the registry that keeps them (ai_registry.go) and its services
  (ai_service.go). Each service holds the registry's lock from its first look at it to its last
  write, so an operation is one step. A Go map is a function from keys to optional values; the
  order in which the runtime ranges over one is an argument.
\<close>

section \<open>Data\<close>

datatype AIApplicationStatus =
    ApplicationPending | ApplicationApproved | ApplicationActive | ApplicationReturned
  | ApplicationClosed | ApplicationCancelled | ApplicationOther string

fun application_status_name :: "AIApplicationStatus \<Rightarrow> string" where
  "application_status_name ApplicationPending = ''pending''"
| "application_status_name ApplicationApproved = ''approved''"
| "application_status_name ApplicationActive = ''active''"
| "application_status_name ApplicationReturned = ''returned''"
| "application_status_name ApplicationClosed = ''closed''"
| "application_status_name ApplicationCancelled = ''cancelled''"
| "application_status_name (ApplicationOther s) = s"

record EnterpriseApplication =
  app_ID :: string
  app_TenantID :: string
  app_ApplicantID :: string
  app_CompanyName :: string
  app_Industry :: string
  app_ASEANCountry :: string
  app_Status :: AIApplicationStatus
  app_Materials :: "string list"
  app_RequestedPetaops :: int
  app_RouteID :: string
  app_ServiceOfferID :: string
  app_RuleVersion :: int
  app_Attempt :: int
  app_Deadline :: time
  app_CreatedAt :: time
  app_UpdatedAt :: time
  app_Version :: int

record ComputeReservation =
  res_ApplicationID :: string
  res_ClusterID :: string
  res_Petaops :: int
  res_ReservedAt :: time
  res_ReleasedAt :: "time option"

record ComputeCluster =
  clu_ID :: string
  clu_Region :: string
  clu_TotalPetaops :: int
  clu_Allocated :: int
  clu_Version :: int

record CrossBorderRoute =
  rou_ID :: string
  rou_TenantID :: string
  rou_Country :: string
  rou_CapacityMbps :: int
  rou_AllocatedMbps :: int
  rou_LatencyTarget :: duration
  rou_Active :: bool
  rou_Version :: int

record ServiceOffer =
  off_ID :: string
  off_ProviderID :: string
  off_Kind :: string
  off_Countries :: "string list"
  off_Capacity :: int
  off_Used :: int
  off_EffectiveFrom :: time
  off_EffectiveTo :: time
  off_Version :: int

record SceneSubmission =
  sce_ID :: string
  sce_TenantID :: string
  sce_OwnerID :: string
  sce_SceneType :: string
  sce_Status :: string
  sce_Evidence :: "string list"
  sce_ApplicationID :: string
  sce_SubmittedAt :: time
  sce_ReviewedAt :: "time option"
  sce_Version :: int

record OPCCommunity =
  com_ID :: string
  com_Name :: string
  com_Capacity :: int
  com_MemberIDs :: "string list"
  com_MentorIDs :: "string list"
  com_Milestones :: "string \<rightharpoonup> string"
  com_Version :: int

record AIServiceEvent =
  evt_ID :: string
  evt_TenantID :: string
  evt_EntityID :: string
  evt_Action :: string
  evt_ActorID :: string
  evt_At :: time
  evt_Metadata :: "string \<rightharpoonup> string"

record AIQuery =
  aq_TenantID :: string
  aq_Status :: AIApplicationStatus
  aq_Country :: string
  aq_Offset :: int
  aq_Limit :: int

record AIQueryResult =
  ar_Applications :: "EnterpriseApplication list"
  ar_Total :: int

record ai = runtime +
  ai_applications :: "string \<rightharpoonup> EnterpriseApplication"
  ai_clusters :: "string \<rightharpoonup> ComputeCluster"
  ai_reservations :: "string \<rightharpoonup> ComputeReservation"
  ai_routes :: "string \<rightharpoonup> CrossBorderRoute"
  ai_offers :: "string \<rightharpoonup> ServiceOffer"
  ai_scenes :: "string \<rightharpoonup> SceneSubmission"
  ai_communities :: "string \<rightharpoonup> OPCCommunity"
  ai_events :: "AIServiceEvent list"

section \<open>Errors\<close>

definition ErrAIApplicationNotFound :: err where "ErrAIApplicationNotFound = ErrNamed ''ai application not found''"
definition ErrAIClusterNotFound :: err where "ErrAIClusterNotFound = ErrNamed ''compute cluster not found''"
definition ErrAIRouteNotFound :: err where "ErrAIRouteNotFound = ErrNamed ''cross-border route not found''"
definition ErrAIOfferNotFound :: err where "ErrAIOfferNotFound = ErrNamed ''service offer not found''"
definition ErrAISceneNotFound :: err where "ErrAISceneNotFound = ErrNamed ''scene submission not found''"
definition ErrAIOPCNotFound :: err where "ErrAIOPCNotFound = ErrNamed ''opc community not found''"
definition ErrAIConflict :: err where "ErrAIConflict = ErrNamed ''ai resource version conflict''"
definition ErrAIInvalidState :: err where "ErrAIInvalidState = ErrNamed ''invalid ai workflow state''"
definition ErrAICapacity :: err where "ErrAICapacity = ErrNamed ''ai resource capacity exhausted''"
definition ErrAIAuthorization :: err where "ErrAIAuthorization = ErrNamed ''ai operation is not authorized''"
definition ErrAIValidation :: err where "ErrAIValidation = ErrNamed ''ai request validation failed''"

lemmas ai_errors = ErrAIApplicationNotFound_def ErrAIClusterNotFound_def ErrAIRouteNotFound_def ErrAIOfferNotFound_def
  ErrAISceneNotFound_def ErrAIOPCNotFound_def ErrAIConflict_def ErrAIInvalidState_def ErrAICapacity_def
  ErrAIAuthorization_def ErrAIValidation_def

section \<open>Policy\<close>

definition allowedASEANCountries :: "string list" where
  "allowedASEANCountries = [''VN'', ''TH'', ''ID'', ''MY'', ''SG'', ''KH'', ''PH'', ''LA'', ''MM'', ''BN'']"

definition normalizeCountry :: "string \<Rightarrow> string" where
  "normalizeCountry country = ToUpper (TrimSpace country)"

definition validateApplicationInput :: "EnterpriseApplication \<Rightarrow> err option" where
  "validateApplicationInput a =
     (if app_ID a = '''' \<or> app_TenantID a = '''' \<or> app_ApplicantID a = '''' \<or> TrimSpace (app_CompanyName a) = '''' then
        Some (Detail ErrAIValidation ''identity'')
      else if ToUpper (TrimSpace (app_ASEANCountry a)) \<notin> set allowedASEANCountries then
        Some (Detail ErrAIValidation ''ASEAN country'')
      else if app_RequestedPetaops a \<le> 0 \<or> app_RequestedPetaops a > 5000 then
        Some (Detail ErrAIValidation ''requested compute'')
      else if app_Materials a = [] then Some (Detail ErrAIValidation ''materials'')
      else None)"

fun validApplicationTransition :: "AIApplicationStatus \<Rightarrow> AIApplicationStatus \<Rightarrow> bool" where
  "validApplicationTransition ApplicationPending to =
     (to = ApplicationApproved \<or> to = ApplicationReturned \<or> to = ApplicationCancelled)"
| "validApplicationTransition ApplicationReturned to = (to = ApplicationPending \<or> to = ApplicationCancelled)"
| "validApplicationTransition ApplicationApproved to = (to = ApplicationActive \<or> to = ApplicationCancelled)"
| "validApplicationTransition ApplicationActive to = (to = ApplicationClosed)"
| "validApplicationTransition ApplicationClosed to = False"
| "validApplicationTransition ApplicationCancelled to = False"
| "validApplicationTransition (ApplicationOther s) to = False"

definition offerOutsideWindow :: "ServiceOffer \<Rightarrow> time \<Rightarrow> bool" where
  "offerOutsideWindow offer at \<longleftrightarrow> Before at (off_EffectiveFrom offer) \<or> After at (off_EffectiveTo offer)"

definition offerAvailable :: "ServiceOffer \<Rightarrow> string \<Rightarrow> time \<Rightarrow> bool" where
  "offerAvailable offer country at =
     (if offerOutsideWindow offer at then False
      else if off_Used offer \<ge> off_Capacity offer then False
      else list_ex (\<lambda>candidate. normalizeCountry candidate = normalizeCountry country) (off_Countries offer))"

definition sceneCanApprove :: "SceneSubmission \<Rightarrow> err option" where
  "sceneCanApprove scene =
     (if sce_Status scene \<noteq> ''submitted'' then Some (Detail ErrAIInvalidState (''scene status '' @ sce_Status scene))
      else if TrimSpace (sce_OwnerID scene) = '''' \<or> length (sce_Evidence scene) < 2 then
        Some (Detail ErrAIValidation ''scene evidence'')
      else None)"

definition computeAvailable :: "ComputeCluster \<Rightarrow> int \<Rightarrow> bool" where
  "computeAvailable cluster requested \<longleftrightarrow>
     requested > 0 \<and> wrap64 (clu_TotalPetaops cluster - clu_Allocated cluster) \<ge> requested"

section \<open>Registry\<close>

definition NewAIRegistry :: "runtime \<Rightarrow> ai" where
  "NewAIRegistry rt = runtime.extend rt \<lparr>ai_applications = Map.empty, ai_clusters = Map.empty, ai_reservations = Map.empty,
     ai_routes = Map.empty, ai_offers = Map.empty, ai_scenes = Map.empty, ai_communities = Map.empty, ai_events = []\<rparr>"

definition AddCluster :: "ComputeCluster \<Rightarrow> (err, 'a ai_scheme, unit) op" where
  "AddCluster cluster =
     bindM external (\<lambda>_.
     if clu_ID cluster = '''' \<or> clu_TotalPetaops cluster \<le> 0 then failM (Detail ErrAIValidation ''cluster'')
     else bindM (getM (\<lambda>w. ai_clusters w (clu_ID cluster))) (\<lambda>r.
       if r \<noteq> None then failM (Detail ErrAIConflict ''cluster exists'')
       else modM (\<lambda>w. w\<lparr>ai_clusters := (ai_clusters w)(clu_ID cluster \<mapsto> cluster)\<rparr>)))"

definition AddRoute :: "CrossBorderRoute \<Rightarrow> (err, 'a ai_scheme, unit) op" where
  "AddRoute route =
     bindM external (\<lambda>_.
     if rou_ID route = '''' \<or> rou_TenantID route = '''' \<or> rou_Country route = '''' \<or> rou_CapacityMbps route \<le> 0 then
       failM (Detail ErrAIValidation ''route'')
     else bindM (getM (\<lambda>w. ai_routes w (rou_ID route))) (\<lambda>r.
       if r \<noteq> None then failM (Detail ErrAIConflict ''route exists'')
       else modM (\<lambda>w. w\<lparr>ai_routes := (ai_routes w)(rou_ID route \<mapsto> route)\<rparr>)))"

definition AddOffer :: "ServiceOffer \<Rightarrow> (err, 'a ai_scheme, unit) op" where
  "AddOffer offer =
     bindM external (\<lambda>_.
     if off_ID offer = '''' \<or> off_ProviderID offer = '''' \<or> off_Capacity offer \<le> 0
       \<or> \<not> Before (off_EffectiveFrom offer) (off_EffectiveTo offer) then failM (Detail ErrAIValidation ''offer'')
     else bindM (getM (\<lambda>w. ai_offers w (off_ID offer))) (\<lambda>r.
       if r \<noteq> None then failM (Detail ErrAIConflict ''offer exists'')
       else modM (\<lambda>w. w\<lparr>ai_offers := (ai_offers w)(off_ID offer \<mapsto> offer)\<rparr>)))"

definition AddCommunity :: "OPCCommunity \<Rightarrow> (err, 'a ai_scheme, unit) op" where
  "AddCommunity community =
     bindM external (\<lambda>_.
     if com_ID community = '''' \<or> com_Capacity community \<le> 0 then failM (Detail ErrAIValidation ''community'')
     else bindM (getM (\<lambda>w. ai_communities w (com_ID community))) (\<lambda>r.
       if r \<noteq> None then failM (Detail ErrAIConflict ''community exists'')
       else modM (\<lambda>w. w\<lparr>ai_communities := (ai_communities w)(com_ID community \<mapsto> community)\<rparr>)))"

definition service_now :: "(err, 'a runtime_scheme, time) op" where
  \<comment> \<open>\<open>nowOr(s.now())\<close>\<close>
  "service_now = bindM Now (\<lambda>t. if IsZero t then WallNow else retM t)"

definition nowOr :: "time \<Rightarrow> (err, 'a runtime_scheme, time) op" where
  "nowOr t = (if IsZero t then WallNow else retM t)"

definition add_event :: "AIServiceEvent \<Rightarrow> (err, 'a ai_scheme, unit) op" where
  "add_event e = modM (\<lambda>w. w\<lparr>ai_events := ai_events w @ [e]\<rparr>)"

definition set_application :: "string \<Rightarrow> EnterpriseApplication \<Rightarrow> 'a ai_scheme \<Rightarrow> 'a ai_scheme" where
  "set_application k a w = w\<lparr>ai_applications := (ai_applications w)(k \<mapsto> a)\<rparr>"

section \<open>Services\<close>

definition SubmitApplication :: "EnterpriseApplication \<Rightarrow> (err, 'a ai_scheme, EnterpriseApplication) op" where
  "SubmitApplication a =
     bindM external (\<lambda>_.
     bindM (check (validateApplicationInput a)) (\<lambda>_.
     bindM service_now (\<lambda>now.
     let a = a\<lparr>app_CompanyName := TrimSpace (app_CompanyName a), app_ASEANCountry := normalizeCountry (app_ASEANCountry a),
               app_Status := ApplicationPending, app_Attempt := 1, app_CreatedAt := now, app_UpdatedAt := now\<rparr> in
     bindM (getM (\<lambda>w. ai_applications w (app_ID a))) (\<lambda>r.
     if r \<noteq> None then failM (Detail ErrAIConflict ''application exists'')
     else bindM (modM (set_application (app_ID a) a)) (\<lambda>_.
       bindM (add_event \<lparr>evt_ID = app_ID a @ ''-submitted'', evt_TenantID = app_TenantID a, evt_EntityID = app_ID a,
          evt_Action = ''application.submitted'', evt_ActorID = app_ApplicantID a, evt_At = now, evt_Metadata = Map.empty\<rparr>) (\<lambda>_.
       retM a))))))"

definition ReserveCompute :: "string \<Rightarrow> string \<Rightarrow> int \<Rightarrow> (err, 'a ai_scheme, ComputeReservation) op" where
  "ReserveCompute applicationID clusterID petaops =
     bindM external (\<lambda>_.
     if petaops \<le> 0 then failM (Detail ErrAIValidation ''compute amount'')
     else bindM service_now (\<lambda>now.
       bindM (fetch (\<lambda>w. ai_applications w applicationID) ErrAIApplicationNotFound) (\<lambda>application.
       bindM (fetch (\<lambda>w. ai_clusters w clusterID) ErrAIClusterNotFound) (\<lambda>cluster.
       if app_Status application \<noteq> ApplicationPending \<and> app_Status application \<noteq> ApplicationReturned then
         failM (Detail ErrAIInvalidState ''reservation requires pending application'')
       else if \<not> computeAvailable cluster petaops then failM ErrAICapacity
       else bindM (getM (\<lambda>w. ai_reservations w applicationID)) (\<lambda>r.
         let reserve =
             (let cluster = cluster\<lparr>clu_Allocated := wrap64 (clu_Allocated cluster + petaops),
                    clu_Version := wrap64 (clu_Version cluster + 1)\<rparr>;
                  reservation = \<lparr>res_ApplicationID = applicationID, res_ClusterID = clusterID, res_Petaops = petaops,
                    res_ReservedAt = now, res_ReleasedAt = None\<rparr>;
                  application = application\<lparr>app_UpdatedAt := now, app_Version := wrap64 (app_Version application + 1)\<rparr>
              in bindM (modM (\<lambda>w. w\<lparr>ai_clusters := (ai_clusters w)(clusterID \<mapsto> cluster),
                    ai_reservations := (ai_reservations w)(applicationID \<mapsto> reservation),
                    ai_applications := (ai_applications w)(applicationID \<mapsto> application)\<rparr>)) (\<lambda>_. retM reservation))
         in (case r of
              Some existing \<Rightarrow> if res_ReleasedAt existing = None then retM existing else reserve
            | None \<Rightarrow> reserve))))))"

definition ReleaseCompute :: "string \<Rightarrow> (err, 'a ai_scheme, unit) op" where
  "ReleaseCompute applicationID =
     bindM external (\<lambda>_.
     bindM service_now (\<lambda>now.
     bindM (getM (\<lambda>w. ai_reservations w applicationID)) (\<lambda>r.
     case r of
       None \<Rightarrow> retM ()
     | Some reservation \<Rightarrow>
         if res_ReleasedAt reservation \<noteq> None then retM ()
         else bindM (fetch (\<lambda>w. ai_clusters w (res_ClusterID reservation)) ErrAIClusterNotFound) (\<lambda>cluster.
           if clu_Allocated cluster < res_Petaops reservation then
             failM (Detail ErrAIConflict ''allocated compute underflow'')
           else
             let cluster = cluster\<lparr>clu_Allocated := wrap64 (clu_Allocated cluster - res_Petaops reservation),
                   clu_Version := wrap64 (clu_Version cluster + 1)\<rparr>;
                 reservation = reservation\<lparr>res_ReleasedAt := Some now\<rparr>
             in modM (\<lambda>w. w\<lparr>ai_clusters := (ai_clusters w)(clu_ID cluster \<mapsto> cluster),
                  ai_reservations := (ai_reservations w)(applicationID \<mapsto> reservation)\<rparr>)))))"

definition ApproveApplication :: "string \<Rightarrow> string \<Rightarrow> (err, 'a ai_scheme, EnterpriseApplication) op" where
  "ApproveApplication applicationID actorID =
     bindM external (\<lambda>_.
     bindM service_now (\<lambda>now.
     bindM (fetch (\<lambda>w. ai_applications w applicationID) ErrAIApplicationNotFound) (\<lambda>application.
     if actorID = '''' then failM ErrAIAuthorization
     else if \<not> validApplicationTransition (app_Status application) ApplicationApproved then
       failM (Detail ErrAIInvalidState (''approve from '' @ application_status_name (app_Status application)))
     else bindM (fetch (\<lambda>w. ai_reservations w applicationID) (Detail ErrAICapacity ''compute is not reserved'')) (\<lambda>_.
       bindM (if app_RouteID application \<noteq> '''' then
           bindM (fetch (\<lambda>w. ai_routes w (app_RouteID application)) (Detail ErrAIRouteNotFound ''route unavailable'')) (\<lambda>route.
           if \<not> rou_Active route then failM (Detail ErrAIRouteNotFound ''route unavailable'') else retM ())
         else retM ()) (\<lambda>_.
       let application = application\<lparr>app_Status := ApplicationApproved, app_UpdatedAt := now,
             app_Version := wrap64 (app_Version application + 1)\<rparr> in
       bindM (modM (set_application applicationID application)) (\<lambda>_.
       bindM (add_event \<lparr>evt_ID = applicationID @ ''-approved'', evt_TenantID = '''', evt_EntityID = applicationID,
          evt_Action = ''application.approved'', evt_ActorID = actorID, evt_At = now, evt_Metadata = Map.empty\<rparr>) (\<lambda>_.
       retM application)))))))"

definition AssignRoute :: "string \<Rightarrow> string \<Rightarrow> int \<Rightarrow> (err, 'a ai_scheme, unit) op" where
  "AssignRoute applicationID routeID mbps =
     bindM external (\<lambda>_.
     if mbps \<le> 0 then failM (Detail ErrAIValidation ''route capacity'')
     else bindM (fetch (\<lambda>w. ai_applications w applicationID) ErrAIApplicationNotFound) (\<lambda>application.
       bindM (fetch (\<lambda>w. ai_routes w routeID) ErrAIRouteNotFound) (\<lambda>route.
       if rou_TenantID route \<noteq> app_TenantID application
         \<or> normalizeCountry (rou_Country route) \<noteq> normalizeCountry (app_ASEANCountry application) then
         failM (Detail ErrAIAuthorization ''route tenant or country'')
       else if \<not> rou_Active route \<or> wrap64 (rou_CapacityMbps route - rou_AllocatedMbps route) < mbps then failM ErrAICapacity
       else
         let route = route\<lparr>rou_AllocatedMbps := wrap64 (rou_AllocatedMbps route + mbps),
               rou_Version := wrap64 (rou_Version route + 1)\<rparr>;
             application = application\<lparr>app_RouteID := routeID, app_Version := wrap64 (app_Version application + 1)\<rparr>
         in modM (\<lambda>w. w\<lparr>ai_routes := (ai_routes w)(routeID \<mapsto> route),
              ai_applications := (ai_applications w)(applicationID \<mapsto> application)\<rparr>))))"

definition PublishScene :: "SceneSubmission \<Rightarrow> (err, 'a ai_scheme, SceneSubmission) op" where
  "PublishScene scene =
     bindM external (\<lambda>_.
     if sce_ID scene = '''' \<or> sce_TenantID scene = '''' \<or> TrimSpace (sce_OwnerID scene) = '''' \<or> sce_ApplicationID scene = '''' then
       failM (Detail ErrAIValidation ''scene identity'')
     else if length (sce_Evidence scene) < 2 then failM (Detail ErrAIValidation ''at least two evidence items'')
     else bindM service_now (\<lambda>now.
       let scene = scene\<lparr>sce_OwnerID := TrimSpace (sce_OwnerID scene), sce_Status := ''submitted'', sce_SubmittedAt := now\<rparr> in
       bindM (getM (\<lambda>w. ai_scenes w (sce_ID scene))) (\<lambda>r.
       if r \<noteq> None then failM (Detail ErrAIConflict ''scene exists'')
       else bindM (fetch (\<lambda>w. ai_applications w (sce_ApplicationID scene)) ErrAIApplicationNotFound) (\<lambda>application.
         if app_TenantID application \<noteq> sce_TenantID scene then failM ErrAIApplicationNotFound
         else bindM (modM (\<lambda>w. w\<lparr>ai_scenes := (ai_scenes w)(sce_ID scene \<mapsto> scene)\<rparr>)) (\<lambda>_. retM scene)))))"

definition ApproveScene :: "string \<Rightarrow> string \<Rightarrow> (err, 'a ai_scheme, SceneSubmission) op" where
  "ApproveScene sceneID reviewerID =
     bindM external (\<lambda>_.
     if reviewerID = '''' then failM ErrAIAuthorization
     else bindM service_now (\<lambda>now.
       bindM (fetch (\<lambda>w. ai_scenes w sceneID) ErrAISceneNotFound) (\<lambda>scene.
       bindM (check (sceneCanApprove scene)) (\<lambda>_.
       let scene = scene\<lparr>sce_Status := ''approved'', sce_Version := wrap64 (sce_Version scene + 1), sce_ReviewedAt := Some now\<rparr> in
       bindM (modM (\<lambda>w. w\<lparr>ai_scenes := (ai_scenes w)(sceneID \<mapsto> scene)\<rparr>)) (\<lambda>_. retM scene)))))"

definition ApplyOffer :: "string \<Rightarrow> string \<Rightarrow> time \<Rightarrow> (err, 'a ai_scheme, unit) op" where
  "ApplyOffer applicationID offerID now =
     bindM external (\<lambda>_.
     bindM (fetch (\<lambda>w. ai_applications w applicationID) ErrAIApplicationNotFound) (\<lambda>application.
     bindM (fetch (\<lambda>w. ai_offers w offerID) ErrAIOfferNotFound) (\<lambda>offer.
     bindM (nowOr now) (\<lambda>at.
     if \<not> offerAvailable offer (app_ASEANCountry application) at then failM ErrAICapacity
     else
       let offer = offer\<lparr>off_Used := wrap64 (off_Used offer + 1), off_Version := wrap64 (off_Version offer + 1)\<rparr>;
           application = application\<lparr>app_ServiceOfferID := offerID, app_Version := wrap64 (app_Version application + 1)\<rparr>
       in modM (\<lambda>w. w\<lparr>ai_offers := (ai_offers w)(offerID \<mapsto> offer),
            ai_applications := (ai_applications w)(applicationID \<mapsto> application)\<rparr>)))))"

definition EnrollOPC :: "string \<Rightarrow> string \<Rightarrow> (err, 'a ai_scheme, OPCCommunity) op" where
  "EnrollOPC communityID memberID =
     bindM external (\<lambda>_.
     if TrimSpace memberID = '''' then failM (Detail ErrAIValidation ''member'')
     else bindM (fetch (\<lambda>w. ai_communities w communityID) ErrAIOPCNotFound) (\<lambda>community.
       if memberID \<in> set (com_MemberIDs community) then retM community
       else if int (length (com_MemberIDs community)) \<ge> com_Capacity community then failM ErrAICapacity
       else
         let community = community\<lparr>com_MemberIDs := com_MemberIDs community @ [memberID],
               com_Version := wrap64 (com_Version community + 1)\<rparr> in
         bindM (modM (\<lambda>w. w\<lparr>ai_communities := (ai_communities w)(communityID \<mapsto> community)\<rparr>)) (\<lambda>_. retM community)))"

definition ResubmitApplication :: "string \<Rightarrow> string list \<Rightarrow> (err, 'a ai_scheme, EnterpriseApplication) op" where
  "ResubmitApplication applicationID materials =
     bindM external (\<lambda>_.
     if materials = [] then failM (Detail ErrAIValidation ''resubmission materials'')
     else bindM service_now (\<lambda>now.
       bindM (fetch (\<lambda>w. ai_applications w applicationID) ErrAIApplicationNotFound) (\<lambda>application.
       if app_Status application \<noteq> ApplicationReturned then
         failM (Detail ErrAIInvalidState (''resubmit from '' @ application_status_name (app_Status application)))
       else
         let application = application\<lparr>app_Status := ApplicationPending, app_Attempt := wrap64 (app_Attempt application + 1),
               app_Materials := materials, app_UpdatedAt := now, app_Version := wrap64 (app_Version application + 1)\<rparr> in
         bindM (modM (set_application applicationID application)) (\<lambda>_. retM application))))"

definition CloseApplication :: "string \<Rightarrow> (err, 'a ai_scheme, unit) op" where
  "CloseApplication applicationID =
     bindM external (\<lambda>_.
     bindM service_now (\<lambda>now.
     bindM (fetch (\<lambda>w. ai_applications w applicationID) ErrAIApplicationNotFound) (\<lambda>application.
     if \<not> validApplicationTransition (app_Status application) ApplicationClosed then
       failM (Detail ErrAIInvalidState (''close from '' @ application_status_name (app_Status application)))
     else modM (set_application applicationID (application\<lparr>app_Status := ApplicationClosed, app_UpdatedAt := now,
            app_Version := wrap64 (app_Version application + 1)\<rparr>)))))"

definition query_matches :: "AIQuery \<Rightarrow> EnterpriseApplication \<Rightarrow> bool" where
  "query_matches query a \<longleftrightarrow>
     (aq_TenantID query = '''' \<or> app_TenantID a = aq_TenantID query)
     \<and> (application_status_name (aq_Status query) = ''''
        \<or> application_status_name (app_Status a) = application_status_name (aq_Status query))
     \<and> (aq_Country query = '''' \<or> normalizeCountry (app_ASEANCountry a) = normalizeCountry (aq_Country query))"

definition ListApplications :: "string list \<Rightarrow> AIQuery \<Rightarrow> (err, 'a ai_scheme, AIQueryResult) op" where
  \<comment> \<open>\<open>order\<close> is the order in which the runtime ranges over the keys of the map\<close>
  "ListApplications order query =
     bindM external (\<lambda>_.
     if aq_Offset query < 0 \<or> aq_Limit query < 0 \<or> aq_Limit query > 100 then failM (Detail ErrAIValidation ''pagination'')
     else bindM (getM ai_applications) (\<lambda>apps.
       let items = filter (query_matches query) (List.map_filter apps order);
           total = int (length items) in
       if aq_Offset query \<ge> total then retM \<lparr>ar_Applications = [], ar_Total = total\<rparr>
       else
         let end = (if aq_Limit query > 0 \<and> wrap64 (aq_Offset query + aq_Limit query) < total
                    then wrap64 (aq_Offset query + aq_Limit query) else total) in
         retM \<lparr>ar_Applications = take (nat (end - aq_Offset query)) (drop (nat (aq_Offset query)) items), ar_Total = total\<rparr>))"

text \<open>The readers of the registry; a Go map that is copied is the same map.\<close>

definition Events :: "'a ai_scheme \<Rightarrow> AIServiceEvent list" where
  "Events w = ai_events w"

definition Application :: "string \<Rightarrow> 'a ai_scheme \<Rightarrow> EnterpriseApplication option" where
  "Application id1 w = ai_applications w id1"

definition Scene :: "string \<Rightarrow> 'a ai_scheme \<Rightarrow> SceneSubmission option" where
  "Scene id1 w = ai_scenes w id1"

definition Community :: "string \<Rightarrow> 'a ai_scheme \<Rightarrow> OPCCommunity option" where
  "Community id1 w = ai_communities w id1"

definition Reservation :: "string \<Rightarrow> 'a ai_scheme \<Rightarrow> ComputeReservation option" where
  "Reservation applicationID w = ai_reservations w applicationID"

definition Cluster :: "string \<Rightarrow> 'a ai_scheme \<Rightarrow> ComputeCluster option" where
  "Cluster clusterID w = ai_clusters w clusterID"

end
