(* ===== verification/Hub_AI_Facts.thy ===== *)
theory Hub_AI_Facts
  imports Hub_AI
begin

text \<open>
  What the AI registry keeps. Each operation either changes nothing but its readings of the
  clock, or makes one change that is spelt out; from these outcomes follow the invariant of the
  registry, in particular that a cluster's allocation is what it was added with and the sum of the reservations
  that have not been released, and that no capacity is exceeded where resources are added unused.
\<close>

section \<open>Outcomes\<close>

definition quiet :: "'a ai_scheme \<Rightarrow> 'a ai_scheme \<Rightarrow> bool" where
  \<comment> \<open>only the clock and the list of failures to come have moved\<close>
  "quiet w w' \<longleftrightarrow> (\<exists>fs n. w' = w\<lparr>rt_faults := fs, rt_ticks := n\<rparr>)"

lemma quiet_refl [simp]: "quiet w w"
proof -
  have "w = w\<lparr>rt_faults := rt_faults w, rt_ticks := rt_ticks w\<rparr>" by simp
  then show ?thesis unfolding quiet_def by blast
qed

lemma quiet_faults [simp]: "quiet w (w\<lparr>rt_faults := fs\<rparr>)" "quiet w (w\<lparr>rt_faults := fs, rt_ticks := n\<rparr>)"
    "quiet w (w\<lparr>rt_ticks := n\<rparr>)"
proof -
  show "quiet w (w\<lparr>rt_faults := fs, rt_ticks := n\<rparr>)" by (auto simp: quiet_def)
  have "w\<lparr>rt_faults := fs\<rparr> = w\<lparr>rt_faults := fs, rt_ticks := rt_ticks w\<rparr>"
    "w\<lparr>rt_ticks := n\<rparr> = w\<lparr>rt_faults := rt_faults w, rt_ticks := n\<rparr>" by simp_all
  then show "quiet w (w\<lparr>rt_faults := fs\<rparr>)" "quiet w (w\<lparr>rt_ticks := n\<rparr>)" unfolding quiet_def by blast+
qed

lemma quiet_fields:
  assumes "quiet w w'"
  shows "ai_applications w' = ai_applications w" "ai_clusters w' = ai_clusters w" "ai_reservations w' = ai_reservations w"
    "ai_routes w' = ai_routes w" "ai_offers w' = ai_offers w" "ai_scenes w' = ai_scenes w"
    "ai_communities w' = ai_communities w" "ai_events w' = ai_events w"
  using assms by (auto simp: quiet_def)

lemma quiet_trans: "quiet w1 w2 \<Longrightarrow> quiet w2 w3 \<Longrightarrow> quiet w1 w3"
proof -
  assume "quiet w1 w2" "quiet w2 w3"
  then obtain fs n gs k where "w2 = w1\<lparr>rt_faults := fs, rt_ticks := n\<rparr>" "w3 = w2\<lparr>rt_faults := gs, rt_ticks := k\<rparr>"
    unfolding quiet_def by blast
  then have "w3 = w1\<lparr>rt_faults := gs, rt_ticks := k\<rparr>" by simp
  then show ?thesis unfolding quiet_def by blast
qed

interpretation quiet: step_preorder "quiet :: 'a ai_scheme \<Rightarrow> _"
  by unfold_locales (auto intro: quiet_trans)

lemma bind_external_run:
  assumes "bindM external k w = (r, w')"
  obtains (failed) e where "r = Inl e" "quiet w w'"
  | (ran) w1 where "quiet w w1" "k () w1 = (r, w')"
proof (cases "external w")
  case (Pair x w1)
  then obtain fs where fs: "w1 = w\<lparr>rt_faults := fs\<rparr>" by (rule external_cases)
  show ?thesis
  proof (cases x)
    case (Inl e)
    with Pair assms fs have "r = Inl e" "quiet w w'" by (auto simp: bindM_def)
    then show ?thesis by (rule failed)
  next
    case (Inr u)
    with Pair assms fs have "quiet w w1" "k () w1 = (r, w')" by (auto simp: bindM_def)
    then show ?thesis by (rule ran)
  qed
qed

lemma bind_now_run:
  assumes "bindM service_now k w = (r, w')"
  obtains now w1 where "quiet w w1" "k now w1 = (r, w')"
  using assms that [OF quiet_faults(3)]
  by (auto simp: service_now_def bindM_def Now_def WallNow_def retM_def split: if_splits)

lemma bind_nowOr_run:
  assumes "bindM (nowOr t) k w = (r, w')"
  obtains now w1 where "quiet w w1" "k now w1 = (r, w')"
  using assms that [OF quiet_faults(3)] that [OF quiet_refl]
  by (auto simp: nowOr_def bindM_def WallNow_def retM_def split: if_splits)

lemma bind_fetch [simp]: "bindM (fetch sel e) k w = (case sel w of None \<Rightarrow> (Inl e, w) | Some x \<Rightarrow> k x w)"
  by (simp add: bindM_def fetch_def split: option.splits)

lemma bind_check [simp]: "bindM (check c) k w = (case c of None \<Rightarrow> k () w | Some e \<Rightarrow> (Inl e, w))"
  by (simp add: bindM_def check_def retM_def failM_def split: option.splits)

lemma bind_modM [simp]: "bindM (modM f) k w = k () (f w)"
  by (simp add: bindM_def modM_def)

lemma bind_add_event [simp]: "bindM (add_event e) k w = k () (w\<lparr>ai_events := ai_events w @ [e]\<rparr>)"
  by (simp add: add_event_def)

definition submitted :: "time \<Rightarrow> EnterpriseApplication \<Rightarrow> EnterpriseApplication" where
  "submitted now a = a\<lparr>app_CompanyName := TrimSpace (app_CompanyName a), app_ASEANCountry := normalizeCountry (app_ASEANCountry a),
     app_Status := ApplicationPending, app_Attempt := 1, app_CreatedAt := now, app_UpdatedAt := now\<rparr>"

definition submitted_event :: "time \<Rightarrow> EnterpriseApplication \<Rightarrow> AIServiceEvent" where
  "submitted_event now a = \<lparr>evt_ID = app_ID a @ ''-submitted'', evt_TenantID = app_TenantID a, evt_EntityID = app_ID a,
     evt_Action = ''application.submitted'', evt_ActorID = app_ApplicantID a, evt_At = now, evt_Metadata = Map.empty\<rparr>"

text \<open>
  The shape of an outcome: an error and nothing changed, or, from a state \<open>w1\<close> that differs
  from \<open>w\<close> in the clock only, a result and a change that the parameter relates.
\<close>

definition outcome :: "('b ai_scheme \<Rightarrow> 'a \<Rightarrow> 'b ai_scheme \<Rightarrow> bool) \<Rightarrow> (err, 'b ai_scheme, 'a) op \<Rightarrow> bool" where
  "outcome P m \<longleftrightarrow> (\<forall>w r w'. m w = (r, w') \<longrightarrow> (case r of
      Inl e \<Rightarrow> quiet w w' | Inr x \<Rightarrow> \<exists>w1. quiet w w1 \<and> P w1 x w'))"

lemma outcomeI:
  assumes "\<And>w r w'. m w = (r, w') \<Longrightarrow> (case r of Inl e \<Rightarrow> quiet w w' | Inr x \<Rightarrow> \<exists>w1. quiet w w1 \<and> P w1 x w')"
  shows "outcome P m"
  using assms by (auto simp: outcome_def)

lemma outcomeD:
  "outcome P m \<Longrightarrow> m w = (Inl e, w') \<Longrightarrow> quiet w w'"
  "outcome P m \<Longrightarrow> m w = (Inr x, w') \<Longrightarrow> \<exists>w1. quiet w w1 \<and> P w1 x w'"
  by (force simp: outcome_def)+

lemma outcome_after:
  assumes "outcome P m" and "quiet w w1" and "m w1 = (r, w')"
  shows "case r of Inl e \<Rightarrow> quiet w w' | Inr x \<Rightarrow> \<exists>w1. quiet w w1 \<and> P w1 x w'"
proof (cases r)
  case (Inl e)
  with outcomeD(1) [OF assms(1)] assms(2,3) quiet_trans show ?thesis by fastforce
next
  case (Inr x)
  with outcomeD(2) [OF assms(1)] assms(3) obtain w2 where "quiet w1 w2" "P w2 x w'" by blast
  with Inr quiet_trans [OF assms(2)] show ?thesis by auto
qed

lemma outcome_external: "outcome P (k ()) \<Longrightarrow> outcome P (bindM external k)"
  by (rule outcomeI, erule bind_external_run) (auto dest: outcome_after)

lemma outcome_now: "(\<And>t. outcome P (k t)) \<Longrightarrow> outcome P (bindM service_now k)"
  by (rule outcomeI, erule bind_now_run) (rule outcome_after)

lemma outcome_nowOr: "(\<And>t. outcome P (k t)) \<Longrightarrow> outcome P (bindM (nowOr now) k)"
  by (rule outcomeI, erule bind_nowOr_run) (rule outcome_after)

lemma outcome_fail: "outcome P (failM e)"
  by (rule outcomeI) (auto simp: failM_def)

lemma outcome_if: "(b \<Longrightarrow> outcome P m) \<Longrightarrow> (\<not> b \<Longrightarrow> outcome P m') \<Longrightarrow> outcome P (if b then m else m')"
  by simp

lemma outcome_check: "(c = None \<Longrightarrow> outcome P (k ())) \<Longrightarrow> outcome P (bindM (check c) k)"
  by (cases c) (simp_all add: check_def outcome_fail fun_eq_iff outcome_def op_simps split: sum.splits)

lemma outcome_fetch:
  assumes "\<And>x. outcome (\<lambda>w r w'. sel w = Some x \<longrightarrow> P w r w') (k x)"
    and "\<And>w w'. quiet w w' \<Longrightarrow> sel w' = sel w"
  shows "outcome P (bindM (fetch sel e) k)"
proof (rule outcomeI)
  fix w r w'
  assume run: "bindM (fetch sel e) k w = (r, w')"
  show "case r of Inl e \<Rightarrow> quiet w w' | Inr x \<Rightarrow> \<exists>w1. quiet w w1 \<and> P w1 x w'"
  proof (cases "sel w")
    case None
    with run show ?thesis by auto
  next
    case (Some x)
    with run have "k x w = (r, w')" by simp
    from outcome_after [OF assms(1) quiet_refl this] Some show ?thesis
      by (auto simp: assms(2) split: sum.splits)
  qed
qed

lemma outcome_body:
  assumes "\<And>w. (case m w of (r, w') \<Rightarrow> (case r of Inl e \<Rightarrow> w' = w | Inr x \<Rightarrow> P w x w'))"
  shows "outcome P m"
proof (rule outcomeI)
  fix w r w'
  assume "m w = (r, w')"
  with assms [of w] show "case r of Inl e \<Rightarrow> quiet w w' | Inr x \<Rightarrow> \<exists>w1. quiet w w1 \<and> P w1 x w'"
    by (auto split: sum.splits intro: exI [of _ w])
qed

lemmas outcome_rules = outcome_external outcome_now outcome_nowOr outcome_fail outcome_if outcome_check

lemma bindM_assoc: "bindM (bindM m k) h = bindM m (\<lambda>a. bindM (k a) h)"
  by (auto simp: bindM_def fun_eq_iff split: prod.splits sum.splits)

lemma SubmitApplication_outcome:
  "outcome (\<lambda>w b w'. \<exists>now. validateApplicationInput a = None \<and> ai_applications w (app_ID a) = None \<and> b = submitted now a
      \<and> w' = w\<lparr>ai_applications := (ai_applications w)(app_ID a \<mapsto> b), ai_events := ai_events w @ [submitted_event now a]\<rparr>)
    (SubmitApplication a)"
  unfolding SubmitApplication_def
  by (intro outcome_rules, rule outcome_body)
     (auto simp: Let_def submitted_def submitted_event_def set_application_def failM_def retM_def)

definition reserves :: "EnterpriseApplication \<Rightarrow> ComputeCluster \<Rightarrow> string \<Rightarrow> string \<Rightarrow> int \<Rightarrow> time
    \<Rightarrow> 'a ai_scheme \<Rightarrow> ComputeReservation \<Rightarrow> 'a ai_scheme \<Rightarrow> bool" where
  "reserves application cluster applicationID clusterID petaops now w res w' \<longleftrightarrow>
     (case ai_reservations w applicationID of None \<Rightarrow> True | Some old \<Rightarrow> res_ReleasedAt old \<noteq> None)
     \<and> res = \<lparr>res_ApplicationID = applicationID, res_ClusterID = clusterID, res_Petaops = petaops, res_ReservedAt = now,
         res_ReleasedAt = None\<rparr>
     \<and> w' = w\<lparr>ai_clusters := (ai_clusters w)(clusterID \<mapsto> cluster\<lparr>clu_Allocated := wrap64 (clu_Allocated cluster + petaops),
           clu_Version := wrap64 (clu_Version cluster + 1)\<rparr>),
         ai_reservations := (ai_reservations w)(applicationID \<mapsto> res),
         ai_applications := (ai_applications w)(applicationID \<mapsto> application\<lparr>app_UpdatedAt := now,
           app_Version := wrap64 (app_Version application + 1)\<rparr>)\<rparr>"

lemma ReserveCompute_outcome:
  "outcome (\<lambda>w res w'. \<exists>application cluster now. 0 < petaops \<and> ai_applications w applicationID = Some application
      \<and> ai_clusters w clusterID = Some cluster \<and> app_Status application \<in> {ApplicationPending, ApplicationReturned}
      \<and> computeAvailable cluster petaops
      \<and> (ai_reservations w applicationID = Some res \<and> res_ReleasedAt res = None \<and> w' = w
         \<or> reserves application cluster applicationID clusterID petaops now w res w'))
    (ReserveCompute applicationID clusterID petaops)"
  unfolding ReserveCompute_def
  by (intro outcome_rules, rule outcome_body)
     (auto simp: Let_def failM_def retM_def reserves_def split: option.splits)

lemma ReleaseCompute_outcome:
  "outcome (\<lambda>w u w'. (w' = w \<and> (case ai_reservations w applicationID of None \<Rightarrow> True | Some res \<Rightarrow> res_ReleasedAt res \<noteq> None))
      \<or> (\<exists>res cluster now. ai_reservations w applicationID = Some res \<and> res_ReleasedAt res = None
          \<and> ai_clusters w (res_ClusterID res) = Some cluster \<and> res_Petaops res \<le> clu_Allocated cluster
          \<and> w' = w\<lparr>ai_clusters := (ai_clusters w)(clu_ID cluster \<mapsto>
                 cluster\<lparr>clu_Allocated := wrap64 (clu_Allocated cluster - res_Petaops res), clu_Version := wrap64 (clu_Version cluster + 1)\<rparr>),
               ai_reservations := (ai_reservations w)(applicationID \<mapsto> res\<lparr>res_ReleasedAt := Some now\<rparr>)\<rparr>))
    (ReleaseCompute applicationID)"
  unfolding ReleaseCompute_def
  by (intro outcome_rules, rule outcome_body)
     (auto simp: Let_def failM_def retM_def modM_def split: option.splits)

definition approved :: "time \<Rightarrow> EnterpriseApplication \<Rightarrow> EnterpriseApplication" where
  "approved now a = a\<lparr>app_Status := ApplicationApproved, app_UpdatedAt := now, app_Version := wrap64 (app_Version a + 1)\<rparr>"

definition approved_event :: "time \<Rightarrow> string \<Rightarrow> string \<Rightarrow> AIServiceEvent" where
  "approved_event now applicationID actorID = \<lparr>evt_ID = applicationID @ ''-approved'', evt_TenantID = '''', evt_EntityID = applicationID,
     evt_Action = ''application.approved'', evt_ActorID = actorID, evt_At = now, evt_Metadata = Map.empty\<rparr>"

lemma ApproveApplication_outcome:
  "outcome (\<lambda>w b w'. \<exists>a now. ai_applications w applicationID = Some a \<and> actorID \<noteq> '''' \<and> app_Status a = ApplicationPending
      \<and> ai_reservations w applicationID \<noteq> None
      \<and> (app_RouteID a = '''' \<or> (\<exists>route. ai_routes w (app_RouteID a) = Some route \<and> rou_Active route))
      \<and> b = approved now a
      \<and> w' = w\<lparr>ai_applications := (ai_applications w)(applicationID \<mapsto> b), ai_events := ai_events w @ [approved_event now applicationID actorID]\<rparr>)
    (ApproveApplication applicationID actorID)"
proof -
  have from_pending: "validApplicationTransition s ApplicationApproved \<longleftrightarrow> s = ApplicationPending" for s by (cases s) simp_all
  show ?thesis
    unfolding ApproveApplication_def from_pending
    by (intro outcome_rules, rule outcome_body)
       (auto simp: Let_def failM_def retM_def approved_def approved_event_def set_application_def bindM_assoc
          split: option.splits)
qed

lemma AssignRoute_outcome:
  "outcome (\<lambda>w u w'. \<exists>a route. 0 < mbps \<and> ai_applications w applicationID = Some a \<and> ai_routes w routeID = Some route
      \<and> rou_TenantID route = app_TenantID a \<and> normalizeCountry (rou_Country route) = normalizeCountry (app_ASEANCountry a)
      \<and> rou_Active route \<and> mbps \<le> wrap64 (rou_CapacityMbps route - rou_AllocatedMbps route)
      \<and> w' = w\<lparr>ai_routes := (ai_routes w)(routeID \<mapsto> route\<lparr>rou_AllocatedMbps := wrap64 (rou_AllocatedMbps route + mbps),
             rou_Version := wrap64 (rou_Version route + 1)\<rparr>),
           ai_applications := (ai_applications w)(applicationID \<mapsto> a\<lparr>app_RouteID := routeID,
             app_Version := wrap64 (app_Version a + 1)\<rparr>)\<rparr>)
    (AssignRoute applicationID routeID mbps)"
  unfolding AssignRoute_def
  by (intro outcome_rules, rule outcome_body)
     (auto simp: Let_def failM_def retM_def modM_def split: option.splits)

definition published :: "time \<Rightarrow> SceneSubmission \<Rightarrow> SceneSubmission" where
  "published now s = s\<lparr>sce_OwnerID := TrimSpace (sce_OwnerID s), sce_Status := ''submitted'', sce_SubmittedAt := now\<rparr>"

lemma PublishScene_outcome:
  "outcome (\<lambda>w s w'. \<exists>a now. sce_ID scene \<noteq> '''' \<and> TrimSpace (sce_OwnerID scene) \<noteq> '''' \<and> 2 \<le> length (sce_Evidence scene)
      \<and> ai_scenes w (sce_ID scene) = None \<and> ai_applications w (sce_ApplicationID scene) = Some a
      \<and> app_TenantID a = sce_TenantID scene \<and> s = published now scene
      \<and> w' = w\<lparr>ai_scenes := (ai_scenes w)(sce_ID scene \<mapsto> s)\<rparr>)
    (PublishScene scene)"
  unfolding PublishScene_def
  by (intro outcome_rules, rule outcome_body)
     (auto simp: Let_def failM_def retM_def published_def split: option.splits)

lemma ApproveScene_outcome:
  "outcome (\<lambda>w s w'. \<exists>old now. reviewerID \<noteq> '''' \<and> ai_scenes w sceneID = Some old \<and> sceneCanApprove old = None
      \<and> s = old\<lparr>sce_Status := ''approved'', sce_Version := wrap64 (sce_Version old + 1), sce_ReviewedAt := Some now\<rparr>
      \<and> w' = w\<lparr>ai_scenes := (ai_scenes w)(sceneID \<mapsto> s)\<rparr>)
    (ApproveScene sceneID reviewerID)"
  unfolding ApproveScene_def
  by (intro outcome_rules, rule outcome_body)
     (auto simp: Let_def failM_def retM_def split: option.splits)

lemma ApplyOffer_outcome:
  "outcome (\<lambda>w u w'. \<exists>a offer now. ai_applications w applicationID = Some a \<and> ai_offers w offerID = Some offer
      \<and> offerAvailable offer (app_ASEANCountry a) now
      \<and> w' = w\<lparr>ai_offers := (ai_offers w)(offerID \<mapsto> offer\<lparr>off_Used := wrap64 (off_Used offer + 1),
             off_Version := wrap64 (off_Version offer + 1)\<rparr>),
           ai_applications := (ai_applications w)(applicationID \<mapsto> a\<lparr>app_ServiceOfferID := offerID,
             app_Version := wrap64 (app_Version a + 1)\<rparr>)\<rparr>)
    (ApplyOffer applicationID offerID at)"
  unfolding ApplyOffer_def
  by (intro outcome_rules outcome_fetch; (rule outcome_body)?)
     (auto simp: Let_def failM_def retM_def modM_def quiet_fields split: option.splits)

lemma EnrollOPC_outcome:
  "outcome (\<lambda>w c w'. \<exists>old. TrimSpace memberID \<noteq> '''' \<and> ai_communities w communityID = Some old
      \<and> (memberID \<in> set (com_MemberIDs old) \<and> c = old \<and> w' = w
         \<or> memberID \<notin> set (com_MemberIDs old) \<and> int (length (com_MemberIDs old)) < com_Capacity old
           \<and> c = old\<lparr>com_MemberIDs := com_MemberIDs old @ [memberID], com_Version := wrap64 (com_Version old + 1)\<rparr>
           \<and> w' = w\<lparr>ai_communities := (ai_communities w)(communityID \<mapsto> c)\<rparr>))
    (EnrollOPC communityID memberID)"
  unfolding EnrollOPC_def
  by (intro outcome_rules, rule outcome_body)
     (auto simp: Let_def failM_def retM_def split: option.splits)

lemma ResubmitApplication_outcome:
  "outcome (\<lambda>w b w'. \<exists>a now. materials \<noteq> [] \<and> ai_applications w applicationID = Some a \<and> app_Status a = ApplicationReturned
      \<and> b = a\<lparr>app_Status := ApplicationPending, app_Attempt := wrap64 (app_Attempt a + 1), app_Materials := materials,
             app_UpdatedAt := now, app_Version := wrap64 (app_Version a + 1)\<rparr>
      \<and> w' = w\<lparr>ai_applications := (ai_applications w)(applicationID \<mapsto> b)\<rparr>)
    (ResubmitApplication applicationID materials)"
  unfolding ResubmitApplication_def
  by (intro outcome_rules, rule outcome_body)
     (auto simp: Let_def failM_def retM_def set_application_def split: option.splits)

lemma CloseApplication_outcome:
  "outcome (\<lambda>w u w'. \<exists>a now. ai_applications w applicationID = Some a \<and> app_Status a = ApplicationActive
      \<and> w' = w\<lparr>ai_applications := (ai_applications w)(applicationID \<mapsto> a\<lparr>app_Status := ApplicationClosed,
           app_UpdatedAt := now, app_Version := wrap64 (app_Version a + 1)\<rparr>)\<rparr>)
    (CloseApplication applicationID)"
proof -
  have from_active: "validApplicationTransition s ApplicationClosed \<longleftrightarrow> s = ApplicationActive" for s by (cases s) simp_all
  show ?thesis
    unfolding CloseApplication_def from_active
    by (intro outcome_rules, rule outcome_body)
       (auto simp: Let_def failM_def modM_def set_application_def split: option.splits)
qed

lemma ListApplications_outcome: "outcome (\<lambda>w x w'. w' = w) (ListApplications order query)"
  unfolding ListApplications_def
  by (intro outcome_rules, rule outcome_body) (auto simp: Let_def failM_def retM_def)

section \<open>Adding to the registry\<close>

text \<open>
  The interface of a collection of the registry to which an entry is added under its identifier:
  the addition fails and changes nothing, or the entry was valid and its identifier free, and it
  is there afterwards, with the rest of the collection untouched.
\<close>

locale keyed_collection =
  fixes add :: "'r \<Rightarrow> (err, 'b ai_scheme, 'x) op"
    and store :: "'b ai_scheme \<Rightarrow> string \<rightharpoonup> 's"
    and key :: "'r \<Rightarrow> string"
    and good :: "'r \<Rightarrow> bool"
    and stored :: "'x \<Rightarrow> 'r \<Rightarrow> 's \<Rightarrow> bool"
  assumes store_quiet: "quiet w w' \<Longrightarrow> store w' = store w"
    and added: "outcome (\<lambda>w x w'. good r \<and> store w (key r) = None \<and> (\<exists>s. stored x r s \<and> store w' = (store w)(key r \<mapsto> s))) (add r)"
begin

lemma add_keeps: "add r w = (x, w') \<Longrightarrow> store w k = Some s \<Longrightarrow> store w' k = Some s"
  using outcomeD [OF added, of r w] by (cases x) (auto simp: store_quiet dest!: store_quiet)

lemma add_lookup: "add r w = (Inr x, w') \<Longrightarrow> \<exists>s. stored x r s \<and> store w' (key r) = Some s"
  using outcomeD(2) [OF added, of r w] by fastforce

lemma add_new: "add r w = (Inr x, w') \<Longrightarrow> good r \<and> store w (key r) = None"
  using outcomeD(2) [OF added, of r w] by (auto dest!: store_quiet)

lemma add_twice: "add r w = (Inr x, w') \<Longrightarrow> key r' = key r \<Longrightarrow> \<exists>e w''. add r' w' = (Inl e, w'')"
  using add_lookup [of r w x w'] add_new [of r' w'] by (cases "add r' w'"; cases "fst (add r' w')") auto

end

lemma outcome_mono: "outcome P m \<Longrightarrow> (\<And>w x w'. P w x w' \<Longrightarrow> Q w x w') \<Longrightarrow> outcome Q m"
proof (rule outcomeI)
  fix w r w'
  assume "outcome P m" and imp: "\<And>w x w'. P w x w' \<Longrightarrow> Q w x w'" and run: "m w = (r, w')"
  from outcome_after [OF this(1) quiet_refl run] imp show
    "case r of Inl e \<Rightarrow> quiet w w' | Inr x \<Rightarrow> \<exists>w1. quiet w w1 \<and> Q w1 x w'"
    by (cases r) auto
qed
lemma AddCluster_outcome:
  "outcome (\<lambda>w x w'. clu_ID r \<noteq> '''' \<and> 0 < clu_TotalPetaops r \<and> ai_clusters w (clu_ID r) = None
      \<and> w' = w\<lparr>ai_clusters := (ai_clusters w)(clu_ID r \<mapsto> r)\<rparr>) (AddCluster r)"
  unfolding AddCluster_def by (intro outcome_rules, rule outcome_body) (auto simp: failM_def modM_def)

lemma AddRoute_outcome:
  "outcome (\<lambda>w x w'. rou_ID r \<noteq> '''' \<and> 0 < rou_CapacityMbps r \<and> ai_routes w (rou_ID r) = None
      \<and> w' = w\<lparr>ai_routes := (ai_routes w)(rou_ID r \<mapsto> r)\<rparr>) (AddRoute r)"
  unfolding AddRoute_def by (intro outcome_rules, rule outcome_body) (auto simp: failM_def modM_def)

lemma AddOffer_outcome:
  "outcome (\<lambda>w x w'. off_ID r \<noteq> '''' \<and> 0 < off_Capacity r \<and> Before (off_EffectiveFrom r) (off_EffectiveTo r) \<and> ai_offers w (off_ID r) = None
      \<and> w' = w\<lparr>ai_offers := (ai_offers w)(off_ID r \<mapsto> r)\<rparr>) (AddOffer r)"
  unfolding AddOffer_def by (intro outcome_rules, rule outcome_body) (auto simp: failM_def modM_def)

lemma AddCommunity_outcome:
  "outcome (\<lambda>w x w'. com_ID r \<noteq> '''' \<and> 0 < com_Capacity r \<and> ai_communities w (com_ID r) = None
      \<and> w' = w\<lparr>ai_communities := (ai_communities w)(com_ID r \<mapsto> r)\<rparr>) (AddCommunity r)"
  unfolding AddCommunity_def by (intro outcome_rules, rule outcome_body) (auto simp: failM_def modM_def)

interpretation clusters: keyed_collection AddCluster ai_clusters clu_ID "\<lambda>r. clu_ID r \<noteq> '''' \<and> 0 < clu_TotalPetaops r" "\<lambda>_ r s. s = r"
  by unfold_locales (simp add: quiet_fields, rule outcome_mono [OF AddCluster_outcome], auto)

interpretation routes: keyed_collection AddRoute ai_routes rou_ID "\<lambda>r. rou_ID r \<noteq> '''' \<and> 0 < rou_CapacityMbps r" "\<lambda>_ r s. s = r"
  by unfold_locales (simp add: quiet_fields, rule outcome_mono [OF AddRoute_outcome], auto)

interpretation offers: keyed_collection AddOffer ai_offers off_ID "\<lambda>r. off_ID r \<noteq> '''' \<and> 0 < off_Capacity r \<and> Before (off_EffectiveFrom r) (off_EffectiveTo r)" "\<lambda>_ r s. s = r"
  by unfold_locales (simp add: quiet_fields, rule outcome_mono [OF AddOffer_outcome], auto)

interpretation communities: keyed_collection AddCommunity ai_communities com_ID "\<lambda>r. com_ID r \<noteq> '''' \<and> 0 < com_Capacity r" "\<lambda>_ r s. s = r"
  by unfold_locales (simp add: quiet_fields, rule outcome_mono [OF AddCommunity_outcome], auto)

interpretation applications: keyed_collection SubmitApplication ai_applications app_ID "\<lambda>a. validateApplicationInput a = None"
  "\<lambda>x r s. s = x \<and> (\<exists>now. s = submitted now r)"
  by unfold_locales (simp add: quiet_fields, rule outcome_mono [OF SubmitApplication_outcome], auto)

interpretation scenes: keyed_collection PublishScene ai_scenes sce_ID "\<lambda>s. sce_ID s \<noteq> '''' \<and> 2 \<le> length (sce_Evidence s)"
  "\<lambda>x r s. s = x \<and> (\<exists>now. s = published now r)"
  by unfold_locales (simp add: quiet_fields, rule outcome_mono [OF PublishScene_outcome], auto)

section \<open>The invariant of the registry\<close>

definition load_of :: "string \<Rightarrow> ComputeReservation option \<Rightarrow> int" where
  \<comment> \<open>what a reservation takes from a cluster\<close>
  "load_of k r = (case r of None \<Rightarrow> 0
    | Some res \<Rightarrow> if res_ClusterID res = k \<and> res_ReleasedAt res = None then res_Petaops res else 0)"

definition live_load :: "string \<Rightarrow> (string \<rightharpoonup> ComputeReservation) \<Rightarrow> int" where
  "live_load k R = (\<Sum>a \<in> dom R. load_of k (R a))"

lemma load_of_None [simp]: "load_of k None = 0"
  by (simp add: load_of_def)

lemma live_load_empty [simp]: "live_load k Map.empty = 0"
  by (simp add: live_load_def)

lemma live_load_update:
  assumes "finite (dom R)"
  shows "live_load k (R(a \<mapsto> r)) = live_load k R - load_of k (R a) + load_of k (Some r)"
proof -
  have "live_load k (R(a \<mapsto> r)) = (\<Sum>b \<in> insert a (dom R - {a}). load_of k ((R(a \<mapsto> r)) b))"
    unfolding live_load_def by (rule sum.cong) auto
  also have "\<dots> = load_of k (Some r) + (\<Sum>b \<in> dom R - {a}. load_of k (R b))"
    using assms by (subst sum.insert) (auto intro!: sum.cong)
  also have "(\<Sum>b \<in> dom R - {a}. load_of k (R b)) = live_load k R - load_of k (R a)"
    using assms by (cases "a \<in> dom R") (auto simp: live_load_def sum_diff1 domIff)
  finally show ?thesis by (simp add: fun_upd_def)
qed

lemma live_load_other: "(\<And>a res. R a = Some res \<Longrightarrow> res_ClusterID res \<noteq> k) \<Longrightarrow> live_load k R = 0"
  unfolding live_load_def by (rule sum.neutral) (auto simp: load_of_def)

definition app_ok :: "string \<Rightarrow> EnterpriseApplication \<Rightarrow> bool" where
  "app_ok k a \<longleftrightarrow> app_ID a = k \<and> app_Status a \<in> {ApplicationPending, ApplicationApproved}
     \<and> app_ASEANCountry a \<in> set allowedASEANCountries \<and> 0 < app_RequestedPetaops a \<and> app_RequestedPetaops a \<le> 5000"

definition apps_ok :: "(string \<rightharpoonup> EnterpriseApplication) \<Rightarrow> (string \<rightharpoonup> ComputeReservation) \<Rightarrow> bool" where
  "apps_ok A R \<longleftrightarrow> (\<forall>k a. A k = Some a \<longrightarrow> app_ok k a \<and> (app_Status a = ApplicationApproved \<longrightarrow> R k \<noteq> None))"

definition reservations_ok :: "(string \<rightharpoonup> ComputeReservation) \<Rightarrow> string set \<Rightarrow> string set \<Rightarrow> bool" where
  "reservations_ok R as cs \<longleftrightarrow> finite (dom R)
     \<and> (\<forall>k r. R k = Some r \<longrightarrow> res_ApplicationID r = k \<and> k \<in> as \<and> res_ClusterID r \<in> cs \<and> 0 < res_Petaops r)"

definition cluster_ok :: "(string \<rightharpoonup> ComputeReservation) \<Rightarrow> string \<Rightarrow> ComputeCluster \<Rightarrow> bool" where
  "cluster_ok R k c \<longleftrightarrow> clu_ID c = k \<and> int64 (clu_TotalPetaops c) \<and> clu_Allocated c = live_load k R
     \<and> clu_Allocated c \<le> clu_TotalPetaops c"

definition clusters_ok :: "(string \<rightharpoonup> ComputeCluster) \<Rightarrow> (string \<rightharpoonup> ComputeReservation) \<Rightarrow> bool" where
  "clusters_ok C R \<longleftrightarrow> (\<forall>k c. C k = Some c \<longrightarrow> cluster_ok R k c)"

definition typed_clusters :: "(string \<rightharpoonup> ComputeCluster) \<Rightarrow> bool" where
  "typed_clusters C \<longleftrightarrow> (\<forall>k c. C k = Some c \<longrightarrow> clu_ID c = k \<and> int64 (clu_TotalPetaops c) \<and> 0 < clu_TotalPetaops c
     \<and> int64 (clu_Allocated c))"

lemma clusters_okD: "clusters_ok C R \<Longrightarrow> C k = Some c \<Longrightarrow> cluster_ok R k c"
  by (simp add: clusters_ok_def)

definition routes_ok :: "(string \<rightharpoonup> CrossBorderRoute) \<Rightarrow> bool" where
  "routes_ok M \<longleftrightarrow> (\<forall>k r. M k = Some r \<longrightarrow> rou_ID r = k \<and> int64 (rou_CapacityMbps r)
     \<and> 0 \<le> rou_AllocatedMbps r \<and> rou_AllocatedMbps r \<le> rou_CapacityMbps r)"

definition offers_ok :: "(string \<rightharpoonup> ServiceOffer) \<Rightarrow> bool" where
  "offers_ok M \<longleftrightarrow> (\<forall>k r. M k = Some r \<longrightarrow> off_ID r = k \<and> int64 (off_Capacity r)
     \<and> 0 \<le> off_Used r \<and> off_Used r \<le> off_Capacity r)"

definition scenes_ok :: "(string \<rightharpoonup> SceneSubmission) \<Rightarrow> (string \<Rightarrow> string option) \<Rightarrow> bool" where
  \<comment> \<open>the second argument gives the tenant of an application\<close>
  "scenes_ok M tenant \<longleftrightarrow> (\<forall>k s. M k = Some s \<longrightarrow> sce_ID s = k \<and> 2 \<le> length (sce_Evidence s)
     \<and> tenant (sce_ApplicationID s) = Some (sce_TenantID s)
     \<and> (sce_Status s = ''submitted'' \<or> sce_Status s = ''approved'' \<and> sce_ReviewedAt s \<noteq> None))"

definition communities_ok :: "(string \<rightharpoonup> OPCCommunity) \<Rightarrow> bool" where
  "communities_ok M \<longleftrightarrow> (\<forall>k c. M k = Some c \<longrightarrow> com_ID c = k \<and> distinct (com_MemberIDs c)
     \<and> int (length (com_MemberIDs c)) \<le> com_Capacity c)"

definition events_of :: "string \<Rightarrow> string \<Rightarrow> AIServiceEvent list \<Rightarrow> AIServiceEvent list" where
  "events_of action k es = filter (\<lambda>e. evt_Action e = action \<and> evt_EntityID e = k) es"

definition events_ok :: "AIServiceEvent list \<Rightarrow> (string \<Rightarrow> AIApplicationStatus option) \<Rightarrow> bool" where
  \<comment> \<open>the second argument gives the status of an application\<close>
  "events_ok es status \<longleftrightarrow> (\<forall>k.
     length (events_of ''application.submitted'' k es) = (if status k = None then 0 else 1)
     \<and> length (events_of ''application.approved'' k es) = (if status k = Some ApplicationApproved then 1 else 0))"

definition tenant_in :: "(string \<rightharpoonup> EnterpriseApplication) \<Rightarrow> string \<Rightarrow> string option" where
  "tenant_in A k = map_option app_TenantID (A k)"

definition status_in :: "(string \<rightharpoonup> EnterpriseApplication) \<Rightarrow> string \<Rightarrow> AIApplicationStatus option" where
  "status_in A k = map_option app_Status (A k)"

definition ai_sound :: "'a ai_scheme \<Rightarrow> bool" where
  "ai_sound w \<longleftrightarrow> apps_ok (ai_applications w) (ai_reservations w)
     \<and> reservations_ok (ai_reservations w) (dom (ai_applications w)) (dom (ai_clusters w))
     \<and> clusters_ok (ai_clusters w) (ai_reservations w) \<and> routes_ok (ai_routes w) \<and> offers_ok (ai_offers w)
     \<and> scenes_ok (ai_scenes w) (tenant_in (ai_applications w)) \<and> communities_ok (ai_communities w)
     \<and> events_ok (ai_events w) (status_in (ai_applications w))"

lemma ai_sound_quiet: "quiet w w' \<Longrightarrow> ai_sound w \<Longrightarrow> ai_sound w'"
  by (simp only: ai_sound_def quiet_fields)

definition preserves :: "('a ai_scheme \<Rightarrow> bool) \<Rightarrow> (err, 'a ai_scheme, 'x) op \<Rightarrow> bool" where
  "preserves Q m \<longleftrightarrow> (\<forall>w r w'. Q w \<longrightarrow> m w = (r, w') \<longrightarrow> Q w')"

lemma preservesI:
  assumes "outcome P m" and "\<And>w w'. quiet w w' \<Longrightarrow> Q w \<Longrightarrow> Q w'" and "\<And>w x w'. Q w \<Longrightarrow> P w x w' \<Longrightarrow> Q w'"
  shows "preserves Q m"
proof -
  have "Q w'" if ok: "Q w" and run: "m w = (r, w')" for w r w'
  proof (cases r)
    case (Inl e)
    with outcomeD(1) [OF assms(1)] run have "quiet w w'" by simp
    then show ?thesis using ok by (rule assms(2))
  next
    case (Inr x)
    with outcomeD(2) [OF assms(1)] run obtain w1 where "quiet w w1" "P w1 x w'" by blast
    with ok assms(2,3) show ?thesis by blast
  qed
  then show ?thesis by (auto simp: preserves_def)
qed

lemma preserves_soundI:
  assumes "outcome P m" and "\<And>w x w'. ai_sound w \<Longrightarrow> P w x w' \<Longrightarrow> ai_sound w'"
  shows "preserves ai_sound m"
  by (rule preservesI [OF assms(1) ai_sound_quiet assms(2)])

subsection \<open>Updates of single parts\<close>

lemma tenant_in_same: "A k = Some a \<Longrightarrow> app_TenantID b = app_TenantID a \<Longrightarrow> tenant_in (A(k \<mapsto> b)) = tenant_in A"
  by (auto simp: tenant_in_def fun_eq_iff)

lemma status_in_upd: "status_in (A(k \<mapsto> b)) = (status_in A)(k \<mapsto> app_Status b)"
  by (auto simp: status_in_def fun_eq_iff)

lemma status_in_same: "A k = Some a \<Longrightarrow> app_Status b = app_Status a \<Longrightarrow> status_in (A(k \<mapsto> b)) = status_in A"
  by (auto simp: status_in_def fun_eq_iff)

lemma apps_ok_upd: "apps_ok A R \<Longrightarrow> app_ok k a \<Longrightarrow> (app_Status a = ApplicationApproved \<Longrightarrow> R k \<noteq> None) \<Longrightarrow> apps_ok (A(k \<mapsto> a)) R"
  by (simp add: apps_ok_def)

lemma apps_ok_edit: "apps_ok A R \<Longrightarrow> A k = Some a \<Longrightarrow> app_ID b = app_ID a \<Longrightarrow> app_Status b = app_Status a
    \<Longrightarrow> app_ASEANCountry b = app_ASEANCountry a \<Longrightarrow> app_RequestedPetaops b = app_RequestedPetaops a \<Longrightarrow> apps_ok (A(k \<mapsto> b)) R"
  by (simp add: apps_ok_def app_ok_def)

lemma apps_ok_more: "apps_ok A R \<Longrightarrow> apps_ok A (R(k \<mapsto> r))"
  by (simp add: apps_ok_def)

lemma reservations_ok_mono: "reservations_ok R as cs \<Longrightarrow> as \<subseteq> as' \<Longrightarrow> cs \<subseteq> cs' \<Longrightarrow> reservations_ok R as' cs'"
  unfolding reservations_ok_def by blast

lemma reservations_ok_upd: "reservations_ok R as cs \<Longrightarrow> res_ApplicationID r = k \<Longrightarrow> k \<in> as \<Longrightarrow> res_ClusterID r \<in> cs
    \<Longrightarrow> 0 < res_Petaops r \<Longrightarrow> reservations_ok (R(k \<mapsto> r)) as cs"
  by (simp add: reservations_ok_def)

lemma events_ok_submitted: "events_ok es S \<Longrightarrow> S (app_ID a) = None \<Longrightarrow>
    events_ok (es @ [submitted_event now a]) (S(app_ID a \<mapsto> ApplicationPending))"
  by (simp add: events_ok_def events_of_def submitted_event_def)

lemma events_ok_approved: "events_ok es S \<Longrightarrow> S k = Some ApplicationPending \<Longrightarrow>
    events_ok (es @ [approved_event now k actor]) (S(k \<mapsto> ApplicationApproved))"
  by (simp add: events_ok_def events_of_def approved_event_def)

lemma scenes_ok_tenants: "scenes_ok M t \<Longrightarrow> (\<And>k x. t k = Some x \<Longrightarrow> t' k = Some x) \<Longrightarrow> scenes_ok M t'"
  by (simp add: scenes_ok_def)

lemma live_load_nonneg: "reservations_ok R as cs \<Longrightarrow> 0 \<le> live_load k R"
  unfolding live_load_def by (rule sum_nonneg) (fastforce simp: reservations_ok_def load_of_def)

lemma clusters_ok_add:
  assumes "clusters_ok C R" and "reservations_ok R as (dom C)" and "C (clu_ID c) = None"
    and "int64 (clu_TotalPetaops c)" "clu_Allocated c = 0" "0 < clu_TotalPetaops c"
  shows "clusters_ok (C(clu_ID c \<mapsto> c)) R"
proof -
  have "live_load (clu_ID c) R = 0"
    by (rule live_load_other) (use assms(2,3) in \<open>fastforce simp: reservations_ok_def\<close>)
  with assms(4-6) have "cluster_ok R (clu_ID c) c" by (simp add: cluster_ok_def)
  with assms(1) show ?thesis by (simp add: clusters_ok_def)
qed

lemma clusters_ok_move:
  assumes ok: "clusters_ok C R" and fin: "finite (dom R)" and c: "C k = Some c"
    and delta: "load_of k (Some r) - load_of k (R a) = d" "\<And>k'. k' \<noteq> k \<Longrightarrow> load_of k' (Some r) = load_of k' (R a)"
    and c': "clu_ID c' = clu_ID c" "clu_TotalPetaops c' = clu_TotalPetaops c" "clu_Allocated c' = clu_Allocated c + d"
      "clu_Allocated c' \<le> clu_TotalPetaops c"
  shows "clusters_ok (C(k \<mapsto> c')) (R(a \<mapsto> r))"
proof -
  have "cluster_ok (R(a \<mapsto> r)) k c'"
    using clusters_okD [OF ok c] c' delta(1) by (simp add: cluster_ok_def live_load_update [OF fin])
  moreover have "cluster_ok (R(a \<mapsto> r)) j b" if "j \<noteq> k" "C j = Some b" for j b
    using clusters_okD [OF ok that(2)] delta(2) [OF that(1)] by (simp add: cluster_ok_def live_load_update [OF fin])
  ultimately show ?thesis by (simp add: clusters_ok_def)
qed

subsection \<open>Every operation keeps it\<close>

lemma SubmitApplication_sound: "preserves ai_sound (SubmitApplication a)"
proof (rule preserves_soundI [OF SubmitApplication_outcome], elim exE conjE)
  fix w :: "'b ai_scheme" and x w' now
  assume ok: "ai_sound w" and v: "validateApplicationInput a = None" and new: "ai_applications w (app_ID a) = None"
    and x: "x = submitted now a"
    and w': "w' = w\<lparr>ai_applications := (ai_applications w)(app_ID a \<mapsto> x), ai_events := ai_events w @ [submitted_event now a]\<rparr>"
  have app: "app_ok (app_ID a) (submitted now a)"
    using v by (auto simp: app_ok_def submitted_def validateApplicationInput_def normalizeCountry_def split: if_splits)
  have "status_in (ai_applications w) (app_ID a) = None" using new by (simp add: status_in_def)
  with ok app have "events_ok (ai_events w') (status_in (ai_applications w'))"
    by (simp add: w' x status_in_upd events_ok_submitted ai_sound_def) (simp add: submitted_def events_ok_submitted)
  moreover have "apps_ok (ai_applications w') (ai_reservations w')"
    using ok apps_ok_upd [OF _ app, of "ai_applications w" "ai_reservations w"]
    by (simp add: w' x ai_sound_def) (simp add: submitted_def)
  moreover have "scenes_ok (ai_scenes w') (tenant_in (ai_applications w'))"
    by (rule scenes_ok_tenants [of _ "tenant_in (ai_applications w)"]) (use ok new in \<open>auto simp: w' ai_sound_def tenant_in_def\<close>)
  moreover have "reservations_ok (ai_reservations w') (dom (ai_applications w')) (dom (ai_clusters w'))"
    using ok by (auto simp: w' ai_sound_def elim: reservations_ok_mono)
  ultimately show "ai_sound w'" using ok by (simp add: ai_sound_def w')
qed

lemma available: "computeAvailable c p \<Longrightarrow> int64 (clu_TotalPetaops c) \<Longrightarrow> 0 \<le> clu_Allocated c \<Longrightarrow> clu_Allocated c \<le> clu_TotalPetaops c
    \<Longrightarrow> 0 < p \<and> wrap64 (clu_Allocated c + p) = clu_Allocated c + p \<and> clu_Allocated c + p \<le> clu_TotalPetaops c"
  by (auto simp: computeAvailable_def wrap64_id int64_def)

lemma ReserveCompute_sound: "preserves ai_sound (ReserveCompute applicationID clusterID petaops)"
proof (rule preserves_soundI [OF ReserveCompute_outcome], elim exE conjE disjE)
  fix w :: "'b ai_scheme" and x w' application cluster now
  assume ok: "ai_sound w" and app: "ai_applications w applicationID = Some application"
    and clu: "ai_clusters w clusterID = Some cluster" and av: "computeAvailable cluster petaops"
    and res: "reserves application cluster applicationID clusterID petaops now w x w'"
  let ?R = "ai_reservations w"
  have C: "clusters_ok (ai_clusters w) ?R" and R: "reservations_ok ?R (dom (ai_applications w)) (dom (ai_clusters w))"
    using ok by (simp_all add: ai_sound_def)
  have c: "cluster_ok ?R clusterID cluster" using C clu by (rule clusters_okD)
  with live_load_nonneg [OF R, of clusterID] have "0 \<le> clu_Allocated cluster" "int64 (clu_TotalPetaops cluster)"
    "clu_Allocated cluster \<le> clu_TotalPetaops cluster" by (auto simp: cluster_ok_def)
  with available [OF av] have fits: "0 < petaops" "wrap64 (clu_Allocated cluster + petaops) = clu_Allocated cluster + petaops"
    "clu_Allocated cluster + petaops \<le> clu_TotalPetaops cluster" by blast+
  have free: "load_of k (?R applicationID) = 0" for k using res by (auto simp: reserves_def load_of_def split: option.splits)
  have w': "w' = w\<lparr>ai_clusters := (ai_clusters w)(clusterID \<mapsto> cluster\<lparr>clu_Allocated := clu_Allocated cluster + petaops,
           clu_Version := wrap64 (clu_Version cluster + 1)\<rparr>),
         ai_reservations := ?R(applicationID \<mapsto> x),
         ai_applications := (ai_applications w)(applicationID \<mapsto> application\<lparr>app_UpdatedAt := now,
           app_Version := wrap64 (app_Version application + 1)\<rparr>)\<rparr>"
    and x: "res_ApplicationID x = applicationID" "res_ClusterID x = clusterID" "res_Petaops x = petaops" "res_ReleasedAt x = None"
    using res fits by (simp_all add: reserves_def)
  have "clusters_ok (ai_clusters w') (ai_reservations w')"
    unfolding w' by (simp, rule clusters_ok_move [OF C _ clu, where d = petaops])
      (use R x free fits in \<open>auto simp: reservations_ok_def load_of_def\<close>)
  moreover have "reservations_ok (ai_reservations w') (dom (ai_applications w')) (dom (ai_clusters w'))"
    using R x fits(1) app clu unfolding w' by (auto intro!: reservations_ok_upd elim: reservations_ok_mono)
  moreover have "apps_ok (ai_applications w') (ai_reservations w')"
    using ok app unfolding w' ai_sound_def by (auto intro!: apps_ok_more apps_ok_edit)
  ultimately show "ai_sound w'" using ok app
    by (simp add: ai_sound_def w' tenant_in_same status_in_same)
qed simp

lemma ReleaseCompute_sound: "preserves ai_sound (ReleaseCompute applicationID)"
proof (rule preserves_soundI [OF ReleaseCompute_outcome], elim exE conjE disjE)
  fix w :: "'b ai_scheme" and x w' res cluster now
  assume ok: "ai_sound w" and res: "ai_reservations w applicationID = Some res" "res_ReleasedAt res = None"
    and clu: "ai_clusters w (res_ClusterID res) = Some cluster"
    and w': "w' = w\<lparr>ai_clusters := (ai_clusters w)(clu_ID cluster \<mapsto>
                 cluster\<lparr>clu_Allocated := wrap64 (clu_Allocated cluster - res_Petaops res), clu_Version := wrap64 (clu_Version cluster + 1)\<rparr>),
               ai_reservations := (ai_reservations w)(applicationID \<mapsto> res\<lparr>res_ReleasedAt := Some now\<rparr>)\<rparr>"
    and le: "res_Petaops res \<le> clu_Allocated cluster"
  let ?R = "ai_reservations w" and ?k = "res_ClusterID res"
  have C: "clusters_ok (ai_clusters w) ?R" and R: "reservations_ok ?R (dom (ai_applications w)) (dom (ai_clusters w))"
    using ok by (simp_all add: ai_sound_def)
  have c: "cluster_ok ?R ?k cluster" using C clu by (rule clusters_okD)
  have pos: "0 < res_Petaops res" "res_ApplicationID res = applicationID" "applicationID \<in> dom (ai_applications w)"
    using R res by (auto simp: reservations_ok_def)
  have "int64 (clu_Allocated cluster - res_Petaops res)" using c pos le by (auto simp: cluster_ok_def int64_def)
  moreover have less: "clu_Allocated cluster - res_Petaops res \<le> clu_TotalPetaops cluster" using c pos by (auto simp: cluster_ok_def)
  ultimately have w2: "w' = w\<lparr>ai_clusters := (ai_clusters w)(?k \<mapsto>
                 cluster\<lparr>clu_Allocated := clu_Allocated cluster - res_Petaops res, clu_Version := wrap64 (clu_Version cluster + 1)\<rparr>),
               ai_reservations := ?R(applicationID \<mapsto> res\<lparr>res_ReleasedAt := Some now\<rparr>)\<rparr>"
    using w' c by (simp add: wrap64_id cluster_ok_def)
  have "clusters_ok (ai_clusters w') (ai_reservations w')"
    unfolding w2 by (simp, rule clusters_ok_move [OF C _ clu, where d = "- res_Petaops res"])
      (use R res less in \<open>auto simp: reservations_ok_def load_of_def\<close>)
  moreover have "reservations_ok (ai_reservations w') (dom (ai_applications w')) (dom (ai_clusters w'))"
    using R pos clu unfolding w2 by (auto intro!: reservations_ok_upd elim: reservations_ok_mono)
  moreover have "apps_ok (ai_applications w') (ai_reservations w')"
    using ok unfolding w2 ai_sound_def by (auto intro!: apps_ok_more)
  ultimately show "ai_sound w'" using ok by (simp add: ai_sound_def w2)
qed simp

lemma ApproveApplication_sound: "preserves ai_sound (ApproveApplication applicationID actorID)"
proof (rule preserves_soundI [OF ApproveApplication_outcome], elim exE conjE)
  fix w :: "'b ai_scheme" and x w' a now
  assume ok: "ai_sound w" and a: "ai_applications w applicationID = Some a" "app_Status a = ApplicationPending"
    and res: "ai_reservations w applicationID \<noteq> None" and x: "x = approved now a"
    and w': "w' = w\<lparr>ai_applications := (ai_applications w)(applicationID \<mapsto> x),
        ai_events := ai_events w @ [approved_event now applicationID actorID]\<rparr>"
  have A: "apps_ok (ai_applications w) (ai_reservations w)" using ok by (simp add: ai_sound_def)
  then have "app_ok applicationID (approved now a)" using a by (simp add: apps_ok_def app_ok_def approved_def)
  then have "apps_ok (ai_applications w') (ai_reservations w')" using A res by (simp add: w' x apps_ok_upd)
  moreover have "events_ok (ai_events w') (status_in (ai_applications w'))"
    using ok a events_ok_approved [of "ai_events w" "status_in (ai_applications w)" applicationID]
    by (simp add: w' x status_in_upd ai_sound_def status_in_def) (simp add: approved_def)
  moreover have "tenant_in (ai_applications w') = tenant_in (ai_applications w)"
    using a by (simp add: w' x tenant_in_same approved_def)
  moreover have "dom (ai_applications w') = dom (ai_applications w)" using a by (auto simp: w')
  ultimately show "ai_sound w'" using ok by (simp add: ai_sound_def w')
qed

lemma edit_sound:
  assumes "ai_sound w" and a: "ai_applications w k = Some a" and "app_ID b = app_ID a" "app_Status b = app_Status a"
    "app_ASEANCountry b = app_ASEANCountry a" "app_RequestedPetaops b = app_RequestedPetaops a" "app_TenantID b = app_TenantID a"
  shows "ai_sound (w\<lparr>ai_applications := (ai_applications w)(k \<mapsto> b)\<rparr>)"
proof -
  have "dom ((ai_applications w)(k \<mapsto> b)) = dom (ai_applications w)" using a by auto
  with assms show ?thesis by (simp add: ai_sound_def tenant_in_same status_in_same apps_ok_edit)
qed

lemma routes_ok_use: "routes_ok M \<Longrightarrow> M k = Some r \<Longrightarrow> 0 < p \<Longrightarrow> p \<le> wrap64 (rou_CapacityMbps r - rou_AllocatedMbps r) \<Longrightarrow>
    routes_ok (M(k \<mapsto> r\<lparr>rou_AllocatedMbps := wrap64 (rou_AllocatedMbps r + p), rou_Version := v\<rparr>))"
proof -
  assume ok: "routes_ok M" and r: "M k = Some r" and p: "0 < p" "p \<le> wrap64 (rou_CapacityMbps r - rou_AllocatedMbps r)"
  from ok r have c: "int64 (rou_CapacityMbps r)" "0 \<le> rou_AllocatedMbps r" "rou_AllocatedMbps r \<le> rou_CapacityMbps r" "rou_ID r = k"
    by (simp_all add: routes_ok_def)
  then have "wrap64 (rou_CapacityMbps r - rou_AllocatedMbps r) = rou_CapacityMbps r - rou_AllocatedMbps r"
    by (intro wrap64_id) (simp add: int64_def)
  with p c have "wrap64 (rou_AllocatedMbps r + p) = rou_AllocatedMbps r + p" "rou_AllocatedMbps r + p \<le> rou_CapacityMbps r"
    by (simp_all add: wrap64_id int64_def)
  with ok c p show ?thesis by (simp add: routes_ok_def)
qed

lemma offers_ok_use: "offers_ok M \<Longrightarrow> M k = Some r \<Longrightarrow> off_Used r < off_Capacity r \<Longrightarrow>
    offers_ok (M(k \<mapsto> r\<lparr>off_Used := wrap64 (off_Used r + 1), off_Version := v\<rparr>))"
proof -
  assume ok: "offers_ok M" and r: "M k = Some r" and free: "off_Used r < off_Capacity r"
  from ok r have c: "int64 (off_Capacity r)" "0 \<le> off_Used r" "off_ID r = k" by (simp_all add: offers_ok_def)
  with free have "wrap64 (off_Used r + 1) = off_Used r + 1" by (simp add: wrap64_id int64_def)
  with ok c free show ?thesis by (simp add: offers_ok_def)
qed

lemma AssignRoute_sound: "preserves ai_sound (AssignRoute applicationID routeID mbps)"
proof (rule preserves_soundI [OF AssignRoute_outcome], elim exE conjE)
  fix w :: "'b ai_scheme" and x :: unit and w' a route
  assume ok: "ai_sound w" and a: "ai_applications w applicationID = Some a" and route: "ai_routes w routeID = Some route"
    and fits: "0 < mbps" "mbps \<le> wrap64 (rou_CapacityMbps route - rou_AllocatedMbps route)"
    and w': "w' = w\<lparr>ai_routes := (ai_routes w)(routeID \<mapsto> route\<lparr>rou_AllocatedMbps := wrap64 (rou_AllocatedMbps route + mbps),
             rou_Version := wrap64 (rou_Version route + 1)\<rparr>),
           ai_applications := (ai_applications w)(applicationID \<mapsto> a\<lparr>app_RouteID := routeID,
             app_Version := wrap64 (app_Version a + 1)\<rparr>)\<rparr>"
  let ?b = "a\<lparr>app_RouteID := routeID, app_Version := wrap64 (app_Version a + 1)\<rparr>"
  have "routes_ok (ai_routes w')" using ok route fits by (simp add: w' ai_sound_def routes_ok_use)
  moreover have "ai_sound (w\<lparr>ai_applications := (ai_applications w)(applicationID \<mapsto> ?b)\<rparr>)"
    using ok a by (rule edit_sound) simp_all
  ultimately show "ai_sound w'" by (simp add: ai_sound_def w')
qed

lemma ApplyOffer_sound: "preserves ai_sound (ApplyOffer applicationID offerID at)"
proof (rule preserves_soundI [OF ApplyOffer_outcome], elim exE conjE)
  fix w :: "'b ai_scheme" and x :: unit and w' a offer now
  assume ok: "ai_sound w" and a: "ai_applications w applicationID = Some a" and offer: "ai_offers w offerID = Some offer"
    and av: "offerAvailable offer (app_ASEANCountry a) now"
    and w': "w' = w\<lparr>ai_offers := (ai_offers w)(offerID \<mapsto> offer\<lparr>off_Used := wrap64 (off_Used offer + 1),
             off_Version := wrap64 (off_Version offer + 1)\<rparr>),
           ai_applications := (ai_applications w)(applicationID \<mapsto> a\<lparr>app_ServiceOfferID := offerID,
             app_Version := wrap64 (app_Version a + 1)\<rparr>)\<rparr>"
  let ?b = "a\<lparr>app_ServiceOfferID := offerID, app_Version := wrap64 (app_Version a + 1)\<rparr>"
  have "off_Used offer < off_Capacity offer" using av by (simp add: offerAvailable_def split: if_splits)
  then have "offers_ok (ai_offers w')" using ok offer by (simp add: w' ai_sound_def offers_ok_use)
  moreover have "ai_sound (w\<lparr>ai_applications := (ai_applications w)(applicationID \<mapsto> ?b)\<rparr>)"
    using ok a by (rule edit_sound) simp_all
  ultimately show "ai_sound w'" by (simp add: ai_sound_def w')
qed

lemma PublishScene_sound: "preserves ai_sound (PublishScene scene)"
  by (rule preserves_soundI [OF PublishScene_outcome], elim exE conjE)
     (auto simp: ai_sound_def scenes_ok_def published_def tenant_in_def)

lemma ApproveScene_sound: "preserves ai_sound (ApproveScene sceneID reviewerID)"
  by (rule preserves_soundI [OF ApproveScene_outcome], elim exE conjE)
     (auto simp: ai_sound_def scenes_ok_def)

lemma EnrollOPC_sound: "preserves ai_sound (EnrollOPC communityID memberID)"
  by (rule preserves_soundI [OF EnrollOPC_outcome], elim exE conjE disjE)
     (auto simp: ai_sound_def communities_ok_def)

lemma stored_status: "ai_sound w \<Longrightarrow> ai_applications w k = Some a \<Longrightarrow> app_Status a \<in> {ApplicationPending, ApplicationApproved}"
  by (auto simp: ai_sound_def apps_ok_def app_ok_def)

lemma ResubmitApplication_sound: "preserves ai_sound (ResubmitApplication applicationID materials)"
  by (rule preserves_soundI [OF ResubmitApplication_outcome], elim exE conjE) (fastforce dest: stored_status)

lemma CloseApplication_sound: "preserves ai_sound (CloseApplication applicationID)"
  by (rule preserves_soundI [OF CloseApplication_outcome], elim exE conjE) (fastforce dest: stored_status)

lemma ListApplications_sound: "preserves ai_sound (ListApplications order query)"
  by (rule preserves_soundI [OF ListApplications_outcome]) simp

text \<open>
  Resources that are added unused keep the invariant. The code does not check it: an allocation that a
  new cluster brings along is never released.
\<close>

lemma AddCluster_sound:
  assumes "clu_Allocated c = 0" and "int64 (clu_TotalPetaops c)"
  shows "preserves ai_sound (AddCluster c)"
proof (rule preserves_soundI [OF AddCluster_outcome], elim exE conjE)
  fix w :: "'b ai_scheme" and x :: unit and w'
  assume ok: "ai_sound w" and new: "clu_ID c \<noteq> ''''" "0 < clu_TotalPetaops c" "ai_clusters w (clu_ID c) = None"
    and w': "w' = w\<lparr>ai_clusters := (ai_clusters w)(clu_ID c \<mapsto> c)\<rparr>"
  then show "ai_sound w'" using assms clusters_ok_add
    by (auto simp: ai_sound_def elim: reservations_ok_mono)
qed

lemma AddRoute_sound: "rou_AllocatedMbps r = 0 \<Longrightarrow> int64 (rou_CapacityMbps r) \<Longrightarrow> preserves ai_sound (AddRoute r)"
  by (rule preserves_soundI [OF AddRoute_outcome], elim exE conjE) (auto simp: ai_sound_def routes_ok_def)

lemma AddOffer_sound: "off_Used r = 0 \<Longrightarrow> int64 (off_Capacity r) \<Longrightarrow> preserves ai_sound (AddOffer r)"
  by (rule preserves_soundI [OF AddOffer_outcome], elim exE conjE) (auto simp: ai_sound_def offers_ok_def)

lemma AddCommunity_sound: "distinct (com_MemberIDs r) \<Longrightarrow> int (length (com_MemberIDs r)) \<le> com_Capacity r \<Longrightarrow>
    preserves ai_sound (AddCommunity r)"
  by (rule preserves_soundI [OF AddCommunity_outcome], elim exE conjE) (auto simp: ai_sound_def communities_ok_def)

section \<open>Reachable registries\<close>

text \<open>
  The operations, on any arguments: that the numbers of a cluster, a route and an offer are of the
  type \<open>int\<close> is all that is asked of what is added.
\<close>

inductive ai_step :: "ai \<Rightarrow> ai \<Rightarrow> bool" where
  add_cluster: "AddCluster c w = (r, w') \<Longrightarrow> int64 (clu_Allocated c) \<Longrightarrow> int64 (clu_TotalPetaops c) \<Longrightarrow> ai_step w w'"
| add_route: "AddRoute route w = (r, w') \<Longrightarrow> int64 (rou_CapacityMbps route) \<Longrightarrow> ai_step w w'"
| add_offer: "AddOffer offer w = (r, w') \<Longrightarrow> int64 (off_Capacity offer) \<Longrightarrow> ai_step w w'"
| add_community: "AddCommunity com w = (r, w') \<Longrightarrow> ai_step w w'"
| submit: "SubmitApplication a w = (r1, w') \<Longrightarrow> ai_step w w'"
| reserve: "ReserveCompute applicationID clusterID petaops w = (r2, w') \<Longrightarrow> ai_step w w'"
| release: "ReleaseCompute applicationID w = (r, w') \<Longrightarrow> ai_step w w'"
| approve: "ApproveApplication applicationID actorID w = (r1, w') \<Longrightarrow> ai_step w w'"
| assign_route: "AssignRoute applicationID routeID mbps w = (r, w') \<Longrightarrow> ai_step w w'"
| publish: "PublishScene scene w = (r3, w') \<Longrightarrow> ai_step w w'"
| approve_scene: "ApproveScene sceneID reviewerID w = (r3, w') \<Longrightarrow> ai_step w w'"
| apply_offer: "ApplyOffer applicationID offerID at w = (r, w') \<Longrightarrow> ai_step w w'"
| enroll: "EnrollOPC communityID memberID w = (r4, w') \<Longrightarrow> ai_step w w'"
| resubmit: "ResubmitApplication applicationID materials w = (r1, w') \<Longrightarrow> ai_step w w'"
| close: "CloseApplication applicationID w = (r, w') \<Longrightarrow> ai_step w w'"
| list_applications: "ListApplications order query w = (r5, w') \<Longrightarrow> ai_step w w'"
| environment: "w' = w\<lparr>rt_clock := clock, rt_wall := wall, rt_faults := faults\<rparr> \<Longrightarrow> ai_step w w'"

inductive ai_run :: "(ai \<Rightarrow> ai \<Rightarrow> bool) \<Rightarrow> ai \<Rightarrow> bool" for fit where
  \<comment> \<open>registries that the steps in \<open>fit\<close> reach from an empty one\<close>
  start: "ai_run fit (NewAIRegistry rt)"
| step: "ai_run fit w \<Longrightarrow> ai_step w w' \<Longrightarrow> fit w w' \<Longrightarrow> ai_run fit w'"

definition unused_added :: "'a ai_scheme \<Rightarrow> 'a ai_scheme \<Rightarrow> bool" where
  \<comment> \<open>what is new has not been used yet, and a new community is not overfull\<close>
  "unused_added w w' \<longleftrightarrow> (\<forall>k c. ai_clusters w k = None \<and> ai_clusters w' k = Some c \<longrightarrow> clu_Allocated c = 0)
     \<and> (\<forall>k r. ai_routes w k = None \<and> ai_routes w' k = Some r \<longrightarrow> rou_AllocatedMbps r = 0)
     \<and> (\<forall>k r. ai_offers w k = None \<and> ai_offers w' k = Some r \<longrightarrow> off_Used r = 0)
     \<and> (\<forall>k r. ai_communities w k = None \<and> ai_communities w' k = Some r
          \<longrightarrow> distinct (com_MemberIDs r) \<and> int (length (com_MemberIDs r)) \<le> com_Capacity r)"

abbreviation ai_reachable :: "ai \<Rightarrow> bool" where
  \<comment> \<open>registries to which only unused resources have been added; the code does not check this\<close>
  "ai_reachable \<equiv> ai_run unused_added"

lemma preservesD: "preserves Q m \<Longrightarrow> Q w \<Longrightarrow> m w = (r, w') \<Longrightarrow> Q w'"
  by (auto simp: preserves_def)

text \<open>An addition that is made is one of a new entry, which \<open>unused_added\<close> speaks about.\<close>

lemma unused_adds:
  "AddCluster c w = (Inr u, w') \<Longrightarrow> unused_added w w' \<Longrightarrow> clu_Allocated c = 0"
  "AddRoute route w = (Inr u, w') \<Longrightarrow> unused_added w w' \<Longrightarrow> rou_AllocatedMbps route = 0"
  "AddOffer offer w = (Inr u, w') \<Longrightarrow> unused_added w w' \<Longrightarrow> off_Used offer = 0"
  "AddCommunity com w = (Inr u, w') \<Longrightarrow> unused_added w w'
    \<Longrightarrow> distinct (com_MemberIDs com) \<and> int (length (com_MemberIDs com)) \<le> com_Capacity com"
  by (drule outcomeD(2) [OF AddCluster_outcome], force simp: unused_added_def quiet_fields)
     (drule outcomeD(2) [OF AddRoute_outcome], force simp: unused_added_def quiet_fields,
      drule outcomeD(2) [OF AddOffer_outcome], force simp: unused_added_def quiet_fields,
      drule outcomeD(2) [OF AddCommunity_outcome], force simp: unused_added_def quiet_fields)

lemma added_sound:
  assumes "ai_sound w" and "unused_added w w'"
  shows "AddCluster c w = (r, w') \<Longrightarrow> int64 (clu_TotalPetaops c) \<Longrightarrow> ai_sound w'"
    and "AddRoute route w = (r, w') \<Longrightarrow> int64 (rou_CapacityMbps route) \<Longrightarrow> ai_sound w'"
    and "AddOffer offer w = (r, w') \<Longrightarrow> int64 (off_Capacity offer) \<Longrightarrow> ai_sound w'"
    and "AddCommunity com w = (r, w') \<Longrightarrow> ai_sound w'"
proof -
  show "ai_sound w'" if run: "AddCluster c w = (r, w')" and t: "int64 (clu_TotalPetaops c)"
  proof (cases r)
    case (Inl e)
    from outcomeD(1) [OF AddCluster_outcome run [unfolded Inl]] assms(1) show ?thesis by (rule ai_sound_quiet)
  next
    case (Inr x)
    note u = unused_adds(1) [OF run [unfolded Inr] assms(2)]
    from AddCluster_sound [OF u t] assms(1) run show ?thesis by (rule preservesD)
  qed
  show "ai_sound w'" if run: "AddRoute route w = (r, w')" and t: "int64 (rou_CapacityMbps route)"
  proof (cases r)
    case (Inl e)
    from outcomeD(1) [OF AddRoute_outcome run [unfolded Inl]] assms(1) show ?thesis by (rule ai_sound_quiet)
  next
    case (Inr x)
    note u = unused_adds(2) [OF run [unfolded Inr] assms(2)]
    from AddRoute_sound [OF u t] assms(1) run show ?thesis by (rule preservesD)
  qed
  show "ai_sound w'" if run: "AddOffer offer w = (r, w')" and t: "int64 (off_Capacity offer)"
  proof (cases r)
    case (Inl e)
    from outcomeD(1) [OF AddOffer_outcome run [unfolded Inl]] assms(1) show ?thesis by (rule ai_sound_quiet)
  next
    case (Inr x)
    note u = unused_adds(3) [OF run [unfolded Inr] assms(2)]
    from AddOffer_sound [OF u t] assms(1) run show ?thesis by (rule preservesD)
  qed
  show "ai_sound w'" if run: "AddCommunity com w = (r, w')"
  proof (cases r)
    case (Inl e)
    from outcomeD(1) [OF AddCommunity_outcome run [unfolded Inl]] assms(1) show ?thesis by (rule ai_sound_quiet)
  next
    case (Inr x)
    note u = unused_adds(4) [OF run [unfolded Inr] assms(2)]
    from AddCommunity_sound [OF conjunct1 [OF u] conjunct2 [OF u]] assms(1) run show ?thesis by (rule preservesD)
  qed
qed

lemmas ai_soundness = SubmitApplication_sound
  ReserveCompute_sound ReleaseCompute_sound ApproveApplication_sound AssignRoute_sound PublishScene_sound
  ApproveScene_sound ApplyOffer_sound EnrollOPC_sound ResubmitApplication_sound CloseApplication_sound
  ListApplications_sound

lemma ai_step_sound:
  assumes "ai_step w w'" and "unused_added w w'" and "ai_sound w"
  shows "ai_sound w'"
  using assms(1)
proof cases
  case (environment clock wall faults)
  with assms(3) show ?thesis by (simp add: ai_sound_def)
qed (rule added_sound [OF assms(3,2)], assumption+ | rule preservesD [of ai_sound _ w, OF _ assms(3), rotated], assumption, rule ai_soundness)+

lemma reachable_registry: "ai_reachable w \<Longrightarrow> ai_sound w"
proof (induction rule: ai_run.induct)
  case (start rt)
  then show ?case
    by (simp add: ai_sound_def NewAIRegistry_def ai.defs runtime.defs apps_ok_def reservations_ok_def clusters_ok_def routes_ok_def
        offers_ok_def scenes_ok_def communities_ok_def events_ok_def events_of_def status_in_def)
qed (rule ai_step_sound)

text \<open>The other operations add nothing of this kind.\<close>

lemma compute_adds_nothing:
  "ReserveCompute applicationID clusterID petaops w = (r, w') \<Longrightarrow> unused_added w w'"
  "ReleaseCompute applicationID w = (u, w') \<Longrightarrow> typed_clusters (ai_clusters w) \<Longrightarrow> unused_added w w'"
proof -
  show "unused_added w w'" if "ReserveCompute applicationID clusterID petaops w = (r, w')"
    using that outcomeD [OF ReserveCompute_outcome, of applicationID clusterID petaops w]
    by (cases r) (fastforce simp: unused_added_def quiet_fields reserves_def split: if_split_asm)+
  show "unused_added w w'" if "ReleaseCompute applicationID w = (u, w')" "typed_clusters (ai_clusters w)"
    using that outcomeD [OF ReleaseCompute_outcome, of applicationID w]
    by (cases u) (fastforce simp: unused_added_def quiet_fields typed_clusters_def split: if_split_asm)+
qed

section \<open>The accounts of the clusters\<close>

text \<open>
  What holds of a cluster however it was added: \<open>b\<close> is its allocation and \<open>t\<close> its total at that time.
\<close>

definition accounted :: "string \<Rightarrow> int \<Rightarrow> int \<Rightarrow> 'a ai_scheme \<Rightarrow> bool" where
  "accounted k b t w \<longleftrightarrow> (\<exists>c. ai_clusters w k = Some c \<and> clu_TotalPetaops c = t
     \<and> clu_Allocated c = b + live_load k (ai_reservations w) \<and> clu_Allocated c \<le> max b t)"

definition ledger :: "(string \<times> int \<times> int) set \<Rightarrow> 'a ai_scheme \<Rightarrow> bool" where
  "ledger K w \<longleftrightarrow> reservations_ok (ai_reservations w) (dom (ai_applications w)) (dom (ai_clusters w))
     \<and> typed_clusters (ai_clusters w) \<and> (\<forall>(k, b, t) \<in> K. accounted k b t w)"

lemma ledger_same: "ledger K w \<Longrightarrow> ai_clusters w' = ai_clusters w \<Longrightarrow> ai_reservations w' = ai_reservations w
    \<Longrightarrow> dom (ai_applications w) \<subseteq> dom (ai_applications w') \<Longrightarrow> ledger K w'"
  by (auto simp: ledger_def accounted_def elim: reservations_ok_mono)

lemma ledger_quiet: "quiet w w' \<Longrightarrow> ledger K w \<Longrightarrow> ledger K w'"
  by (erule ledger_same) (simp_all add: quiet_fields)

lemma ledger_kept:
  "preserves (ledger K) (SubmitApplication a)" "preserves (ledger K) (ApproveApplication applicationID actorID)"
  "preserves (ledger K) (AssignRoute applicationID routeID mbps)" "preserves (ledger K) (PublishScene scene)"
  "preserves (ledger K) (ApproveScene sceneID reviewerID)" "preserves (ledger K) (ApplyOffer applicationID offerID at)"
  "preserves (ledger K) (EnrollOPC communityID memberID)" "preserves (ledger K) (ResubmitApplication applicationID materials)"
  "preserves (ledger K) (CloseApplication applicationID)" "preserves (ledger K) (ListApplications order query)"
  "preserves (ledger K) (AddRoute route)" "preserves (ledger K) (AddOffer offer)" "preserves (ledger K) (AddCommunity com)"
  by (rule preservesI [OF SubmitApplication_outcome ledger_quiet] preservesI [OF ApproveApplication_outcome ledger_quiet]
      preservesI [OF AssignRoute_outcome ledger_quiet] preservesI [OF PublishScene_outcome ledger_quiet]
      preservesI [OF ApproveScene_outcome ledger_quiet] preservesI [OF ApplyOffer_outcome ledger_quiet]
      preservesI [OF EnrollOPC_outcome ledger_quiet] preservesI [OF ResubmitApplication_outcome ledger_quiet]
      preservesI [OF CloseApplication_outcome ledger_quiet] preservesI [OF ListApplications_outcome ledger_quiet]
      preservesI [OF AddRoute_outcome ledger_quiet] preservesI [OF AddOffer_outcome ledger_quiet]
      preservesI [OF AddCommunity_outcome ledger_quiet]; auto elim!: ledger_same)+

text \<open>A cluster and a reservation change together, and so do the accounts.\<close>

lemma ledger_move:
  assumes ok: "ledger K w" and c: "ai_clusters w k = Some c"
    and r: "res_ApplicationID r = a" "a \<in> dom (ai_applications w)" "res_ClusterID r = k" "0 < res_Petaops r"
    and delta: "load_of k (Some r) - load_of k (ai_reservations w a) = d"
      "\<And>k'. k' \<noteq> k \<Longrightarrow> load_of k' (Some r) = load_of k' (ai_reservations w a)"
    and c': "clu_ID c' = k" "clu_TotalPetaops c' = clu_TotalPetaops c" "clu_Allocated c' = clu_Allocated c + d" "int64 (clu_Allocated c')"
    and less: "d \<le> 0 \<or> clu_Allocated c' \<le> clu_TotalPetaops c"
    and w': "ai_clusters w' = (ai_clusters w)(k \<mapsto> c')" "ai_reservations w' = (ai_reservations w)(a \<mapsto> r)"
      "dom (ai_applications w) \<subseteq> dom (ai_applications w')"
  shows "ledger K w'"
proof -
  have R: "reservations_ok (ai_reservations w) (dom (ai_applications w)) (dom (ai_clusters w))"
    and C: "typed_clusters (ai_clusters w)" and K: "\<forall>(k, b, t) \<in> K. accounted k b t w"
    using ok by (simp_all add: ledger_def)
  have load: "live_load j (ai_reservations w') = live_load j (ai_reservations w) + (if j = k then d else 0)" for j
    using R delta by (simp add: w'(2) live_load_update reservations_ok_def)
  have "reservations_ok (ai_reservations w') (dom (ai_applications w')) (dom (ai_clusters w'))"
    unfolding w' by (rule reservations_ok_upd) (use R r c w'(3) in \<open>auto elim: reservations_ok_mono\<close>)
  moreover have "typed_clusters (ai_clusters w')" using C c c' by (auto simp: w' typed_clusters_def)
  moreover have "accounted j b t w'" if "(j, b, t) \<in> K" for j b t
  proof -
    from K that obtain x where x: "ai_clusters w j = Some x" "clu_TotalPetaops x = t"
      "clu_Allocated x = b + live_load j (ai_reservations w)" "clu_Allocated x \<le> max b t" by (auto simp: accounted_def)
    show ?thesis
    proof (cases "j = k")
      case True
      with x c c' less show ?thesis by (auto simp: accounted_def w'(1) load)
    next
      case False
      with x show ?thesis by (simp add: accounted_def w'(1) load)
    qed
  qed
  ultimately show ?thesis by (auto simp: ledger_def)
qed

lemma wrap64_le: "- (2 ^ 63) \<le> k \<Longrightarrow> wrap64 k \<le> k"
  by (simp add: wrap64_def signed_take_bit_int_less_eq_self_iff)

lemma available_typed: "computeAvailable c p \<Longrightarrow> int64 (clu_TotalPetaops c) \<Longrightarrow> 0 < clu_TotalPetaops c \<Longrightarrow> int64 (clu_Allocated c)
    \<Longrightarrow> 0 < p \<and> wrap64 (clu_Allocated c + p) = clu_Allocated c + p \<and> clu_Allocated c + p \<le> clu_TotalPetaops c
      \<and> int64 (clu_Allocated c + p)"
proof -
  assume av: "computeAvailable c p" and t: "int64 (clu_TotalPetaops c)" "0 < clu_TotalPetaops c" and al: "int64 (clu_Allocated c)"
  have "wrap64 (clu_TotalPetaops c - clu_Allocated c) \<le> clu_TotalPetaops c - clu_Allocated c"
    using t al by (intro wrap64_le) (simp add: int64_def)
  with av have "0 < p" "clu_Allocated c + p \<le> clu_TotalPetaops c" by (simp_all add: computeAvailable_def)
  moreover from this t al have "int64 (clu_Allocated c + p)" by (simp add: int64_def)
  ultimately show ?thesis by (simp add: wrap64_id)
qed

lemma ReserveCompute_ledger: "preserves (ledger K) (ReserveCompute applicationID clusterID petaops)"
proof (rule preservesI [OF ReserveCompute_outcome ledger_quiet], assumption+, elim exE conjE disjE)
  fix w :: "'b ai_scheme" and x w' application cluster now
  assume ok: "ledger K w" and app: "ai_applications w applicationID = Some application"
    and clu: "ai_clusters w clusterID = Some cluster" and av: "computeAvailable cluster petaops"
    and res: "reserves application cluster applicationID clusterID petaops now w x w'"
  have "typed_clusters (ai_clusters w)" using ok by (simp add: ledger_def)
  with clu have t: "int64 (clu_TotalPetaops cluster)" "0 < clu_TotalPetaops cluster" "int64 (clu_Allocated cluster)" "clu_ID cluster = clusterID"
    by (simp_all add: typed_clusters_def)
  note fits = available_typed [OF av t(1-3)]
  have free: "load_of k (ai_reservations w applicationID) = 0" for k
    using res by (auto simp: reserves_def load_of_def split: option.splits)
  show "ledger K w'"
    by (rule ledger_move [OF ok clu, where a = applicationID and r = x and d = petaops and
          c' = "cluster\<lparr>clu_Allocated := clu_Allocated cluster + petaops, clu_Version := wrap64 (clu_Version cluster + 1)\<rparr>"])
       (use res fits t app free in \<open>auto simp: reserves_def load_of_def\<close>)
qed simp

lemma ReleaseCompute_ledger: "preserves (ledger K) (ReleaseCompute applicationID)"
proof (rule preservesI [OF ReleaseCompute_outcome ledger_quiet], assumption+, elim exE conjE disjE)
  fix w :: "'b ai_scheme" and x w' res cluster now
  assume ok: "ledger K w" and res: "ai_reservations w applicationID = Some res" "res_ReleasedAt res = None"
    and clu: "ai_clusters w (res_ClusterID res) = Some cluster" and le: "res_Petaops res \<le> clu_Allocated cluster"
    and w': "w' = w\<lparr>ai_clusters := (ai_clusters w)(clu_ID cluster \<mapsto>
                 cluster\<lparr>clu_Allocated := wrap64 (clu_Allocated cluster - res_Petaops res), clu_Version := wrap64 (clu_Version cluster + 1)\<rparr>),
               ai_reservations := (ai_reservations w)(applicationID \<mapsto> res\<lparr>res_ReleasedAt := Some now\<rparr>)\<rparr>"
  have "typed_clusters (ai_clusters w)" and R: "reservations_ok (ai_reservations w) (dom (ai_applications w)) (dom (ai_clusters w))"
    using ok by (simp_all add: ledger_def)
  with clu have t: "int64 (clu_Allocated cluster)" "clu_ID cluster = res_ClusterID res" by (simp_all add: typed_clusters_def)
  have pos: "0 < res_Petaops res" "res_ApplicationID res = applicationID" "applicationID \<in> dom (ai_applications w)"
    using R res by (auto simp: reservations_ok_def)
  have fits: "int64 (clu_Allocated cluster - res_Petaops res)" using t pos le by (simp add: int64_def)
  show "ledger K w'"
    by (rule ledger_move [OF ok clu, where a = applicationID and r = "res\<lparr>res_ReleasedAt := Some now\<rparr>" and d = "- res_Petaops res" and
          c' = "cluster\<lparr>clu_Allocated := clu_Allocated cluster - res_Petaops res, clu_Version := wrap64 (clu_Version cluster + 1)\<rparr>"])
       (use res fits t pos w' in \<open>auto simp: load_of_def wrap64_id\<close>)
qed simp

lemma AddCluster_ledger:
  assumes "AddCluster c w = (r, w')" and "ledger K w" and "int64 (clu_TotalPetaops c)" "int64 (clu_Allocated c)"
  shows "ledger K w'" and "r = Inr u \<Longrightarrow> ledger {(clu_ID c, clu_Allocated c, clu_TotalPetaops c)} w'"
proof -
  have both: "ledger K w' \<and> (r = Inr u \<longrightarrow> ledger {(clu_ID c, clu_Allocated c, clu_TotalPetaops c)} w')"
  proof (cases r)
    case (Inl e)
    from outcomeD(1) [OF AddCluster_outcome assms(1) [unfolded Inl]] assms(2) have "ledger K w'" by (rule ledger_quiet)
    with Inl show ?thesis by simp
  next
    case (Inr x)
    with outcomeD(2) [OF AddCluster_outcome] assms(1) obtain w1 where w1: "quiet w w1"
      and new: "0 < clu_TotalPetaops c" "ai_clusters w1 (clu_ID c) = None" and w': "w' = w1\<lparr>ai_clusters := (ai_clusters w1)(clu_ID c \<mapsto> c)\<rparr>"
      by blast
    have ok: "ledger K w1" using w1 assms(2) by (rule ledger_quiet)
    have none: "live_load (clu_ID c) (ai_reservations w1) = 0"
      by (rule live_load_other) (use ok new in \<open>fastforce simp: ledger_def reservations_ok_def\<close>)
    have "accounted k b t w'" if "accounted k b t w1" for k b t
      using that new(2) by (cases "k = clu_ID c") (simp_all add: accounted_def w')
    then have kept: "(\<forall>(k, b, t) \<in> K. accounted k b t w')" using ok by (auto simp: ledger_def)
    have "reservations_ok (ai_reservations w') (dom (ai_applications w')) (dom (ai_clusters w')) \<and> typed_clusters (ai_clusters w')"
      using ok new(1) assms(3,4) by (auto simp: ledger_def w' typed_clusters_def elim: reservations_ok_mono)
    with kept none show ?thesis by (simp add: ledger_def) (simp add: accounted_def w')
  qed
  then show "ledger K w'" "r = Inr u \<Longrightarrow> ledger {(clu_ID c, clu_Allocated c, clu_TotalPetaops c)} w'" by simp_all
qed

lemma ai_step_ledger:
  assumes "ai_step w w'" and "ledger K w"
  shows "ledger K w'"
  using assms(1)
proof cases
  case (environment clock wall faults)
  with assms(2) show ?thesis by (simp add: ledger_def accounted_def)
qed (rule AddCluster_ledger(1) [OF _ assms(2)], assumption+
  | rule preservesD [of "ledger K" _ w, OF _ assms(2), rotated], assumption, rule ledger_kept ReserveCompute_ledger ReleaseCompute_ledger)+

lemma any_registry: "ai_run fit w \<Longrightarrow> ledger {} w"
proof (induction rule: ai_run.induct)
  case (start rt)
  then show ?case by (simp add: ledger_def NewAIRegistry_def ai.defs runtime.defs reservations_ok_def typed_clusters_def)
qed (rule ai_step_ledger)

lemma ai_steps_ledger: "ai_step\<^sup>*\<^sup>* w w' \<Longrightarrow> ledger K w \<Longrightarrow> ledger K w'"
  by (induction rule: rtranclp_induct) (auto intro: ai_step_ledger)

section \<open>Samples\<close>

definition sample_rt :: runtime where
  "sample_rt = \<lparr>rt_clock = (\<lambda>n. 100), rt_wall = (\<lambda>n. 100), rt_ticks = 0, rt_uuid = show_nat, rt_ids = 0, rt_faults = []\<rparr>"

definition sample_cluster :: ComputeCluster where
  "sample_cluster = \<lparr>clu_ID = ''c1'', clu_Region = ''nanning'', clu_TotalPetaops = 10, clu_Allocated = 0, clu_Version = 0\<rparr>"

definition sample_application :: EnterpriseApplication where
  "sample_application = \<lparr>app_ID = ''a1'', app_TenantID = ''t1'', app_ApplicantID = ''u1'', app_CompanyName = ''co'', app_Industry = '''',
     app_ASEANCountry = ''vn'', app_Status = ApplicationPending, app_Materials = [''m''], app_RequestedPetaops = 10, app_RouteID = '''',
     app_ServiceOfferID = '''', app_RuleVersion = 1, app_Attempt = 0, app_Deadline = 0, app_CreatedAt = 0, app_UpdatedAt = 0,
     app_Version = 0\<rparr>"

definition sample_registry :: ai where
  \<comment> \<open>the sample cluster and the sample application have been added\<close>
  "sample_registry = (NewAIRegistry sample_rt)\<lparr>ai_clusters := [''c1'' \<mapsto> sample_cluster],
     ai_applications := [''a1'' \<mapsto> submitted 100 sample_application], ai_events := [submitted_event 100 sample_application],
     rt_ticks := 1\<rparr>"

lemma new_registry [simp]:
  "ai_applications (NewAIRegistry rt) = Map.empty" "ai_clusters (NewAIRegistry rt) = Map.empty"
  "ai_reservations (NewAIRegistry rt) = Map.empty" "ai_routes (NewAIRegistry rt) = Map.empty"
  "ai_offers (NewAIRegistry rt) = Map.empty" "ai_scenes (NewAIRegistry rt) = Map.empty"
  "ai_communities (NewAIRegistry rt) = Map.empty" "ai_events (NewAIRegistry rt) = []"
  "rt_faults (NewAIRegistry rt) = rt_faults rt" "rt_clock (NewAIRegistry rt) = rt_clock rt" "rt_ticks (NewAIRegistry rt) = rt_ticks rt"
  by (simp_all add: NewAIRegistry_def ai.defs runtime.defs)

lemma quiet_external: "rt_faults w = [] \<Longrightarrow> bindM external k w = k () w"
  by (simp add: bindM_def external_def)

lemma run_now: "\<not> IsZero (rt_clock w (rt_ticks w)) \<Longrightarrow>
    bindM service_now k w = k (rt_clock w (rt_ticks w)) (w\<lparr>rt_ticks := Suc (rt_ticks w)\<rparr>)"
  by (simp add: service_now_def bindM_def Now_def retM_def)

lemma AddCluster_sample: "AddCluster sample_cluster (NewAIRegistry sample_rt)
    = (Inr (), (NewAIRegistry sample_rt)\<lparr>ai_clusters := [''c1'' \<mapsto> sample_cluster]\<rparr>)"
  by (simp add: AddCluster_def quiet_external sample_rt_def modM_def) (simp add: sample_cluster_def)

lemma validate_sample: "validateApplicationInput sample_application = None"
  by code_simp

lemma SubmitApplication_sample:
  "SubmitApplication sample_application ((NewAIRegistry sample_rt)\<lparr>ai_clusters := [''c1'' \<mapsto> sample_cluster]\<rparr>)
    = (Inr (submitted 100 sample_application), sample_registry)"
  by (simp add: SubmitApplication_def quiet_external validate_sample run_now set_application_def retM_def sample_registry_def
        submitted_def Let_def sample_rt_def IsZero_def)
     (simp add: sample_application_def submitted_event_def)

lemma sample_steps:
  "ai_step (NewAIRegistry sample_rt) ((NewAIRegistry sample_rt)\<lparr>ai_clusters := [''c1'' \<mapsto> sample_cluster]\<rparr>)"
  "ai_step ((NewAIRegistry sample_rt)\<lparr>ai_clusters := [''c1'' \<mapsto> sample_cluster]\<rparr>) sample_registry"
  using ai_step.add_cluster [OF AddCluster_sample] ai_step.submit [OF SubmitApplication_sample]
  by (simp_all add: sample_cluster_def int64_def)

lemma sample_registry_reachable: "ai_reachable sample_registry"
proof (rule ai_run.step [OF _ sample_steps(2)])
  show "ai_reachable ((NewAIRegistry sample_rt)\<lparr>ai_clusters := [''c1'' \<mapsto> sample_cluster]\<rparr>)"
    by (rule ai_run.step [OF ai_run.start sample_steps(1)]) (simp add: unused_added_def sample_cluster_def)
qed (simp add: unused_added_def sample_registry_def)

lemma ai_run_mono: "ai_run fit w \<Longrightarrow> (\<And>v v'. fit v v' \<Longrightarrow> fit' v v') \<Longrightarrow> ai_run fit' w"
  by (induction rule: ai_run.induct) (auto intro: ai_run.intros)

lemma ReserveCompute_sample: "\<exists>res w'. ReserveCompute ''a1'' ''c1'' 10 sample_registry = (Inr res, w') \<and> rt_faults w' = []
    \<and> rt_clock w' = (\<lambda>n. 100) \<and> ai_applications w' ''a1'' = Some ((submitted 100 sample_application)\<lparr>app_Version := 1\<rparr>)"
proof -
  have av: "computeAvailable sample_cluster 10" by code_simp
  show ?thesis
    by (simp add: ReserveCompute_def quiet_external run_now sample_registry_def sample_rt_def IsZero_def Let_def retM_def av)
       (simp add: submitted_def sample_application_def wrap64_def)
qed

section \<open>Properties\<close>

text \<open>
  C32: Compute is conserved. Take any registry that the operations can reach from an empty one, and
  add a cluster to it. In every later state, however the operations fail or are repeated, the cluster is
  there with its total, its allocation is the one with which it was added plus the reservations on
  it that have not been released, and it exceeds the total only if it did so when the cluster
  was added, which \<open>AddCluster\<close> does not check.
\<close>

theorem compute_is_conserved:
  assumes "ai_run (\<lambda>v v'. True) w" and "AddCluster c w = (Inr u, w1)" and "ai_step\<^sup>*\<^sup>* w1 w'"
    and "int64 (clu_TotalPetaops c)" "int64 (clu_Allocated c)"
  shows "\<exists>c'. Cluster (clu_ID c) w' = Some c' \<and> clu_TotalPetaops c' = clu_TotalPetaops c
     \<and> clu_Allocated c' = clu_Allocated c + live_load (clu_ID c) (ai_reservations w')
     \<and> clu_Allocated c \<le> clu_Allocated c' \<and> clu_Allocated c' \<le> max (clu_Allocated c) (clu_TotalPetaops c)"
proof -
  have "ledger {(clu_ID c, clu_Allocated c, clu_TotalPetaops c)} w1"
    by (rule AddCluster_ledger(2) [OF assms(2) any_registry [OF assms(1)] assms(4,5) refl])
  with assms(3) have l: "ledger {(clu_ID c, clu_Allocated c, clu_TotalPetaops c)} w'" by (rule ai_steps_ledger)
  then have "0 \<le> live_load (clu_ID c) (ai_reservations w')" using live_load_nonneg by (auto simp: ledger_def)
  with l show ?thesis by (auto simp: ledger_def accounted_def Cluster_def)
qed

theorem compute_is_conserved_witness:
  "\<exists>w' c'. ai_step\<^sup>*\<^sup>* ((NewAIRegistry sample_rt)\<lparr>ai_clusters := [''c1'' \<mapsto> sample_cluster]\<rparr>) w' \<and> Cluster ''c1'' w' = Some c'
     \<and> clu_Allocated c' = 10 \<and> live_load ''c1'' (ai_reservations w') = 10"
proof -
  obtain res w where r: "ReserveCompute ''a1'' ''c1'' 10 sample_registry = (Inr res, w)"
    using ReserveCompute_sample by blast
  have steps: "ai_step\<^sup>*\<^sup>* ((NewAIRegistry sample_rt)\<lparr>ai_clusters := [''c1'' \<mapsto> sample_cluster]\<rparr>) w"
    using sample_steps(2) ai_step.reserve [OF r] by (auto intro: rtranclp.intros)
  from outcomeD(2) [OF ReserveCompute_outcome r] obtain c where c: "Cluster ''c1'' w = Some c" "clu_Allocated c = 10"
    by (auto simp: quiet_fields reserves_def Cluster_def sample_registry_def sample_cluster_def wrap64_def)
  from compute_is_conserved [OF ai_run.start AddCluster_sample steps] c steps show ?thesis
    by (auto simp: sample_cluster_def int64_def)
qed

text \<open>
  No capacity is exceeded and approvals are accounted for. In every reachable state a route
  carries at most its capacity, an offer is used at most as often as it allows, a community has
  no member twice and no more members than places, every scene belongs to an application of the
  same tenant, and an approved application has a reservation on record and exactly one event of
  its approval, while a pending one has none.
\<close>

theorem registry_limits:
  assumes "ai_reachable w"
  shows "(ai_routes w k = Some route \<longrightarrow> 0 \<le> rou_AllocatedMbps route \<and> rou_AllocatedMbps route \<le> rou_CapacityMbps route)
    \<and> (ai_offers w k = Some offer \<longrightarrow> off_Used offer \<le> off_Capacity offer)
    \<and> (Community k w = Some com \<longrightarrow> distinct (com_MemberIDs com) \<and> int (length (com_MemberIDs com)) \<le> com_Capacity com)
    \<and> (Scene k w = Some s \<longrightarrow> (\<exists>a. Application (sce_ApplicationID s) w = Some a \<and> app_TenantID a = sce_TenantID s))
    \<and> (Application k w = Some a \<longrightarrow> length (events_of ''application.approved'' k (Events w)) =
          (if app_Status a = ApplicationApproved then 1 else 0)
        \<and> (app_Status a = ApplicationApproved \<longrightarrow> Reservation k w \<noteq> None))"
proof -
  have ok: "ai_sound w" using assms by (rule reachable_registry)
  have "routes_ok (ai_routes w)" "offers_ok (ai_offers w)" "communities_ok (ai_communities w)"
    "scenes_ok (ai_scenes w) (tenant_in (ai_applications w))" "events_ok (ai_events w) (status_in (ai_applications w))"
    "apps_ok (ai_applications w) (ai_reservations w)"
    using ok by (simp_all add: ai_sound_def)
  then show ?thesis
    by (auto simp: routes_ok_def offers_ok_def communities_ok_def scenes_ok_def tenant_in_def events_ok_def status_in_def
        apps_ok_def Community_def Scene_def Application_def Reservation_def Events_def)
qed

theorem registry_limits_witness:
  "\<exists>w. ai_reachable w \<and> Application ''a1'' w \<noteq> None \<and> events_of ''application.approved'' ''a1'' (Events w) = []"
proof -
  have "Application ''a1'' sample_registry = Some (submitted 100 sample_application)"
    by (simp add: Application_def sample_registry_def)
  with registry_limits [OF sample_registry_reachable, of "''a1''"]
  have "length (events_of ''application.approved'' ''a1'' (Events sample_registry)) = 0"
    by (simp add: submitted_def)
  with sample_registry_reachable show ?thesis
    by (intro exI [of _ sample_registry]) (simp add: Application_def sample_registry_def)
qed

text \<open>
  Releasing undoes reserving. If an application without a live reservation reserves compute
  in a reachable state and the reservation is then released, every cluster is allocated as
  much as before, and the reservation stays on record as released.
\<close>

theorem release_restores:
  assumes reach: "ai_reachable w" and free: "\<And>old. Reservation a w = Some old \<Longrightarrow> res_ReleasedAt old \<noteq> None"
    and reserve: "ReserveCompute a c p w = (Inr res, w1)" and release: "ReleaseCompute a w1 = (Inr u, w2)"
  shows "map_option clu_Allocated (Cluster k w2) = map_option clu_Allocated (Cluster k w)
    \<and> (\<exists>t. Reservation a w2 = Some (res\<lparr>res_ReleasedAt := Some t\<rparr>))"
proof -
  have ok: "ai_sound w" using reach by (rule reachable_registry)
  obtain v application cluster now where v: "quiet w v" and clu: "ai_clusters v c = Some cluster"
    and av: "computeAvailable cluster p" and new: "reserves application cluster a c p now v res w1"
    using outcomeD(2) [OF ReserveCompute_outcome reserve] free by (auto simp: Reservation_def quiet_fields)
  have C: "clusters_ok (ai_clusters v) (ai_reservations v)" and R: "reservations_ok (ai_reservations v) (dom (ai_applications v)) (dom (ai_clusters v))"
    using ok v by (simp_all add: ai_sound_def quiet_fields)
  have c: "cluster_ok (ai_reservations v) c cluster" using C clu by (rule clusters_okD)
  with live_load_nonneg [OF R, of c] available [OF av]
  have fits: "0 < p" "wrap64 (clu_Allocated cluster + p) = clu_Allocated cluster + p" and id1: "clu_ID cluster = c"
    and range1: "int64 (clu_Allocated cluster)"
    by (auto simp: cluster_ok_def int64_def)
  obtain v1 cl now1 where v1: "quiet w1 v1" and cl: "ai_clusters w1 c = Some cl"
    and w2: "w2 = v1\<lparr>ai_clusters := (ai_clusters w1)(clu_ID cl \<mapsto> cl\<lparr>clu_Allocated := wrap64 (clu_Allocated cl - p),
          clu_Version := wrap64 (clu_Version cl + 1)\<rparr>), ai_reservations := (ai_reservations w1)(a \<mapsto> res\<lparr>res_ReleasedAt := Some now1\<rparr>)\<rparr>"
    using outcomeD(2) [OF ReleaseCompute_outcome release] new by (auto simp: quiet_fields reserves_def)
  have "cl = cluster\<lparr>clu_Allocated := clu_Allocated cluster + p, clu_Version := wrap64 (clu_Version cluster + 1)\<rparr>"
    using cl new fits by (simp add: reserves_def)
  then have "map_option clu_Allocated (ai_clusters w2 k) = map_option clu_Allocated (ai_clusters v k)"
    using new fits clu id1 range1 by (simp add: w2 reserves_def wrap64_id)
  then show ?thesis using v by (auto simp: Cluster_def Reservation_def quiet_fields w2)
qed


lemma ReleaseCompute_runs:
  assumes "rt_faults w = []" "\<not> IsZero (rt_clock w (rt_ticks w))" "ai_sound w" "ai_reservations w a = Some res"
    "res_ReleasedAt res = None"
  shows "\<exists>w'. ReleaseCompute a w = (Inr (), w') \<and> rt_faults w' = [] \<and> rt_clock w' = rt_clock w
    \<and> ai_applications w' = ai_applications w"
proof -
  have C: "clusters_ok (ai_clusters w) (ai_reservations w)"
    and R: "reservations_ok (ai_reservations w) (dom (ai_applications w)) (dom (ai_clusters w))"
    using assms(3) by (simp_all add: ai_sound_def)
  from R assms(4) obtain cl where cl: "ai_clusters w (res_ClusterID res) = Some cl" by (auto simp: reservations_ok_def)
  have nonneg: "0 \<le> load_of k (ai_reservations w b)" for k b
  proof (cases "ai_reservations w b")
    case (Some r)
    with R have "0 < res_Petaops r" by (simp add: reservations_ok_def)
    with Some show ?thesis by (simp add: load_of_def)
  qed simp
  have "load_of (res_ClusterID res) (ai_reservations w a) \<le> live_load (res_ClusterID res) (ai_reservations w)"
    unfolding live_load_def
    by (rule member_le_sum) (use R assms(4) nonneg in \<open>auto simp: reservations_ok_def\<close>)
  then have "res_Petaops res \<le> clu_Allocated cl"
    using clusters_okD [OF C cl] assms(4,5) by (simp add: cluster_ok_def load_of_def)
  with assms(1,2,4,5) cl show ?thesis
    by (simp add: ReleaseCompute_def quiet_external run_now modM_def Let_def)
qed

lemma sample_released:
  "\<exists>res w1 w2. ReserveCompute ''a1'' ''c1'' 10 sample_registry = (Inr res, w1) \<and> ReleaseCompute ''a1'' w1 = (Inr (), w2)
     \<and> rt_faults w2 = [] \<and> rt_clock w2 = (\<lambda>n. 100) \<and> ai_reachable w2
     \<and> Application ''a1'' w2 = Some ((submitted 100 sample_application)\<lparr>app_Version := 1\<rparr>)"
proof -
  obtain res w1 where r: "ReserveCompute ''a1'' ''c1'' 10 sample_registry = (Inr res, w1)"
    and w1: "rt_faults w1 = []" "rt_clock w1 = (\<lambda>n. 100)" "ai_applications w1 ''a1'' = Some ((submitted 100 sample_application)\<lparr>app_Version := 1\<rparr>)"
    using ReserveCompute_sample by blast
  have reach: "ai_reachable w1" using sample_registry_reachable ai_step.reserve [OF r] compute_adds_nothing(1) [OF r] by (rule ai_run.step)
  have "ai_reservations w1 ''a1'' = Some res" "res_ReleasedAt res = None"
    using outcomeD(2) [OF ReserveCompute_outcome r] by (auto simp: reserves_def)
  with ReleaseCompute_runs [of w1 "''a1''" res] w1(1,2) reachable_registry [OF reach]
  obtain w2 where rel: "ReleaseCompute ''a1'' w1 = (Inr (), w2)" "rt_faults w2 = []" "rt_clock w2 = rt_clock w1"
    "ai_applications w2 = ai_applications w1"
    by (auto simp: IsZero_def)
  have "typed_clusters (ai_clusters w1)" using any_registry [OF reach] by (simp add: ledger_def)
  with reach ai_step.release [OF rel(1)] compute_adds_nothing(2) [OF rel(1)] have "ai_reachable w2" by (blast intro: ai_run.step)
  with r rel w1 show ?thesis by (auto simp: Application_def)
qed

theorem release_restores_witness:
  "\<exists>w. ai_reachable w \<and> map_option clu_Allocated (Cluster ''c1'' w) = Some 0 \<and> Reservation ''a1'' w \<noteq> None"
proof -
  obtain res w1 w2 where r: "ReserveCompute ''a1'' ''c1'' 10 sample_registry = (Inr res, w1)"
    "ReleaseCompute ''a1'' w1 = (Inr (), w2)" "ai_reachable w2"
    using sample_released by blast
  have "\<And>old. Reservation ''a1'' sample_registry = Some old \<Longrightarrow> res_ReleasedAt old \<noteq> None"
    by (simp add: Reservation_def sample_registry_def)
  from release_restores [OF sample_registry_reachable this r(1,2), of "''c1''"] r(3) show ?thesis
    by (auto simp: Cluster_def sample_registry_def sample_cluster_def)
qed

text \<open>
  Approval looks only at whether a reservation was ever made. A pending application whose
  reservation has been released is approved all the same, and no cluster is allocated to it.
\<close>

theorem released_is_approved:
  assumes "ai_reachable w" "rt_faults w = []" "\<not> IsZero (rt_clock w (rt_ticks w))"
    and a: "Application k w = Some a" "app_Status a = ApplicationPending" "app_RouteID a = ''''" and actor: "actor \<noteq> ''''"
    and res: "Reservation k w = Some res" "res_ReleasedAt res \<noteq> None"
  shows "\<exists>b w'. ApproveApplication k actor w = (Inr b, w') \<and> app_Status b = ApplicationApproved
    \<and> Reservation k w' = Some res \<and> (\<forall>c. Cluster c w' = Cluster c w)"
  using assms
  by (simp add: ApproveApplication_def quiet_external run_now retM_def Application_def Reservation_def Cluster_def
      set_application_def Let_def)

theorem released_is_approved_witness:
  "\<exists>(w :: ai) b w'. ApproveApplication ''a1'' ''boss'' w = (Inr b, w') \<and> app_Status b = ApplicationApproved
     \<and> map_option res_ReleasedAt (Reservation ''a1'' w') \<noteq> Some None"
proof -
  obtain res w1 w2 where r: "ReserveCompute ''a1'' ''c1'' 10 sample_registry = (Inr res, w1)"
    "ReleaseCompute ''a1'' w1 = (Inr (), w2)" "rt_faults w2 = []" "rt_clock w2 = (\<lambda>n. 100)" "ai_reachable w2"
    and a: "Application ''a1'' w2 = Some ((submitted 100 sample_application)\<lparr>app_Version := 1\<rparr>)"
    using sample_released by blast
  have "ai_reservations w1 ''a1'' = Some res" "res_ReleasedAt res = None"
    using outcomeD(2) [OF ReserveCompute_outcome r(1)] by (auto simp: reserves_def)
  with outcomeD(2) [OF ReleaseCompute_outcome r(2)] obtain t where
    "Reservation ''a1'' w2 = Some (res\<lparr>res_ReleasedAt := Some t\<rparr>)"
    by (auto simp: quiet_fields Reservation_def)
  then have "\<exists>b w'. ApproveApplication ''a1'' ''boss'' w2 = (Inr b, w') \<and> app_Status b = ApplicationApproved
      \<and> Reservation ''a1'' w' = Some (res\<lparr>res_ReleasedAt := Some t\<rparr>) \<and> (\<forall>c. Cluster c w' = Cluster c w2)"
    by (intro released_is_approved [OF r(5,3) _ a]) (simp_all add: r(4) IsZero_def submitted_def sample_application_def)
  then obtain b w' where "ApproveApplication ''a1'' ''boss'' w2 = (Inr b, w')" "app_Status b = ApplicationApproved"
    "map_option res_ReleasedAt (Reservation ''a1'' w') \<noteq> Some None" by auto
  then show ?thesis by blast
qed

text \<open>
  No operation returns, activates, closes or cancels an application. In every reachable
  state an application is pending or approved, so resubmitting and closing one always fail.
\<close>

theorem never_closed:
  assumes "ai_reachable w"
  shows "(Application k w = Some a \<longrightarrow> app_Status a = ApplicationPending \<or> app_Status a = ApplicationApproved)
    \<and> (\<exists>e. fst (CloseApplication k w) = Inl e) \<and> (\<exists>e. fst (ResubmitApplication k materials w) = Inl e)"
proof -
  have ok: "ai_sound w" using assms by (rule reachable_registry)
  have "\<exists>e. fst (CloseApplication k w) = Inl e"
  proof (cases "CloseApplication k w")
    case (Pair r w')
    with outcomeD(2) [OF CloseApplication_outcome, of k w _ w'] ok show ?thesis
      by (cases r) (force simp: quiet_fields dest: stored_status)+
  qed
  moreover have "\<exists>e. fst (ResubmitApplication k materials w) = Inl e"
  proof (cases "ResubmitApplication k materials w")
    case (Pair r w')
    with outcomeD(2) [OF ResubmitApplication_outcome, of k materials w _ w'] ok show ?thesis
      by (cases r) (force simp: quiet_fields dest: stored_status)+
  qed
  ultimately show ?thesis using stored_status [OF ok] by (auto simp: Application_def)
qed

theorem never_closed_witness: "\<exists>e. fst (CloseApplication ''a1'' sample_registry) = Inl e"
  using never_closed [OF sample_registry_reachable] by blast

text \<open>The transition table of the policy is nevertheless a proper status machine.\<close>

interpretation application_status: status_machine validApplicationTransition
  "\<lambda>s. s = ApplicationClosed \<or> s = ApplicationCancelled" "\<lambda>s. \<forall>x. s \<noteq> ApplicationOther x"
proof
  fix s t
  show "s = ApplicationClosed \<or> s = ApplicationCancelled \<Longrightarrow> \<not> validApplicationTransition s t" by auto
  show "validApplicationTransition s t \<Longrightarrow> (\<forall>x. s \<noteq> ApplicationOther x) \<and> (\<forall>x. t \<noteq> ApplicationOther x)"
    by (cases s) auto
  assume "\<forall>x. s \<noteq> ApplicationOther x" "\<not> (s = ApplicationClosed \<or> s = ApplicationCancelled)"
  then show "\<exists>t. validApplicationTransition s t \<and> (t = ApplicationClosed \<or> t = ApplicationCancelled)"
    by (cases s) auto
qed

lemma application_can_end:
  "validApplicationTransition\<^sup>*\<^sup>* ApplicationPending s \<Longrightarrow> \<exists>t. validApplicationTransition\<^sup>*\<^sup>* s t
     \<and> (t = ApplicationClosed \<or> t = ApplicationCancelled)"
  by (rule application_status.path_can_end) auto

section \<open>Listing\<close>

lemma map_filter_keys:
  "distinct order \<Longrightarrow> set order = dom apps \<Longrightarrow>
     length (filter P (List.map_filter apps order)) = card {k. \<exists>a. apps k = Some a \<and> P a}"
proof -
  assume d: "distinct order" "set order = dom apps"
  have "length (filter P (List.map_filter apps order)) = length (filter (\<lambda>k. \<exists>a. apps k = Some a \<and> P a) order)"
    by (induction order) (auto simp: List.map_filter_simps split: option.splits)
  also have "\<dots> = card {k. k \<in> set order \<and> (\<exists>a. apps k = Some a \<and> P a)}"
    using d(1) distinct_card [of "filter (\<lambda>k. \<exists>a. apps k = Some a \<and> P a) order"] by simp
  also have "{k. k \<in> set order \<and> (\<exists>a. apps k = Some a \<and> P a)} = {k. \<exists>a. apps k = Some a \<and> P a}"
    using d(2) by auto
  finally show ?thesis .
qed

text \<open>
  A page of the listing. Whatever the order in which the runtime ranges over the map, the
  total is the number of applications that match; a page holds matching applications only, no
  more than its limit, and exactly as many as the limit allows of those behind the offset. Pages
  that are read in the same order follow one another without gap or overlap.
\<close>

theorem ListApplications_page:
  assumes "rt_faults w = []" and "distinct order" "set order = dom (ai_applications w)"
    and "0 \<le> aq_Offset q" "0 < aq_Limit q" "aq_Limit q \<le> 100" "aq_Offset q < 2 ^ 62" "int (length order) < 2 ^ 62"
  shows "\<exists>x. ListApplications order q w = (Inr x, w)
     \<and> ar_Total x = int (card {k. \<exists>a. ai_applications w k = Some a \<and> query_matches q a})
     \<and> int (length (ar_Applications x)) = min (aq_Limit q) (max 0 (ar_Total x - aq_Offset q))
     \<and> (\<forall>a \<in> set (ar_Applications x). query_matches q a \<and> (\<exists>k. ai_applications w k = Some a))
     \<and> ar_Applications x = take (nat (aq_Limit q)) (drop (nat (aq_Offset q))
          (filter (query_matches q) (List.map_filter (ai_applications w) order)))"
proof -
  define items where "items = filter (query_matches q) (List.map_filter (ai_applications w) order)"
  have total: "int (length items) = int (card {k. \<exists>a. ai_applications w k = Some a \<and> query_matches q a})"
    using map_filter_keys [OF assms(2,3)] by (simp add: items_def)
  have sum: "wrap64 (aq_Offset q + aq_Limit q) = aq_Offset q + aq_Limit q"
    using assms(4-7) by (intro wrap64_id) (simp add: int64_def)
  have "length items \<le> length (List.map_filter (ai_applications w) order)" by (simp add: items_def)
  define page where "page = take (nat (aq_Limit q)) (drop (nat (aq_Offset q)) items)"
  have "ListApplications order q w = (Inr \<lparr>ar_Applications = page, ar_Total = int (length items)\<rparr>, w)"
  proof (cases "aq_Offset q \<ge> int (length items)")
    case True
    then have "drop (nat (aq_Offset q)) items = []" by simp
    with True assms show ?thesis
      by (simp add: ListApplications_def quiet_external items_def [symmetric] page_def retM_def)
  next
    case False
    have "\<not> aq_Offset q + aq_Limit q < int (length items) \<longrightarrow> drop (nat (aq_Offset q)) items = page"
      using False assms(4,5) by (auto simp: page_def)
    with False assms show ?thesis
      by (simp add: ListApplications_def quiet_external items_def [symmetric] sum retM_def Let_def page_def)
  qed
  moreover have "int (length page) = min (aq_Limit q) (max 0 (int (length items) - aq_Offset q))"
    using assms(4,5) by (auto simp: page_def)
  moreover have "set page \<subseteq> set items" by (auto simp: page_def dest!: in_set_takeD in_set_dropD)
  moreover have "set (List.map_filter (ai_applications w) order) \<subseteq> ran (ai_applications w)"
    by (auto simp: List.map_filter_def ran_def)
  then have "set items \<subseteq> {a. query_matches q a \<and> (\<exists>k. ai_applications w k = Some a)}"
    by (auto simp: items_def ran_def)
  ultimately show ?thesis using total
    by (intro exI [of _ "\<lparr>ar_Applications = page, ar_Total = int (length items)\<rparr>"] conjI)
       (auto simp: page_def items_def [symmetric])
qed

theorem ListApplications_page_witness:
  "\<exists>x. ListApplications [''a1''] \<lparr>aq_TenantID = ''t1'', aq_Status = ApplicationPending, aq_Country = '''', aq_Offset = 0,
     aq_Limit = 5\<rparr> sample_registry = (Inr x, sample_registry) \<and> ar_Total x = 1"
proof -
  let ?q = "\<lparr>aq_TenantID = ''t1'', aq_Status = ApplicationPending, aq_Country = '''', aq_Offset = 0, aq_Limit = 5\<rparr>"
  have only: "{k. \<exists>a. ai_applications sample_registry k = Some a \<and> query_matches ?q a} = {''a1''}"
    by (auto simp: sample_registry_def query_matches_def submitted_def sample_application_def)
  have "rt_faults sample_registry = []" "dom (ai_applications sample_registry) = {''a1''}"
    by (simp_all add: sample_registry_def sample_rt_def)
  with ListApplications_page [of sample_registry "[''a1'']" ?q] only show ?thesis by auto
qed

end
