(* ===== verification/Go_Float.thy ===== *)
theory Go_Float
  imports Hub_Prelude
begin

text \<open>
  What the program does with Go's \<open>float64\<close>: it compares, it multiplies by eight, and it prints
  with one digit behind the point. A finite value is a sign, a mantissa and an exponent, with
  the value \<open>mantissa * 2 ^ exponent\<close>; every \<open>float64\<close> is of this form. Comparisons with NaN are
  false. Multiplication by a power of two is exact unless it overflows.
\<close>

datatype float64 = NaN | Inf bool | Finite bool nat int

definition scaled :: "bool \<Rightarrow> nat \<Rightarrow> int \<Rightarrow> int \<Rightarrow> int" where
  \<comment> \<open>the value in units of \<open>2 ^ k\<close>, for \<open>k\<close> at most the exponent\<close>
  "scaled neg m e k = (if neg then - 1 else 1) * (int m * 2 ^ nat (e - k))"

fun flt_less :: "float64 \<Rightarrow> float64 \<Rightarrow> bool" where
  "flt_less NaN y \<longleftrightarrow> False"
| "flt_less (Inf neg) y \<longleftrightarrow> neg \<and> y \<noteq> NaN \<and> y \<noteq> Inf True"
| "flt_less (Finite n m e) NaN \<longleftrightarrow> False"
| "flt_less (Finite n m e) (Inf neg) \<longleftrightarrow> \<not> neg"
| "flt_less (Finite n m e) (Finite n' m' e') \<longleftrightarrow> (let k = min e e' in scaled n m e k < scaled n' m' e' k)"

definition flt_zero :: float64 where
  "flt_zero = Finite False 0 0"

definition flt_le_zero :: "float64 \<Rightarrow> bool" where
  \<comment> \<open>\<open>x <= 0\<close>\<close>
  "flt_le_zero x = (case x of NaN \<Rightarrow> False | Inf neg \<Rightarrow> neg | Finite neg m e \<Rightarrow> neg \<or> m = 0)"

fun flt_times8 :: "float64 \<Rightarrow> float64" where
  "flt_times8 NaN = NaN"
| "flt_times8 (Inf neg) = Inf neg"
| "flt_times8 (Finite neg m e) =
     (if scaled False m (e + 3) (min (e + 3) 0) \<ge> 2 ^ nat (1024 - min (e + 3) 0) then Inf neg else Finite neg m (e + 3))"

definition tenths :: "nat \<Rightarrow> int \<Rightarrow> nat" where
  \<comment> \<open>\<open>m * 2 ^ e\<close> in tenths, rounded to the nearest, ties to even\<close>
  "tenths m e =
     (if e \<ge> 0 then 10 * m * 2 ^ nat e
      else let d = 2 ^ nat (- e); q = 10 * m div d; r = 10 * m mod d in
        if 2 * r < d \<or> (2 * r = d \<and> even q) then q else q + 1)"

definition format1 :: "float64 \<Rightarrow> string" where
  \<comment> \<open>the verb \<open>%.1f\<close> of fmt\<close>
  "format1 x = (case x of NaN \<Rightarrow> ''NaN'' | Inf neg \<Rightarrow> (if neg then ''-Inf'' else ''+Inf'')
    | Finite neg m e \<Rightarrow> (if neg then ''-'' else '''') @ show_nat (tenths m e div 10) @ ''.'' @ [digit (tenths m e mod 10)])"

lemma format1_sample:
  "format1 (Finite True 1 (- 2)) = ''-0.2'' \<and> format1 (Finite False 45 (- 1)) = ''22.5'' \<and> format1 (Finite False 3 (- 2)) = ''0.8''"
  by code_simp

end
