(* ===== verification/Hub_Policy.thy ===== *)
theory Hub_Policy
  imports Go_Runtime Go_Strings Go_Float
begin

text \<open>
  The brand side of the package internal/hub without its state: the records of models.go and
  the rules of license_policy.go, quality_policy.go, supply_policy.go and campaign_policy.go,
  each a function that returns its first objection, in the order in which the code looks.
  Strings are lists of bytes; the Chinese names are written in UTF-8.
\<close>

section \<open>Data\<close>

datatype LicenseStatus = LicensePending | LicenseActive | LicenseSuspended | LicenseExpired | LicenseOther string

record BrandLicense =
  lic_ID :: string
  lic_StoreID :: string
  lic_OwnerID :: string
  lic_RegionCodes :: "string list"
  lic_LogoVersion :: int
  lic_StandardVersion :: int
  lic_Status :: LicenseStatus
  lic_EffectiveFrom :: time
  lic_EffectiveTo :: time
  lic_LastInspectionID :: string
  lic_LastInspectionPass :: bool
  lic_OutstandingActions :: int
  lic_Version :: int

record OperatorCertificate =
  oc_OperatorID :: string
  oc_CourseCode :: string
  oc_IssuedAt :: time
  oc_ExpiresAt :: time

record StoreProfile =
  sto_ID :: string
  sto_OwnerID :: string
  sto_CityCode :: string
  sto_DiningEnabled :: bool
  sto_SpecialtyRetailEnabled :: bool
  sto_CultureDisplayEnabled :: bool
  sto_ApprovedLogoVersion :: int
  sto_DisplayedLogoVersion :: int
  sto_MenuBrandName :: string
  sto_Operators :: "OperatorCertificate list"
  sto_UpdatedAt :: time

record IngredientLot =
  lot_ID :: string
  lot_SupplierID :: string
  lot_IngredientCode :: string
  lot_OriginRegion :: string
  lot_CertificateID :: string
  lot_ProducedAt :: time
  lot_ExpiresAt :: time
  lot_MinTemperature :: float64
  lot_MaxTemperature :: float64
  lot_Temperatures :: "float64 list"
  lot_ParentLotIDs :: "string list"

record SupplierCertificate =
  cert_ID :: string
  cert_SupplierID :: string
  cert_Scope :: "string list"
  cert_EffectiveAt :: time
  cert_ExpiresAt :: time
  cert_RevokedAt :: "time option"
  cert_DocumentHash :: string

record BrothBatch =
  broth_ID :: string
  broth_StoreID :: string
  broth_BoneLotIDs :: "string list"
  broth_WaterLiters :: float64
  broth_BoneKilograms :: float64
  broth_StartedAt :: time
  broth_FinishedAt :: time
  broth_StandardVersion :: int

record ChiliOilBatch =
  oil_ID :: string
  oil_StoreID :: string
  oil_ChiliLotID :: string
  oil_Cultivar :: string
  oil_OilLotID :: string
  oil_ProducedAt :: time
  oil_StandardVersion :: int

record InspectionSection =
  sec_Code :: string
  sec_Required :: bool
  sec_Score :: int
  sec_Evidence :: "string list"

record Inspection =
  ins_ID :: string
  ins_StoreID :: string
  ins_InspectorID :: string
  ins_StartedAt :: time
  ins_CompletedAt :: time
  ins_StandardVersion :: int
  ins_Sections :: "InspectionSection list"
  ins_Score :: int
  ins_Passed :: bool
  ins_Version :: int

record ProductListing =
  lst_ID :: string
  lst_StoreID :: string
  lst_SKU :: string
  lst_Name :: string
  lst_IngredientLotIDs :: "string list"
  lst_OriginRegion :: string
  lst_OnlinePriceCents :: int
  lst_StorePriceCents :: int
  lst_Stock :: int
  lst_Reserved :: int
  lst_Published :: bool

record Recall =
  rec_ID :: string
  rec_IngredientLot :: string
  rec_AffectedStores :: "string list"
  rec_Acknowledged :: "string list"
  rec_CreatedAt :: time
  rec_Deadline :: time
  rec_ClosedAt :: "time option"

record CultureCampaign =
  cam_ID :: string
  cam_StoreID :: string
  cam_Title :: string
  cam_ContentVersion :: int
  cam_ApprovedVersion :: int
  cam_StartsAt :: time
  cam_EndsAt :: time
  cam_FeaturedSKUs :: "string list"
  cam_DestinationCodes :: "string list"
  cam_RegionalBrandLogo :: bool

record SubsidyClaim =
  clm_ID :: string
  clm_StoreID :: string
  clm_Period :: string
  clm_EligibleSales :: int
  clm_EvidenceHashes :: "string list"
  clm_SubmittedAt :: time
  clm_Status :: string

record Appeal =
  apl_ID :: string
  apl_InspectionID :: string
  apl_StoreID :: string
  apl_SubmittedAt :: time
  apl_Reason :: string
  apl_Evidence :: "string list"

record CatalogSnapshot =
  cat_StoreID :: string
  cat_Listings :: "ProductListing list"
  cat_GeneratedAt :: time

section \<open>Errors\<close>

definition ErrInvalidLicense :: err where "ErrInvalidLicense = ErrNamed ''invalid brand license''"
definition ErrLicenseNotRenewable :: err where "ErrLicenseNotRenewable = ErrNamed ''brand license is not renewable''"
definition ErrStoreNotCompliant :: err where "ErrStoreNotCompliant = ErrNamed ''store does not satisfy brand requirements''"
definition ErrInvalidIngredient :: err where "ErrInvalidIngredient = ErrNamed ''ingredient lot is not compliant''"
definition ErrInspectionConflict :: err where "ErrInspectionConflict = ErrNamed ''inspection version conflict''"
definition ErrRecallIncomplete :: err where "ErrRecallIncomplete = ErrNamed ''recall acknowledgement is incomplete''"
definition ErrCampaignNotApproved :: err where "ErrCampaignNotApproved = ErrNamed ''campaign content is not approved''"
definition ErrInvalidClaim :: err where "ErrInvalidClaim = ErrNamed ''subsidy claim is invalid''"
definition ErrAppealExpired :: err where "ErrAppealExpired = ErrNamed ''inspection appeal window expired''"

lemmas brand_errors = ErrInvalidLicense_def ErrLicenseNotRenewable_def ErrStoreNotCompliant_def ErrInvalidIngredient_def
  ErrInspectionConflict_def ErrRecallIncomplete_def ErrCampaignNotApproved_def ErrInvalidClaim_def ErrAppealExpired_def

section \<open>First objections\<close>

fun first_error :: "('a \<Rightarrow> err option) \<Rightarrow> 'a list \<Rightarrow> err option" where
  \<comment> \<open>a loop that returns at the first element with an objection\<close>
  "first_error f [] = None"
| "first_error f (x # xs) = (case f x of Some e \<Rightarrow> Some e | None \<Rightarrow> first_error f xs)"

definition and_then :: "err option \<Rightarrow> err option \<Rightarrow> err option" where
  "and_then a b = (case a of Some e \<Rightarrow> Some e | None \<Rightarrow> b)"

lemma first_error_None [simp]: "first_error f xs = None \<longleftrightarrow> (\<forall>x \<in> set xs. f x = None)"
  by (induction xs) (auto split: option.splits)

lemma first_error_Some: "first_error f xs = Some e \<Longrightarrow>
    \<exists>ys x zs. xs = ys @ x # zs \<and> f x = Some e \<and> (\<forall>y \<in> set ys. f y = None)"
proof (induction xs)
  case (Cons x xs)
  show ?case
  proof (cases "f x")
    case None
    with Cons obtain ys y zs where "xs = ys @ y # zs" "f y = Some e" "\<forall>z \<in> set ys. f z = None" by auto
    with None have "x # xs = (x # ys) @ y # zs \<and> f y = Some e \<and> (\<forall>z \<in> set (x # ys). f z = None)" by simp
    then show ?thesis by blast
  next
    case (Some d)
    with Cons.prems have "x # xs = [] @ x # xs \<and> f x = Some e \<and> (\<forall>y \<in> set []. f y = None)" by simp
    then show ?thesis by blast
  qed
qed simp

lemma and_then_None [simp]: "and_then a b = None \<longleftrightarrow> a = None \<and> b = None"
  by (simp add: and_then_def split: option.splits)

section \<open>Licenses\<close>

definition ValidateLicenseAt :: "BrandLicense \<Rightarrow> StoreProfile \<Rightarrow> time \<Rightarrow> err option" where
  "ValidateLicenseAt license store instant =
     (if lic_ID license = '''' \<or> lic_StoreID license \<noteq> sto_ID store \<or> lic_OwnerID license \<noteq> sto_OwnerID store then
        Some (Detail ErrInvalidLicense ''license identity does not match store'')
      else if lic_Status license \<noteq> LicenseActive \<or> Before instant (lic_EffectiveFrom license)
          \<or> \<not> Before instant (lic_EffectiveTo license) then
        Some (Detail ErrInvalidLicense ''license is not active at requested time'')
      else if sto_CityCode store \<notin> set (lic_RegionCodes license) then
        Some (Detail ErrInvalidLicense (''city '' @ sto_CityCode store @ '' is outside licensed regions''))
      else None)"

definition ValidateThreeStoreModel :: "StoreProfile \<Rightarrow> err option" where
  "ValidateThreeStoreModel store =
     (let missing = (if sto_DiningEnabled store then [] else [''noodle dining'']);
          missing = missing @ (if sto_SpecialtyRetailEnabled store then [] else [''specialty retail'']);
          missing = missing @ (if sto_CultureDisplayEnabled store then [] else [''Qinghai culture display''])
      in if length missing > 0 then Some (Detail ErrStoreNotCompliant (''missing '' @ Join_with '', '' missing)) else None)"

definition ValidateLogoVersion :: "BrandLicense \<Rightarrow> StoreProfile \<Rightarrow> err option" where
  "ValidateLogoVersion license store =
     (if lic_LogoVersion license \<le> 0 \<or> sto_ApprovedLogoVersion store \<noteq> lic_LogoVersion license then
        Some (Detail ErrStoreNotCompliant ''approved logo version is inconsistent'')
      else if sto_DisplayedLogoVersion store \<noteq> sto_ApprovedLogoVersion store then
        Some (Detail ErrStoreNotCompliant ''storefront uses an obsolete logo'')
      else None)"

definition qinghai_noodles :: string where
  "qinghai_noodles = [CHR 0xE9, CHR 0x9D, CHR 0x92, CHR 0xE6, CHR 0xB5, CHR 0xB7, CHR 0xE6, CHR 0x8B, CHR 0x89,
     CHR 0xE9, CHR 0x9D, CHR 0xA2]"

definition ValidateMenuBrandName :: "StoreProfile \<Rightarrow> err option" where
  "ValidateMenuBrandName store =
     (let name = Join_with '' '' (Fields (sto_MenuBrandName store)) in
      if name \<noteq> qinghai_noodles then
        Some (Detail ErrStoreNotCompliant (''menu brand name must be '' @ qinghai_noodles))
      else None)"

definition ValidateOperatorTraining :: "StoreProfile \<Rightarrow> string \<Rightarrow> time \<Rightarrow> err option" where
  "ValidateOperatorTraining store course instant =
     (if list_ex (\<lambda>c. oc_CourseCode c = course \<and> \<not> Before instant (oc_IssuedAt c) \<and> Before instant (oc_ExpiresAt c)) (sto_Operators store)
      then None
      else Some (Detail ErrStoreNotCompliant (''no operator holds active '' @ course @ '' training'')))"

definition CanRenewLicense :: "BrandLicense \<Rightarrow> StoreProfile \<Rightarrow> time \<Rightarrow> err option" where
  "CanRenewLicense license store now =
     (if lic_Status license \<noteq> LicenseActive \<or> lic_StoreID license \<noteq> sto_ID store then
        Some (Detail ErrLicenseNotRenewable ''license is not active for this store'')
      else if \<not> lic_LastInspectionPass license \<or> lic_OutstandingActions license \<noteq> 0 then
        Some (Detail ErrLicenseNotRenewable ''inspection or corrective actions are incomplete'')
      else if Before now (Add (lic_EffectiveTo license) (- 90 * 24 * nsHour)) then
        Some (Detail ErrLicenseNotRenewable ''renewal window has not opened'')
      else ValidateThreeStoreModel store)"

definition ValidateLicenseTransfer :: "BrandLicense \<Rightarrow> string \<Rightarrow> string \<Rightarrow> err option" where
  "ValidateLicenseTransfer license currentOwner proposedOwner =
     (if lic_OwnerID license \<noteq> currentOwner \<or> TrimSpace proposedOwner = '''' then
        Some (Detail ErrInvalidLicense ''owner identity is invalid'')
      else if proposedOwner \<noteq> currentOwner then
        Some (Detail ErrInvalidLicense ''regional brand licenses cannot be transferred'')
      else None)"

section \<open>Quality\<close>

type_synonym lots = "string \<rightharpoonup> IngredientLot"

definition ValidateBrothBatch :: "BrothBatch \<Rightarrow> lots \<Rightarrow> err option" where
  "ValidateBrothBatch batch lots =
     (if broth_BoneLotIDs batch = [] \<or> flt_le_zero (broth_WaterLiters batch) \<or> flt_le_zero (broth_BoneKilograms batch) then
        Some (Detail ErrInvalidIngredient ''broth quantities and bone lots are required'')
      else if flt_less (flt_times8 (broth_BoneKilograms batch)) (broth_WaterLiters batch) then
        Some (Detail ErrInvalidIngredient ''bone-to-water ratio is below the quality guide'')
      else first_error (\<lambda>i. case lots i of
           None \<Rightarrow> Some (Detail ErrInvalidIngredient (''broth bone lot '' @ i @ '' is missing or not approved''))
         | Some lot \<Rightarrow> if lot_IngredientCode lot \<in> set [''yak-bone'', ''tibetan-sheep-bone''] then None
             else Some (Detail ErrInvalidIngredient (''broth bone lot '' @ i @ '' is missing or not approved'')))
         (broth_BoneLotIDs batch))"

definition xunhua :: string where
  "xunhua = [CHR 0xE5, CHR 0xBE, CHR 0xAA, CHR 0xE5, CHR 0x8C, CHR 0x96]"

definition xunhua_line_chili :: string where
  "xunhua_line_chili = xunhua @ [CHR 0xE7, CHR 0xBA, CHR 0xBF, CHR 0xE8, CHR 0xBE, CHR 0xA3, CHR 0xE6, CHR 0xA4, CHR 0x92]"

definition ValidateChiliOil :: "ChiliOilBatch \<Rightarrow> IngredientLot \<Rightarrow> IngredientLot \<Rightarrow> err option" where
  \<comment> \<open>\<open>EqualFold\<close> with a text of characters that have no case is equality\<close>
  "ValidateChiliOil batch chili oil =
     (if oil_ChiliLotID batch \<noteq> lot_ID chili \<or> oil_OilLotID batch \<noteq> lot_ID oil then
        Some (Detail ErrInvalidIngredient ''chili oil traceability does not match supplied lots'')
      else if TrimSpace (oil_Cultivar batch) \<noteq> xunhua_line_chili \<or> lot_OriginRegion chili \<noteq> xunhua then
        Some (Detail ErrInvalidIngredient ''chili cultivar or origin is not approved'')
      else if Before (oil_ProducedAt batch) (lot_ProducedAt chili) \<or> \<not> Before (oil_ProducedAt batch) (lot_ExpiresAt chili) then
        Some (Detail ErrInvalidIngredient ''chili lot is not valid at production time'')
      else None)"

definition ValidateSupplierCertificate :: "IngredientLot \<Rightarrow> SupplierCertificate \<Rightarrow> time \<Rightarrow> err option" where
  "ValidateSupplierCertificate lot certificate instant =
     (if lot_SupplierID lot \<noteq> cert_SupplierID certificate \<or> lot_CertificateID lot \<noteq> cert_ID certificate then
        Some (Detail ErrInvalidIngredient ''supplier certificate does not match lot'')
      else if (case cert_RevokedAt certificate of None \<Rightarrow> False | Some revoked \<Rightarrow> \<not> Before instant revoked) then
        Some (Detail ErrInvalidIngredient ''supplier certificate was revoked'')
      else if Before instant (cert_EffectiveAt certificate) \<or> \<not> Before instant (cert_ExpiresAt certificate) then
        Some (Detail ErrInvalidIngredient ''supplier certificate is outside its validity window'')
      else if lot_IngredientCode lot \<notin> set (cert_Scope certificate) then
        Some (Detail ErrInvalidIngredient ''certificate does not cover ingredient'')
      else None)"

definition ValidateColdChain :: "IngredientLot \<Rightarrow> err option" where
  "ValidateColdChain lot =
     (if lot_Temperatures lot = [] \<or> flt_less (lot_MaxTemperature lot) (lot_MinTemperature lot) then
        Some (Detail ErrInvalidIngredient ''cold-chain readings or limits are invalid'')
      else first_error (\<lambda>reading.
          if flt_less reading (lot_MinTemperature lot) \<or> flt_less (lot_MaxTemperature lot) reading then
            Some (Detail ErrInvalidIngredient (''temperature '' @ format1 reading @ '' is outside ''
              @ format1 (lot_MinTemperature lot) @ ''..'' @ format1 (lot_MaxTemperature lot)))
          else None) (lot_Temperatures lot))"

fun inspection_total :: "int \<Rightarrow> InspectionSection list \<Rightarrow> err + int" where
  "inspection_total points [] = Inr points"
| "inspection_total points (section # rest) =
     (if sec_Score section < 0 \<or> sec_Score section > 100 then
        Inl (Detail ErrStoreNotCompliant (''section '' @ sec_Code section @ '' score is invalid''))
      else if sec_Required section \<and> sec_Evidence section = [] then
        Inl (Detail ErrStoreNotCompliant (''required section '' @ sec_Code section @ '' lacks evidence''))
      else inspection_total (wrap64 (points + sec_Score section)) rest)"

definition CalculateInspection :: "InspectionSection list \<Rightarrow> int \<Rightarrow> err + (int \<times> bool)" where
  "CalculateInspection sections passScore =
     (if sections = [] \<or> passScore \<le> 0 \<or> passScore > 100 then Inl (Detail ErrStoreNotCompliant ''invalid inspection input'')
      else bindE (inspection_total 0 sections) (\<lambda>points.
        let score = go_div points (int (length sections)) in Inr (score, score \<ge> passScore)))"

definition CorrectiveDeadline :: "string \<Rightarrow> time \<Rightarrow> err + time" where
  "CorrectiveDeadline severity observedAt =
     (let s = ToLower (TrimSpace severity) in
      if s = ''critical'' then Inr (Add observedAt (24 * nsHour))
      else if s = ''major'' then Inr (Add observedAt (7 * 24 * nsHour))
      else if s = ''minor'' then Inr (Add observedAt (30 * 24 * nsHour))
      else Inl (Detail ErrStoreNotCompliant ''unknown corrective severity''))"

definition ValidateAppeal :: "Appeal \<Rightarrow> Inspection \<Rightarrow> time \<Rightarrow> err option" where
  "ValidateAppeal appeal inspection now =
     (if apl_InspectionID appeal \<noteq> ins_ID inspection \<or> apl_StoreID appeal \<noteq> ins_StoreID inspection then
        Some (Detail ErrAppealExpired ''appeal does not match inspection'')
      else if TrimSpace (apl_Reason appeal) = '''' \<or> apl_Evidence appeal = [] then
        Some (Detail ErrAppealExpired ''reason and evidence are required'')
      else if After now (Add (ins_CompletedAt inspection) (10 * 24 * nsHour)) then Some ErrAppealExpired
      else None)"

section \<open>Supply\<close>

definition ValidateLotTrace :: "IngredientLot \<Rightarrow> lots \<Rightarrow> err option" where
  "ValidateLotTrace lot known =
     (if lot_ID lot = '''' \<or> lot_SupplierID lot = '''' \<or> lot_CertificateID lot = '''' \<or> lot_OriginRegion lot = '''' then
        Some (Detail ErrInvalidIngredient ''lot identity, supplier, certificate and origin are required'')
      else if \<not> Before (lot_ProducedAt lot) (lot_ExpiresAt lot) then
        Some (Detail ErrInvalidIngredient ''production and expiry times are inconsistent'')
      else first_error (\<lambda>parent.
          if (case known parent of None \<Rightarrow> True
             | Some parentLot \<Rightarrow> lot_ID parentLot = lot_ID lot \<or> After (lot_ProducedAt parentLot) (lot_ProducedAt lot)) then
            Some (Detail ErrInvalidIngredient (''parent lot '' @ parent @ '' is invalid''))
          else None) (lot_ParentLotIDs lot))"

definition ValidateHighlandProduct :: "ProductListing \<Rightarrow> lots \<Rightarrow> err option" where
  "ValidateHighlandProduct listing lots =
     (if lst_IngredientLotIDs listing = [] \<or> lst_OriginRegion listing = '''' then
        Some (Detail ErrInvalidIngredient ''listing origin and ingredient lots are required'')
      else first_error (\<lambda>i.
          if (case lots i of None \<Rightarrow> True | Some lot \<Rightarrow> lot_OriginRegion lot \<noteq> lst_OriginRegion listing) then
            Some (Detail ErrInvalidIngredient (''listing origin does not match lot '' @ i))
          else None) (lst_IngredientLotIDs listing))"

definition ValidateListingPrices :: "ProductListing \<Rightarrow> err option" where
  "ValidateListingPrices listing =
     (if lst_OnlinePriceCents listing \<le> 0 \<or> lst_StorePriceCents listing \<le> 0 then
        Some (Detail ErrStoreNotCompliant ''online and store prices must be positive'')
      else
        let difference = wrap64 (lst_OnlinePriceCents listing - lst_StorePriceCents listing);
            difference = (if difference < 0 then wrap64 (- difference) else difference) in
        if wrap64 (difference * 100) > wrap64 (lst_StorePriceCents listing * 5) then
          Some (Detail ErrStoreNotCompliant ''channel price difference exceeds five percent'')
        else None)"

definition AvailableStock :: "ProductListing \<Rightarrow> err + int" where
  "AvailableStock listing =
     (if lst_Stock listing < 0 \<or> lst_Reserved listing < 0 \<or> lst_Reserved listing > lst_Stock listing then
        Inl (Detail ErrStoreNotCompliant ''stock or reservation is inconsistent'')
      else Inr (wrap64 (lst_Stock listing - lst_Reserved listing)))"

definition RecallCoverage :: "Recall \<Rightarrow> string list \<times> bool" where
  "RecallCoverage recall =
     (let missing = sort (filter (\<lambda>storeID. storeID \<notin> set (rec_Acknowledged recall)) (rec_AffectedStores recall))
      in (missing, length missing = 0))"

definition CanCloseRecall :: "Recall \<Rightarrow> time \<Rightarrow> err option" where
  "CanCloseRecall recall now =
     (if rec_ClosedAt recall \<noteq> None \<or> Before now (rec_CreatedAt recall) then
        Some (Detail ErrRecallIncomplete ''recall lifecycle is invalid'')
      else (case RecallCoverage recall of (missing, complete) \<Rightarrow>
        if \<not> complete then
          Some (Detail ErrRecallIncomplete (show_nat (length missing) @ '' stores have not acknowledged''))
        else None))"

section \<open>Campaigns\<close>

definition ValidateCampaign :: "CultureCampaign \<Rightarrow> StoreProfile \<Rightarrow> (string \<rightharpoonup> ProductListing) \<Rightarrow> time \<Rightarrow> err option" where
  "ValidateCampaign campaign store listings instant =
     (if cam_StoreID campaign \<noteq> sto_ID store \<or> cam_Title campaign = '''' \<or> \<not> Before (cam_StartsAt campaign) (cam_EndsAt campaign) then
        Some (Detail ErrCampaignNotApproved ''campaign identity or window is invalid'')
      else if cam_ContentVersion campaign \<noteq> cam_ApprovedVersion campaign \<or> \<not> cam_RegionalBrandLogo campaign then
        Some (Detail ErrCampaignNotApproved ''content or regional brand logo is not approved'')
      else if Before instant (cam_StartsAt campaign) \<or> \<not> Before instant (cam_EndsAt campaign) then
        Some (Detail ErrCampaignNotApproved ''campaign is outside its active window'')
      else first_error (\<lambda>sku.
          if (case listings sku of None \<Rightarrow> True
             | Some listing \<Rightarrow> lst_StoreID listing \<noteq> sto_ID store \<or> \<not> lst_Published listing) then
            Some (Detail ErrCampaignNotApproved (''featured SKU '' @ sku @ '' is unavailable''))
          else None) (cam_FeaturedSKUs campaign))"

definition ValidateDestinationCoverage :: "CultureCampaign \<Rightarrow> string list \<Rightarrow> err option" where
  "ValidateDestinationCoverage campaign licensedRegions =
     (if cam_DestinationCodes campaign = [] then Some (Detail ErrCampaignNotApproved ''campaign destinations are required'')
      else first_error (\<lambda>destination.
          if destination \<notin> set licensedRegions then
            Some (Detail ErrCampaignNotApproved (''destination '' @ destination @ '' is outside license scope''))
          else None) (cam_DestinationCodes campaign))"

definition ValidateSubsidyClaim :: "SubsidyClaim \<Rightarrow> StoreProfile \<Rightarrow> BrandLicense \<Rightarrow> time \<Rightarrow> err option" where
  "ValidateSubsidyClaim claim store license now =
     (if clm_StoreID claim \<noteq> sto_ID store \<or> lic_StoreID license \<noteq> sto_ID store \<or> lic_Status license \<noteq> LicenseActive then
        Some (Detail ErrInvalidClaim ''claim store has no active license'')
      else if TrimSpace (clm_Period claim) = '''' \<or> clm_EligibleSales claim \<le> 0 \<or> clm_EvidenceHashes claim = [] then
        Some (Detail ErrInvalidClaim ''period, eligible sales and evidence are required'')
      else if After (clm_SubmittedAt claim) now \<or> Sub now (clm_SubmittedAt claim) > 30 * 24 * nsHour then
        Some (Detail ErrInvalidClaim ''claim was submitted outside the filing window'')
      else None)"

fun merge_skus :: "string list \<Rightarrow> string list \<Rightarrow> string list" where
  \<comment> \<open>the loop over one list; the set of those seen is the set of those merged\<close>
  "merge_skus merged [] = merged"
| "merge_skus merged (sku # rest) =
     (let sku = TrimSpace sku in
      if sku = '''' then merge_skus merged rest
      else if sku \<in> set merged then merge_skus merged rest
      else merge_skus (merged @ [sku]) rest)"

definition MergeFeaturedSKUs :: "string list \<Rightarrow> string list \<Rightarrow> string list" where
  "MergeFeaturedSKUs existing incoming = merge_skus (merge_skus [] existing) incoming"

end
