(* ===== verification/Hub_Brand.thy ===== *)
theory Hub_Brand
  imports Hub_Policy
begin

text \<open>
  The brand side of the package internal/hub with its state: the registry of licenses,
  inspections and catalogs (registry.go) and the service on it (service.go). Each method of the
  registry holds its lock from the first look to the last write; a method of the service that
  reads and then saves does so in two calls, and the version that it passes on is what keeps a
  change in between from being overwritten.
\<close>

section \<open>Registry\<close>

record brand = runtime +
  br_licenses :: "string \<rightharpoonup> BrandLicense"
  br_inspections :: "string \<rightharpoonup> Inspection"
  br_catalogs :: "string \<rightharpoonup> CatalogSnapshot"

definition NewRegistry :: "runtime \<Rightarrow> brand" where
  "NewRegistry rt = runtime.extend rt \<lparr>br_licenses = Map.empty, br_inspections = Map.empty, br_catalogs = Map.empty\<rparr>"

definition SaveLicense :: "BrandLicense \<Rightarrow> int \<Rightarrow> (err, 'a brand_scheme, unit) op" where
  "SaveLicense license expectedVersion =
     bindM (mapErr (Wrap ''save license'') external) (\<lambda>_.
     bindM (getM (\<lambda>w. br_licenses w (lic_ID license))) (\<lambda>r.
     if (case r of None \<Rightarrow> False | Some current \<Rightarrow> lic_Version current \<noteq> expectedVersion) then
       failM (Detail ErrInspectionConflict (''expected license version '' @ show_int expectedVersion
         @ '', got '' @ show_int (lic_Version (the r))))
     else modM (\<lambda>w. w\<lparr>br_licenses := (br_licenses w)(lic_ID license \<mapsto>
            license\<lparr>lic_Version := wrap64 (expectedVersion + 1)\<rparr>)\<rparr>)))"

definition License :: "string \<Rightarrow> (err, 'a brand_scheme, BrandLicense option) op" where
  "License k = bindM (mapErr (Wrap ''read license'') external) (\<lambda>_. getM (\<lambda>w. br_licenses w k))"

definition SaveInspection :: "Inspection \<Rightarrow> int \<Rightarrow> (err, 'a brand_scheme, unit) op" where
  "SaveInspection inspection expectedVersion =
     bindM (mapErr (Wrap ''save inspection'') external) (\<lambda>_.
     bindM (getM (\<lambda>w. br_inspections w (ins_ID inspection))) (\<lambda>r.
     if (case r of None \<Rightarrow> False | Some current \<Rightarrow> ins_Version current \<noteq> expectedVersion) then
       failM (Detail ErrInspectionConflict (''expected inspection version '' @ show_int expectedVersion
         @ '', got '' @ show_int (ins_Version (the r))))
     else modM (\<lambda>w. w\<lparr>br_inspections := (br_inspections w)(ins_ID inspection \<mapsto>
            inspection\<lparr>ins_Version := wrap64 (expectedVersion + 1)\<rparr>)\<rparr>)))"

definition PublishCatalog :: "CatalogSnapshot \<Rightarrow> (err, 'a brand_scheme, unit) op" where
  \<comment> \<open>the wall clock is read only when the store is named; \<open>CloneCatalog\<close> copies\<close>
  "PublishCatalog snapshot =
     bindM (mapErr (Wrap ''publish catalog'') external) (\<lambda>_.
     let invalid = failM (Detail ErrStoreNotCompliant ''catalog identity or generation time is invalid'') in
     if cat_StoreID snapshot = '''' then invalid
     else bindM WallNow (\<lambda>now.
       if After (cat_GeneratedAt snapshot) (Add now nsMinute) then invalid
       else modM (\<lambda>w. w\<lparr>br_catalogs := (br_catalogs w)(cat_StoreID snapshot \<mapsto> snapshot)\<rparr>)))"

definition Catalog :: "string \<Rightarrow> (err, 'a brand_scheme, CatalogSnapshot option) op" where
  "Catalog storeID = bindM (mapErr (Wrap ''read catalog'') external) (\<lambda>_. getM (\<lambda>w. br_catalogs w storeID))"

section \<open>Checks\<close>

definition checked :: "err option \<Rightarrow> (err, 'a brand_scheme, unit) op" where
  "checked = check"

definition CheckThreeStoreModel :: "StoreProfile \<Rightarrow> (err, 'a brand_scheme, unit) op" where
  "CheckThreeStoreModel store = checked (ValidateThreeStoreModel store)"

definition CheckLogo :: "BrandLicense \<Rightarrow> StoreProfile \<Rightarrow> (err, 'a brand_scheme, unit) op" where
  "CheckLogo license store = checked (ValidateLogoVersion license store)"

definition CheckMenuName :: "StoreProfile \<Rightarrow> (err, 'a brand_scheme, unit) op" where
  "CheckMenuName store = checked (ValidateMenuBrandName store)"

definition CheckOperatorTraining :: "StoreProfile \<Rightarrow> string \<Rightarrow> (err, 'a brand_scheme, unit) op" where
  "CheckOperatorTraining store course = bindM Now (\<lambda>now. checked (ValidateOperatorTraining store course now))"

definition CheckTransfer :: "BrandLicense \<Rightarrow> string \<Rightarrow> string \<Rightarrow> (err, 'a brand_scheme, unit) op" where
  "CheckTransfer license currentOwner proposedOwner = checked (ValidateLicenseTransfer license currentOwner proposedOwner)"

definition CheckBroth :: "BrothBatch \<Rightarrow> lots \<Rightarrow> (err, 'a brand_scheme, unit) op" where
  "CheckBroth batch lots = checked (ValidateBrothBatch batch lots)"

definition CheckChiliOil :: "ChiliOilBatch \<Rightarrow> IngredientLot \<Rightarrow> IngredientLot \<Rightarrow> (err, 'a brand_scheme, unit) op" where
  "CheckChiliOil batch chili oil = checked (ValidateChiliOil batch chili oil)"

definition CheckSupplierCertificate :: "IngredientLot \<Rightarrow> SupplierCertificate \<Rightarrow> (err, 'a brand_scheme, unit) op" where
  "CheckSupplierCertificate lot certificate = bindM Now (\<lambda>now. checked (ValidateSupplierCertificate lot certificate now))"

definition CheckColdChain :: "IngredientLot \<Rightarrow> (err, 'a brand_scheme, unit) op" where
  "CheckColdChain lot = checked (ValidateColdChain lot)"

definition CheckCorrectiveDeadline :: "string \<Rightarrow> time \<Rightarrow> (err, 'a brand_scheme, time) op" where
  "CheckCorrectiveDeadline severity observedAt = liftE (CorrectiveDeadline severity observedAt)"

definition CheckAppeal :: "Appeal \<Rightarrow> Inspection \<Rightarrow> (err, 'a brand_scheme, unit) op" where
  "CheckAppeal appeal inspection = bindM Now (\<lambda>now. checked (ValidateAppeal appeal inspection now))"

definition CheckLotTrace :: "IngredientLot \<Rightarrow> lots \<Rightarrow> (err, 'a brand_scheme, unit) op" where
  "CheckLotTrace lot known = checked (ValidateLotTrace lot known)"

definition CheckHighlandProduct :: "ProductListing \<Rightarrow> lots \<Rightarrow> (err, 'a brand_scheme, unit) op" where
  "CheckHighlandProduct listing lots = checked (ValidateHighlandProduct listing lots)"

definition CheckListingPrices :: "ProductListing \<Rightarrow> (err, 'a brand_scheme, unit) op" where
  "CheckListingPrices listing = checked (ValidateListingPrices listing)"

definition CheckAvailableStock :: "ProductListing \<Rightarrow> (err, 'a brand_scheme, int) op" where
  "CheckAvailableStock listing = liftE (AvailableStock listing)"

definition CheckCampaign :: "CultureCampaign \<Rightarrow> StoreProfile \<Rightarrow> (string \<rightharpoonup> ProductListing) \<Rightarrow> (err, 'a brand_scheme, unit) op" where
  "CheckCampaign campaign store listings = bindM Now (\<lambda>now. checked (ValidateCampaign campaign store listings now))"

definition CheckDestinationCoverage :: "CultureCampaign \<Rightarrow> string list \<Rightarrow> (err, 'a brand_scheme, unit) op" where
  "CheckDestinationCoverage campaign regions = checked (ValidateDestinationCoverage campaign regions)"

definition CheckSubsidyClaim :: "SubsidyClaim \<Rightarrow> StoreProfile \<Rightarrow> BrandLicense \<Rightarrow> (err, 'a brand_scheme, unit) op" where
  "CheckSubsidyClaim claim store license = bindM Now (\<lambda>now. checked (ValidateSubsidyClaim claim store license now))"

definition MergeCampaignSKUs :: "string list \<Rightarrow> string list \<Rightarrow> string list" where
  "MergeCampaignSKUs existing incoming = MergeFeaturedSKUs existing incoming"

section \<open>Operations of the service\<close>

definition LicenseRegions :: "string \<Rightarrow> (err, 'a brand_scheme, string list) op" where
  "LicenseRegions licenseID =
     bindM (License licenseID) (\<lambda>r. case r of
       None \<Rightarrow> failM (Detail ErrInvalidLicense (''license '' @ licenseID @ '' not found''))
     | Some license \<Rightarrow> retM (lic_RegionCodes license))"

definition AcknowledgeRecall :: "Recall \<Rightarrow> string \<Rightarrow> err + Recall" where
  "AcknowledgeRecall recall storeID =
     (if storeID \<notin> set (rec_AffectedStores recall) then
        Inl (Detail ErrRecallIncomplete (''store '' @ storeID @ '' is not affected''))
      else if storeID \<notin> set (rec_Acknowledged recall) then
        Inr (recall\<lparr>rec_Acknowledged := rec_Acknowledged recall @ [storeID]\<rparr>)
      else Inr recall)"

definition ActivateLicense :: "BrandLicense \<Rightarrow> StoreProfile \<Rightarrow> (err, 'a brand_scheme, BrandLicense) op" where
  "ActivateLicense license store =
     bindM (checked (ValidateThreeStoreModel store)) (\<lambda>_.
     bindM (checked (ValidateLogoVersion license store)) (\<lambda>_.
     bindM (checked (ValidateMenuBrandName store)) (\<lambda>_.
     let license = license\<lparr>lic_Status := LicenseActive\<rparr> in
     bindM Now (\<lambda>now.
     bindM (checked (ValidateLicenseAt license store now)) (\<lambda>_.
     bindM (mapErr (Wrap ''activate brand license'') (SaveLicense license (lic_Version license))) (\<lambda>_.
     retM (license\<lparr>lic_Version := wrap64 (lic_Version license + 1)\<rparr>)))))))"

definition renew_read :: "string \<Rightarrow> StoreProfile \<Rightarrow> duration \<Rightarrow> BrandLicense option \<Rightarrow> (err, 'a brand_scheme, BrandLicense) op" where
  \<comment> \<open>what \<open>RenewLicense\<close> does with the license that it has read\<close>
  "renew_read licenseID store extension r =
     (case r of
       None \<Rightarrow> failM (Detail ErrInvalidLicense (''license '' @ licenseID @ '' not found''))
     | Some license \<Rightarrow>
         if extension \<le> 0 then failM (Detail ErrLicenseNotRenewable ''extension must be positive'')
         else bindM Now (\<lambda>now.
           bindM (checked (CanRenewLicense license store now)) (\<lambda>_.
           let version = lic_Version license;
               license = license\<lparr>lic_EffectiveTo := Add (lic_EffectiveTo license) extension\<rparr> in
           bindM (mapErr (Wrap ''renew brand license'') (SaveLicense license version)) (\<lambda>_.
           retM (license\<lparr>lic_Version := wrap64 (version + 1)\<rparr>)))))"

definition RenewLicense :: "string \<Rightarrow> StoreProfile \<Rightarrow> duration \<Rightarrow> (err, 'a brand_scheme, BrandLicense) op" where
  "RenewLicense licenseID store extension = bindM (License licenseID) (renew_read licenseID store extension)"

definition CompleteInspection :: "Inspection \<Rightarrow> int \<Rightarrow> (err, 'a brand_scheme, Inspection) op" where
  \<comment> \<open>the clock is read only when the times of the inspection are in order\<close>
  "CompleteInspection inspection passScore =
     (let invalid = failM (Detail ErrStoreNotCompliant ''inspection time range is invalid'') in
      if Before (ins_CompletedAt inspection) (ins_StartedAt inspection) then invalid
      else bindM Now (\<lambda>now.
        if After (ins_CompletedAt inspection) now then invalid
        else bindM (liftE (CalculateInspection (ins_Sections inspection) passScore)) (\<lambda>(score, passed).
          let version = ins_Version inspection;
              inspection = inspection\<lparr>ins_Score := score, ins_Passed := passed\<rparr> in
          bindM (mapErr (Wrap ''complete inspection'') (SaveInspection inspection version)) (\<lambda>_.
          retM (inspection\<lparr>ins_Version := wrap64 (version + 1)\<rparr>)))))"

definition listing_error :: "StoreProfile \<Rightarrow> lots \<Rightarrow> ProductListing \<Rightarrow> err option" where
  \<comment> \<open>the body of the loop of \<open>PublishStoreCatalog\<close>\<close>
  "listing_error store lots listing =
     (if lst_StoreID listing \<noteq> sto_ID store then
        Some (Detail ErrStoreNotCompliant (''listing '' @ lst_ID listing @ '' belongs to another store''))
      else and_then (ValidateHighlandProduct listing lots) (ValidateListingPrices listing))"

definition PublishStoreCatalog :: "StoreProfile \<Rightarrow> BrandLicense \<Rightarrow> ProductListing list \<Rightarrow> lots
    \<Rightarrow> (err, 'a brand_scheme, CatalogSnapshot) op" where
  "PublishStoreCatalog store license listings lots =
     bindM Now (\<lambda>now.
     bindM (checked (ValidateLicenseAt license store now)) (\<lambda>_.
     bindM (checked (first_error (listing_error store lots) listings)) (\<lambda>_.
     bindM Now (\<lambda>generated.
     let snapshot = \<lparr>cat_StoreID = sto_ID store, cat_Listings = listings, cat_GeneratedAt = generated\<rparr> in
     bindM (PublishCatalog snapshot) (\<lambda>_. retM snapshot)))))"

definition CloseRecall :: "Recall \<Rightarrow> (err, 'a brand_scheme, Recall) op" where
  "CloseRecall recall =
     bindM (mapErr (Wrap ''close recall'') external) (\<lambda>_.
     bindM Now (\<lambda>now.
     bindM (checked (CanCloseRecall recall now)) (\<lambda>_.
     retM (recall\<lparr>rec_ClosedAt := Some now\<rparr>))))"

definition listings_by_sku :: "ProductListing list \<Rightarrow> string \<rightharpoonup> ProductListing" where
  "listings_by_sku ls = foldl (\<lambda>m l. m(lst_SKU l \<mapsto> l)) Map.empty ls"

definition LaunchCampaign :: "CultureCampaign \<Rightarrow> StoreProfile \<Rightarrow> BrandLicense \<Rightarrow> (err, 'a brand_scheme, CultureCampaign) op" where
  "LaunchCampaign campaign store license =
     bindM (mapErr (Wrap ''launch campaign'') external) (\<lambda>_.
     bindM Now (\<lambda>now.
     bindM (checked (ValidateLicenseAt license store now)) (\<lambda>_.
     bindM (checked (ValidateDestinationCoverage campaign (lic_RegionCodes license))) (\<lambda>_.
     bindM (Catalog (sto_ID store)) (\<lambda>r. case r of
       None \<Rightarrow> failM (Detail ErrCampaignNotApproved ''store catalog is not published'')
     | Some snapshot \<Rightarrow>
         bindM Now (\<lambda>now.
         bindM (checked (ValidateCampaign campaign store (listings_by_sku (cat_Listings snapshot)) now)) (\<lambda>_.
         retM campaign)))))))"

end
