(* ===== verification/Hub_Brand_Facts.thy ===== *)
theory Hub_Brand_Facts
  imports Hub_Brand
begin

text \<open>
  What the brand rules and the brand registry guarantee: the optimistic versions of licenses and
  inspections, what the operations of the service store, which prices, recalls and lists of
  products the rules accept.
\<close>

section \<open>Wrap-around\<close>

lemma wrap64_wrap64_add: "wrap64 (wrap64 a + b) = wrap64 (a + b)"
  by (simp add: wrap64_def signed_take_bit_eq_take_bit_shift take_bit_eq_mod mod_simps algebra_simps)

lemma wrap64_add_wrap64: "wrap64 (b + wrap64 a) = wrap64 (b + a)"
  using wrap64_wrap64_add [of a b] by (simp add: ac_simps)

lemma wrap64_shift_neq: "0 < n \<Longrightarrow> n < 2 ^ 64 \<Longrightarrow> wrap64 (v + n) \<noteq> v"
proof
  assume n: "0 < n" "n < 2 ^ 64" and eq: "wrap64 (v + n) = v"
  have "int64 v" using int64_wrap64 [of "v + n"] eq by simp
  then have "wrap64 v = wrap64 (v + n)" using eq by (simp add: wrap64_id)
  then have "take_bit 64 v = take_bit 64 (v + n)" by (simp add: wrap64_def signed_take_bit_eq_iff_take_bit_eq)
  then have "2 ^ 64 dvd n" by (simp add: take_bit_eq_mod mod_eq_dvd_iff)
  with n show False by (auto dest: zdvd_imp_le)
qed

section \<open>Versions\<close>

fun all_succeed :: "('a \<Rightarrow> ('e, 'w, unit) op) \<Rightarrow> 'a list \<Rightarrow> 'w \<Rightarrow> 'w \<Rightarrow> bool" where
  "all_succeed f [] w w' \<longleftrightarrow> w' = w"
| "all_succeed f (x # xs) w w' \<longleftrightarrow> (\<exists>w1. f x w = (Inr (), w1) \<and> all_succeed f xs w1 w')"

text \<open>
  The interface of a store with optimistic versions: a save names the version that it expects;
  when the entry is there with another version it fails and nothing changes, and when it succeeds
  the entry has the next version.
\<close>

locale versioned_store =
  fixes save :: "'r \<Rightarrow> int \<Rightarrow> (err, 'w, unit) op"
    and store :: "'w \<Rightarrow> string \<rightharpoonup> 'r"
    and key :: "'r \<Rightarrow> string"
    and version :: "'r \<Rightarrow> int"
    and stamp :: "int \<Rightarrow> 'r \<Rightarrow> 'r"
  assumes save_ok: "save r v w = (Inr (), w') \<Longrightarrow>
      (case store w (key r) of None \<Rightarrow> True | Some c \<Rightarrow> version c = v)
      \<and> store w' = (store w)(key r \<mapsto> stamp (wrap64 (v + 1)) r)"
    and save_failed: "save r v w = (Inl e, w') \<Longrightarrow> store w' = store w"
    and version_stamp: "version (stamp n r) = n"
begin

lemma save_version: "save r v w = (Inr (), w') \<Longrightarrow> store w (key r) = Some c \<Longrightarrow>
    \<exists>c'. store w' (key r) = Some c' \<and> version c' = wrap64 (version c + 1)"
  by (auto dest!: save_ok simp: version_stamp)

lemma saves_count:
  "all_succeed (\<lambda>(r, v). save r v) ops w w' \<Longrightarrow> list_all (\<lambda>(r, v). key r = k) ops \<Longrightarrow> store w k = Some c
     \<Longrightarrow> int64 (version c) \<Longrightarrow> \<exists>c'. store w' k = Some c' \<and> version c' = wrap64 (version c + int (length ops))"
proof (induction ops arbitrary: w c)
  case Nil
  then show ?case by (simp add: wrap64_id)
next
  case (Cons p ops)
  obtain r v where p: "p = (r, v)" by (cases p)
  with Cons.prems obtain w1 where s: "save r v w = (Inr (), w1)" and rest: "all_succeed (\<lambda>(r, v). save r v) ops w1 w'"
    by auto
  have "key r = k" using Cons.prems(2) p by auto
  with save_version [OF s] Cons.prems(3) obtain c1 where c1: "store w1 k = Some c1" "version c1 = wrap64 (version c + 1)"
    by auto
  with Cons.IH [OF rest _ c1(1)] Cons.prems(2) show ?case
    by (auto simp: p wrap64_add_wrap64 ac_simps)
qed

lemma stale_save_fails:
  assumes "all_succeed (\<lambda>(r, v). save r v) ops w w'" "list_all (\<lambda>(r, v). key r = key x) ops"
    and "store w (key x) = Some c" "int64 (version c)" and "ops \<noteq> []" "length ops < 2 ^ 64"
  shows "\<exists>e w''. save x (version c) w' = (Inl e, w'') \<and> store w'' = store w'"
proof -
  obtain c' where c': "store w' (key x) = Some c'" "version c' = wrap64 (version c + int (length ops))"
    using saves_count [OF assms(1-4)] by blast
  have "version c' \<noteq> version c" using assms(5,6) c'(2) wrap64_shift_neq [of "int (length ops)" "version c"]
    by (cases ops) auto
  then show ?thesis using c'(1) save_ok [of x "version c" w'] save_failed [of x "version c" w']
    by (cases "save x (version c) w'"; cases "fst (save x (version c) w')") auto
qed

end

lemma mapErr_external_Inr: "mapErr f external w = (Inr u, w') \<Longrightarrow> \<exists>fs. w' = w\<lparr>rt_faults := fs\<rparr>"
  by (auto simp: mapErr_Inr elim!: external_cases)

lemma mapErr_external_Inl: "mapErr f external w = (Inl e, w') \<Longrightarrow> \<exists>fs. w' = w\<lparr>rt_faults := fs\<rparr>"
  by (auto simp: mapErr_Inl elim!: external_cases)

lemma SaveLicense_ok:
  "SaveLicense l v w = (Inr (), w') \<Longrightarrow>
      (case br_licenses w (lic_ID l) of None \<Rightarrow> True | Some c \<Rightarrow> lic_Version c = v)
      \<and> (\<exists>fs. w' = w\<lparr>rt_faults := fs, br_licenses := (br_licenses w)(lic_ID l \<mapsto> l\<lparr>lic_Version := wrap64 (v + 1)\<rparr>)\<rparr>)"
  by (auto simp: SaveLicense_def bindM_Inr getM_eq failM_Inl modM_eq split: if_splits option.splits dest!: mapErr_external_Inr)

lemma SaveLicense_failed: "SaveLicense l v w = (Inl e, w') \<Longrightarrow> \<exists>fs. w' = w\<lparr>rt_faults := fs\<rparr>"
  by (auto simp: SaveLicense_def bindM_Inl getM_eq failM_Inl modM_eq split: if_splits option.splits
      dest!: mapErr_external_Inr mapErr_external_Inl)

lemma SaveInspection_ok:
  "SaveInspection l v w = (Inr (), w') \<Longrightarrow>
      (case br_inspections w (ins_ID l) of None \<Rightarrow> True | Some c \<Rightarrow> ins_Version c = v)
      \<and> (\<exists>fs. w' = w\<lparr>rt_faults := fs, br_inspections := (br_inspections w)(ins_ID l \<mapsto> l\<lparr>ins_Version := wrap64 (v + 1)\<rparr>)\<rparr>)"
  by (auto simp: SaveInspection_def bindM_Inr getM_eq failM_Inl modM_eq split: if_splits option.splits dest!: mapErr_external_Inr)

lemma SaveInspection_failed: "SaveInspection l v w = (Inl e, w') \<Longrightarrow> \<exists>fs. w' = w\<lparr>rt_faults := fs\<rparr>"
  by (auto simp: SaveInspection_def bindM_Inl getM_eq failM_Inl modM_eq split: if_splits option.splits
      dest!: mapErr_external_Inr mapErr_external_Inl)

interpretation licenses: versioned_store SaveLicense br_licenses lic_ID lic_Version "\<lambda>n l. l\<lparr>lic_Version := n\<rparr>"
  by unfold_locales (auto dest!: SaveLicense_ok SaveLicense_failed)

interpretation inspections: versioned_store SaveInspection br_inspections ins_ID ins_Version "\<lambda>n l. l\<lparr>ins_Version := n\<rparr>"
  by unfold_locales (auto dest!: SaveInspection_ok SaveInspection_failed)

text \<open>
  C33: No update is lost. A writer that has read a license (or an inspection) saves it with the
  version that it read. If others have saved the same license in between, once or more, the save
  fails and leaves what they wrote in place.
\<close>

theorem no_lost_update:
  assumes "all_succeed (\<lambda>(l, v). SaveLicense l v) saves w w'" "list_all (\<lambda>(l, v). lic_ID l = lic_ID mine) saves"
    and "br_licenses w (lic_ID mine) = Some read1" "int64 (lic_Version read1)" "saves \<noteq> []" "length saves < 2 ^ 64"
  shows "\<exists>e w''. SaveLicense mine (lic_Version read1) w' = (Inl e, w'') \<and> br_licenses w'' = br_licenses w'"
  using assms by (rule licenses.stale_save_fails)

section \<open>Rules spelt out\<close>

lemma ValidateThreeStoreModel_None: "ValidateThreeStoreModel store = None \<longleftrightarrow>
    sto_DiningEnabled store \<and> sto_SpecialtyRetailEnabled store \<and> sto_CultureDisplayEnabled store"
  by (simp add: ValidateThreeStoreModel_def Let_def)

lemma ValidateLogoVersion_None: "ValidateLogoVersion l store = None \<longleftrightarrow> 0 < lic_LogoVersion l
    \<and> sto_ApprovedLogoVersion store = lic_LogoVersion l \<and> sto_DisplayedLogoVersion store = lic_LogoVersion l"
  by (auto simp: ValidateLogoVersion_def)

lemma ValidateLicenseAt_None: "ValidateLicenseAt l store t = None \<longleftrightarrow> lic_ID l \<noteq> '''' \<and> lic_StoreID l = sto_ID store
    \<and> lic_OwnerID l = sto_OwnerID store \<and> lic_Status l = LicenseActive \<and> lic_EffectiveFrom l \<le> t \<and> t < lic_EffectiveTo l
    \<and> sto_CityCode store \<in> set (lic_RegionCodes l)"
  by (auto simp: ValidateLicenseAt_def Before_def)

lemma CanRenewLicense_None: "CanRenewLicense l store t = None \<longleftrightarrow> lic_Status l = LicenseActive \<and> lic_StoreID l = sto_ID store
    \<and> lic_LastInspectionPass l \<and> lic_OutstandingActions l = 0 \<and> lic_EffectiveTo l - 90 * 24 * nsHour \<le> t
    \<and> ValidateThreeStoreModel store = None"
  by (auto simp: CanRenewLicense_def Before_def Add_def)

lemma ValidateListingPrices_None:
  assumes "lst_OnlinePriceCents l < 2 ^ 56" "lst_StorePriceCents l < 2 ^ 56"
  shows "ValidateListingPrices l = None \<longleftrightarrow> 0 < lst_OnlinePriceCents l \<and> 0 < lst_StorePriceCents l
    \<and> 20 * \<bar>lst_OnlinePriceCents l - lst_StorePriceCents l\<bar> \<le> lst_StorePriceCents l"
proof (cases "0 < lst_OnlinePriceCents l \<and> 0 < lst_StorePriceCents l")
  case True
  define d where "d = lst_OnlinePriceCents l - lst_StorePriceCents l"
  have d: "- (2 ^ 56) < d" "d < 2 ^ 56" using True assms unfolding d_def by linarith+
  have small: "wrap64 (x * 100) = x * 100 \<and> wrap64 (x * 5) = x * 5" if "0 \<le> x" "x < 2 ^ 56" for x :: int
    using that by (auto intro!: wrap64_id simp: int64_def)
  have "wrap64 d = d" "wrap64 (- d) = - d" using d by (simp_all add: wrap64_id int64_def)
  then have "ValidateListingPrices l = None \<longleftrightarrow> \<not> wrap64 (\<bar>d\<bar> * 100) > wrap64 (lst_StorePriceCents l * 5)"
    using True by (simp add: ValidateListingPrices_def Let_def abs_if flip: d_def)
  also have "\<dots> \<longleftrightarrow> 20 * \<bar>d\<bar> \<le> lst_StorePriceCents l"
    using small [of "\<bar>d\<bar>"] small [of "lst_StorePriceCents l"] True assms(2) d by auto
  finally show ?thesis using True by (simp add: d_def)
qed (auto simp: ValidateListingPrices_def)

definition listing_priced :: "int \<Rightarrow> int \<Rightarrow> ProductListing" where
  "listing_priced online store = \<lparr>lst_ID = ''l1'', lst_StoreID = ''s1'', lst_SKU = ''k1'', lst_Name = ''n'', lst_IngredientLotIDs = [''x''],
     lst_OriginRegion = ''q'', lst_OnlinePriceCents = online, lst_StorePriceCents = store, lst_Stock = 1, lst_Reserved = 0,
     lst_Published = True\<rparr>"

text \<open>
  C36: Channel prices. For prices below \<open>2 ^ 56\<close> cents a listing is accepted exactly when both
  prices are positive and differ by at most a twentieth of the store's price. Beyond that the
  products overflow: an online price of more than fifty times the store's is accepted.
\<close>

theorem listing_prices:
  "(lst_OnlinePriceCents l < 2 ^ 56 \<and> lst_StorePriceCents l < 2 ^ 56 \<longrightarrow>
      ValidateListingPrices l = None \<longleftrightarrow> 0 < lst_OnlinePriceCents l \<and> 0 < lst_StorePriceCents l
        \<and> 20 * \<bar>lst_OnlinePriceCents l - lst_StorePriceCents l\<bar> \<le> lst_StorePriceCents l)
   \<and> ValidateListingPrices (listing_priced 184467440737095517 100) = None"
proof -
  have "wrap64 184467440737095417 = 184467440737095417" "wrap64 18446744073709541700 = - 9916" "wrap64 500 = 500"
    by (simp_all add: wrap64_def signed_take_bit_int_eq_self_iff)
  then have "ValidateListingPrices (listing_priced 184467440737095517 100) = None"
    by (simp add: ValidateListingPrices_def listing_priced_def)
  with ValidateListingPrices_None show ?thesis by blast
qed

theorem listing_prices_witness: "ValidateListingPrices (listing_priced 105 100) = None"
  using listing_prices [of "listing_priced 105 100"] by (simp add: listing_priced_def)

section \<open>Inspections\<close>

definition section_ok :: "InspectionSection \<Rightarrow> bool" where
  "section_ok s \<longleftrightarrow> 0 \<le> sec_Score s \<and> sec_Score s \<le> 100 \<and> (sec_Required s \<longrightarrow> sec_Evidence s \<noteq> [])"

lemma inspection_total_ok:
  "list_all section_ok ss \<Longrightarrow> 0 \<le> t \<Longrightarrow> t + 100 * int (length ss) < 2 ^ 63 \<Longrightarrow>
     inspection_total t ss = Inr (t + sum_list (map sec_Score ss))"
  by (induction ss arbitrary: t) (auto simp: section_ok_def wrap64_id int64_def)

lemma inspection_total_bad: "\<not> list_all section_ok ss \<Longrightarrow> \<exists>e. inspection_total t ss = Inl e"
  by (induction ss arbitrary: t) (auto simp: section_ok_def)

lemma scores_bounded: "list_all section_ok ss \<Longrightarrow> 0 \<le> sum_list (map sec_Score ss)
    \<and> sum_list (map sec_Score ss) \<le> 100 * int (length ss)"
  by (induction ss) (auto simp: section_ok_def)

text \<open>
  The score of an inspection. It is computed exactly when there is a section, the pass mark
  is from 1 to 100, every score is from 0 to 100 and every required section has evidence; it is
  then the average rounded down, it lies from 0 to 100, and the verdict compares it with the
  mark.
\<close>

theorem inspection_score:
  assumes "length sections < 2 ^ 56"
  shows "(case CalculateInspection sections passScore of
      Inl e \<Rightarrow> sections = [] \<or> passScore \<notin> {1..100} \<or> \<not> list_all section_ok sections
    | Inr (score, passed) \<Rightarrow> sections \<noteq> [] \<and> passScore \<in> {1..100} \<and> list_all section_ok sections
        \<and> score = sum_list (map sec_Score sections) div int (length sections) \<and> score \<in> {0..100}
        \<and> (passed \<longleftrightarrow> passScore \<le> score))"
proof (cases "sections = [] \<or> passScore \<notin> {1..100}")
  case True
  then show ?thesis by (auto simp: CalculateInspection_def)
next
  case False
  let ?n = "int (length sections)" and ?t = "sum_list (map sec_Score sections)"
  have n: "0 < ?n" "?n < 2 ^ 56" using False assms by auto
  show ?thesis
  proof (cases "list_all section_ok sections")
    case True
    have run: "inspection_total 0 sections = Inr ?t" using inspection_total_ok [OF True, of 0] n by simp
    have "0 \<le> ?t div ?n" "?t div ?n \<le> 100"
      using scores_bounded [OF True] n zdiv_mono1 [of ?t "100 * ?n" ?n] by (simp_all add: pos_imp_zdiv_nonneg_iff)
    with True False run scores_bounded [OF True] n show ?thesis
      by (auto simp: CalculateInspection_def go_div_nonneg Let_def)
  next
    case bad: False
    from inspection_total_bad [OF this] obtain e where "inspection_total 0 sections = Inl e" by blast
    with bad False show ?thesis by (auto simp: CalculateInspection_def)
  qed
qed

definition sample_sections :: "InspectionSection list" where
  "sample_sections = [\<lparr>sec_Code = ''a'', sec_Required = False, sec_Score = 90, sec_Evidence = []\<rparr>,
      \<lparr>sec_Code = ''b'', sec_Required = True, sec_Score = 75, sec_Evidence = [''e'']\<rparr>]"

theorem inspection_score_witness:
  "CalculateInspection sample_sections 80 = Inr (82, True) \<and> list_all section_ok sample_sections"
proof -
  have run: "CalculateInspection sample_sections 80 = Inr (82, True)" by code_simp
  have "length sample_sections < 2 ^ 56" by (simp add: sample_sections_def)
  from inspection_score [OF this, of 80] run show ?thesis by simp
qed

section \<open>Recalls\<close>

lemma RecallCoverage_missing: "set (fst (RecallCoverage r)) = set (rec_AffectedStores r) - set (rec_Acknowledged r)
    \<and> sorted (fst (RecallCoverage r)) \<and> (snd (RecallCoverage r) \<longleftrightarrow> set (rec_AffectedStores r) \<subseteq> set (rec_Acknowledged r))"
proof -
  have "sort xs = [] \<longleftrightarrow> xs = []" for xs :: "string list" by (metis length_sort length_0_conv)
  then show ?thesis by (auto simp: RecallCoverage_def Let_def filter_empty_conv)
qed

lemma CanCloseRecall_None: "CanCloseRecall r now = None \<longleftrightarrow> rec_ClosedAt r = None \<and> rec_CreatedAt r \<le> now
    \<and> set (rec_AffectedStores r) \<subseteq> set (rec_Acknowledged r)"
  using RecallCoverage_missing [of r] by (auto simp: CanCloseRecall_def Before_def split: prod.splits)

fun acknowledge_all :: "Recall \<Rightarrow> string list \<Rightarrow> err + Recall" where
  \<comment> \<open>the stores acknowledge one after the other\<close>
  "acknowledge_all r [] = Inr r"
| "acknowledge_all r (s # ss) = bindE (AcknowledgeRecall r s) (\<lambda>r. acknowledge_all r ss)"

lemma acknowledge_all_ok: "set ss \<subseteq> set (rec_AffectedStores r) \<Longrightarrow> \<exists>r'. acknowledge_all r ss = Inr r'
    \<and> rec_AffectedStores r' = rec_AffectedStores r \<and> rec_ClosedAt r' = rec_ClosedAt r \<and> rec_CreatedAt r' = rec_CreatedAt r
    \<and> set (rec_Acknowledged r') = set (rec_Acknowledged r) \<union> set ss
    \<and> (distinct (rec_Acknowledged r) \<longrightarrow> distinct (rec_Acknowledged r'))"
proof (induction ss arbitrary: r)
  case (Cons s ss)
  define r1 where "r1 = (if s \<in> set (rec_Acknowledged r) then r else r\<lparr>rec_Acknowledged := rec_Acknowledged r @ [s]\<rparr>)"
  have "AcknowledgeRecall r s = Inr r1" using Cons.prems by (simp add: AcknowledgeRecall_def r1_def)
  moreover have "set ss \<subseteq> set (rec_AffectedStores r1)" using Cons.prems by (simp add: r1_def)
  with Cons.IH [of r1] obtain r' where "acknowledge_all r1 ss = Inr r'"
    "rec_AffectedStores r' = rec_AffectedStores r1 \<and> rec_ClosedAt r' = rec_ClosedAt r1 \<and> rec_CreatedAt r' = rec_CreatedAt r1
    \<and> set (rec_Acknowledged r') = set (rec_Acknowledged r1) \<union> set ss
    \<and> (distinct (rec_Acknowledged r1) \<longrightarrow> distinct (rec_Acknowledged r'))" by blast
  ultimately show ?case by (auto simp: r1_def split: if_splits)
qed simp

text \<open>
  A recall closes once the stores have answered. When all affected stores acknowledge an open
  recall, in any order and possibly repeatedly, and nothing fails outside, it can be closed; until
  every one of them has, closing fails.
\<close>

theorem recall_closes:
  assumes "rec_ClosedAt r = None" "rec_CreatedAt r \<le> rt_clock w (rt_ticks w)" "rt_faults w = []"
    and "set ss \<subseteq> set (rec_AffectedStores r)"
  shows "\<exists>r'. acknowledge_all r ss = Inr r' \<and>
    (if set (rec_AffectedStores r) \<subseteq> set (rec_Acknowledged r) \<union> set ss
     then \<exists>c w'. CloseRecall r' w = (Inr c, w') \<and> rec_ClosedAt c = Some (rt_clock w (rt_ticks w))
     else \<exists>e w'. CloseRecall r' w = (Inl e, w'))"
proof -
  obtain r' where r': "acknowledge_all r ss = Inr r'" and same: "rec_AffectedStores r' = rec_AffectedStores r"
    "rec_ClosedAt r' = rec_ClosedAt r" "rec_CreatedAt r' = rec_CreatedAt r"
    and ack: "set (rec_Acknowledged r') = set (rec_Acknowledged r) \<union> set ss"
    using acknowledge_all_ok [OF assms(4)] by blast
  let ?now = "rt_clock w (rt_ticks w)"
  have close: "CloseRecall r' w = (case CanCloseRecall r' ?now of
      None \<Rightarrow> (Inr (r'\<lparr>rec_ClosedAt := Some ?now\<rparr>), w\<lparr>rt_ticks := Suc (rt_ticks w)\<rparr>)
    | Some e \<Rightarrow> (Inl e, w\<lparr>rt_ticks := Suc (rt_ticks w)\<rparr>))"
    using assms(3) by (simp add: CloseRecall_def bindM_def mapErr_def external_def Now_def checked_def check_def retM_def failM_def
        split: option.splits)
  have "CanCloseRecall r' ?now = None \<longleftrightarrow> set (rec_AffectedStores r) \<subseteq> set (rec_Acknowledged r) \<union> set ss"
    using assms(1,2) by (simp add: CanCloseRecall_None same ack)
  then show ?thesis using r' close by (cases "CanCloseRecall r' ?now") auto
qed

definition sample_brand :: brand where
  "sample_brand = \<lparr>rt_clock = (\<lambda>n. 100), rt_wall = (\<lambda>n. 100), rt_ticks = 0, rt_uuid = show_nat, rt_ids = 0, rt_faults = [],
     br_licenses = Map.empty, br_inspections = Map.empty, br_catalogs = Map.empty\<rparr>"

definition sample_recall :: Recall where
  "sample_recall = \<lparr>rec_ID = ''r1'', rec_IngredientLot = ''l1'', rec_AffectedStores = [''s1'', ''s2''], rec_Acknowledged = [],
     rec_CreatedAt = 50, rec_Deadline = 200, rec_ClosedAt = None\<rparr>"

theorem recall_closes_witness:
  "(\<exists>r c w'. acknowledge_all sample_recall [''s2'', ''s1''] = Inr r \<and> CloseRecall r sample_brand = (Inr c, w'))
   \<and> (\<exists>r e w'. acknowledge_all sample_recall [''s2'', ''s2''] = Inr r \<and> CloseRecall r sample_brand = (Inl e, w'))"
  using recall_closes [of sample_recall sample_brand "[''s2'', ''s1'']"] recall_closes [of sample_recall sample_brand "[''s2'', ''s2'']"]
  by (auto simp: sample_recall_def sample_brand_def)

section \<open>Merged products\<close>

lemma merge_skus_alt: "merge_skus m xs = foldl (\<lambda>m s. if s \<in> set m then m else m @ [s]) m (filter (\<lambda>s. s \<noteq> '''') (map TrimSpace xs))"
  by (induction m xs rule: merge_skus.induct) (auto simp: Let_def)

lemma merge_distinct: "distinct m \<Longrightarrow> distinct (foldl (\<lambda>m s. if s \<in> set m then m else m @ [s]) m xs)"
  by (induction xs arbitrary: m) auto

lemma merge_append: "foldl (\<lambda>m s. if s \<in> set m then m else m @ [s]) m xs = m @ rev (remdups (rev (filter (\<lambda>s. s \<notin> set m) xs)))"
proof (induction xs arbitrary: m)
  case (Cons x xs)
  show ?case
  proof (cases "x \<in> set m")
    case True
    then show ?thesis by (simp add: Cons.IH)
  next
    case False
    have "filter (\<lambda>s. s \<notin> set m \<and> s \<noteq> x) xs = filter (\<lambda>s. s \<noteq> x) (filter (\<lambda>s. s \<notin> set m) xs)"
      by (simp add: conj_commute)
    moreover have "rev (remdups (rev (x # ys))) = x # rev (remdups (rev (filter (\<lambda>s. s \<noteq> x) ys)))" for ys :: "'a list"
      by (induction ys rule: rev_induct) (auto simp: remdups_append2)
    ultimately show ?thesis using False by (simp add: Cons.IH conj_commute)
  qed
qed simp

definition cleaned :: "string list \<Rightarrow> string list" where
  "cleaned xs = filter (\<lambda>s. s \<noteq> '''') (map TrimSpace xs)"

text \<open>
  Merging lists of featured products is the concatenation of the trimmed, non-empty entries
  with every repetition after the first left out; it has no repetitions, and merging its own
  result with nothing new changes nothing when the entries are already trimmed.
\<close>

theorem merge_is_dedup:
  "MergeFeaturedSKUs existing incoming = rev (remdups (rev (cleaned existing @ cleaned incoming)))
   \<and> distinct (MergeFeaturedSKUs existing incoming)
   \<and> set (MergeFeaturedSKUs existing incoming) = TrimSpace ` (set existing \<union> set incoming) - {''''}"
proof -
  have "MergeFeaturedSKUs existing incoming = rev (remdups (rev (cleaned existing @ cleaned incoming)))"
    by (simp add: MergeFeaturedSKUs_def merge_skus_alt cleaned_def foldl_append [symmetric] del: foldl_append)
       (simp add: merge_append)
  then show ?thesis by (auto simp: cleaned_def)
qed

section \<open>Outcomes of the service\<close>

definition same_registry :: "'a brand_scheme \<Rightarrow> 'a brand_scheme \<Rightarrow> bool" where
  "same_registry w w' \<longleftrightarrow> br_licenses w' = br_licenses w \<and> br_inspections w' = br_inspections w \<and> br_catalogs w' = br_catalogs w"

interpretation same_registry: step_preorder "same_registry :: 'a brand_scheme \<Rightarrow> _"
  by unfold_locales (auto simp: same_registry_def)

lemma checked_eq: "checked c w = (x, w') \<longleftrightarrow> w' = w \<and> x = (case c of None \<Rightarrow> Inr () | Some e \<Rightarrow> Inl e)"
  by (simp add: checked_def check_eq)

lemma License_eq: "License k w = (Inr r, w') \<Longrightarrow> r = br_licenses w k \<and> (\<exists>fs. w' = w\<lparr>rt_faults := fs\<rparr>)"
  "License j w = (Inl e, w') \<Longrightarrow> \<exists>fs. w' = w\<lparr>rt_faults := fs\<rparr>"
  by (auto simp: License_def bindM_Inr bindM_Inl getM_eq dest!: mapErr_external_Inr mapErr_external_Inl)

lemma Catalog_eq: "Catalog k w = (Inr r, w') \<Longrightarrow> r = br_catalogs w k \<and> (\<exists>fs. w' = w\<lparr>rt_faults := fs\<rparr>)"
  "Catalog j w = (Inl e, w') \<Longrightarrow> \<exists>fs. w' = w\<lparr>rt_faults := fs\<rparr>"
  by (auto simp: Catalog_def bindM_Inr bindM_Inl getM_eq dest!: mapErr_external_Inr mapErr_external_Inl)

lemma PublishCatalog_eq: "PublishCatalog c w = (Inr u, w') \<Longrightarrow> cat_StoreID c \<noteq> ''''
    \<and> (\<exists>fs n. w' = w\<lparr>rt_faults := fs, rt_ticks := n, br_catalogs := (br_catalogs w)(cat_StoreID c \<mapsto> c)\<rparr>)"
  "PublishCatalog d w = (Inl e, w') \<Longrightarrow> same_registry w w'"
  by (auto simp: PublishCatalog_def bindM_Inr bindM_Inl failM_Inl WallNow_eq modM_eq Let_def same_registry_def
      split: if_splits dest!: mapErr_external_Inr mapErr_external_Inl) force+

lemmas brand_results = op_results checked_eq Now_eq WallNow_eq modM_eq

lemma ActivateLicense_ok:
  assumes "ActivateLicense license store w = (Inr l, w')"
  shows "\<exists>now. l = license\<lparr>lic_Status := LicenseActive, lic_Version := wrap64 (lic_Version license + 1)\<rparr>
    \<and> ValidateThreeStoreModel store = None \<and> ValidateLogoVersion license store = None \<and> ValidateMenuBrandName store = None
    \<and> ValidateLicenseAt l store now = None \<and> now = rt_clock w (rt_ticks w)
    \<and> (case br_licenses w (lic_ID license) of None \<Rightarrow> True | Some c \<Rightarrow> lic_Version c = lic_Version license)
    \<and> br_licenses w' = (br_licenses w)(lic_ID license \<mapsto> l) \<and> br_inspections w' = br_inspections w
    \<and> br_catalogs w' = br_catalogs w"
  using assms
  by (auto simp: ActivateLicense_def Let_def brand_results ValidateLicenseAt_None split: option.splits dest!: SaveLicense_ok)

lemma ActivateLicense_failed: "ActivateLicense license store w = (Inl e, w') \<Longrightarrow> same_registry w w'"
  by (auto simp: ActivateLicense_def Let_def brand_results same_registry_def split: option.splits dest!: SaveLicense_failed)

lemma renew_read_ok:
  assumes "renew_read k store extension r w = (Inr l, w')"
  shows "\<exists>old now. r = Some old \<and> 0 < extension \<and> CanRenewLicense old store now = None \<and> now = rt_clock w (rt_ticks w)
    \<and> l = old\<lparr>lic_EffectiveTo := lic_EffectiveTo old + extension, lic_Version := wrap64 (lic_Version old + 1)\<rparr>
    \<and> br_licenses w' = (br_licenses w)(lic_ID old \<mapsto> l) \<and> br_inspections w' = br_inspections w
    \<and> br_catalogs w' = br_catalogs w"
  using assms
  by (auto simp: renew_read_def Add_def Let_def brand_results split: option.splits if_splits dest!: SaveLicense_ok)

lemma renew_read_failed: "renew_read k store extension r w = (Inl e, w') \<Longrightarrow> same_registry w w'"
  by (auto simp: renew_read_def Let_def brand_results same_registry_def split: option.splits if_splits
      dest!: SaveLicense_failed)

lemma CompleteInspection_ok:
  assumes "CompleteInspection i pass w = (Inr j, w')"
  shows "\<exists>score passed. ins_StartedAt i \<le> ins_CompletedAt i \<and> ins_CompletedAt i \<le> rt_clock w (rt_ticks w)
    \<and> CalculateInspection (ins_Sections i) pass = Inr (score, passed)
    \<and> j = i\<lparr>ins_Score := score, ins_Passed := passed, ins_Version := wrap64 (ins_Version i + 1)\<rparr>
    \<and> br_inspections w' = (br_inspections w)(ins_ID i \<mapsto> j) \<and> br_licenses w' = br_licenses w
    \<and> br_catalogs w' = br_catalogs w"
  using assms
  by (auto simp: CompleteInspection_def Let_def brand_results Before_def After_def split: if_splits prod.splits
      dest!: SaveInspection_ok sym [of "Inr _" "CalculateInspection _ _"])

lemma CompleteInspection_failed: "CompleteInspection i pass w = (Inl e, w') \<Longrightarrow> same_registry w w'"
  by (auto simp: CompleteInspection_def Let_def brand_results same_registry_def split: if_splits prod.splits
      dest!: SaveInspection_failed)

lemma PublishStoreCatalog_ok:
  assumes "PublishStoreCatalog store license listings lots w = (Inr c, w')"
  shows "ValidateLicenseAt license store (rt_clock w (rt_ticks w)) = None \<and> cat_StoreID c = sto_ID store
    \<and> sto_ID store \<noteq> '''' \<and> cat_Listings c = listings \<and> list_all (\<lambda>l. listing_error store lots l = None) listings
    \<and> br_catalogs w' = (br_catalogs w)(sto_ID store \<mapsto> c) \<and> br_licenses w' = br_licenses w
    \<and> br_inspections w' = br_inspections w"
  using assms
  by (auto simp: PublishStoreCatalog_def Let_def brand_results list_all_iff split: if_splits option.splits
      dest!: PublishCatalog_eq(1))

lemma PublishStoreCatalog_failed: "PublishStoreCatalog store license listings lots w = (Inl e, w') \<Longrightarrow> same_registry w w'"
  by (auto simp: PublishStoreCatalog_def Let_def brand_results same_registry_def split: if_splits option.splits
      dest!: PublishCatalog_eq(2))

lemma external_same_registry: "keeps same_registry (external :: (err, 'a brand_scheme, unit) op)"
  by (rule keepsI) (auto simp: same_registry_def elim!: external_cases)

lemma Now_same_registry: "keeps same_registry (Now :: (err, 'a brand_scheme, time) op)"
  by (rule keepsI) (simp add: Now_eq same_registry_def)

lemma checked_same_registry: "keeps same_registry (checked c)"
  by (rule keepsI) (simp add: checked_eq same_registry_def)

lemmas reads_only = same_registry.keeps_all external_same_registry Now_same_registry checked_same_registry

lemma LaunchCampaign_same: "keeps same_registry (LaunchCampaign campaign store license)"
  unfolding LaunchCampaign_def Catalog_def by (intro reads_only)

lemma CloseRecall_same: "keeps same_registry (CloseRecall recall)"
  unfolding CloseRecall_def by (intro reads_only)

lemma LicenseRegions_same: "keeps same_registry (LicenseRegions k)"
  unfolding LicenseRegions_def License_def by (intro reads_only)

text \<open>
  C34: Activating a license. It succeeds only for a store that combines the three functions, shows
  the licensed logo and the right name, and a license that names this store and its owner, covers
  its city and the moment, and is not older than what is stored; then exactly that license is
  stored, active and with the next version. A failure changes nothing in the registry.
\<close>

theorem ActivateLicense_outcome:
  "case ActivateLicense license store w of
     (Inl e, w') \<Rightarrow> same_registry w w'
   | (Inr l, w') \<Rightarrow> l = license\<lparr>lic_Status := LicenseActive, lic_Version := wrap64 (lic_Version license + 1)\<rparr>
       \<and> sto_DiningEnabled store \<and> sto_SpecialtyRetailEnabled store \<and> sto_CultureDisplayEnabled store
       \<and> Fields (sto_MenuBrandName store) \<noteq> [] \<and> Join_with '' '' (Fields (sto_MenuBrandName store)) = qinghai_noodles
       \<and> 0 < lic_LogoVersion l \<and> sto_DisplayedLogoVersion store = lic_LogoVersion l
       \<and> lic_StoreID l = sto_ID store \<and> lic_OwnerID l = sto_OwnerID store \<and> sto_CityCode store \<in> set (lic_RegionCodes l)
       \<and> lic_EffectiveFrom l \<le> rt_clock w (rt_ticks w) \<and> rt_clock w (rt_ticks w) < lic_EffectiveTo l
       \<and> map_option lic_Version (br_licenses w (lic_ID license)) \<in> {None, Some (lic_Version license)}
       \<and> br_licenses w' = (br_licenses w)(lic_ID license \<mapsto> l) \<and> br_inspections w' = br_inspections w
       \<and> br_catalogs w' = br_catalogs w"
proof (cases "ActivateLicense license store w")
  case (Pair r w')
  show ?thesis
  proof (cases r)
    case (Inl e)
    with Pair ActivateLicense_failed show ?thesis by auto
  next
    case (Inr l)
    have "Join_with '' '' [] \<noteq> qinghai_noodles" by (simp add: qinghai_noodles_def)
    then have name: "ValidateMenuBrandName store = None \<Longrightarrow> Fields (sto_MenuBrandName store) \<noteq> []
        \<and> Join_with '' '' (Fields (sto_MenuBrandName store)) = qinghai_noodles"
      by (auto simp: ValidateMenuBrandName_def Let_def split: if_splits)
    from Pair Inr ActivateLicense_ok [of license store w l w'] name show ?thesis
      by (auto simp: ValidateThreeStoreModel_None ValidateLogoVersion_None ValidateLicenseAt_None split: option.splits)
  qed
qed

section \<open>The registry as the service leaves it\<close>

definition all_entries :: "('k \<Rightarrow> 'v \<Rightarrow> bool) \<Rightarrow> ('k \<rightharpoonup> 'v) \<Rightarrow> bool" where
  "all_entries P M \<longleftrightarrow> (\<forall>k v. M k = Some v \<longrightarrow> P k v)"

lemma all_entries_upd: "all_entries P M \<Longrightarrow> P k v \<Longrightarrow> all_entries P (M(k \<mapsto> v))"
  by (simp add: all_entries_def)

lemma all_entriesD: "all_entries P M \<Longrightarrow> M k = Some v \<Longrightarrow> P k v"
  by (simp add: all_entries_def)

text \<open>
  What the registry's own methods have been given directly. They check versions, and a catalog's
  store and time, but not the rules of the service; \<open>TestRegistryHonorsCancellationAndIsolation\<close>
  saves a license without a term in this way.
\<close>

datatype put = PutLicense BrandLicense | PutInspection Inspection | PutCatalog CatalogSnapshot

definition license_ok :: "put set \<Rightarrow> string \<Rightarrow> BrandLicense \<Rightarrow> bool" where
  "license_ok direct k l \<longleftrightarrow> lic_ID l = k
     \<and> (k \<noteq> '''' \<and> lic_Status l = LicenseActive \<and> lic_EffectiveFrom l < lic_EffectiveTo l
        \<or> (\<exists>d. PutLicense d \<in> direct \<and> l = d\<lparr>lic_EffectiveTo := lic_EffectiveTo l, lic_Version := lic_Version l\<rparr>))"

definition inspection_ok :: "put set \<Rightarrow> string \<Rightarrow> Inspection \<Rightarrow> bool" where
  "inspection_ok direct k i \<longleftrightarrow> ins_ID i = k
     \<and> (ins_StartedAt i \<le> ins_CompletedAt i
          \<and> (\<exists>mark. CalculateInspection (ins_Sections i) mark = Inr (ins_Score i, ins_Passed i))
        \<or> (\<exists>d. PutInspection d \<in> direct \<and> i = d\<lparr>ins_Version := ins_Version i\<rparr>))"

definition catalog_ok :: "put set \<Rightarrow> string \<Rightarrow> CatalogSnapshot \<Rightarrow> bool" where
  "catalog_ok direct k c \<longleftrightarrow> cat_StoreID c = k \<and> k \<noteq> ''''
     \<and> (list_all (\<lambda>l. lst_StoreID l = k \<and> ValidateListingPrices l = None \<and> lst_OriginRegion l \<noteq> ''''
          \<and> lst_IngredientLotIDs l \<noteq> []) (cat_Listings c)
        \<or> PutCatalog c \<in> direct)"

definition brand_sound :: "put set \<Rightarrow> 'a brand_scheme \<Rightarrow> bool" where
  "brand_sound direct w \<longleftrightarrow> all_entries (license_ok direct) (br_licenses w)
     \<and> all_entries (inspection_ok direct) (br_inspections w) \<and> all_entries (catalog_ok direct) (br_catalogs w)"

definition reads_sound :: "put set \<Rightarrow> BrandLicense option set \<Rightarrow> bool" where
  "reads_sound direct reads \<longleftrightarrow> (\<forall>l. Some l \<in> reads \<longrightarrow> license_ok direct (lic_ID l) l)"

lemma brand_sound_same: "same_registry w w' \<Longrightarrow> brand_sound direct w \<Longrightarrow> brand_sound direct w'"
  by (simp add: brand_sound_def same_registry_def)

lemma all_entries_mono: "all_entries P M \<Longrightarrow> (\<And>k v. P k v \<Longrightarrow> Q k v) \<Longrightarrow> all_entries Q M"
  by (simp add: all_entries_def)

lemma more_direct:
  "license_ok direct k l \<Longrightarrow> license_ok (insert p direct) k l"
  "inspection_ok direct k i \<Longrightarrow> inspection_ok (insert p direct) k i"
  "catalog_ok direct k c \<Longrightarrow> catalog_ok (insert p direct) k c"
  by (auto simp: license_ok_def inspection_ok_def catalog_ok_def)

lemma more_direct_sound: "brand_sound direct w \<Longrightarrow> brand_sound (insert p direct) w"
  "reads_sound direct reads \<Longrightarrow> reads_sound (insert p direct) reads"
  by (auto simp: brand_sound_def reads_sound_def intro: more_direct elim!: all_entries_mono)

text \<open>
  The runs of the registry, with the values put into it directly and the licenses that have been
  read. Every method of the registry and of the service is a step. A renewal is two steps, with
  anything in between: \<open>read\<close> looks a license up, and \<open>renew\<close> works on a license that some read
  has found, now or earlier.
\<close>

inductive brand_run :: "put set \<Rightarrow> BrandLicense option set \<Rightarrow> brand \<Rightarrow> bool" where
  start: "brand_run {} {} (NewRegistry rt)"
| save_license: "brand_run direct reads w \<Longrightarrow> SaveLicense license v w = (u, w') \<Longrightarrow>
     brand_run (insert (PutLicense license) direct) reads w'"
| save_inspection: "brand_run direct reads w \<Longrightarrow> SaveInspection i v w = (u, w') \<Longrightarrow>
     brand_run (insert (PutInspection i) direct) reads w'"
| publish_catalog: "brand_run direct reads w \<Longrightarrow> PublishCatalog c w = (u, w') \<Longrightarrow>
     brand_run (insert (PutCatalog c) direct) reads w'"
| read: "brand_run direct reads w \<Longrightarrow> License k w = (Inr found, w') \<Longrightarrow> brand_run direct (insert found reads) w'"
| read_failed: "brand_run direct reads w \<Longrightarrow> License k w = (Inl e, w') \<Longrightarrow> brand_run direct reads w'"
| read_catalog: "brand_run direct reads w \<Longrightarrow> Catalog k w = (c', w') \<Longrightarrow> brand_run direct reads w'"
| activate: "brand_run direct reads w \<Longrightarrow> ActivateLicense license store w = (r, w') \<Longrightarrow> brand_run direct reads w'"
| renew: "brand_run direct reads w \<Longrightarrow> found \<in> reads \<Longrightarrow> renew_read k store extension found w = (r, w') \<Longrightarrow>
     brand_run direct reads w'"
| inspect: "brand_run direct reads w \<Longrightarrow> CompleteInspection i mark w = (r1, w') \<Longrightarrow> brand_run direct reads w'"
| publish: "brand_run direct reads w \<Longrightarrow> PublishStoreCatalog store license listings lots w = (r2, w') \<Longrightarrow>
     brand_run direct reads w'"
| launch: "brand_run direct reads w \<Longrightarrow> LaunchCampaign campaign store license w = (r3, w') \<Longrightarrow> brand_run direct reads w'"
| close: "brand_run direct reads w \<Longrightarrow> CloseRecall recall w = (r4, w') \<Longrightarrow> brand_run direct reads w'"
| regions: "brand_run direct reads w \<Longrightarrow> LicenseRegions k w = (r5, w') \<Longrightarrow> brand_run direct reads w'"
| environment: "brand_run direct reads w \<Longrightarrow> w' = w\<lparr>rt_clock := clock, rt_wall := wall, rt_faults := faults\<rparr> \<Longrightarrow>
     brand_run direct reads w'"

lemma renewal_in_two:
  assumes "brand_run direct reads w" "RenewLicense k store extension w = (r, w')"
  shows "\<exists>reads'. brand_run direct reads' w'"
proof -
  obtain x w1 where x: "License k w = (x, w1)" by (cases "License k w")
  show ?thesis
  proof (cases x)
    case (Inl e)
    with assms(2) x have "w' = w1" by (simp add: RenewLicense_def bindM_def)
    with brand_run.read_failed [OF assms(1)] x Inl show ?thesis by blast
  next
    case (Inr found)
    with assms(2) x have "renew_read k store extension found w1 = (r, w')" by (simp add: RenewLicense_def bindM_def)
    with brand_run.read [OF assms(1)] x Inr show ?thesis by (blast intro: brand_run.renew)
  qed
qed

lemma put_license_sound: "SaveLicense license v w = (u, w') \<Longrightarrow> brand_sound direct w \<Longrightarrow>
    brand_sound (insert (PutLicense license) direct) w'"
proof (cases u)
  case (Inr x)
  assume "SaveLicense license v w = (u, w')" and ok: "brand_sound direct w"
  with Inr SaveLicense_ok [of license v w w']
  obtain fs where w': "w' = w\<lparr>rt_faults := fs, br_licenses := (br_licenses w)(lic_ID license \<mapsto>
      license\<lparr>lic_Version := wrap64 (v + 1)\<rparr>)\<rparr>" by auto
  have "license_ok (insert (PutLicense license) direct) (lic_ID license) (license\<lparr>lic_Version := wrap64 (v + 1)\<rparr>)"
    by (auto simp: license_ok_def intro!: exI [of _ license])
  with more_direct_sound(1) [OF ok] w' show ?thesis by (auto simp: brand_sound_def intro: all_entries_upd)
next
  case (Inl e)
  assume "SaveLicense license v w = (u, w')" and ok: "brand_sound direct w"
  with Inl SaveLicense_failed have "same_registry w w'" by (force simp: same_registry_def)
  with more_direct_sound(1) [OF ok] show ?thesis by (rule brand_sound_same [rotated])
qed

lemma put_inspection_sound: "SaveInspection i v w = (u, w') \<Longrightarrow> brand_sound direct w \<Longrightarrow>
    brand_sound (insert (PutInspection i) direct) w'"
proof (cases u)
  case (Inr x)
  assume "SaveInspection i v w = (u, w')" and ok: "brand_sound direct w"
  with Inr SaveInspection_ok [of i v w w']
  obtain fs where w': "w' = w\<lparr>rt_faults := fs, br_inspections := (br_inspections w)(ins_ID i \<mapsto>
      i\<lparr>ins_Version := wrap64 (v + 1)\<rparr>)\<rparr>" by auto
  have "inspection_ok (insert (PutInspection i) direct) (ins_ID i) (i\<lparr>ins_Version := wrap64 (v + 1)\<rparr>)"
    by (auto simp: inspection_ok_def intro!: exI [of _ i])
  with more_direct_sound(1) [OF ok] w' show ?thesis by (auto simp: brand_sound_def intro: all_entries_upd)
next
  case (Inl e)
  assume "SaveInspection i v w = (u, w')" and ok: "brand_sound direct w"
  with Inl SaveInspection_failed have "same_registry w w'" by (force simp: same_registry_def)
  with more_direct_sound(1) [OF ok] show ?thesis by (rule brand_sound_same [rotated])
qed

lemma put_catalog_sound: "PublishCatalog c w = (u, w') \<Longrightarrow> brand_sound direct w \<Longrightarrow>
    brand_sound (insert (PutCatalog c) direct) w'"
proof (cases u)
  case (Inr x)
  assume "PublishCatalog c w = (u, w')" and ok: "brand_sound direct w"
  with Inr PublishCatalog_eq(1) [of c w x w'] obtain fs n where w': "cat_StoreID c \<noteq> ''''"
    "w' = w\<lparr>rt_faults := fs, rt_ticks := n, br_catalogs := (br_catalogs w)(cat_StoreID c \<mapsto> c)\<rparr>" by auto
  then have "catalog_ok (insert (PutCatalog c) direct) (cat_StoreID c) c" by (simp add: catalog_ok_def)
  with more_direct_sound(1) [OF ok] w' show ?thesis by (auto simp: brand_sound_def intro: all_entries_upd)
next
  case (Inl e)
  assume "PublishCatalog c w = (u, w')" and ok: "brand_sound direct w"
  with Inl have "same_registry w w'" by (auto dest: PublishCatalog_eq(2))
  with more_direct_sound(1) [OF ok] show ?thesis by (rule brand_sound_same [rotated])
qed

lemma read_same: "License k w = (x, w') \<Longrightarrow> same_registry w w'"
  by (cases x) (auto simp: same_registry_def dest!: License_eq)

lemma read_catalog_same: "Catalog k w = (x, w') \<Longrightarrow> same_registry w w'"
  by (cases x) (auto simp: same_registry_def dest!: Catalog_eq)

lemma read_sound: "License k w = (Inr found, w') \<Longrightarrow> brand_sound direct w \<Longrightarrow> reads_sound direct reads \<Longrightarrow>
    reads_sound direct (insert found reads)"
proof -
  assume "License k w = (Inr found, w')" "brand_sound direct w" and reads: "reads_sound direct reads"
  then have "license_ok direct k l" if "found = Some l" for l
    using that License_eq(1) [of k w found w'] by (auto simp: brand_sound_def dest: all_entriesD [OF _ sym])
  moreover have "license_ok direct k l \<Longrightarrow> lic_ID l = k" for l by (simp add: license_ok_def)
  ultimately show ?thesis using reads unfolding reads_sound_def by blast
qed

lemma activate_sound: "ActivateLicense license store w = (r, w') \<Longrightarrow> brand_sound direct w \<Longrightarrow> brand_sound direct w'"
proof (cases r)
  case (Inr l)
  assume "ActivateLicense license store w = (r, w')" and ok: "brand_sound direct w"
  with Inr have run: "br_licenses w' = (br_licenses w)(lic_ID license \<mapsto> l)" "br_inspections w' = br_inspections w"
    "br_catalogs w' = br_catalogs w" and "license_ok direct (lic_ID license) l"
    using ActivateLicense_ok [of license store w l w'] by (auto simp: ValidateLicenseAt_None license_ok_def)
  with ok show ?thesis by (simp add: brand_sound_def all_entries_upd)
qed (auto dest: ActivateLicense_failed intro: brand_sound_same)

lemma renewed_ok:
  assumes "license_ok direct k l" "0 < x"
  shows "license_ok direct k (l\<lparr>lic_EffectiveTo := lic_EffectiveTo l + x, lic_Version := v\<rparr>)" (is "license_ok direct k ?l")
proof (cases "\<exists>d. PutLicense d \<in> direct \<and> l = d\<lparr>lic_EffectiveTo := lic_EffectiveTo l, lic_Version := lic_Version l\<rparr>")
  case True
  then obtain d where d: "PutLicense d \<in> direct"
    and l: "l = d\<lparr>lic_EffectiveTo := lic_EffectiveTo l, lic_Version := lic_Version l\<rparr>" by blast
  have "?l = d\<lparr>lic_EffectiveTo := lic_EffectiveTo ?l, lic_Version := lic_Version ?l\<rparr>"
    by (subst l) simp
  moreover have "lic_ID ?l = k" using assms(1) by (simp add: license_ok_def)
  ultimately show ?thesis using d unfolding license_ok_def by blast
next
  case False
  with assms show ?thesis by (auto simp: license_ok_def)
qed

lemma renew_sound: "renew_read k store extension found w = (r, w') \<Longrightarrow> found \<in> reads \<Longrightarrow> reads_sound direct reads \<Longrightarrow>
    brand_sound direct w \<Longrightarrow> brand_sound direct w'"
proof (cases r)
  case (Inr l)
  assume "renew_read k store extension found w = (r, w')" "found \<in> reads" "reads_sound direct reads" and ok: "brand_sound direct w"
  with Inr renew_read_ok [of k store extension found w l w'] obtain old where old: "license_ok direct (lic_ID old) old"
    "0 < extension" "l = old\<lparr>lic_EffectiveTo := lic_EffectiveTo old + extension, lic_Version := wrap64 (lic_Version old + 1)\<rparr>"
    "br_licenses w' = (br_licenses w)(lic_ID old \<mapsto> l)" "br_inspections w' = br_inspections w" "br_catalogs w' = br_catalogs w"
    by (auto simp: reads_sound_def)
  from renewed_ok [OF old(1,2)] ok old show ?thesis by (simp add: brand_sound_def all_entries_upd)
qed (auto dest: renew_read_failed intro: brand_sound_same)

lemma inspect_sound: "CompleteInspection i mark w = (r, w') \<Longrightarrow> brand_sound direct w \<Longrightarrow> brand_sound direct w'"
proof (cases r)
  case (Inr j)
  assume "CompleteInspection i mark w = (r, w')" and ok: "brand_sound direct w"
  with Inr have "br_inspections w' = (br_inspections w)(ins_ID i \<mapsto> j)" "br_licenses w' = br_licenses w"
    "br_catalogs w' = br_catalogs w" and "inspection_ok direct (ins_ID i) j"
    using CompleteInspection_ok [of i mark w j w'] by (auto simp: inspection_ok_def)
  with ok show ?thesis by (simp add: brand_sound_def all_entries_upd)
qed (auto dest: CompleteInspection_failed intro: brand_sound_same)

lemma listing_error_None: "listing_error store lots l = None \<Longrightarrow> lst_StoreID l = sto_ID store \<and> ValidateListingPrices l = None
    \<and> lst_OriginRegion l \<noteq> '''' \<and> lst_IngredientLotIDs l \<noteq> []"
  by (auto simp: listing_error_def ValidateHighlandProduct_def split: if_splits)

lemma publish_sound: "PublishStoreCatalog store license listings lots w = (r, w') \<Longrightarrow> brand_sound direct w \<Longrightarrow> brand_sound direct w'"
proof (cases r)
  case (Inr c)
  assume run: "PublishStoreCatalog store license listings lots w = (r, w')" and ok: "brand_sound direct w"
  with Inr PublishStoreCatalog_ok [of store license listings lots w c w']
  have c: "cat_StoreID c = sto_ID store" "sto_ID store \<noteq> ''''" "cat_Listings c = listings"
    "list_all (\<lambda>l. listing_error store lots l = None) listings" "br_catalogs w' = (br_catalogs w)(sto_ID store \<mapsto> c)"
    "br_licenses w' = br_licenses w" "br_inspections w' = br_inspections w" by auto
  have "list_all (\<lambda>l. lst_StoreID l = sto_ID store \<and> ValidateListingPrices l = None \<and> lst_OriginRegion l \<noteq> ''''
      \<and> lst_IngredientLotIDs l \<noteq> []) listings"
    using c(4) by (rule list.pred_mono_strong) (rule listing_error_None)
  with c have "catalog_ok direct (sto_ID store) c" by (simp add: catalog_ok_def)
  with ok c show ?thesis by (simp add: brand_sound_def all_entries_upd)
qed (auto dest: PublishStoreCatalog_failed intro: brand_sound_same)

lemma run_sound: "brand_run direct reads w \<Longrightarrow> brand_sound direct w \<and> reads_sound direct reads"
proof (induction rule: brand_run.induct)
  case (start rt)
  then show ?case
    by (simp add: brand_sound_def reads_sound_def NewRegistry_def brand.defs runtime.defs all_entries_def)
next
  case (environment direct reads w w' clock wall faults)
  then show ?case by (simp add: brand_sound_def)
qed (blast intro: put_license_sound put_inspection_sound put_catalog_sound more_direct_sound(2) read_sound
      brand_sound_same [OF read_same] brand_sound_same [OF read_catalog_same]
      activate_sound renew_sound inspect_sound publish_sound
      brand_sound_same [OF keepsD [OF LaunchCampaign_same]] brand_sound_same [OF keepsD [OF CloseRecall_same]]
      brand_sound_same [OF keepsD [OF LicenseRegions_same]])+

text \<open>
  C35: What the brand registry holds has been checked, or was put there directly. Calls of the
  registry and of the service may come in any order, and others may come between the two halves of
  a renewal. A stored license is under its own identifier, and it is active with a non-empty term,
  unless it was given to the registry's own \<open>SaveLicense\<close>; then it is what was given, up to its
  version and to an end of the term that renewals have moved. A stored inspection carries the score
  and the verdict of its own sections, or is what \<open>SaveInspection\<close> was given, up to its version.
  Every product of a published catalog belongs to the store, names its origin and its lots and has
  prices that the rule accepts, or the catalog is what \<open>PublishCatalog\<close> was given.
\<close>

theorem stored_is_checked:
  assumes "brand_run direct reads w"
  shows "(br_licenses w k = Some l \<longrightarrow> lic_ID l = k
        \<and> (lic_Status l = LicenseActive \<and> lic_EffectiveFrom l < lic_EffectiveTo l
           \<or> (\<exists>d. PutLicense d \<in> direct \<and> l = d\<lparr>lic_EffectiveTo := lic_EffectiveTo l, lic_Version := lic_Version l\<rparr>)))
    \<and> (br_inspections w k = Some i \<longrightarrow> ins_ID i = k
        \<and> ((\<exists>mark. CalculateInspection (ins_Sections i) mark = Inr (ins_Score i, ins_Passed i))
           \<or> (\<exists>d. PutInspection d \<in> direct \<and> i = d\<lparr>ins_Version := ins_Version i\<rparr>)))
    \<and> (br_catalogs w k = Some c \<longrightarrow> cat_StoreID c = k \<and> k \<noteq> ''''
        \<and> ((\<forall>p \<in> set (cat_Listings c). lst_StoreID p = k \<and> ValidateListingPrices p = None
              \<and> lst_OriginRegion p \<noteq> '''' \<and> lst_IngredientLotIDs p \<noteq> [])
           \<or> PutCatalog c \<in> direct))"
proof -
  from run_sound [OF assms] have "all_entries (license_ok direct) (br_licenses w)"
    "all_entries (inspection_ok direct) (br_inspections w)" "all_entries (catalog_ok direct) (br_catalogs w)"
    by (auto simp: brand_sound_def)
  then have "br_licenses w k = Some l \<Longrightarrow> license_ok direct k l" "br_inspections w k = Some i \<Longrightarrow> inspection_ok direct k i"
    "br_catalogs w k = Some c \<Longrightarrow> catalog_ok direct k c"
    by (auto dest: all_entriesD)
  then show ?thesis unfolding license_ok_def inspection_ok_def catalog_ok_def list_all_iff by blast
qed

definition sample_inspection :: Inspection where
  "sample_inspection = \<lparr>ins_ID = ''i1'', ins_StoreID = ''s1'', ins_InspectorID = ''u'', ins_StartedAt = 10, ins_CompletedAt = 20,
     ins_StandardVersion = 1, ins_Sections = sample_sections, ins_Score = 0, ins_Passed = False, ins_Version = 0\<rparr>"

lemma sample_brand_new: "sample_brand = NewRegistry (runtime.truncate sample_brand)"
  by (simp add: sample_brand_def NewRegistry_def brand.defs runtime.defs)

lemma CompleteInspection_sample:
  "\<exists>j w'. CompleteInspection sample_inspection 80 sample_brand = (Inr j, w') \<and> br_inspections w' ''i1'' = Some j \<and> ins_Score j = 82"
proof -
  have "CalculateInspection sample_sections 80 = Inr (82, True)" by code_simp
  then show ?thesis
    by (simp add: CompleteInspection_def sample_inspection_def sample_brand_def Before_def After_def SaveInspection_def
        bindM_def mapErr_def external_def Now_def liftE_def getM_def modM_def retM_def Let_def)
qed

theorem stored_is_checked_witness:
  "\<exists>w i mark. brand_run {} {} w \<and> br_inspections w ''i1'' = Some i \<and> ins_Score i = 82
     \<and> CalculateInspection (ins_Sections i) mark = Inr (82, ins_Passed i)"
proof -
  obtain j w where j: "CompleteInspection sample_inspection 80 sample_brand = (Inr j, w)" "br_inspections w ''i1'' = Some j"
    "ins_Score j = 82" using CompleteInspection_sample by blast
  have "brand_run {} {} sample_brand" by (subst sample_brand_new) (rule brand_run.start)
  then have "brand_run {} {} w" using j(1) by (rule brand_run.inspect)
  with stored_is_checked [OF this, of "''i1''"] j(2,3) show ?thesis by (metis empty_iff)
qed

definition sample_license :: "int \<Rightarrow> BrandLicense" where
  "sample_license v = \<lparr>lic_ID = ''b1'', lic_StoreID = ''s1'', lic_OwnerID = ''o1'', lic_RegionCodes = [''TJ''], lic_LogoVersion = 3,
     lic_StandardVersion = 2, lic_Status = LicenseActive, lic_EffectiveFrom = 0, lic_EffectiveTo = 1000, lic_LastInspectionID = '''',
     lic_LastInspectionPass = True, lic_OutstandingActions = 0, lic_Version = v\<rparr>"

lemma SaveLicense_sample:
  "\<exists>w. SaveLicense (sample_license 0) 4 (sample_brand\<lparr>br_licenses := [''b1'' \<mapsto> sample_license 4]\<rparr>) = (Inr (), w)"
  by (simp add: SaveLicense_def sample_license_def sample_brand_def bindM_def mapErr_def external_def getM_def modM_def)

lemma direct_save_unchecked:
  "\<exists>w l. brand_run {PutLicense ((sample_license 0)\<lparr>lic_Status := LicenseSuspended, lic_EffectiveTo := 0\<rparr>)} {} w
     \<and> br_licenses w ''b1'' = Some l \<and> lic_Status l = LicenseSuspended \<and> lic_EffectiveTo l = lic_EffectiveFrom l"
proof -
  define l where "l = (sample_license 0)\<lparr>lic_Status := LicenseSuspended, lic_EffectiveTo := 0\<rparr>"
  have run: "SaveLicense l 0 sample_brand = (Inr (), sample_brand\<lparr>br_licenses := [''b1'' \<mapsto> l\<lparr>lic_Version := wrap64 1\<rparr>]\<rparr>)"
    by (simp add: SaveLicense_def l_def sample_license_def sample_brand_def bindM_def mapErr_def external_def getM_def modM_def)
  have "brand_run {} {} sample_brand" by (subst sample_brand_new) (rule brand_run.start)
  from brand_run.save_license [OF this run] show ?thesis
    by (intro exI conjI) (auto simp: l_def sample_license_def)
qed

theorem no_lost_update_witness:
  "\<exists>w e w'. SaveLicense (sample_license 0) 4 (sample_brand\<lparr>br_licenses := [''b1'' \<mapsto> sample_license 4]\<rparr>) = (Inr (), w)
     \<and> SaveLicense (sample_license 7) 4 w = (Inl e, w')"
proof -
  obtain w where w: "SaveLicense (sample_license 0) 4 (sample_brand\<lparr>br_licenses := [''b1'' \<mapsto> sample_license 4]\<rparr>) = (Inr (), w)"
    using SaveLicense_sample by blast
  have "\<exists>e w''. SaveLicense (sample_license 7) (lic_Version (sample_license 4)) w = (Inl e, w'') \<and> br_licenses w'' = br_licenses w"
    by (rule no_lost_update [of "[(sample_license 0, 4)]" "sample_brand\<lparr>br_licenses := [''b1'' \<mapsto> sample_license 4]\<rparr>"])
       (use w in \<open>simp_all add: sample_license_def int64_def\<close>)
  with w show ?thesis by (auto simp: sample_license_def)
qed

end
