(* ===== verification/Go_Float_Value.thy ===== *)
theory Go_Float_Value
  imports Complex_Main Go_Float
begin

text \<open>
  The real numbers that the finite floating point values stand for, and that comparison and
  multiplication by eight mean on them what they should.
\<close>

section \<open>The values as real numbers\<close>

definition flt_val :: "bool \<Rightarrow> nat \<Rightarrow> int \<Rightarrow> real" where
  "flt_val neg m e = (if neg then - 1 else 1) * (real m * 2 powi e)"

lemma scaled_val: "k \<le> e \<Longrightarrow> real_of_int (scaled neg m e k) = flt_val neg m e / 2 powi k"
proof -
  assume "k \<le> e"
  then have "(2 :: real) ^ nat (e - k) = 2 powi (e - k)" by (simp add: power_int_def)
  also have "\<dots> = 2 powi e / 2 powi k" by (simp add: power_int_diff)
  finally show ?thesis by (simp add: scaled_def flt_val_def)
qed

lemma powi_pos: "\<not> 2 powi k < (0 :: real)" "\<not> 2 powi k \<le> (0 :: real)"
  by (simp_all add: not_less not_le less_imp_le)

lemma flt_less_finite: "flt_less (Finite n m e) (Finite n' m' e') \<longleftrightarrow> flt_val n m e < flt_val n' m' e'"
proof -
  let ?k = "min e e'"
  have "scaled n m e ?k < scaled n' m' e' ?k \<longleftrightarrow> flt_val n m e / 2 powi ?k < flt_val n' m' e' / 2 powi ?k"
    by (simp add: scaled_val [symmetric] del: divide_less_cancel)
  also have "\<dots> \<longleftrightarrow> flt_val n m e < flt_val n' m' e'"
    by (simp add: divide_less_cancel powi_pos)
  finally show ?thesis by (simp add: Let_def)
qed

lemma flt_le_zero_finite: "flt_le_zero (Finite n m e) \<longleftrightarrow> flt_val n m e \<le> 0"
  by (auto simp: flt_le_zero_def flt_val_def mult_le_0_iff zero_le_mult_iff powi_pos)

lemma flt_times8_finite: "flt_times8 (Finite n m e) = Finite n' m' e' \<Longrightarrow> flt_val n' m' e' = 8 * flt_val n m e"
  by (auto simp: flt_val_def power_int_add split: if_splits)

end
