(* ===== verification/Hub_Quality_Facts.thy ===== *)
theory Hub_Quality_Facts
  imports Go_Float_Value Hub_Brand
begin

text \<open>
  The rules of quality_policy.go on measured quantities, read as real numbers.
\<close>

definition bone_lot :: "lots \<Rightarrow> string \<Rightarrow> bool" where
  "bone_lot lots i \<longleftrightarrow> (case lots i of None \<Rightarrow> False
     | Some lot \<Rightarrow> lot_IngredientCode lot = ''yak-bone'' \<or> lot_IngredientCode lot = ''tibetan-sheep-bone'')"

lemma flt_val_add3: "flt_val n m (e + 3) = 8 * flt_val n m e"
  by (simp add: flt_val_def power_int_add)

lemma overflow_iff:
  "2 ^ nat (1024 - min (e + 3) 0) \<le> scaled False m (e + 3) (min (e + 3) 0) \<longleftrightarrow> 2 ^ 1024 \<le> 8 * flt_val False m e"
proof -
  let ?k = "min (e + 3) 0"
  have pow: "(2 :: real) ^ nat (1024 - ?k) = 2 ^ 1024 / 2 powi ?k"
  proof -
    have "(2 :: real) ^ nat (1024 - ?k) = 2 powi (1024 - ?k)" by (simp add: power_int_def)
    also have "\<dots> = 2 powi 1024 / 2 powi ?k" by (simp add: power_int_diff)
    finally show ?thesis by simp
  qed
  have "2 ^ nat (1024 - ?k) \<le> scaled False m (e + 3) ?k \<longleftrightarrow>
      (2 :: real) ^ nat (1024 - ?k) \<le> real_of_int (scaled False m (e + 3) ?k)"
    by (simp only: flip: of_int_le_iff [where 'a = real]) simp
  also have "\<dots> \<longleftrightarrow> 2 ^ 1024 / 2 powi ?k \<le> 8 * flt_val False m e / 2 powi ?k"
    by (simp only: pow scaled_val [of ?k "e + 3"] min.cobounded1 flt_val_add3)
  also have "\<dots> \<longleftrightarrow> 2 ^ 1024 \<le> 8 * flt_val False m e"
    by (rule divide_le_cancel [THEN trans]) (use powi_pos [of ?k] in auto)
  finally show ?thesis .
qed

lemma flt_val_pos: "0 < flt_val n m e \<Longrightarrow> \<not> n"
  by (auto simp: flt_val_def mult_less_0_iff zero_less_mult_iff powi_pos)

text \<open>
  A batch of broth with finite quantities (below \<open>2 ^ 1024\<close>, as all of them are) is accepted exactly when water and bones are
  positive, there is at least one kilogram of bones for eight litres of water, and every lot of
  bones is known and approved, of which there must be one.
\<close>

theorem broth_accepted:
  assumes "broth_WaterLiters b = Finite nw mw ew" "broth_BoneKilograms b = Finite nb mb eb"
    and "flt_val nw mw ew < 2 ^ 1024"
  shows "ValidateBrothBatch b lots = None \<longleftrightarrow> 0 < flt_val nw mw ew \<and> 0 < flt_val nb mb eb
    \<and> flt_val nw mw ew \<le> 8 * flt_val nb mb eb \<and> broth_BoneLotIDs b \<noteq> [] \<and> list_all (bone_lot lots) (broth_BoneLotIDs b)"
proof -
  have lots: "first_error (\<lambda>i. case lots i of
           None \<Rightarrow> Some (Detail ErrInvalidIngredient (''broth bone lot '' @ i @ '' is missing or not approved''))
         | Some lot \<Rightarrow> if lot_IngredientCode lot \<in> set [''yak-bone'', ''tibetan-sheep-bone''] then None
             else Some (Detail ErrInvalidIngredient (''broth bone lot '' @ i @ '' is missing or not approved'')))
         (broth_BoneLotIDs b) = None \<longleftrightarrow> list_all (bone_lot lots) (broth_BoneLotIDs b)"
    by (auto simp: list_all_iff bone_lot_def split: option.splits)
  show ?thesis
  proof (cases "0 < flt_val nw mw ew \<and> 0 < flt_val nb mb eb")
    case pos: True
    have "\<not> flt_less (flt_times8 (Finite nb mb eb)) (Finite nw mw ew) \<longleftrightarrow> flt_val nw mw ew \<le> 8 * flt_val nb mb eb"
    proof (cases "flt_times8 (Finite nb mb eb)")
      case (Inf x)
      then have "2 ^ 1024 \<le> 8 * flt_val False mb eb" "x = nb" by (auto simp: overflow_iff split: if_splits)
      moreover have "\<not> nb" using pos flt_val_pos by blast
      ultimately have "\<not> flt_less (Inf x) (Finite nw mw ew)" "flt_val nw mw ew \<le> 8 * flt_val nb mb eb"
        using assms(3) by simp_all
      with Inf show ?thesis by (simp only: simp_thms)
    next
      case (Finite x m e)
      then have "Finite x m e = Finite nb mb (eb + 3)" by (simp split: if_splits)
      with Finite show ?thesis by (simp only: flt_less_finite flt_val_add3 float64.inject not_less)
    next
      case NaN
      then show ?thesis by (simp split: if_splits)
    qed
    with pos lots assms show ?thesis by (auto simp: ValidateBrothBatch_def flt_le_zero_finite)
  next
    case False
    with assms show ?thesis by (auto simp: ValidateBrothBatch_def flt_le_zero_finite)
  qed
qed

definition sample_bone :: IngredientLot where
  "sample_bone = \<lparr>lot_ID = ''l1'', lot_SupplierID = ''s'', lot_IngredientCode = ''yak-bone'', lot_OriginRegion = ''q'',
     lot_CertificateID = ''c'', lot_ProducedAt = 0, lot_ExpiresAt = 10, lot_MinTemperature = flt_zero, lot_MaxTemperature = flt_zero,
     lot_Temperatures = [], lot_ParentLotIDs = []\<rparr>"

definition sample_broth :: BrothBatch where
  \<comment> \<open>eight litres of water on one kilogram of bones\<close>
  "sample_broth = \<lparr>broth_ID = ''b'', broth_StoreID = ''s1'', broth_BoneLotIDs = [''l1''], broth_WaterLiters = Finite False 1 3,
     broth_BoneKilograms = Finite False 1 0, broth_StartedAt = 0, broth_FinishedAt = 1, broth_StandardVersion = 1\<rparr>"

theorem broth_accepted_witness: "ValidateBrothBatch sample_broth [''l1'' \<mapsto> sample_bone] = None"
proof -
  have "ValidateBrothBatch sample_broth [''l1'' \<mapsto> sample_bone] = None \<longleftrightarrow> 0 < flt_val False 1 3 \<and> 0 < flt_val False 1 0
    \<and> flt_val False 1 3 \<le> 8 * flt_val False 1 0 \<and> broth_BoneLotIDs sample_broth \<noteq> []
    \<and> list_all (bone_lot [''l1'' \<mapsto> sample_bone]) (broth_BoneLotIDs sample_broth)"
    by (rule broth_accepted) (simp_all add: sample_broth_def flt_val_def)
  then show ?thesis by (simp add: flt_val_def sample_broth_def bone_lot_def sample_bone_def)
qed

text \<open>
  The cold chain. A lot is accepted exactly when it has readings, its limits are not the wrong
  way round and no reading compares as outside of them. For finite values that is what it should
  be; a reading that is not a number compares with nothing and is accepted.
\<close>

theorem cold_chain:
  "(ValidateColdChain lot = None \<longleftrightarrow> lot_Temperatures lot \<noteq> [] \<and> \<not> flt_less (lot_MaxTemperature lot) (lot_MinTemperature lot)
     \<and> list_all (\<lambda>r. \<not> flt_less r (lot_MinTemperature lot) \<and> \<not> flt_less (lot_MaxTemperature lot) r) (lot_Temperatures lot))
   \<and> (\<not> flt_less (Finite n m e) (Finite n' m' e') \<longleftrightarrow> flt_val n' m' e' \<le> flt_val n m e)
   \<and> (\<not> flt_less (lot_MaxTemperature lot) (lot_MinTemperature lot) \<longrightarrow>
        ValidateColdChain (lot\<lparr>lot_Temperatures := [NaN]\<rparr>) = None)"
proof -
  have "\<not> flt_less x NaN" for x by (cases x) simp_all
  then show ?thesis by (auto simp: ValidateColdChain_def list_all_iff flt_less_finite not_less simp del: flt_less.simps(5))
qed

theorem cold_chain_witness: "ValidateColdChain (sample_bone\<lparr>lot_Temperatures := [NaN]\<rparr>) = None"
proof -
  have "\<not> flt_less (lot_MaxTemperature sample_bone) (lot_MinTemperature sample_bone)"
    by (simp add: sample_bone_def flt_zero_def)
  with cold_chain [of sample_bone] show ?thesis by blast
qed

end
