(* ===== verification/Statement_Facts.thy ===== *)
theory Statement_Facts
  imports Statements
begin

text \<open>
  The tables of the theory Index and the statements on them are what the SQL of the program does on
  the tables that its scripts make: an index has an image in this database, and each statement and
  each query, run on the image, gives the image of what Index says.
\<close>

section \<open>The tables that the scripts make\<close>

definition empty_database :: database where
  "empty_database = \<lparr>dat_Tables = [], dat_Indexes = []\<rparr>"

definition failures_columns :: "column list" where
  "failures_columns = permanent_failures_columns @ [nullable ''next_retry_at'' TEXT, text_default ''backoff_state'' '''']"

definition made_tables :: "table list" where
  "made_tables = map (\<lambda>(n, cols). \<lparr>tb_Name = n, tb_Columns = cols, tb_Rows = []\<rparr>)
     [(''schema_version'', schema_version_columns), (''shard_manifest'', shard_manifest_columns),
      (''items'', items_columns), (''rules'', rules_columns), (''assignments'', assignments_columns),
      (''escalations'', escalations_columns), (''audit_entries'', audit_entries_columns),
      (''permanent_failures'', failures_columns),
      (''import_batches'', import_batches_columns)]"

lemmas columns_defs = schema_version_columns_def shard_manifest_columns_def items_columns_def rules_columns_def
  assignments_columns_def escalations_columns_def audit_entries_columns_def failures_columns_def permanent_failures_columns_def
  import_batches_columns_def

definition made_indexes :: "string list" where
  "made_indexes = [n. CreateIndex n t c \<leftarrow> init_script]"

lemma scripts_make:
  "exec_script (init_script @ retry_count_script) empty_database = Inr ((), \<lparr>dat_Tables = made_tables, dat_Indexes = made_indexes\<rparr>)"
  by code_simp

section \<open>The image of an index\<close>

definition rows_of :: "sql_row list \<Rightarrow> index \<Rightarrow> string \<Rightarrow> sql_row list" where
  \<comment> \<open>what each row gives to the columns; \<open>vs\<close> are the rows of schema_version\<close>
  "rows_of vs ix t =
     (if t = ''items'' then map (\<lambda>r. zip itemCols (item_values r)) (tab_items ix)
      else if t = ''rules'' then map (\<lambda>r. zip ruleCols (rule_values r)) (tab_rules ix)
      else if t = ''assignments'' then map (\<lambda>r. zip asgnCols (referral_values r)) (tab_assignments ix)
      else if t = ''escalations'' then map (\<lambda>r. zip escCols (escalation_values r)) (tab_escalations ix)
      else if t = ''audit_entries'' then map (\<lambda>r. zip auditCols (audit_values r)) (tab_audit_entries ix)
      else if t = ''permanent_failures'' then map (\<lambda>r. zip failCols (failure_values r)) (tab_permanent_failures ix)
      else if t = ''import_batches'' then map (\<lambda>r. zip batchCols (batch_values r)) (tab_import_batches ix)
      else if t = ''shard_manifest'' then map (\<lambda>r. zip manifestCols (manifest_values r)) (tab_shard_manifest ix)
      else if t = ''schema_version'' then vs else [])"

definition with_rows :: "sql_row list \<Rightarrow> index \<Rightarrow> table \<Rightarrow> table" where
  "with_rows vs ix t = t\<lparr>tb_Rows := map (complete_row (tb_Columns t)) (rows_of vs ix (tb_Name t))\<rparr>"

definition database_of :: "sql_row list \<Rightarrow> index \<Rightarrow> database" where
  "database_of vs ix = \<lparr>dat_Tables = map (with_rows vs ix) made_tables, dat_Indexes = made_indexes\<rparr>"

lemma empty_image: "database_of [] empty_index = \<lparr>dat_Tables = made_tables, dat_Indexes = made_indexes\<rparr>"
  by (simp add: database_of_def made_tables_def with_rows_def rows_of_def empty_index_def)

lemma with_rows_name [simp]: "tb_Name (with_rows vs ix t) = tb_Name t"
  by (simp add: with_rows_def)

lemma find_with_rows:
  "find_key tb_Name n (map (with_rows vs ix) ts) = map_option (with_rows vs ix) (find_key tb_Name n ts)"
  by (induction ts) auto

lemma complete_row_total:
  "col_Name ` set cols \<subseteq> fst ` set z \<Longrightarrow> complete_row cols z = map (\<lambda>c. (col_Name c, cell z (col_Name c))) cols"
  unfolding complete_row_def cell_def
proof (rule map_cong [OF refl])
  fix c assume "col_Name ` set cols \<subseteq> fst ` set z" "c \<in> set cols"
  then have "map_of z (col_Name c) \<noteq> None" by (simp add: map_of_eq_None_iff image_subset_iff)
  then show "(col_Name c, case map_of z (col_Name c) of None \<Rightarrow> col_Default c | Some v \<Rightarrow> v)
      = (col_Name c, case map_of z (col_Name c) of None \<Rightarrow> Null | Some v \<Rightarrow> v)" by auto
qed

lemma cell_named: "cell (map (\<lambda>c. (col_Name c, f (col_Name c))) cols) n = (if n \<in> col_Name ` set cols then f n else Null)"
  by (induction cols) (auto simp: cell_def)

lemma with_table_Inr:
  assumes "find_key tb_Name n made_tables = Some t" and "f (with_rows vs ix t) = Inr (r, with_rows vs ix' t)"
    and "\<And>m. m \<noteq> n \<Longrightarrow> rows_of vs ix' m = rows_of vs ix m"
  shows "with_table n f (database_of vs ix) = Inr (r, database_of vs ix')"
proof -
  have t: "tb_Name t = n" using assms(1) by (auto dest: find_key_Some)
  have "distinct (map tb_Name made_tables)" by (simp add: made_tables_def)
  then have "u = t" if "u \<in> set made_tables" "tb_Name u = n" for u
    using that assms(1) t by (metis find_key_distinct option.inject)
  then have "update_where (\<lambda>y. tb_Name y = n) (\<lambda>_. with_rows vs ix' t) (map (with_rows vs ix) made_tables)
      = map (with_rows vs ix') made_tables"
    using assms(3) by (auto simp: update_where_def with_rows_def)
  with assms(1,2) show ?thesis by (simp add: with_table_def database_of_def find_with_rows)
qed

lemma with_table_Inl:
  "find_key tb_Name n made_tables = Some t \<Longrightarrow> f (with_rows vs ix t) = Inl e \<Longrightarrow> with_table n f (database_of vs ix) = Inl e"
  by (simp add: with_table_def database_of_def find_with_rows)

lemma known_columns_None: "known_columns t cs = None \<longleftrightarrow> set cs \<subseteq> column_names t"
  by (auto simp: known_columns_def find_None_iff)

lemma sort_key_order:
  assumes "\<And>x y. x \<in> set xs \<Longrightarrow> y \<in> set xs \<Longrightarrow> f x \<le> f y \<longleftrightarrow> g x \<le> g y"
  shows "sort_key f xs = sort_key g xs"
  using assms
proof (induction xs)
  case (Cons x xs)
  have "insort_key f x ys = insort_key g x ys" if "set ys \<subseteq> set xs" for ys
    using that Cons.prems by (induction ys) auto
  with Cons show ?case by simp
qed simp

definition agrees :: "sql_row list \<Rightarrow> statement \<Rightarrow> (index \<Rightarrow> err + nat \<times> index) \<Rightarrow> bool" where
  \<comment> \<open>the statement, run on the image of an index, does what the function does on the index\<close>
  "agrees vs s f \<longleftrightarrow> (\<forall>ix. run_statement s (database_of vs ix)
     = bindE (f ix) (\<lambda>(n, ix'). Inr (n, database_of vs ix')))"

section \<open>A table of the index as a table of the database\<close>

text \<open>
  The interface of a table: its columns in the database, the columns that the program names for a
  row and the values it gives to them. They are the same columns, and the values may stand in them.
\<close>

locale stored_table =
  fixes name :: string and cols :: "column list" and cs :: "string list" and vals :: "'r \<Rightarrow> sql_value list"
    and rows :: "index \<Rightarrow> 'r list"
  assumes found: "find_key tb_Name name made_tables = Some \<lparr>tb_Name = name, tb_Columns = cols, tb_Rows = []\<rparr>"
    and image: "rows_of vs ix name = map (\<lambda>r. zip cs (vals r)) (rows ix)"
    and filled: "length (vals r) = length cs"
    and named: "set cs = col_Name ` set cols"
    and once: "distinct cs"
    and valid: "list_all (\<lambda>c. fits c (cell (zip cs (vals r)) (col_Name c))
      \<and> (col_NotNull c \<longrightarrow> cell (zip cs (vals r)) (col_Name c) \<noteq> Null)) cols"
begin

definition stored :: "'r \<Rightarrow> sql_row" where
  "stored r = map (\<lambda>c. (col_Name c, cell (zip cs (vals r)) (col_Name c))) cols"

definition table_with :: "'r list \<Rightarrow> table" where
  "table_with rs = \<lparr>tb_Name = name, tb_Columns = cols, tb_Rows = map stored rs\<rparr>"

lemma stored_complete: "complete_row cols (zip cs (vals r)) = stored r"
  using filled [of r] named by (subst complete_row_total) (simp_all add: stored_def flip: set_map)

lemma cell_stored: "c \<in> set cs \<Longrightarrow> cell (stored r) c = cell (zip cs (vals r)) c"
  using named by (simp add: stored_def cell_named)

lemma cells_stored: "map (cell (stored r)) cs = vals r"
proof (rule nth_equalityI)
  fix k assume "k < length (map (cell (stored r)) cs)"
  then show "map (cell (stored r)) cs ! k = vals r ! k"
    using once filled [of r] by (simp add: cell_stored) (simp add: cell_def map_of_zip_nth)
qed (simp add: filled)

lemma table_image: "with_rows vs ix \<lparr>tb_Name = name, tb_Columns = cols, tb_Rows = []\<rparr> = table_with (rows ix)"
  by (simp add: with_rows_def table_with_def image stored_complete)

lemma stored_fits: "first_bad (table_with rs) (stored r) = None"
proof -
  have "bad_value (table_with rs) c (cell (stored r) (col_Name c)) = None" if "c \<in> set cols" for c
    using that valid [of r] named by (simp add: cell_stored bad_value_def list_all_iff)
  then show ?thesis by (simp add: first_bad_def table_with_def map_filter_def filter_empty_conv split: list.split)
qed

lemma with_image:
  assumes "f (table_with (rows ix)) = Inr (n, table_with (rows ix'))" and "\<And>m. m \<noteq> name \<Longrightarrow> rows_of vs ix' m = rows_of vs ix m"
  shows "with_table name f (database_of vs ix) = Inr (n, database_of vs ix')"
  using assms by (intro with_table_Inr [OF found]) (simp_all add: table_image)

lemma refused: "f (table_with (rows ix)) = Inl e \<Longrightarrow> with_table name f (database_of vs ix) = Inl e"
  by (rule with_table_Inl [OF found]) (simp add: table_image)

text \<open>An insertion is refused for the first unique column with a value that a row has already.\<close>

definition clash :: "'r list \<Rightarrow> 'r \<Rightarrow> column \<Rightarrow> bool" where
  "clash rs r c \<longleftrightarrow> col_Unique c \<and> cell (zip cs (vals r)) (col_Name c) \<noteq> Null
     \<and> cell (zip cs (vals r)) (col_Name c) \<in> (\<lambda>q. cell (zip cs (vals q)) (col_Name c)) ` set rs"

lemma first_clash:
  "find (clash rs r) cols = find (\<lambda>c. cell (zip cs (vals r)) (col_Name c) \<noteq> Null
     \<and> cell (zip cs (vals r)) (col_Name c) \<in> (\<lambda>q. cell (zip cs (vals q)) (col_Name c)) ` set rs) (filter col_Unique cols)"
  by (induction cols) (auto simp: clash_def)

lemma insert: "insert_values cs (vals r) (table_with rs) =
   (case find (clash rs r) cols of Some c \<Rightarrow> Inl (unique_violation (name @ ''.'' @ col_Name c))
    | None \<Rightarrow> Inr (1, table_with (rs @ [r])))"
proof -
  have "known_columns (table_with rs) cs = None"
    unfolding known_columns_None using named by (simp add: table_with_def)
  moreover have "find (taken (table_with rs) (stored r)) cols = find (clash rs r) cols"
    using named by (intro find_cong refl) (simp add: taken_def clash_def cell_stored table_with_def image_image)
  moreover note stored_fits [of rs r]
  ultimately show ?thesis
    using filled [of r] stored_complete [of r] by (simp add: insert_values_def Let_def table_with_def split: option.split)
qed

lemma update:
  assumes "fst ` set sets \<union> \<Union> (set ` columns_of ` set ps) \<subseteq> set cs"
    and "list_all (\<lambda>c. col_Name c \<notin> fst ` set sets) (filter col_Unique cols)"
    and p: "\<And>r. selected ps (stored r) = p r"
    and f: "\<And>r. p r \<Longrightarrow> set_cells sets (stored r) = stored (f r)"
  shows "update_rows sets ps (table_with rs) = Inr (affected p rs, table_with (update_where p f rs))"
proof -
  have known: "known_columns (table_with rs) (map fst sets @ concat (map columns_of ps)) = None"
    unfolding known_columns_None using assms(1) named by (auto simp: table_with_def)
  have rows: "update_where (selected ps) (set_cells sets) (map stored rs) = map stored (update_where p f rs)"
    by (simp add: update_where_def p f)
  have hit: "filter (selected ps) (map stored rs) = map stored (filter p rs)" by (simp add: filter_map comp_def p)
  have "find (\<lambda>row. first_bad (table_with rs) row \<noteq> None) (map (set_cells sets) (map stored (filter p rs))) = None"
    by (auto simp: find_None_iff f stored_fits)
  moreover have "find (\<lambda>c. col_Unique c \<and> col_Name c \<in> fst ` set sets \<and> q c) cols = None" for q
    using assms(2) by (auto simp: find_None_iff list_all_iff)
  ultimately show ?thesis
    unfolding update_rows_def known by (simp add: table_with_def rows hit affected_def)
qed

lemma set_stored:
  "list_all (\<lambda>c. (case map_of sets c of None \<Rightarrow> cell (zip cs (vals r)) c | Some v \<Rightarrow> v) = cell (zip cs (vals r')) c) cs
    \<Longrightarrow> set_cells sets (stored r) = stored r'"
  using named by (auto simp: set_cells_def stored_def list_all_iff)

lemma values_stored: "set us \<subseteq> set cs \<Longrightarrow> map (\<lambda>c. (c, cell (stored r) c)) us = values_for us cs (vals r)"
  by (auto simp: values_for_def cell_stored)

lemma update_agrees:
  assumes "fst ` set sets \<union> \<Union> (set ` columns_of ` set ps) \<subseteq> set cs"
    and "list_all (\<lambda>c. col_Name c \<notin> fst ` set sets) (filter col_Unique cols)"
    and "\<And>r. selected ps (stored r) = p r"
    and "\<And>r. p r \<Longrightarrow> list_all (\<lambda>c. (case map_of sets c of None \<Rightarrow> cell (zip cs (vals r)) c | Some v \<Rightarrow> v)
          = cell (zip cs (vals (f r))) c) cs"
    and g: "\<And>ix. rows (g ix) = update_where p f (rows ix)"
    and others: "\<And>ix m. m \<noteq> name \<Longrightarrow> rows_of vs (g ix) m = rows_of vs ix m"
  shows "agrees vs (UpdateSet name sets ps) (\<lambda>ix. Inr (affected p (rows ix), g ix))"
  using update [OF assms(1-3), of f] set_stored [OF assms(4)] others
  by (auto simp: agrees_def g intro!: with_image)

lemma query:
  assumes "qu_Table q = name" "qu_Columns q = cs" and "\<Union> (set ` columns_of ` set (qu_Where q)) \<union> fst ` set (qu_Order q) \<subseteq> set cs"
    and p: "\<And>r. r \<in> set (rows ix) \<Longrightarrow> selected (qu_Where q) (stored r) = p r"
    and o: "\<And>r r'. r \<in> set (rows ix) \<Longrightarrow> r' \<in> set (rows ix)
      \<Longrightarrow> order_of (qu_Order q) (stored r) \<le> order_of (qu_Order q) (stored r') \<longleftrightarrow> key r \<le> key r'"
  shows "run_query q (database_of vs ix) = Inr (map vals (limited (qu_Limit q) (sort_key key (filter p (rows ix)))))"
proof -
  have t: "the_table name (database_of vs ix) = Inr (table_with (rows ix))"
    by (simp add: the_table_def database_of_def find_with_rows found table_image)
  have known: "known_columns (table_with (rows ix)) (cs @ concat (map columns_of (qu_Where q)) @ map fst (qu_Order q)) = None"
    unfolding known_columns_None using assms(3) named by (auto simp: table_with_def)
  have "filter (selected (qu_Where q)) (map stored (rows ix)) = map stored (filter p (rows ix))"
    using p by (simp add: filter_map comp_def cong: filter_cong)
  moreover have "sort_key (order_of (qu_Order q)) (map stored rs) = map stored (sort_key (\<lambda>r. order_of (qu_Order q) (stored r)) rs)" for rs
  proof (induction rs)
    case (Cons r rs)
    have "insort_key (order_of (qu_Order q)) (stored r) (map stored ys)
        = map stored (insort_key (\<lambda>r. order_of (qu_Order q) (stored r)) r ys)" for ys
      by (induction ys) auto
    with Cons show ?case by simp
  qed simp
  moreover have "sort_key (\<lambda>r. order_of (qu_Order q) (stored r)) (filter p (rows ix)) = sort_key key (filter p (rows ix))"
    using o by (intro sort_key_order) auto
  moreover have "limited l (map stored rs) = map stored (limited l rs)" for l rs
    by (simp add: limited_def Let_def take_map drop_map split: option.split)
  ultimately show ?thesis
    using known by (simp add: run_query_def assms(1,2) t table_with_def cells_stored comp_def)
qed

lemma plain_query:
  assumes "\<Union> (set ` columns_of ` set ps) \<subseteq> set cs" and "\<And>r. r \<in> set (rows ix) \<Longrightarrow> selected ps (stored r) = p r"
  shows "run_query (select_from cs name ps) (database_of vs ix) = Inr (map vals (filter p (rows ix)))"
  using query [of "select_from cs name ps" ix p "\<lambda>r. 0 :: nat"] assms
  by (simp add: select_from_def order_of_def limited_def sort_key_const)

lemma sorted_query:
  assumes "\<Union> (set ` columns_of ` set ps) \<union> fst ` set os \<subseteq> set cs"
    and "\<And>r. r \<in> set (rows ix) \<Longrightarrow> selected ps (stored r) = p r"
    and "sort_key (\<lambda>r. order_of os (stored r)) (filter p (rows ix)) = srt (filter p (rows ix))"
  shows "run_query ((select_from cs name ps)\<lparr>qu_Order := os, qu_Limit := l\<rparr>) (database_of vs ix)
    = Inr (map vals (limited l (srt (filter p (rows ix)))))"
  using query [of "(select_from cs name ps)\<lparr>qu_Order := os, qu_Limit := l\<rparr>" ix p "\<lambda>r. order_of os (stored r)"] assms
  by (simp add: select_from_def)

lemma ordered_query:
  assumes "\<Union> (set ` columns_of ` set ps) \<union> fst ` set os \<subseteq> set cs"
    and "\<And>r. r \<in> set (rows ix) \<Longrightarrow> selected ps (stored r) = p r"
    and "sort_key (\<lambda>r. order_of os (stored r)) (filter p (rows ix)) = srt (filter p (rows ix))"
  shows "run_query ((select_from cs name ps)\<lparr>qu_Order := os\<rparr>) (database_of vs ix) = Inr (map vals (srt (filter p (rows ix))))"
  using sorted_query [where l = None and vs = vs and srt = srt, OF assms] by (simp add: select_from_def limited_def)

lemma the_image: "the_table name (database_of vs ix) = Inr (table_with (rows ix))"
  by (simp add: the_table_def database_of_def find_with_rows found table_image)

lemma known: "set ds \<subseteq> set cs \<Longrightarrow> known_columns (table_with rs) ds = None"
  unfolding known_columns_None using named by (simp add: table_with_def)

lemma rows_with [simp]: "tb_Rows (table_with rs) = map stored rs"
  by (simp add: table_with_def)

lemma count:
  assumes "\<Union> (set ` columns_of ` set ps) \<subseteq> set cs" and "\<And>r. selected ps (stored r) = p r"
  shows "run_count name ps (database_of vs ix) = Inr (int (length (filter p (rows ix))))"
proof -
  have "known_columns (table_with (rows ix)) (concat (map columns_of ps)) = None" using assms(1) by (intro known) auto
  then show ?thesis by (simp add: run_count_def the_image filter_map comp_def assms(2))
qed

end

section \<open>The eight tables\<close>

lemma fits_values [simp]:
  "fits c Null" "fits c (Integer n) \<longleftrightarrow> col_Type c = INTEGER" "fits c (Text s) \<longleftrightarrow> col_Type c = TEXT"
  "fits c (nullable_text t) \<longleftrightarrow> t = None \<or> col_Type c = TEXT"
  by (auto simp: fits_def nullable_text_def split: option.split)

lemma nullable_text_simps [simp]:
  "nullable_text t = Null \<longleftrightarrow> t = None" "nullable_text (Some s) = Text s" "nullable_text t = Text s \<longleftrightarrow> t = Some s"
  by (auto simp: nullable_text_def split: option.split)

lemma cell_Cons [simp]: "cell ((c, v) # row) d = (if c = d then v else cell row d)" "cell [] d = Null"
  by (simp_all add: cell_def)

lemmas table_rows = rows_of_def made_tables_def

interpretation items: stored_table "''items''" items_columns itemCols item_values tab_items
  by unfold_locales (simp_all add: table_rows, simp_all add: itemCols_def item_values_def items_columns_def column_defs)

interpretation rules: stored_table "''rules''" rules_columns ruleCols rule_values tab_rules
  by unfold_locales (simp_all add: table_rows, simp_all add: ruleCols_def rule_values_def rules_columns_def column_defs)

interpretation assignments: stored_table "''assignments''" assignments_columns asgnCols referral_values tab_assignments
  by unfold_locales (simp_all add: table_rows, simp_all add: asgnCols_def referral_values_def assignments_columns_def column_defs)

interpretation escalations: stored_table "''escalations''" escalations_columns escCols escalation_values tab_escalations
  by unfold_locales (simp_all add: table_rows, simp_all add: escCols_def escalation_values_def escalations_columns_def column_defs)

interpretation audits: stored_table "''audit_entries''" audit_entries_columns auditCols audit_values tab_audit_entries
  by unfold_locales (simp_all add: table_rows, simp_all add: auditCols_def audit_values_def audit_entries_columns_def column_defs)

interpretation failures: stored_table "''permanent_failures''" failures_columns failCols failure_values tab_permanent_failures
  by unfold_locales (simp_all add: table_rows, auto simp: failCols_def failure_values_def failures_columns_def permanent_failures_columns_def column_defs)

interpretation batches: stored_table "''import_batches''" import_batches_columns batchCols batch_values tab_import_batches
  by unfold_locales (simp_all add: table_rows, simp_all add: batchCols_def batch_values_def import_batches_columns_def column_defs)

interpretation manifests: stored_table "''shard_manifest''" shard_manifest_columns manifestCols manifest_values tab_shard_manifest
  by unfold_locales (simp_all add: table_rows, simp_all add: manifestCols_def manifest_values_def shard_manifest_columns_def column_defs)

section \<open>Writes\<close>

definition one_row :: "err + unit \<times> index \<Rightarrow> err + nat \<times> index" where
  "one_row r = bindE r (\<lambda>(_, ix). Inr (1, ix))"

fun effect_of :: "writing \<Rightarrow> index \<Rightarrow> err + nat \<times> index" where
  \<comment> \<open>what the theory Index does for the statement, with the number of rows\<close>
  "effect_of (PutItem i) ix = one_row (put_item (row_of_item i) ix)"
| "effect_of (SetItem i) ix = Inr (affected (\<lambda>r. case_ID r = case_ID i) (tab_items ix), update_item i ix)"
| "effect_of (PutReferral a) ix = one_row (put_assignment (row_of_referral a) ix)"
| "effect_of (SupersedeReferrals itemID) ix =
     Inr (affected (\<lambda>r. ref_ItemID r = itemID \<and> ref_IsCurrent r) (tab_assignments ix), supersede_assignments itemID ix)"
| "effect_of (PutEscalation e) ix = one_row (put_escalation (row_of_escalation e) ix)"
| "effect_of (SetEscalated itemID newLead newLevel newDeadline newStatus now) ix =
     Inr (affected (\<lambda>r. case_ID r = itemID) (tab_items ix), set_escalated itemID newLead newLevel newDeadline newStatus now ix)"
| "effect_of (PutAudit a) ix = one_row (put_audit (row_of_audit a) ix)"
| "effect_of (PutFailure f) ix = one_row (put_failure (row_of_failure f) ix)"
| "effect_of (SetFailure f) ix =
     Inr (affected (\<lambda>r. fail_ID r = fail_ID f) (tab_permanent_failures ix), update_failure f ix)"
| "effect_of (ResolveFailure failureID at) ix =
     Inr (affected (\<lambda>r. fail_ID r = failureID) (tab_permanent_failures ix), resolve_failure failureID at ix)"
| "effect_of (PutBatch b) ix = one_row (put_batch (row_of_batch b) ix)"
| "effect_of (PutRule r) ix = one_row (put_rule (row_of_rule r) ix)"
| "effect_of (EndRule version now) ix =
     Inr (affected (\<lambda>r. rule_Version r = version) (tab_rules ix), supersede_rule version now ix)"
| "effect_of (PutManifest entry) ix = Inr (1, put_manifest entry ix)"

lemma map_of_values_for:
  "map_of (values_for ks cs vs) c = (if c \<in> set ks then Some (cell (zip cs vs) c) else None)"
  by (induction ks) (auto simp: values_for_def)

lemma unique_columns:
  "filter col_Unique items_columns = [key_column ''id'' TEXT, unique_not_null ''external_ref'' TEXT]"
  "filter col_Unique rules_columns = [key_column ''version'' INTEGER]"
  "filter col_Unique assignments_columns = [key_column ''id'' TEXT]"
  "filter col_Unique escalations_columns = [key_column ''id'' TEXT]"
  "filter col_Unique audit_entries_columns = [key_column ''id'' TEXT]"
  "filter col_Unique failures_columns = [key_column ''id'' TEXT]"
  "filter col_Unique import_batches_columns = [key_column ''id'' TEXT]"
  "filter col_Unique shard_manifest_columns = [key_column ''shard_id'' TEXT]"
  by (simp_all add: columns_defs column_defs)

lemma key_names [simp]: "col_Name (key_column n ty) = n" "col_Name (unique_not_null n ty) = n"
  by (simp_all add: column_defs)

lemma key_cells:
  "cell (zip itemCols (item_values i)) ''id'' = Text (case_ID i)"
  "cell (zip itemCols (item_values i)) ''external_ref'' = Text (case_ExternalRef i)"
  "cell (zip ruleCols (rule_values r)) ''version'' = Integer (rule_Version r)"
  "cell (zip asgnCols (referral_values a)) ''id'' = Text (ref_ID a)"
  "cell (zip escCols (escalation_values e)) ''id'' = Text (esc_ID e)"
  "cell (zip auditCols (audit_values d)) ''id'' = Text (aud_ID d)"
  "cell (zip failCols (failure_values f)) ''id'' = Text (fail_ID f)"
  "cell (zip batchCols (batch_values b)) ''id'' = Text (batch_ID b)"
  "cell (zip manifestCols (manifest_values m)) ''shard_id'' = Text (man_ShardID m)"
  by (simp_all add: itemCols_def item_values_def ruleCols_def rule_values_def asgnCols_def referral_values_def
      escCols_def escalation_values_def auditCols_def audit_values_def failCols_def failure_values_def
      batchCols_def batch_values_def manifestCols_def manifest_values_def)

lemma text_image [simp]:
  "Text s \<in> (\<lambda>q. Text (f q)) ` A \<longleftrightarrow> s \<in> f ` A" "Integer n \<in> (\<lambda>q. Integer (g q)) ` B \<longleftrightarrow> n \<in> g ` B"
  by auto

lemma agrees_insert:
  assumes "\<And>ix. (case g ix of Inl e \<Rightarrow> insert_values cs vs' (t ix) = Inl e
      | Inr (u, ix') \<Rightarrow> insert_values cs vs' (t ix) = Inr (1, t ix') \<and> (\<forall>m. m \<noteq> n \<longrightarrow> rows_of vs ix' m = rows_of vs ix m))"
    and found: "find_key tb_Name n made_tables = Some s" and t: "\<And>ix. t ix = with_rows vs ix s"
  shows "agrees vs (InsertInto n cs vs') (\<lambda>ix. one_row (g ix))"
  unfolding agrees_def
proof
  fix ix
  show "run_statement (InsertInto n cs vs') (database_of vs ix) = bindE (one_row (g ix)) (\<lambda>(n, ix'). Inr (n, database_of vs ix'))"
  proof (cases "g ix")
    case (Inl e)
    with assms(1) [of ix] t show ?thesis by (simp add: one_row_def with_table_Inl [OF found])
  next
    case (Inr p)
    then obtain ix' where g: "g ix = Inr ((), ix')" by (cases p) auto
    have "with_table n (insert_values cs vs') (database_of vs ix) = Inr (1, database_of vs ix')"
      using assms(1) [of ix] t g by (intro with_table_Inr [OF found]) simp_all
    with g show ?thesis by (simp add: one_row_def)
  qed
qed

lemma key_values:
  "case_ID (row_of_item i) = case_ID i" "case_ExternalRef (row_of_item i) = case_ExternalRef i"
  "rule_Version (row_of_rule r) = rule_Version r" "ref_ID (row_of_referral a) = ref_ID a"
  "esc_ID (row_of_escalation e) = esc_ID e" "aud_ID (row_of_audit d) = aud_ID d"
  "fail_ID (row_of_failure f) = fail_ID f" "batch_ID (row_of_batch b) = batch_ID b"
  by (simp_all add: row_of_item_def row_of_rule_def row_of_referral_def row_of_escalation_def row_of_audit_def
      row_of_failure_def row_of_batch_def)

lemmas insertion = items.insert rules.insert assignments.insert escalations.insert audits.insert failures.insert
  batches.insert manifests.insert items.first_clash rules.first_clash assignments.first_clash escalations.first_clash
  audits.first_clash failures.first_clash batches.first_clash manifests.first_clash unique_columns key_cells

lemma inserts_agree:
  "agrees vs (statement_of (PutItem i)) (effect_of (PutItem i))"
  "agrees vs (statement_of (PutRule r)) (effect_of (PutRule r))"
  "agrees vs (statement_of (PutReferral a)) (effect_of (PutReferral a))"
  "agrees vs (statement_of (PutEscalation e)) (effect_of (PutEscalation e))"
  "agrees vs (statement_of (PutAudit d)) (effect_of (PutAudit d))"
  "agrees vs (statement_of (PutFailure f)) (effect_of (PutFailure f))"
  "agrees vs (statement_of (PutBatch b)) (effect_of (PutBatch b))"
  unfolding statement_of.simps effect_of.simps
  by (rule agrees_insert [OF _ items.found, where t = "\<lambda>ix. items.table_with (tab_items ix)"]
        agrees_insert [OF _ rules.found, where t = "\<lambda>ix. rules.table_with (tab_rules ix)"]
        agrees_insert [OF _ assignments.found, where t = "\<lambda>ix. assignments.table_with (tab_assignments ix)"]
        agrees_insert [OF _ escalations.found, where t = "\<lambda>ix. escalations.table_with (tab_escalations ix)"]
        agrees_insert [OF _ audits.found, where t = "\<lambda>ix. audits.table_with (tab_audit_entries ix)"]
        agrees_insert [OF _ failures.found, where t = "\<lambda>ix. failures.table_with (tab_permanent_failures ix)"]
        agrees_insert [OF _ batches.found, where t = "\<lambda>ix. batches.table_with (tab_import_batches ix)"];
      auto simp: insertion put_item_def put_rule_def put_assignment_def put_escalation_def put_audit_def put_failure_def
        put_batch_def insert_row_def rows_of_def items.table_image rules.table_image assignments.table_image
        escalations.table_image audits.table_image failures.table_image batches.table_image key_values)+

lemma one_condition [simp]: "selected [p] row = holds row p" "selected [p, q] row = (holds row p \<and> holds row q)"
  by (simp_all add: selected_def)

lemmas written = update_item_def set_escalated_def supersede_assignments_def update_failure_def resolve_failure_def
  supersede_rule_def put_manifest_def

text \<open>The cells that conditions and orders look at.\<close>

lemma item_cells:
  "cell (items.stored i) ''id'' = Text (case_ID i)"
  "cell (items.stored i) ''external_ref'' = Text (case_ExternalRef i)"
  "cell (items.stored i) ''status'' = Text (status_name (case_Status i))"
  "cell (items.stored i) ''lead_department'' = Text (case_LeadDepartment i)"
  "cell (items.stored i) ''store_id'' = Text (case_StoreID i)"
  "cell (items.stored i) ''reported_by'' = Text (case_RegisteredBy i)"
  "cell (items.stored i) ''registered_at'' = Text (case_RegisteredAt i)"
  "cell (items.stored i) ''deadline'' = Text (case_Deadline i)"
  "cell (items.stored i) ''escalation_level'' = Integer (case_EscalationLevel i)"
  by (subst items.cell_stored; simp add: itemCols_def item_values_def)+

lemma rule_cells:
  "cell (rules.stored r) ''version'' = Integer (rule_Version r)"
  "cell (rules.stored r) ''status'' = Text (rule_status_name (rule_Status r))"
  "cell (rules.stored r) ''priority'' = Integer (rule_Priority r)"
  "cell (rules.stored r) ''effective_from'' = Text (rule_EffectiveFrom r)"
  "cell (rules.stored r) ''effective_to'' = nullable_text (rule_EffectiveTo r)"
  by (subst rules.cell_stored; simp add: ruleCols_def rule_values_def)+

lemma referral_cells:
  "cell (assignments.stored a) ''item_id'' = Text (ref_ItemID a)"
  "cell (assignments.stored a) ''is_current'' = Integer (boolToInt (ref_IsCurrent a))"
  "cell (assignments.stored a) ''adjudicated_at'' = Text (ref_AdjudicatedAt a)"
  by (subst assignments.cell_stored; simp add: asgnCols_def referral_values_def)+

lemma escalation_cells:
  "cell (escalations.stored e) ''item_id'' = Text (esc_ItemID e)"
  "cell (escalations.stored e) ''escalated_at'' = Text (esc_EscalatedAt e)"
  by (subst escalations.cell_stored; simp add: escCols_def escalation_values_def)+

lemma audit_cells:
  "cell (audits.stored d) ''entity_id'' = Text (aud_EntityID d)"
  "cell (audits.stored d) ''entity_type'' = Text (aud_EntityType d)"
  "cell (audits.stored d) ''actor'' = Text (aud_Actor d)"
  "cell (audits.stored d) ''timestamp'' = Text (aud_Timestamp d)"
  by (subst audits.cell_stored; simp add: auditCols_def audit_values_def)+

lemma failure_cells:
  "cell (failures.stored f) ''id'' = Text (fail_ID f)"
  "cell (failures.stored f) ''status'' = Text (failure_status_name (fail_Status f))"
  "cell (failures.stored f) ''last_failed_at'' = Text (fail_LastFailedAt f)"
  by (subst failures.cell_stored; simp add: failCols_def failure_values_def)+

lemma batch_cells:
  "cell (batches.stored b) ''store_id'' = Text (batch_StoreID b)"
  "cell (batches.stored b) ''batch_date'' = Text (batch_BatchDate b)"
  by (subst batches.cell_stored; simp add: batchCols_def batch_values_def)+

lemma manifest_cells:
  "cell (manifests.stored m) ''shard_id'' = Text (man_ShardID m)"
  "cell (manifests.stored m) ''entity_type'' = Text (man_EntityType m)"
  "cell (manifests.stored m) ''date_key'' = Text (man_DateKey m)"
  by (subst manifests.cell_stored; simp add: manifestCols_def manifest_values_def)+

lemmas stored_cells = item_cells rule_cells referral_cells escalation_cells audit_cells failure_cells batch_cells
  manifest_cells

lemma SetItem_agrees: "agrees vs (statement_of (SetItem i)) (effect_of (SetItem i))"
  unfolding statement_of.simps effect_of.simps
proof (rule items.update_agrees [where f = "set_item i"], goal_cases)
  case 1
  show ?case by (simp add: values_for_def itemCols_def)
next
  case 2
  show ?case by (simp add: values_for_def unique_columns)
next
  case (3 r)
  show ?case by (simp add: item_cells)
next
  case (4 r)
  then show ?case unfolding map_of_values_for by (simp add: itemCols_def item_values_def row_of_item_def set_item_def)
qed (simp_all add: rows_of_def update_item_def)

lemma SupersedeReferrals_agrees: "agrees vs (statement_of (SupersedeReferrals k)) (effect_of (SupersedeReferrals k))"
  unfolding statement_of.simps effect_of.simps
  by (rule assignments.update_agrees [where f = "\<lambda>r. r\<lparr>ref_IsCurrent := False\<rparr>"], simp add: asgnCols_def,
      simp add: unique_columns, simp add: referral_cells boolToInt_def,
      simp add: asgnCols_def referral_values_def boolToInt_def, simp_all add: rows_of_def supersede_assignments_def)

lemma SetEscalated_agrees:
  "agrees vs (statement_of (SetEscalated k dept level t st now)) (effect_of (SetEscalated k dept level t st now))"
  unfolding statement_of.simps effect_of.simps
  by (rule items.update_agrees [where f = "\<lambda>r. r\<lparr>case_LeadDepartment := dept, case_EscalationLevel := level,
          case_Deadline := formatTime t, case_Status := st, case_UpdatedAt := formatTime now\<rparr>"],
      simp add: itemCols_def, simp add: unique_columns, simp add: item_cells,
      simp add: itemCols_def item_values_def, simp_all add: rows_of_def set_escalated_def)

lemma SetFailure_agrees: "agrees vs (statement_of (SetFailure f)) (effect_of (SetFailure f))"
  unfolding statement_of.simps effect_of.simps
  by (rule failures.update_agrees [where f = "\<lambda>r. r\<lparr>fail_LastError := fail_LastError f, fail_Attempts := fail_Attempts f,
          fail_LastFailedAt := formatTime (fail_LastFailedAt f), fail_Status := fail_Status f,
          fail_NextRetryAt := formatNullableTime (fail_NextRetryAt f), fail_BackoffState := fail_BackoffState f,
          fail_ResolvedAt := formatNullableTime (fail_ResolvedAt f)\<rparr>"],
      simp add: failCols_def values_for_def, simp add: unique_columns values_for_def, simp add: failure_cells,
      simp add: map_of_values_for, simp add: failCols_def failure_values_def row_of_failure_def,
      simp_all add: rows_of_def update_failure_def)

lemma ResolveFailure_agrees: "agrees vs (statement_of (ResolveFailure k t)) (effect_of (ResolveFailure k t))"
  unfolding statement_of.simps effect_of.simps
  by (rule failures.update_agrees [where f = "\<lambda>r. r\<lparr>fail_Status := FailureStatusResolved, fail_ResolvedAt := Some (formatTime t)\<rparr>"],
      simp add: failCols_def, simp add: unique_columns, simp add: failure_cells,
      simp add: failCols_def failure_values_def failure_status_name_def, simp_all add: rows_of_def resolve_failure_def)

lemma EndRule_agrees: "agrees vs (statement_of (EndRule v now)) (effect_of (EndRule v now))"
  unfolding statement_of.simps effect_of.simps
  by (rule rules.update_agrees [where f = "\<lambda>r. r\<lparr>rule_Status := RuleStatusSuperseded, rule_EffectiveTo := Some (formatTime now)\<rparr>"],
      simp add: ruleCols_def, simp add: unique_columns, simp add: rule_cells,
      simp add: ruleCols_def rule_values_def rule_status_name_def, simp_all add: rows_of_def supersede_rule_def)

definition manifest_update :: "ManifestEntry \<Rightarrow> ManifestEntry \<Rightarrow> ManifestEntry" where
  "manifest_update entry m = m\<lparr>man_Checksum := man_Checksum entry, man_RecordCount := man_RecordCount entry,
     man_MinKey := man_MinKey entry, man_MaxKey := man_MaxKey entry, man_Status := man_Status entry,
     man_UpdatedAt := man_UpdatedAt entry\<rparr>"

lemma manifest_change:
  "update_rows (values_for [''checksum'', ''record_count'', ''min_key'', ''max_key'', ''status'', ''updated_at''] manifestCols
      (manifest_values e)) [Equals ''shard_id'' (Text (man_ShardID e))] (manifests.table_with ms)
    = Inr (affected (\<lambda>m. man_ShardID m = man_ShardID e) ms,
        manifests.table_with (update_where (\<lambda>m. man_ShardID m = man_ShardID e) (manifest_update e) ms))"
  by (rule manifests.update, simp add: manifestCols_def values_for_def, simp add: unique_columns values_for_def,
      simp add: manifest_cells, rule manifests.set_stored, simp add: map_of_values_for,
      simp add: manifestCols_def manifest_values_def manifest_update_def)

lemma PutManifest_agrees: "agrees vs (statement_of (PutManifest e)) (effect_of (PutManifest e))"
  unfolding agrees_def
proof
  fix ix :: index
  let ?us = "[''checksum'', ''record_count'', ''min_key'', ''max_key'', ''status'', ''updated_at'']"
  let ?t = "manifests.table_with (tab_shard_manifest ix)"
  have us: "map (\<lambda>c. (c, cell (manifests.stored e) c)) ?us = values_for ?us manifestCols (manifest_values e)"
    by (rule manifests.values_stored) (simp add: manifestCols_def)
  have cols: "tb_Columns ?t = shard_manifest_columns" by (simp add: manifests.table_with_def)
  have keys: "cell (manifests.stored e) ''shard_id'' \<in> (\<lambda>r. cell r ''shard_id'') ` set (tb_Rows ?t)
      \<longleftrightarrow> man_ShardID e \<in> man_ShardID ` set (tab_shard_manifest ix)"
    by (simp add: manifests.table_with_def image_image manifest_cells)
  have known: "known_columns ?t manifestCols = None"
    unfolding known_columns_None cols by (simp add: manifestCols_def columns_defs column_defs)
  have "upsert_values manifestCols (manifest_values e) ''shard_id'' ?us ?t
      = Inr (1, manifests.table_with (tab_shard_manifest (put_manifest e ix)))"
  proof (cases "man_ShardID e \<in> man_ShardID ` set (tab_shard_manifest ix)")
    case True
    then show ?thesis
      unfolding upsert_values_def Let_def cols manifests.stored_complete us keys known manifests.stored_fits
      unfolding manifest_cells manifest_change
      by (simp add: manifests.filled put_manifest_def manifest_update_def [abs_def])
  next
    case False
    then show ?thesis
      unfolding upsert_values_def Let_def cols manifests.stored_complete keys
      by (simp add: manifests.insert manifests.first_clash unique_columns key_cells put_manifest_def)
  qed
  then have "with_table ''shard_manifest'' (upsert_values manifestCols (manifest_values e) ''shard_id'' ?us) (database_of vs ix)
      = Inr (1, database_of vs (put_manifest e ix))"
    by (rule manifests.with_image) (simp add: rows_of_def put_manifest_def)
  then show "run_statement (statement_of (PutManifest e)) (database_of vs ix)
      = bindE (effect_of (PutManifest e) ix) (\<lambda>(n, ix'). Inr (n, database_of vs ix'))" by simp
qed

lemma statements_agree: "agrees vs (statement_of s) (effect_of s)"
  by (cases s) (simp_all only: inserts_agree SetItem_agrees SupersedeReferrals_agrees SetEscalated_agrees SetFailure_agrees
    ResolveFailure_agrees EndRule_agrees PutManifest_agrees)

lemma deletes_agree:
  "list_all (\<lambda>(t, clear). \<exists>n. run_statement (DeleteFrom t) (database_of vs ix) = Inr (n, database_of vs (clear ix))) delete_from"
proof -
  have "\<exists>n. with_table t (\<lambda>x. Inr (length (tb_Rows x), x\<lparr>tb_Rows := []\<rparr>)) (database_of vs ix) = Inr (n, database_of vs ix')"
    if "find_key tb_Name t made_tables = Some s" "rows_of vs ix' t = []" "\<And>m. m \<noteq> t \<Longrightarrow> rows_of vs ix' m = rows_of vs ix m"
    for t s ix'
  proof (intro exI with_table_Inr [OF that(1)] that(3))
    have "tb_Name s = t" using that(1) by (auto dest: find_key_Some)
    with that(2) show "Inr (length (tb_Rows (with_rows vs ix s)), (with_rows vs ix s)\<lparr>tb_Rows := []\<rparr>)
        = Inr (length (tb_Rows (with_rows vs ix s)), with_rows vs ix' s)" by (simp add: with_rows_def)
  qed
  note deleted = this [OF items.found] this [OF assignments.found] this [OF escalations.found] this [OF audits.found]
    this [OF failures.found] this [OF batches.found] this [OF manifests.found]
  show ?thesis by (simp add: delete_from_def) (intro conjI deleted; simp add: rows_of_def)
qed

section \<open>Queries\<close>

definition optional :: "'r option \<Rightarrow> 'r list" where
  "optional x = (case x of None \<Rightarrow> [] | Some r \<Rightarrow> [r])"

fun answer_of :: "reading \<Rightarrow> index \<Rightarrow> sql_value list list" where
  \<comment> \<open>the rows that the theory Index selects\<close>
  "answer_of (ItemByID k) ix = map item_values (optional (find_row case_ID k tab_items ix))"
| "answer_of (ItemByExternalRef k) ix = map item_values (optional (find_row case_ExternalRef k tab_items ix))"
| "answer_of (ItemList flt now) ix = map item_values (listed_items flt now ix)"
| "answer_of (OverdueItems now maxLevel) ix = map item_values (overdue_items now maxLevel ix)"
| "answer_of (RuleByVersion v) ix = map rule_values (optional (find_row rule_Version v tab_rules ix))"
| "answer_of (ActiveRules at) ix = map rule_values (active_rules (formatTime at) ix)"
| "answer_of RuleList ix = map rule_values (listed_rules ix)"
| "answer_of (ReferralsOf k) ix = map referral_values (listed_referrals k ix)"
| "answer_of (CurrentReferral k) ix = map referral_values (optional (current_referral k ix))"
| "answer_of (EscalationsOf k) ix = map escalation_values (listed_escalations k ix)"
| "answer_of (AuditList flt) ix = map audit_values (listed_audit flt ix)"
| "answer_of ActiveFailures ix = map failure_values (active_failures ix)"
| "answer_of (FailureByID k) ix = map failure_values (optional (find_row fail_ID k tab_permanent_failures ix))"
| "answer_of (BatchList flt) ix = map batch_values (listed_batches flt ix)"
| "answer_of ManifestList ix = map manifest_values (listed_manifests ix)"

fun one_row_only :: "reading \<Rightarrow> bool" where
  \<comment> \<open>\<open>QueryRowContext\<close>, which looks at the first row only\<close>
  "one_row_only (ItemByID k) = True"
| "one_row_only (ItemByExternalRef k) = True"
| "one_row_only (RuleByVersion v) = True"
| "one_row_only (CurrentReferral k) = True"
| "one_row_only (FailureByID k) = True"
| "one_row_only q = False"

definition fetched :: "reading \<Rightarrow> sql_value list list \<Rightarrow> sql_value list list" where
  "fetched q rows = (if one_row_only q then take 1 rows else rows)"

text \<open>A status is never a text that another constructor stands for.\<close>

definition named_status :: "ItemStatus \<Rightarrow> bool" where
  "named_status s \<longleftrightarrow> (\<forall>t. s = StatusOther t \<longrightarrow> t \<notin> status_name ` {StatusRegistered, StatusAdjudicated,
     StatusInProgress, StatusReturned, StatusEscalated, StatusCompleted, StatusCancelled})"

definition named_statuses :: "index \<Rightarrow> bool" where
  "named_statuses ix \<longleftrightarrow> (\<forall>r \<in> set (tab_rules ix). rule_Status r \<noteq> RuleStatusOther ''active'')
     \<and> (\<forall>f \<in> set (tab_permanent_failures ix). fail_Status f \<noteq> FailureStatusOther ''permanent_failure'')
     \<and> (\<forall>i \<in> set (tab_items ix). named_status (case_Status i))"

lemma named_status_inj: "named_status s \<Longrightarrow> named_status t \<Longrightarrow> status_name s = status_name t \<Longrightarrow> s = t"
  by (cases s; cases t) (auto simp: named_status_def)

lemma named_inj: "named_statuses ix \<Longrightarrow> inj_on status_name (case_Status ` set (tab_items ix))"
  by (auto simp: named_statuses_def inj_on_def intro: named_status_inj)

lemma take_first: "take 1 (filter p xs) = optional (find p xs)"
  by (induction xs) (auto simp: optional_def)

lemma first_found: "optional (find_row key k tab ix) = take 1 (filter (\<lambda>r. key r = k) (tab ix))"
  by (simp only: find_row_def find_key_def take_first)

lemma page_limited: "0 \<le> n \<Longrightarrow> limited (Some (n, k)) rows = page n k rows"
  by (simp add: limited_def page_def Let_def)

lemma page_sizes: "0 \<le> item_page_size n" "0 \<le> default_page_size n"
  by (simp_all add: item_page_size_def default_page_size_def Let_def)

lemma sort_key_same:
  assumes "\<And>x y. x \<in> set xs \<Longrightarrow> y \<in> set xs \<Longrightarrow> f x = f y"
  shows "sort_key f xs = xs"
proof -
  have "sort_key f xs = sort_key (\<lambda>r. 0 :: nat) xs"
  proof (rule sort_key_order)
    fix x y assume "x \<in> set xs" "y \<in> set xs"
    then show "f x \<le> f y \<longleftrightarrow> (0 :: nat) \<le> 0" using assms [of x y] by simp
  qed
  then show ?thesis by (simp add: sort_key_const)
qed

lemma sort_equal: "sort_key f (filter (\<lambda>x. f k = f x) xs) = filter (\<lambda>x. f k = f x) xs"
proof (rule sort_key_same)
  fix x y assume "x \<in> set (filter (\<lambda>x. f k = f x) xs)" "y \<in> set (filter (\<lambda>x. f k = f x) xs)"
  then have "f k = f x" "f k = f y" by simp_all
  then show "f x = f y" by (rule trans [OF sym])
qed

lemma sort_descending:
  fixes f :: "'r \<Rightarrow> 'k :: linorder" and g :: "'r \<Rightarrow> 'l :: linorder"
  assumes "\<And>x y. g x \<le> g y \<longleftrightarrow> f y \<le> f x"
  shows "sort_key g xs = sort_desc f xs"
  unfolding sort_desc_def
proof (rule properties_for_sort_key)
  have same: "g x = g y \<longleftrightarrow> f x = f y" for x y by (metis assms order_antisym order_refl)
  show "filter (\<lambda>x. g k = g x) (rev (sort_key f (rev xs))) = filter (\<lambda>x. g k = g x) xs" for k
  proof -
    have "filter (\<lambda>x. g k = g x) (rev (sort_key f (rev xs))) = rev (sort_key f (filter (\<lambda>x. f k = f x) (rev xs)))"
      by (simp only: same rev_filter [of _ "sort_key f (rev xs)", symmetric] filter_sort)
    also have "\<dots> = rev (filter (\<lambda>x. f k = f x) (rev xs))" by (simp only: sort_equal)
    also have "\<dots> = filter (\<lambda>x. g k = g x) xs" by (simp only: same rev_filter rev_rev_ident)
    finally show ?thesis .
  qed
  show "sorted (map g (rev (sort_key f (rev xs))))"
    using sorted_sort_key [of f "rev xs"] unfolding sorted_map sorted_wrt_rev assms .
qed simp

lemma sort_by_first:
  fixes f :: "'r \<Rightarrow> 'k :: linorder" and g :: "'r \<Rightarrow> 'l :: linorder" and h :: "'r \<Rightarrow> 'm :: linorder"
  assumes lex: "\<And>x y. h x \<le> h y \<longleftrightarrow> f x < f y \<or> f x = f y \<and> g x \<le> g y"
  shows "sorted (map g ys) \<Longrightarrow> sort_key f ys = sort_key h ys"
proof (induction ys)
  case (Cons y ys)
  have inserted: "insort_key f y zs = insort_key h y zs" if "\<forall>z \<in> set zs. g y \<le> g z" for zs
    using that by (induction zs) (auto simp: lex)
  have "insort_key f y (sort_key f ys) = insort_key h y (sort_key f ys)" by (rule inserted) (use Cons.prems in simp)
  with Cons show ?case by simp
qed simp

lemma sort_by_two:
  fixes f :: "'r \<Rightarrow> 'k :: linorder" and g :: "'r \<Rightarrow> 'l :: linorder" and h :: "'r \<Rightarrow> 'm :: linorder"
  assumes lex: "\<And>x y. h x \<le> h y \<longleftrightarrow> f x < f y \<or> f x = f y \<and> g x \<le> g y"
  shows "sort_key f (sort_key g xs) = sort_key h xs"
proof -
  have "sort_key h (sort_key g xs) = sort_key h xs"
  proof (rule properties_for_sort_key [symmetric])
    fix k
    have "sort_key g (filter (\<lambda>x. h k = h x) xs) = filter (\<lambda>x. h k = h x) xs"
    proof (rule sort_key_same)
      fix x y assume "x \<in> set (filter (\<lambda>x. h k = h x) xs)" "y \<in> set (filter (\<lambda>x. h k = h x) xs)"
      then have "h k = h x" "h k = h y" by simp_all
      then have "h x = h y" by (rule trans [OF sym])
      then show "g x = g y" using lex [of x y] lex [of y x] by auto
    qed
    then show "filter (\<lambda>x. h k = h x) (sort_key h (sort_key g xs)) = filter (\<lambda>x. h k = h x) xs"
      by (simp only: filter_sort sort_equal)
  qed simp_all
  moreover have "sort_key f (sort_key g xs) = sort_key h (sort_key g xs)" by (rule sort_by_first [OF lex]) simp
  ultimately show ?thesis by (rule trans [rotated])
qed

lemma order_one [simp]:
  "order_of [(c, Ascending)] row \<le> order_of [(c, Ascending)] row' \<longleftrightarrow> cell row c \<le> cell row' c"
  "order_of [(c, Descending)] row \<le> order_of [(c, Descending)] row' \<longleftrightarrow> cell row' c \<le> cell row c"
  by (auto simp: order_of_def less_sort_term_def less_eq_sql_value_def less_sql_value_def)

lemma order_two [simp]:
  "order_of [(c, Ascending), (d, Ascending)] row \<le> order_of [(c, Ascending), (d, Ascending)] row'
     \<longleftrightarrow> cell row c < cell row' c \<or> cell row c = cell row' c \<and> cell row d \<le> cell row' d"
  "order_of [(c, Descending), (d, Descending)] row \<le> order_of [(c, Descending), (d, Descending)] row'
     \<longleftrightarrow> cell row' c < cell row c \<or> cell row c = cell row' c \<and> cell row' d \<le> cell row d"
  by (auto simp: order_of_def less_sort_term_def less_eq_sort_term_def)

lemma clauses:
  "selected (items_clause flt now) (items.stored i) = item_where flt now i"
  "selected (audit_clause aflt) (audits.stored d) = audit_where aflt d"
  "selected (batches_clause bflt) (batches.stored b) = batch_where bflt b"
  by (simp_all add: selected_def items_clause_def audit_clause_def batches_clause_def equals_unless_empty_def between_def
      stored_cells item_where_def audit_where_def batch_where_def live_status_def)

lemma clause_columns:
  "\<Union> (set ` columns_of ` set (items_clause flt now)) \<subseteq> set itemCols"
  "\<Union> (set ` columns_of ` set (audit_clause aflt)) \<subseteq> set auditCols"
  "\<Union> (set ` columns_of ` set (batches_clause bflt)) \<subseteq> set batchCols"
  by (auto simp: items_clause_def audit_clause_def batches_clause_def equals_unless_empty_def between_def
      itemCols_def auditCols_def batchCols_def)

lemmas query_columns = itemCols_def ruleCols_def asgnCols_def escCols_def auditCols_def failCols_def batchCols_def manifestCols_def

lemma status_names:
  "r \<in> set (tab_rules ix) \<Longrightarrow> named_statuses ix \<Longrightarrow> rule_status_name (rule_Status r) = ''active'' \<longleftrightarrow> rule_Status r = RuleStatusActive"
  "f \<in> set (tab_permanent_failures ix) \<Longrightarrow> named_statuses ix
    \<Longrightarrow> failure_status_name (fail_Status f) = ''permanent_failure'' \<longleftrightarrow> fail_Status f = FailureStatusActive"
  by (cases "rule_Status r"; auto simp: rule_status_name_def named_statuses_def)
     (cases "fail_Status f"; auto simp: failure_status_name_def named_statuses_def)

lemma queried:
  "''id'' \<in> set itemCols" "''external_ref'' \<in> set itemCols" "''status'' \<in> set itemCols" "''registered_at'' \<in> set itemCols"
  "''deadline'' \<in> set itemCols" "''escalation_level'' \<in> set itemCols"
  "''version'' \<in> set ruleCols" "''status'' \<in> set ruleCols" "''priority'' \<in> set ruleCols"
  "''effective_from'' \<in> set ruleCols" "''effective_to'' \<in> set ruleCols"
  "''item_id'' \<in> set asgnCols" "''is_current'' \<in> set asgnCols" "''adjudicated_at'' \<in> set asgnCols"
  "''item_id'' \<in> set escCols" "''escalated_at'' \<in> set escCols" "''timestamp'' \<in> set auditCols"
  "''id'' \<in> set failCols" "''status'' \<in> set failCols" "''last_failed_at'' \<in> set failCols"
  "''batch_date'' \<in> set batchCols" "''entity_type'' \<in> set manifestCols" "''date_key'' \<in> set manifestCols"
  by (simp_all add: query_columns)

lemma by_key_answers:
  "map_sum id (fetched (ItemByID k)) (run_query (query_of (ItemByID k)) (database_of vs ix)) = Inr (answer_of (ItemByID k) ix)"
  "map_sum id (fetched (ItemByExternalRef k)) (run_query (query_of (ItemByExternalRef k)) (database_of vs ix))
     = Inr (answer_of (ItemByExternalRef k) ix)"
  "map_sum id (fetched (RuleByVersion v)) (run_query (query_of (RuleByVersion v)) (database_of vs ix))
     = Inr (answer_of (RuleByVersion v) ix)"
  "map_sum id (fetched (FailureByID k)) (run_query (query_of (FailureByID k)) (database_of vs ix))
     = Inr (answer_of (FailureByID k) ix)"
  "map_sum id (fetched (CurrentReferral k)) (run_query (query_of (CurrentReferral k)) (database_of vs ix))
     = Inr (answer_of (CurrentReferral k) ix)"
  using items.plain_query [of "[Equals ''id'' (Text k)]" ix "\<lambda>r. case_ID r = k" vs]
    items.plain_query [of "[Equals ''external_ref'' (Text k)]" ix "\<lambda>r. case_ExternalRef r = k" vs]
    rules.plain_query [of "[Equals ''version'' (Integer v)]" ix "\<lambda>r. rule_Version r = v" vs]
    failures.plain_query [of "[Equals ''id'' (Text k)]" ix "\<lambda>r. fail_ID r = k" vs]
    assignments.plain_query [of "[Equals ''item_id'' (Text k), Equals ''is_current'' (Integer 1)]" ix
      "\<lambda>r. ref_ItemID r = k \<and> ref_IsCurrent r" vs]
  by (simp_all add: stored_cells queried fetched_def first_found current_referral_def boolToInt_def take_map
      flip: take_first)

lemma listed_answers:
  "run_query (query_of (ItemList flt now)) (database_of vs ix) = Inr (answer_of (ItemList flt now) ix)"
  "run_query (query_of (AuditList aflt)) (database_of vs ix) = Inr (answer_of (AuditList aflt) ix)"
  "run_query (query_of (BatchList bflt)) (database_of vs ix) = Inr (answer_of (BatchList bflt) ix)"
proof -
  show "run_query (query_of (ItemList flt now)) (database_of vs ix) = Inr (answer_of (ItemList flt now) ix)"
    unfolding query_of.simps
    by (subst items.sorted_query [where p = "item_where flt now" and srt = "sort_desc case_RegisteredAt"])
       (use clause_columns(1) in \<open>simp_all add: queried clauses stored_cells sort_descending page_limited page_sizes listed_items_def\<close>)
  show "run_query (query_of (AuditList aflt)) (database_of vs ix) = Inr (answer_of (AuditList aflt) ix)"
    unfolding query_of.simps
    by (subst audits.sorted_query [where p = "audit_where aflt" and srt = "sort_desc aud_Timestamp"])
       (use clause_columns(2) in \<open>simp_all add: queried clauses stored_cells sort_descending page_limited page_sizes listed_audit_def\<close>)
  show "run_query (query_of (BatchList bflt)) (database_of vs ix) = Inr (answer_of (BatchList bflt) ix)"
    unfolding query_of.simps
    by (subst batches.sorted_query [where p = "batch_where bflt" and srt = "sort_desc batch_BatchDate"])
       (use clause_columns(3) in \<open>simp_all add: queried clauses stored_cells sort_descending page_limited page_sizes listed_batches_def\<close>)
qed

lemma sort_ascending:
  fixes f :: "'r \<Rightarrow> 'k :: linorder" and g :: "'r \<Rightarrow> 'l :: linorder"
  shows "(\<And>x y. g x \<le> g y \<longleftrightarrow> f x \<le> f y) \<Longrightarrow> sort_key g xs = sort_key f xs"
  by (rule sort_key_order)

lemma sorted_answers:
  "run_query (query_of (OverdueItems now n)) (database_of vs ix) = Inr (answer_of (OverdueItems now n) ix)"
  "run_query (query_of (ReferralsOf k)) (database_of vs ix) = Inr (answer_of (ReferralsOf k) ix)"
  "run_query (query_of (EscalationsOf k)) (database_of vs ix) = Inr (answer_of (EscalationsOf k) ix)"
  "run_query (query_of RuleList) (database_of vs ix) = Inr (answer_of RuleList ix)"
  "run_query (query_of ManifestList) (database_of vs ix) = Inr (answer_of ManifestList ix)"
proof -
  show "run_query (query_of (OverdueItems now n)) (database_of vs ix) = Inr (answer_of (OverdueItems now n) ix)"
    unfolding query_of.simps
    by (rule trans [OF items.ordered_query [where srt = "sort_key case_Deadline" and p = "\<lambda>r. live_status (case_Status r)
          \<and> case_Deadline r < formatTime now \<and> case_EscalationLevel r < n"]], simp add: queried,
        simp add: stored_cells selected_def live_status_def, rule sort_ascending, simp add: stored_cells, simp add: overdue_items_def)
  show "run_query (query_of (ReferralsOf k)) (database_of vs ix) = Inr (answer_of (ReferralsOf k) ix)"
    unfolding query_of.simps
    by (rule trans [OF assignments.ordered_query [where srt = "sort_key ref_AdjudicatedAt" and p = "\<lambda>r. ref_ItemID r = k"]], simp add: queried,
        simp add: stored_cells, rule sort_ascending, simp add: stored_cells, simp add: listed_referrals_def)
  show "run_query (query_of (EscalationsOf k)) (database_of vs ix) = Inr (answer_of (EscalationsOf k) ix)"
    unfolding query_of.simps
    by (rule trans [OF escalations.ordered_query [where srt = "sort_key esc_EscalatedAt" and p = "\<lambda>r. esc_ItemID r = k"]], simp add: queried,
        simp add: stored_cells, rule sort_ascending, simp add: stored_cells, simp add: listed_escalations_def)
  show "run_query (query_of RuleList) (database_of vs ix) = Inr (answer_of RuleList ix)"
    unfolding query_of.simps
    by (rule trans [OF rules.ordered_query [where srt = "sort_desc rule_Version" and p = "\<lambda>r. True"]], simp add: queried,
        simp add: stored_cells selected_def, rule sort_descending, simp add: stored_cells, simp add: listed_rules_def)
  show "run_query (query_of ManifestList) (database_of vs ix) = Inr (answer_of ManifestList ix)"
    unfolding query_of.simps
  proof (rule trans [OF manifests.ordered_query [where srt = "\<lambda>ms. sort_key man_EntityType (sort_key man_DateKey ms)" and p = "\<lambda>r. True"]])
    show "sort_key (\<lambda>r. order_of [(''entity_type'', Ascending), (''date_key'', Ascending)] (manifests.stored r)) (filter (\<lambda>r. True) ms)
        = sort_key man_EntityType (sort_key man_DateKey (filter (\<lambda>r. True) ms))" for ms
      by (rule sort_by_two [symmetric]) (simp add: stored_cells)
  qed (simp_all add: queried selected_def listed_manifests_def)
qed

lemma status_answers:
  assumes "named_statuses ix"
  shows "run_query (query_of (ActiveRules at)) (database_of vs ix) = Inr (answer_of (ActiveRules at) ix)"
    and "run_query (query_of ActiveFailures) (database_of vs ix) = Inr (answer_of ActiveFailures ix)"
proof -
  have selects: "selected [Equals ''status'' (Text ''active''), AtMost ''effective_from'' (Text s),
      Or (IsNull ''effective_to'') (Or (Equals ''effective_to'' (Text '''')) (Above ''effective_to'' (Text s)))] (rules.stored r)
    = rule_active_at s r" if "r \<in> set (tab_rules ix)" for r s
    using status_names(1) [OF that assms]
    by (cases "rule_EffectiveTo r") (auto simp: selected_def rule_cells rule_active_at_def)
  show "run_query (query_of (ActiveRules at)) (database_of vs ix) = Inr (answer_of (ActiveRules at) ix)"
    unfolding query_of.simps
  proof (rule trans [OF rules.ordered_query [where srt = "sort_key rank_of" and p = "rule_active_at (formatTime at)"]])
    show "sort_key (\<lambda>r. order_of [(''priority'', Descending), (''version'', Descending)] (rules.stored r)) rs = sort_key rank_of rs" for rs
      by (rule sort_ascending) (auto simp: stored_cells rank_of_def)
  qed (simp_all add: queried selects active_rules_def)
  show "run_query (query_of ActiveFailures) (database_of vs ix) = Inr (answer_of ActiveFailures ix)"
    unfolding query_of.simps
    by (rule trans [OF failures.ordered_query [where srt = "sort_key fail_LastFailedAt" and p = "\<lambda>r. fail_Status r = FailureStatusActive"]],
        simp add: queried, simp add: stored_cells status_names(2) [OF _ assms], rule sort_ascending, simp add: stored_cells,
        simp add: active_failures_def)
qed

lemma queries_agree:
  assumes "named_statuses ix"
  shows "map_sum id (fetched q) (run_query (query_of q) (database_of vs ix)) = Inr (answer_of q ix)"
proof -
  have whole: "map_sum id (fetched q) (Inr rows) = Inr rows" if "\<not> one_row_only q" for q rows
    using that by (simp add: fetched_def)
  show ?thesis
    by (cases q; (simp only: by_key_answers; fail)?)
      (simp_all only: listed_answers sorted_answers status_answers [OF assms] whole one_row_only.simps simp_thms not_False_eq_True)
qed

lemma counts_agree:
  "run_count ''items'' (items_clause flt now) (database_of vs ix) = Inr (int (length (filter (item_where flt now) (tab_items ix))))"
  "run_count ''audit_entries'' (audit_clause aflt) (database_of vs ix) = Inr (int (length (filter (audit_where aflt) (tab_audit_entries ix))))"
  "run_count ''import_batches'' (batches_clause bflt) (database_of vs ix) = Inr (int (length (filter (batch_where bflt) (tab_import_batches ix))))"
  using items.count [OF clause_columns(1) clauses(1)] audits.count [OF clause_columns(2) clauses(2)]
    batches.count [OF clause_columns(3) clauses(3)] by simp_all

lemma highest_version_agrees: "run_max ''rules'' ''version'' (database_of vs ix) = Inr (latest_version ix)"
proof -
  have "[n. Integer n \<leftarrow> map (\<lambda>row. cell row ''version'') (map rules.stored rs)] = map rule_Version rs" for rs
    by (induction rs) (simp_all add: stored_cells)
  then show ?thesis
    by (simp add: run_max_def rules.the_image rules.known queried latest_version_def)
qed

lemma groups_agree:
  assumes "inj_on status_name (case_Status ` set (tab_items ix))"
  shows "run_groups ''items'' ''status'' (database_of vs ix) = Inr (map (\<lambda>(s, n). (Text (status_name s), n)) (status_counts ix))"
proof -
  let ?f = "\<lambda>s. Text (status_name s)"
  have remdups: "remdups (map ?f ss) = map ?f (remdups ss)" if "inj_on status_name (set ss)" for ss
    using that by (induction ss) (auto simp: inj_on_def)
  have counts: "length (filter (\<lambda>x. x = ?f s) (map ?f ss)) = length (filter (\<lambda>x. x = s) ss)"
    if "inj_on status_name (set ss)" "s \<in> set ss" for s ss
    using that by (auto simp: filter_map comp_def inj_on_def intro!: arg_cong [of _ _ length] filter_cong)
  let ?ss = "map case_Status (tab_items ix)"
  have "run_groups ''items'' ''status'' (database_of vs ix)
      = Inr (map (\<lambda>v. (v, int (length (filter (\<lambda>x. x = v) (map ?f ?ss))))) (remdups (map ?f ?ss)))"
    by (simp add: run_groups_def items.the_image items.known queried stored_cells comp_def Let_def)
  also have "\<dots> = Inr (map (\<lambda>(s, n). (?f s, n)) (status_counts ix))"
    using assms counts [of ?ss] remdups [of ?ss] by (simp add: status_counts_def filter_map comp_def)
  finally show ?thesis .
qed

section \<open>The operations execute the statements\<close>

lemma exec_one_row: "bindM (mapErr f (exec (\<lambda>ix. one_row (g ix)))) (\<lambda>_. retM ()) = mapErr f (exec g)"
proof
  fix w :: "'a db_scheme"
  obtain r w1 where "external w = (r, w1)" by (cases "external w")
  then show "bindM (mapErr f (exec (\<lambda>ix. one_row (g ix)))) (\<lambda>_. retM ()) w = mapErr f (exec g) w"
    by (cases r; cases "g (db_index w1)") (auto simp: exec_def one_row_def bindM_def mapErr_def retM_def)
qed

lemma exec_any_rows:
  "bindM (mapErr f (exec (\<lambda>ix. Inr (n ix, g ix)))) (\<lambda>_. retM ()) = mapErr f (exec (\<lambda>ix. Inr ((), g ix)))"
proof
  fix w :: "'a db_scheme"
  obtain r w1 where "external w = (r, w1)" by (cases "external w")
  then show "bindM (mapErr f (exec (\<lambda>ix. Inr (n ix, g ix)))) (\<lambda>_. retM ()) w = mapErr f (exec (\<lambda>ix. Inr ((), g ix))) w"
    by (cases r) (auto simp: exec_def bindM_def mapErr_def retM_def)
qed

lemma effects:
  "effect_of (PutItem i) = (\<lambda>ix. one_row (put_item (row_of_item i) ix))"
  "effect_of (SetItem i) = (\<lambda>ix. Inr (affected (\<lambda>r. case_ID r = case_ID i) (tab_items ix), update_item i ix))"
  "effect_of (PutReferral a) = (\<lambda>ix. one_row (put_assignment (row_of_referral a) ix))"
  "effect_of (SupersedeReferrals itemID) = (\<lambda>ix. Inr (affected (\<lambda>r. ref_ItemID r = itemID \<and> ref_IsCurrent r) (tab_assignments ix), supersede_assignments itemID ix))"
  "effect_of (PutEscalation e) = (\<lambda>ix. one_row (put_escalation (row_of_escalation e) ix))"
  "effect_of (SetEscalated itemID newLead newLevel newDeadline newStatus now) = (\<lambda>ix. Inr (affected (\<lambda>r. case_ID r = itemID) (tab_items ix), set_escalated itemID newLead newLevel newDeadline newStatus now ix))"
  "effect_of (PutAudit d) = (\<lambda>ix. one_row (put_audit (row_of_audit d) ix))"
  "effect_of (PutFailure f) = (\<lambda>ix. one_row (put_failure (row_of_failure f) ix))"
  "effect_of (SetFailure f) = (\<lambda>ix. Inr (affected (\<lambda>r. fail_ID r = fail_ID f) (tab_permanent_failures ix), update_failure f ix))"
  "effect_of (ResolveFailure failureID at) = (\<lambda>ix. Inr (affected (\<lambda>r. fail_ID r = failureID) (tab_permanent_failures ix), resolve_failure failureID at ix))"
  "effect_of (PutBatch b) = (\<lambda>ix. one_row (put_batch (row_of_batch b) ix))"
  "effect_of (PutRule ru) = (\<lambda>ix. one_row (put_rule (row_of_rule ru) ix))"
  "effect_of (EndRule version now) = (\<lambda>ix. Inr (affected (\<lambda>r. rule_Version r = version) (tab_rules ix), supersede_rule version now ix))"
  "effect_of (PutManifest entry) = (\<lambda>ix. Inr (1, put_manifest entry ix))"
  by (simp_all add: fun_eq_iff)

lemma operations_execute:
  "InsertItem i = bindM (mapErr (Wrap ''insert item'') (exec (effect_of (PutItem i)))) (\<lambda>_. retM ())"
  "UpdateItem i = bindM (mapErr (Wrap ''update item'') (exec (effect_of (SetItem i)))) require_affected"
  "InsertAssignment a = bindM (mapErr (Wrap ''insert referral'') (exec (effect_of (PutReferral a)))) (\<lambda>_. retM ())"
  "MarkAssignmentSuperseded k = bindM (mapErr (Wrap ''mark referral superseded'') (exec (effect_of (SupersedeReferrals k)))) (\<lambda>_. retM ())"
  "InsertEscalation e = bindM (mapErr (Wrap ''insert escalation'') (exec (effect_of (PutEscalation e)))) (\<lambda>_. retM ())"
  "UpdateItemForEscalation k lead level dl st = bindM WallNow (\<lambda>now.
     bindM (mapErr (Wrap ''update item for escalation'') (exec (effect_of (SetEscalated k lead level dl st now)))) require_affected)"
  "InsertAudit d = bindM (mapErr (Wrap ''insert audit'') (exec (effect_of (PutAudit d)))) (\<lambda>_. retM ())"
  "InsertFailure f = bindM (mapErr (Wrap ''insert failure'') (exec (effect_of (PutFailure f)))) (\<lambda>_. retM ())"
  "UpdateFailure f = bindM (mapErr (Wrap ''update failure'') (exec (effect_of (SetFailure f)))) require_affected"
  "MarkFailureResolved k at = bindM (mapErr (Wrap ''mark failure resolved'') (exec (effect_of (ResolveFailure k at)))) require_affected"
  "InsertBatch b = bindM (mapErr (Wrap ''insert batch'') (exec (effect_of (PutBatch b)))) (\<lambda>_. retM ())"
  "InsertRule r = bindM (mapErr (Wrap ''insert rule'') (exec (effect_of (PutRule r)))) (\<lambda>_. retM ())"
  "SupersedeRule v = bindM WallNow (\<lambda>now.
     bindM (mapErr (Wrap ''supersede rule'') (exec (effect_of (EndRule v now)))) (\<lambda>_. retM ()))"
  "UpsertManifest m = bindM (mapErr (Wrap ''upsert manifest'') (exec (effect_of (PutManifest m)))) (\<lambda>_. retM ())"
  by (simp_all only: effects exec_one_row exec_any_rows InsertItem_def UpdateItem_def InsertAssignment_def
      MarkAssignmentSuperseded_def InsertEscalation_def UpdateItemForEscalation_def InsertAudit_def InsertFailure_def
      UpdateFailure_def MarkFailureResolved_def InsertBatch_def InsertRule_def SupersedeRule_def UpsertManifest_def)

lemma queries_answer:
  assumes "named_statuses ix"
  shows "map_sum id (fetched q) (run_query (query_of q) (database_of vs ix)) = Inr (answer_of q ix)
    \<and> run_count ''items'' (items_clause flt now) (database_of vs ix) = Inr (int (length (filter (item_where flt now) (tab_items ix))))
    \<and> run_count ''audit_entries'' (audit_clause aflt) (database_of vs ix) = Inr (int (length (filter (audit_where aflt) (tab_audit_entries ix))))
    \<and> run_count ''import_batches'' (batches_clause bflt) (database_of vs ix) = Inr (int (length (filter (batch_where bflt) (tab_import_batches ix))))
    \<and> run_max ''rules'' ''version'' (database_of vs ix) = Inr (latest_version ix)
    \<and> run_groups ''items'' ''status'' (database_of vs ix) = Inr (map (\<lambda>(s, n). (Text (status_name s), n)) (status_counts ix))"
  using queries_agree [OF assms] counts_agree highest_version_agrees groups_agree [OF named_inj [OF assms]] by simp

section \<open>The result\<close>

text \<open>
  C17: The operations of the index are what the SQL does. The scripts make the tables of an empty
  index; and on the tables of any index, each statement that writes, with the columns and values
  of the source, succeeds or fails as the operation of Index does, affects as many rows, and
  leaves the tables of the index that the operation leaves: no statement names a column that is
  not there, leaves out one that needs a value, or stores NULL in one that must not be NULL.
\<close>

theorem statements_refine:
  "exec_script (init_script @ retry_count_script) empty_database = Inr ((), database_of [] empty_index)
    \<and> run_statement (statement_of s) (database_of vs ix) = bindE (effect_of s ix) (\<lambda>(n, ix'). Inr (n, database_of vs ix'))
    \<and> list_all (\<lambda>(t, clear). \<exists>n. run_statement (DeleteFrom t) (database_of vs ix) = Inr (n, database_of vs (clear ix))) delete_from"
proof (intro conjI deletes_agree)
  show "exec_script (init_script @ retry_count_script) empty_database = Inr ((), database_of [] empty_index)"
    by (simp only: scripts_make empty_image)
  show "run_statement (statement_of s) (database_of vs ix) = bindE (effect_of s ix) (\<lambda>(n, ix'). Inr (n, database_of vs ix'))"
    using statements_agree [of vs s] by (simp add: agrees_def)
qed

end
