(* ===== verification/Rows.thy ===== *)
theory Rows
  imports Statements Go_Numbers
begin

text \<open>
  Reading a row: what \<open>row.Scan\<close> makes of the values of the columns, in the order of the
  destinations that the scan functions of index/queries.go and \<open>ListManifest\<close> name, and the lists
  and truth values that these decode. The times of a row stay texts here; the theory Index parses them.
\<close>

section \<open>Values\<close>

fun scan_text :: "sql_value \<Rightarrow> err + string" where
  "scan_text Null = Inl (ErrExternal ''converting NULL to string is unsupported'')"
| "scan_text (Integer n) = Inr (show_int n)"
| "scan_text (Text s) = Inr s"

fun scan_number :: "sql_value \<Rightarrow> err + int" where
  "scan_number Null = Inl (ErrExternal ''converting NULL to int is unsupported'')"
| "scan_number (Integer n) = Inr n"
| "scan_number (Text s) = (case Atoi s of Some n \<Rightarrow> Inr n
     | None \<Rightarrow> Inl (ErrExternal (''converting driver.Value type string ('' @ s @ '') to a int: invalid syntax'')))"

fun scan_nullable :: "sql_value \<Rightarrow> err + string option" where
  \<comment> \<open>\<open>sql.NullString\<close>\<close>
  "scan_nullable Null = Inr None"
| "scan_nullable (Integer n) = Inr (Some (show_int n))"
| "scan_nullable (Text s) = Inr (Some s)"

text \<open>One destination after the other; the first value that cannot be converted ends it.\<close>

type_synonym 'r reader = "sql_value list \<Rightarrow> err + 'r"

definition into :: "(sql_value \<Rightarrow> err + 'v) \<Rightarrow> ('v \<Rightarrow> 'r reader) \<Rightarrow> 'r reader" where
  "into scan k vs = (case vs of [] \<Rightarrow> Inl (ErrExternal ''destination arguments in Scan'')
     | v # vs' \<Rightarrow> bindE (scan v) (\<lambda>x. k x vs'))"

definition complete_with :: "'r \<Rightarrow> 'r reader" where
  "complete_with r vs = (if vs = [] then Inr r else Inl (ErrExternal ''destination arguments in Scan''))"

lemma into_simps [simp]: "into scan k (v # vs) = bindE (scan v) (\<lambda>x. k x vs)" "complete_with r [] = Inr r"
  by (simp_all add: into_def complete_with_def)

abbreviation text_into :: "(string \<Rightarrow> 'r reader) \<Rightarrow> 'r reader" where "text_into \<equiv> into scan_text"

abbreviation int_into :: "(int \<Rightarrow> 'r reader) \<Rightarrow> 'r reader" where "int_into \<equiv> into scan_number"

abbreviation nullable_into :: "(string option \<Rightarrow> 'r reader) \<Rightarrow> 'r reader" where "nullable_into \<equiv> into scan_nullable"

definition rule_status_of :: "string \<Rightarrow> RuleStatus" where
  "rule_status_of s = (case find (\<lambda>st. rule_status_name st = s) [RuleStatusDraft, RuleStatusActive, RuleStatusSuperseded]
     of Some st \<Rightarrow> st | None \<Rightarrow> RuleStatusOther s)"

definition failure_status_of :: "string \<Rightarrow> FailureStatus" where
  "failure_status_of s = (case find (\<lambda>st. failure_status_name st = s) [FailureStatusActive, FailureStatusRetried,
     FailureStatusResolved] of Some st \<Rightarrow> st | None \<Rightarrow> FailureStatusOther s)"

section \<open>Rows\<close>

definition read_item :: "item_row reader" where
  "read_item =
     text_into (\<lambda>itemID. text_into (\<lambda>externalRef. text_into (\<lambda>title. text_into (\<lambda>description.
     text_into (\<lambda>operatorName. text_into (\<lambda>operatorContact. text_into (\<lambda>matJSON.
     text_into (\<lambda>category. text_into (\<lambda>kwJSON. text_into (\<lambda>status. text_into (\<lambda>leadDepartment.
     text_into (\<lambda>coJSON. int_into (\<lambda>ruleVersion. text_into (\<lambda>regAt. text_into (\<lambda>registeredBy.
     text_into (\<lambda>deadline. int_into (\<lambda>escalationLevel. text_into (\<lambda>storeID.
     nullable_into (\<lambda>completedAt. nullable_into (\<lambda>cancelledAt. text_into (\<lambda>cancelReason.
     text_into (\<lambda>shardPath. int_into (\<lambda>shardOffset. int_into (\<lambda>dataVersion.
     text_into (\<lambda>createdAt. text_into (\<lambda>updatedAt.
     complete_with \<lparr>case_ID = itemID, case_ExternalRef = externalRef, case_Title = title, case_Description = description,
       case_OperatorName = operatorName, case_OperatorContact = operatorContact, case_Materials = decodeSlice matJSON,
       case_Category = category, case_Keywords = decodeSlice kwJSON, case_Status = status_of status,
       case_LeadDepartment = leadDepartment, case_CoDepartments = decodeSlice coJSON, case_RuleVersion = ruleVersion,
       case_RegisteredAt = regAt, case_RegisteredBy = registeredBy, case_Deadline = deadline,
       case_EscalationLevel = escalationLevel, case_StoreID = storeID, case_CompletedAt = completedAt,
       case_CancelledAt = cancelledAt, case_CancelReason = cancelReason, case_ShardPath = shardPath,
       case_ShardOffset = shardOffset, case_DataVersion = dataVersion, case_CreatedAt = createdAt,
       case_UpdatedAt = updatedAt\<rparr>))))))))))))))))))))))))))"

definition read_rule :: "rule_row reader" where
  "read_rule =
     int_into (\<lambda>version. text_into (\<lambda>name. text_into (\<lambda>description. text_into (\<lambda>mkJSON.
     text_into (\<lambda>matchCategory. text_into (\<lambda>leadDepartment. text_into (\<lambda>coJSON. int_into (\<lambda>priority.
     int_into (\<lambda>isDefault. text_into (\<lambda>effFrom. nullable_into (\<lambda>effTo. text_into (\<lambda>status. text_into (\<lambda>createdAt.
     text_into (\<lambda>createdBy. text_into (\<lambda>shardPath. int_into (\<lambda>dataVersion.
     complete_with \<lparr>rule_Version = version, rule_Name = name, rule_Description = description,
       rule_MatchKeywords = decodeSlice mkJSON, rule_MatchCategory = matchCategory, rule_LeadDepartment = leadDepartment,
       rule_CoDepartments = decodeSlice coJSON, rule_Priority = priority, rule_IsDefault = (isDefault \<noteq> 0),
       rule_EffectiveFrom = effFrom, rule_EffectiveTo = effTo, rule_Status = rule_status_of status,
       rule_CreatedAt = createdAt, rule_CreatedBy = createdBy, rule_ShardPath = shardPath,
       rule_DataVersion = dataVersion\<rparr>))))))))))))))))"

definition read_referral :: "referral_row reader" where
  "read_referral =
     text_into (\<lambda>refID. text_into (\<lambda>itemID. text_into (\<lambda>leadDepartment. text_into (\<lambda>coJSON. int_into (\<lambda>ruleVersion.
     text_into (\<lambda>adjAt. text_into (\<lambda>adjudicatedBy. int_into (\<lambda>isCurrent. text_into (\<lambda>shardPath. int_into (\<lambda>dataVersion.
     complete_with \<lparr>ref_ID = refID, ref_ItemID = itemID, ref_LeadDepartment = leadDepartment,
       ref_CoDepartments = decodeSlice coJSON, ref_RuleVersion = ruleVersion, ref_AdjudicatedAt = adjAt,
       ref_AdjudicatedBy = adjudicatedBy, ref_IsCurrent = (isCurrent \<noteq> 0), ref_ShardPath = shardPath,
       ref_DataVersion = dataVersion\<rparr>))))))))))"

definition read_escalation :: "escalation_row reader" where
  "read_escalation =
     text_into (\<lambda>escID. text_into (\<lambda>itemID. int_into (\<lambda>fromLevel. int_into (\<lambda>toLevel. text_into (\<lambda>oldLead.
     text_into (\<lambda>newLead. text_into (\<lambda>escAt. text_into (\<lambda>reason. text_into (\<lambda>newDL. text_into (\<lambda>shardPath.
     int_into (\<lambda>dataVersion.
     complete_with \<lparr>esc_ID = escID, esc_ItemID = itemID, esc_FromLevel = fromLevel, esc_ToLevel = toLevel,
       esc_OldLeadDept = oldLead, esc_NewLeadDept = newLead, esc_EscalatedAt = escAt, esc_Reason = reason,
       esc_NewDeadline = newDL, esc_ShardPath = shardPath, esc_DataVersion = dataVersion\<rparr>)))))))))))"

definition read_audit :: "audit_row reader" where
  "read_audit =
     text_into (\<lambda>audID. text_into (\<lambda>entityID. text_into (\<lambda>entityType. text_into (\<lambda>action. text_into (\<lambda>actor.
     text_into (\<lambda>ts. text_into (\<lambda>details. text_into (\<lambda>shardPath. int_into (\<lambda>dataVersion.
     complete_with \<lparr>aud_ID = audID, aud_EntityID = entityID, aud_EntityType = entityType, aud_Action = action,
       aud_Actor = actor, aud_Timestamp = ts, aud_Details = details, aud_ShardPath = shardPath,
       aud_DataVersion = dataVersion\<rparr>)))))))))"

definition read_failure :: "failure_row reader" where
  "read_failure =
     text_into (\<lambda>failID. text_into (\<lambda>entityType. text_into (\<lambda>entityID. text_into (\<lambda>taskType. text_into (\<lambda>lastError.
     int_into (\<lambda>attempts. text_into (\<lambda>firstAt. text_into (\<lambda>lastAt. text_into (\<lambda>status. nullable_into (\<lambda>resolvedAt.
     nullable_into (\<lambda>nextRetry. text_into (\<lambda>backoffState. int_into (\<lambda>dataVersion.
     complete_with \<lparr>fail_ID = failID, fail_EntityType = entityType, fail_EntityID = entityID, fail_TaskType = taskType,
       fail_LastError = lastError, fail_Attempts = attempts, fail_FirstFailedAt = firstAt, fail_LastFailedAt = lastAt,
       fail_Status = failure_status_of status, fail_ResolvedAt = resolvedAt, fail_NextRetryAt = nextRetry,
       fail_BackoffState = backoffState, fail_DataVersion = dataVersion\<rparr>)))))))))))))"

definition read_batch :: "batch_row reader" where
  "read_batch =
     text_into (\<lambda>batchID. text_into (\<lambda>storeID. text_into (\<lambda>bd. int_into (\<lambda>totalRows. int_into (\<lambda>successCount.
     int_into (\<lambda>failureCount. text_into (\<lambda>impAt. text_into (\<lambda>shardPath. int_into (\<lambda>dataVersion.
     complete_with \<lparr>batch_ID = batchID, batch_StoreID = storeID, batch_BatchDate = bd, batch_TotalRows = totalRows,
       batch_SuccessCount = successCount, batch_FailureCount = failureCount, batch_ImportedAt = impAt,
       batch_ShardPath = shardPath, batch_DataVersion = dataVersion\<rparr>)))))))))"

definition read_manifest :: "ManifestEntry reader" where
  "read_manifest =
     text_into (\<lambda>shardID. text_into (\<lambda>entityType. text_into (\<lambda>shardPath. text_into (\<lambda>checksum. int_into (\<lambda>recordCount.
     text_into (\<lambda>minKey. text_into (\<lambda>maxKey. text_into (\<lambda>dateKey. text_into (\<lambda>status. text_into (\<lambda>createdAt.
     text_into (\<lambda>updatedAt.
     complete_with \<lparr>man_ShardID = shardID, man_EntityType = entityType, man_ShardPath = shardPath, man_Checksum = checksum,
       man_RecordCount = recordCount, man_MinKey = minKey, man_MaxKey = maxKey, man_DateKey = dateKey, man_Status = status,
       man_CreatedAt = createdAt, man_UpdatedAt = updatedAt\<rparr>)))))))))))"

section \<open>What was bound is read\<close>

lemma nullable_back [simp]: "scan_nullable (nullable_text s) = Inr s"
  by (cases s) (simp_all add: nullable_text_def)

lemma bool_back [simp]: "(boolToInt b \<noteq> 0) = b"
  by (simp add: boolToInt_def)

lemma rows_back:
  "status_of (status_name (case_Status i)) = case_Status i \<Longrightarrow> read_item (item_values i) = Inr i"
  "rule_status_of (rule_status_name (rule_Status r)) = rule_Status r \<Longrightarrow> read_rule (rule_values r) = Inr r"
  "read_referral (referral_values a) = Inr a"
  "read_escalation (escalation_values e) = Inr e"
  "read_audit (audit_values d) = Inr d"
  "failure_status_of (failure_status_name (fail_Status f)) = fail_Status f \<Longrightarrow> read_failure (failure_values f) = Inr f"
  "read_batch (batch_values b) = Inr b"
  "read_manifest (manifest_values m) = Inr m"
  by (simp_all add: read_item_def item_values_def read_rule_def rule_values_def read_referral_def referral_values_def
      read_escalation_def escalation_values_def read_audit_def audit_values_def read_failure_def failure_values_def
      read_batch_def batch_values_def read_manifest_def manifest_values_def decode_encode)

end
