(* ===== verification/Reading_Facts.thy ===== *)
theory Reading_Facts
  imports Statement_Facts Rows
begin

text \<open>
  The queries of the program, from the SQL to the rows that the scan functions are given: what
  the theory Index selects is what the query returns and \<open>row.Scan\<close> reads.
\<close>

section \<open>Rows of any table\<close>

datatype any_row =
    ItemRow item_row
  | RuleRow rule_row
  | ReferralRow referral_row
  | EscalationRow escalation_row
  | AuditRow audit_row
  | FailureRow failure_row
  | BatchRow batch_row
  | ManifestRow ManifestEntry

fun row_values :: "any_row \<Rightarrow> sql_value list" where
  "row_values (ItemRow i) = item_values i"
| "row_values (RuleRow r) = rule_values r"
| "row_values (ReferralRow a) = referral_values a"
| "row_values (EscalationRow e) = escalation_values e"
| "row_values (AuditRow d) = audit_values d"
| "row_values (FailureRow f) = failure_values f"
| "row_values (BatchRow b) = batch_values b"
| "row_values (ManifestRow m) = manifest_values m"

fun selected_rows :: "reading \<Rightarrow> index \<Rightarrow> any_row list" where
  \<comment> \<open>the rows that the theory Index selects\<close>
  "selected_rows (ItemByID k) ix = map ItemRow (optional (find_row case_ID k tab_items ix))"
| "selected_rows (ItemByExternalRef k) ix = map ItemRow (optional (find_row case_ExternalRef k tab_items ix))"
| "selected_rows (ItemList flt now) ix = map ItemRow (listed_items flt now ix)"
| "selected_rows (OverdueItems now maxLevel) ix = map ItemRow (overdue_items now maxLevel ix)"
| "selected_rows (RuleByVersion v) ix = map RuleRow (optional (find_row rule_Version v tab_rules ix))"
| "selected_rows (ActiveRules at) ix = map RuleRow (active_rules (formatTime at) ix)"
| "selected_rows RuleList ix = map RuleRow (listed_rules ix)"
| "selected_rows (ReferralsOf k) ix = map ReferralRow (listed_referrals k ix)"
| "selected_rows (CurrentReferral k) ix = map ReferralRow (optional (current_referral k ix))"
| "selected_rows (EscalationsOf k) ix = map EscalationRow (listed_escalations k ix)"
| "selected_rows (AuditList flt) ix = map AuditRow (listed_audit flt ix)"
| "selected_rows ActiveFailures ix = map FailureRow (active_failures ix)"
| "selected_rows (FailureByID k) ix = map FailureRow (optional (find_row fail_ID k tab_permanent_failures ix))"
| "selected_rows (BatchList flt) ix = map BatchRow (listed_batches flt ix)"
| "selected_rows ManifestList ix = map ManifestRow (listed_manifests ix)"

lemma answer_rows: "answer_of q ix = map row_values (selected_rows q ix)"
  by (cases q) (simp_all add: comp_def)

fun read_row :: "reading \<Rightarrow> any_row reader" where
  \<comment> \<open>the scan function that is given the rows of the query\<close>
  "read_row (RuleByVersion v) = map_sum id RuleRow \<circ> read_rule"
| "read_row (ActiveRules at) = map_sum id RuleRow \<circ> read_rule"
| "read_row RuleList = map_sum id RuleRow \<circ> read_rule"
| "read_row (ReferralsOf k) = map_sum id ReferralRow \<circ> read_referral"
| "read_row (CurrentReferral k) = map_sum id ReferralRow \<circ> read_referral"
| "read_row (EscalationsOf k) = map_sum id EscalationRow \<circ> read_escalation"
| "read_row (AuditList flt) = map_sum id AuditRow \<circ> read_audit"
| "read_row ActiveFailures = map_sum id FailureRow \<circ> read_failure"
| "read_row (FailureByID k) = map_sum id FailureRow \<circ> read_failure"
| "read_row (BatchList flt) = map_sum id BatchRow \<circ> read_batch"
| "read_row ManifestList = map_sum id ManifestRow \<circ> read_manifest"
| "read_row q = map_sum id ItemRow \<circ> read_item"

section \<open>Statuses\<close>

text \<open>A status that stands for its text: none is the other text of a constructor's name.\<close>

definition canonical :: "index \<Rightarrow> bool" where
  "canonical ix \<longleftrightarrow> (\<forall>i \<in> set (tab_items ix). status_of (status_name (case_Status i)) = case_Status i)
     \<and> (\<forall>r \<in> set (tab_rules ix). rule_status_of (rule_status_name (rule_Status r)) = rule_Status r)
     \<and> (\<forall>f \<in> set (tab_permanent_failures ix). failure_status_of (failure_status_name (fail_Status f)) = fail_Status f)"

lemma canonical_named: "canonical ix \<Longrightarrow> named_statuses ix"
proof -
  have item: "named_status s" if "status_of (status_name s) = s" for s
    using that by (auto simp: named_status_def status_of_def)
  have rule: "s \<noteq> RuleStatusOther ''active''" if "rule_status_of (rule_status_name s) = s" for s
    using that by (auto simp: rule_status_of_def rule_status_name_def)
  have failure: "s \<noteq> FailureStatusOther ''permanent_failure''" if "failure_status_of (failure_status_name s) = s" for s
    using that by (auto simp: failure_status_of_def failure_status_name_def)
  show "canonical ix \<Longrightarrow> named_statuses ix"
    using item rule failure unfolding canonical_def named_statuses_def by blast
qed

lemma page_subset: "set (page n k xs) \<subseteq> set xs"
  using set_take_subset set_drop_subset by (force simp: page_def)

lemma found_there: "r \<in> set (optional (find_row key k tab ix)) \<Longrightarrow> r \<in> set (tab ix)"
  by (cases "find_row key k tab ix") (auto simp: optional_def find_row_def dest: find_key_Some)

lemma selected_there:
  "i \<in> set (listed_items flt now ix) \<Longrightarrow> i \<in> set (tab_items ix)"
  "i \<in> set (overdue_items now n ix) \<Longrightarrow> i \<in> set (tab_items ix)"
  "r \<in> set (active_rules t ix) \<Longrightarrow> r \<in> set (tab_rules ix)"
  "r \<in> set (listed_rules ix) \<Longrightarrow> r \<in> set (tab_rules ix)"
  "f \<in> set (active_failures ix) \<Longrightarrow> f \<in> set (tab_permanent_failures ix)"
  by (auto simp: listed_items_def overdue_items_def active_rules_def listed_rules_def active_failures_def
      dest!: subsetD [OF page_subset])

lemma selected_back:
  assumes "canonical ix" and "x \<in> set (selected_rows q ix)"
  shows "read_row q (row_values x) = Inr x"
  using assms by (cases q) (auto simp: canonical_def rows_back dest!: found_there selected_there)

lemma mapE_back: "(\<And>x. x \<in> set xs \<Longrightarrow> f (g x) = Inr x) \<Longrightarrow> mapE f (map g xs) = Inr xs"
  by (induction xs) simp_all

section \<open>The result\<close>

text \<open>
  C18: The selections of the index are what its queries ask for and what is read of their rows. On
  the tables of any index whose statuses are canonical, each SELECT, with the columns, conditions
  and order of the source, returns rows of which the scan function, with its destinations, its
  decoding of lists and truth values, reads exactly the rows that the operation of Index selects,
  in the same order; a query for one row gives the first. The counts, the greatest version and
  the counts by status agree, too.
\<close>

theorem queries_refine:
  assumes "canonical ix"
  shows "bindE (map_sum id (fetched q) (run_query (query_of q) (database_of vs ix))) (mapE (read_row q)) = Inr (selected_rows q ix)
    \<and> run_count ''items'' (items_clause flt now) (database_of vs ix) = Inr (int (length (filter (item_where flt now) (tab_items ix))))
    \<and> run_count ''audit_entries'' (audit_clause aflt) (database_of vs ix) = Inr (int (length (filter (audit_where aflt) (tab_audit_entries ix))))
    \<and> run_count ''import_batches'' (batches_clause bflt) (database_of vs ix) = Inr (int (length (filter (batch_where bflt) (tab_import_batches ix))))
    \<and> run_max ''rules'' ''version'' (database_of vs ix) = Inr (latest_version ix)
    \<and> run_groups ''items'' ''status'' (database_of vs ix) = Inr (map (\<lambda>(s, n). (Text (status_name s), n)) (status_counts ix))"
proof -
  have "mapE (read_row q) (map row_values (selected_rows q ix)) = Inr (selected_rows q ix)"
    by (rule mapE_back) (rule selected_back [OF assms])
  then show ?thesis using queries_answer [OF canonical_named [OF assms]] by (simp add: answer_rows)
qed

theorem queries_refine_witness:
  "\<exists>r. bindE (run_query (query_of (ActiveRules 5)) (database_of [] (empty_index\<lparr>tab_rules := [row_of_rule r]\<rparr>)))
     (mapE (read_row (ActiveRules 5))) = Inr [RuleRow (row_of_rule r)]"
proof -
  let ?r = "\<lparr>rule_Version = 1, rule_Name = ''default'', rule_Description = '''', rule_MatchKeywords = [''shop''], rule_MatchCategory = '''',
    rule_LeadDepartment = ''market'', rule_CoDepartments = [], rule_Priority = 1, rule_IsDefault = True, rule_EffectiveFrom = 0,
    rule_EffectiveTo = 0, rule_Status = RuleStatusActive, rule_CreatedAt = 5, rule_CreatedBy = ''admin'', rule_ShardPath = '''',
    rule_DataVersion = 2\<rparr>"
  let ?ix = "empty_index\<lparr>tab_rules := [row_of_rule ?r]\<rparr>"
  have c: "canonical ?ix" by (simp add: canonical_def empty_index_def row_of_rule_def rule_status_of_def rule_status_name_def)
  have "selected_rows (ActiveRules 5) ?ix = [RuleRow (row_of_rule ?r)]"
    by (simp add: active_rules_def rule_active_at_def row_of_rule_def formatTime_def formatTimeVal_def IsZero_def)
  with queries_refine [OF c, of "ActiveRules 5" "[]"] show ?thesis
    by (intro exI [of _ ?r]) (cases "run_query (query_of (ActiveRules 5)) (database_of [] ?ix)"; simp add: fetched_def)
qed

end
