(* ===== verification/Schema_Facts.thy ===== *)
theory Schema_Facts
  imports Schema Success Statement_Facts
begin

text \<open>
  What opening the store makes of the database: the tables that the statements of the program
  need, from any state that earlier runs of the migrations, finished or not, have left.
\<close>

section \<open>Scripts\<close>

lemma exec_append: "exec_script (s @ t) d = bindE (exec_script s d) (\<lambda>(_, d'). exec_script t d')"
proof (induction s arbitrary: d)
  case (Cons x xs)
  show ?case by (cases "exec_ddl x d") (auto simp: Cons.IH)
qed simp

definition script_of :: "scripts \<Rightarrow> string \<Rightarrow> ddl list" where
  "script_of entries n = (case map_of entries n of None \<Rightarrow> [] | Some s \<Rightarrow> s)"

definition history :: "scripts \<Rightarrow> string list \<Rightarrow> ddl list" where
  \<comment> \<open>what was executed when these scripts were committed\<close>
  "history entries names = CreateTable ''schema_version'' schema_version_columns # concat (map (script_of entries) names)"

definition made :: "scripts \<Rightarrow> 'a schemas_scheme \<Rightarrow> bool" where
  "made entries w \<longleftrightarrow> exec_script (history entries (sd_scripts w)) empty_database = Inr ((), sd_made w)"

lemma history_append: "history entries (ns @ ms) = history entries ns @ concat (map (script_of entries) ms)"
  by (simp add: history_def)

lemma made_more:
  assumes "made entries w" and "exec_script (script_of entries n) (sd_made w) = Inr ((), d)"
  shows "exec_script (history entries (sd_scripts w @ [n])) empty_database = Inr ((), d)"
  using assms by (simp add: made_def history_append exec_append)

lemma with_table_names:
  assumes "with_table t f d = Inr (r, d')" and "\<And>x x'. f x = Inr (r, x') \<Longrightarrow> tb_Name x' = tb_Name x"
  shows "map tb_Name (dat_Tables d') = map tb_Name (dat_Tables d)"
proof -
  obtain x x' where x: "find_key tb_Name t (dat_Tables d) = Some x" "f x = Inr (r, x')"
      and d': "d' = d\<lparr>dat_Tables := update_where (\<lambda>y. tb_Name y = t) (\<lambda>_. x') (dat_Tables d)\<rparr>"
    using assms(1) by (auto simp: with_table_def bindE_Inr_iff split: option.splits)
  have "tb_Name x' = t" using assms(2) x by (auto dest: find_key_Some)
  then show ?thesis by (simp add: d' update_where_def comp_def if_distrib cong: if_cong)
qed

lemma ddl_keeps_names: "exec_ddl s d = Inr (u, d') \<Longrightarrow> tb_Name ` set (dat_Tables d) \<subseteq> tb_Name ` set (dat_Tables d')"
proof (cases s)
  case (CreateIndex n t c)
  assume run: "exec_ddl s d = Inr (u, d')"
  show ?thesis
  proof (cases "n \<in> set (dat_Indexes d)")
    case False
    with run CreateIndex obtain d1 where d1: "with_table t (\<lambda>x. case known_columns x [c] of Some e \<Rightarrow> Inl e | None \<Rightarrow> Inr ((), x)) d = Inr ((), d1)"
        "dat_Tables d' = dat_Tables d1" by (auto simp: bindE_Inr_iff)
    have "map tb_Name (dat_Tables d1) = map tb_Name (dat_Tables d)"
      by (rule with_table_names [OF d1(1)]) (auto split: option.splits)
    then have "set (map tb_Name (dat_Tables d')) = set (map tb_Name (dat_Tables d))" by (simp only: d1(2))
    then show ?thesis by simp
  qed (use run CreateIndex in simp)
next
  case (AddColumn t c)
  assume "exec_ddl s d = Inr (u, d')"
  with AddColumn have "map tb_Name (dat_Tables d') = map tb_Name (dat_Tables d)"
    by (intro with_table_names [of t "add_column c"]) (auto simp: add_column_def split: if_splits)
  then have "set (map tb_Name (dat_Tables d')) = set (map tb_Name (dat_Tables d))" by (simp only:)
  then show ?thesis by simp
qed (auto split: if_splits)

lemma script_keeps_names: "exec_script ss d = Inr (u, d') \<Longrightarrow> tb_Name ` set (dat_Tables d) \<subseteq> tb_Name ` set (dat_Tables d')"
proof (induction ss arbitrary: d)
  case (Cons s ss)
  then obtain d1 where "exec_ddl s d = Inr ((), d1)" "exec_script ss d1 = Inr (u, d')" by (auto simp: bindE_Inr_iff)
  with Cons.IH ddl_keeps_names show ?case by (meson subset_trans)
qed simp

lemma versions_made:
  assumes "made entries w"
  shows "exec_ddl (CreateTable ''schema_version'' cs) (sd_made w) = Inr ((), sd_made w)"
proof -
  have "''schema_version'' \<in> tb_Name ` set (dat_Tables (sd_made w))"
    using assms script_keeps_names by (fastforce simp: made_def history_def empty_database_def)
  then show ?thesis by simp
qed

section \<open>Where a store can be\<close>

text \<open>
  Before the first run there is nothing; later the table schema_version is there, a first part of
  the scripts was committed, and the tables are those that these have made.
\<close>

definition schema_ok :: "scripts \<Rightarrow> 'a schemas_scheme \<Rightarrow> bool" where
  "schema_ok entries w \<longleftrightarrow> recorded w \<and> (\<exists>k. sd_scripts w = take k (migration_names entries))
     \<and> (case sd_versions w of None \<Rightarrow> sd_made w = empty_database | Some rows \<Rightarrow> made entries w)"

definition same_schema :: "'a schemas_scheme \<Rightarrow> 'a schemas_scheme \<Rightarrow> bool" where
  "same_schema w w' \<longleftrightarrow> sd_versions w' = sd_versions w \<and> sd_scripts w' = sd_scripts w \<and> sd_made w' = sd_made w"

interpretation same: step_preorder same_schema
  by unfold_locales (simp_all add: same_schema_def)

lemma schema_external: "keeps same_schema external"
  by (rule keepsI) (simp add: same_schema_def external_schema)

lemma same_pragmas: "keeps same_schema (run_pragmas ps)"
  by (induction ps) (auto intro!: same.keeps_all schema_external)

lemma same_dirs: "keeps same_schema (make_dirs ts)"
proof (induction ts)
  case (Cons t ts)
  then show ?case unfolding make_dirs.simps by (intro same.keeps_all schema_external)
qed (simp add: same.keeps_ret)

lemma schema_ok_same:
  assumes "same_schema w w'"
  shows "schema_ok entries w' = schema_ok entries w"
proof -
  have "sd_versions w' = sd_versions w" "sd_scripts w' = sd_scripts w" "sd_made w' = sd_made w"
    using assms by (simp_all add: same_schema_def)
  then show ?thesis by (simp only: schema_ok_def recorded_def versions_def made_def)
qed

section \<open>The loop over the scripts\<close>

lemma apply_all_made:
  "apply_all entries applied names w = (r, w') \<Longrightarrow> sd_versions w = Some rows \<Longrightarrow> made entries w \<Longrightarrow>
    made entries w' \<and> (\<exists>rows'. sd_versions w' = Some rows')"
proof (induction names arbitrary: w rows)
  case Nil
  then show ?case by (auto simp: op_simps)
next
  case (Cons n names)
  show ?case
  proof (cases "migrationVersion n")
    case (Inl e)
    with Cons.prems show ?thesis by (auto simp: failM_def)
  next
    case v: (Inr v)
    show ?thesis
    proof (cases "applied v")
      case True
      with Cons v show ?thesis by simp
    next
      case False
      obtain x w1 where x: "applyMigration entries v n w = (x, w1)" by (cases "applyMigration entries v n w")
      note step = applyMigration_cases [OF this Cons.prems(2)]
      show ?thesis
      proof (cases x)
        case (Inl e)
        with Cons.prems v False x step show ?thesis by (auto simp: bindM_def mapErr_def made_def)
      next
        case (Inr u)
        with step obtain script rows' where new: "sd_scripts w1 = sd_scripts w @ [n]" "map_of entries n = Some script"
            "exec_script script (sd_made w) = Inr ((), sd_made w1)" "sd_versions w1 = Some rows'" by auto
        then have "made entries w1" using made_more [OF Cons.prems(3), of n "sd_made w1"]
          by (simp add: made_def script_of_def)
        moreover have "apply_all entries applied names w1 = (r, w')"
          using Cons.prems(1) v False x Inr by (simp add: bindM_def mapErr_def)
        ultimately show ?thesis using Cons.IH new(4) by blast
      qed
    qed
  qed
qed

lemma migrate_made:
  assumes "migrate entries w = (r, w')" and "case sd_versions w of None \<Rightarrow> sd_made w = empty_database \<and> sd_scripts w = [] | Some rows \<Rightarrow> made entries w"
  shows "case sd_versions w' of None \<Rightarrow> sd_made w' = empty_database | Some rows \<Rightarrow> made entries w'"
proof -
  obtain x w1 where x: "create_versions w = (x, w1)" by (cases "create_versions w")
  note created = create_versions_cases [OF x]
  show ?thesis
  proof (cases x)
    case (Inl e)
    with assms x created show ?thesis by (auto simp: migrate_def bindM_def mapErr_def made_def split: option.splits)
  next
    case (Inr u)
    with created have rows: "sd_versions w1 = Some (versions w)" "sd_scripts w1 = sd_scripts w"
      and ddl: "exec_ddl (CreateTable ''schema_version'' schema_version_columns) (sd_made w) = Inr ((), sd_made w1)" by auto
    have m1: "made entries w1"
    proof (cases "sd_versions w")
      case None
      with assms(2) ddl rows show ?thesis by (simp add: made_def history_def)
    next
      case (Some vs)
      with assms(2) have "made entries w" by simp
      with ddl versions_made [OF this] rows show ?thesis by (simp add: made_def del: exec_ddl.simps)
    qed
    obtain y w2 where y: "external w1 = (y, w2)" by (cases "external w1")
    note same = external_schema [OF y]
    have m2: "made entries w2" using m1 same by (simp add: made_def)
    show ?thesis
    proof (cases y)
      case (Inl e)
      with assms(1) x Inr y have "w' = w2" by (simp add: migrate_def appliedMigrations_def bindM_def mapErr_def)
      with m2 same rows show ?thesis by simp
    next
      case (Inr u')
      have "apply_all entries (\<lambda>v. v \<in> sv_version ` set (versions w2)) (migration_names entries) w2 = (r, w')"
        using assms(1) x \<open>x = Inr u\<close> y Inr by (simp add: migrate_def appliedMigrations_def bindM_def mapErr_def getM_def)
      from apply_all_made [OF this _ m2] same rows show ?thesis by fastforce
    qed
  qed
qed

section \<open>The scripts of the program\<close>

lemma history_makes:
  "exec_script (history migrations_FS [''0001_init.sql'', ''0002_add_retry_count.sql'']) empty_database
    = Inr ((), \<lparr>dat_Tables = made_tables, dat_Indexes = made_indexes\<rparr>)"
  by code_simp

lemma committed_versions:
  "recorded w \<Longrightarrow> map Inr (map sv_version (versions w)) = map migrationVersion (sd_scripts w)"
  by (simp add: recorded_def)

lemma pending_embedded:
  assumes "recorded w" and "sd_scripts w = take k (migration_names migrations_FS)"
  shows "pending migrations_FS w = drop k (migration_names migrations_FS)"
proof -
  have "map Inr (map sv_version (versions w)) = map migrationVersion (take k (migration_names migrations_FS))"
    using committed_versions [OF assms(1)] assms(2) by simp
  then have "map sv_version (versions w) = take k [1, 2]"
    by (cases k rule: nat.exhaust) (auto simp: embedded_names embedded_versions take_Cons' split: if_splits)
  then have "set (map sv_version (versions w)) = set (take k [1, 2])" by (rule arg_cong)
  then have vs: "sv_version ` set (versions w) = set (take k [1, 2])" by simp
  consider "k = 0" | "k = 1" | "2 \<le> k" by linarith
  then show ?thesis by cases (simp_all add: pending_def vs embedded_names embedded_versions take_Cons')
qed

lemma migrate_ok:
  assumes "schema_ok migrations_FS w" and "migrate migrations_FS w = (r, w')"
  shows "schema_ok migrations_FS w'"
    and "r = Inr () \<Longrightarrow> sd_made w' = database_of [] empty_index \<and> map sv_version (versions w') = [1, 2]"
proof -
  let ?names = "migration_names migrations_FS"
  obtain k where rec: "recorded w" and k: "sd_scripts w = take k ?names"
    and m: "case sd_versions w of None \<Rightarrow> sd_made w = empty_database | Some rows \<Rightarrow> made migrations_FS w"
    using assms(1) by (auto simp: schema_ok_def)
  have "sd_versions w = None \<Longrightarrow> sd_scripts w = []" using rec by (simp add: recorded_def versions_def)
  with m have "case sd_versions w of None \<Rightarrow> sd_made w = empty_database \<and> sd_scripts w = [] | Some rows \<Rightarrow> made migrations_FS w"
    by (simp split: option.splits)
  note made' = migrate_made [OF assms(2) this]
  note p = pending_embedded [OF rec k]
  from migrate_progress [OF rec assms(2)] obtain j where rec': "recorded w'"
    and j: "sd_scripts w' = take k ?names @ take j (drop k ?names)" by (auto simp: k p)
  then show "schema_ok migrations_FS w'" using made' by (auto simp: schema_ok_def simp flip: take_add)
  assume r: "r = Inr ()"
  then have all: "sd_scripts w' = ?names" using migrate_finished(1) [OF rec, of migrations_FS w'] assms(2) by (simp add: k p)
  then have "versions w' \<noteq> []" using rec' by (auto simp: recorded_def embedded_names)
  then have "sd_versions w' \<noteq> None" by (cases "sd_versions w'") (simp_all add: versions_def)
  with made' all have "exec_script (history migrations_FS ?names) empty_database = Inr ((), sd_made w')"
    by (auto simp: made_def)
  moreover have "map Inr (map sv_version (versions w')) = [Inr 1 :: err + int, Inr 2]"
    using committed_versions [OF rec'] by (simp add: all embedded_names embedded_versions)
  ultimately show "sd_made w' = database_of [] empty_index \<and> map sv_version (versions w') = [1, 2]"
    by (auto simp: embedded_names history_makes empty_image)
qed

section \<open>Without failures outside\<close>

definition quiet :: "'a runtime_scheme \<Rightarrow> bool" where
  "quiet w \<longleftrightarrow> rt_faults w = []"

lemma succeeds_apply:
  assumes "quiet w" "map_of entries n = Some script" "exec_script script (sd_made w) = Inr ((), d)"
    and "sd_versions w = Some rows" "v \<notin> sv_version ` set rows"
  shows "succeeds (applyMigration entries v n) (\<lambda>_ w'. quiet w' \<and> sd_made w' = d
    \<and> (\<exists>row. sv_version row = v \<and> sd_versions w' = Some (rows @ [row]))) w"
  using assms
  by (auto simp: quiet_def succeeds_def applyMigration_def in_tx_def run_script_def insert_version_def versions_def
      bindM_def mapErr_def external_def WallNow_def getM_def modM_def)

lemma succeeds_apply_all:
  fixes w :: "'a schemas_scheme"
  assumes "quiet w" "sd_versions w = Some rows"
    and "\<forall>n \<in> set names. \<exists>v. migrationVersion n = Inr v \<and> map_of entries n \<noteq> None \<and> (v \<in> sv_version ` set rows \<longrightarrow> applied v)"
    and "distinct (map migrationVersion names)"
    and "exec_script (concat (map (script_of entries) (unapplied applied names))) (sd_made w) = Inr ((), d)"
  shows "succeeds (apply_all entries applied names) (\<lambda>_ _. True) w"
  using assms
proof (induction names arbitrary: w rows)
  case (Cons n names)
  then obtain v script where v: "migrationVersion n = Inr v" and s: "map_of entries n = Some script"
    and fresh: "v \<in> sv_version ` set rows \<Longrightarrow> applied v" by auto
  show ?case
  proof (cases "applied v")
    case True
    with Cons v show ?thesis by (simp add: unapplied_def)
  next
    case False
    have "script_of entries n = script" using s by (simp add: script_of_def)
    with False Cons.prems(5) v s obtain d1 where d1: "exec_script script (sd_made w) = Inr ((), d1)"
      "exec_script (concat (map (script_of entries) (unapplied applied names))) d1 = Inr ((), d)"
      by (auto simp: unapplied_def exec_append bindE_Inr_iff)
    have "succeeds (apply_all entries applied names) (\<lambda>_ _. True) w'"
      if w': "quiet w'" "sd_made w' = d1" "sv_version row = v" "sd_versions w' = Some (rows @ [row])" for w' :: "'a schemas_scheme" and row
    proof (rule Cons.IH [OF w'(1,4)])
      show "\<forall>m \<in> set names. \<exists>u. migrationVersion m = Inr u \<and> map_of entries m \<noteq> None
          \<and> (u \<in> sv_version ` set (rows @ [row]) \<longrightarrow> applied u)"
      proof
        fix m assume m: "m \<in> set names"
        then obtain u where u: "migrationVersion m = Inr u" "map_of entries m \<noteq> None" "u \<in> sv_version ` set rows \<longrightarrow> applied u"
          using Cons.prems(3) by auto
        moreover have "u \<noteq> v" using Cons.prems(4) m u(1) v by (auto simp: image_iff)
        ultimately show "\<exists>u. migrationVersion m = Inr u \<and> map_of entries m \<noteq> None
            \<and> (u \<in> sv_version ` set (rows @ [row]) \<longrightarrow> applied u)" using w'(3) by auto
      qed
    qed (use Cons.prems(4) d1(2) w'(2) in simp_all)
    moreover have "v \<notin> sv_version ` set rows" using fresh False by blast
    then have "succeeds (applyMigration entries v n) (\<lambda>_ w'. quiet w' \<and> sd_made w' = d1
        \<and> (\<exists>row. sv_version row = v \<and> sd_versions w' = Some (rows @ [row]))) w"
      by (rule succeeds_apply [OF Cons.prems(1) s d1(1) Cons.prems(2)])
    ultimately have "succeeds (applyMigration entries v n) (\<lambda>_ w'. succeeds (apply_all entries applied names) (\<lambda>_ _. True) w') w"
      by (elim succeeds_mono) blast
    then show ?thesis using v False by (simp add: succeeds_seq)
  qed
qed simp

lemma rest_makes:
  assumes "schema_ok migrations_FS w" and "sd_versions w = Some rows"
  shows "\<exists>d. exec_script (concat (map (script_of migrations_FS) (pending migrations_FS w))) (sd_made w) = Inr ((), d)"
proof -
  let ?names = "migration_names migrations_FS"
  obtain k where rec: "recorded w" and k: "sd_scripts w = take k ?names" and m: "made migrations_FS w"
    using assms by (auto simp: schema_ok_def)
  have "history migrations_FS ?names = history migrations_FS (take k ?names @ drop k ?names)" by simp
  also have "\<dots> = history migrations_FS (sd_scripts w) @ concat (map (script_of migrations_FS) (pending migrations_FS w))"
    by (simp only: history_append k pending_embedded [OF rec k])
  finally have "\<exists>d. exec_script (history migrations_FS (sd_scripts w) @ concat (map (script_of migrations_FS) (pending migrations_FS w)))
      empty_database = Inr ((), d)" using history_makes by (auto simp: embedded_names)
  with m show ?thesis by (simp add: exec_append made_def)
qed

lemma succeeds_migrate:
  assumes "schema_ok migrations_FS w" and "quiet w"
  shows "succeeds (migrate migrations_FS) (\<lambda>_ _. True) w"
proof -
  obtain r w1 where c: "create_versions w = (r, w1)" by (cases "create_versions w")
  then have r: "r = Inr ()" and q1: "quiet w1"
    using assms(2) by (auto simp: create_versions_def bindM_def external_def quiet_def split: if_splits)
  note created = create_versions_cases [OF c]
  then have rows: "sd_versions w1 = Some (versions w)" "sd_scripts w1 = sd_scripts w"
    and ddl: "exec_ddl (CreateTable ''schema_version'' schema_version_columns) (sd_made w) = Inr ((), sd_made w1)"
    using r by auto
  have same: "versions w1 = versions w" using rows by (simp add: versions_def)
  have ok: "schema_ok migrations_FS w1"
  proof (cases "sd_versions w")
    case None
    with assms(1) have "sd_made w = empty_database" "sd_scripts w = []" by (auto simp: schema_ok_def recorded_def versions_def)
    with ddl rows assms(1) same show ?thesis by (auto simp: schema_ok_def recorded_def made_def history_def)
  next
    case (Some vs)
    with assms(1) have m: "made migrations_FS w" by (simp add: schema_ok_def)
    have "sd_made w1 = sd_made w" using ddl versions_made [OF m] by simp
    then have "made migrations_FS w1" using m rows by (simp add: made_def)
    moreover from assms(1) obtain k where "recorded w" "sd_scripts w = take k (migration_names migrations_FS)"
      by (auto simp: schema_ok_def)
    moreover have "recorded w1" using \<open>recorded w\<close> rows(2) same by (simp add: recorded_def)
    moreover have "\<exists>k. sd_scripts w1 = take k (migration_names migrations_FS)"
      using \<open>sd_scripts w = _\<close> rows(2) by (intro exI [of _ k]) simp
    ultimately show ?thesis using rows(1) by (simp add: schema_ok_def)
  qed
  obtain d where d: "exec_script (concat (map (script_of migrations_FS) (pending migrations_FS w1))) (sd_made w1) = Inr ((), d)"
    using rest_makes [OF ok rows(1)] by blast
  have "succeeds (apply_all migrations_FS (\<lambda>v. v \<in> sv_version ` set (versions w1)) (migration_names migrations_FS)) (\<lambda>_ _. True) w1"
  proof (rule succeeds_apply_all [OF q1 rows(1)])
    show "exec_script (concat (map (script_of migrations_FS) (unapplied (\<lambda>v. v \<in> sv_version ` set (versions w1))
        (migration_names migrations_FS)))) (sd_made w1) = Inr ((), d)" using d by (simp add: unapplied_def pending_def)
  qed (simp_all add: embedded_names embedded_versions embedded_scripts same)
  then have "succeeds (bindM appliedMigrations (\<lambda>applied. apply_all migrations_FS applied (migration_names migrations_FS))) (\<lambda>_ _. True) w1"
    using q1 by (simp add: appliedMigrations_def succeeds_seq succeeds_external quiet_def)
  then have "succeeds create_versions (\<lambda>_. succeeds (bindM appliedMigrations (\<lambda>applied.
      apply_all migrations_FS applied (migration_names migrations_FS))) (\<lambda>_ _. True)) w"
    using c r unfolding succeeds_def [of create_versions] by auto
  then show ?thesis by (simp add: migrate_def succeeds_seq)
qed

section \<open>Opening\<close>

lemma same_then:
  assumes "bindM m k w = (r, w')" and "keeps same_schema m"
  obtains (failed) e where "r = Inl e" "same_schema w w'" | (on) a w1 where "same_schema w w1" "k a w1 = (r, w')"
proof -
  obtain x w1 where x: "m w = (x, w1)" by (cases "m w")
  with assms(2) have "same_schema w w1" by (rule keepsD)
  with x assms(1) show thesis by (cases x) (auto simp: bindM_def intro: failed on)
qed

lemma mapErr_first:
  assumes "mapErr f m w = (r, w')"
  obtains r1 where "m w = (r1, w')" "r = Inr () \<longleftrightarrow> r1 = Inr ()"
  using assms by (cases "m w"; cases "fst (m w)") (auto simp: mapErr_def)

lemma NewStore_migrates:
  assumes "NewStore entries dataDir maxShardSize syncOnWrite w = (r, w')"
  obtains (failed) "r \<noteq> Inr ()" "same_schema w w'"
    | (migrated) w1 r1 where "same_schema w w1" "migrate entries w1 = (r1, w')" "r = Inr () \<longleftrightarrow> r1 = Inr ()"
proof -
  let ?last = "mapErr (Wrap ''migrate'') (migrate entries)"
  have m: "keeps same_schema (modM (\<lambda>w. w\<lparr>sh_rootDir := dataDir, sh_maxShardSize := maxShardSize, sh_syncOnWrite := syncOnWrite\<rparr>))"
    by (simp add: keeps_def modM_def same_schema_def)
  have e: "keeps same_schema (mapErr f external)" for f by (intro same.keeps_all schema_external)
  have d: "keeps same_schema (mapErr f EnsureDirs)" for f unfolding EnsureDirs_def by (intro same.keeps_all same_dirs)
  have open_index: thesis if "mapErr (Wrap ''open index'') (OpenIndex entries path) w2 = (r, w')" "same_schema w w2" for path w2
  proof -
    note run = that(1)
    obtain r2 where o: "OpenIndex entries path w2 = (r2, w')" and r2: "r = Inr () \<longleftrightarrow> r2 = Inr ()"
      using run by (rule mapErr_first)
    show thesis
    proof (rule same_then [OF o [unfolded OpenIndex_def] e])
      fix w3 assume s3: "same_schema w2 w3" and o3: "bindM (mapErr (Wrap ''ping sqlite'') external) (\<lambda>_.
         bindM (run_pragmas [''PRAGMA journal_mode=WAL'', ''PRAGMA busy_timeout=5000'', ''PRAGMA foreign_keys=ON'']) (\<lambda>_. ?last)) w3 = (r2, w')"
      show thesis
      proof (rule same_then [OF o3 e])
        fix w4 assume s4: "same_schema w3 w4" and o4: "bindM (run_pragmas [''PRAGMA journal_mode=WAL'', ''PRAGMA busy_timeout=5000'',
            ''PRAGMA foreign_keys=ON'']) (\<lambda>_. ?last) w4 = (r2, w')"
        show thesis
        proof (rule same_then [OF o4 same_pragmas])
          fix w5 assume s5: "same_schema w4 w5" and o5: "?last w5 = (r2, w')"
          obtain r1 where "migrate entries w5 = (r1, w')" "r2 = Inr () \<longleftrightarrow> r1 = Inr ()"
            using o5 by (rule mapErr_first)
          moreover have "same_schema w w5" using that(2) s3 s4 s5 by (simp add: same_schema_def)
          ultimately show thesis using r2 by (intro migrated) simp_all
        qed (use that(2) s3 s4 r2 in \<open>auto simp: same_schema_def intro!: failed\<close>)
      qed (use that(2) s3 r2 in \<open>auto simp: same_schema_def intro!: failed\<close>)
    qed (use that(2) r2 in \<open>auto simp: same_schema_def intro!: failed\<close>)
  qed
  show thesis
  proof (rule same_then [OF assms [unfolded NewStore_def] m])
    fix w1 assume s1: "same_schema w w1" and o1: "bindM (mapErr (Wrap ''ensure shard dirs'') EnsureDirs) (\<lambda>_.
      mapErr (Wrap ''open index'') (OpenIndex entries (dataDir @ ''/index.db''))) w1 = (r, w')"
    show thesis
    proof (rule same_then [OF o1 d])
      fix w2 assume "same_schema w1 w2" "mapErr (Wrap ''open index'') (OpenIndex entries (dataDir @ ''/index.db'')) w2 = (r, w')"
      with s1 open_index show thesis by (simp add: same_schema_def)
    qed (use s1 in \<open>auto simp: same_schema_def intro!: failed\<close>)
  qed (auto intro!: failed)
qed

lemma succeeds_dirs: "quiet w \<Longrightarrow> succeeds (make_dirs ts) Q w \<longleftrightarrow> Q () w"
  by (induction ts) (simp_all add: succeeds_seq succeeds_external quiet_def)

lemma succeeds_pragmas: "quiet w \<Longrightarrow> succeeds (run_pragmas ps) Q w \<longleftrightarrow> Q () w"
  by (induction ps) (simp_all add: succeeds_seq succeeds_external quiet_def)

lemma succeeds_NewStore:
  assumes "schema_ok migrations_FS w" and "quiet w"
  shows "succeeds (NewStore migrations_FS dataDir maxShardSize syncOnWrite) (\<lambda>_ _. True) w"
proof -
  let ?w = "w\<lparr>sh_rootDir := dataDir, sh_maxShardSize := maxShardSize, sh_syncOnWrite := syncOnWrite\<rparr>"
  have q: "quiet ?w" using assms(2) by (simp add: quiet_def)
  have "same_schema w ?w" by (simp add: same_schema_def)
  from schema_ok_same [OF this, of migrations_FS] assms(1) have "schema_ok migrations_FS ?w" by simp
  from succeeds_migrate [OF this q]
  have "succeeds (OpenIndex migrations_FS (dataDir @ ''/index.db'')) (\<lambda>_ _. True) ?w"
    using q by (simp add: OpenIndex_def succeeds_seq succeeds_external [of ?w, folded quiet_def] succeeds_pragmas)
  then have "succeeds (bindM (mapErr (Wrap ''ensure shard dirs'') EnsureDirs) (\<lambda>_.
      mapErr (Wrap ''open index'') (OpenIndex migrations_FS (dataDir @ ''/index.db'')))) (\<lambda>_ _. True) ?w"
    using q by (simp add: succeeds_seq EnsureDirs_def succeeds_dirs)
  then show ?thesis unfolding NewStore_def by (simp add: succeeds_def bindM_def modM_def)
qed

lemma NewStore_ok:
  fixes w :: "'a schemas_scheme"
  assumes "schema_ok migrations_FS w" and "NewStore migrations_FS dataDir maxShardSize syncOnWrite w = (r, w')"
  shows "schema_ok migrations_FS w'"
    and "r = Inr () \<Longrightarrow> sd_made w' = database_of [] empty_index \<and> map sv_version (versions w') = [1, 2]"
proof -
  have "schema_ok migrations_FS w' \<and> (r = Inr () \<longrightarrow> sd_made w' = database_of [] empty_index \<and> map sv_version (versions w') = [1, 2])"
  proof (rule NewStore_migrates [OF assms(2)])
    assume "r \<noteq> Inr ()" "same_schema w w'"
    with assms(1) schema_ok_same show ?thesis by blast
  next
    fix w1 r1 assume run: "same_schema w w1" "migrate migrations_FS w1 = (r1, w')" "r = Inr () \<longleftrightarrow> r1 = Inr ()"
    with assms(1) have "schema_ok migrations_FS w1" using schema_ok_same by blast
    from migrate_ok [OF this run(2)] run(3) show ?thesis by blast
  qed
  then show "schema_ok migrations_FS w'"
    and "r = Inr () \<Longrightarrow> sd_made w' = database_of [] empty_index \<and> map sv_version (versions w') = [1, 2]" by auto
qed

lemma NewStore_quiet:
  assumes "schema_ok migrations_FS w" and "rt_faults w = []"
  shows "\<exists>w'. NewStore migrations_FS dataDir maxShardSize syncOnWrite w = (Inr (), w')"
  using succeeds_NewStore [OF assms(1), of dataDir maxShardSize syncOnWrite] assms(2) by (auto simp: quiet_def succeeds_def)

text \<open>
  Opening the store makes the tables that the statements need. From a new database, or one that
  earlier runs have left, finished or not, \<open>New\<close> leaves one in which a first part of the scripts
  is committed and the tables are those that these make; when it returns no error, both scripts are
  recorded and the tables, with their columns and indexes, are exactly those on which the
  statements of the program were shown to work. It fails only when a call outside fails: no script
  is refused.
\<close>

theorem opened_schema:
  fixes w :: "'a schemas_scheme"
  assumes "schema_ok migrations_FS w" and "NewStore migrations_FS dataDir maxShardSize syncOnWrite w = (r, w')"
  shows "schema_ok migrations_FS w'
    \<and> (r = Inr () \<longrightarrow> sd_made w' = database_of [] empty_index \<and> map sv_version (versions w') = [1, 2])
    \<and> (rt_faults w = [] \<longrightarrow> r = Inr ())"
  using NewStore_ok [OF assms] NewStore_quiet [OF assms(1), of dataDir maxShardSize syncOnWrite] assms(2) by auto

lemma fresh_schema: "schema_ok migrations_FS (fresh_store None [] empty_database)"
  by (auto simp: schema_ok_def recorded_def versions_def fresh_store_def intro: exI [of _ 0])

theorem opened_schema_witness:
  "\<exists>w'. NewStore migrations_FS ''data'' 1024 True (fresh_store None [] empty_database) = (Inr (), w')
     \<and> sd_made w' = database_of [] empty_index"
proof -
  obtain r w' where run: "NewStore migrations_FS ''data'' 1024 True (fresh_store None [] empty_database) = (r, w')"
    by (cases "NewStore migrations_FS ''data'' 1024 True (fresh_store None [] empty_database)")
  with opened_schema [OF fresh_schema run] show ?thesis by (simp add: fresh_store_def)
qed

end
