(* ===== verification/Boot.thy ===== *)
theory Boot
  imports Process Schema_Facts Auth_Facts
begin

text \<open>
  How the program comes up (cmd/wuxiangai, from its first line to \<open>ListenAndServe\<close>, and the path of
  the file of the users in the constructor of the server): the configuration is loaded, the store is
  opened with its migrations, the users are opened, and the loops are started. The stores are given
  by the directory, the files of users by their path.
\<close>

section \<open>Paths\<close>

text \<open>Of the package path/filepath, on Unix.\<close>

fun split_slash :: "string \<Rightarrow> string list" where
  "split_slash [] = [[]]"
| "split_slash (c # s) = (if c = CHR ''/'' then [] # split_slash s
     else case split_slash s of [] \<Rightarrow> [[c]] | x # xs \<Rightarrow> (c # x) # xs)"

fun join_slash :: "string list \<Rightarrow> string" where
  "join_slash [] = []"
| "join_slash [s] = s"
| "join_slash (s # t # ts) = s @ CHR ''/'' # join_slash (t # ts)"

definition IsAbs :: "string \<Rightarrow> bool" where
  "IsAbs p \<longleftrightarrow> take 1 p = ''/''"

fun clean_elements :: "bool \<Rightarrow> string list \<Rightarrow> string list \<Rightarrow> string list" where
  \<comment> \<open>the elements kept so far, the last one first\<close>
  "clean_elements rooted kept [] = rev kept"
| "clean_elements rooted kept (e # es) =
     (if e = '''' \<or> e = ''.'' then clean_elements rooted kept es
      else if e = ''..'' then
        (if kept \<noteq> [] \<and> hd kept \<noteq> ''..'' then clean_elements rooted (tl kept) es
         else if rooted then clean_elements rooted kept es else clean_elements rooted (e # kept) es)
      else clean_elements rooted (e # kept) es)"

definition Clean :: "string \<Rightarrow> string" where
  "Clean p = (let s = (if IsAbs p then ''/'' else '''') @ join_slash (clean_elements (IsAbs p) [] (split_slash p))
     in if s = '''' then ''.'' else s)"

definition Base :: "string \<Rightarrow> string" where
  "Base p = (if p = '''' then ''.''
     else let s = rev (dropWhile (\<lambda>c. c = CHR ''/'') (rev p))
       in if s = '''' then ''/'' else last (split_slash s))"

definition JoinPath :: "string \<Rightarrow> string \<Rightarrow> string" where
  \<comment> \<open>\<open>filepath.Join\<close> of two parts, an empty one being left out\<close>
  "JoinPath a b = (if a = '''' \<and> b = '''' then '''' else if a = '''' then Clean b
     else if b = '''' then Clean a else Clean (a @ CHR ''/'' # b))"

definition auth_path :: "Config \<Rightarrow> string" where
  "auth_path cfg =
     (let authPath = ath_StorePath (con_Auth cfg); dir = sto_DataDir (con_Storage cfg)
      in if \<not> IsAbs authPath \<and> dir \<noteq> '''' then JoinPath dir (Base authPath) else authPath)"

section \<open>The function main\<close>

definition config_path :: "outside \<Rightarrow> string list \<Rightarrow> string" where
  \<comment> \<open>the arguments after the name of the program\<close>
  "config_path out args = (if args \<noteq> [] then hd args else out_Getenv out ''WUXIANG_AI_HUB_CONFIG'')"

definition run_on :: "'a schemas_scheme \<Rightarrow> schedulers" where
  \<comment> \<open>the opened store, with a worker and a scheduler that have done nothing yet\<close>
  "run_on w = \<lparr>rt_clock = rt_clock w, rt_wall = rt_wall w, rt_ticks = rt_ticks w, rt_uuid = rt_uuid w, rt_ids = rt_ids w,
     rt_faults = rt_faults w, db_index = db_index w, sh_rootDir = sh_rootDir w, sh_maxShardSize = sh_maxShardSize w,
     sh_syncOnWrite = sh_syncOnWrite w, sh_files = sh_files w, wk_running = False, wk_cycles = 0, wk_reevaled = 0,
     wk_skipped = 0, wk_failed = 0, sc_escalationRuns = 0, sc_reconRuns = 0\<rparr>"

datatype boot_result = BootFailed string err | Booted Config process

definition boot :: "outside \<Rightarrow> scripts \<Rightarrow> bcrypt \<Rightarrow> string list \<Rightarrow> (string \<Rightarrow> auth_store) \<Rightarrow> (string \<Rightarrow> schemas)
    \<Rightarrow> boot_result \<times> (string \<Rightarrow> schemas)" where
  \<comment> \<open>\<open>BootFailed\<close> is the exit with 1; both \<open>Start\<close> never fail\<close>
  "boot out entries bc args homes disks =
     (case Load out (config_path out args) of
        Inl e \<Rightarrow> (BootFailed ''load config'' e, disks)
      | Inr cfg \<Rightarrow>
          let dir = sto_DataDir (con_Storage cfg) in
          (case NewStore entries dir (sto_ShardMaxSize (con_Storage cfg)) (sto_SyncOnWrite (con_Storage cfg)) (disks dir) of
            (Inl e, w) \<Rightarrow> (BootFailed ''failed to open store'' e, disks(dir := w))
          | (Inr _, w) \<Rightarrow> (Booted cfg (startup bc cfg (homes (auth_path cfg)) (run_on w)), disks(dir := w))))"

section \<open>What opening leaves alone\<close>

definition same_data :: "'a schemas_scheme \<Rightarrow> 'a schemas_scheme \<Rightarrow> bool" where
  "same_data w w' \<longleftrightarrow> db_index w' = db_index w \<and> sh_files w' = sh_files w"

interpretation data: step_preorder same_data
  by unfold_locales (simp_all add: same_data_def)

lemma data_external: "keeps same_data external"
  by (rule keepsI) (auto simp: same_data_def elim!: external_cases)

lemma data_WallNow: "keeps same_data WallNow"
  by (rule keepsI) (auto simp: same_data_def WallNow_def)

lemma data_modify: "(\<And>w. same_data w (f w)) \<Longrightarrow> keeps same_data (modM f)"
  by (simp add: keeps_def modM_def)

lemma data_script: "keeps same_data (run_script n s)"
  unfolding run_script_def by (intro data.keeps_bind data_external) (auto simp: keeps_def same_data_def split: sum.split)

lemma data_create: "keeps same_data create_versions"
  unfolding create_versions_def by (intro data.keeps_bind data_external) (auto simp: keeps_def same_data_def split: sum.split)

lemma data_insert: "keeps same_data (insert_version row)"
  unfolding insert_version_def
  by (intro data.keeps_bind data_external data.keeps_get data.keeps_if data.keeps_fail data_modify) (simp add: same_data_def)

lemma data_tx:
  assumes "keeps same_data m"
  shows "keeps same_data (in_tx m)"
proof -
  have "keeps same_data (bindM m (\<lambda>_. external))" by (intro data.keeps_bind assms data_external)
  then have "same_data w (snd (case bindM m (\<lambda>_. external) w of
      (Inl e, w') \<Rightarrow> (Inl e, w'\<lparr>sd_versions := sd_versions w, sd_scripts := sd_scripts w, sd_made := sd_made w\<rparr>)
    | (Inr _, w') \<Rightarrow> (Inr (), w')))" for w
    by (auto simp: keeps_def same_data_def split: prod.splits sum.splits dest!: spec [of _ w])
  then show ?thesis unfolding in_tx_def by (intro data.keeps_bind data_external) (simp add: keeps_def)
qed

lemma data_apply: "keeps same_data (applyMigration entries v n)"
  unfolding applyMigration_def
  by (intro data.keeps_option data.keeps_fail data_tx data.keeps_bind data.keeps_map data_script data_WallNow data_insert)

lemma data_apply_all: "keeps same_data (apply_all entries applied names)"
proof (induction names)
  case (Cons n names)
  then show ?case unfolding apply_all.simps
    by (intro data.keeps_sum data.keeps_fail data.keeps_if data.keeps_bind data.keeps_map data_apply)
qed (simp add: data.keeps_ret)

lemma data_pragmas: "keeps same_data (run_pragmas ps)"
  by (induction ps) (auto intro!: data.keeps_all data_external)

lemma data_dirs: "keeps same_data (make_dirs ts)"
proof (induction ts)
  case (Cons t ts)
  then show ?case unfolding make_dirs.simps by (intro data.keeps_all data_external)
qed (simp add: data.keeps_ret)

lemma data_NewStore: "keeps same_data (NewStore entries dataDir maxShardSize syncOnWrite)"
  unfolding NewStore_def EnsureDirs_def OpenIndex_def migrate_def appliedMigrations_def
  by (intro data.keeps_bind data.keeps_map data.keeps_get data_modify data_external data_dirs data_pragmas data_create data_apply_all)
     (simp add: same_data_def)

section \<open>How a start ends\<close>

lemma opened_disk:
  assumes "schema_ok migrations_FS w" and "NewStore migrations_FS dataDir maxShardSize syncOnWrite w = (r, w')"
  shows "schema_ok migrations_FS w' \<and> same_data w w' \<and> (r = Inr () \<longrightarrow> sd_made w' = database_of [] empty_index)
    \<and> (r \<noteq> Inr () \<longrightarrow> rt_faults w \<noteq> [])"
  using NewStore_ok [OF assms] NewStore_quiet [OF assms(1), of dataDir maxShardSize syncOnWrite] assms(2)
    keepsD [OF data_NewStore assms(2)] by auto

definition came_up :: "bcrypt \<Rightarrow> auth_store \<Rightarrow> schemas \<Rightarrow> Config \<Rightarrow> process \<Rightarrow> bool" where
  \<comment> \<open>the process serves what the disk held, has not begun a loop, and runs unless the users
     could not be opened\<close>
  "came_up bc home w cfg p \<longleftrightarrow> Validate cfg = None
     \<and> db_index (pr_world p) = db_index w \<and> sh_files (pr_world p) = sh_files w
     \<and> pr_store_open p \<and> pr_jobs p = [] \<and> pr_shutdown p = NoSignal \<and> (\<forall>t. pr_loop p t = NotStarted \<and> \<not> pr_cancelled p t)
     \<and> pr_main p = (if fst (NewServer bc cfg home) = Inr () then Running else Crashed)"

lemma startup_came_up:
  assumes "Validate cfg = None" and "same_data w w'"
  shows "came_up bc home w cfg (startup bc cfg home (run_on w'))"
  using assms by (auto simp: came_up_def startup_def run_on_def restarted_def same_data_def split: prod.split sum.split)

lemma Load_validates: "Load out path = Inr cfg \<Longrightarrow> Validate cfg = None"
  by (auto simp: Load_def Let_def split: sum.splits option.splits)

text \<open>
  C25: How the program comes up. From stores that are new or that earlier starts have left, a start
  leaves every store with its data as it was and its migrations in order. It fails with the error
  of the configuration, before any store is touched, or with that of the store, and then only
  because a call outside failed; otherwise the configuration is valid, the tables are complete, and
  the process has the data of the directory that the configuration names: it runs, or has crashed
  because the users could not be opened.
\<close>

theorem boot_outcome:
  assumes "\<And>d. schema_ok migrations_FS (disks d)"
    and "boot out migrations_FS bc args homes disks = (b, disks')"
  shows "(\<forall>d. schema_ok migrations_FS (disks' d) \<and> same_data (disks d) (disks' d))
    \<and> (case Load out (config_path out args) of
        Inl e \<Rightarrow> b = BootFailed ''load config'' e \<and> disks' = disks
      | Inr cfg \<Rightarrow> let dir = sto_DataDir (con_Storage cfg) in (\<forall>d. d \<noteq> dir \<longrightarrow> disks' d = disks d)
          \<and> (case b of
              BootFailed msg e \<Rightarrow> msg = ''failed to open store'' \<and> rt_faults (disks dir) \<noteq> []
            | Booted c p \<Rightarrow> c = cfg \<and> sd_made (disks' dir) = database_of [] empty_index
                \<and> came_up bc (homes (auth_path cfg)) (disks dir) cfg p))"
proof (cases "Load out (config_path out args)")
  case (Inl e)
  with assms show ?thesis by (simp add: boot_def data.step_refl)
next
  case (Inr cfg)
  define dir where "dir = sto_DataDir (con_Storage cfg)"
  obtain r w where new: "NewStore migrations_FS dir (sto_ShardMaxSize (con_Storage cfg)) (sto_SyncOnWrite (con_Storage cfg)) (disks dir) = (r, w)"
    by (cases "NewStore migrations_FS dir (sto_ShardMaxSize (con_Storage cfg)) (sto_SyncOnWrite (con_Storage cfg)) (disks dir)")
  note opened = opened_disk [OF assms(1) new]
  have disks': "disks' = disks(dir := w)"
    and b: "b = (case r of Inl e \<Rightarrow> BootFailed ''failed to open store'' e
      | Inr _ \<Rightarrow> Booted cfg (startup bc cfg (homes (auth_path cfg)) (run_on w)))"
    using assms(2) Inr new by (auto simp: boot_def dir_def Let_def split: sum.splits)
  have "\<forall>d. schema_ok migrations_FS (disks' d) \<and> same_data (disks d) (disks' d)"
    using opened assms(1) by (simp add: disks' data.step_refl)
  moreover have "came_up bc (homes (auth_path cfg)) (disks dir) cfg (startup bc cfg (homes (auth_path cfg)) (run_on w))"
    using startup_came_up Load_validates [OF Inr] opened by blast
  ultimately show ?thesis using opened b by (cases r) (simp_all add: Inr disks' Let_def flip: dir_def)
qed

theorem boot_outcome_witness:
  "\<exists>cfg p disks'. boot sample_outside migrations_FS sample_bcrypt [''hub.yaml''] (\<lambda>_. sample_store) (\<lambda>_. fresh_store None [] empty_database)
      = (Booted cfg p, disks')
    \<and> sd_made (disks' ''./data'') = database_of [] empty_index"
proof -
  let ?disks = "\<lambda>_ :: string. fresh_store None [] empty_database"
  obtain b disks' where run: "boot sample_outside migrations_FS sample_bcrypt [''hub.yaml''] (\<lambda>_. sample_store) ?disks = (b, disks')"
    by (cases "boot sample_outside migrations_FS sample_bcrypt [''hub.yaml''] (\<lambda>_. sample_store) ?disks")
  have path: "config_path sample_outside [''hub.yaml''] = ''hub.yaml''" by (simp add: config_path_def)
  have dir: "sto_DataDir (con_Storage Defaults) = ''./data''" by (simp add: Defaults_def)
  from boot_outcome [OF fresh_schema run] have "\<exists>c p. b = Booted c p \<and> sd_made (disks' ''./data'') = database_of [] empty_index"
    by (cases b) (simp_all add: path sample_overrides dir fresh_store_def Let_def)
  with run show ?thesis by blast
qed

end
