(* ===== verification/Spec2Isabelle.thy ===== *)
theory Spec2Isabelle
  imports Process_Facts Interleaving_Facts Escalation_Facts Hubctl Rebuild_Facts Auth_Facts Hub_AI_Facts Hub_Brand_Facts Hub_Quality_Facts Reading_Facts Boot
begin

text \<open>
  WuxiangAIHub: the adjudication service (Go, below src/internal and src/cmd) and what makes it correct.

  \<^bold>\<open>The program.\<close> A case (\<open>domain.ComplianceCase\<close>) is registered over HTTP or imported in a batch,
  routed to a department by the active rule that fits it best, worked on, returned, cancelled or
  completed, and escalated when it is overdue. Each fact is appended as a line of JSON to a shard
  file and stored as a row of an SQLite index, inside one transaction of the index; the index can
  be made again from the shards. A scheduler escalates and reconciles, a worker routes cases again
  when the rules change, and users sign in for sessions. Beside this, the package hub holds two
  registries in memory, with their rules: the allocation of computing power, routes, offers and
  communities, and the licenses, inspections, catalogs, recalls and campaigns of a brand.

  \<^bold>\<open>How the code is written here.\<close> A struct is a \<open>record\<close> whose fields carry a short prefix, an
  enumeration of texts a \<open>datatype\<close> with one more constructor for any other text, an error a value
  of \<open>err\<close> (\<open>Wrap\<close> for \<open>%w\<close>). A method that can fail is an operation \<open>(err, 'w, 'a) op\<close>, a function
  from a state to a result and the next state; \<open>bindM\<close> is the sequence with the early return. The
  state of a part extends that of the part it calls: \<open>runtime\<close> (clock, identifiers, failures of
  calls outside), \<open>db\<close> (the tables), \<open>world\<close> (the shards), \<open>workers\<close>, \<open>schedulers\<close>, \<open>schemas\<close>, and
  \<open>auth_store\<close>, \<open>ai\<close> and \<open>brand\<close> on their own. Numbers are \<open>int\<close>, with \<open>wrap64\<close> wherever Go's 64 bits
  can overflow; times are nanoseconds since year 1; texts are lists of bytes.

  \<^bold>\<open>The theories\<close>, from the bottom:
  \<^item> \<open>Hub_Prelude\<close>: operations, what they keep (\<open>keeps\<close>, \<open>step_preorder\<close>), \<open>simulation\<close>,
    \<open>status_machine\<close>. \<open>Go_Time\<close>, \<open>Go_Strings\<close>, \<open>Go_Numbers\<close>, \<open>Go_Float\<close>, \<open>Go_Float_Value\<close>, \<open>Sha256\<close>: what is
    used of the standard library. \<open>Go_Runtime\<close>: the clock, the identifiers and the failures.
  \<^item> \<open>Domain\<close> (domain): the data, the transition table, matching of rules. \<open>Dispatch\<close> (dispatch):
    \<open>Adjudicate\<close>.
  \<^item> \<open>Index\<close> (index): tables, constraints, statements, queries, and the columns of each row.
    \<open>Shard\<close> (shard): \<open>Append\<close>, \<open>ReadAt\<close>, rotation, scanning. \<open>Repo\<close> (repo/store.go): \<open>WithTx\<close> and the
    writes in it. \<open>Rebuild\<close> (repo/rebuild.go): \<open>RebuildIndex\<close>, \<open>Reconcile\<close>, \<open>Diagnose\<close>.
  \<^item> \<open>Sql\<close>: tables, conditions, statements and queries, as far as the program uses them of SQLite.
    \<open>Statements\<close> (migrations, index): the scripts, and the text of every statement and query with
    the values it binds. \<open>Slices\<close>: the lists that are stored as JSON. \<open>Rows\<close>: what \<open>row.Scan\<close> reads.
    \<open>Statement_Facts\<close>, \<open>Reading_Facts\<close>: an interface of a table (\<open>stored_table\<close>) and its eight
    instances, and that the SQL does what \<open>Index\<close> says. \<open>Schema\<close>, \<open>Schema_Facts\<close> (index/schema.go,
    repo.New): opening the store, migrations, and the tables they make.
  \<^item> \<open>History\<close>: what never changes in the tables, as a preorder that operations keep. \<open>Success\<close>: what
    an operation does when nothing fails.
  \<^item> \<open>Case_Service\<close>, \<open>Rule_Service\<close>, \<open>Query_Service\<close>, \<open>Escalation_Service\<close> (service, auditlog),
    \<open>Worker\<close> (worker), \<open>Scheduler\<close> (scheduler); \<open>Case_Facts\<close>, \<open>Rule_Facts\<close> and
    \<open>Escalation_Facts\<close> say what they do.
  \<^item> \<open>Store_Relations\<close>: relations on the store that every operation keeps, from an interface of the
    writes (\<open>store_preorder\<close>, and \<open>tx_preorder\<close> for the operations in a transaction). \<open>System\<close>: all operations on the store as steps of one machine, in any
    order, with restarts. \<open>Interleaving\<close>, \<open>Interleaving_Facts\<close>: the operations divided at the points
    at which others can come in between.
  \<^item> \<open>Auth\<close>, \<open>Auth_Facts\<close> (auth): users and sessions. \<open>Http\<close>, \<open>Http_Facts\<close> (httpapi): handlers,
    middlewares, routes.
  \<^item> \<open>Config\<close> (config): defaults, environment, \<open>Validate\<close>, \<open>Load\<close>. \<open>Process\<close>, \<open>Process_Facts\<close>
    (cmd/wuxiangai, the goroutines): the running program. \<open>Boot\<close>: how it comes up, from the configuration
    to the process. \<open>Hubctl\<close> (cmd/hubctl): the commands.
  \<^item> \<open>Hub_AI\<close>, \<open>Hub_Policy\<close>, \<open>Hub_Brand\<close> and their \<open>_Facts\<close>, \<open>Hub_Quality_Facts\<close> (hub).

  \<^bold>\<open>What is shown.\<close>
  \<^item> For the case system, with any clock, any identifiers and any failures outside, and with
    operations that come in between the reads and the transactions of others: a case has exactly one
    current referral, keys are unique, and nothing that was recorded is lost or rewritten. As long
    as each write finds the case as it was read, the referral also agrees with the case, the level
    counts the escalations, rows only evolve as they may and a decided case stays decided; if it
    does not, a decided case can come back (\<open>Interleaving_Facts\<close>; \<open>System\<close> has the same for whole
    operations, one after the other). The running program refines this machine (\<open>Process_Facts\<close>).
  \<^item> For each operation, what it leaves behind on every branch, errors included (a failure leaves the
    index as it was, while lines that it has appended stay in the shards), and when it succeeds (\<open>Case_Facts\<close>, \<open>Rule_Facts\<close>, \<open>Dispatch\<close>, \<open>Http_Facts\<close>, \<open>Hub_Brand_Facts\<close>, \<open>Hub_AI_Facts\<close>).
  \<^item> For the stores: a line that was appended is read back; a rebuild makes each row from the last
    line with its key, changes nothing when it fails, and agrees with the shards after it;
    migrations are applied once and can be taken up again.
  \<^item> For the database: opening the store makes the tables that the statements need, whatever earlier
    runs have left; on them each statement and each query, as it is written in the source, does
    what the tables of \<open>Index\<close> do, and a row that is read is the row that was written
    (\<open>Statement_Facts\<close>, \<open>Reading_Facts\<close>, \<open>Schema_Facts\<close>). Below that, all theories work with \<open>Index\<close>.
  \<^item> For sessions: a token stands for its user until it expires or is logged out; who may do what
    over HTTP.
  \<^item> For the registries in memory: compute is conserved, whatever a cluster was added with; what the
    brand registry holds has been checked by the service, or was put in directly.
  \<^item> For the process: how a start ends and what it leaves, what the shutdown waits for, what can
    be cut short, and which configurations bring it down.
  Several theorems state what the code does where it does not do what it seems to mean; their text
  says so.

  \<^bold>\<open>Bounds and fuel.\<close> \<open>collect_pages\<close> has \<open>page_fuel\<close>, one page more than there are rows, and
  \<open>collect_pages_enough\<close> shows that it is enough; \<open>duration_terms\<close> has the length of the text,
  and each round reads at least one character, as do the readers of \<open>Slices\<close>; every other loop is structural or has a measure
  (\<open>runWithRetry\<close>: the attempts left, besides the deadline of the task; \<open>parse_flags\<close>: the arguments left). Each resumption of a job
  leaves one with a smaller \<open>job_size\<close>, or none. A page holds from 1 to 200
  rows, a line of a shard at most \<open>max_line\<close> bytes, a delay doubles at most ten times.

  \<^bold>\<open>What the model assumes.\<close> The database has a single connection, so a query or a transaction
  is one step. In \<open>System\<close> an operation as a whole is one step; \<open>Interleaving\<close> and \<open>Process\<close> divide
  operations at their reads and transactions, except for a reconciliation, which writes nothing. A failing call outside has no
  effect, and a write that fails leaves no bytes. Host and query times are in UTC, and texts are
  valid UTF-8. bcrypt, YAML, the JSON decoder, UUIDs and the clock are parameters, as is the order
  in which Go ranges over a map where it matters.

  \<^bold>\<open>Not modelled.\<close> The package applog and all logging (output only); the HTTP router and server, request
  identifiers and the recovery middleware (third-party code and its glue); the JSON of bodies,
  which are values here; the text that hubctl prints; SQLite itself, of which \<open>Sql\<close> has what the
  statements of the program need; getters that return a field, and the reads of \<open>repo.Store\<close>, which
  hand on to the queries of \<open>Index\<close>.
\<close>

end
